(* ===== verification/Prelude.thy ===== *)
theory Prelude
  imports Main "HOL-Library.AList" "HOL-Library.Multiset" "HOL-Library.List_Lexorder"
    "HOL-Library.Char_ord" "HOL-Library.Product_Lexorder"
begin

text \<open>
  Vocabulary shared by all components: results that may fail (\<open>'e + 'a\<close>, \<open>Inl\<close> for a raised
  exception), insertion-ordered dictionaries as association lists (\<open>AList.update\<close> keeps the
  position of an existing key, as a Python \<open>dict\<close> does), Python's \<open>str.strip\<close>, sorting by a
  key, and the generic lemmas the component proofs use.  A Python \<open>str\<close> is a \<open>string\<close>: a
  \<open>char\<close> stands for a code point below U+0100, and the order of \<open>Char_ord\<close> on characters and
  of \<open>List_Lexorder\<close> on strings is the code-point order of Python's comparisons.
\<close>

named_theorems result_simps \<open>unfolding of result-valued programs\<close>
named_theorems sort_facts \<open>facts about sorting by a key\<close>

subsection \<open>Results\<close>

definition bind_result :: "'e + 'a \<Rightarrow> ('a \<Rightarrow> 'e + 'b) \<Rightarrow> 'e + 'b" where
  "bind_result m f = (case m of Inl e \<Rightarrow> Inl e | Inr a \<Rightarrow> f a)"

lemma bind_result_simps [simp]:
  "bind_result (Inl e) f = Inl e"
  "bind_result (Inr a) f = f a"
  by (simp_all add: bind_result_def)

lemma bind_result_Inr [result_simps]:
  "bind_result m f = Inr b \<longleftrightarrow> (\<exists>a. m = Inr a \<and> f a = Inr b)"
  by (simp add: bind_result_def split: sum.splits)

lemma bind_result_InrE:
  assumes "bind_result m f = Inr b"
  obtains a where "m = Inr a" "f a = Inr b"
  using assms by (auto simp: bind_result_Inr)

lemma bind_result_Inl [result_simps]:
  "bind_result m f = Inl e \<longleftrightarrow> m = Inl e \<or> (\<exists>a. m = Inr a \<and> f a = Inl e)"
  by (auto simp add: bind_result_def split: sum.splits)

definition require :: "bool \<Rightarrow> 'e \<Rightarrow> 'e + unit" where
  "require b e = (if b then Inr () else Inl e)"

lemma require_Inr [simp]: "require b e = Inr u \<longleftrightarrow> b"
  by (simp add: require_def)

lemma require_Inl [simp]: "require b e = Inl e' \<longleftrightarrow> \<not> b \<and> e' = e"
  by (auto simp add: require_def)

text \<open>A comprehension whose body may raise: the first failure, in list order, is the result.\<close>

fun map_result :: "('a \<Rightarrow> 'e + 'b) \<Rightarrow> 'a list \<Rightarrow> 'e + 'b list" where
  "map_result f [] = Inr []"
| "map_result f (x # xs) =
     bind_result (f x) (\<lambda>y. bind_result (map_result f xs) (\<lambda>ys. Inr (y # ys)))"

lemma map_result_Inr_iff:
  "map_result f xs = Inr ys \<longleftrightarrow> list_all2 (\<lambda>x y. f x = Inr y) xs ys"
proof (induction xs arbitrary: ys)
  case Nil
  then show ?case by (cases ys) auto
next
  case (Cons x xs)
  then show ?case by (cases ys) (auto simp: result_simps)
qed

lemma map_result_pure:
  "(\<And>x. x \<in> set xs \<Longrightarrow> f x = Inr (g x)) \<Longrightarrow> map_result f xs = Inr (map g xs)"
  by (induction xs) auto

lemma map_result_InrD: "map_result f xs = Inr ys \<Longrightarrow> x \<in> set xs \<Longrightarrow> \<exists>y. f x = Inr y"
  by (auto simp: map_result_Inr_iff list_all2_conv_all_nth in_set_conv_nth)

text \<open>A loop that threads a state and may raise.\<close>

fun fold_result :: "('a \<Rightarrow> 's \<Rightarrow> 'e + 's) \<Rightarrow> 'a list \<Rightarrow> 's \<Rightarrow> 'e + 's" where
  "fold_result f [] s = Inr s"
| "fold_result f (x # xs) s = bind_result (f x s) (fold_result f xs)"

lemma fold_result_append:
  "fold_result f (xs @ ys) s = bind_result (fold_result f xs s) (fold_result f ys)"
  by (induction xs arbitrary: s) (auto simp: bind_result_def split: sum.splits)

lemma fold_result_invariant:
  assumes "fold_result f xs s = Inr t" and "P s"
    and "\<And>x s s'. x \<in> set xs \<Longrightarrow> P s \<Longrightarrow> f x s = Inr s' \<Longrightarrow> P s'"
  shows "P t"
  using assms
proof (induction xs arbitrary: s)
  case Nil
  then show ?case by simp
next
  case (Cons x xs)
  then obtain s' where "f x s = Inr s'" "fold_result f xs s' = Inr t"
    by (auto simp: result_simps)
  with Cons show ?case
    by (metis list.set_intros)
qed

lemma fold_invariant_set:
  "P s \<Longrightarrow> (\<And>x s. x \<in> set xs \<Longrightarrow> P s \<Longrightarrow> P (f x s)) \<Longrightarrow> P (fold f xs s)"
  by (induction xs arbitrary: s) auto

lemma fold_result_total:
  "(\<And>x s. x \<in> set xs \<Longrightarrow> \<exists>s'. f x s = Inr s') \<Longrightarrow> \<exists>s'. fold_result f xs s = Inr s'"
proof (induction xs arbitrary: s)
  case (Cons x xs)
  then obtain s' where "f x s = Inr s'" by (meson list.set_intros(1))
  with Cons show ?case by auto
qed simp

lemma map_result_total:
  assumes "\<And>x. x \<in> set xs \<Longrightarrow> \<exists>y. f x = Inr y"
  shows "\<exists>ys. map_result f xs = Inr ys"
proof -
  obtain g where "\<And>x. x \<in> set xs \<Longrightarrow> f x = Inr (g x)" using assms by metis
  then show ?thesis using map_result_pure by blast
qed

subsection \<open>Insertion-ordered dictionaries\<close>

type_synonym ('k, 'v) dict = "('k \<times> 'v) list"

definition dict_get :: "('k, 'v) dict \<Rightarrow> 'k \<Rightarrow> 'v \<Rightarrow> 'v" where
  "dict_get d k dflt = (case map_of d k of None \<Rightarrow> dflt | Some v \<Rightarrow> v)"

abbreviation dict_keys :: "('k, 'v) dict \<Rightarrow> 'k list" where
  "dict_keys d \<equiv> map fst d"

abbreviation dict_values :: "('k, 'v) dict \<Rightarrow> 'v list" where
  "dict_values d \<equiv> map snd d"

lemma dict_get_update [simp]:
  "dict_get (AList.update k v d) k' dflt = (if k' = k then v else dict_get d k' dflt)"
  by (simp add: dict_get_def update_conv')

lemma dict_get_Nil [simp]: "dict_get [] k dflt = dflt"
  by (simp add: dict_get_def)

lemma set_dict_keys_update [simp]:
  "set (dict_keys (AList.update k v d)) = insert k (set (dict_keys d))"
  by (auto simp: update_keys)

lemma fst_set_update [simp]: "fst ` set (AList.update k v d) = insert k (fst ` set d)"
  using set_dict_keys_update[of k v d] by (simp only: set_map)

lemma dict_values_conv:
  "distinct (dict_keys d) \<Longrightarrow> dict_values d = map (\<lambda>k. dict_get d k dflt) (dict_keys d)"
  by (auto simp: dict_get_def map_of_is_SomeI)

lemma update_fresh: "k \<notin> set (dict_keys d) \<Longrightarrow> AList.update k v d = d @ [(k, v)]"
  by (induction d) auto

lemma distinct_keys_update [intro]:
  "distinct (dict_keys d) \<Longrightarrow> distinct (dict_keys (AList.update k v d))"
  by (rule distinct_update)

text \<open>The interface every keyed store of the program offers to its clients.\<close>

locale keyed_store =
  fixes lookup :: "'s \<Rightarrow> 'k \<Rightarrow> 'v option"
    and store :: "'k \<Rightarrow> 'v \<Rightarrow> 's \<Rightarrow> 's"
    and empty :: 's
  assumes lookup_empty: "lookup empty k = None"
    and lookup_store: "lookup (store k v s) k' = (if k' = k then Some v else lookup s k')"
begin

definition store_all :: "('a \<Rightarrow> 'k) \<Rightarrow> ('a \<Rightarrow> 'v) \<Rightarrow> 'a list \<Rightarrow> 's \<Rightarrow> 's" where
  "store_all key val = fold (\<lambda>x. store (key x) (val x))"

lemma store_all_outside: "k \<notin> key ` set xs \<Longrightarrow> lookup (store_all key val xs s) k = lookup s k"
  by (induction xs arbitrary: s) (auto simp: store_all_def lookup_store)

lemma store_all_last:
  "lookup (store_all key val xs s) k =
    (if \<exists>x \<in> set xs. key x = k then Some (val (last (filter (\<lambda>x. key x = k) xs))) else lookup s k)"
proof (induction xs rule: rev_induct)
  case Nil
  then show ?case by (simp add: store_all_def)
next
  case (snoc x xs)
  then show ?case by (auto simp: store_all_def lookup_store)
qed

lemma store_all_inj:
  assumes "inj_on key (set xs)" and "x \<in> set xs"
  shows "lookup (store_all key val xs s) (key x) = Some (val x)"
proof -
  have "last (filter (\<lambda>y. key y = key x) xs) \<in> set (filter (\<lambda>y. key y = key x) xs)"
    using assms(2) by (intro last_in_set) (auto simp: filter_empty_conv)
  then have "last (filter (\<lambda>y. key y = key x) xs) = x"
    using assms by (auto dest: inj_onD)
  with assms(2) show ?thesis
    by (auto simp: store_all_last)
qed

end

interpretation alist: keyed_store map_of AList.update "[]"
  by unfold_locales (auto simp: update_conv')

subsection \<open>Sorting by a key\<close>

lemma sort_key_eq_of_mset [sort_facts]:
  "mset xs = mset ys \<Longrightarrow> inj_on f (set xs) \<Longrightarrow> sort_key f xs = sort_key f ys"
  by (rule sort_key_inj_key_eq) auto

lemma sort_key_eq_of_set [sort_facts]:
  assumes "distinct xs" "distinct ys" "set xs = set ys" "inj_on f (set xs)"
  shows "sort_key f xs = sort_key f ys"
  using assms by (intro sort_key_eq_of_mset) (auto simp: set_eq_iff_mset_eq_distinct)

lemma sort_eq_of_set:
  "distinct xs \<Longrightarrow> distinct ys \<Longrightarrow> set xs = set ys \<Longrightarrow> sort xs = sort ys"
  by (intro sort_key_eq_of_set) auto

lemma inj_on_of_distinct_map: "distinct (map f xs) \<Longrightarrow> inj_on f (set xs)"
  by (simp add: distinct_map)

lemma distinct_map_sort_key [simp]: "distinct (map f (sort_key g xs)) = distinct (map f xs)"
proof -
  have "mset (map f (sort_key g xs)) = mset (map f xs)" by simp
  then show ?thesis by (metis mset_eq_imp_distinct_iff)
qed

lemma mset_concat_buckets:
  assumes "distinct ks" and "\<forall>x \<in> set F. f x \<in> set ks"
  shows "mset (concat (map (\<lambda>k. filter (\<lambda>x. f x = k) F) ks)) = mset F"
  using assms
proof (induction ks arbitrary: F)
  case Nil
  then show ?case by (cases F) auto
next
  case (Cons k ks)
  let ?G = "filter (\<lambda>x. f x \<noteq> k) F"
  have "map (\<lambda>h. filter (\<lambda>x. f x = h) F) ks = map (\<lambda>h. filter (\<lambda>x. f x = h) ?G) ks"
    using Cons.prems by (auto intro!: map_cong filter_cong)
  moreover have "mset (concat (map (\<lambda>h. filter (\<lambda>x. f x = h) ?G) ks)) = mset ?G"
    by (rule Cons.IH) (use Cons.prems in auto)
  moreover have "mset F = mset (filter (\<lambda>x. f x = k) F) + mset ?G"
    by (simp add: multiset_partition[symmetric])
  ultimately show ?case by (simp only: list.map concat.simps mset_append)
qed

lemma sort_key_eq_Nil [simp]: "sort_key f xs = [] \<longleftrightarrow> xs = []"
  by (metis set_empty set_sort)

lemma map_hd_sort_key_inj:
  "mset xs = mset ys \<Longrightarrow> inj_on f (set xs) \<Longrightarrow> hd (sort_key f xs) = hd (sort_key f ys)"
  using sort_key_eq_of_mset by metis

lemma distinct_more_than_one:
  "distinct xs \<Longrightarrow> 1 < length xs \<longleftrightarrow> (\<exists>a \<in> set xs. \<exists>b \<in> set xs. a \<noteq> b)"
  by (cases xs; cases "tl xs") auto

lemma sum_list_map_sort_key [simp]:
  "sum_list (map f (sort_key g xs)) = sum_list (map f (xs :: 'a list) :: int list)"
proof -
  have "mset (map f (sort_key g xs)) = mset (map f xs)" by simp
  then show ?thesis by (metis sum_mset_sum_list)
qed

lemma image_subset_matching: "(\<And>e. e \<in> A \<Longrightarrow> \<exists>x \<in> B. f x = f e) \<Longrightarrow> f ` A \<subseteq> f ` B"
  by (metis image_eqI image_subsetI)

subsection \<open>Grouping and indexing by a key\<close>

text \<open>The loop over a \<open>defaultdict(list)\<close> and the comprehension \<open>{key(x): x for x in xs}\<close>.\<close>

definition group_by :: "('a \<Rightarrow> 'k) \<Rightarrow> 'a list \<Rightarrow> ('k, 'a list) dict" where
  "group_by key xs = fold (\<lambda>x d. AList.update (key x) (dict_get d (key x) [] @ [x]) d) xs []"

definition index_by :: "('a \<Rightarrow> 'k) \<Rightarrow> 'a list \<Rightarrow> ('k, 'a) dict" where
  "index_by key xs = fold (\<lambda>x. AList.update (key x) x) xs []"

lemma group_by_snoc:
  "group_by key (xs @ [x]) =
    AList.update (key x) (dict_get (group_by key xs) (key x) [] @ [x]) (group_by key xs)"
  by (simp add: group_by_def)

lemma group_by_Nil [simp]: "group_by key [] = []"
  by (simp add: group_by_def)

lemma dict_get_group_by [simp]: "dict_get (group_by key xs) k [] = filter (\<lambda>x. key x = k) xs"
  by (induction xs rule: rev_induct) (auto simp: group_by_snoc)

lemma set_map_filter: "set (List.map_filter f xs) = {y. \<exists>x \<in> set xs. f x = Some y}"
  by (induction xs) (auto simp: map_filter_simps split: option.splits)

lemma set_keys_group_by [simp]: "fst ` set (group_by key xs) = key ` set xs"
  by (induction xs rule: rev_induct) (auto simp: group_by_snoc)

lemma distinct_keys_group_by [simp]: "distinct (dict_keys (group_by key xs))"
  by (induction xs rule: rev_induct) (auto simp: group_by_snoc intro!: distinct_update)

lemma group_by_entry:
  "(k, ys) \<in> set (group_by key xs) \<longleftrightarrow> k \<in> key ` set xs \<and> ys = filter (\<lambda>x. key x = k) xs"
proof
  assume "(k, ys) \<in> set (group_by key xs)"
  then have "map_of (group_by key xs) k = Some ys"
    by (simp add: map_of_is_SomeI)
  then have "dict_get (group_by key xs) k [] = ys"
    by (simp add: dict_get_def)
  moreover have "k \<in> fst ` set (group_by key xs)"
    using imageI[OF \<open>(k, ys) \<in> set (group_by key xs)\<close>, of fst] by (simp only: fst_conv)
  ultimately show "k \<in> key ` set xs \<and> ys = filter (\<lambda>x. key x = k) xs" by simp
next
  assume a: "k \<in> key ` set xs \<and> ys = filter (\<lambda>x. key x = k) xs"
  then have "k \<in> fst ` set (group_by key xs)" by simp
  then obtain zs where "map_of (group_by key xs) k = Some zs"
    by (metis map_of_eq_None_iff option.exhaust)
  moreover from this have "zs = ys"
    using a dict_get_group_by[of key xs k] by (simp add: dict_get_def)
  ultimately show "(k, ys) \<in> set (group_by key xs)" by (metis map_of_SomeD)
qed

lemma group_by_bex:
  "(\<exists>it \<in> set (group_by key xs). P it) \<longleftrightarrow> (\<exists>x \<in> set xs. P (key x, filter (\<lambda>y. key y = key x) xs))"
proof
  assume "\<exists>it \<in> set (group_by key xs). P it"
  then obtain k ys where "(k, ys) \<in> set (group_by key xs)" "P (k, ys)" by (metis surj_pair)
  then show "\<exists>x \<in> set xs. P (key x, filter (\<lambda>y. key y = key x) xs)"
    by (auto simp: group_by_entry)
next
  assume "\<exists>x \<in> set xs. P (key x, filter (\<lambda>y. key y = key x) xs)"
  then show "\<exists>it \<in> set (group_by key xs). P it"
    using group_by_entry[of _ _ key xs] by blast
qed

lemma distinct_map_iff_single:
  "distinct (map f xs) \<longleftrightarrow> (\<forall>x \<in> set xs. length (filter (\<lambda>y. f y = f x) xs) \<le> 1)"
proof (induction xs)
  case (Cons a xs)
  have "filter (\<lambda>y. f y = f a) xs = [] \<longleftrightarrow> f a \<notin> f ` set xs"
    by (auto simp: filter_empty_conv image_iff eq_commute[of "f a"])
  moreover have "filter (\<lambda>y. f y = f x) xs \<noteq> []" if "x \<in> set xs" for x
    using that by (auto simp: filter_empty_conv)
  ultimately show ?case
    using Cons by (auto simp: le_Suc_eq)
qed simp

lemma length_filter_filter_le: "length (filter P (filter Q xs)) \<le> length (filter P xs)"
  by (induction xs) auto

lemma map_of_index_by:
  "map_of (index_by key xs) k =
    (if k \<in> key ` set xs then Some (last (filter (\<lambda>x. key x = k) xs)) else None)"
  using alist.store_all_last[of key "\<lambda>x. x" xs "[]" k]
  by (auto simp: index_by_def alist.store_all_def)

lemma index_by_None: "map_of (index_by key xs) k = None \<longleftrightarrow> (\<forall>x \<in> set xs. key x \<noteq> k)"
  by (auto simp: map_of_index_by)

lemma index_by_SomeD: "map_of (index_by key xs) k = Some x \<Longrightarrow> x \<in> set xs \<and> key x = k"
proof -
  assume a: "map_of (index_by key xs) k = Some x"
  then have "filter (\<lambda>x. key x = k) xs \<noteq> []" "x = last (filter (\<lambda>x. key x = k) xs)"
    by (auto simp: map_of_index_by filter_empty_conv split: if_splits)
  then have "x \<in> set (filter (\<lambda>x. key x = k) xs)" using last_in_set by metis
  then show ?thesis by simp
qed

lemma index_by_inj:
  "inj_on key (set xs) \<Longrightarrow> x \<in> set xs \<Longrightarrow> map_of (index_by key xs) (key x) = Some x"
  using alist.store_all_inj[of key xs x "\<lambda>x. x" "[]"] by (simp add: index_by_def alist.store_all_def)

lemma distinct_keys_index_by: "distinct (dict_keys (index_by key xs))"
  unfolding index_by_def by (rule fold_invariant_set) (auto intro!: distinct_update)

lemma index_by_entry: "(k, x) \<in> set (index_by key xs) \<Longrightarrow> x \<in> set xs \<and> key x = k"
  using index_by_SomeD[of key xs k x] distinct_keys_index_by[of key xs] by (simp add: map_of_is_SomeI)

lemma index_by_values_keys: "map key (dict_values (index_by key xs)) = dict_keys (index_by key xs)"
  by (auto dest: index_by_entry)

lemma index_by_values_subset: "set (dict_values (index_by key xs)) \<subseteq> set xs"
  by (auto dest: index_by_entry)

lemma index_by_values_image: "key ` set (dict_values (index_by key xs)) = key ` set xs"
proof -
  have "set (dict_keys (index_by key xs)) = key ` set xs"
    by (induction xs rule: rev_induct) (simp_all add: index_by_def)
  then show ?thesis by (metis index_by_values_keys set_map)
qed

subsection \<open>Whitespace at the ends of a text\<close>

definition is_space :: "char \<Rightarrow> bool" where
  "is_space c = (let n = (of_char c :: nat) in
     (9 \<le> n \<and> n \<le> 13) \<or> (28 \<le> n \<and> n \<le> 32) \<or> n = 133 \<or> n = 160)"

definition strip :: "string \<Rightarrow> string" where
  "strip s = rev (dropWhile is_space (rev (dropWhile is_space s)))"

text \<open>The check \<open>not value or value != value.strip()\<close> of the source, negated.\<close>

definition canonical_text :: "string \<Rightarrow> bool" where
  "canonical_text s = (s \<noteq> [] \<and> s = strip s)"

lemma dropWhile_id: "dropWhile P s = s \<longleftrightarrow> s = [] \<or> \<not> P (hd s)"
proof (cases s)
  case (Cons a xs)
  have "P a \<Longrightarrow> dropWhile P xs \<noteq> a # xs"
    using length_dropWhile_le[of P xs] by (metis impossible_Cons)
  with Cons show ?thesis by auto
qed simp

lemma canonical_text_iff:
  "canonical_text s \<longleftrightarrow> s \<noteq> [] \<and> \<not> is_space (hd s) \<and> \<not> is_space (last s)"
proof (cases "s = []")
  case False
  have len: "length (strip s) \<le> length (dropWhile is_space s)"
    unfolding strip_def by (metis length_dropWhile_le length_rev)
  show ?thesis
  proof (cases "is_space (hd s)")
    case True
    with False have "length (dropWhile is_space s) < length s"
      by (cases s) (auto simp: le_imp_less_Suc length_dropWhile_le)
    with len have "s \<noteq> strip s" by auto
    with True show ?thesis by (simp add: canonical_text_def)
  next
    case front: False
    then have "dropWhile is_space s = s" by (simp add: dropWhile_id)
    then have "s = strip s \<longleftrightarrow> dropWhile is_space (rev s) = rev s"
      unfolding strip_def by (metis rev_rev_ident)
    with False front show ?thesis
      by (auto simp: canonical_text_def dropWhile_id hd_rev)
  qed
qed (simp add: canonical_text_def)

end
