(* ===== verification/Numerals.thy ===== *)
theory Numerals
  imports Prelude
begin

text \<open>
  Decimal numerals as text: printing and reading of natural numbers and the fixed-width fields
  that ISO dates and money strings use, with the round trip between the two.  Python's
  \<open>str(int)\<close> and \<open>format\<close> print them, the parsers of money and dates read them.
\<close>

definition digit_char :: "nat \<Rightarrow> char" where
  "digit_char d = char_of (48 + d)"

definition is_digit :: "char \<Rightarrow> bool" where
  "is_digit c = (let n = (of_char c :: nat) in 48 \<le> n \<and> n \<le> 57)"

definition digit_value :: "char \<Rightarrow> nat" where
  "digit_value c = of_char c - 48"

lemma of_char_digit_char [simp]: "d < 10 \<Longrightarrow> (of_char (digit_char d) :: nat) = 48 + d"
  by (simp add: digit_char_def)

lemma is_digit_digit_char [simp]: "d < 10 \<Longrightarrow> is_digit (digit_char d)"
  by (simp add: is_digit_def)

lemma digit_value_digit_char [simp]: "d < 10 \<Longrightarrow> digit_value (digit_char d) = d"
  by (simp add: digit_value_def)

lemma digit_value_less [simp]: "is_digit c \<Longrightarrow> digit_value c < 10"
  by (simp add: is_digit_def digit_value_def Let_def) linarith

lemma digit_char_digit_value [simp]: "is_digit c \<Longrightarrow> digit_char (digit_value c) = c"
  by (simp add: is_digit_def digit_value_def digit_char_def Let_def)

lemma digit_char_neqI: "d < 10 \<Longrightarrow> (of_char c :: nat) < 48 \<Longrightarrow> digit_char d \<noteq> c"
  using of_char_digit_char[of d] by auto

lemma digit_char_neq_CHR [simp]:
  "d < 10 \<Longrightarrow> digit_char d \<noteq> CHR ''.''" "d < 10 \<Longrightarrow> digit_char d \<noteq> CHR ''-''"
  by (rule digit_char_neqI; simp)+

fun string_of_nat :: "nat \<Rightarrow> string" where
  "string_of_nat n =
     (if n < 10 then [digit_char n] else string_of_nat (n div 10) @ [digit_char (n mod 10)])"

declare string_of_nat.simps [simp del]

definition string_of_int :: "int \<Rightarrow> string" where
  "string_of_int i = (if i < 0 then ''-'' @ string_of_nat (nat (- i)) else string_of_nat (nat i))"

definition nat_of_digits :: "string \<Rightarrow> nat" where
  "nat_of_digits s = foldl (\<lambda>a c. 10 * a + digit_value c) 0 s"

lemma nat_of_digits_snoc [simp]:
  "nat_of_digits (s @ [c]) = 10 * nat_of_digits s + digit_value c"
  by (simp add: nat_of_digits_def)

lemma nat_of_digits_Nil [simp]: "nat_of_digits [] = 0"
  by (simp add: nat_of_digits_def)

lemma nat_of_digits_single [simp]: "nat_of_digits [c] = digit_value c"
  by (simp add: nat_of_digits_def)

lemma nat_of_digits_string_of_nat [simp]: "nat_of_digits (string_of_nat n) = n"
proof (induction n rule: string_of_nat.induct)
  case (1 n)
  then show ?case by (cases "n < 10") (auto simp: string_of_nat.simps[of n])
qed

lemma string_of_nat_digits: "c \<in> set (string_of_nat n) \<Longrightarrow> is_digit c"
proof (induction n rule: string_of_nat.induct)
  case (1 n)
  then show ?case by (cases "n < 10") (auto simp: string_of_nat.simps[of n])
qed

lemma string_of_nat_nonempty [simp]: "string_of_nat n \<noteq> []"
  by (simp add: string_of_nat.simps[of n])

lemma string_of_nat_inject [simp]: "string_of_nat m = string_of_nat n \<longleftrightarrow> m = n"
  by (metis nat_of_digits_string_of_nat)

text \<open>Without a leading zero, reading and printing again gives the text back.\<close>

definition no_leading_zero :: "string \<Rightarrow> bool" where
  "no_leading_zero s = (s = ''0'' \<or> (s \<noteq> [] \<and> hd s \<noteq> CHR ''0''))"

lemma digit_char_0 [simp]: "digit_char 0 = CHR ''0''"
  by code_simp

lemma digit_char_eq_0 [simp]: "d < 10 \<Longrightarrow> digit_char d = CHR ''0'' \<longleftrightarrow> d = 0"
  by (metis digit_char_0 digit_value_digit_char zero_less_numeral)

lemma no_leading_zero_string_of_nat: "no_leading_zero (string_of_nat n)"
proof (induction n rule: string_of_nat.induct)
  case (1 n)
  show ?case
  proof (cases "n < 10")
    case True
    then have "string_of_nat n = [digit_char n]" by (simp add: string_of_nat.simps[of n])
    with True show ?thesis by (auto simp: no_leading_zero_def)
  next
    case False
    then have "n div 10 \<noteq> 0" by auto
    then have "string_of_nat (n div 10) \<noteq> ''0''"
      by (metis digit_char_0 nat_of_digits_string_of_nat nat_of_digits_single
          digit_value_digit_char zero_less_numeral)
    with 1 False show ?thesis
      by (auto simp: string_of_nat.simps[of n] no_leading_zero_def hd_append)
  qed
qed

lemma nat_of_digits_pos:
  "s \<noteq> [] \<Longrightarrow> \<forall>c \<in> set s. is_digit c \<Longrightarrow> hd s \<noteq> CHR ''0'' \<Longrightarrow> 0 < nat_of_digits s"
proof (induction s rule: rev_induct)
  case (snoc c s)
  show ?case
  proof (cases "s = []")
    case True
    with snoc.prems have "digit_value c \<noteq> 0"
      by (metis digit_char_0 digit_char_digit_value append_Nil list.sel(1) list.set_intros(1))
    with True show ?thesis by simp
  next
    case False
    with snoc show ?thesis by (auto simp: hd_append)
  qed
qed simp

lemma string_of_nat_nat_of_digits:
  "\<forall>c \<in> set s. is_digit c \<Longrightarrow> no_leading_zero s \<Longrightarrow> string_of_nat (nat_of_digits s) = s"
proof (induction s rule: rev_induct)
  case Nil
  then show ?case by (simp add: no_leading_zero_def)
next
  case (snoc c s)
  show ?case
  proof (cases "s = []")
    case True
    with snoc.prems show ?thesis by (simp add: string_of_nat.simps[of "digit_value c"])
  next
    case False
    with snoc.prems have hd: "hd s \<noteq> CHR ''0''" and ds: "\<forall>c \<in> set s. is_digit c"
      by (auto simp: no_leading_zero_def hd_append append_eq_Cons_conv)
    then have pos: "0 < nat_of_digits s" using False by (simp add: nat_of_digits_pos)
    have c: "is_digit c" using snoc.prems by simp
    have "string_of_nat (nat_of_digits s) = s"
      using snoc.IH ds hd False by (simp add: no_leading_zero_def)
    moreover have "(10 * nat_of_digits s + digit_value c) div 10 = nat_of_digits s"
      "(10 * nat_of_digits s + digit_value c) mod 10 = digit_value c"
      using digit_value_less[OF c] by auto
    ultimately show ?thesis
      using pos c by (simp add: string_of_nat.simps[of "10 * nat_of_digits s + digit_value c"])
  qed
qed

subsection \<open>Fixed-width fields\<close>

fun pad_nat :: "nat \<Rightarrow> nat \<Rightarrow> string" where
  "pad_nat 0 n = []"
| "pad_nat (Suc w) n = pad_nat w (n div 10) @ [digit_char (n mod 10)]"

lemma length_pad_nat [simp]: "length (pad_nat w n) = w"
  by (induction w arbitrary: n) auto

lemma pad_nat_2: "pad_nat 2 n = [digit_char (n div 10 mod 10), digit_char (n mod 10)]"
proof -
  have "pad_nat 2 n = pad_nat (Suc (Suc 0)) n" by (simp only: numeral_2_eq_2)
  then show ?thesis by simp
qed

lemma pad_nat_digits: "c \<in> set (pad_nat w n) \<Longrightarrow> is_digit c"
  by (induction w arbitrary: n) auto

lemma nat_of_digits_pad_nat [simp]: "n < 10 ^ w \<Longrightarrow> nat_of_digits (pad_nat w n) = n"
proof (induction w arbitrary: n)
  case (Suc w)
  then have "n div 10 < 10 ^ w" by (simp add: less_mult_imp_div_less mult.commute)
  with Suc.IH show ?case by simp
qed simp

lemma nat_of_digits_less: "\<forall>c \<in> set s. is_digit c \<Longrightarrow> nat_of_digits s < 10 ^ length s"
proof (induction s rule: rev_induct)
  case (snoc c s)
  then have "digit_value c < 10" "nat_of_digits s < 10 ^ length s" by simp_all
  then show ?case by simp
qed simp

lemma pad_nat_nat_of_digits:
  "\<forall>c \<in> set s. is_digit c \<Longrightarrow> pad_nat (length s) (nat_of_digits s) = s"
proof (induction s rule: rev_induct)
  case (snoc c s)
  then have "digit_value c < 10" by simp
  with snoc show ?case by simp
qed simp

lemma pad_nat_inject:
  "m < 10 ^ w \<Longrightarrow> n < 10 ^ w \<Longrightarrow> pad_nat w m = pad_nat w n \<longleftrightarrow> m = n"
  by (metis nat_of_digits_pad_nat)

end
