(* ===== verification/Json.thy ===== *)
theory Json
  imports Numerals
begin

text \<open>
  The values \<open>json.loads\<close> produces and the text \<open>json.dumps(..., sort_keys=True,
  separators=(",", ":"), ensure_ascii=False)\<close> writes.  A float is kept as its printed text: no
  component computes with one, the contracts only reject it.
\<close>

datatype json =
    JNull
  | JBool bool
  | JInt int
  | JFloat string
  | JStr string
  | JArr "json list"
  | JObj "(string \<times> json) list"

definition hex_digit :: "nat \<Rightarrow> char" where
  "hex_digit d = (if d < 10 then digit_char d else char_of (87 + d))"

definition escape_char :: "char \<Rightarrow> string" where
  "escape_char c = (let n = (of_char c :: nat) in
     if n = 34 then [char_of (92 :: nat), c]
     else if n = 92 then [c, c]
     else if n = 8 then [char_of (92 :: nat), CHR ''b'']
     else if n = 12 then [char_of (92 :: nat), CHR ''f'']
     else if n = 10 then [char_of (92 :: nat), CHR ''n'']
     else if n = 13 then [char_of (92 :: nat), CHR ''r'']
     else if n = 9 then [char_of (92 :: nat), CHR ''t'']
     else if n < 32 then [char_of (92 :: nat)] @ ''u00'' @ [hex_digit (n div 16), hex_digit (n mod 16)]
     else [c])"

definition json_quote :: "string \<Rightarrow> string" where
  "json_quote s = char_of (34 :: nat) # concat (map escape_char s) @ [char_of (34 :: nat)]"

fun join :: "string \<Rightarrow> string list \<Rightarrow> string" where
  "join sep [] = []"
| "join sep [s] = s"
| "join sep (s # t # ts) = s @ sep @ join sep (t # ts)"

fun json_dumps :: "json \<Rightarrow> string" where
  "json_dumps JNull = ''null''"
| "json_dumps (JBool b) = (if b then ''true'' else ''false'')"
| "json_dumps (JInt i) = string_of_int i"
| "json_dumps (JFloat s) = s"
| "json_dumps (JStr s) = json_quote s"
| "json_dumps (JArr vs) = ''['' @ join '','' (map json_dumps vs) @ '']''"
| "json_dumps (JObj kvs) =
     CHR 0x7B # join '','' (map (\<lambda>(k, t). json_quote k @ '':'' @ t)
         (sort_key fst (map (\<lambda>(k, v). (k, json_dumps v)) kvs))) @ [CHR 0x7D]"

text \<open>\<open>json.dumps(..., sort_keys=True, indent=2, ensure_ascii=False)\<close>, at a nesting depth.\<close>

definition newline :: "nat \<Rightarrow> string" where
  "newline n = char_of (10 :: nat) # replicate (2 * n) CHR '' ''"

fun json_pretty :: "nat \<Rightarrow> json \<Rightarrow> string" where
  "json_pretty n (JArr vs) =
     (if vs = [] then ''[]''
      else ''['' @ newline (Suc n) @ join ('','' @ newline (Suc n)) (map (json_pretty (Suc n)) vs)
        @ newline n @ '']'')"
| "json_pretty n (JObj kvs) =
     (if kvs = [] then ''{}''
      else ''{'' @ newline (Suc n)
        @ join ('','' @ newline (Suc n)) (map (\<lambda>(k, t). json_quote k @ '': '' @ t)
            (sort_key fst (map (\<lambda>(k, v). (k, json_pretty (Suc n) v)) kvs)))
        @ newline n @ ''}'')"
| "json_pretty n v = json_dumps v"

text \<open>The text depends on the object's fields, not on the order in which they were inserted.\<close>

lemma json_dumps_key_order:
  assumes "mset kvs = mset kvs'" and "distinct (map fst kvs)"
  shows "json_dumps (JObj kvs) = json_dumps (JObj kvs')"
proof -
  let ?f = "\<lambda>(k, v). (k, json_dumps v)"
  have keys: "map fst (map ?f kvs) = map fst kvs"
    by (simp add: case_prod_beta comp_def)
  have "mset (map ?f kvs) = mset (map ?f kvs')"
    using assms(1) by (metis mset_map)
  moreover have "inj_on fst (set (map ?f kvs))"
    using assms(2) unfolding keys[symmetric] by (rule inj_on_of_distinct_map)
  ultimately have "sort_key fst (map ?f kvs) = sort_key fst (map ?f kvs')"
    by (rule sort_key_eq_of_mset)
  then show ?thesis by simp
qed

end
