(* ===== verification/Money.thy ===== *)
theory Money
  imports Json
begin

text \<open>
  \<open>threadline/money.py\<close>: parsing, rounding and printing of euro amounts and the MockPay fee.
  A \<open>decimal.Decimal\<close> is a sign, a coefficient and an exponent, or one of the non-finite values;
  \<open>dec_add\<close> and \<open>dec_mult\<close> round to the 28 digits of Python's default context.  The exponent
  limits of the context (\<open>Emin\<close>, \<open>Emax\<close>) are not modelled.
\<close>

subsection \<open>Decimals of the standard library\<close>

datatype decimal = Finite (dec_neg: bool) (dec_coef: nat) (dec_exp: int) | Infinite bool | NaN

definition precision :: nat where
  "precision = 28"

fun num_digits :: "nat \<Rightarrow> nat" where
  "num_digits n = (if n < 10 then 1 else Suc (num_digits (n div 10)))"

declare num_digits.simps [simp del]

text \<open>Rounding a result to the context's precision, half to even.\<close>

definition round_half_even :: "nat \<Rightarrow> nat \<Rightarrow> nat" where
  "round_half_even c p = (let q = c div p; r = c mod p in
     if 2 * r > p \<or> (2 * r = p \<and> odd q) then q + 1 else q)"

definition fix_precision :: "bool \<Rightarrow> nat \<Rightarrow> int \<Rightarrow> decimal" where
  "fix_precision s c e =
     (if num_digits c \<le> precision then Finite s c e
      else let k = num_digits c - precision; q = round_half_even c (10 ^ k) in
        if num_digits q \<le> precision then Finite s q (e + int k)
        else Finite s (q div 10) (e + int k + 1))"

definition signed_coef :: "bool \<Rightarrow> nat \<Rightarrow> int" where
  "signed_coef s c = (if s then - int c else int c)"

fun dec_add :: "decimal \<Rightarrow> decimal \<Rightarrow> decimal" where
  "dec_add (Finite s c e) (Finite s' c' e') =
     (let m = min e e';
          v = signed_coef s (c * 10 ^ nat (e - m)) + signed_coef s' (c' * 10 ^ nat (e' - m))
      in fix_precision (if v = 0 then s \<and> s' else v < 0) (nat \<bar>v\<bar>) m)"
| "dec_add NaN y = NaN"
| "dec_add x NaN = NaN"
| "dec_add (Infinite s) (Infinite s') = (if s = s' then Infinite s else NaN)"
| "dec_add (Infinite s) y = Infinite s"
| "dec_add x (Infinite s) = Infinite s"

fun dec_mult :: "decimal \<Rightarrow> decimal \<Rightarrow> decimal" where
  "dec_mult (Finite s c e) (Finite s' c' e') = fix_precision (s \<noteq> s') (c * c') (e + e')"
| "dec_mult NaN y = NaN"
| "dec_mult x NaN = NaN"
| "dec_mult (Infinite s) (Infinite s') = Infinite (s \<noteq> s')"
| "dec_mult (Infinite s) (Finite s' c e) = (if c = 0 then NaN else Infinite (s \<noteq> s'))"
| "dec_mult (Finite s c e) (Infinite s') = (if c = 0 then NaN else Infinite (s \<noteq> s'))"

text \<open>Numerical comparison of a magnitude \<open>c * 10^e\<close> with \<open>d * 10^f\<close>.\<close>

definition mag_gt :: "nat \<Rightarrow> int \<Rightarrow> nat \<Rightarrow> int \<Rightarrow> bool" where
  "mag_gt c e d f = (let m = min e f in d * 10 ^ nat (f - m) < c * 10 ^ nat (e - m))"

text \<open>\<open>quantize(Decimal("0.01"), rounding=ROUND_HALF_UP)\<close>: a tie goes away from zero.\<close>

definition round_half_up :: "nat \<Rightarrow> nat \<Rightarrow> nat" where
  "round_half_up c p = (2 * c + p) div (2 * p)"

definition quantize_cent :: "bool \<Rightarrow> nat \<Rightarrow> int \<Rightarrow> decimal option" where
  "quantize_cent s c e =
     (let c' = (if -2 \<le> e then c * 10 ^ nat (e + 2) else round_half_up c (10 ^ nat (-2 - e)))
      in if num_digits c' \<le> precision then Some (Finite s c' (-2)) else None)"

subsection \<open>The money module\<close>

datatype money_error =
    MoneyTypeError
  | InvalidMoneyError
  | UnsupportedCurrencyError
  | UnsupportedPaymentMethodError

definition EUR :: string where
  "EUR = ''EUR''"

text \<open>An exact amount of cents, as \<open>Decimal\<close> holds it: two decimals, no negative zero.\<close>

definition eur :: "int \<Rightarrow> decimal" where
  "eur c = Finite (c < 0) (nat \<bar>c\<bar>) (-2)"

definition ZERO_EUR :: decimal where
  "ZERO_EUR = Finite False 0 (-2)"

definition MAX_MONEY_CENTS :: nat where
  "MAX_MONEY_CENTS = 999999999999999999"

record fee_rule =
  fixed :: decimal
  rate :: decimal

definition FEE_RULES :: "(string, fee_rule) dict" where
  "FEE_RULES =
     [(''CARD'', \<lparr>fixed = Finite False 20 (-2), rate = Finite False 18 (-3)\<rparr>),
      (''WALLET'', \<lparr>fixed = Finite False 25 (-2), rate = Finite False 20 (-3)\<rparr>)]"

definition require_decimal :: "decimal \<Rightarrow> money_error + decimal" where
  "require_decimal v = (case v of Finite s c e \<Rightarrow> Inr v | _ \<Rightarrow> Inl InvalidMoneyError)"

definition require_supported_range :: "decimal \<Rightarrow> money_error + decimal" where
  "require_supported_range v = (case v of
       Finite s c e \<Rightarrow> if mag_gt c e MAX_MONEY_CENTS (-2) then Inl InvalidMoneyError else Inr v
     | _ \<Rightarrow> Inl InvalidMoneyError)"

text \<open>The expression \<open>-?(?:0|[1-9]\d*)\.\d{2}\Z\<close>; below U+0100 only 0-9 are matched by \<open>\d\<close>.\<close>

definition money_sign :: "string \<Rightarrow> bool" where
  "money_sign s = (s \<noteq> [] \<and> hd s = CHR ''-'')"

definition money_body :: "string \<Rightarrow> string" where
  "money_body s = (if money_sign s then tl s else s)"

definition money_int_part :: "string \<Rightarrow> string" where
  "money_int_part s = takeWhile (\<lambda>c. c \<noteq> CHR ''.'') (money_body s)"

definition money_fraction :: "string \<Rightarrow> string" where
  "money_fraction s = drop (Suc (length (money_int_part s))) (money_body s)"

definition money_pattern :: "string \<Rightarrow> bool" where
  "money_pattern s =
     (list_all is_digit (money_int_part s) \<and> no_leading_zero (money_int_part s)
      \<and> length (money_int_part s) < length (money_body s)
      \<and> length (money_fraction s) = 2 \<and> list_all is_digit (money_fraction s))"

definition decimal_of_string :: "string \<Rightarrow> decimal" where
  "decimal_of_string s =
     Finite (money_sign s) (nat_of_digits (money_int_part s @ money_fraction s)) (-2)"

definition parse_money :: "bool \<Rightarrow> json \<Rightarrow> money_error + decimal" where
  "parse_money allow_negative v = (case v of
       JStr s \<Rightarrow>
         if \<not> money_pattern s then Inl InvalidMoneyError
         else bind_result (require_supported_range (decimal_of_string s)) (\<lambda>amount.
           if dec_neg amount \<and> 0 < dec_coef amount \<and> \<not> allow_negative then Inl InvalidMoneyError
           else Inr (if dec_coef amount = 0 then ZERO_EUR else amount))
     | _ \<Rightarrow> Inl MoneyTypeError)"

definition round_eur :: "decimal \<Rightarrow> money_error + decimal" where
  "round_eur v = bind_result (require_decimal v) (\<lambda>amount.
     case quantize_cent (dec_neg amount) (dec_coef amount) (dec_exp amount) of
       None \<Rightarrow> Inl InvalidMoneyError
     | Some rounded \<Rightarrow> require_supported_range rounded)"

text \<open>\<open>format(x, ".2f")\<close> of a value that already has the exponent -2.\<close>

definition format_2f :: "decimal \<Rightarrow> string" where
  "format_2f v = (if dec_neg v then ''-'' else []) @ string_of_nat (dec_coef v div 100)
     @ ''.'' @ pad_nat 2 (dec_coef v mod 100)"

definition format_money :: "decimal \<Rightarrow> money_error + string" where
  "format_money v = bind_result (round_eur v) (\<lambda>r. Inr (format_2f r))"

definition calculate_fee :: "string \<Rightarrow> decimal \<Rightarrow> string \<Rightarrow> money_error + decimal" where
  "calculate_fee pay_method amount currency =
     (if currency \<noteq> EUR then Inl UnsupportedCurrencyError
      else case map_of FEE_RULES pay_method of
        None \<Rightarrow> Inl UnsupportedPaymentMethodError
      | Some rule \<Rightarrow>
          bind_result (require_decimal amount) (\<lambda>captured_amount.
          bind_result (require_supported_range captured_amount) (\<lambda>_.
            if dec_neg captured_amount \<and> 0 < dec_coef captured_amount then Inl InvalidMoneyError
            else round_eur (dec_add (fixed rule) (dec_mult captured_amount (rate rule))))))"

subsection \<open>Digits and rounding\<close>

lemma num_digits_le: "0 < p \<Longrightarrow> num_digits n \<le> p \<longleftrightarrow> n < 10 ^ p"
proof (induction n arbitrary: p rule: num_digits.induct)
  case (1 n)
  obtain q where p: "p = Suc q" using 1 by (cases p) auto
  show ?case
  proof (cases "n < 10")
    case True
    have "(10 :: nat) \<le> 10 ^ p" using p by (intro self_le_power) auto
    with True have "n < 10 ^ p" by (rule less_le_trans)
    with True p show ?thesis by (simp add: num_digits.simps[of n])
  next
    case False
    show ?thesis
    proof (cases "q = 0")
      case True
      then show ?thesis
        using False p by (auto simp: num_digits.simps[of n] num_digits.simps[of "n div 10"])
    next
      case q: False
      have "num_digits n \<le> p \<longleftrightarrow> num_digits (n div 10) \<le> q"
        using False p by (simp add: num_digits.simps[of n])
      also have "\<dots> \<longleftrightarrow> n div 10 < 10 ^ q" using 1 False q by simp
      also have "\<dots> \<longleftrightarrow> n < 10 ^ p"
        using p by (simp add: div_less_iff_less_mult mult.commute)
      finally show ?thesis .
    qed
  qed
qed

lemma num_digits_precision [simp]: "num_digits n \<le> precision \<longleftrightarrow> n < 10 ^ 28"
  by (simp add: precision_def num_digits_le)

lemma fix_precision_exact: "c < 10 ^ 28 \<Longrightarrow> fix_precision s c e = Finite s c e"
  by (simp add: fix_precision_def)

lemma round_half_up_error:
  assumes "0 < p"
  shows "2 * c < 2 * round_half_up c p * p + p \<and> 2 * round_half_up c p * p \<le> 2 * c + p"
proof -
  define q where "q = round_half_up c p"
  have eq: "2 * c + p = 2 * p * q + (2 * c + p) mod (2 * p)"
    unfolding q_def round_half_up_def by simp
  moreover have "(2 * c + p) mod (2 * p) < 2 * p" using assms by simp
  ultimately have "2 * c + p < 2 * p * q + 2 * p" "2 * p * q \<le> 2 * c + p" by linarith+
  then show ?thesis unfolding q_def[symmetric] by (simp add: algebra_simps)
qed

subsection \<open>Amounts in cents\<close>

lemma eur_zero: "eur 0 = ZERO_EUR"
  by (simp add: eur_def ZERO_EUR_def)

lemma eur_inject [simp]: "eur a = eur b \<longleftrightarrow> a = b"
  by (auto simp: eur_def)

lemma signed_coef_eur: "signed_coef (c < 0) (nat \<bar>c\<bar>) = c"
  by (simp add: signed_coef_def)

text \<open>
  Below 28 digits the sum of two cent amounts is exact, so the sums and differences of the
  reconciliation are additions and subtractions of integers.
\<close>

lemma dec_add_eur:
  assumes "\<bar>a + b\<bar> < 10 ^ 28"
  shows "dec_add (eur a) (eur b) = eur (a + b)"
proof -
  have "nat \<bar>a + b\<bar> < 10 ^ 28" using assms by (simp add: nat_less_iff)
  moreover have "a + b = 0 \<Longrightarrow> \<not> (a < 0 \<and> b < 0)" by linarith
  ultimately show ?thesis
    by (auto simp: eur_def signed_coef_eur[simplified] Let_def fix_precision_exact signed_coef_def)
qed

lemma mag_gt_max [simp]: "mag_gt c (-2) MAX_MONEY_CENTS (-2) \<longleftrightarrow> MAX_MONEY_CENTS < c"
  by (simp add: mag_gt_def)

lemma round_eur_eur:
  "\<bar>c\<bar> \<le> int MAX_MONEY_CENTS \<Longrightarrow> round_eur (eur c) = Inr (eur c)"
proof -
  assume c: "\<bar>c\<bar> \<le> int MAX_MONEY_CENTS"
  then have "nat \<bar>c\<bar> \<le> MAX_MONEY_CENTS" by linarith
  moreover from this have "nat \<bar>c\<bar> < 10 ^ 28" by (simp add: MAX_MONEY_CENTS_def)
  ultimately show ?thesis
    by (simp add: round_eur_def eur_def require_decimal_def quantize_cent_def
        require_supported_range_def)
qed

lemma round_eur_cents:
  assumes "round_eur v = Inr r"
  shows "\<exists>s c. r = Finite s c (-2) \<and> c \<le> MAX_MONEY_CENTS"
  using assms
  by (auto simp: round_eur_def result_simps quantize_cent_def require_supported_range_def Let_def
      split: option.splits if_splits)

subsection \<open>Money strings\<close>

lemma money_pattern_format:
  fixes c s
  defines "t \<equiv> format_2f (Finite s c (-2))"
  shows "money_pattern t" "decimal_of_string t = Finite s c (-2)"
proof -
  let ?i = "string_of_nat (c div 100)" and ?f = "pad_nat 2 (c mod 100)"
  have dig: "\<forall>x \<in> set ?i. is_digit x" "\<forall>x \<in> set ?f. is_digit x"
    by (auto intro: string_of_nat_digits pad_nat_digits)
  have nodash: "\<And>x. is_digit x \<Longrightarrow> x \<noteq> CHR ''-'' \<and> x \<noteq> CHR ''.''"
    by (auto simp: is_digit_def)
  have "is_digit (hd ?i)" using dig(1) by (simp add: hd_in_set)
  then have sign: "money_sign t = s"
    using nodash[of "hd ?i"] by (auto simp: t_def format_2f_def money_sign_def hd_append)
  have body: "money_body t = ?i @ ''.'' @ ?f"
    using sign by (auto simp: money_body_def t_def format_2f_def)
  have int: "money_int_part t = ?i"
    using dig(1) nodash by (auto simp: money_int_part_def body takeWhile_append2)
  have frac: "money_fraction t = ?f"
    by (simp add: money_fraction_def int body)
  show "money_pattern t"
    using dig by (simp add: money_pattern_def int frac body list_all_iff
        no_leading_zero_string_of_nat)
  have "nat_of_digits (?i @ ?f) = c"
  proof -
    define m where "m = c mod 100"
    have "nat_of_digits (?i @ ?f) =
        nat_of_digits ((?i @ [digit_char (m div 10 mod 10)]) @ [digit_char (m mod 10)])"
      by (simp add: pad_nat_2 m_def)
    also have "\<dots> = 10 * (10 * (c div 100) + m div 10 mod 10) + m mod 10"
      by (simp only: nat_of_digits_snoc nat_of_digits_string_of_nat) simp
    also have "m div 10 mod 10 = m div 10" by (simp add: m_def)
    also have "10 * (10 * (c div 100) + m div 10) + m mod 10 = 100 * (c div 100) + m" by simp
    also have "\<dots> = c" by (simp add: m_def)
    finally show ?thesis .
  qed
  then show "decimal_of_string t = Finite s c (-2)"
    by (simp add: decimal_of_string_def sign int frac)
qed

lemma format_decimal_of_string:
  assumes "money_pattern t"
  shows "format_2f (decimal_of_string t) = t"
proof -
  let ?i = "money_int_part t" and ?f = "money_fraction t"
  from assms have p: "\<forall>x \<in> set ?i. is_digit x" "\<forall>x \<in> set ?f. is_digit x" "no_leading_zero ?i"
    "length ?f = 2" "length ?i < length (money_body t)"
    by (auto simp: money_pattern_def list_all_iff)
  have body: "money_body t = ?i @ ''.'' @ ?f"
  proof -
    let ?P = "\<lambda>c. c \<noteq> CHR ''.''"
    have "dropWhile ?P (money_body t) \<noteq> []"
      using p(5) unfolding money_int_part_def
      by (metis append.right_neutral less_irrefl takeWhile_dropWhile_id)
    then obtain y ys where y: "dropWhile ?P (money_body t) = y # ys"
      by (cases "dropWhile ?P (money_body t)") auto
    then have "y = CHR ''.''" using hd_dropWhile[of ?P "money_body t"] by auto
    moreover have mb: "money_body t = ?i @ y # ys"
      using y unfolding money_int_part_def by (metis takeWhile_dropWhile_id)
    ultimately show ?thesis
      by (metis append_Cons append_Nil append_eq_conv_conj length_append_singleton money_fraction_def
          append_assoc)
  qed
  define c where "c = nat_of_digits (?i @ ?f)"
  obtain x y where f: "?f = [x, y]" using p(4) by (auto simp: length_Suc_conv numeral_2_eq_2)
  have dv: "digit_value x < 10" "digit_value y < 10" using p(2) f by auto
  have "c = nat_of_digits ((?i @ [x]) @ [y])" unfolding c_def f by simp
  then have c: "c = 100 * nat_of_digits ?i + (10 * digit_value x + digit_value y)"
    by (simp only: nat_of_digits_snoc) simp
  then have cd: "c div 100 = nat_of_digits ?i" "c mod 100 = 10 * digit_value x + digit_value y"
    using dv by auto
  have "pad_nat 2 (10 * digit_value x + digit_value y) = ?f"
    using p(2) dv f by (simp add: pad_nat_2)
  moreover have "string_of_nat (nat_of_digits ?i) = ?i"
    using p by (simp add: string_of_nat_nat_of_digits)
  ultimately have "format_2f (decimal_of_string t) =
      (if money_sign t then ''-'' else []) @ money_body t"
    by (simp add: format_2f_def decimal_of_string_def c_def[symmetric] cd body)
  also have "\<dots> = t"
    by (cases t) (auto simp: money_body_def money_sign_def)
  finally show ?thesis .
qed

lemma parse_money_Inr_iff:
  "parse_money neg_ok (JStr t) = Inr d \<longleftrightarrow>
    (money_pattern t \<and> dec_coef (decimal_of_string t) \<le> MAX_MONEY_CENTS
     \<and> (dec_neg (decimal_of_string t) \<and> 0 < dec_coef (decimal_of_string t) \<longrightarrow> neg_ok)
     \<and> d = (if dec_coef (decimal_of_string t) = 0 then ZERO_EUR else decimal_of_string t))"
  by (auto simp: parse_money_def result_simps require_supported_range_def decimal_of_string_def)

subsection \<open>The fee\<close>

lemma require_range_eur: "\<bar>c\<bar> \<le> int MAX_MONEY_CENTS \<Longrightarrow> require_supported_range (eur c) = Inr (eur c)"
proof -
  assume "\<bar>c\<bar> \<le> int MAX_MONEY_CENTS"
  then have "nat \<bar>c\<bar> \<le> MAX_MONEY_CENTS" by linarith
  then show ?thesis by (simp add: eur_def require_supported_range_def)
qed

lemma dec_add_nonneg:
  assumes "f \<le> e" and "a * 10 ^ nat (e - f) + b < 10 ^ 28"
  shows "dec_add (Finite False a e) (Finite False b f) = Finite False (a * 10 ^ nat (e - f) + b) f"
proof -
  let ?v = "a * 10 ^ nat (e - f) + b"
  have "signed_coef False (a * 10 ^ nat (e - f)) + signed_coef False (b * 10 ^ nat (f - f)) = int ?v"
    by (simp add: signed_coef_def)
  moreover have "(if int ?v = 0 then False \<and> False else int ?v < 0) = False"
    by (simp only: of_nat_less_0_iff if_cancel simp_thms split: if_splits)
  moreover have "nat \<bar>int ?v\<bar> = ?v" by (simp only: abs_of_nat nat_int)
  ultimately show ?thesis
    unfolding dec_add.simps(1) Let_def min_absorb2[OF assms(1)]
    by (simp only: fix_precision_exact[OF assms(2)])
qed

text \<open>The product and the sum stay far below the precision, so only the rounding to the cent is inexact.\<close>

lemma fee_arithmetic:
  assumes "n \<le> MAX_MONEY_CENTS" and "a \<le> 100" and "b \<le> 20"
  shows "round_eur (dec_add (Finite False a (-2)) (dec_mult (Finite False n (-2)) (Finite False b (-3))))
    = Inr (Finite False ((1000 * a + b * n + 500) div 1000) (-2))"
proof -
  have nb: "n * b \<le> MAX_MONEY_CENTS * 20" using assms(1,3) by (rule mult_le_mono)
  then have "n * b < 10 ^ 28" by (simp add: MAX_MONEY_CENTS_def)
  then have m: "dec_mult (Finite False n (-2)) (Finite False b (-3)) = Finite False (n * b) (-5)"
    by (simp add: fix_precision_exact)
  have "a * 10 ^ nat (-2 - -5) + n * b < 10 ^ 28"
    using nb assms(2) by (simp add: MAX_MONEY_CENTS_def)
  then have s: "dec_add (Finite False a (-2)) (Finite False (n * b) (-5)) = Finite False (1000 * a + b * n) (-5)"
    by (subst dec_add_nonneg) (simp_all add: mult.commute)
  have r: "round_half_up (1000 * a + b * n) (10 ^ nat 3) = (1000 * a + b * n + 500) div 1000"
  proof -
    have "2 * (1000 * a + b * n) + 1000 = 2 * (1000 * a + b * n + 500)" by simp
    then show ?thesis
      unfolding round_half_up_def using div_mult_mult1[of 2 "1000 * a + b * n + 500" 1000] by simp
  qed
  have le: "(1000 * a + b * n + 500) div 1000 \<le> MAX_MONEY_CENTS"
  proof -
    have "1000 * a + b * n + 500 \<le> 1000 * MAX_MONEY_CENTS"
      using nb assms(2) by (simp add: MAX_MONEY_CENTS_def mult.commute)
    then have "(1000 * a + b * n + 500) div 1000 \<le> (1000 * MAX_MONEY_CENTS) div 1000"
      by (rule div_le_mono)
    then show ?thesis by simp
  qed
  define q where "q = (1000 * a + b * n + 500) div 1000"
  have q: "round_half_up (1000 * a + b * n) 1000 = q" "q \<le> MAX_MONEY_CENTS"
    using r le by (simp_all add: q_def)
  then have "q < 10 ^ 28" by (simp add: MAX_MONEY_CENTS_def)
  then show ?thesis
    unfolding m s q_def[symmetric]
    using q by (simp add: round_eur_def require_decimal_def quantize_cent_def require_supported_range_def)
qed

end
