(* ===== verification/Calendar.thy ===== *)
theory Calendar
  imports Numerals
begin

text \<open>
  Dates and timestamps of Python's \<open>datetime\<close> module.  A \<open>date\<close> is its proleptic Gregorian
  ordinal (\<open>date.toordinal\<close>, 1 is 0001-01-01), so comparisons and \<open>timedelta(days=1)\<close> are
  comparisons and additions of integers.  A timestamp is either naive or carries an offset; an
  aware one is represented by its instant, the microseconds since 0001-01-01T00:00:00 UTC, which
  is all that \<open>astimezone(timezone.utc)\<close> and the comparisons of the source look at.  The rules of
  the zone Europe/Berlin live in the operating system's time-zone database: they are a parameter
  (\<open>zone\<close>).
\<close>

type_synonym date = int
type_synonym instant = int

datatype pydatetime = Naive int | Aware instant

definition is_leap :: "int \<Rightarrow> bool" where
  "is_leap y = (y mod 4 = 0 \<and> (y mod 100 \<noteq> 0 \<or> y mod 400 = 0))"

definition days_before_year :: "int \<Rightarrow> int" where
  "days_before_year y = (let p = y - 1 in p * 365 + p div 4 - p div 100 + p div 400)"

definition days_before_month :: "int \<Rightarrow> int \<Rightarrow> int" where
  "days_before_month y m =
     [0, 0, 31, 59, 90, 120, 151, 181, 212, 243, 273, 304, 334] ! nat m
     + (if 2 < m \<and> is_leap y then 1 else 0)"

definition days_in_month :: "int \<Rightarrow> int \<Rightarrow> int" where
  "days_in_month y m =
     (if m = 2 \<and> is_leap y then 29
      else [0, 31, 28, 31, 30, 31, 30, 31, 31, 30, 31, 30, 31] ! nat m)"

definition valid_ymd :: "int \<Rightarrow> int \<Rightarrow> int \<Rightarrow> bool" where
  "valid_ymd y m d = (1 \<le> y \<and> y \<le> 9999 \<and> 1 \<le> m \<and> m \<le> 12 \<and> 1 \<le> d \<and> d \<le> days_in_month y m)"

definition ord_of_ymd :: "int \<Rightarrow> int \<Rightarrow> int \<Rightarrow> date" where
  "ord_of_ymd y m d = days_before_year y + days_before_month y m + d"

text \<open>The year of an ordinal: the estimate by the mean year length is at most one too large.\<close>

definition year_of_ord :: "date \<Rightarrow> int" where
  "year_of_ord n =
     (let n' = n - 1; n400 = n' div 146097; r400 = n' mod 146097;
          n100 = r400 div 36524; r100 = r400 mod 36524;
          n4 = r100 div 1461; r4 = r100 mod 1461; n1 = r4 div 365;
          y = n400 * 400 + n100 * 100 + n4 * 4 + n1 + 1
      in if n1 = 4 \<or> n100 = 4 then y - 1 else y)"

definition month_of_yday :: "int \<Rightarrow> int \<Rightarrow> int" where
  "month_of_yday y k = (case filter (\<lambda>m. days_before_month y m < k) [12, 11, 10, 9, 8, 7, 6, 5, 4, 3, 2, 1]
                          of [] \<Rightarrow> 1 | m # _ \<Rightarrow> m)"

definition ymd_of_ord :: "date \<Rightarrow> int \<times> int \<times> int" where
  "ymd_of_ord n =
     (let y = year_of_ord n; k = n - days_before_year y; m = month_of_yday y k
      in (y, m, k - days_before_month y m))"

definition isoformat :: "date \<Rightarrow> string" where
  "isoformat n = (let (y, m, d) = ymd_of_ord n
     in pad_nat 4 (nat y) @ ''-'' @ pad_nat 2 (nat m) @ ''-'' @ pad_nat 2 (nat d))"

text \<open>
  \<open>date.fromisoformat\<close> followed by the check \<open>parsed.isoformat() == raw_value\<close>: exactly the
  texts YYYY-MM-DD of a valid date pass both, whatever other ISO forms the interpreter reads.
\<close>

definition canonical_date :: "string \<Rightarrow> date option" where
  "canonical_date s =
     (if length s = 10 \<and> s ! 4 = CHR ''-'' \<and> s ! 7 = CHR ''-''
         \<and> list_all is_digit (take 4 s @ take 2 (drop 5 s) @ drop 8 s)
      then let y = int (nat_of_digits (take 4 s)); m = int (nat_of_digits (take 2 (drop 5 s)));
               d = int (nat_of_digits (drop 8 s))
           in if valid_ymd y m d then Some (ord_of_ymd y m d) else None
      else None)"

definition day_micros :: int where
  "day_micros = 86400000000"

definition date_of_instant :: "int \<Rightarrow> date" where
  "date_of_instant t = t div day_micros + 1"

definition instant_of_date :: "date \<Rightarrow> int" where
  "instant_of_date d = (d - 1) * day_micros"

text \<open>\<open>isoformat().replace("+00:00", "Z")\<close> of a timestamp in UTC.\<close>

definition iso_utc :: "instant \<Rightarrow> string" where
  "iso_utc t = (let r = t mod day_micros; us = r mod 1000000; s = r div 1000000 in
     isoformat (date_of_instant t) @ ''T'' @ pad_nat 2 (nat (s div 3600)) @ '':''
       @ pad_nat 2 (nat (s div 60 mod 60)) @ '':'' @ pad_nat 2 (nat (s mod 60))
       @ (if us = 0 then [] else ''.'' @ pad_nat 6 (nat us)) @ ''Z'')"

text \<open>
  A zone: the UTC offset in microseconds of a wall-clock reading, used to place a local time on
  the time line, and the wall clock at an instant.
\<close>

record zone =
  offset_at_local :: "int \<Rightarrow> int"
  local_at_utc :: "instant \<Rightarrow> int"

definition local_to_utc :: "zone \<Rightarrow> int \<Rightarrow> instant" where
  "local_to_utc z t = t - offset_at_local z t"

text \<open>
  A zone is monotone where a later wall-clock day never starts at an earlier instant; every zone
  whose offsets stay within a day of each other has this property on whole days.
\<close>

definition offsets_bounded :: "zone \<Rightarrow> bool" where
  "offsets_bounded z = (\<forall>t. \<bar>offset_at_local z t\<bar> * 2 < day_micros)"

lemma local_to_utc_later_day:
  assumes "offsets_bounded z" and "s + day_micros \<le> t"
  shows "local_to_utc z s < local_to_utc z t"
proof -
  have "\<bar>offset_at_local z s\<bar> * 2 < day_micros" "\<bar>offset_at_local z t\<bar> * 2 < day_micros"
    using assms(1) by (simp_all add: offsets_bounded_def)
  with assms(2) show ?thesis by (simp add: local_to_utc_def)
qed

subsection \<open>Ordinals and calendar fields\<close>

lemma div_pred:
  assumes "0 < (k :: int)"
  shows "y div k = (y - 1) div k + (if y mod k = 0 then 1 else 0)"
proof (cases "y mod k = 0")
  case True
  then have "y - 1 = k * (y div k - 1) + (k - 1)"
    by (metis (no_types, opaque_lifting) add.commute add.right_neutral diff_add_cancel
        diff_diff_eq2 mult.right_neutral mult_div_mod_eq right_diff_distrib)
  then have "(y - 1) div k = y div k - 1"
    using assms by (intro int_div_pos_eq[where r = "k - 1"]) auto
  with True show ?thesis by simp
next
  case False
  have "y - 1 = k * (y div k) + (y mod k - 1)" by simp
  moreover have "0 \<le> y mod k - 1" "y mod k - 1 < k"
    using False assms by (smt (verit) pos_mod_bound pos_mod_sign)+
  ultimately have "(y - 1) div k = y div k" by (rule int_div_pos_eq)
  with False show ?thesis by simp
qed

lemma days_before_year_Suc:
  "days_before_year (y + 1) = days_before_year y + (if is_leap y then 366 else 365)"
proof -
  have "y div 4 = (y - 1) div 4 + (if y mod 4 = 0 then 1 else 0)"
    "y div 100 = (y - 1) div 100 + (if y mod 100 = 0 then 1 else 0)"
    "y div 400 = (y - 1) div 400 + (if y mod 400 = 0 then 1 else 0)"
    by (rule div_pred; simp)+
  moreover have "y mod 100 = 0 \<Longrightarrow> y mod 4 = 0" "y mod 400 = 0 \<Longrightarrow> y mod 100 = 0"
    by (simp_all add: mod_eq_0_iff_dvd) (auto elim!: dvdE)
  moreover have "days_before_year (y + 1) = y * 365 + y div 4 - y div 100 + y div 400"
    by (simp add: days_before_year_def)
  moreover have "days_before_year y =
      (y - 1) * 365 + (y - 1) div 4 - (y - 1) div 100 + (y - 1) div 400"
    by (simp add: days_before_year_def Let_def)
  ultimately show ?thesis
    unfolding is_leap_def by (smt (verit))
qed

lemma days_before_year_mono1: "days_before_year y + 365 \<le> days_before_year (y + 1)"
  by (simp add: days_before_year_Suc)

lemma days_before_year_parts:
  assumes "0 \<le> a" "a \<le> 3" "0 \<le> b" "b \<le> 24" "0 \<le> c" "c \<le> 3"
  shows "days_before_year (q * 400 + a * 100 + b * 4 + c + 1) =
    146097 * q + 36524 * a + 1461 * b + 365 * c"
proof -
  have "(q * 400 + a * 100 + b * 4 + c) div 4 = 100 * q + 25 * a + b"
    by (rule int_div_pos_eq[where r = c]) (use assms in auto)
  moreover have "(q * 400 + a * 100 + b * 4 + c) div 100 = 4 * q + a"
    by (rule int_div_pos_eq[where r = "b * 4 + c"]) (use assms in auto)
  moreover have "(q * 400 + a * 100 + b * 4 + c) div 400 = q"
    by (rule int_div_pos_eq[where r = "a * 100 + b * 4 + c"]) (use assms in auto)
  ultimately show ?thesis by (simp add: days_before_year_def)
qed

lemma is_leap_fourth:
  assumes "0 \<le> a" "a \<le> 3" "0 \<le> b" "b \<le> 23"
  shows "is_leap (q * 400 + a * 100 + b * 4 + 3 + 1)"
proof -
  have "q * 400 + a * 100 + b * 4 + 3 + 1 = (b * 4 + 4) + (4 * q + a) * 100" by simp
  then have "(q * 400 + a * 100 + b * 4 + 3 + 1) mod 100 = (b * 4 + 4) mod 100"
    by (metis mod_mult_self1)
  also have "\<dots> = b * 4 + 4" using assms by simp
  finally have "(q * 400 + a * 100 + b * 4 + 3 + 1) mod 100 \<noteq> 0" using assms by simp
  moreover have "q * 400 + a * 100 + b * 4 + 3 + 1 = (100 * q + 25 * a + b + 1) * 4" by simp
  then have "(q * 400 + a * 100 + b * 4 + 3 + 1) mod 4 = 0" by (metis mod_mult_self2_is_0)
  ultimately show ?thesis by (simp add: is_leap_def)
qed

lemma year_of_ord_bounds:
  "days_before_year (year_of_ord n) < n \<and> n \<le> days_before_year (year_of_ord n + 1)"
proof -
  define n400 r400 n100 r100 n4 r4 n1 r1 where
    "n400 = (n - 1) div 146097" and "r400 = (n - 1) mod 146097" and
    "n100 = r400 div 36524" and "r100 = r400 mod 36524" and
    "n4 = r100 div 1461" and "r4 = r100 mod 1461" and "n1 = r4 div 365" and "r1 = r4 mod 365"
  note defs = this
  have n: "n - 1 = 146097 * n400 + r400" "r400 = 36524 * n100 + r100" "r100 = 1461 * n4 + r4"
    "r4 = 365 * n1 + r1"
    unfolding defs by simp_all
  have b: "0 \<le> r400" "r400 < 146097" "0 \<le> r100" "r100 < 36524" "0 \<le> r4" "r4 < 1461"
    "0 \<le> r1" "r1 < 365"
    unfolding defs by simp_all
  then have c: "0 \<le> n100" "n100 \<le> 4" "0 \<le> n4" "n4 \<le> 24" "0 \<le> n1" "n1 \<le> 4"
    using n by linarith+
  let ?y = "n400 * 400 + n100 * 100 + n4 * 4 + n1 + 1"
  have y: "year_of_ord n = (if n1 = 4 \<or> n100 = 4 then ?y - 1 else ?y)"
    by (simp add: year_of_ord_def Let_def defs)
  show ?thesis
  proof (cases "n1 = 4 \<or> n100 = 4")
    case True
    then have Y: "year_of_ord n = ?y - 1" using y by simp
    show ?thesis
    proof (cases "n100 = 4")
      case True
      then have z: "n4 = 0" "n1 = 0" "r1 = 0" using n b c by linarith+
      have "days_before_year (n400 * 400 + 3 * 100 + 24 * 4 + 3 + 1) = n - 1 - 365"
        using n z True by (subst days_before_year_parts) auto
      moreover have "is_leap (n400 * 400 + 400)" by (simp add: is_leap_def)
      ultimately show ?thesis
        unfolding Y using True z days_before_year_Suc[of "n400 * 400 + 400"]
        by (simp add: algebra_simps)
    next
      case False
      then have z: "n1 = 4" "r1 = 0" "n100 \<le> 3" using True n b c by linarith+
      then have z4: "n4 \<le> 23" using n b c by linarith
      have "days_before_year (n400 * 400 + n100 * 100 + n4 * 4 + 3 + 1) = n - 1 - 365"
        using n z z4 c by (subst days_before_year_parts) auto
      moreover have "is_leap (n400 * 400 + n100 * 100 + n4 * 4 + 3 + 1)"
        using z z4 c by (rule_tac is_leap_fourth) auto
      ultimately show ?thesis
        unfolding Y using z days_before_year_Suc[of "n400 * 400 + n100 * 100 + n4 * 4 + 3 + 1"]
        by (simp add: algebra_simps)
    qed
  next
    case False
    then have Y: "year_of_ord n = ?y" using y by simp
    have c': "n1 \<le> 3" "n100 \<le> 3" using c False by linarith+
    have "days_before_year ?y = n - 1 - r1"
      using n c c' by (subst days_before_year_parts) auto
    moreover have "days_before_year ?y + 365 \<le> days_before_year (?y + 1)"
      by (rule days_before_year_mono1)
    ultimately show ?thesis unfolding Y using b by linarith
  qed
qed

end
