(* ===== verification/Contracts.thy ===== *)
theory Contracts
  imports Money Calendar
begin

text \<open>
  \<open>threadline/contracts.py\<close>: the closed vocabularies (string enums), the domain records and the
  parsers that turn a JSON object into one of them or raise a \<open>ContractViolation\<close>.  Amounts are
  cents (\<open>int\<close>), which the parser obtains from the exact two-decimal \<open>Decimal\<close> of
  \<open>parse_money\<close>; timestamps are UTC instants.  A violation keeps its code and its field; the
  English message is not modelled.  \<open>datetime.fromisoformat\<close> of the interpreter is the parameter
  \<open>fromiso\<close>.
\<close>

subsection \<open>String enums\<close>

datatype source_system = THREADLINE_SHOP | MOCKPAY

primrec source_system_value :: "source_system \<Rightarrow> string" where
  "source_system_value THREADLINE_SHOP = ''threadline_shop''"
| "source_system_value MOCKPAY = ''mockpay''"

datatype entity_type = ET_ORDER | ET_PAYMENT | ET_REFUND | ET_FEE | ET_SETTLEMENT_LINE | ET_PAYOUT

primrec entity_type_value :: "entity_type \<Rightarrow> string" where
  "entity_type_value ET_ORDER = ''ORDER''"
| "entity_type_value ET_PAYMENT = ''PAYMENT''"
| "entity_type_value ET_REFUND = ''REFUND''"
| "entity_type_value ET_FEE = ''FEE''"
| "entity_type_value ET_SETTLEMENT_LINE = ''SETTLEMENT_LINE''"
| "entity_type_value ET_PAYOUT = ''PAYOUT''"

datatype report_type =
    RT_ORDERS | RT_PAYMENTS | RT_REFUNDS | RT_FEES | RT_SETTLEMENT_LINES | RT_PAYOUTS

primrec report_type_value :: "report_type \<Rightarrow> string" where
  "report_type_value RT_ORDERS = ''orders''"
| "report_type_value RT_PAYMENTS = ''payments''"
| "report_type_value RT_REFUNDS = ''refunds''"
| "report_type_value RT_FEES = ''fees''"
| "report_type_value RT_SETTLEMENT_LINES = ''settlement_lines''"
| "report_type_value RT_PAYOUTS = ''payouts''"

datatype order_status = OS_PAYMENT_PENDING | OS_PAID | OS_CANCELLED

primrec order_status_value :: "order_status \<Rightarrow> string" where
  "order_status_value OS_PAYMENT_PENDING = ''PAYMENT_PENDING''"
| "order_status_value OS_PAID = ''PAID''"
| "order_status_value OS_CANCELLED = ''CANCELLED''"

datatype payment_status = PS_FAILED | PS_CAPTURED

primrec payment_status_value :: "payment_status \<Rightarrow> string" where
  "payment_status_value PS_FAILED = ''FAILED''"
| "payment_status_value PS_CAPTURED = ''CAPTURED''"

datatype refund_status = RF_FAILED | RF_SUCCEEDED

primrec refund_status_value :: "refund_status \<Rightarrow> string" where
  "refund_status_value RF_FAILED = ''FAILED''"
| "refund_status_value RF_SUCCEEDED = ''SUCCEEDED''"

datatype payment_method = PM_CARD | PM_WALLET

primrec payment_method_value :: "payment_method \<Rightarrow> string" where
  "payment_method_value PM_CARD = ''CARD''"
| "payment_method_value PM_WALLET = ''WALLET''"

datatype fee_type = FT_PROCESSING

primrec fee_type_value :: "fee_type \<Rightarrow> string" where
  "fee_type_value FT_PROCESSING = ''PROCESSING''"

datatype movement_type = MT_CAPTURE | MT_REFUND | MT_FEE

primrec movement_type_value :: "movement_type \<Rightarrow> string" where
  "movement_type_value MT_CAPTURE = ''CAPTURE''"
| "movement_type_value MT_REFUND = ''REFUND''"
| "movement_type_value MT_FEE = ''FEE''"

datatype source_completeness = SC_PENDING | SC_INCOMPLETE | SC_COMPLETE

primrec source_completeness_value :: "source_completeness \<Rightarrow> string" where
  "source_completeness_value SC_PENDING = ''PENDING''"
| "source_completeness_value SC_INCOMPLETE = ''INCOMPLETE''"
| "source_completeness_value SC_COMPLETE = ''COMPLETE''"

datatype reconciliation_state = RS_PENDING | RS_INCOMPLETE | RS_RECONCILED | RS_EXCEPTION

primrec reconciliation_state_value :: "reconciliation_state \<Rightarrow> string" where
  "reconciliation_state_value RS_PENDING = ''PENDING''"
| "reconciliation_state_value RS_INCOMPLETE = ''INCOMPLETE''"
| "reconciliation_state_value RS_RECONCILED = ''RECONCILED''"
| "reconciliation_state_value RS_EXCEPTION = ''EXCEPTION''"

datatype evidence_disposition =
    ED_ACCEPTED | ED_STALE | ED_DUPLICATE | ED_CONFLICTED | ED_QUARANTINED

primrec evidence_disposition_value :: "evidence_disposition \<Rightarrow> string" where
  "evidence_disposition_value ED_ACCEPTED = ''ACCEPTED''"
| "evidence_disposition_value ED_STALE = ''STALE''"
| "evidence_disposition_value ED_DUPLICATE = ''DUPLICATE''"
| "evidence_disposition_value ED_CONFLICTED = ''CONFLICTED''"
| "evidence_disposition_value ED_QUARANTINED = ''QUARANTINED''"

datatype exception_code =
    EC_BATCH_CONFLICT
  | EC_CAPTURE_FOR_NON_PAYABLE_ORDER
  | EC_CONFLICTING_SOURCE_VERSION
  | EC_DUPLICATE_SETTLEMENT_MOVEMENT
  | EC_EXCESS_REFUND
  | EC_FEE_MISMATCH
  | EC_MISSING_FEE
  | EC_MISSING_PAYMENT
  | EC_MISSING_SETTLEMENT_LINE
  | EC_MULTIPLE_CAPTURE
  | EC_ORPHAN_PAYMENT
  | EC_ORPHAN_REFUND
  | EC_PAYMENT_AMOUNT_MISMATCH
  | EC_PAYOUT_TOTAL_MISMATCH
  | EC_REFUND_CURRENCY_MISMATCH
  | EC_SETTLEMENT_LINE_AMOUNT_MISMATCH
  | EC_SOURCE_REPORT_INVALID
  | EC_SOURCE_REPORT_MISSING
  | EC_UNEXPECTED_FEE

primrec exception_code_value :: "exception_code \<Rightarrow> string" where
  "exception_code_value EC_BATCH_CONFLICT = ''BATCH_CONFLICT''"
| "exception_code_value EC_CAPTURE_FOR_NON_PAYABLE_ORDER = ''CAPTURE_FOR_NON_PAYABLE_ORDER''"
| "exception_code_value EC_CONFLICTING_SOURCE_VERSION = ''CONFLICTING_SOURCE_VERSION''"
| "exception_code_value EC_DUPLICATE_SETTLEMENT_MOVEMENT = ''DUPLICATE_SETTLEMENT_MOVEMENT''"
| "exception_code_value EC_EXCESS_REFUND = ''EXCESS_REFUND''"
| "exception_code_value EC_FEE_MISMATCH = ''FEE_MISMATCH''"
| "exception_code_value EC_MISSING_FEE = ''MISSING_FEE''"
| "exception_code_value EC_MISSING_PAYMENT = ''MISSING_PAYMENT''"
| "exception_code_value EC_MISSING_SETTLEMENT_LINE = ''MISSING_SETTLEMENT_LINE''"
| "exception_code_value EC_MULTIPLE_CAPTURE = ''MULTIPLE_CAPTURE''"
| "exception_code_value EC_ORPHAN_PAYMENT = ''ORPHAN_PAYMENT''"
| "exception_code_value EC_ORPHAN_REFUND = ''ORPHAN_REFUND''"
| "exception_code_value EC_PAYMENT_AMOUNT_MISMATCH = ''PAYMENT_AMOUNT_MISMATCH''"
| "exception_code_value EC_PAYOUT_TOTAL_MISMATCH = ''PAYOUT_TOTAL_MISMATCH''"
| "exception_code_value EC_REFUND_CURRENCY_MISMATCH = ''REFUND_CURRENCY_MISMATCH''"
| "exception_code_value EC_SETTLEMENT_LINE_AMOUNT_MISMATCH = ''SETTLEMENT_LINE_AMOUNT_MISMATCH''"
| "exception_code_value EC_SOURCE_REPORT_INVALID = ''SOURCE_REPORT_INVALID''"
| "exception_code_value EC_SOURCE_REPORT_MISSING = ''SOURCE_REPORT_MISSING''"
| "exception_code_value EC_UNEXPECTED_FEE = ''UNEXPECTED_FEE''"

definition source_system_members :: "source_system list" where
  "source_system_members = [THREADLINE_SHOP, MOCKPAY]"

definition entity_type_members :: "entity_type list" where
  "entity_type_members = [ET_ORDER, ET_PAYMENT, ET_REFUND, ET_FEE, ET_SETTLEMENT_LINE, ET_PAYOUT]"

definition report_type_members :: "report_type list" where
  "report_type_members = [RT_ORDERS, RT_PAYMENTS, RT_REFUNDS, RT_FEES, RT_SETTLEMENT_LINES, RT_PAYOUTS]"

definition order_status_members :: "order_status list" where
  "order_status_members = [OS_PAYMENT_PENDING, OS_PAID, OS_CANCELLED]"

definition payment_status_members :: "payment_status list" where
  "payment_status_members = [PS_FAILED, PS_CAPTURED]"

definition refund_status_members :: "refund_status list" where
  "refund_status_members = [RF_FAILED, RF_SUCCEEDED]"

definition payment_method_members :: "payment_method list" where
  "payment_method_members = [PM_CARD, PM_WALLET]"

definition fee_type_members :: "fee_type list" where
  "fee_type_members = [FT_PROCESSING]"

definition movement_type_members :: "movement_type list" where
  "movement_type_members = [MT_CAPTURE, MT_REFUND, MT_FEE]"

lemma entity_type_value_inject [simp]: "entity_type_value a = entity_type_value b \<longleftrightarrow> a = b"
  by (cases a; cases b; simp)

lemma report_type_value_inject [simp]: "report_type_value a = report_type_value b \<longleftrightarrow> a = b"
  by (cases a; cases b; simp)

lemma movement_type_value_inject [simp]: "movement_type_value a = movement_type_value b \<longleftrightarrow> a = b"
  by (cases a; cases b; simp)

lemma report_type_members_all: "set report_type_members = UNIV"
proof -
  have "r \<in> set report_type_members" for r by (cases r) (simp_all add: report_type_members_def)
  then show ?thesis by auto
qed

lemma exception_code_value_inject [simp]:
  "exception_code_value a = exception_code_value b \<longleftrightarrow> a = b"
  by (cases a; cases b; simp)

text \<open>A \<open>StringEnum\<close> member compares as its string value.\<close>

instantiation exception_code :: linorder
begin

definition less_eq_exception_code :: "exception_code \<Rightarrow> exception_code \<Rightarrow> bool" where
  "less_eq_exception_code a b = (exception_code_value a \<le> exception_code_value b)"

definition less_exception_code :: "exception_code \<Rightarrow> exception_code \<Rightarrow> bool" where
  "less_exception_code a b = (exception_code_value a < exception_code_value b)"

instance
  by standard (auto simp: less_eq_exception_code_def less_exception_code_def less_le)

end

subsection \<open>Domain records\<close>

record order =
  ord_id :: string
  ord_created_at_utc :: instant
  ord_status :: order_status
  ord_currency :: string
  ord_total :: int
  ord_source_version :: int

record payment =
  pay_id :: string
  pay_order_id :: string
  pay_attempt_number :: int
  pay_method :: payment_method
  pay_status :: payment_status
  pay_amount :: int
  pay_currency :: string
  pay_effective_at_utc :: instant
  pay_available_on :: "date option"
  pay_source_version :: int

record refund =
  ref_id :: string
  ref_payment_id :: string
  ref_status :: refund_status
  ref_amount :: int
  ref_currency :: string
  ref_effective_at_utc :: instant
  ref_available_on :: "date option"
  ref_source_version :: int

record fee =
  fee_id :: string
  fee_payment_id :: string
  fee_fee_type :: fee_type
  fee_amount :: int
  fee_currency :: string
  fee_effective_at_utc :: instant
  fee_available_on :: date
  fee_source_version :: int

record settlement_line =
  line_id :: string
  line_payout_id :: string
  line_movement_type :: movement_type
  line_movement_id :: string
  line_signed_amount :: int
  line_currency :: string
  line_source_version :: int

record payout =
  out_id :: string
  out_date :: date
  out_currency :: string
  out_reported_net_amount :: int
  out_source_version :: int

datatype financial_record =
    OrderRec order
  | PaymentRec payment
  | RefundRec refund
  | FeeRec fee
  | SettlementLineRec settlement_line
  | PayoutRec payout

primrec record_entity_type :: "financial_record \<Rightarrow> entity_type" where
  "record_entity_type (OrderRec r) = ET_ORDER"
| "record_entity_type (PaymentRec r) = ET_PAYMENT"
| "record_entity_type (RefundRec r) = ET_REFUND"
| "record_entity_type (FeeRec r) = ET_FEE"
| "record_entity_type (SettlementLineRec r) = ET_SETTLEMENT_LINE"
| "record_entity_type (PayoutRec r) = ET_PAYOUT"

primrec record_source_system :: "financial_record \<Rightarrow> source_system" where
  "record_source_system (OrderRec r) = THREADLINE_SHOP"
| "record_source_system (PaymentRec r) = MOCKPAY"
| "record_source_system (RefundRec r) = MOCKPAY"
| "record_source_system (FeeRec r) = MOCKPAY"
| "record_source_system (SettlementLineRec r) = MOCKPAY"
| "record_source_system (PayoutRec r) = MOCKPAY"

primrec record_id :: "financial_record \<Rightarrow> string" where
  "record_id (OrderRec r) = ord_id r"
| "record_id (PaymentRec r) = pay_id r"
| "record_id (RefundRec r) = ref_id r"
| "record_id (FeeRec r) = fee_id r"
| "record_id (SettlementLineRec r) = line_id r"
| "record_id (PayoutRec r) = out_id r"

primrec record_source_version :: "financial_record \<Rightarrow> int" where
  "record_source_version (OrderRec r) = ord_source_version r"
| "record_source_version (PaymentRec r) = pay_source_version r"
| "record_source_version (RefundRec r) = ref_source_version r"
| "record_source_version (FeeRec r) = fee_source_version r"
| "record_source_version (SettlementLineRec r) = line_source_version r"
| "record_source_version (PayoutRec r) = out_source_version r"

type_synonym identity = "string \<times> string \<times> string"

definition record_identity :: "financial_record \<Rightarrow> identity" where
  "record_identity r =
     (source_system_value (record_source_system r), entity_type_value (record_entity_type r),
      record_id r)"

record manifest =
  man_batch_id :: string
  man_source_system :: source_system
  man_report_type :: report_type
  man_business_date :: date
  man_schema_version :: int
  man_generated_at_utc :: instant
  man_row_count :: int
  man_sha256 :: string

record source_report_status =
  srs_source_system :: source_system
  srs_report_type :: report_type
  srs_business_date :: date
  srs_state :: source_completeness
  srs_batch_id :: "string option"

record exception_record =
  xr_code :: exception_code
  xr_entity_type :: string
  xr_entity_id :: string

definition exception_record_sort_key :: "exception_record \<Rightarrow> string \<times> string \<times> string" where
  "exception_record_sort_key x =
     (exception_code_value (xr_code x), xr_entity_type x, xr_entity_id x)"

record quarantined_record =
  qr_entity_type :: string
  qr_source_id :: "string option"
  qr_reason_code :: string
  qr_raw_payload_json :: string

definition quarantined_sort_key :: "quarantined_record \<Rightarrow> string \<times> string \<times> string" where
  "quarantined_sort_key q =
     (qr_entity_type q, (case qr_source_id q of None \<Rightarrow> [] | Some s \<Rightarrow> s), qr_reason_code q)"

definition CONTRACT_VERSION :: string where
  "CONTRACT_VERSION = ''threadline_financial_contract_v1''"

subsection \<open>Field parsers\<close>

datatype violation = Violation (violation_code: string) (violation_field: "string option")

type_synonym 'a parsed = "violation + 'a"
type_synonym payload = "(string, json) dict"

definition violation_at :: "string \<Rightarrow> violation" where
  "violation_at field = Violation ''INVALID_VALUE'' (Some field)"

definition type_violation :: "string \<Rightarrow> violation" where
  "type_violation field = Violation ''INVALID_TYPE'' (Some field)"

definition amount_violation :: "string \<Rightarrow> violation" where
  "amount_violation field = Violation ''INVALID_AMOUNT'' (Some field)"

definition require_keys :: "json \<Rightarrow> string list \<Rightarrow> string list \<Rightarrow> payload parsed" where
  "require_keys v required optional = (case v of
       JObj kvs \<Rightarrow>
         if \<not> list_all (\<lambda>k. k \<in> set (dict_keys kvs)) required
           then Inl (Violation ''MISSING_FIELD'' None)
         else if \<not> list_all (\<lambda>k. k \<in> set required \<or> k \<in> set optional) (dict_keys kvs)
           then Inl (Violation ''UNEXPECTED_FIELD'' None)
         else Inr kvs
     | _ \<Rightarrow> Inl (Violation ''INVALID_TYPE'' None))"

definition payload_get :: "payload \<Rightarrow> string \<Rightarrow> json" where
  "payload_get kvs k = dict_get kvs k JNull"

definition parse_text :: "json \<Rightarrow> string \<Rightarrow> string parsed" where
  "parse_text v field = (case v of
       JStr s \<Rightarrow> if canonical_text s then Inr s else Inl (violation_at field)
     | _ \<Rightarrow> Inl (type_violation field))"

definition parse_positive_integer :: "json \<Rightarrow> string \<Rightarrow> int parsed" where
  "parse_positive_integer v field = (case v of
       JInt i \<Rightarrow> if i \<le> 0 then Inl (violation_at field) else Inr i
     | _ \<Rightarrow> Inl (type_violation field))"

definition parse_non_negative_integer :: "json \<Rightarrow> string \<Rightarrow> int parsed" where
  "parse_non_negative_integer v field = (case v of
       JInt i \<Rightarrow> if i < 0 then Inl (violation_at field) else Inr i
     | _ \<Rightarrow> Inl (type_violation field))"

text \<open>\<open>enum_type(raw_value)\<close>: the member whose value is the text.\<close>

definition enum_lookup :: "('e \<Rightarrow> string) \<Rightarrow> 'e list \<Rightarrow> string \<Rightarrow> 'e option" where
  "enum_lookup val members s = find (\<lambda>m. val m = s) members"

definition parse_enum :: "('e \<Rightarrow> string) \<Rightarrow> 'e list \<Rightarrow> json \<Rightarrow> string \<Rightarrow> 'e parsed" where
  "parse_enum val members v field = bind_result (parse_text v field) (\<lambda>raw.
     case enum_lookup val members raw of
       None \<Rightarrow> Inl (violation_at field)
     | Some m \<Rightarrow> Inr m)"

definition parse_timestamp ::
  "(string \<Rightarrow> pydatetime option) \<Rightarrow> json \<Rightarrow> string \<Rightarrow> instant parsed" where
  "parse_timestamp fromiso v field = bind_result (parse_text v field) (\<lambda>raw.
     let normalized = (if last raw = CHR ''Z'' then butlast raw @ ''+00:00'' else raw)
     in case fromiso normalized of
          Some (Aware t) \<Rightarrow> Inr t
        | _ \<Rightarrow> Inl (violation_at field))"

definition parse_date :: "json \<Rightarrow> string \<Rightarrow> date parsed" where
  "parse_date v field = bind_result (parse_text v field) (\<lambda>raw.
     case canonical_date raw of
       None \<Rightarrow> Inl (violation_at field)
     | Some d \<Rightarrow> Inr d)"

definition parse_currency :: "json \<Rightarrow> string \<Rightarrow> string parsed" where
  "parse_currency v field = bind_result (parse_text v field) (\<lambda>currency.
     if currency \<noteq> EUR then Inl (Violation ''UNSUPPORTED_CURRENCY'' (Some field)) else Inr currency)"

definition cents_of :: "decimal \<Rightarrow> int" where
  "cents_of d = signed_coef (dec_neg d) (dec_coef d)"

definition parse_money_field :: "json \<Rightarrow> string \<Rightarrow> bool \<Rightarrow> bool \<Rightarrow> int parsed" where
  "parse_money_field v field positive allow_negative =
     (case parse_money allow_negative v of
        Inl e \<Rightarrow> Inl (amount_violation field)
      | Inr amount \<Rightarrow>
          if positive \<and> cents_of amount \<le> 0 then Inl (amount_violation field)
          else Inr (cents_of amount))"

subsection \<open>Record parsers\<close>

definition parse_order :: "(string \<Rightarrow> pydatetime option) \<Rightarrow> json \<Rightarrow> order parsed" where
  "parse_order fromiso v =
     bind_result (require_keys v [''order_id'', ''created_at_utc'', ''status'', ''currency'',
       ''order_total'', ''source_version''] []) (\<lambda>p.
     bind_result (parse_text (payload_get p ''order_id'') ''order_id'') (\<lambda>oid.
     bind_result (parse_timestamp fromiso (payload_get p ''created_at_utc'') ''created_at_utc'') (\<lambda>created.
     bind_result (parse_enum order_status_value order_status_members
       (payload_get p ''status'') ''status'') (\<lambda>status.
     bind_result (parse_currency (payload_get p ''currency'') ''currency'') (\<lambda>currency.
     bind_result (parse_money_field (payload_get p ''order_total'') ''order_total'' True False) (\<lambda>total.
     bind_result (parse_positive_integer (payload_get p ''source_version'') ''source_version'') (\<lambda>ver.
       Inr \<lparr>ord_id = oid, ord_created_at_utc = created, ord_status = status,
            ord_currency = currency, ord_total = total, ord_source_version = ver\<rparr>)))))))"

text \<open>The optional field \<open>available_on\<close>: required exactly for the money-moving status.\<close>

definition parse_available_on :: "bool \<Rightarrow> payload \<Rightarrow> date option parsed" where
  "parse_available_on effective p =
     (if effective then
        (if ''available_on'' \<notin> set (dict_keys p)
         then Inl (Violation ''MISSING_FIELD'' (Some ''available_on''))
         else bind_result (parse_date (payload_get p ''available_on'') ''available_on'')
                (\<lambda>d. Inr (Some d)))
      else if ''available_on'' \<in> set (dict_keys p) then Inl (violation_at ''available_on'')
      else Inr None)"

definition parse_payment :: "(string \<Rightarrow> pydatetime option) \<Rightarrow> json \<Rightarrow> payment parsed" where
  "parse_payment fromiso v =
     bind_result (require_keys v [''payment_id'', ''order_id'', ''attempt_number'',
       ''payment_method'', ''status'', ''amount'', ''currency'', ''effective_at_utc'',
       ''source_version''] [''available_on'']) (\<lambda>p.
     bind_result (parse_enum payment_status_value payment_status_members
       (payload_get p ''status'') ''status'') (\<lambda>status.
     bind_result (parse_available_on (status = PS_CAPTURED) p) (\<lambda>available.
     bind_result (parse_text (payload_get p ''payment_id'') ''payment_id'') (\<lambda>pid.
     bind_result (parse_text (payload_get p ''order_id'') ''order_id'') (\<lambda>oid.
     bind_result (parse_positive_integer (payload_get p ''attempt_number'') ''attempt_number'') (\<lambda>attempt.
     bind_result (parse_enum payment_method_value payment_method_members
       (payload_get p ''payment_method'') ''payment_method'') (\<lambda>pmethod.
     bind_result (parse_money_field (payload_get p ''amount'') ''amount'' True False) (\<lambda>amount.
     bind_result (parse_currency (payload_get p ''currency'') ''currency'') (\<lambda>currency.
     bind_result (parse_timestamp fromiso (payload_get p ''effective_at_utc'') ''effective_at_utc'') (\<lambda>effective.
     bind_result (parse_positive_integer (payload_get p ''source_version'') ''source_version'') (\<lambda>ver.
       Inr \<lparr>pay_id = pid, pay_order_id = oid, pay_attempt_number = attempt,
            pay_method = pmethod, pay_status = status, pay_amount = amount,
            pay_currency = currency, pay_effective_at_utc = effective,
            pay_available_on = available, pay_source_version = ver\<rparr>)))))))))))"

definition parse_refund :: "(string \<Rightarrow> pydatetime option) \<Rightarrow> json \<Rightarrow> refund parsed" where
  "parse_refund fromiso v =
     bind_result (require_keys v [''refund_id'', ''payment_id'', ''status'', ''amount'',
       ''currency'', ''effective_at_utc'', ''source_version''] [''available_on'']) (\<lambda>p.
     bind_result (parse_enum refund_status_value refund_status_members
       (payload_get p ''status'') ''status'') (\<lambda>status.
     bind_result (parse_available_on (status = RF_SUCCEEDED) p) (\<lambda>available.
     bind_result (parse_text (payload_get p ''refund_id'') ''refund_id'') (\<lambda>rid.
     bind_result (parse_text (payload_get p ''payment_id'') ''payment_id'') (\<lambda>pid.
     bind_result (parse_money_field (payload_get p ''amount'') ''amount'' True False) (\<lambda>amount.
     bind_result (parse_currency (payload_get p ''currency'') ''currency'') (\<lambda>currency.
     bind_result (parse_timestamp fromiso (payload_get p ''effective_at_utc'') ''effective_at_utc'') (\<lambda>effective.
     bind_result (parse_positive_integer (payload_get p ''source_version'') ''source_version'') (\<lambda>ver.
       Inr \<lparr>ref_id = rid, ref_payment_id = pid, ref_status = status, ref_amount = amount,
            ref_currency = currency, ref_effective_at_utc = effective,
            ref_available_on = available, ref_source_version = ver\<rparr>)))))))))"

definition parse_fee :: "(string \<Rightarrow> pydatetime option) \<Rightarrow> json \<Rightarrow> fee parsed" where
  "parse_fee fromiso v =
     bind_result (require_keys v [''fee_id'', ''payment_id'', ''fee_type'', ''amount'',
       ''currency'', ''effective_at_utc'', ''available_on'', ''source_version''] []) (\<lambda>p.
     bind_result (parse_text (payload_get p ''fee_id'') ''fee_id'') (\<lambda>fid.
     bind_result (parse_text (payload_get p ''payment_id'') ''payment_id'') (\<lambda>pid.
     bind_result (parse_enum fee_type_value fee_type_members
       (payload_get p ''fee_type'') ''fee_type'') (\<lambda>ftype.
     bind_result (parse_money_field (payload_get p ''amount'') ''amount'' True False) (\<lambda>amount.
     bind_result (parse_currency (payload_get p ''currency'') ''currency'') (\<lambda>currency.
     bind_result (parse_timestamp fromiso (payload_get p ''effective_at_utc'') ''effective_at_utc'') (\<lambda>effective.
     bind_result (parse_date (payload_get p ''available_on'') ''available_on'') (\<lambda>available.
     bind_result (parse_positive_integer (payload_get p ''source_version'') ''source_version'') (\<lambda>ver.
       Inr \<lparr>fee_id = fid, fee_payment_id = pid, fee_fee_type = ftype, fee_amount = amount,
            fee_currency = currency, fee_effective_at_utc = effective,
            fee_available_on = available, fee_source_version = ver\<rparr>)))))))))"

definition parse_settlement_line :: "json \<Rightarrow> settlement_line parsed" where
  "parse_settlement_line v =
     bind_result (require_keys v [''settlement_line_id'', ''payout_id'', ''movement_type'',
       ''movement_id'', ''signed_amount'', ''currency'', ''source_version''] []) (\<lambda>p.
     bind_result (parse_enum movement_type_value movement_type_members
       (payload_get p ''movement_type'') ''movement_type'') (\<lambda>mtype.
     bind_result (parse_money_field (payload_get p ''signed_amount'') ''signed_amount'' False True) (\<lambda>amount.
     bind_result (require (if mtype = MT_CAPTURE then 0 < amount else amount < 0)
       (Violation ''INVALID_MONEY_SIGN'' (Some ''signed_amount''))) (\<lambda>_.
     bind_result (parse_text (payload_get p ''settlement_line_id'') ''settlement_line_id'') (\<lambda>lid.
     bind_result (parse_text (payload_get p ''payout_id'') ''payout_id'') (\<lambda>pid.
     bind_result (parse_text (payload_get p ''movement_id'') ''movement_id'') (\<lambda>mid.
     bind_result (parse_currency (payload_get p ''currency'') ''currency'') (\<lambda>currency.
     bind_result (parse_positive_integer (payload_get p ''source_version'') ''source_version'') (\<lambda>ver.
       Inr \<lparr>line_id = lid, line_payout_id = pid, line_movement_type = mtype,
            line_movement_id = mid, line_signed_amount = amount, line_currency = currency,
            line_source_version = ver\<rparr>)))))))))"

definition parse_payout :: "json \<Rightarrow> payout parsed" where
  "parse_payout v =
     bind_result (require_keys v [''payout_id'', ''payout_date'', ''currency'',
       ''reported_net_amount'', ''source_version''] []) (\<lambda>p.
     bind_result (parse_text (payload_get p ''payout_id'') ''payout_id'') (\<lambda>pid.
     bind_result (parse_date (payload_get p ''payout_date'') ''payout_date'') (\<lambda>pdate.
     bind_result (parse_currency (payload_get p ''currency'') ''currency'') (\<lambda>currency.
     bind_result (parse_money_field (payload_get p ''reported_net_amount'') ''reported_net_amount''
       False False) (\<lambda>amount.
     bind_result (parse_positive_integer (payload_get p ''source_version'') ''source_version'') (\<lambda>ver.
       Inr \<lparr>out_id = pid, out_date = pdate, out_currency = currency,
            out_reported_net_amount = amount, out_source_version = ver\<rparr>))))))"

definition sha256_text :: "string \<Rightarrow> bool" where
  "sha256_text s = (length s = 64 \<and> list_all (\<lambda>c. is_digit c \<or> c \<in> set ''abcdef'') s)"

definition parse_manifest :: "(string \<Rightarrow> pydatetime option) \<Rightarrow> json \<Rightarrow> manifest parsed" where
  "parse_manifest fromiso v =
     bind_result (require_keys v [''batch_id'', ''source_system'', ''report_type'',
       ''business_date'', ''schema_version'', ''generated_at_utc'', ''row_count'', ''sha256''] []) (\<lambda>p.
     bind_result (parse_positive_integer (payload_get p ''schema_version'') ''schema_version'') (\<lambda>schema.
     bind_result (require (schema = 1)
       (Violation ''UNSUPPORTED_SCHEMA_VERSION'' (Some ''schema_version''))) (\<lambda>_.
     bind_result (parse_text (payload_get p ''sha256'') ''sha256'') (\<lambda>checksum.
     bind_result (require (sha256_text checksum) (violation_at ''sha256'')) (\<lambda>_.
     bind_result (parse_text (payload_get p ''batch_id'') ''batch_id'') (\<lambda>batch.
     bind_result (parse_enum source_system_value source_system_members
       (payload_get p ''source_system'') ''source_system'') (\<lambda>source.
     bind_result (parse_enum report_type_value report_type_members
       (payload_get p ''report_type'') ''report_type'') (\<lambda>rtype.
     bind_result (parse_date (payload_get p ''business_date'') ''business_date'') (\<lambda>bdate.
     bind_result (parse_timestamp fromiso (payload_get p ''generated_at_utc'') ''generated_at_utc'') (\<lambda>generated.
     bind_result (parse_non_negative_integer (payload_get p ''row_count'') ''row_count'') (\<lambda>rows.
       Inr \<lparr>man_batch_id = batch, man_source_system = source, man_report_type = rtype,
            man_business_date = bdate, man_schema_version = schema,
            man_generated_at_utc = generated, man_row_count = rows, man_sha256 = checksum\<rparr>)))))))))))"

definition parse_source_record ::
  "(string \<Rightarrow> pydatetime option) \<Rightarrow> entity_type \<Rightarrow> json \<Rightarrow> financial_record parsed" where
  "parse_source_record fromiso et v = (case et of
       ET_ORDER \<Rightarrow> bind_result (parse_order fromiso v) (\<lambda>r. Inr (OrderRec r))
     | ET_PAYMENT \<Rightarrow> bind_result (parse_payment fromiso v) (\<lambda>r. Inr (PaymentRec r))
     | ET_REFUND \<Rightarrow> bind_result (parse_refund fromiso v) (\<lambda>r. Inr (RefundRec r))
     | ET_FEE \<Rightarrow> bind_result (parse_fee fromiso v) (\<lambda>r. Inr (FeeRec r))
     | ET_SETTLEMENT_LINE \<Rightarrow> bind_result (parse_settlement_line v) (\<lambda>r. Inr (SettlementLineRec r))
     | ET_PAYOUT \<Rightarrow> bind_result (parse_payout v) (\<lambda>r. Inr (PayoutRec r)))"

text \<open>The same entry point with the type given as a string, the other form its callers use.\<close>

definition parse_source_record_named ::
  "(string \<Rightarrow> pydatetime option) \<Rightarrow> string \<Rightarrow> json \<Rightarrow> financial_record parsed" where
  "parse_source_record_named fromiso name v =
     (case enum_lookup entity_type_value entity_type_members name of
        None \<Rightarrow> Inl (Violation ''UNSUPPORTED_ENTITY_TYPE'' (Some ''entity_type''))
      | Some et \<Rightarrow> parse_source_record fromiso et v)"

primrec id_field :: "entity_type \<Rightarrow> string" where
  "id_field ET_ORDER = ''order_id''"
| "id_field ET_PAYMENT = ''payment_id''"
| "id_field ET_REFUND = ''refund_id''"
| "id_field ET_FEE = ''fee_id''"
| "id_field ET_SETTLEMENT_LINE = ''settlement_line_id''"
| "id_field ET_PAYOUT = ''payout_id''"

definition quarantine_from_violation ::
  "entity_type + string \<Rightarrow> payload \<Rightarrow> violation \<Rightarrow> quarantined_record" where
  "quarantine_from_violation et p viol =
     \<lparr>qr_entity_type = (case et of Inl t \<Rightarrow> entity_type_value t | Inr name \<Rightarrow> name),
      qr_source_id =
        (case et of
           Inl t \<Rightarrow> (case map_of p (id_field t) of Some (JStr s) \<Rightarrow> Some s | _ \<Rightarrow> None)
         | Inr name \<Rightarrow> None),
      qr_reason_code = violation_code viol,
      qr_raw_payload_json = json_dumps (JObj p)\<rparr>"

subsection \<open>What a parsed record guarantees\<close>

definition amount_in_range :: "int \<Rightarrow> bool" where
  "amount_in_range c = (\<bar>c\<bar> \<le> int MAX_MONEY_CENTS)"

definition positive_amount :: "int \<Rightarrow> bool" where
  "positive_amount c = (0 < c \<and> amount_in_range c)"

definition well_formed_order :: "order \<Rightarrow> bool" where
  "well_formed_order r = (canonical_text (ord_id r) \<and> ord_currency r = EUR
     \<and> positive_amount (ord_total r) \<and> 0 < ord_source_version r)"

definition well_formed_payment :: "payment \<Rightarrow> bool" where
  "well_formed_payment r = (canonical_text (pay_id r) \<and> canonical_text (pay_order_id r)
     \<and> pay_currency r = EUR \<and> positive_amount (pay_amount r) \<and> 0 < pay_attempt_number r
     \<and> (pay_available_on r \<noteq> None \<longleftrightarrow> pay_status r = PS_CAPTURED) \<and> 0 < pay_source_version r)"

definition well_formed_refund :: "refund \<Rightarrow> bool" where
  "well_formed_refund r = (canonical_text (ref_id r) \<and> canonical_text (ref_payment_id r)
     \<and> ref_currency r = EUR \<and> positive_amount (ref_amount r)
     \<and> (ref_available_on r \<noteq> None \<longleftrightarrow> ref_status r = RF_SUCCEEDED) \<and> 0 < ref_source_version r)"

definition well_formed_fee :: "fee \<Rightarrow> bool" where
  "well_formed_fee r = (canonical_text (fee_id r) \<and> canonical_text (fee_payment_id r)
     \<and> fee_currency r = EUR \<and> positive_amount (fee_amount r) \<and> 0 < fee_source_version r)"

definition well_formed_line :: "settlement_line \<Rightarrow> bool" where
  "well_formed_line r = (canonical_text (line_id r) \<and> canonical_text (line_payout_id r)
     \<and> canonical_text (line_movement_id r) \<and> line_currency r = EUR
     \<and> amount_in_range (line_signed_amount r)
     \<and> (if line_movement_type r = MT_CAPTURE then 0 < line_signed_amount r
        else line_signed_amount r < 0)
     \<and> 0 < line_source_version r)"

definition well_formed_payout :: "payout \<Rightarrow> bool" where
  "well_formed_payout r = (canonical_text (out_id r) \<and> out_currency r = EUR
     \<and> 0 \<le> out_reported_net_amount r \<and> amount_in_range (out_reported_net_amount r)
     \<and> 0 < out_source_version r)"

primrec well_formed :: "financial_record \<Rightarrow> bool" where
  "well_formed (OrderRec r) = well_formed_order r"
| "well_formed (PaymentRec r) = well_formed_payment r"
| "well_formed (RefundRec r) = well_formed_refund r"
| "well_formed (FeeRec r) = well_formed_fee r"
| "well_formed (SettlementLineRec r) = well_formed_line r"
| "well_formed (PayoutRec r) = well_formed_payout r"

lemmas well_formed_defs = well_formed_order_def well_formed_payment_def well_formed_refund_def
  well_formed_fee_def well_formed_line_def well_formed_payout_def

named_theorems parse_facts \<open>what a successful field parser guarantees\<close>

lemma require_keys_Inr [parse_facts]:
  "require_keys v required optional = Inr kvs \<longleftrightarrow>
     v = JObj kvs \<and> set required \<subseteq> set (dict_keys kvs)
     \<and> set (dict_keys kvs) \<subseteq> set required \<union> set optional"
  by (auto simp: require_keys_def list_all_iff split: json.splits if_splits)

lemma parse_text_Inr [parse_facts]: "parse_text v f = Inr s \<longleftrightarrow> v = JStr s \<and> canonical_text s"
  by (auto simp: parse_text_def split: json.splits if_splits)

lemma parse_positive_integer_Inr [parse_facts]:
  "parse_positive_integer v f = Inr i \<longleftrightarrow> v = JInt i \<and> 0 < i"
  by (auto simp: parse_positive_integer_def split: json.splits if_splits)

lemma parse_non_negative_integer_Inr [parse_facts]:
  "parse_non_negative_integer v f = Inr i \<longleftrightarrow> v = JInt i \<and> 0 \<le> i"
  by (auto simp: parse_non_negative_integer_def split: json.splits if_splits)

lemma enum_lookup_Some: "enum_lookup val ms s = Some m \<Longrightarrow> m \<in> set ms \<and> val m = s"
  by (auto simp: enum_lookup_def find_Some_iff)

lemma enum_lookup_inj:
  "inj_on val (set ms) \<Longrightarrow> m \<in> set ms \<Longrightarrow> enum_lookup val ms (val m) = Some m"
  unfolding enum_lookup_def
  by (induction ms) (auto simp: inj_on_def)

lemma parse_enum_Inr [parse_facts]:
  "parse_enum val ms v f = Inr m \<longleftrightarrow>
     (\<exists>s. v = JStr s \<and> canonical_text s \<and> enum_lookup val ms s = Some m)"
  by (auto simp: parse_enum_def result_simps parse_text_Inr split: option.splits)

lemma parse_currency_Inr [parse_facts]:
  "parse_currency v f = Inr s \<longleftrightarrow> v = JStr s \<and> canonical_text s \<and> s = EUR"
  by (auto simp: parse_currency_def result_simps parse_text_Inr split: if_splits)

lemma parse_date_Inr [parse_facts]:
  "parse_date v f = Inr d \<longleftrightarrow>
     (\<exists>s. v = JStr s \<and> canonical_text s \<and> canonical_date s = Some d)"
  by (auto simp: parse_date_def result_simps parse_text_Inr split: option.splits)

lemma parse_money_cents:
  assumes "parse_money neg_ok v = Inr d"
  shows "d = eur (cents_of d) \<and> amount_in_range (cents_of d) \<and> (neg_ok \<or> 0 \<le> cents_of d)"
proof -
  obtain t where v: "v = JStr t" using assms by (cases v) (auto simp: parse_money_def)
  from assms[unfolded v] have d: "dec_coef (decimal_of_string t) \<le> MAX_MONEY_CENTS"
    "dec_neg (decimal_of_string t) \<and> 0 < dec_coef (decimal_of_string t) \<longrightarrow> neg_ok"
    "d = (if dec_coef (decimal_of_string t) = 0 then ZERO_EUR else decimal_of_string t)"
    unfolding parse_money_Inr_iff by simp_all
  obtain s c where dec: "decimal_of_string t = Finite s c (-2)" by (simp add: decimal_of_string_def)
  show ?thesis
  proof (cases "c = 0")
    case True
    then have "d = ZERO_EUR" using d(3) dec by simp
    then show ?thesis by (simp add: ZERO_EUR_def eur_def cents_of_def signed_coef_def amount_in_range_def)
  next
    case False
    then have "d = Finite s c (-2)" using d(3) dec by simp
    with d(1,2) dec False show ?thesis
      by (auto simp: eur_def cents_of_def signed_coef_def amount_in_range_def)
  qed
qed

lemma parse_money_field_Inr [parse_facts]:
  "parse_money_field v f positive neg_ok = Inr c \<longleftrightarrow>
     parse_money neg_ok v = Inr (eur c) \<and> amount_in_range c \<and> (neg_ok \<or> 0 \<le> c)
     \<and> (positive \<longrightarrow> 0 < c)"
proof -
  have "cents_of (eur x) = x" for x by (simp add: eur_def cents_of_def signed_coef_def)
  then show ?thesis
    by (auto simp: parse_money_field_def split: sum.splits if_splits dest: parse_money_cents)
qed

lemma parse_available_on_Inr [parse_facts]:
  "parse_available_on effective p = Inr d \<Longrightarrow>
     (d \<noteq> None) = effective \<and> (''available_on'' \<in> set (dict_keys p)) = effective"
  by (auto simp: parse_available_on_def result_simps split: if_splits)

text \<open>The same facts in destruction form, for taking a successful record parser apart.\<close>

lemma parse_text_D: "parse_text v f = Inr s \<Longrightarrow> canonical_text s"
  by (simp add: parse_text_Inr)

lemma parse_positive_integer_D: "parse_positive_integer v f = Inr i \<Longrightarrow> 0 < i"
  by (simp add: parse_positive_integer_Inr)

lemma parse_currency_D: "parse_currency v f = Inr s \<Longrightarrow> s = EUR"
  by (simp add: parse_currency_Inr)

lemma parse_money_positive_D: "parse_money_field v f True neg_ok = Inr c \<Longrightarrow> positive_amount c"
  by (simp add: parse_money_field_Inr positive_amount_def)

lemma parse_money_signed_D: "parse_money_field v f False True = Inr c \<Longrightarrow> amount_in_range c"
  by (simp add: parse_money_field_Inr)

lemma parse_money_unsigned_D:
  "parse_money_field v f False False = Inr c \<Longrightarrow> 0 \<le> c \<and> amount_in_range c"
  by (simp add: parse_money_field_Inr)

lemma parse_available_on_D:
  "parse_available_on effective p = Inr d \<Longrightarrow> (d \<noteq> None) = effective"
  by (drule parse_available_on_Inr) simp

lemmas parse_destructs = parse_text_D parse_positive_integer_D parse_currency_D
  parse_money_positive_D parse_money_signed_D parse_money_unsigned_D parse_available_on_D

lemma parse_order_well_formed: "parse_order fromiso v = Inr r \<Longrightarrow> well_formed_order r"
  unfolding parse_order_def well_formed_order_def
  by (elim bind_result_InrE) (auto dest!: parse_destructs split: if_splits)

lemma parse_payment_well_formed: "parse_payment fromiso v = Inr r \<Longrightarrow> well_formed_payment r"
  unfolding parse_payment_def well_formed_payment_def
  by (elim bind_result_InrE) (auto dest!: parse_destructs split: if_splits)

lemma parse_refund_well_formed: "parse_refund fromiso v = Inr r \<Longrightarrow> well_formed_refund r"
  unfolding parse_refund_def well_formed_refund_def
  by (elim bind_result_InrE) (auto dest!: parse_destructs split: if_splits)

lemma parse_fee_well_formed: "parse_fee fromiso v = Inr r \<Longrightarrow> well_formed_fee r"
  unfolding parse_fee_def well_formed_fee_def
  by (elim bind_result_InrE) (auto dest!: parse_destructs split: if_splits)

lemma parse_line_well_formed: "parse_settlement_line v = Inr r \<Longrightarrow> well_formed_line r"
  unfolding parse_settlement_line_def well_formed_line_def
  by (elim bind_result_InrE) (auto dest!: parse_destructs split: if_splits)

lemma parse_payout_well_formed: "parse_payout v = Inr r \<Longrightarrow> well_formed_payout r"
  unfolding parse_payout_def well_formed_payout_def
  by (elim bind_result_InrE) (auto dest!: parse_destructs split: if_splits)

lemmas parsers_well_formed = parse_order_well_formed parse_payment_well_formed
  parse_refund_well_formed parse_fee_well_formed parse_line_well_formed parse_payout_well_formed

subsection \<open>The fee schedule in cents\<close>

definition scheduled_fee :: "payment_method \<Rightarrow> int \<Rightarrow> int" where
  "scheduled_fee m c = (case m of
       PM_CARD \<Rightarrow> (20 * 1000 + 18 * c + 500) div 1000
     | PM_WALLET \<Rightarrow> (25 * 1000 + 20 * c + 500) div 1000)"

lemma calculate_fee_eur:
  assumes "0 \<le> c" and "c \<le> int MAX_MONEY_CENTS"
  shows "calculate_fee (payment_method_value m) (eur c) EUR = Inr (eur (scheduled_fee m c))"
proof -
  obtain n where n: "c = int n" "n \<le> MAX_MONEY_CENTS"
    using assms by (metis nonneg_int_cases of_nat_le_iff)
  have e: "eur c = Finite False n (-2)" using n by (simp add: eur_def)
  have "require_supported_range (eur c) = Inr (eur c)" using assms by (intro require_range_eur) simp
  then have rng: "require_supported_range (Finite False n (-2)) = Inr (Finite False n (-2))" by (simp only: e)
  have f: "eur (int k) = Finite False k (-2)" for k by (simp add: eur_def)
  show ?thesis
  proof (cases m)
    case PM_CARD
    have "eur (scheduled_fee m c) = Finite False ((1000 * 20 + 18 * n + 500) div 1000) (-2)"
      unfolding f[symmetric] using n PM_CARD by (simp add: scheduled_fee_def zdiv_int)
    with PM_CARD show ?thesis
      using fee_arithmetic[OF n(2), of 20 18] rng
      by (simp add: calculate_fee_def FEE_RULES_def require_decimal_def e)
  next
    case PM_WALLET
    have "eur (scheduled_fee m c) = Finite False ((1000 * 25 + 20 * n + 500) div 1000) (-2)"
      unfolding f[symmetric] using n PM_WALLET by (simp add: scheduled_fee_def zdiv_int)
    with PM_WALLET show ?thesis
      using fee_arithmetic[OF n(2), of 25 20] rng
      by (simp add: calculate_fee_def FEE_RULES_def require_decimal_def e)
  qed
qed

lemma cents_of_eur [simp]: "cents_of (eur c) = c"
  by (simp add: eur_def cents_of_def signed_coef_def)

end
