(* ===== verification/Canonicalize.thy ===== *)
theory Canonicalize
  imports Contracts
begin

text \<open>
  \<open>threadline/canonicalize.py\<close>: which version of each source entity is financially active.  The
  hash \<open>sha256(...).hexdigest()\<close> is the parameter \<open>sha\<close>.  The definitions follow the code
  (deduplication of receipts, the three-level dictionary by identity, version and payload hash,
  the resolution of one identity, the final sorts, the incremental ledger); the lemmas describe
  the result by what it contains: every receipt is classified once, the winner is the highest
  version when it is not contradicted, and the arrival order does not matter.  The English
  \<open>reason\<close> of an evidence record is not modelled.
\<close>

subsection \<open>The normalised payload\<close>

definition money_json :: "int \<Rightarrow> json" where
  "money_json c = JStr (format_2f (eur c))"

definition date_json :: "date option \<Rightarrow> json" where
  "date_json d = (case d of None \<Rightarrow> JNull | Some x \<Rightarrow> JStr (isoformat x))"

primrec record_fields :: "financial_record \<Rightarrow> payload" where
  "record_fields (OrderRec r) =
     [(''source_version'', JInt (ord_source_version r)),
      (''order_id'', JStr (ord_id r)),
      (''created_at_utc'', JStr (iso_utc (ord_created_at_utc r))),
      (''status'', JStr (order_status_value (ord_status r))),
      (''currency'', JStr (ord_currency r)),
      (''order_total'', money_json (ord_total r))]"
| "record_fields (PaymentRec r) =
     [(''source_version'', JInt (pay_source_version r)),
      (''payment_id'', JStr (pay_id r)),
      (''order_id'', JStr (pay_order_id r)),
      (''attempt_number'', JInt (pay_attempt_number r)),
      (''payment_method'', JStr (payment_method_value (pay_method r))),
      (''status'', JStr (payment_status_value (pay_status r))),
      (''amount'', money_json (pay_amount r)),
      (''currency'', JStr (pay_currency r)),
      (''effective_at_utc'', JStr (iso_utc (pay_effective_at_utc r))),
      (''available_on'', date_json (pay_available_on r))]"
| "record_fields (RefundRec r) =
     [(''source_version'', JInt (ref_source_version r)),
      (''refund_id'', JStr (ref_id r)),
      (''payment_id'', JStr (ref_payment_id r)),
      (''status'', JStr (refund_status_value (ref_status r))),
      (''amount'', money_json (ref_amount r)),
      (''currency'', JStr (ref_currency r)),
      (''effective_at_utc'', JStr (iso_utc (ref_effective_at_utc r))),
      (''available_on'', date_json (ref_available_on r))]"
| "record_fields (FeeRec r) =
     [(''source_version'', JInt (fee_source_version r)),
      (''fee_id'', JStr (fee_id r)),
      (''payment_id'', JStr (fee_payment_id r)),
      (''fee_type'', JStr (fee_type_value (fee_fee_type r))),
      (''amount'', money_json (fee_amount r)),
      (''currency'', JStr (fee_currency r)),
      (''effective_at_utc'', JStr (iso_utc (fee_effective_at_utc r))),
      (''available_on'', date_json (Some (fee_available_on r)))]"
| "record_fields (SettlementLineRec r) =
     [(''source_version'', JInt (line_source_version r)),
      (''settlement_line_id'', JStr (line_id r)),
      (''payout_id'', JStr (line_payout_id r)),
      (''movement_type'', JStr (movement_type_value (line_movement_type r))),
      (''movement_id'', JStr (line_movement_id r)),
      (''signed_amount'', money_json (line_signed_amount r)),
      (''currency'', JStr (line_currency r))]"
| "record_fields (PayoutRec r) =
     [(''source_version'', JInt (out_source_version r)),
      (''payout_id'', JStr (out_id r)),
      (''payout_date'', date_json (Some (out_date r))),
      (''currency'', JStr (out_currency r)),
      (''reported_net_amount'', money_json (out_reported_net_amount r))]"

definition canonical_record_dict :: "financial_record \<Rightarrow> payload" where
  "canonical_record_dict r =
     AList.update ''_entity_type'' (JStr (entity_type_value (record_entity_type r)))
       (AList.update ''_source_system'' (JStr (source_system_value (record_source_system r)))
         (record_fields r))"

definition canonical_record_json :: "financial_record \<Rightarrow> string" where
  "canonical_record_json r = json_dumps (JObj (canonical_record_dict r))"

definition calculate_payload_hash :: "(string \<Rightarrow> string) \<Rightarrow> financial_record \<Rightarrow> string" where
  "calculate_payload_hash sha r = sha (canonical_record_json r)"

subsection \<open>Receipts\<close>

datatype canonicalization_error = InvalidReceiptError | ReceiptConflictError string

record record_envelope =
  env_receipt_id :: string
  env_record :: financial_record
  env_payload_hash :: string

definition make_record_envelope ::
  "(string \<Rightarrow> string) \<Rightarrow> string \<Rightarrow> financial_record \<Rightarrow> canonicalization_error + record_envelope" where
  "make_record_envelope sha receipt_id r =
     (if \<not> canonical_text receipt_id then Inl InvalidReceiptError
      else Inr \<lparr>env_receipt_id = receipt_id, env_record = r,
                env_payload_hash = calculate_payload_hash sha r\<rparr>)"

definition env_identity :: "record_envelope \<Rightarrow> identity" where
  "env_identity e = record_identity (env_record e)"

definition env_source_version :: "record_envelope \<Rightarrow> int" where
  "env_source_version e = record_source_version (env_record e)"

definition fingerprint :: "record_envelope \<Rightarrow> identity \<times> int \<times> string" where
  "fingerprint e = (env_identity e, env_source_version e, env_payload_hash e)"

record evidence_record =
  ev_receipt_id :: string
  ev_identity :: identity
  ev_source_version :: int
  ev_payload_hash :: string
  ev_disposition :: evidence_disposition

definition evidence_sort_key ::
  "evidence_record \<Rightarrow> identity \<times> int \<times> string \<times> string" where
  "evidence_sort_key x =
     (ev_identity x, ev_source_version x, ev_payload_hash x, ev_receipt_id x)"

record canonical_conflict =
  cc_identity :: identity
  cc_source_version :: int
  cc_payload_hashes :: "string list"
  cc_receipt_ids :: "string list"

definition conflict_sort_key :: "canonical_conflict \<Rightarrow> identity \<times> int" where
  "conflict_sort_key x = (cc_identity x, cc_source_version x)"

record canonicalization_result =
  canonical_records :: "financial_record list"
  evidence :: "evidence_record list"
  conflicts :: "canonical_conflict list"

definition disposition_count :: "evidence_disposition \<Rightarrow> canonicalization_result \<Rightarrow> nat" where
  "disposition_count d res = length (filter (\<lambda>x. ev_disposition x = d) (evidence res))"

definition accepted_count :: "canonicalization_result \<Rightarrow> nat" where
  "accepted_count = disposition_count ED_ACCEPTED"

definition duplicate_count :: "canonicalization_result \<Rightarrow> nat" where
  "duplicate_count = disposition_count ED_DUPLICATE"

definition stale_count :: "canonicalization_result \<Rightarrow> nat" where
  "stale_count = disposition_count ED_STALE"

definition conflicted_count :: "canonicalization_result \<Rightarrow> nat" where
  "conflicted_count = disposition_count ED_CONFLICTED"

definition canonical_by_identity ::
  "canonicalization_result \<Rightarrow> (identity, financial_record) dict" where
  "canonical_by_identity res =
     fold (\<lambda>r. AList.update (record_identity r) r) (canonical_records res) []"

definition dedup_step ::
  "record_envelope \<Rightarrow> (string, record_envelope) dict
     \<Rightarrow> canonicalization_error + (string, record_envelope) dict" where
  "dedup_step e unique = (case map_of unique (env_receipt_id e) of
       None \<Rightarrow> Inr (AList.update (env_receipt_id e) e unique)
     | Some existing \<Rightarrow>
         if fingerprint existing \<noteq> fingerprint e
         then Inl (ReceiptConflictError (env_receipt_id e))
         else Inr unique)"

definition deduplicate_receipts ::
  "record_envelope list \<Rightarrow> canonicalization_error + (string, record_envelope) dict" where
  "deduplicate_receipts es = fold_result dedup_step es []"

definition make_evidence :: "record_envelope \<Rightarrow> evidence_disposition \<Rightarrow> evidence_record" where
  "make_evidence e d =
     \<lparr>ev_receipt_id = env_receipt_id e, ev_identity = env_identity e,
      ev_source_version = env_source_version e, ev_payload_hash = env_payload_hash e,
      ev_disposition = d\<rparr>"

subsection \<open>Canonicalization\<close>

type_synonym buckets = "(string, record_envelope list) dict"
type_synonym versions = "(int, buckets) dict"
type_synonym groups = "(identity, versions) dict"

definition add_to_group :: "record_envelope \<Rightarrow> groups \<Rightarrow> groups" where
  "add_to_group e g =
     (let vs = dict_get g (env_identity e) [];
          hs = dict_get vs (env_source_version e) [];
          b = dict_get hs (env_payload_hash e) []
      in AList.update (env_identity e)
           (AList.update (env_source_version e)
             (AList.update (env_payload_hash e) (b @ [e]) hs) vs) g)"

definition group_envelopes :: "record_envelope list \<Rightarrow> groups" where
  "group_envelopes es = fold add_to_group es []"

definition stale_evidence :: "versions \<Rightarrow> int \<Rightarrow> evidence_record list" where
  "stale_evidence vs winning =
     concat (map (\<lambda>v. let hs = dict_get vs v [] in
         concat (map (\<lambda>h. map (\<lambda>e. make_evidence e ED_STALE)
             (sort_key env_receipt_id (dict_get hs h []))) (sort (dict_keys hs))))
       (filter (\<lambda>v. v \<noteq> winning) (sort (dict_keys vs))))"

definition resolve_identity ::
  "identity \<Rightarrow> versions
     \<Rightarrow> financial_record list \<times> evidence_record list \<times> canonical_conflict list" where
  "resolve_identity i vs =
     (let winning = Max (set (dict_keys vs));
          stale = stale_evidence vs winning;
          winning_buckets = dict_get vs winning []
      in if 1 < length winning_buckets then
           (let conflicting = sort_key (\<lambda>e. (env_payload_hash e, env_receipt_id e))
                  (concat (dict_values winning_buckets))
            in ([], stale @ map (\<lambda>e. make_evidence e ED_CONFLICTED) conflicting,
                [\<lparr>cc_identity = i, cc_source_version = winning,
                  cc_payload_hashes = sort (dict_keys winning_buckets),
                  cc_receipt_ids = map env_receipt_id conflicting\<rparr>]))
         else (case sort_key env_receipt_id (concat (dict_values winning_buckets)) of
             [] \<Rightarrow> ([], stale, [])
           | accepted # duplicates \<Rightarrow>
               ([env_record accepted],
                stale @ make_evidence accepted ED_ACCEPTED
                  # map (\<lambda>e. make_evidence e ED_DUPLICATE) duplicates,
                [])))"

definition canonicalize_unique :: "record_envelope list \<Rightarrow> canonicalization_result" where
  "canonicalize_unique us =
     (let grouped = group_envelopes us;
          parts = map (\<lambda>i. resolve_identity i (dict_get grouped i [])) (sort (dict_keys grouped))
      in \<lparr>canonical_records = sort_key record_identity (concat (map fst parts)),
          evidence = sort_key evidence_sort_key (concat (map (fst \<circ> snd) parts)),
          conflicts = sort_key conflict_sort_key (concat (map (snd \<circ> snd) parts))\<rparr>)"

definition canonicalize ::
  "record_envelope list \<Rightarrow> canonicalization_error + canonicalization_result" where
  "canonicalize es = bind_result (deduplicate_receipts es) (\<lambda>unique.
     Inr (canonicalize_unique (dict_values unique)))"

definition conflict_exceptions :: "canonicalization_result \<Rightarrow> exception_record list" where
  "conflict_exceptions res = sort_key exception_record_sort_key
     (map (\<lambda>c. \<lparr>xr_code = EC_CONFLICTING_SOURCE_VERSION,
                 xr_entity_type = fst (snd (cc_identity c)),
                 xr_entity_id = snd (snd (cc_identity c))\<rparr>) (conflicts res))"

subsection \<open>The incremental ledger\<close>

record replay_ledger =
  led_receipts :: "(string, record_envelope) dict"

definition apply_step ::
  "record_envelope \<Rightarrow> (string, record_envelope) dict \<times> nat
     \<Rightarrow> canonicalization_error + (string, record_envelope) dict \<times> nat" where
  "apply_step e s = (case map_of (fst s) (env_receipt_id e) of
       None \<Rightarrow> Inr (AList.update (env_receipt_id e) e (fst s), Suc (snd s))
     | Some existing \<Rightarrow>
         if fingerprint existing \<noteq> fingerprint e
         then Inl (ReceiptConflictError (env_receipt_id e))
         else Inr s)"

text \<open>The candidate is a copy: a raise leaves the ledger as it was.\<close>

definition ledger_apply ::
  "replay_ledger \<Rightarrow> record_envelope list
     \<Rightarrow> (canonicalization_error + nat) \<times> replay_ledger" where
  "ledger_apply l es = (case fold_result apply_step es (led_receipts l, 0) of
       Inl err \<Rightarrow> (Inl err, l)
     | Inr (candidate, added) \<Rightarrow> (Inr added, l\<lparr>led_receipts := candidate\<rparr>))"

definition new_ledger :: "record_envelope list \<Rightarrow> canonicalization_error + replay_ledger" where
  "new_ledger es = (case ledger_apply \<lparr>led_receipts = []\<rparr> es of
       (Inl err, _) \<Rightarrow> Inl err
     | (Inr _, l) \<Rightarrow> Inr l)"

definition ledger_result :: "replay_ledger \<Rightarrow> canonicalization_error + canonicalization_result" where
  "ledger_result l = canonicalize (dict_values (led_receipts l))"

definition ledger_receipts :: "replay_ledger \<Rightarrow> record_envelope list" where
  "ledger_receipts l = map snd (sort_key fst (led_receipts l))"

definition ledger_length :: "replay_ledger \<Rightarrow> nat" where
  "ledger_length l = length (led_receipts l)"

subsection \<open>The three-level dictionary\<close>

lemma add_to_group_bucket:
  "dict_get (dict_get (dict_get (add_to_group e g) i []) v []) h [] =
    dict_get (dict_get (dict_get g i []) v []) h []
      @ (if fingerprint e = (i, v, h) then [e] else [])"
  by (auto simp: add_to_group_def Let_def fingerprint_def)

lemma group_envelopes_snoc [simp]:
  "group_envelopes [] = []"
  "group_envelopes (us @ [e]) = add_to_group e (group_envelopes us)"
  by (simp_all add: group_envelopes_def)

lemma group_bucket:
  "dict_get (dict_get (dict_get (group_envelopes us) i []) v []) h [] =
    filter (\<lambda>e. fingerprint e = (i, v, h)) us"
  by (induction us rule: rev_induct) (auto simp: add_to_group_bucket)

lemma group_hash_keys:
  "set (dict_keys (dict_get (dict_get (group_envelopes us) i []) v [])) =
    env_payload_hash ` {e \<in> set us. env_identity e = i \<and> env_source_version e = v}"
proof (induction us rule: rev_induct)
  case (snoc e us)
  have "set (dict_keys (dict_get (dict_get (add_to_group e g) i []) v [])) =
      set (dict_keys (dict_get (dict_get g i []) v []))
        \<union> (if env_identity e = i \<and> env_source_version e = v then {env_payload_hash e} else {})" for g
    by (auto simp: add_to_group_def Let_def)
  with snoc show ?case by auto
qed simp

lemma group_version_keys:
  "set (dict_keys (dict_get (group_envelopes us) i [])) =
    env_source_version ` {e \<in> set us. env_identity e = i}"
proof (induction us rule: rev_induct)
  case (snoc e us)
  have "set (dict_keys (dict_get (add_to_group e g) i [])) =
      set (dict_keys (dict_get g i [])) \<union> (if env_identity e = i then {env_source_version e} else {})" for g
    by (auto simp: add_to_group_def Let_def)
  with snoc show ?case by auto
qed simp

lemma group_identity_keys: "set (dict_keys (group_envelopes us)) = env_identity ` set us"
proof (induction us rule: rev_induct)
  case (snoc e us)
  have "set (dict_keys (add_to_group e g)) = insert (env_identity e) (set (dict_keys g))" for g
    by (simp add: add_to_group_def Let_def)
  with snoc show ?case by auto
qed simp

lemma group_keys_distinct:
  "distinct (dict_keys (group_envelopes us))"
  "distinct (dict_keys (dict_get (group_envelopes us) i []))"
  "distinct (dict_keys (dict_get (dict_get (group_envelopes us) i []) v []))"
  by (induction us rule: rev_induct)
    (auto simp: add_to_group_def Let_def intro!: distinct_update)

subsection \<open>What canonicalization means, receipt by receipt\<close>

text \<open>
  The reference: the receipts of an identity, its highest version, whether the receipts of that
  version disagree, the receipt that represents it, and the disposition of each receipt.
  \<open>canonicalize_unique_spec\<close> shows that the nested grouping of the code computes it.
\<close>

definition at_identity :: "record_envelope list \<Rightarrow> identity \<Rightarrow> record_envelope list" where
  "at_identity us i = filter (\<lambda>e. env_identity e = i) us"

definition winning_version :: "record_envelope list \<Rightarrow> identity \<Rightarrow> int" where
  "winning_version us i = Max (env_source_version ` set (at_identity us i))"

definition winners :: "record_envelope list \<Rightarrow> identity \<Rightarrow> record_envelope list" where
  "winners us i = filter (\<lambda>e. env_source_version e = winning_version us i) (at_identity us i)"

definition contradicted :: "record_envelope list \<Rightarrow> identity \<Rightarrow> bool" where
  "contradicted us i =
     (\<exists>a \<in> set (winners us i). \<exists>b \<in> set (winners us i). env_payload_hash a \<noteq> env_payload_hash b)"

definition accepted_receipt :: "record_envelope list \<Rightarrow> identity \<Rightarrow> record_envelope" where
  "accepted_receipt us i = hd (sort_key env_receipt_id (winners us i))"

definition classify :: "record_envelope list \<Rightarrow> record_envelope \<Rightarrow> evidence_disposition" where
  "classify us e =
     (let i = env_identity e
      in if env_source_version e \<noteq> winning_version us i then ED_STALE
         else if contradicted us i then ED_CONFLICTED
         else if e = accepted_receipt us i then ED_ACCEPTED
         else ED_DUPLICATE)"

definition conflict_of :: "record_envelope list \<Rightarrow> identity \<Rightarrow> canonical_conflict" where
  "conflict_of us i =
     \<lparr>cc_identity = i, cc_source_version = winning_version us i,
      cc_payload_hashes = sorted_list_of_set (env_payload_hash ` set (winners us i)),
      cc_receipt_ids = map env_receipt_id
        (sort_key (\<lambda>e. (env_payload_hash e, env_receipt_id e)) (winners us i))\<rparr>"

abbreviation receipts_distinct :: "record_envelope list \<Rightarrow> bool" where
  "receipts_distinct us \<equiv> distinct (map env_receipt_id us)"

definition observed_identities :: "record_envelope list \<Rightarrow> identity list" where
  "observed_identities us = sorted_list_of_set (env_identity ` set us)"

definition canonical_spec :: "record_envelope list \<Rightarrow> canonicalization_result" where
  "canonical_spec us =
     \<lparr>canonical_records = map (\<lambda>i. env_record (accepted_receipt us i))
        (filter (\<lambda>i. \<not> contradicted us i) (observed_identities us)),
      evidence = sort_key evidence_sort_key (map (\<lambda>e. make_evidence e (classify us e)) us),
      conflicts = map (conflict_of us) (filter (contradicted us) (observed_identities us))\<rparr>"

lemma set_at_identity [simp]: "set (at_identity us i) = {e \<in> set us. env_identity e = i}"
  by (simp add: at_identity_def)

lemma set_winners:
  "set (winners us i) = {e \<in> set us. env_identity e = i \<and> env_source_version e = winning_version us i}"
  by (auto simp: winners_def)

lemma winning_version_ge: "e \<in> set us \<Longrightarrow> env_source_version e \<le> winning_version us (env_identity e)"
  unfolding winning_version_def by (rule Max_ge) auto

lemma winners_nonempty:
  assumes "e \<in> set us"
  shows "winners us (env_identity e) \<noteq> []"
proof -
  have "winning_version us (env_identity e)
      \<in> env_source_version ` set (at_identity us (env_identity e))"
    unfolding winning_version_def by (rule Max_in) (use assms in auto)
  then show ?thesis
    by (auto simp: winners_def filter_empty_conv)
qed

lemma accepted_receipt_in:
  assumes "i \<in> env_identity ` set us"
  shows "accepted_receipt us i \<in> set (winners us i)"
proof -
  have "sort_key env_receipt_id (winners us i) \<noteq> []"
    using assms winners_nonempty by (metis imageE set_empty set_sort)
  then show ?thesis
    unfolding accepted_receipt_def by (metis hd_in_set set_sort)
qed

lemma winning_buckets:
  fixes us i
  defines "wb \<equiv> dict_get (dict_get (group_envelopes us) i []) (winning_version us i) []"
  shows "set (dict_keys wb) = env_payload_hash ` set (winners us i)"
    and "1 < length wb \<longleftrightarrow> contradicted us i"
    and "mset (concat (dict_values wb)) = mset (winners us i)"
    and "sort (dict_keys wb) = sorted_list_of_set (env_payload_hash ` set (winners us i))"
proof -
  note distinct_keys = group_keys_distinct(3)[of us i "winning_version us i", folded wb_def]
  show keys: "set (dict_keys wb) = env_payload_hash ` set (winners us i)"
    by (auto simp: wb_def group_hash_keys set_winners simp del: set_map)
  have "1 < length wb \<longleftrightarrow> 1 < length (dict_keys wb)"
    by simp
  then show "1 < length wb \<longleftrightarrow> contradicted us i"
    by (simp only: distinct_more_than_one[OF distinct_keys] keys contradicted_def) blast
  have "dict_values wb = map (\<lambda>h. filter (\<lambda>e. fingerprint e = (i, winning_version us i, h)) us) (dict_keys wb)"
    using dict_values_conv[OF distinct_keys, of "[]"] by (simp only: wb_def group_bucket)
  also have "\<dots> = map (\<lambda>h. filter (\<lambda>e. env_payload_hash e = h) (winners us i)) (dict_keys wb)"
    by (auto simp: winners_def at_identity_def fingerprint_def intro!: filter_cong)
  finally have buckets: "dict_values wb =
      map (\<lambda>h. filter (\<lambda>e. env_payload_hash e = h) (winners us i)) (dict_keys wb)" .
  show "mset (concat (dict_values wb)) = mset (winners us i)"
    unfolding buckets by (rule mset_concat_buckets[OF distinct_keys]) (simp add: keys del: set_map)
  show "sort (dict_keys wb) = sorted_list_of_set (env_payload_hash ` set (winners us i))"
    using distinct_keys keys by (metis sorted_list_of_set_sort_remdups distinct_remdups_id)
qed

lemma dict_versions_Max: "Max (set (dict_keys (dict_get (group_envelopes us) i []))) = winning_version us i"
  by (simp only: group_version_keys winning_version_def) simp

lemma filter_distinct_winner: "mset (map f (filter P xs)) = image_mset f (filter_mset P (mset xs))"
  by simp

lemma stale_evidence_mset:
  "mset (stale_evidence (dict_get (group_envelopes us) i []) w) =
    mset (map (\<lambda>e. make_evidence e ED_STALE)
      (filter (\<lambda>e. env_source_version e \<noteq> w) (at_identity us i)))"
proof -
  let ?vs = "dict_get (group_envelopes us) i []"
  let ?b = "\<lambda>v h. filter (\<lambda>e. fingerprint e = (i, v, h)) us"
  let ?F = "filter (\<lambda>e. env_source_version e \<noteq> w) (at_identity us i)"
  have level: "mset (concat (map (\<lambda>h. map (\<lambda>e. make_evidence e ED_STALE)
        (sort_key env_receipt_id (dict_get (dict_get ?vs v []) h []))) (sort (dict_keys (dict_get ?vs v [])))))
     = image_mset (\<lambda>e. make_evidence e ED_STALE)
         (mset (filter (\<lambda>e. env_source_version e = v) (at_identity us i)))" for v
  proof -
    let ?ks = "sort (dict_keys (dict_get ?vs v []))"
    let ?G = "filter (\<lambda>e. env_source_version e = v) (at_identity us i)"
    have "?b v h = filter (\<lambda>e. env_payload_hash e = h) ?G" for h
      by (auto simp: at_identity_def fingerprint_def intro!: filter_cong)
    moreover have "mset (concat (map (\<lambda>h. filter (\<lambda>e. env_payload_hash e = h) ?G) ?ks)) = mset ?G"
      by (rule mset_concat_buckets) (auto simp: group_hash_keys group_keys_distinct simp del: set_map)
    moreover have "mset (concat (map (\<lambda>h. map f (sort_key g (k h))) ks)) =
        image_mset f (mset (concat (map k ks)))" for f :: "record_envelope \<Rightarrow> evidence_record"
        and g :: "record_envelope \<Rightarrow> string" and k and ks :: "string list"
      by (induction ks) auto
    ultimately show ?thesis by (simp only: group_bucket)
  qed
  let ?ws = "filter (\<lambda>v. v \<noteq> w) (sort (dict_keys ?vs))"
  have "mset (stale_evidence ?vs w) =
      image_mset (\<lambda>e. make_evidence e ED_STALE)
        (mset (concat (map (\<lambda>v. filter (\<lambda>e. env_source_version e = v) (at_identity us i)) ?ws)))"
  proof -
    have *: "mset (concat (map f ws)) = image_mset m (mset (concat (map g ws)))"
      if "\<And>v. mset (f v) = image_mset m (mset (g v))"
      for f :: "int \<Rightarrow> evidence_record list" and m and g :: "int \<Rightarrow> record_envelope list" and ws
      using that by (induction ws) auto
    show ?thesis
      unfolding stale_evidence_def Let_def by (rule *) (rule level)
  qed
  also have "map (\<lambda>v. filter (\<lambda>e. env_source_version e = v) (at_identity us i)) ?ws =
      map (\<lambda>v. filter (\<lambda>e. env_source_version e = v) ?F) ?ws"
    by (auto intro!: filter_cong)
  also have "mset (concat \<dots>) = mset ?F"
    by (rule mset_concat_buckets) (auto simp: group_version_keys group_keys_distinct simp del: set_map)
  finally show ?thesis by simp
qed


lemma inj_receipt: "receipts_distinct us \<Longrightarrow> set vs \<subseteq> set us \<Longrightarrow> inj_on env_receipt_id (set vs)"
  by (metis distinct_map inj_on_subset)

lemma winners_subset: "set (winners us i) \<subseteq> set us"
  by (auto simp: set_winners)

lemma resolve_identity_contradicted:
  assumes "receipts_distinct us" and "contradicted us i"
  shows "resolve_identity i (dict_get (group_envelopes us) i []) =
    ([], stale_evidence (dict_get (group_envelopes us) i []) (winning_version us i)
       @ map (\<lambda>e. make_evidence e ED_CONFLICTED)
           (sort_key (\<lambda>e. (env_payload_hash e, env_receipt_id e)) (winners us i)),
     [conflict_of us i])"
proof -
  have "inj_on (\<lambda>e. (env_payload_hash e, env_receipt_id e)) (set (winners us i))"
    using inj_onD[OF inj_receipt[OF assms(1) winners_subset[of us i]]] by (auto intro!: inj_onI)
  then have "sort_key (\<lambda>e. (env_payload_hash e, env_receipt_id e))
      (concat (dict_values (dict_get (dict_get (group_envelopes us) i []) (winning_version us i) [])))
    = sort_key (\<lambda>e. (env_payload_hash e, env_receipt_id e)) (winners us i)"
    by (metis (no_types, lifting) sort_key_eq_of_mset set_mset_mset winning_buckets(3))
  with assms(2) show ?thesis
    unfolding resolve_identity_def Let_def dict_versions_Max
    by (simp only: winning_buckets(2,4) conflict_of_def if_True)
qed

lemma resolve_identity_accepted:
  assumes "receipts_distinct us" and "\<not> contradicted us i" and "i \<in> env_identity ` set us"
  shows "resolve_identity i (dict_get (group_envelopes us) i []) =
    ([env_record (accepted_receipt us i)],
     stale_evidence (dict_get (group_envelopes us) i []) (winning_version us i)
       @ make_evidence (accepted_receipt us i) ED_ACCEPTED
         # map (\<lambda>e. make_evidence e ED_DUPLICATE) (tl (sort_key env_receipt_id (winners us i))),
     [])"
proof -
  have "sort_key env_receipt_id
      (concat (dict_values (dict_get (dict_get (group_envelopes us) i []) (winning_version us i) [])))
    = sort_key env_receipt_id (winners us i)"
    using inj_receipt[OF assms(1) winners_subset]
    by (metis (no_types, lifting) sort_key_eq_of_mset set_mset_mset winning_buckets(3))
  moreover have "sort_key env_receipt_id (winners us i)
      = accepted_receipt us i # tl (sort_key env_receipt_id (winners us i))"
    using assms(3) winners_nonempty unfolding accepted_receipt_def
    by (metis hd_Cons_tl imageE set_empty set_sort)
  moreover have "\<not> 1 < length (dict_get (dict_get (group_envelopes us) i []) (winning_version us i) [])"
    using assms(2) winning_buckets(2) by simp
  ultimately show ?thesis
    unfolding resolve_identity_def Let_def dict_versions_Max
    by (metis (no_types, lifting) list.simps(5) if_False)
qed

lemma winners_split:
  "mset (map f (filter (\<lambda>e. env_source_version e \<noteq> winning_version us i) (at_identity us i)))
    + mset (map f (winners us i)) = mset (map f (at_identity us i))"
  by (simp add: winners_def flip: image_mset_union)

lemma at_identity_stale:
  "e \<in> set (at_identity us i) \<Longrightarrow> env_source_version e \<noteq> winning_version us i \<Longrightarrow> classify us e = ED_STALE"
  by (auto simp: classify_def Let_def)

lemma classify_winner:
  "e \<in> set (winners us i) \<Longrightarrow> classify us e =
    (if contradicted us i then ED_CONFLICTED else if e = accepted_receipt us i then ED_ACCEPTED
     else ED_DUPLICATE)"
  by (auto simp: classify_def Let_def set_winners)

lemma mset_map_cong: "(\<And>x. x \<in> set xs \<Longrightarrow> f x = g x) \<Longrightarrow> mset (map f xs) = mset (map g xs)"
  by (metis map_cong)

lemma resolve_identity_evidence:
  assumes "receipts_distinct us" and "i \<in> env_identity ` set us"
  shows "mset (fst (snd (resolve_identity i (dict_get (group_envelopes us) i [])))) =
    mset (map (\<lambda>e. make_evidence e (classify us e)) (at_identity us i))"
proof -
  let ?m = "\<lambda>e. make_evidence e (classify us e)"
  let ?S = "filter (\<lambda>e. env_source_version e \<noteq> winning_version us i) (at_identity us i)"
  have stale: "mset (stale_evidence (dict_get (group_envelopes us) i []) (winning_version us i))
      = mset (map ?m ?S)"
    unfolding stale_evidence_mset
    by (rule mset_map_cong) (auto simp: at_identity_stale)
  have "mset (fst (snd (resolve_identity i (dict_get (group_envelopes us) i []))))
      = mset (map ?m ?S) + mset (map ?m (winners us i))"
  proof (cases "contradicted us i")
    case True
    then have "mset (map ?m (winners us i)) = mset (map (\<lambda>e. make_evidence e ED_CONFLICTED) (winners us i))"
      by (intro mset_map_cong) (simp add: classify_winner)
    with True assms(1) stale show ?thesis
      by (simp add: resolve_identity_contradicted)
  next
    case False
    let ?s = "sort_key env_receipt_id (winners us i)"
    let ?a = "accepted_receipt us i"
    have s: "?s = ?a # tl ?s"
      using assms(2) winners_nonempty unfolding accepted_receipt_def
      by (metis hd_Cons_tl imageE set_empty set_sort)
    have "distinct ?s"
      using assms(1) by (simp add: winners_def at_identity_def distinct_map)
    then have "?a \<notin> set (tl ?s)"
      using s by (metis distinct.simps(2))
    moreover have "set (tl ?s) \<subseteq> set (winners us i)"
      using s by (metis set_sort set_subset_Cons)
    ultimately have tl: "map ?m (tl ?s) = map (\<lambda>e. make_evidence e ED_DUPLICATE) (tl ?s)"
      using False by (auto simp: classify_winner)
    have a: "?m ?a = make_evidence ?a ED_ACCEPTED"
      using accepted_receipt_in[OF assms(2)] False by (simp add: classify_winner)
    have "mset (map ?m (winners us i)) = mset (map ?m ?s)" by simp
    also have "\<dots> = mset (map ?m (?a # tl ?s))" by (subst s) (rule refl)
    finally show ?thesis
      unfolding resolve_identity_accepted[OF assms(1) False assms(2)]
      using stale tl a by simp
  qed
  also have "\<dots> = mset (map ?m (at_identity us i))"
    by (rule winners_split)
  finally show ?thesis .
qed


lemma set_observed [simp]: "set (observed_identities us) = env_identity ` set us"
  by (simp add: observed_identities_def)

lemma observed_sorted [simp]: "sorted (observed_identities us)" "distinct (observed_identities us)"
  by (simp_all add: observed_identities_def)

lemma accepted_identity:
  "i \<in> env_identity ` set us \<Longrightarrow> env_identity (accepted_receipt us i) = i"
  using accepted_receipt_in by (fastforce simp: set_winners)

lemma sort_grouped_keys: "sort (dict_keys (group_envelopes us)) = observed_identities us"
  using group_keys_distinct(1)[of us] group_identity_keys[of us]
  by (metis observed_identities_def sorted_list_of_set_sort_remdups distinct_remdups_id)

lemma concat_map_if:
  "concat (map (\<lambda>x. if P x then [f x] else []) xs) = map f (filter P xs)"
  by (induction xs) auto

lemma evidence_keys_inj:
  assumes "receipts_distinct us"
  shows "inj_on evidence_sort_key (set (map (\<lambda>e. make_evidence e (classify us e)) us))"
  using inj_onD[OF inj_receipt[OF assms order_refl]]
  by (auto simp: evidence_sort_key_def make_evidence_def intro!: inj_onI) metis

lemma accepted_records_identity:
  "map record_identity (map (\<lambda>i. env_record (accepted_receipt us i))
      (filter P (observed_identities us))) = filter P (observed_identities us)"
  using accepted_identity[of _ us] by (auto simp: env_identity_def intro!: map_idI)

lemma accepted_records_sorted:
  "sort_key record_identity (map (\<lambda>i. env_record (accepted_receipt us i))
      (filter P (observed_identities us))) =
    map (\<lambda>i. env_record (accepted_receipt us i)) (filter P (observed_identities us))"
  by (rule sort_key_id_if_sorted) (simp only: accepted_records_identity, simp add: sorted_wrt_filter)

lemma conflicts_sorted:
  "sort_key conflict_sort_key (map (conflict_of us) (filter P (observed_identities us))) =
    map (conflict_of us) (filter P (observed_identities us))"
proof (rule sort_key_id_if_sorted)
  have "sorted_wrt (<) (filter P (observed_identities us))"
    by (simp add: sorted_wrt_filter observed_identities_def)
  then have "sorted (map (\<lambda>i. (i, winning_version us i)) (filter P (observed_identities us)))"
    unfolding sorted_wrt_map by (rule sorted_wrt_mono_rel[rotated]) (auto simp: less_le)
  then show "sorted (map conflict_sort_key (map (conflict_of us) (filter P (observed_identities us))))"
    by (simp add: conflict_sort_key_def conflict_of_def comp_def)
qed

lemma canonicalize_unique_spec:
  assumes "receipts_distinct us"
  shows "canonicalize_unique us = canonical_spec us"
proof -
  let ?ids = "observed_identities us"
  let ?r = "\<lambda>i. resolve_identity i (dict_get (group_envelopes us) i [])"
  let ?m = "\<lambda>e. make_evidence e (classify us e)"
  have r: "fst (?r i) = (if \<not> contradicted us i then [env_record (accepted_receipt us i)] else [])"
    and c: "snd (snd (?r i)) = (if contradicted us i then [conflict_of us i] else [])"
    if "i \<in> set ?ids" for i
    using resolve_identity_contradicted[OF assms] resolve_identity_accepted[OF assms] that
    by (cases "contradicted us i"; simp)+
  have "map fst (map ?r ?ids) =
      map (\<lambda>i. if \<not> contradicted us i then [env_record (accepted_receipt us i)] else []) ?ids"
    unfolding map_map comp_def by (rule map_cong[OF refl]) (rule r)
  then have R: "concat (map fst (map ?r ?ids)) =
      map (\<lambda>i. env_record (accepted_receipt us i)) (filter (\<lambda>i. \<not> contradicted us i) ?ids)"
    by (simp only: concat_map_if)
  have "map (snd \<circ> snd) (map ?r ?ids) = map (\<lambda>i. if contradicted us i then [conflict_of us i] else []) ?ids"
    unfolding map_map comp_def by (rule map_cong[OF refl]) (rule c)
  then have C: "concat (map (snd \<circ> snd) (map ?r ?ids)) = map (conflict_of us) (filter (contradicted us) ?ids)"
    by (simp only: concat_map_if)
  have "mset (concat (map (fst \<circ> snd) (map ?r ?ids))) = mset (concat (map (\<lambda>i. map ?m (at_identity us i)) ?ids))"
    unfolding mset_concat map_map comp_def
    by (intro arg_cong[where f = sum_list] map_cong refl resolve_identity_evidence[OF assms]) simp
  also have "\<dots> = image_mset ?m (mset (concat (map (at_identity us) ?ids)))"
    by (simp add: map_concat comp_def flip: mset_map)
  also have "mset (concat (map (at_identity us) ?ids)) = mset us"
    using mset_concat_buckets[of ?ids us env_identity] by (simp add: at_identity_def[abs_def])
  finally have "mset (concat (map (fst \<circ> snd) (map ?r ?ids))) = mset (map ?m us)"
    by (simp only: mset_map)
  then have E: "sort_key evidence_sort_key (concat (map (fst \<circ> snd) (map ?r ?ids)))
      = sort_key evidence_sort_key (map ?m us)"
    using evidence_keys_inj[OF assms] by (rule sort_key_eq_of_mset[OF sym, symmetric])
  show ?thesis
    unfolding canonicalize_unique_def canonical_spec_def Let_def sort_grouped_keys R C E
      accepted_records_sorted conflicts_sorted ..
qed

subsection \<open>Deduplication\<close>

definition receipts_consistent :: "record_envelope list \<Rightarrow> bool" where
  "receipts_consistent es =
     (\<forall>a \<in> set es. \<forall>b \<in> set es. env_receipt_id a = env_receipt_id b \<longrightarrow> fingerprint a = fingerprint b)"

definition receipt_table :: "(string, record_envelope) dict \<Rightarrow> bool" where
  "receipt_table d = (distinct (dict_keys d) \<and> (\<forall>(k, e) \<in> set d. env_receipt_id e = k))"

lemma receipt_table_Nil [simp]: "receipt_table []"
  by (simp add: receipt_table_def)

lemma receipt_table_update:
  "receipt_table d \<Longrightarrow> map_of d (env_receipt_id e) = None \<Longrightarrow>
    AList.update (env_receipt_id e) e d = d @ [(env_receipt_id e, e)]
    \<and> receipt_table (d @ [(env_receipt_id e, e)])"
  by (auto simp: receipt_table_def map_of_eq_None_iff update_fresh image_iff)

lemma receipt_table_lookup:
  "receipt_table d \<Longrightarrow> map_of d k = Some e \<longleftrightarrow> e \<in> set (dict_values d) \<and> env_receipt_id e = k"
proof -
  assume t: "receipt_table d"
  then have "map_of d k = Some e \<longleftrightarrow> (k, e) \<in> set d"
    by (simp add: receipt_table_def map_of_eq_Some_iff)
  with t show ?thesis
    unfolding receipt_table_def set_map by force
qed

lemma receipt_table_keys: "receipt_table d \<Longrightarrow> dict_keys d = map env_receipt_id (dict_values d)"
  by (auto simp: receipt_table_def)

lemma dedup_step_cases:
  "dedup_step e d = (case map_of d (env_receipt_id e) of
      None \<Rightarrow> Inr (AList.update (env_receipt_id e) e d)
    | Some x \<Rightarrow> if fingerprint x = fingerprint e then Inr d
        else Inl (ReceiptConflictError (env_receipt_id e)))"
  by (simp add: dedup_step_def split: option.splits)

lemma dedup_append:
  "fold_result dedup_step (es @ [e]) d = bind_result (fold_result dedup_step es d) (dedup_step e)"
  by (simp add: fold_result_append bind_result_def split: sum.splits)

lemma deduplicate_Inr:
  assumes "deduplicate_receipts es = Inr d"
  shows "receipt_table d" and "set (dict_values d) \<subseteq> set es"
    and "\<And>e. e \<in> set es \<Longrightarrow> \<exists>x \<in> set (dict_values d).
           env_receipt_id x = env_receipt_id e \<and> fingerprint x = fingerprint e"
proof -
  have "receipt_table d \<and> set (dict_values d) \<subseteq> set es \<and> (\<forall>e \<in> set es. \<exists>x \<in> set (dict_values d).
      env_receipt_id x = env_receipt_id e \<and> fingerprint x = fingerprint e)"
    using assms unfolding deduplicate_receipts_def
  proof (induction es arbitrary: d rule: rev_induct)
    case (snoc e es)
    then obtain d' where d': "fold_result dedup_step es [] = Inr d'" "dedup_step e d' = Inr d"
      by (auto simp: dedup_append elim: bind_result_InrE)
    note IH = snoc.IH[OF d'(1)]
    show ?case
    proof (cases "map_of d' (env_receipt_id e)")
      case None
      then show ?thesis
        using IH d'(2) receipt_table_update[of d' e]
        by (auto simp: dedup_step_cases simp del: set_map)
    next
      case (Some x)
      then show ?thesis
        using IH d'(2) receipt_table_lookup[of d' "env_receipt_id e" x]
        by (auto simp: dedup_step_cases simp del: set_map split: if_splits)
    qed
  qed simp
  then show "receipt_table d" "set (dict_values d) \<subseteq> set es"
    "\<And>e. e \<in> set es \<Longrightarrow> \<exists>x \<in> set (dict_values d).
           env_receipt_id x = env_receipt_id e \<and> fingerprint x = fingerprint e"
    by blast+
qed

lemma deduplicate_conflict:
  assumes "deduplicate_receipts es = Inl err"
  obtains k where "err = ReceiptConflictError k" "k \<in> env_receipt_id ` set es" "\<not> receipts_consistent es"
proof -
  have "\<exists>k. err = ReceiptConflictError k \<and> k \<in> env_receipt_id ` set es \<and> \<not> receipts_consistent es"
    using assms unfolding deduplicate_receipts_def
  proof (induction es rule: rev_induct)
    case (snoc e es)
    show ?case
    proof (cases "fold_result dedup_step es []")
      case (Inl x)
      with snoc.prems have "fold_result dedup_step es [] = Inl err"
        by (simp add: dedup_append)
      from snoc.IH[OF this] show ?thesis
        unfolding receipts_consistent_def by auto
    next
      case (Inr d)
      then have step: "dedup_step e d = Inl err"
        using snoc.prems by (simp add: dedup_append)
      note D = deduplicate_Inr[unfolded deduplicate_receipts_def, OF Inr]
      from step obtain x where x: "map_of d (env_receipt_id e) = Some x" "fingerprint x \<noteq> fingerprint e"
          "err = ReceiptConflictError (env_receipt_id e)"
        by (auto simp: dedup_step_cases split: option.splits if_splits)
      then have "x \<in> set es" "env_receipt_id x = env_receipt_id e"
        using receipt_table_lookup[OF D(1)] D(2) by blast+
      with x show ?thesis
        unfolding receipts_consistent_def by auto
    qed
  qed simp
  with that show thesis by blast
qed

lemma deduplicate_Inr_iff: "(\<exists>d. deduplicate_receipts es = Inr d) \<longleftrightarrow> receipts_consistent es"
proof
  assume "\<exists>d. deduplicate_receipts es = Inr d"
  then obtain d where d: "deduplicate_receipts es = Inr d" ..
  have inj: "inj_on env_receipt_id (set (dict_values d))"
    using deduplicate_Inr(1)[OF d] receipt_table_keys[of d] unfolding receipt_table_def
    by (metis distinct_map)
  show "receipts_consistent es"
    unfolding receipts_consistent_def
    using deduplicate_Inr(3)[OF d] inj by (metis inj_onD)
next
  assume "receipts_consistent es"
  then show "\<exists>d. deduplicate_receipts es = Inr d"
    by (metis deduplicate_conflict sum.exhaust)
qed

lemma receipt_table_distinct: "receipt_table d \<Longrightarrow> receipts_distinct (dict_values d)"
  using receipt_table_keys[of d] by (metis receipt_table_def)

lemma canonicalize_Inr:
  assumes "canonicalize es = Inr res"
  obtains us where "receipts_distinct us" "set us \<subseteq> set es" "res = canonical_spec us"
    "\<And>e. e \<in> set es \<Longrightarrow> \<exists>x \<in> set us. env_receipt_id x = env_receipt_id e \<and> fingerprint x = fingerprint e"
proof -
  from assms obtain d where d: "deduplicate_receipts es = Inr d" "res = canonicalize_unique (dict_values d)"
    unfolding canonicalize_def by (auto elim!: bind_result_InrE)
  note D = deduplicate_Inr[OF d(1)]
  show thesis
    using that[OF receipt_table_distinct[OF D(1)] D(2) _ D(3)] d(2)
      canonicalize_unique_spec[OF receipt_table_distinct[OF D(1)]]
    by simp
qed

lemma canonicalize_Inr_iff: "(\<exists>res. canonicalize es = Inr res) \<longleftrightarrow> receipts_consistent es"
  unfolding canonicalize_def by (auto simp: result_simps simp flip: deduplicate_Inr_iff)

subsection \<open>Order, duplicates and the meaning of the result\<close>

text \<open>No two receipts with one fingerprint carry different records (no hash collision).\<close>

definition hash_faithful :: "record_envelope list \<Rightarrow> bool" where
  "hash_faithful es =
     (\<forall>a \<in> set es. \<forall>b \<in> set es. fingerprint a = fingerprint b \<longrightarrow> env_record a = env_record b)"

lemma canonical_spec_mset:
  assumes "mset us = mset vs" and "receipts_distinct us"
  shows "canonical_spec us = canonical_spec vs"
proof -
  have set_eq: "set us = set vs"
    using assms(1) by (rule mset_eq_setD)
  have win: "winning_version us = winning_version vs"
    by (simp add: fun_eq_iff winning_version_def set_eq)
  then have wins: "mset (winners us i) = mset (winners vs i)" for i
    using assms(1) by (simp add: winners_def at_identity_def)
  then have wset: "set (winners us i) = set (winners vs i)" for i
    by (metis set_mset_mset)
  then have con: "contradicted us = contradicted vs"
    by (simp add: fun_eq_iff contradicted_def)
  have inj: "inj_on env_receipt_id (set (winners us i))" for i
    using inj_receipt[OF assms(2) winners_subset] .
  have acc: "accepted_receipt us = accepted_receipt vs"
    unfolding accepted_receipt_def fun_eq_iff using map_hd_sort_key_inj[OF wins inj] by blast
  have "sort_key (\<lambda>e. (env_payload_hash e, env_receipt_id e)) (winners us i)
      = sort_key (\<lambda>e. (env_payload_hash e, env_receipt_id e)) (winners vs i)" for i
    using inj_onD[OF inj[of i]] by (intro sort_key_eq_of_mset[OF wins]) (auto intro!: inj_onI)
  then have cnf: "conflict_of us = conflict_of vs"
    by (simp add: fun_eq_iff conflict_of_def win wset)
  have cls: "classify us = classify vs"
    by (simp add: fun_eq_iff classify_def Let_def win con acc)
  have "sort_key evidence_sort_key (map (\<lambda>e. make_evidence e (classify us e)) us)
      = sort_key evidence_sort_key (map (\<lambda>e. make_evidence e (classify us e)) vs)"
    using evidence_keys_inj[OF assms(2)] assms(1) by (intro sort_key_eq_of_mset) auto
  then show ?thesis
    unfolding canonical_spec_def by (simp add: cls acc con cnf observed_identities_def set_eq)
qed

lemma consistent_faithful_inj:
  assumes "receipts_consistent es" and "hash_faithful es"
  shows "inj_on env_receipt_id (set es)"
proof (rule inj_onI)
  fix a b assume "a \<in> set es" "b \<in> set es" "env_receipt_id a = env_receipt_id b"
  with assms show "a = b"
    unfolding receipts_consistent_def hash_faithful_def fingerprint_def
    by (metis record_envelope.equality old.unit.exhaust prod.inject)
qed

lemma canonicalize_remdups:
  assumes "receipts_consistent es" and "hash_faithful es"
  shows "canonicalize es = Inr (canonical_spec (remdups es))"
proof -
  from assms(1) obtain res where res: "canonicalize es = Inr res"
    using canonicalize_Inr_iff by blast
  from canonicalize_Inr[OF this] obtain us where us: "receipts_distinct us" "set us \<subseteq> set es"
    "res = canonical_spec us" and cover: "\<forall>e \<in> set es. \<exists>x \<in> set us.
      env_receipt_id x = env_receipt_id e \<and> fingerprint x = fingerprint e"
    by metis
  have "set es \<subseteq> set us"
    using us(2) cover consistent_faithful_inj[OF assms] by (metis inj_onD subset_iff)
  with us(2) have "set us = set (remdups es)" by auto
  then have "mset us = mset (remdups es)"
    using us(1) by (simp only: set_eq_iff_mset_eq_distinct distinct_map distinct_remdups)
  then show ?thesis
    using res us(3) canonical_spec_mset[OF _ us(1)] by simp
qed

lemma canonicalize_same_receipts:
  assumes "set es = set es'" and "hash_faithful es" and "canonicalize es = Inr res"
  shows "canonicalize es' = Inr res"
proof -
  have c: "receipts_consistent es" using assms(3) canonicalize_Inr_iff by blast
  moreover from c have "receipts_consistent es'"
    unfolding receipts_consistent_def assms(1) .
  moreover from assms(2) have "hash_faithful es'"
    unfolding hash_faithful_def assms(1) .
  moreover have "mset (remdups es) = mset (remdups es')"
    using assms(1) by (simp add: set_eq_iff_mset_eq_distinct[symmetric])
  moreover have "receipts_distinct (remdups es)"
    using consistent_faithful_inj[OF c assms(2)] by (simp add: distinct_map)
  ultimately show ?thesis
    using assms(2,3) by (simp add: canonicalize_remdups canonical_spec_mset[of "remdups es" "remdups es'"])
qed

lemma spec_evidence_ids:
  "mset (map ev_receipt_id (evidence (canonical_spec us))) = mset (map env_receipt_id us)"
  by (simp add: canonical_spec_def make_evidence_def multiset.map_comp comp_def)

lemma spec_canonical_record:
  "r \<in> set (canonical_records (canonical_spec us)) \<longleftrightarrow>
    (\<exists>i \<in> env_identity ` set us. \<not> contradicted us i \<and> r = env_record (accepted_receipt us i))"
  by (auto simp: canonical_spec_def)

lemma spec_identities:
  "map record_identity (canonical_records (canonical_spec us)) =
    filter (\<lambda>i. \<not> contradicted us i) (observed_identities us)"
  "map cc_identity (conflicts (canonical_spec us)) = filter (contradicted us) (observed_identities us)"
proof -
  show "map record_identity (canonical_records (canonical_spec us)) =
      filter (\<lambda>i. \<not> contradicted us i) (observed_identities us)"
    using accepted_records_identity[of us "\<lambda>i. \<not> contradicted us i"] by (simp add: canonical_spec_def)
  show "map cc_identity (conflicts (canonical_spec us)) = filter (contradicted us) (observed_identities us)"
    by (simp add: canonical_spec_def conflict_of_def comp_def)
qed

lemma accepted_filter:
  "mset (filter (\<lambda>e. classify us e = ED_ACCEPTED) us) =
    mset (map (accepted_receipt us) (filter (\<lambda>i. \<not> contradicted us i) (observed_identities us)))"
  if "receipts_distinct us"
proof -
  have "set (filter (\<lambda>e. classify us e = ED_ACCEPTED) us)
    = accepted_receipt us ` {i \<in> env_identity ` set us. \<not> contradicted us i}"
  proof (intro subset_antisym subsetI)
    fix e assume "e \<in> set (filter (\<lambda>e. classify us e = ED_ACCEPTED) us)"
    then show "e \<in> accepted_receipt us ` {i \<in> env_identity ` set us. \<not> contradicted us i}"
      by (auto simp: classify_def Let_def split: if_splits)
  next
    fix e assume "e \<in> accepted_receipt us ` {i \<in> env_identity ` set us. \<not> contradicted us i}"
    then obtain i where i: "i \<in> env_identity ` set us" "\<not> contradicted us i" "e = accepted_receipt us i"
      by auto
    then have "e \<in> set (winners us i)"
      using accepted_receipt_in by blast
    with i show "e \<in> set (filter (\<lambda>e. classify us e = ED_ACCEPTED) us)"
      using classify_winner[of e us i] by (auto simp: set_winners)
  qed
  moreover have "distinct (filter (\<lambda>e. classify us e = ED_ACCEPTED) us)"
    using that by (simp add: distinct_map)
  moreover have "inj_on (accepted_receipt us) (env_identity ` set us)"
    by (rule inj_on_inverseI[where g = env_identity]) (rule accepted_identity)
  then have "distinct (map (accepted_receipt us) (filter (\<lambda>i. \<not> contradicted us i) (observed_identities us)))"
    by (auto simp: distinct_map intro: inj_on_subset)
  ultimately show ?thesis
    by (subst set_eq_iff_mset_eq_distinct[symmetric]) auto
qed

lemma spec_accepted_count:
  assumes "receipts_distinct us"
  shows "accepted_count (canonical_spec us) = length (canonical_records (canonical_spec us))"
proof -
  have "accepted_count (canonical_spec us) = length (filter (\<lambda>e. classify us e = ED_ACCEPTED) us)"
    by (simp add: accepted_count_def disposition_count_def canonical_spec_def make_evidence_def
        filter_sort filter_map comp_def)
  also have "\<dots> = length (canonical_records (canonical_spec us))"
    using mset_eq_length[OF accepted_filter[OF assms]] by (simp add: canonical_spec_def)
  finally show ?thesis .
qed

lemma spec_total_count:
  "accepted_count (canonical_spec us) + duplicate_count (canonical_spec us)
    + stale_count (canonical_spec us) + conflicted_count (canonical_spec us) = length us"
proof -
  have *: "length (filter (\<lambda>x. ev_disposition x = ED_ACCEPTED) xs)
      + length (filter (\<lambda>x. ev_disposition x = ED_DUPLICATE) xs)
      + length (filter (\<lambda>x. ev_disposition x = ED_STALE) xs)
      + length (filter (\<lambda>x. ev_disposition x = ED_CONFLICTED) xs) = length xs"
    if "\<forall>x \<in> set xs. ev_disposition x \<noteq> ED_QUARANTINED" for xs
    using that
  proof (induction xs)
    case (Cons x xs)
    then show ?case by (cases "ev_disposition x") auto
  qed simp
  have "\<forall>x \<in> set (evidence (canonical_spec us)). ev_disposition x \<noteq> ED_QUARANTINED"
    by (auto simp: canonical_spec_def make_evidence_def classify_def Let_def)
  from *[OF this] show ?thesis
    by (simp add: accepted_count_def duplicate_count_def stale_count_def conflicted_count_def
        disposition_count_def) (simp add: canonical_spec_def)
qed

subsection \<open>The ledger\<close>

lemma ledger_table_step:
  "apply_step e (d, n) = (case dedup_step e d of Inl err \<Rightarrow> Inl err
    | Inr d' \<Rightarrow> Inr (d', if map_of d (env_receipt_id e) = None then Suc n else n))"
  by (simp add: apply_step_def dedup_step_def split: option.splits)

lemma ledger_table_fold:
  "fold_result apply_step es (d, n) = Inr (d', m) \<Longrightarrow> fold_result dedup_step es d = Inr d'"
proof (induction es arbitrary: d n)
  case (Cons e es)
  then show ?case
    by (auto simp: ledger_table_step result_simps split: sum.splits)
qed simp

lemma ledger_table_fold_Inl:
  "fold_result apply_step es (d, n) = Inl err \<longleftrightarrow> fold_result dedup_step es d = Inl err"
proof (induction es arbitrary: d n)
  case (Cons e es)
  then show ?case
    by (cases "dedup_step e d") (auto simp: ledger_table_step)
qed simp

lemma fold_dedup_known:
  assumes "receipt_table d"
    and "\<forall>e \<in> set es. \<exists>x \<in> set (dict_values d). env_receipt_id x = env_receipt_id e \<and> fingerprint x = fingerprint e"
  shows "fold_result apply_step es (d, n) = Inr (d, n)"
  using assms(2)
proof (induction es)
  case (Cons e es)
  then obtain x where "map_of d (env_receipt_id e) = Some x" "fingerprint x = fingerprint e"
    using receipt_table_lookup[OF assms(1), of "env_receipt_id e"] by auto
  with Cons show ?case by (simp add: apply_step_def)
qed simp

lemma deduplicate_values:
  assumes "receipt_table d"
  shows "deduplicate_receipts (dict_values d) = Inr d"
  using assms unfolding deduplicate_receipts_def
proof (induction d rule: rev_induct)
  case (snoc p d)
  obtain k e where p: "p = (k, e)" by (cases p)
  with snoc.prems have d: "receipt_table d" "env_receipt_id e = k" "k \<notin> set (dict_keys d)"
    by (auto simp: receipt_table_def)
  moreover from d have "map_of d (env_receipt_id e) = None"
    by (simp add: map_of_eq_None_iff)
  ultimately have "dedup_step e d = Inr (d @ [p])"
    using receipt_table_update[of d e] p by (simp add: dedup_step_def)
  with snoc.IH[OF d(1)] p show ?case
    by (simp add: fold_result_append)
qed simp

lemma ledger_result_dedup:
  "deduplicate_receipts es = Inr (led_receipts l) \<Longrightarrow> ledger_result l = canonicalize es"
  using deduplicate_values[OF deduplicate_Inr(1)]
  by (simp add: ledger_result_def canonicalize_def)

lemma ledger_apply_Inr:
  "ledger_apply l es = (Inr n, l') \<Longrightarrow>
    fold_result dedup_step es (led_receipts l) = Inr (led_receipts l')"
  by (auto simp: ledger_apply_def dest: ledger_table_fold split: sum.splits)

lemma new_ledger_Inr: "new_ledger es = Inr l \<longleftrightarrow> deduplicate_receipts es = Inr (led_receipts l)"
proof (cases "fold_result apply_step es ([], 0)")
  case (Inl err)
  then show ?thesis
    using ledger_table_fold_Inl[of es "[]" 0 err]
    by (simp add: new_ledger_def ledger_apply_def deduplicate_receipts_def)
next
  case (Inr p)
  obtain d n where p: "p = (d, n)" by (cases p)
  with Inr ledger_table_fold have "fold_result dedup_step es [] = Inr d" by blast
  with Inr p show ?thesis
    by (cases l) (auto simp: new_ledger_def ledger_apply_def deduplicate_receipts_def)
qed

lemma canonical_by_identity_lookup:
  assumes "distinct (map record_identity (canonical_records res))" and "r \<in> set (canonical_records res)"
  shows "map_of (canonical_by_identity res) (record_identity r) = Some r"
  using alist.store_all_inj[of record_identity "canonical_records res" r "\<lambda>r. r" "[]"] assms
  by (simp add: canonical_by_identity_def alist.store_all_def distinct_map)

subsection \<open>Properties\<close>

definition sample_order :: "string \<Rightarrow> int \<Rightarrow> int \<Rightarrow> financial_record" where
  "sample_order i cents version = OrderRec
     \<lparr>ord_id = i, ord_created_at_utc = 63860400000000000, ord_status = OS_PAID, ord_currency = ''EUR'',
      ord_total = cents, ord_source_version = version\<rparr>"

definition sample_envelope :: "string \<Rightarrow> financial_record \<Rightarrow> string \<Rightarrow> record_envelope" where
  "sample_envelope receipt r h = \<lparr>env_receipt_id = receipt, env_record = r, env_payload_hash = h\<rparr>"

definition sample_receipts :: "record_envelope list" where
  "sample_receipts =
     [sample_envelope ''r1'' (sample_order ''o1'' 1000 1) ''a'',
      sample_envelope ''r2'' (sample_order ''o1'' 1200 2) ''b'',
      sample_envelope ''r3'' (sample_order ''o1'' 1200 2) ''b'',
      sample_envelope ''r4'' (sample_order ''o2'' 500 1) ''c'',
      sample_envelope ''r5'' (sample_order ''o2'' 700 1) ''d'']"

definition sample_result :: canonicalization_result where
  "sample_result =
     \<lparr>canonical_records = [sample_order ''o1'' 1200 2],
      evidence =
        [make_evidence (sample_receipts ! 0) ED_STALE, make_evidence (sample_receipts ! 1) ED_ACCEPTED,
         make_evidence (sample_receipts ! 2) ED_DUPLICATE,
         make_evidence (sample_receipts ! 3) ED_CONFLICTED,
         make_evidence (sample_receipts ! 4) ED_CONFLICTED],
      conflicts = [\<lparr>cc_identity = (''threadline_shop'', ''ORDER'', ''o2''), cc_source_version = 1,
        cc_payload_hashes = [''c'', ''d''], cc_receipt_ids = [''r4'', ''r5'']\<rparr>]\<rparr>"

lemma sample_canonicalize: "canonicalize sample_receipts = Inr sample_result"
  by code_simp

lemmas sample_defs = sample_receipts_def sample_envelope_def sample_order_def

text \<open>C3: The result of canonicalization depends only on which receipts were observed: any
  permutation or repetition of the same receipts gives the same result, provided that no two
  receipts with one fingerprint carry different records (no hash collision).\<close>

theorem canonicalize_order_independent:
  assumes "set es = set es'" and "hash_faithful es"
  shows "canonicalize es = Inr res \<longleftrightarrow> canonicalize es' = Inr res"
proof -
  have "hash_faithful es'"
    using assms(2) unfolding hash_faithful_def assms(1) .
  then show ?thesis
    using canonicalize_same_receipts assms by metis
qed

theorem canonicalize_order_independent_witness:
  "canonicalize (rev sample_receipts @ sample_receipts) = Inr sample_result"
proof -
  have "hash_faithful sample_receipts"
    by (simp add: hash_faithful_def fingerprint_def sample_defs)
  from canonicalize_order_independent[of sample_receipts "rev sample_receipts @ sample_receipts" sample_result, OF _ this]
  show ?thesis using sample_canonicalize by simp
qed

text \<open>C20: Evidence is conserved: when canonicalization succeeds, every observed receipt has exactly one
  classified evidence record, the records are sorted by their key, the accepted ones are as many as the
  canonical records, and the four counts add up to the number of distinct receipts.\<close>

theorem evidence_conserved:
  assumes "canonicalize es = Inr res"
  shows "distinct (map ev_receipt_id (evidence res))
    \<and> set (map ev_receipt_id (evidence res)) = env_receipt_id ` set es
    \<and> sorted (map evidence_sort_key (evidence res))
    \<and> accepted_count res = length (canonical_records res)
    \<and> accepted_count res + duplicate_count res + stale_count res + conflicted_count res
      = card (env_receipt_id ` set es)"
proof -
  from canonicalize_Inr[OF assms] obtain us where us: "receipts_distinct us" "set us \<subseteq> set es"
    "res = canonical_spec us" and cover: "\<forall>e \<in> set es. \<exists>x \<in> set us.
      env_receipt_id x = env_receipt_id e \<and> fingerprint x = fingerprint e"
    by metis
  have ids: "env_receipt_id ` set us = env_receipt_id ` set es"
    using us(2) cover by (intro subset_antisym image_mono image_subset_matching) auto
  note ev = spec_evidence_ids[of us, folded us(3)]
  have "distinct (map ev_receipt_id (evidence res))"
    using mset_eq_imp_distinct_iff[OF ev] us(1) by blast
  moreover have "set (map ev_receipt_id (evidence res)) = env_receipt_id ` set es"
    using mset_eq_setD[OF ev] ids by simp
  moreover have "sorted (map evidence_sort_key (evidence res))"
    unfolding us(3) by (simp add: canonical_spec_def)
  moreover have "accepted_count res = length (canonical_records res)"
    unfolding us(3) by (rule spec_accepted_count[OF us(1)])
  moreover have "card (env_receipt_id ` set es) = length us"
    using distinct_card[OF us(1)] ids by simp
  ultimately show ?thesis
    using spec_total_count[of us, folded us(3)] by simp
qed

theorem evidence_conserved_witness:
  "set (map ev_receipt_id (evidence sample_result)) = {''r1'', ''r2'', ''r3'', ''r4'', ''r5''}"
  using evidence_conserved[OF sample_canonicalize] by (simp add: sample_receipts_def sample_envelope_def)



lemma canonicalize_fresh:
  assumes "deduplicate_receipts es = Inr d" and "env_receipt_id e \<notin> env_receipt_id ` set es"
  shows "canonicalize (es @ [e]) = Inr (canonical_spec (dict_values d @ [e]))"
proof -
  note D = deduplicate_Inr[OF assms(1)]
  have new: "map_of d (env_receipt_id e) = None"
  proof (rule ccontr)
    assume "map_of d (env_receipt_id e) \<noteq> None"
    then obtain x where "map_of d (env_receipt_id e) = Some x" by blast
    then have "x \<in> set (dict_values d) \<and> env_receipt_id x = env_receipt_id e"
      using receipt_table_lookup[OF D(1), of "env_receipt_id e" x] by simp
    with D(2) assms(2) show False by (metis imageI subsetD)
  qed
  note table = receipt_table_update[OF D(1) new]
  have "deduplicate_receipts (es @ [e]) = Inr (d @ [(env_receipt_id e, e)])"
    using assms(1) new table
    by (simp add: deduplicate_receipts_def fold_result_append dedup_step_def)
  then show ?thesis
    using canonicalize_unique_spec[OF receipt_table_distinct[OF conjunct2[OF table]]]
    by (simp add: canonicalize_def)
qed

lemma winners_other:
  "env_identity e \<noteq> i \<Longrightarrow> winners (us @ [e]) i = winners us i"
  by (simp add: winners_def at_identity_def winning_version_def)

lemma winners_newest:
  assumes "\<forall>x \<in> set us. env_identity x = env_identity e \<longrightarrow> env_source_version x < env_source_version e"
  shows "winners (us @ [e]) (env_identity e) = [e]"
proof -
  have "winning_version (us @ [e]) (env_identity e) = env_source_version e"
    unfolding winning_version_def
    by (rule Max_eqI) (use assms in \<open>auto simp: image_iff intro: less_imp_le\<close>)
  moreover have "filter (\<lambda>x. env_source_version x = env_source_version e) (at_identity us (env_identity e)) = []"
    using assms by (auto simp: filter_empty_conv)
  ultimately show ?thesis
    by (simp add: winners_def) (simp add: at_identity_def)
qed

lemma spec_record_iff:
  "r \<in> set (canonical_records (canonical_spec us)) \<longleftrightarrow>
    record_identity r \<in> env_identity ` set us \<and> \<not> contradicted us (record_identity r)
    \<and> r = env_record (accepted_receipt us (record_identity r))"
  unfolding spec_canonical_record
  using accepted_identity[of _ us] unfolding env_identity_def by metis

text \<open>A correction supersedes: a new receipt with a strictly higher version than every earlier receipt of its
  identity becomes that identity's canonical record, and no other identity's canonical record changes.\<close>

theorem newer_version_supersedes:
  assumes "canonicalize es = Inr res"
    and "env_receipt_id e \<notin> env_receipt_id ` set es"
    and "\<forall>x \<in> set es. env_identity x = env_identity e \<longrightarrow> env_source_version x < env_source_version e"
  shows "\<exists>res'. canonicalize (es @ [e]) = Inr res'
    \<and> (\<forall>r. r \<in> set (canonical_records res') \<longleftrightarrow>
         (if record_identity r = env_identity e then r = env_record e
          else r \<in> set (canonical_records res)))"
proof -
  from assms(1) obtain d where d: "deduplicate_receipts es = Inr d" "res = canonicalize_unique (dict_values d)"
    unfolding canonicalize_def by (auto elim!: bind_result_InrE)
  let ?us = "dict_values d"
  let ?i = "env_identity e"
  note D = deduplicate_Inr[OF d(1)]
  have res: "res = canonical_spec ?us"
    using d(2) canonicalize_unique_spec[OF receipt_table_distinct[OF D(1)]] by simp
  have w: "winners (?us @ [e]) ?i = [e]"
    using assms(3) D(2) by (intro winners_newest) blast
  have "accepted_receipt (?us @ [e]) ?i = e" "\<not> contradicted (?us @ [e]) ?i"
    using w by (simp_all add: accepted_receipt_def contradicted_def)
  moreover have "accepted_receipt (?us @ [e]) i = accepted_receipt ?us i"
    "contradicted (?us @ [e]) i = contradicted ?us i" if "i \<noteq> ?i" for i
    using winners_other[OF that[symmetric]] by (simp_all add: accepted_receipt_def contradicted_def)
  ultimately have iff: "r \<in> set (canonical_records (canonical_spec (?us @ [e]))) \<longleftrightarrow>
      (if record_identity r = ?i then r = env_record e else r \<in> set (canonical_records res))" for r
    unfolding spec_record_iff res by (auto simp: env_identity_def)
  show ?thesis
    using canonicalize_fresh[OF d(1) assms(2)] iff by blast
qed

theorem newer_version_supersedes_witness:
  "\<exists>res'. canonicalize (sample_receipts @ [sample_envelope ''r9'' (sample_order ''o2'' 900 2) ''z'']) = Inr res'
    \<and> sample_order ''o2'' 900 2 \<in> set (canonical_records res')"
proof -
  let ?e = "sample_envelope ''r9'' (sample_order ''o2'' 900 2) ''z''"
  have "env_receipt_id ?e \<notin> env_receipt_id ` set sample_receipts"
    "\<forall>x \<in> set sample_receipts. env_identity x = env_identity ?e \<longrightarrow> env_source_version x < env_source_version ?e"
    by (simp_all add: sample_defs env_source_version_def env_identity_def record_identity_def)
  from newer_version_supersedes[OF sample_canonicalize this] obtain res' where
    "canonicalize (sample_receipts @ [?e]) = Inr res'"
    "sample_order ''o2'' 900 2 \<in> set (canonical_records res') \<longleftrightarrow>
      (if record_identity (sample_order ''o2'' 900 2) = env_identity ?e
       then sample_order ''o2'' 900 2 = env_record ?e
       else sample_order ''o2'' 900 2 \<in> set (canonical_records sample_result))"
    by blast
  then show ?thesis
    by (auto simp: sample_envelope_def env_identity_def)
qed

text \<open>C16: The incremental ledger agrees with the batch: applying further receipts to a ledger built from \<open>es\<close> either
  succeeds, and then the result is that of canonicalizing the whole history at once, or the history reuses a
  receipt identifier for different content, and then the call raises and leaves the ledger as it was.\<close>

theorem ledger_apply_incremental:
  assumes "new_ledger es = Inr l" and "ledger_apply l es' = (out, l')"
  shows "if receipts_consistent (es @ es')
    then (\<exists>n. out = Inr n) \<and> ledger_result l' = canonicalize (es @ es')
    else (\<exists>k. out = Inl (ReceiptConflictError k)) \<and> l' = l"
proof -
  have d: "deduplicate_receipts es = Inr (led_receipts l)"
    using assms(1) by (simp only: new_ledger_Inr)
  have all: "deduplicate_receipts (es @ es') = fold_result dedup_step es' (led_receipts l)"
    using d by (simp add: deduplicate_receipts_def fold_result_append)
  show ?thesis
  proof (cases out)
    case (Inr n)
    then have "deduplicate_receipts (es @ es') = Inr (led_receipts l')"
      using assms(2) all ledger_apply_Inr by metis
    then show ?thesis
      using Inr ledger_result_dedup deduplicate_Inr_iff by auto
  next
    case (Inl err)
    then have "fold_result dedup_step es' (led_receipts l) = Inl err" "l' = l"
      using assms(2) ledger_table_fold_Inl[of es' "led_receipts l" 0 err]
      by (auto simp: ledger_apply_def split: sum.splits)
    then show ?thesis
      using Inl all deduplicate_conflict[of "es @ es'" err] by auto
  qed
qed

theorem ledger_apply_incremental_witness:
  "\<exists>l n l'. new_ledger (take 2 sample_receipts) = Inr l \<and> ledger_apply l (drop 2 sample_receipts) = (Inr n, l')
    \<and> ledger_result l' = Inr sample_result"
proof -
  obtain l where l: "new_ledger (take 2 sample_receipts) = Inr l"
    by (simp add: new_ledger_def ledger_apply_def sample_defs apply_step_def)
  obtain out l' where a: "ledger_apply l (drop 2 sample_receipts) = (out, l')" by fastforce
  have "receipts_consistent (take 2 sample_receipts @ drop 2 sample_receipts)"
    using canonicalize_Inr_iff sample_canonicalize by auto
  with ledger_apply_incremental[OF l a] have "\<exists>n. out = Inr n" "ledger_result l' = Inr sample_result"
    using sample_canonicalize by (simp_all only: if_True append_take_drop_id)
  with l a show ?thesis by blast
qed

text \<open>Applying receipts a ledger has already taken in adds nothing and changes nothing.\<close>

theorem ledger_replay_idempotent:
  assumes "new_ledger es = Inr l" and "set es' \<subseteq> set es"
  shows "ledger_apply l es' = (Inr 0, l)"
proof -
  have "deduplicate_receipts es = Inr (led_receipts l)"
    using assms(1) by (simp only: new_ledger_Inr)
  note D = deduplicate_Inr[OF this]
  have "fold_result apply_step es' (led_receipts l, 0) = Inr (led_receipts l, 0)"
    by (rule fold_dedup_known[OF D(1)]) (use D(3) assms(2) in blast)
  then show ?thesis by (simp add: ledger_apply_def)
qed

theorem ledger_replay_idempotent_witness:
  "\<exists>l. new_ledger sample_receipts = Inr l \<and> ledger_apply l (rev sample_receipts) = (Inr 0, l)"
proof -
  obtain l where "new_ledger sample_receipts = Inr l"
    by (simp add: new_ledger_def ledger_apply_def sample_defs apply_step_def)
  with ledger_replay_idempotent[of sample_receipts l "rev sample_receipts"] show ?thesis by simp
qed

end
