(* ===== verification/Completeness.thy ===== *)
theory Completeness
  imports Contracts
begin

text \<open>
  \<open>threadline/completeness.py\<close>: whether the report of a source for one business date is complete,
  still pending or overdue, from the data file and the manifest that were visible at the time of
  the evaluation.  The issues keep their codes (each code occurs at most once, so sorting by code
  is sorting by the code's \<open>sort_key\<close>); their English messages and the joined \<open>reason\<close> are not
  modelled.  The zone Europe/Berlin is the parameter \<open>berlin\<close>.  \<open>sha256_file\<close> is file input and
  stays outside; the checksum of an observation is a field of its evidence.
\<close>

subsection \<open>Issues, deadlines and sources\<close>

datatype completeness_issue_code =
    DATA_FILE_MISSING
  | MANIFEST_MISSING
  | MANIFEST_INVALID
  | DATA_SOURCE_MISMATCH
  | DATA_REPORT_TYPE_MISMATCH
  | DATA_BUSINESS_DATE_MISMATCH
  | MANIFEST_SOURCE_MISMATCH
  | MANIFEST_REPORT_TYPE_MISMATCH
  | MANIFEST_BUSINESS_DATE_MISMATCH
  | BATCH_ID_MISMATCH
  | ROW_COUNT_MISMATCH
  | CHECKSUM_MISMATCH
  | MANIFEST_GENERATED_AFTER_RECEIPT

primrec issue_code_value :: "completeness_issue_code \<Rightarrow> string" where
  "issue_code_value DATA_FILE_MISSING = ''DATA_FILE_MISSING''"
| "issue_code_value MANIFEST_MISSING = ''MANIFEST_MISSING''"
| "issue_code_value MANIFEST_INVALID = ''MANIFEST_INVALID''"
| "issue_code_value DATA_SOURCE_MISMATCH = ''DATA_SOURCE_MISMATCH''"
| "issue_code_value DATA_REPORT_TYPE_MISMATCH = ''DATA_REPORT_TYPE_MISMATCH''"
| "issue_code_value DATA_BUSINESS_DATE_MISMATCH = ''DATA_BUSINESS_DATE_MISMATCH''"
| "issue_code_value MANIFEST_SOURCE_MISMATCH = ''MANIFEST_SOURCE_MISMATCH''"
| "issue_code_value MANIFEST_REPORT_TYPE_MISMATCH = ''MANIFEST_REPORT_TYPE_MISMATCH''"
| "issue_code_value MANIFEST_BUSINESS_DATE_MISMATCH = ''MANIFEST_BUSINESS_DATE_MISMATCH''"
| "issue_code_value BATCH_ID_MISMATCH = ''BATCH_ID_MISMATCH''"
| "issue_code_value ROW_COUNT_MISMATCH = ''ROW_COUNT_MISMATCH''"
| "issue_code_value CHECKSUM_MISMATCH = ''CHECKSUM_MISMATCH''"
| "issue_code_value MANIFEST_GENERATED_AFTER_RECEIPT = ''MANIFEST_GENERATED_AFTER_RECEIPT''"

text \<open>The wall-clock hour of the deadline, on the day after the business date.\<close>

primrec REPORT_DEADLINES :: "report_type \<Rightarrow> int" where
  "REPORT_DEADLINES RT_ORDERS = 1"
| "REPORT_DEADLINES RT_PAYMENTS = 2"
| "REPORT_DEADLINES RT_REFUNDS = 2"
| "REPORT_DEADLINES RT_FEES = 12"
| "REPORT_DEADLINES RT_SETTLEMENT_LINES = 12"
| "REPORT_DEADLINES RT_PAYOUTS = 12"

primrec REPORT_SOURCES :: "report_type \<Rightarrow> source_system" where
  "REPORT_SOURCES RT_ORDERS = THREADLINE_SHOP"
| "REPORT_SOURCES RT_PAYMENTS = MOCKPAY"
| "REPORT_SOURCES RT_REFUNDS = MOCKPAY"
| "REPORT_SOURCES RT_FEES = MOCKPAY"
| "REPORT_SOURCES RT_SETTLEMENT_LINES = MOCKPAY"
| "REPORT_SOURCES RT_PAYOUTS = MOCKPAY"

definition EXPECTED_REPORTS :: "report_type list" where
  "EXPECTED_REPORTS = sort_key report_type_value report_type_members"

definition MISSING_ISSUES :: "completeness_issue_code list" where
  "MISSING_ISSUES = [DATA_FILE_MISSING, MANIFEST_MISSING]"

subsection \<open>Evidence\<close>

datatype completeness_error = CompletenessError string | DateOverflow | AssertionFailed

definition require_aware_datetime :: "pydatetime \<Rightarrow> string \<Rightarrow> completeness_error + instant" where
  "require_aware_datetime t field = (case t of
       Naive _ \<Rightarrow> Inl (CompletenessError field)
     | Aware i \<Rightarrow> Inr i)"

definition validate_sha256 :: "string \<Rightarrow> string \<Rightarrow> completeness_error + string" where
  "validate_sha256 s field = (if sha256_text s then Inr s else Inl (CompletenessError field))"

record data_file_evidence =
  df_batch_id :: string
  df_source_system :: source_system
  df_report_type :: report_type
  df_business_date :: date
  df_received_at_utc :: instant
  df_parsed_row_count :: int
  df_sha256 :: string

definition make_data_file_evidence ::
  "string \<Rightarrow> source_system \<Rightarrow> report_type \<Rightarrow> date \<Rightarrow> pydatetime \<Rightarrow> int \<Rightarrow> string
     \<Rightarrow> completeness_error + data_file_evidence" where
  "make_data_file_evidence batch source rtype bdate received rows checksum =
     bind_result (require (canonical_text batch) (CompletenessError ''batch_id'')) (\<lambda>_.
     bind_result (require (0 \<le> rows) (CompletenessError ''parsed_row_count'')) (\<lambda>_.
     bind_result (require_aware_datetime received ''received_at_utc'') (\<lambda>received_at.
     bind_result (validate_sha256 checksum ''sha256'') (\<lambda>_.
       Inr \<lparr>df_batch_id = batch, df_source_system = source, df_report_type = rtype,
            df_business_date = bdate, df_received_at_utc = received_at,
            df_parsed_row_count = rows, df_sha256 = checksum\<rparr>))))"

record manifest_evidence =
  me_received_at_utc :: instant
  me_manifest :: "manifest option"
  me_validation_error :: "string option"

definition make_manifest_evidence ::
  "pydatetime \<Rightarrow> manifest option \<Rightarrow> string option \<Rightarrow> completeness_error + manifest_evidence" where
  "make_manifest_evidence received man err =
     bind_result (require_aware_datetime received ''manifest received_at_utc'') (\<lambda>received_at.
     bind_result (require ((man \<noteq> None) \<noteq> (err \<noteq> None)) (CompletenessError ''manifest'')) (\<lambda>_.
     bind_result (require (case err of None \<Rightarrow> True | Some s \<Rightarrow> strip s \<noteq> [])
       (CompletenessError ''validation_error'')) (\<lambda>_.
       Inr \<lparr>me_received_at_utc = received_at, me_manifest = man, me_validation_error = err\<rparr>)))"

record report_evidence =
  re_data_file :: "data_file_evidence option"
  re_manifest :: "manifest_evidence option"

definition no_evidence :: report_evidence where
  "no_evidence = \<lparr>re_data_file = None, re_manifest = None\<rparr>"

record completeness_result =
  cr_status :: source_report_status
  cr_deadline_at_utc :: instant
  cr_issues :: "completeness_issue_code list"

definition is_complete :: "completeness_result \<Rightarrow> bool" where
  "is_complete r = (srs_state (cr_status r) = SC_COMPLETE)"

definition is_pending :: "completeness_result \<Rightarrow> bool" where
  "is_pending r = (srs_state (cr_status r) = SC_PENDING)"

definition is_incomplete :: "completeness_result \<Rightarrow> bool" where
  "is_incomplete r = (srs_state (cr_status r) = SC_INCOMPLETE)"

definition completeness_sort_key :: "completeness_result \<Rightarrow> string \<times> string \<times> string" where
  "completeness_sort_key r =
     (isoformat (srs_business_date (cr_status r)),
      source_system_value (srs_source_system (cr_status r)),
      report_type_value (srs_report_type (cr_status r)))"

subsection \<open>Evaluation of one report\<close>

definition max_date :: date where
  "max_date = 3652059"

definition report_deadline_utc :: "zone \<Rightarrow> date \<Rightarrow> report_type \<Rightarrow> completeness_error + instant" where
  "report_deadline_utc berlin d rt =
     (if max_date < d + 1 then Inl DateOverflow
      else Inr (local_to_utc berlin (instant_of_date (d + 1) + REPORT_DEADLINES rt * 3600000000)))"

definition visible_data_file :: "report_evidence \<Rightarrow> instant \<Rightarrow> data_file_evidence option" where
  "visible_data_file ev as_of = (case re_data_file ev of
       None \<Rightarrow> None
     | Some f \<Rightarrow> if as_of < df_received_at_utc f then None else Some f)"

definition visible_manifest :: "report_evidence \<Rightarrow> instant \<Rightarrow> manifest_evidence option" where
  "visible_manifest ev as_of = (case re_manifest ev of
       None \<Rightarrow> None
     | Some m \<Rightarrow> if as_of < me_received_at_utc m then None else Some m)"

definition issue_if :: "bool \<Rightarrow> completeness_issue_code \<Rightarrow> completeness_issue_code list" where
  "issue_if b c = (if b then [c] else [])"

definition manifest_issues ::
  "source_system \<Rightarrow> report_type \<Rightarrow> date \<Rightarrow> instant \<Rightarrow> manifest
     \<Rightarrow> completeness_issue_code list" where
  "manifest_issues source rt d received m =
     issue_if (man_source_system m \<noteq> source) MANIFEST_SOURCE_MISMATCH
     @ issue_if (man_report_type m \<noteq> rt) MANIFEST_REPORT_TYPE_MISMATCH
     @ issue_if (man_business_date m \<noteq> d) MANIFEST_BUSINESS_DATE_MISMATCH
     @ issue_if (received < man_generated_at_utc m) MANIFEST_GENERATED_AFTER_RECEIPT"

definition data_file_issues ::
  "source_system \<Rightarrow> report_type \<Rightarrow> date \<Rightarrow> manifest \<Rightarrow> data_file_evidence
     \<Rightarrow> completeness_issue_code list" where
  "data_file_issues source rt d m f =
     issue_if (df_source_system f \<noteq> source) DATA_SOURCE_MISMATCH
     @ issue_if (df_report_type f \<noteq> rt) DATA_REPORT_TYPE_MISMATCH
     @ issue_if (df_business_date f \<noteq> d) DATA_BUSINESS_DATE_MISMATCH
     @ issue_if (man_batch_id m \<noteq> df_batch_id f) BATCH_ID_MISMATCH
     @ issue_if (man_row_count m \<noteq> df_parsed_row_count f) ROW_COUNT_MISMATCH
     @ issue_if (man_sha256 m \<noteq> df_sha256 f) CHECKSUM_MISMATCH"

text \<open>
  The last branch is the code's \<open>AssertionError\<close>; evidence built by \<open>make_manifest_evidence\<close>
  never reaches it.
\<close>

definition collect_issues ::
  "source_system \<Rightarrow> report_type \<Rightarrow> date \<Rightarrow> data_file_evidence option \<Rightarrow> manifest_evidence option
     \<Rightarrow> completeness_error + completeness_issue_code list" where
  "collect_issues source rt d file mev =
     (let missing = issue_if (file = None) DATA_FILE_MISSING
      in case mev of
          None \<Rightarrow> Inr (missing @ [MANIFEST_MISSING])
        | Some e \<Rightarrow>
            (if me_validation_error e \<noteq> None then Inr (missing @ [MANIFEST_INVALID])
             else case me_manifest e of
                 None \<Rightarrow> Inl AssertionFailed
               | Some m \<Rightarrow>
                   Inr (missing @ manifest_issues source rt d (me_received_at_utc e) m
                     @ (case file of
                          None \<Rightarrow> []
                        | Some f \<Rightarrow> data_file_issues source rt d m f))))"

definition evaluate_report ::
  "zone \<Rightarrow> report_type \<Rightarrow> date \<Rightarrow> pydatetime \<Rightarrow> report_evidence
     \<Rightarrow> completeness_error + completeness_result" where
  "evaluate_report berlin rt d as_of ev =
     bind_result (require_aware_datetime as_of ''as_of'') (\<lambda>as_of_utc.
     bind_result (report_deadline_utc berlin d rt) (\<lambda>deadline.
     let source = REPORT_SOURCES rt;
         file = visible_data_file ev as_of_utc;
         mev = visible_manifest ev as_of_utc
     in bind_result (collect_issues source rt d file mev) (\<lambda>found.
       let issues = sort_key issue_code_value found;
           state = (if issues = [] then SC_COMPLETE
                    else if as_of_utc < deadline then SC_PENDING
                    else SC_INCOMPLETE);
           file_batch = (case file of None \<Rightarrow> None | Some f \<Rightarrow> Some (df_batch_id f));
           batch = (case mev of
                      None \<Rightarrow> file_batch
                    | Some e \<Rightarrow> (case me_manifest e of
                                  None \<Rightarrow> file_batch
                                | Some m \<Rightarrow> Some (man_batch_id m)))
       in Inr \<lparr>cr_status = \<lparr>srs_source_system = source, srs_report_type = rt,
                            srs_business_date = d, srs_state = state, srs_batch_id = batch\<rparr>,
               cr_deadline_at_utc = deadline, cr_issues = issues\<rparr>)))"

subsection \<open>The six reports of a day\<close>

definition evaluate_expected_reports ::
  "zone \<Rightarrow> date \<Rightarrow> pydatetime \<Rightarrow> (report_type, report_evidence) dict
     \<Rightarrow> completeness_error + completeness_result list" where
  "evaluate_expected_reports berlin d as_of evidence_by_report =
     bind_result (map_result (\<lambda>rt. evaluate_report berlin rt d as_of
         (dict_get evidence_by_report rt no_evidence)) EXPECTED_REPORTS)
       (\<lambda>results. Inr (sort_key completeness_sort_key results))"

definition overall_completeness :: "completeness_result list \<Rightarrow> source_completeness" where
  "overall_completeness results =
     (let states = map (\<lambda>r. srs_state (cr_status r)) results
      in if SC_INCOMPLETE \<in> set states then SC_INCOMPLETE
         else if SC_PENDING \<in> set states then SC_PENDING
         else SC_COMPLETE)"

definition states_by_report :: "completeness_result list \<Rightarrow> (report_type, source_completeness) dict" where
  "states_by_report results =
     fold (\<lambda>r. AList.update (srs_report_type (cr_status r)) (srs_state (cr_status r))) results []"

definition required_reports_complete :: "completeness_result list \<Rightarrow> report_type list \<Rightarrow> bool" where
  "required_reports_complete results required =
     list_all (\<lambda>rt. map_of (states_by_report results) rt = Some SC_COMPLETE) required"

definition may_emit_missing_payment :: "completeness_result list \<Rightarrow> bool" where
  "may_emit_missing_payment results = required_reports_complete results [RT_ORDERS, RT_PAYMENTS]"

definition may_emit_missing_fee :: "completeness_result list \<Rightarrow> bool" where
  "may_emit_missing_fee results = required_reports_complete results [RT_PAYMENTS, RT_FEES]"

definition source_report_entity_id :: "source_report_status \<Rightarrow> string" where
  "source_report_entity_id s =
     source_system_value (srs_source_system s) @ '':'' @ report_type_value (srs_report_type s)
       @ '':'' @ isoformat (srs_business_date s)"

definition source_report_exception :: "completeness_result \<Rightarrow> exception_record" where
  "source_report_exception r =
     \<lparr>xr_code = (if list_all (\<lambda>c. c \<in> set MISSING_ISSUES) (cr_issues r)
                 then EC_SOURCE_REPORT_MISSING else EC_SOURCE_REPORT_INVALID),
      xr_entity_type = ''SOURCE_REPORT'',
      xr_entity_id = source_report_entity_id (cr_status r)\<rparr>"

definition source_report_exceptions :: "completeness_result list \<Rightarrow> exception_record list" where
  "source_report_exceptions results =
     sort_key exception_record_sort_key (map source_report_exception (filter is_incomplete results))"

subsection \<open>When a report is complete\<close>

definition manifest_agrees :: "report_type \<Rightarrow> date \<Rightarrow> instant \<Rightarrow> manifest \<Rightarrow> bool" where
  "manifest_agrees rt d received m =
     (man_source_system m = REPORT_SOURCES rt \<and> man_report_type m = rt \<and> man_business_date m = d
      \<and> man_generated_at_utc m \<le> received)"

definition data_file_agrees :: "report_type \<Rightarrow> date \<Rightarrow> manifest \<Rightarrow> data_file_evidence \<Rightarrow> bool" where
  "data_file_agrees rt d m f =
     (df_source_system f = REPORT_SOURCES rt \<and> df_report_type f = rt \<and> df_business_date f = d
      \<and> man_batch_id m = df_batch_id f \<and> man_row_count m = df_parsed_row_count f
      \<and> man_sha256 m = df_sha256 f)"

text \<open>Both observations have arrived, the manifest is valid, and everything they declare agrees.\<close>

definition report_agrees :: "report_type \<Rightarrow> date \<Rightarrow> instant \<Rightarrow> report_evidence \<Rightarrow> bool" where
  "report_agrees rt d t ev =
     (case (re_data_file ev, re_manifest ev) of
        (Some f, Some e) \<Rightarrow>
          df_received_at_utc f \<le> t \<and> me_received_at_utc e \<le> t \<and> me_validation_error e = None
          \<and> (case me_manifest e of
               None \<Rightarrow> False
             | Some m \<Rightarrow> manifest_agrees rt d (me_received_at_utc e) m \<and> data_file_agrees rt d m f)
      | _ \<Rightarrow> False)"

definition evidence_valid :: "report_evidence \<Rightarrow> bool" where
  "evidence_valid ev = (case re_manifest ev of
       None \<Rightarrow> True
     | Some e \<Rightarrow> (me_manifest e \<noteq> None) \<noteq> (me_validation_error e \<noteq> None))"

lemma issue_if_empty [simp]: "issue_if b c = [] \<longleftrightarrow> \<not> b"
  by (simp add: issue_if_def)

lemma manifest_issues_empty [simp]:
  "manifest_issues (REPORT_SOURCES rt) rt d received m = [] \<longleftrightarrow> manifest_agrees rt d received m"
  by (auto simp: manifest_issues_def manifest_agrees_def)

lemma data_file_issues_empty [simp]:
  "data_file_issues (REPORT_SOURCES rt) rt d m f = [] \<longleftrightarrow> data_file_agrees rt d m f"
  by (auto simp: data_file_issues_def data_file_agrees_def)

lemma collect_issues_empty:
  assumes "collect_issues (REPORT_SOURCES rt) rt d (visible_data_file ev t) (visible_manifest ev t) = Inr is"
  shows "is = [] \<longleftrightarrow> report_agrees rt d t ev"
  using assms
  by (auto simp: collect_issues_def report_agrees_def visible_data_file_def visible_manifest_def Let_def
      split: option.splits if_splits)

lemma collect_issues_total:
  "evidence_valid ev \<Longrightarrow> \<exists>is. collect_issues source rt d file (visible_manifest ev t) = Inr is"
  by (auto simp: collect_issues_def evidence_valid_def visible_manifest_def Let_def split: option.splits)

lemma evaluate_report_Inr:
  assumes "evaluate_report berlin rt d as_of ev = Inr r"
  obtains t where "as_of = Aware t" "report_deadline_utc berlin d rt = Inr (cr_deadline_at_utc r)"
    "srs_report_type (cr_status r) = rt" "srs_business_date (cr_status r) = d"
    "srs_source_system (cr_status r) = REPORT_SOURCES rt"
    "srs_state (cr_status r) = (if report_agrees rt d t ev then SC_COMPLETE
      else if t < cr_deadline_at_utc r then SC_PENDING else SC_INCOMPLETE)"
    "cr_issues r = [] \<longleftrightarrow> report_agrees rt d t ev"
  using assms collect_issues_empty[of rt d ev]
  unfolding evaluate_report_def Let_def
  by (auto elim!: bind_result_InrE simp: require_aware_datetime_def split: pydatetime.splits
      cong: if_cong)

lemma evaluate_report_total:
  "evidence_valid ev \<Longrightarrow> d < max_date \<Longrightarrow> \<exists>r. evaluate_report berlin rt d (Aware t) ev = Inr r"
  using collect_issues_total[of ev "REPORT_SOURCES rt" rt d _ t]
  by (auto simp: evaluate_report_def require_aware_datetime_def report_deadline_utc_def Let_def result_simps)

lemma report_state_decided':
  assumes "evaluate_report berlin rt d (Aware t) ev = Inr r"
  shows "srs_state (cr_status r) =
      (if report_agrees rt d t ev then SC_COMPLETE
       else if t < local_to_utc berlin (instant_of_date (d + 1) + REPORT_DEADLINES rt * 3600000000)
       then SC_PENDING else SC_INCOMPLETE)"
  using assms by (rule evaluate_report_Inr) (auto simp: report_deadline_utc_def split: if_splits)

lemma report_agrees_mono: "report_agrees rt d t ev \<Longrightarrow> t \<le> t' \<Longrightarrow> report_agrees rt d t' ev"
  by (auto simp: report_agrees_def split: option.splits)

lemma set_expected_reports [simp]: "set EXPECTED_REPORTS = UNIV"
  by (simp add: EXPECTED_REPORTS_def report_type_members_all)

lemma distinct_expected_reports [simp]: "distinct EXPECTED_REPORTS"
  by (simp add: EXPECTED_REPORTS_def report_type_members_def)

lemma expected_reports_Inr:
  assumes "evaluate_expected_reports berlin d as_of evs = Inr rs"
  shows "mset (map (\<lambda>r. srs_report_type (cr_status r)) rs) = mset EXPECTED_REPORTS"
    and "r \<in> set rs \<Longrightarrow> evaluate_report berlin (srs_report_type (cr_status r)) d as_of
        (dict_get evs (srs_report_type (cr_status r)) no_evidence) = Inr r"
proof -
  let ?f = "\<lambda>rt. evaluate_report berlin rt d as_of (dict_get evs rt no_evidence)"
  obtain us where us: "map_result ?f EXPECTED_REPORTS = Inr us" "rs = sort_key completeness_sort_key us"
    using assms by (auto simp: evaluate_expected_reports_def result_simps)
  then have all: "list_all2 (\<lambda>rt r. ?f rt = Inr r) EXPECTED_REPORTS us"
    by (simp add: map_result_Inr_iff)
  then have types: "map (\<lambda>r. srs_report_type (cr_status r)) us = EXPECTED_REPORTS"
    by (auto simp: list_all2_conv_all_nth intro!: nth_equalityI elim!: evaluate_report_Inr)
  then show "mset (map (\<lambda>r. srs_report_type (cr_status r)) rs) = mset EXPECTED_REPORTS"
    using us(2) by (metis mset_map mset_sort)
  assume "r \<in> set rs"
  then obtain n where n: "n < length us" "us ! n = r"
    using us(2) by (auto simp: in_set_conv_nth)
  then have "evaluate_report berlin (EXPECTED_REPORTS ! n) d as_of
      (dict_get evs (EXPECTED_REPORTS ! n) no_evidence) = Inr r"
    using list_all2_nthD2[OF all] by simp
  moreover have "EXPECTED_REPORTS ! n = srs_report_type (cr_status r)"
    using arg_cong[where f = "\<lambda>xs. xs ! n", OF types] n by simp
  ultimately show "evaluate_report berlin (srs_report_type (cr_status r)) d as_of
        (dict_get evs (srs_report_type (cr_status r)) no_evidence) = Inr r"
    by simp
qed

lemma overall_completeness_alt:
  "overall_completeness rs =
    (if \<exists>r \<in> set rs. srs_state (cr_status r) = SC_INCOMPLETE then SC_INCOMPLETE
     else if \<exists>r \<in> set rs. srs_state (cr_status r) = SC_PENDING then SC_PENDING else SC_COMPLETE)"
proof -
  have "c \<in> set (map (\<lambda>r. srs_state (cr_status r)) rs) \<longleftrightarrow> (\<exists>r \<in> set rs. srs_state (cr_status r) = c)" for c
    by auto
  then show ?thesis by (simp only: overall_completeness_def Let_def)
qed

lemma overall_complete_iff:
  "overall_completeness rs = SC_COMPLETE \<longleftrightarrow> (\<forall>r \<in> set rs. srs_state (cr_status r) = SC_COMPLETE)"
proof -
  have "s = SC_COMPLETE \<longleftrightarrow> s \<noteq> SC_INCOMPLETE \<and> s \<noteq> SC_PENDING" for s by (cases s) simp_all
  then show ?thesis by (auto simp: overall_completeness_alt)
qed

lemma overall_incomplete_iff:
  "overall_completeness rs = SC_INCOMPLETE \<longleftrightarrow> (\<exists>r \<in> set rs. srs_state (cr_status r) = SC_INCOMPLETE)"
  by (auto simp: overall_completeness_alt)

subsection \<open>Properties\<close>

definition sample_utc :: zone where
  "sample_utc = \<lparr>offset_at_local = (\<lambda>_. 0), local_at_utc = (\<lambda>t. t)\<rparr>"

definition sample_manifest :: "report_type \<Rightarrow> date \<Rightarrow> manifest" where
  "sample_manifest rt d =
     \<lparr>man_batch_id = ''b1'', man_source_system = REPORT_SOURCES rt, man_report_type = rt,
      man_business_date = d, man_schema_version = 1, man_generated_at_utc = instant_of_date d,
      man_row_count = 3, man_sha256 = ''cafe''\<rparr>"

definition sample_report_evidence :: "report_type \<Rightarrow> date \<Rightarrow> report_evidence" where
  "sample_report_evidence rt d =
     \<lparr>re_data_file = Some \<lparr>df_batch_id = ''b1'', df_source_system = REPORT_SOURCES rt,
        df_report_type = rt, df_business_date = d, df_received_at_utc = instant_of_date d + 5,
        df_parsed_row_count = 3, df_sha256 = ''cafe''\<rparr>,
      re_manifest = Some \<lparr>me_received_at_utc = instant_of_date d + 7,
        me_manifest = Some (sample_manifest rt d), me_validation_error = None\<rparr>\<rparr>"

lemma sample_agrees:
  "report_agrees rt d t (sample_report_evidence rt d) \<longleftrightarrow> instant_of_date d + 7 \<le> t"
  by (auto simp: report_agrees_def sample_report_evidence_def sample_manifest_def
      manifest_agrees_def data_file_agrees_def)

lemma sample_evaluated:
  "d < max_date \<Longrightarrow>
    \<exists>r. evaluate_report sample_utc rt d (Aware t) (sample_report_evidence rt d) = Inr r"
  by (rule evaluate_report_total)
    (simp_all add: evidence_valid_def sample_report_evidence_def)

text \<open>C28: A report is COMPLETE exactly when its data file and its valid manifest are visible and agree on source,
  type, date, batch, row count and checksum; otherwise it is PENDING before the deadline and INCOMPLETE from the
  deadline on.  The deadline is the wall-clock hour of the report on the day after the business date.\<close>

theorem report_state_decided:
  assumes "evaluate_report berlin rt d (Aware t) ev = Inr r"
  shows "cr_deadline_at_utc r
      = local_to_utc berlin (instant_of_date (d + 1) + REPORT_DEADLINES rt * 3600000000)
    \<and> srs_state (cr_status r) =
      (if report_agrees rt d t ev then SC_COMPLETE
       else if t < cr_deadline_at_utc r then SC_PENDING else SC_INCOMPLETE)
    \<and> (cr_issues r = [] \<longleftrightarrow> report_agrees rt d t ev)"
proof -
  from evaluate_report_Inr[OF assms] obtain
    "report_deadline_utc berlin d rt = Inr (cr_deadline_at_utc r)"
    "srs_state (cr_status r) = (if report_agrees rt d t ev then SC_COMPLETE
      else if t < cr_deadline_at_utc r then SC_PENDING else SC_INCOMPLETE)"
    "cr_issues r = [] \<longleftrightarrow> report_agrees rt d t ev"
    by (metis pydatetime.inject(2))
  then show ?thesis by (simp add: report_deadline_utc_def split: if_splits)
qed

theorem report_state_decided_witness:
  "\<exists>r. evaluate_report sample_utc RT_FEES 738000 (Aware (instant_of_date 738001)) no_evidence = Inr r
    \<and> srs_state (cr_status r) = SC_PENDING"
proof -
  obtain r where r: "evaluate_report sample_utc RT_FEES 738000 (Aware (instant_of_date 738001)) no_evidence = Inr r"
    using evaluate_report_total[of no_evidence 738000 sample_utc RT_FEES "instant_of_date 738001"]
    by (auto simp: evidence_valid_def no_evidence_def max_date_def)
  from report_state_decided[OF r] have "srs_state (cr_status r) = SC_PENDING"
    by (simp add: report_agrees_def no_evidence_def local_to_utc_def sample_utc_def instant_of_date_def day_micros_def)
  with r show ?thesis by blast
qed

text \<open>Completeness is stable: a report found COMPLETE at one time is COMPLETE at every later evaluation of the
  same evidence, and the later evaluation does not fail.\<close>

theorem complete_report_stays_complete:
  assumes "evaluate_report berlin rt d (Aware t) ev = Inr r" and "is_complete r" and "t \<le> t'"
  shows "\<exists>r'. evaluate_report berlin rt d (Aware t') ev = Inr r' \<and> is_complete r'"
proof -
  from evaluate_report_Inr[OF assms(1)] obtain
    "report_deadline_utc berlin d rt = Inr (cr_deadline_at_utc r)"
    "srs_state (cr_status r) = (if report_agrees rt d t ev then SC_COMPLETE
      else if t < cr_deadline_at_utc r then SC_PENDING else SC_INCOMPLETE)"
    by (metis pydatetime.inject(2))
  then have d: "d < max_date" and "report_agrees rt d t ev"
    using assms(2) by (auto simp: report_deadline_utc_def is_complete_def split: if_splits)
  then have agrees: "report_agrees rt d t' ev"
    using assms(3) report_agrees_mono by blast
  then have "evidence_valid ev"
    by (auto simp: report_agrees_def evidence_valid_def split: option.splits)
  then obtain r' where r': "evaluate_report berlin rt d (Aware t') ev = Inr r'"
    using evaluate_report_total d by blast
  with evaluate_report_Inr[OF r'] agrees show ?thesis
    by (metis is_complete_def pydatetime.inject(2))
qed

theorem complete_report_stays_complete_witness:
  "\<exists>r. evaluate_report sample_utc RT_FEES 738000 (Aware (instant_of_date 738009))
      (sample_report_evidence RT_FEES 738000) = Inr r \<and> is_complete r"
proof -
  obtain r where r: "evaluate_report sample_utc RT_FEES 738000 (Aware (instant_of_date 738001))
      (sample_report_evidence RT_FEES 738000) = Inr r"
    using sample_evaluated[of 738000 RT_FEES "instant_of_date 738001"] by (auto simp: max_date_def)
  moreover from evaluate_report_Inr[OF r] have "is_complete r"
    by (auto simp: sample_agrees is_complete_def instant_of_date_def day_micros_def)
  ultimately show ?thesis
    by (rule complete_report_stays_complete) (simp add: instant_of_date_def day_micros_def)
qed

text \<open>A day is complete as a whole exactly when each of the six reports agrees; it is INCOMPLETE exactly when
  some report that does not agree is past its deadline, so a missing report is never reported as complete.\<close>

theorem overall_completeness_decided:
  assumes "evaluate_expected_reports berlin d (Aware t) evs = Inr rs"
  shows "(overall_completeness rs = SC_COMPLETE
      \<longleftrightarrow> (\<forall>rt. report_agrees rt d t (dict_get evs rt no_evidence)))
    \<and> (overall_completeness rs = SC_INCOMPLETE
      \<longleftrightarrow> (\<exists>rt. \<not> report_agrees rt d t (dict_get evs rt no_evidence)
          \<and> local_to_utc berlin (instant_of_date (d + 1) + REPORT_DEADLINES rt * 3600000000) \<le> t))
    \<and> length rs = 6"
proof -
  let ?ev = "\<lambda>rt. dict_get evs rt no_evidence"
  let ?st = "\<lambda>r. srs_state (cr_status r)"
  let ?D = "\<lambda>rt. local_to_utc berlin (instant_of_date (d + 1) + REPORT_DEADLINES rt * 3600000000)"
  note types = expected_reports_Inr(1)[OF assms]
  have st: "?st r = (let rt = srs_report_type (cr_status r) in
      if report_agrees rt d t (?ev rt) then SC_COMPLETE else if t < ?D rt then SC_PENDING else SC_INCOMPLETE)"
    if "r \<in> set rs" for r
    using report_state_decided'[OF expected_reports_Inr(2)[OF assms that]] by (simp only: Let_def)
  note st = st[unfolded Let_def]
  have all: "\<exists>r \<in> set rs. srs_report_type (cr_status r) = rt" for rt
    using mset_eq_setD[OF types] by (auto simp: set_eq_iff) (metis imageE)
  have "overall_completeness rs = SC_COMPLETE \<longleftrightarrow> (\<forall>r \<in> set rs. ?st r = SC_COMPLETE)"
    by (rule overall_complete_iff)
  moreover have "\<dots> \<longleftrightarrow> (\<forall>rt. report_agrees rt d t (?ev rt))"
    using all st by (metis (no_types, lifting) source_completeness.distinct)
  moreover have "overall_completeness rs = SC_INCOMPLETE \<longleftrightarrow> (\<exists>r \<in> set rs. ?st r = SC_INCOMPLETE)"
    by (rule overall_incomplete_iff)
  moreover have "\<dots> \<longleftrightarrow> (\<exists>rt. \<not> report_agrees rt d t (?ev rt) \<and> ?D rt \<le> t)"
    using all st by (metis (no_types, lifting) source_completeness.distinct not_less)
  moreover have "length rs = 6"
    using mset_eq_length[OF types] by (simp add: EXPECTED_REPORTS_def report_type_members_def)
  ultimately show ?thesis by simp
qed

text \<open>Every overdue report yields one exception, MISSING when nothing but the file or the manifest is absent
  and INVALID otherwise, and no other report yields one; the exceptions are sorted.\<close>

theorem source_report_exceptions_exact:
  "mset (map xr_entity_id (source_report_exceptions rs))
     = mset (map (\<lambda>r. source_report_entity_id (cr_status r))
         (filter (\<lambda>r. srs_state (cr_status r) = SC_INCOMPLETE) rs))
   \<and> sorted (map exception_record_sort_key (source_report_exceptions rs))
   \<and> (\<forall>x \<in> set (source_report_exceptions rs). xr_code x = EC_SOURCE_REPORT_MISSING
        \<longleftrightarrow> (\<exists>r \<in> set rs. is_incomplete r \<and> x = source_report_exception r
              \<and> set (cr_issues r) \<subseteq> {DATA_FILE_MISSING, MANIFEST_MISSING}))"
proof (intro conjI)
  show "mset (map xr_entity_id (source_report_exceptions rs))
     = mset (map (\<lambda>r. source_report_entity_id (cr_status r))
         (filter (\<lambda>r. srs_state (cr_status r) = SC_INCOMPLETE) rs))"
    by (simp add: source_report_exceptions_def source_report_exception_def is_incomplete_def[abs_def]
        multiset.map_comp comp_def)
  show "sorted (map exception_record_sort_key (source_report_exceptions rs))"
    by (simp add: source_report_exceptions_def)
  have "xr_code (source_report_exception r) = EC_SOURCE_REPORT_MISSING
      \<longleftrightarrow> set (cr_issues r) \<subseteq> {DATA_FILE_MISSING, MANIFEST_MISSING}" for r
    by (auto simp: source_report_exception_def list_all_iff MISSING_ISSUES_def)
  then show "\<forall>x \<in> set (source_report_exceptions rs). xr_code x = EC_SOURCE_REPORT_MISSING
        \<longleftrightarrow> (\<exists>r \<in> set rs. is_incomplete r \<and> x = source_report_exception r
              \<and> set (cr_issues r) \<subseteq> {DATA_FILE_MISSING, MANIFEST_MISSING})"
    unfolding source_report_exceptions_def set_sort set_map set_filter by blast
qed

theorem source_report_exceptions_exact_witness:
  "\<exists>x. x \<in> set (source_report_exceptions
     [\<lparr>cr_status = \<lparr>srs_source_system = MOCKPAY, srs_report_type = RT_FEES, srs_business_date = 738000,
        srs_state = SC_INCOMPLETE, srs_batch_id = None\<rparr>,
       cr_deadline_at_utc = 0, cr_issues = [MANIFEST_MISSING]\<rparr>]) \<and> xr_code x = EC_SOURCE_REPORT_MISSING"
proof -
  let ?r = "\<lparr>cr_status = \<lparr>srs_source_system = MOCKPAY, srs_report_type = RT_FEES, srs_business_date = 738000,
        srs_state = SC_INCOMPLETE, srs_batch_id = None\<rparr>,
       cr_deadline_at_utc = 0, cr_issues = [MANIFEST_MISSING]\<rparr>"
  have "source_report_exception ?r \<in> set (source_report_exceptions [?r])"
    by (simp add: source_report_exceptions_def is_incomplete_def)
  moreover have "is_incomplete ?r" by (simp add: is_incomplete_def)
  ultimately show ?thesis
    using source_report_exceptions_exact[of "[?r]"] by auto
qed

theorem overall_completeness_decided_witness:
  "\<exists>rs. evaluate_expected_reports sample_utc 738000 (Aware (instant_of_date 738001)) [] = Inr rs
    \<and> overall_completeness rs = SC_PENDING"
proof -
  let ?f = "\<lambda>rt. evaluate_report sample_utc rt 738000 (Aware (instant_of_date 738001)) no_evidence"
  have "\<exists>r. ?f rt = Inr r" for rt
    by (rule evaluate_report_total) (simp_all add: evidence_valid_def no_evidence_def max_date_def)
  then obtain g where "\<And>rt. ?f rt = Inr (g rt)" by metis
  then have "map_result ?f EXPECTED_REPORTS = Inr (map g EXPECTED_REPORTS)"
    by (simp add: map_result_pure)
  then obtain rs where rs: "evaluate_expected_reports sample_utc 738000 (Aware (instant_of_date 738001)) [] = Inr rs"
    by (auto simp: evaluate_expected_reports_def)
  have "\<not> report_agrees rt d t no_evidence" for rt d t
    by (simp add: report_agrees_def no_evidence_def)
  moreover have "0 < REPORT_DEADLINES rt" for rt by (cases rt) simp_all
  ultimately have "overall_completeness rs \<noteq> SC_COMPLETE" "overall_completeness rs \<noteq> SC_INCOMPLETE"
    using overall_completeness_decided[OF rs] by (simp_all add: local_to_utc_def sample_utc_def not_le)
  then have "overall_completeness rs = SC_PENDING" by (cases "overall_completeness rs") simp_all
  with rs show ?thesis by blast
qed

end
