(* ===== verification/Reconcile.thy ===== *)
theory Reconcile
  imports Canonicalize Completeness
begin

text \<open>
  \<open>threadline/reconcile.py\<close>: transaction and payout reconciliation of the canonical records of one
  run.  Amounts are cents (\<open>int\<close>): each amount a parser accepts is below 10^18 cents, and sums of
  \<open>Decimal\<close> values with two decimals are exact below 10^28 cents (\<open>Money.dec_add_eur\<close>).  A count
  that the code wraps in \<open>Decimal\<close> is \<open>100\<close> times the count.

  The function of the code is one body with comment headings; each heading is a group of
  definitions here.  The list \<open>exceptions\<close> and the dictionaries \<open>transaction_codes\<close> and
  \<open>payout_codes\<close> are written together: an exception is appended and its code is added to the code
  set of an order or of payouts.  The state is the log of these writes (\<open>finding\<close>), and
  \<open>transaction_codes\<close> and \<open>payout_codes\<close> read the sets from the log at the point where the code
  reads them.
\<close>

subsection \<open>Rows\<close>

definition TRANSACTION_REQUIRED_REPORTS :: "report_type list" where
  "TRANSACTION_REQUIRED_REPORTS = [RT_ORDERS, RT_PAYMENTS, RT_REFUNDS, RT_FEES]"

definition PAYOUT_REQUIRED_REPORTS :: "report_type list" where
  "PAYOUT_REQUIRED_REPORTS = [RT_PAYMENTS, RT_REFUNDS, RT_FEES, RT_SETTLEMENT_LINES, RT_PAYOUTS]"

datatype recon_error =
    RunIdNotCanonical
  | DetectedAtNaive
  | DuplicateCompleteness report_type
  | MissingCompleteness "report_type list"
  | FeeFailure money_error
  | CaptureWithoutAvailableOn string
  | RefundWithoutAvailableOn string
  | MultiplePayouts "date list"

record expected_movement =
  mov_type :: movement_type
  mov_id :: string
  mov_available_on :: date
  mov_signed_amount :: int
  mov_support :: "string list"

definition movement_key :: "expected_movement \<Rightarrow> movement_type \<times> string" where
  "movement_key m = (mov_type m, mov_id m)"

definition movement_sort_key :: "expected_movement \<Rightarrow> string \<times> string \<times> string" where
  "movement_sort_key m =
     (isoformat (mov_available_on m), movement_type_value (mov_type m), mov_id m)"

record recon_exception =
  rx_run_id :: string
  rx_contract_version :: string
  rx_rule_id :: string
  rx_type :: exception_code
  rx_entity_type :: string
  rx_entity_id :: string
  rx_expected :: "int option"
  rx_actual :: "int option"
  rx_variance :: "int option"
  rx_detected_at :: instant
  rx_status :: string
  rx_support :: "string list"

definition exception_sort_key :: "recon_exception \<Rightarrow> string \<times> string \<times> string \<times> string" where
  "exception_sort_key x =
     (exception_code_value (rx_type x), rx_entity_type x, rx_entity_id x, rx_rule_id x)"

record transaction_row =
  tx_run_id :: string
  tx_contract_version :: string
  tx_order_id :: string
  tx_order_status :: order_status
  tx_currency :: string
  tx_expected_collection :: int
  tx_captured_total :: int
  tx_collection_variance :: int
  tx_refund_total :: int
  tx_expected_fee_total :: int
  tx_reported_fee_total :: int
  tx_lifetime_net :: int
  tx_captured_count :: nat
  tx_refund_count :: nat
  tx_state :: reconciliation_state
  tx_codes :: "exception_code list"

record payout_row =
  po_run_id :: string
  po_contract_version :: string
  po_payout_id :: string
  po_payout_date :: date
  po_currency :: string
  po_expected :: int
  po_line_total :: int
  po_reported_net :: int
  po_provider_variance :: int
  po_end_to_end_variance :: int
  po_movement_count :: nat
  po_line_count :: nat
  po_state :: reconciliation_state
  po_codes :: "exception_code list"

definition payout_row_sort_key :: "payout_row \<Rightarrow> string \<times> string" where
  "payout_row_sort_key p = (isoformat (po_payout_date p), po_payout_id p)"

record recon_result =
  rr_run_id :: string
  rr_contract_version :: string
  rr_detected_at :: instant
  rr_transactions :: "transaction_row list"
  rr_movements :: "expected_movement list"
  rr_payouts :: "payout_row list"
  rr_exceptions :: "recon_exception list"
  rr_completeness :: "source_report_status list"
  rr_quarantine :: "quarantined_record list"

subsection \<open>Helpers\<close>

definition require_run_id :: "string \<Rightarrow> recon_error + string" where
  "require_run_id r = (if canonical_text r then Inr r else Inl RunIdNotCanonical)"

definition as_utc :: "pydatetime \<Rightarrow> recon_error + instant" where
  "as_utc t = (case t of Naive _ \<Rightarrow> Inl DetectedAtNaive | Aware i \<Rightarrow> Inr i)"

definition source_reference :: "financial_record \<Rightarrow> string" where
  "source_reference r = entity_type_value (record_entity_type r) @ '':'' @ record_id r"

type_synonym report_states = "(report_type, source_completeness) dict"

definition add_report_state ::
  "completeness_result \<Rightarrow> report_states \<Rightarrow> recon_error + report_states" where
  "add_report_state r states =
     (let rt = srs_report_type (cr_status r)
      in if rt \<in> set (dict_keys states) then Inl (DuplicateCompleteness rt)
         else Inr (AList.update rt (srs_state (cr_status r)) states))"

definition build_report_state_map :: "completeness_result list \<Rightarrow> recon_error + report_states" where
  "build_report_state_map results =
     bind_result (fold_result add_report_state results []) (\<lambda>states.
       let missing = filter (\<lambda>rt. rt \<notin> set (dict_keys states)) EXPECTED_REPORTS
       in if missing \<noteq> [] then Inl (MissingCompleteness missing) else Inr states)"

definition reports_complete :: "report_states \<Rightarrow> report_type list \<Rightarrow> bool" where
  "reports_complete states required = list_all (\<lambda>rt. map_of states rt = Some SC_COMPLETE) required"

definition result_state :: "report_states \<Rightarrow> report_type list \<Rightarrow> bool \<Rightarrow> reconciliation_state" where
  "result_state states required blocking =
     (let required_states = map (map_of states) required
      in if Some SC_INCOMPLETE \<in> set required_states then RS_INCOMPLETE
         else if Some SC_PENDING \<in> set required_states then RS_PENDING
         else if blocking then RS_EXCEPTION
         else RS_RECONCILED)"

record run_context =
  run_id :: string
  detected_at_utc :: instant

definition new_exception ::
  "run_context \<Rightarrow> string \<Rightarrow> exception_code \<Rightarrow> string \<Rightarrow> string \<Rightarrow> int option \<Rightarrow> int option
     \<Rightarrow> string list \<Rightarrow> recon_exception" where
  "new_exception cx rule code etype eid expected actual support =
     \<lparr>rx_run_id = run_id cx, rx_contract_version = CONTRACT_VERSION, rx_rule_id = rule,
      rx_type = code, rx_entity_type = etype, rx_entity_id = eid,
      rx_expected = expected, rx_actual = actual,
      rx_variance = (case (expected, actual) of (Some e, Some a) \<Rightarrow> Some (a - e) | _ \<Rightarrow> None),
      rx_detected_at = detected_at_utc cx, rx_status = ''OPEN'',
      rx_support = sort (remdups support)\<rparr>"

text \<open>An appended exception with the orders and payouts whose code sets receive its code.\<close>

record finding =
  fnd_exception :: recon_exception
  fnd_orders :: "string list"
  fnd_payouts :: "string list"

definition unattributed :: "recon_exception \<Rightarrow> finding" where
  "unattributed x = \<lparr>fnd_exception = x, fnd_orders = [], fnd_payouts = []\<rparr>"

definition on_order :: "string \<Rightarrow> recon_exception \<Rightarrow> finding" where
  "on_order oid x = \<lparr>fnd_exception = x, fnd_orders = [oid], fnd_payouts = []\<rparr>"

definition on_payouts :: "string list \<Rightarrow> recon_exception \<Rightarrow> finding" where
  "on_payouts ps x = \<lparr>fnd_exception = x, fnd_orders = [], fnd_payouts = ps\<rparr>"

definition transaction_codes :: "finding list \<Rightarrow> string \<Rightarrow> exception_code list" where
  "transaction_codes log oid =
     sort (remdups (map (\<lambda>f. rx_type (fnd_exception f)) (filter (\<lambda>f. oid \<in> set (fnd_orders f)) log)))"

definition payout_codes :: "finding list \<Rightarrow> string \<Rightarrow> exception_code list" where
  "payout_codes log pid =
     sort (remdups (map (\<lambda>f. rx_type (fnd_exception f)) (filter (\<lambda>f. pid \<in> set (fnd_payouts f)) log)))"

definition source_completeness_exceptions ::
  "run_context \<Rightarrow> completeness_result list \<Rightarrow> finding list" where
  "source_completeness_exceptions cx results =
     map (\<lambda>r. unattributed (new_exception cx ''source.report_completeness''
         (if list_all (\<lambda>c. c \<in> set MISSING_ISSUES) (cr_issues r)
          then EC_SOURCE_REPORT_MISSING else EC_SOURCE_REPORT_INVALID)
         ''SOURCE_REPORT'' (source_report_entity_id (cr_status r)) None None
         (case srs_batch_id (cr_status r) of None \<Rightarrow> [] | Some b \<Rightarrow> if b = [] then [] else [b])))
       (filter (\<lambda>r. srs_state (cr_status r) = SC_INCOMPLETE) results)"

definition canonical_conflict_exceptions ::
  "run_context \<Rightarrow> canonicalization_result \<Rightarrow> finding list" where
  "canonical_conflict_exceptions cx canon =
     map (\<lambda>c. unattributed (new_exception cx ''canonicalization.same_version_conflict''
         EC_CONFLICTING_SOURCE_VERSION (fst (snd (cc_identity c))) (snd (snd (cc_identity c)))
         None None (cc_receipt_ids c)))
       (conflicts canon)"

record recon_input =
  in_orders :: "order list"
  in_payments :: "payment list"
  in_refunds :: "refund list"
  in_fees :: "fee list"
  in_lines :: "settlement_line list"
  in_payouts :: "payout list"

definition split_canonical_records :: "financial_record list \<Rightarrow> recon_input" where
  "split_canonical_records rs =
     \<lparr>in_orders = sort_key ord_id
        (List.map_filter (\<lambda>r. case r of OrderRec x \<Rightarrow> Some x | _ \<Rightarrow> None) rs),
      in_payments = sort_key pay_id
        (List.map_filter (\<lambda>r. case r of PaymentRec x \<Rightarrow> Some x | _ \<Rightarrow> None) rs),
      in_refunds = sort_key ref_id
        (List.map_filter (\<lambda>r. case r of RefundRec x \<Rightarrow> Some x | _ \<Rightarrow> None) rs),
      in_fees = sort_key fee_id
        (List.map_filter (\<lambda>r. case r of FeeRec x \<Rightarrow> Some x | _ \<Rightarrow> None) rs),
      in_lines = sort_key line_id
        (List.map_filter (\<lambda>r. case r of SettlementLineRec x \<Rightarrow> Some x | _ \<Rightarrow> None) rs),
      in_payouts = sort_key (\<lambda>p. (out_date p, out_id p))
        (List.map_filter (\<lambda>r. case r of PayoutRec x \<Rightarrow> Some x | _ \<Rightarrow> None) rs)\<rparr>"

definition captured_payments :: "recon_input \<Rightarrow> payment list" where
  "captured_payments inp = filter (\<lambda>p. pay_status p = PS_CAPTURED) (in_payments inp)"

definition successful_refunds :: "recon_input \<Rightarrow> refund list" where
  "successful_refunds inp = filter (\<lambda>r. ref_status r = RF_SUCCEEDED) (in_refunds inp)"

definition orders_by_id :: "recon_input \<Rightarrow> (string, order) dict" where
  "orders_by_id inp = index_by ord_id (in_orders inp)"

definition payments_by_id :: "recon_input \<Rightarrow> (string, payment) dict" where
  "payments_by_id inp = index_by pay_id (in_payments inp)"

definition fees_by_id :: "recon_input \<Rightarrow> (string, fee) dict" where
  "fees_by_id inp = index_by fee_id (in_fees inp)"

definition captured_by_order :: "recon_input \<Rightarrow> (string, payment list) dict" where
  "captured_by_order inp = group_by pay_order_id (captured_payments inp)"

definition refunds_by_payment :: "recon_input \<Rightarrow> (string, refund list) dict" where
  "refunds_by_payment inp = group_by ref_payment_id (successful_refunds inp)"

definition fees_by_payment :: "recon_input \<Rightarrow> (string, fee list) dict" where
  "fees_by_payment inp = group_by fee_payment_id (in_fees inp)"

subsection \<open>Orphan and non-payable payment rules\<close>

definition payment_findings :: "run_context \<Rightarrow> recon_input \<Rightarrow> payment \<Rightarrow> finding list" where
  "payment_findings cx inp p =
     (case map_of (orders_by_id inp) (pay_order_id p) of
        None \<Rightarrow>
          [unattributed (new_exception cx ''payment.order_exists'' EC_ORPHAN_PAYMENT
             ''PAYMENT'' (pay_id p) None (Some (pay_amount p)) [source_reference (PaymentRec p)])]
      | Some ord \<Rightarrow>
          if ord_status ord = OS_CANCELLED then
            [on_order (ord_id ord) (new_exception cx ''payment.order_is_payable''
               EC_CAPTURE_FOR_NON_PAYABLE_ORDER ''ORDER'' (ord_id ord) (Some 0)
               (Some (pay_amount p))
               [source_reference (OrderRec ord), source_reference (PaymentRec p)])]
          else [])"

definition orphan_rules :: "run_context \<Rightarrow> report_states \<Rightarrow> recon_input \<Rightarrow> finding list" where
  "orphan_rules cx states inp =
     (if reports_complete states [RT_ORDERS, RT_PAYMENTS]
      then concat (map (payment_findings cx inp) (captured_payments inp)) else [])"

subsection \<open>Refund integrity\<close>

definition refund_findings :: "run_context \<Rightarrow> recon_input \<Rightarrow> refund \<Rightarrow> finding list" where
  "refund_findings cx inp r =
     (let orphan = [unattributed (new_exception cx ''refund.captured_payment_exists''
            EC_ORPHAN_REFUND ''REFUND'' (ref_id r) None (Some (ref_amount r))
            [source_reference (RefundRec r)])]
      in case map_of (payments_by_id inp) (ref_payment_id r) of
           None \<Rightarrow> orphan
         | Some p \<Rightarrow>
             if pay_status p \<noteq> PS_CAPTURED then orphan
             else if ref_currency r \<noteq> pay_currency p then
               [on_order (pay_order_id p) (new_exception cx ''refund.currency_matches_payment''
                  EC_REFUND_CURRENCY_MISMATCH ''REFUND'' (ref_id r) None None
                  [source_reference (PaymentRec p), source_reference (RefundRec r)])]
             else [])"

definition refund_total_findings :: "run_context \<Rightarrow> recon_input \<Rightarrow> payment \<Rightarrow> finding list" where
  "refund_total_findings cx inp p =
     (let related = dict_get (refunds_by_payment inp) (pay_id p) [];
          refund_total = sum_list (map ref_amount related)
      in if pay_amount p < refund_total then
           [on_order (pay_order_id p) (new_exception cx ''refund.total_within_capture''
              EC_EXCESS_REFUND ''PAYMENT'' (pay_id p) (Some (pay_amount p)) (Some refund_total)
              (source_reference (PaymentRec p) # map (\<lambda>r. source_reference (RefundRec r)) related))]
         else [])"

definition refund_rules :: "run_context \<Rightarrow> report_states \<Rightarrow> recon_input \<Rightarrow> finding list" where
  "refund_rules cx states inp =
     (if reports_complete states [RT_PAYMENTS, RT_REFUNDS]
      then concat (map (refund_findings cx inp) (successful_refunds inp))
        @ concat (map (refund_total_findings cx inp) (captured_payments inp))
      else [])"

subsection \<open>Fee integrity\<close>

definition expected_fee :: "payment \<Rightarrow> recon_error + int" where
  "expected_fee p =
     (case calculate_fee (payment_method_value (pay_method p)) (eur (pay_amount p)) (pay_currency p) of
        Inl e \<Rightarrow> Inl (FeeFailure e)
      | Inr fee \<Rightarrow> Inr (cents_of fee))"

definition add_expected_fee ::
  "payment \<Rightarrow> (string, int) dict \<Rightarrow> recon_error + (string, int) dict" where
  "add_expected_fee p d = bind_result (expected_fee p) (\<lambda>f. Inr (AList.update (pay_id p) f d))"

definition expected_fee_by_payment :: "recon_input \<Rightarrow> recon_error + (string, int) dict" where
  "expected_fee_by_payment inp = fold_result add_expected_fee (captured_payments inp) []"

definition payment_fee_findings ::
  "run_context \<Rightarrow> recon_input \<Rightarrow> (string, int) dict \<Rightarrow> payment \<Rightarrow> finding list" where
  "payment_fee_findings cx inp fee_of p =
     (let related = dict_get (fees_by_payment inp) (pay_id p) [];
          expected = dict_get fee_of (pay_id p) 0;
          reported = sum_list (map fee_amount related)
      in if related = [] then
           [on_order (pay_order_id p) (new_exception cx ''fee.processing_fee_exists'' EC_MISSING_FEE
              ''PAYMENT'' (pay_id p) (Some expected) (Some 0) [source_reference (PaymentRec p)])]
         else if reported \<noteq> expected then
           [on_order (pay_order_id p) (new_exception cx ''fee.amount_matches_schedule'' EC_FEE_MISMATCH
              ''PAYMENT'' (pay_id p) (Some expected) (Some reported)
              (source_reference (PaymentRec p) # map (\<lambda>f. source_reference (FeeRec f)) related))]
         else [])"

definition fee_findings :: "run_context \<Rightarrow> recon_input \<Rightarrow> fee \<Rightarrow> finding list" where
  "fee_findings cx inp f =
     (let unexpected = [unattributed (new_exception cx ''fee.belongs_to_capture'' EC_UNEXPECTED_FEE
            ''FEE'' (fee_id f) (Some 0) (Some (fee_amount f)) [source_reference (FeeRec f)])]
      in case map_of (payments_by_id inp) (fee_payment_id f) of
           None \<Rightarrow> unexpected
         | Some p \<Rightarrow> if pay_status p \<noteq> PS_CAPTURED then unexpected else [])"

definition fee_rules ::
  "run_context \<Rightarrow> report_states \<Rightarrow> recon_input \<Rightarrow> (string, int) dict \<Rightarrow> finding list" where
  "fee_rules cx states inp fee_of =
     (if reports_complete states [RT_PAYMENTS, RT_FEES]
      then concat (map (payment_fee_findings cx inp fee_of) (captured_payments inp))
        @ concat (map (fee_findings cx inp) (in_fees inp))
      else [])"

subsection \<open>Transaction reconciliation\<close>

definition order_payments :: "recon_input \<Rightarrow> order \<Rightarrow> payment list" where
  "order_payments inp ord = dict_get (captured_by_order inp) (ord_id ord) []"

definition captured_total :: "recon_input \<Rightarrow> order \<Rightarrow> int" where
  "captured_total inp ord = sum_list (map pay_amount (order_payments inp ord))"

definition expected_collection :: "order \<Rightarrow> int" where
  "expected_collection ord = (if ord_status ord = OS_PAID then ord_total ord else 0)"

definition order_findings ::
  "run_context \<Rightarrow> report_states \<Rightarrow> recon_input \<Rightarrow> order \<Rightarrow> finding list" where
  "order_findings cx states inp ord =
     (let ps = order_payments inp ord;
          variance = captured_total inp ord - expected_collection ord;
          support = source_reference (OrderRec ord) # map (\<lambda>p. source_reference (PaymentRec p)) ps
      in if ord_status ord = OS_PAID \<and> reports_complete states [RT_ORDERS, RT_PAYMENTS] then
           (if ps = [] then
              [on_order (ord_id ord) (new_exception cx ''order.payment_exists'' EC_MISSING_PAYMENT
                 ''ORDER'' (ord_id ord) (Some (ord_total ord)) (Some 0)
                 [source_reference (OrderRec ord)])]
            else if variance \<noteq> 0 then
              [on_order (ord_id ord) (new_exception cx ''order.collection_matches_total''
                 EC_PAYMENT_AMOUNT_MISMATCH ''ORDER'' (ord_id ord) (Some (ord_total ord))
                 (Some (captured_total inp ord)) support)]
            else [])
           @ (if 1 < length ps then
                [on_order (ord_id ord) (new_exception cx ''order.maximum_one_capture''
                   EC_MULTIPLE_CAPTURE ''ORDER'' (ord_id ord) (Some 100)
                   (Some (100 * int (length ps))) support)]
              else [])
         else [])"

definition transaction_row_of ::
  "run_context \<Rightarrow> report_states \<Rightarrow> recon_input \<Rightarrow> (string, int) dict \<Rightarrow> finding list \<Rightarrow> order
     \<Rightarrow> transaction_row" where
  "transaction_row_of cx states inp fee_of log ord =
     (let ps = order_payments inp ord;
          payment_ids = remdups (map pay_id ps);
          refunds = filter (\<lambda>r. ref_payment_id r \<in> set payment_ids) (successful_refunds inp);
          fees = filter (\<lambda>f. fee_payment_id f \<in> set payment_ids) (in_fees inp);
          captured = captured_total inp ord;
          refund_total = sum_list (map ref_amount refunds);
          expected_fee_total = sum_list (map (\<lambda>i. dict_get fee_of i 0) payment_ids);
          codes = transaction_codes log (ord_id ord)
      in \<lparr>tx_run_id = run_id cx, tx_contract_version = CONTRACT_VERSION,
          tx_order_id = ord_id ord, tx_order_status = ord_status ord,
          tx_currency = ord_currency ord,
          tx_expected_collection = expected_collection ord,
          tx_captured_total = captured,
          tx_collection_variance = captured - expected_collection ord,
          tx_refund_total = refund_total,
          tx_expected_fee_total = expected_fee_total,
          tx_reported_fee_total = sum_list (map fee_amount fees),
          tx_lifetime_net = captured - refund_total - expected_fee_total,
          tx_captured_count = length ps,
          tx_refund_count = length refunds,
          tx_state = result_state states TRANSACTION_REQUIRED_REPORTS (codes \<noteq> []),
          tx_codes = codes\<rparr>)"

fun reconcile_orders ::
  "run_context \<Rightarrow> report_states \<Rightarrow> recon_input \<Rightarrow> (string, int) dict \<Rightarrow> finding list \<Rightarrow> order list
     \<Rightarrow> finding list \<times> transaction_row list" where
  "reconcile_orders cx states inp fee_of log [] = (log, [])"
| "reconcile_orders cx states inp fee_of log (ord # ords) =
     (let log' = log @ order_findings cx states inp ord;
          row = transaction_row_of cx states inp fee_of log' ord;
          (final, rows) = reconcile_orders cx states inp fee_of log' ords
      in (final, row # rows))"

subsection \<open>Expected payout movements\<close>

definition payment_movements ::
  "recon_input \<Rightarrow> (string, int) dict \<Rightarrow> payment \<Rightarrow> recon_error + expected_movement list" where
  "payment_movements inp fee_of p =
     (case pay_available_on p of
        None \<Rightarrow> Inl (CaptureWithoutAvailableOn (pay_id p))
      | Some available \<Rightarrow>
          (let related = dict_get (fees_by_payment inp) (pay_id p) [];
               fee_movement_id = (if length related = 1 then fee_id (hd related)
                                  else ''expected-fee:'' @ pay_id p)
           in Inr
             [\<lparr>mov_type = MT_CAPTURE, mov_id = pay_id p, mov_available_on = available,
               mov_signed_amount = pay_amount p, mov_support = [source_reference (PaymentRec p)]\<rparr>,
              \<lparr>mov_type = MT_FEE, mov_id = fee_movement_id, mov_available_on = available,
               mov_signed_amount = - dict_get fee_of (pay_id p) 0,
               mov_support = source_reference (PaymentRec p)
                 # map (\<lambda>f. source_reference (FeeRec f)) related\<rparr>]))"

definition refund_movement :: "refund \<Rightarrow> recon_error + expected_movement" where
  "refund_movement r =
     (case ref_available_on r of
        None \<Rightarrow> Inl (RefundWithoutAvailableOn (ref_id r))
      | Some available \<Rightarrow>
          Inr \<lparr>mov_type = MT_REFUND, mov_id = ref_id r, mov_available_on = available,
               mov_signed_amount = - ref_amount r, mov_support = [source_reference (RefundRec r)]\<rparr>)"

definition expected_movements ::
  "recon_input \<Rightarrow> (string, int) dict \<Rightarrow> recon_error + expected_movement list" where
  "expected_movements inp fee_of =
     bind_result (map_result (payment_movements inp fee_of) (captured_payments inp)) (\<lambda>ps.
     bind_result (map_result refund_movement (successful_refunds inp)) (\<lambda>rs.
       Inr (sort_key movement_sort_key (concat ps @ rs))))"

subsection \<open>Settlement line integrity\<close>

definition line_movement_key :: "settlement_line \<Rightarrow> movement_type \<times> string" where
  "line_movement_key l = (line_movement_type l, line_movement_id l)"

definition lines_by_movement :: "recon_input \<Rightarrow> (movement_type \<times> string, settlement_line list) dict" where
  "lines_by_movement inp = group_by line_movement_key (in_lines inp)"

definition lines_by_payout :: "recon_input \<Rightarrow> (string, settlement_line list) dict" where
  "lines_by_payout inp = group_by line_payout_id (in_lines inp)"

definition duplicate_findings ::
  "run_context \<Rightarrow> (movement_type \<times> string) \<times> settlement_line list \<Rightarrow> finding list" where
  "duplicate_findings cx item =
     (let ((mtype, mid), matching) = item
      in if length matching \<le> 1 then []
         else [on_payouts (map line_payout_id matching)
                 (new_exception cx ''settlement.unique_movement_allocation''
                    EC_DUPLICATE_SETTLEMENT_MOVEMENT ''SETTLEMENT_MOVEMENT''
                    (movement_type_value mtype @ '':'' @ mid) None
                    (Some (100 * int (length matching)))
                    (map (\<lambda>l. source_reference (SettlementLineRec l)) matching))])"

definition settlement_rules :: "run_context \<Rightarrow> report_states \<Rightarrow> recon_input \<Rightarrow> finding list" where
  "settlement_rules cx states inp =
     (if map_of states RT_SETTLEMENT_LINES = Some SC_COMPLETE
      then concat (map (duplicate_findings cx)
             (sort_key (\<lambda>item. (movement_type_value (fst (fst item)), snd (fst item)))
               (lines_by_movement inp)))
      else [])"

subsection \<open>Payout reconciliation\<close>

definition check_payout_dates :: "recon_input \<Rightarrow> recon_error + unit" where
  "check_payout_dates inp =
     (let dups = filter (\<lambda>item. 1 < length (snd item)) (group_by out_date (in_payouts inp))
      in require (dups = []) (MultiplePayouts (sort (map fst dups))))"

definition movement_findings ::
  "run_context \<Rightarrow> recon_input \<Rightarrow> payout \<Rightarrow> (movement_type \<times> string, settlement_line list) dict
     \<Rightarrow> expected_movement \<Rightarrow> finding list" where
  "movement_findings cx inp out by_movement m =
     (case dict_get by_movement (movement_key m) [] of
        [] \<Rightarrow>
          [on_payouts [out_id out] (new_exception cx ''settlement.expected_movement_exists''
             EC_MISSING_SETTLEMENT_LINE ''EXPECTED_MOVEMENT''
             (movement_type_value (mov_type m) @ '':'' @ mov_id m)
             (Some (mov_signed_amount m)) (Some 0) (mov_support m))]
      | [line] \<Rightarrow>
          (let expected_line_amount =
                 (if mov_type m = MT_FEE then
                    (case map_of (fees_by_id inp) (mov_id m) of
                       None \<Rightarrow> mov_signed_amount m
                     | Some reported \<Rightarrow> - fee_amount reported)
                  else mov_signed_amount m)
           in if line_signed_amount line \<noteq> expected_line_amount then
                [on_payouts [out_id out]
                   (new_exception cx ''settlement.amount_matches_reported_source_movement''
                      EC_SETTLEMENT_LINE_AMOUNT_MISMATCH ''SETTLEMENT_LINE'' (line_id line)
                      (Some expected_line_amount) (Some (line_signed_amount line))
                      (mov_support m @ [source_reference (SettlementLineRec line)]))]
              else [])
      | _ \<Rightarrow> [])"

definition movements_for :: "expected_movement list \<Rightarrow> payout \<Rightarrow> expected_movement list" where
  "movements_for movements out = dict_get (group_by mov_available_on movements) (out_date out) []"

definition lines_for :: "recon_input \<Rightarrow> payout \<Rightarrow> settlement_line list" where
  "lines_for inp out = dict_get (lines_by_payout inp) (out_id out) []"

definition expected_payout :: "expected_movement list \<Rightarrow> payout \<Rightarrow> int" where
  "expected_payout movements out = sum_list (map mov_signed_amount (movements_for movements out))"

definition reported_line_total :: "recon_input \<Rightarrow> payout \<Rightarrow> int" where
  "reported_line_total inp out = sum_list (map line_signed_amount (lines_for inp out))"

definition payout_findings ::
  "run_context \<Rightarrow> report_states \<Rightarrow> recon_input \<Rightarrow> expected_movement list \<Rightarrow> payout \<Rightarrow> finding list" where
  "payout_findings cx states inp movements out =
     (let lines = lines_for inp out;
          line_total = reported_line_total inp out
      in (if reports_complete states [RT_PAYMENTS, RT_REFUNDS, RT_FEES, RT_SETTLEMENT_LINES]
          then concat (map (movement_findings cx inp out (group_by line_movement_key lines))
                 (movements_for movements out))
          else [])
         @ (if reports_complete states [RT_SETTLEMENT_LINES, RT_PAYOUTS]
               \<and> out_reported_net_amount out - line_total \<noteq> 0
            then [on_payouts [out_id out]
                    (new_exception cx ''payout.header_matches_settlement_lines''
                       EC_PAYOUT_TOTAL_MISMATCH ''PAYOUT'' (out_id out) (Some line_total)
                       (Some (out_reported_net_amount out))
                       (source_reference (PayoutRec out)
                         # map (\<lambda>l. source_reference (SettlementLineRec l)) lines))]
            else []))"

definition payout_row_of ::
  "run_context \<Rightarrow> report_states \<Rightarrow> recon_input \<Rightarrow> expected_movement list \<Rightarrow> finding list \<Rightarrow> payout
     \<Rightarrow> payout_row" where
  "payout_row_of cx states inp movements log out =
     (let expected = expected_payout movements out;
          line_total = reported_line_total inp out;
          end_to_end = out_reported_net_amount out - expected;
          codes = payout_codes log (out_id out)
      in \<lparr>po_run_id = run_id cx, po_contract_version = CONTRACT_VERSION,
          po_payout_id = out_id out, po_payout_date = out_date out, po_currency = out_currency out,
          po_expected = expected, po_line_total = line_total,
          po_reported_net = out_reported_net_amount out,
          po_provider_variance = out_reported_net_amount out - line_total,
          po_end_to_end_variance = end_to_end,
          po_movement_count = length (movements_for movements out),
          po_line_count = length (lines_for inp out),
          po_state = result_state states PAYOUT_REQUIRED_REPORTS (codes \<noteq> [] \<or> end_to_end \<noteq> 0),
          po_codes = codes\<rparr>)"

fun reconcile_payouts ::
  "run_context \<Rightarrow> report_states \<Rightarrow> recon_input \<Rightarrow> expected_movement list \<Rightarrow> finding list \<Rightarrow> payout list
     \<Rightarrow> finding list \<times> payout_row list" where
  "reconcile_payouts cx states inp movements log [] = (log, [])"
| "reconcile_payouts cx states inp movements log (out # outs) =
     (let log' = log @ payout_findings cx states inp movements out;
          row = payout_row_of cx states inp movements log' out;
          (final, rows) = reconcile_payouts cx states inp movements log' outs
      in (final, row # rows))"

subsection \<open>The run\<close>

text \<open>One failed rule per entity: the last exception of a key stays, at the position of the first.\<close>

definition exception_key :: "recon_exception \<Rightarrow> string \<times> exception_code \<times> string \<times> string" where
  "exception_key x = (rx_rule_id x, rx_type x, rx_entity_type x, rx_entity_id x)"

definition unique_exceptions :: "recon_exception list \<Rightarrow> recon_exception list" where
  "unique_exceptions xs = dict_values (index_by exception_key xs)"

definition reconcile_records ::
  "run_context \<Rightarrow> report_states \<Rightarrow> canonicalization_result \<Rightarrow> completeness_result list
     \<Rightarrow> quarantined_record list \<Rightarrow> recon_error + recon_result" where
  "reconcile_records cx states canon results quarantine =
     (let inp = split_canonical_records (canonical_records canon);
          log0 = source_completeness_exceptions cx results @ canonical_conflict_exceptions cx canon
            @ orphan_rules cx states inp @ refund_rules cx states inp
      in bind_result (expected_fee_by_payment inp) (\<lambda>fee_of.
         let (log1, transactions) =
               reconcile_orders cx states inp fee_of (log0 @ fee_rules cx states inp fee_of) (in_orders inp)
         in bind_result (expected_movements inp fee_of) (\<lambda>movements.
            bind_result (check_payout_dates inp) (\<lambda>_.
            let (log2, payouts) =
                  reconcile_payouts cx states inp movements (log1 @ settlement_rules cx states inp)
                    (in_payouts inp)
            in Inr
              \<lparr>rr_run_id = run_id cx, rr_contract_version = CONTRACT_VERSION,
               rr_detected_at = detected_at_utc cx,
               rr_transactions = sort_key tx_order_id transactions,
               rr_movements = movements,
               rr_payouts = sort_key payout_row_sort_key payouts,
               rr_exceptions = sort_key exception_sort_key
                 (unique_exceptions (map fnd_exception log2)),
               rr_completeness = map cr_status results,
               rr_quarantine = sort_key quarantined_sort_key quarantine\<rparr>))))"

definition reconcile ::
  "string \<Rightarrow> pydatetime \<Rightarrow> canonicalization_result \<Rightarrow> completeness_result list
     \<Rightarrow> quarantined_record list \<Rightarrow> recon_error + recon_result" where
  "reconcile rid detected canon completeness quarantine =
     bind_result (require_run_id rid) (\<lambda>r.
     bind_result (as_utc detected) (\<lambda>t.
     let results = sort_key completeness_sort_key completeness
     in bind_result (build_report_state_map results) (\<lambda>states.
        reconcile_records \<lparr>run_id = r, detected_at_utc = t\<rparr> states canon results quarantine)))"

end
