(* ===== verification/Reconcile_Facts.thy ===== *)
theory Reconcile_Facts
  imports Reconcile
begin

text \<open>
  Facts about \<open>reconcile.py\<close>: what the split, the report states and the log contain, when a row is
  clean, and the properties of a run that follow.
\<close>

subsection \<open>The split of the canonical records\<close>

definition input_of :: "canonicalization_result \<Rightarrow> recon_input" where
  "input_of canon = split_canonical_records (canonical_records canon)"

definition identities_distinct :: "canonicalization_result \<Rightarrow> bool" where
  "identities_distinct canon = distinct (map record_identity (canonical_records canon))"

lemma distinct_keys_select:
  assumes "distinct (map ident rs)" and "\<And>r x. f r = Some x \<Longrightarrow> ident r = g (key x)"
  shows "distinct (map key (List.map_filter f rs))"
  using assms(1)
proof (induction rs)
  case (Cons r rs)
  then show ?case
    by (auto simp: map_filter_simps set_map_filter split: option.splits) (metis assms(2) image_eqI)
qed (simp add: map_filter_simps)

lemma record_identity_simps:
  "record_identity (OrderRec o') = (''threadline_shop'', ''ORDER'', ord_id o')"
  "record_identity (PaymentRec p) = (''mockpay'', ''PAYMENT'', pay_id p)"
  "record_identity (RefundRec r) = (''mockpay'', ''REFUND'', ref_id r)"
  "record_identity (FeeRec f) = (''mockpay'', ''FEE'', fee_id f)"
  "record_identity (SettlementLineRec l) = (''mockpay'', ''SETTLEMENT_LINE'', line_id l)"
  "record_identity (PayoutRec q) = (''mockpay'', ''PAYOUT'', out_id q)"
  by (simp_all add: record_identity_def)

lemma select_record [simp]:
  "(case r of OrderRec x \<Rightarrow> Some x | _ \<Rightarrow> None) = Some y0 \<longleftrightarrow> r = OrderRec y0"
  "(case r of PaymentRec x \<Rightarrow> Some x | _ \<Rightarrow> None) = Some y1 \<longleftrightarrow> r = PaymentRec y1"
  "(case r of RefundRec x \<Rightarrow> Some x | _ \<Rightarrow> None) = Some y2 \<longleftrightarrow> r = RefundRec y2"
  "(case r of FeeRec x \<Rightarrow> Some x | _ \<Rightarrow> None) = Some y3 \<longleftrightarrow> r = FeeRec y3"
  "(case r of SettlementLineRec x \<Rightarrow> Some x | _ \<Rightarrow> None) = Some y4 \<longleftrightarrow> r = SettlementLineRec y4"
  "(case r of PayoutRec x \<Rightarrow> Some x | _ \<Rightarrow> None) = Some y5 \<longleftrightarrow> r = PayoutRec y5"
  by (cases r; auto)+

lemma input_distinct:
  assumes "identities_distinct canon"
  shows "distinct (map ord_id (in_orders (input_of canon)))"
    and "distinct (map pay_id (in_payments (input_of canon)))"
    and "distinct (map ref_id (in_refunds (input_of canon)))"
    and "distinct (map fee_id (in_fees (input_of canon)))"
    and "distinct (map line_id (in_lines (input_of canon)))"
    and "distinct (map out_id (in_payouts (input_of canon)))"
  unfolding input_of_def split_canonical_records_def recon_input.simps distinct_map_sort_key
  by (rule distinct_keys_select[OF assms[unfolded identities_distinct_def]];
      simp add: record_identity_simps)+

lemma input_members [simp]:
  "x1 \<in> set (in_orders (input_of canon)) \<longleftrightarrow> OrderRec x1 \<in> set (canonical_records canon)"
  "x2 \<in> set (in_payments (input_of canon)) \<longleftrightarrow> PaymentRec x2 \<in> set (canonical_records canon)"
  "x3 \<in> set (in_refunds (input_of canon)) \<longleftrightarrow> RefundRec x3 \<in> set (canonical_records canon)"
  "x4 \<in> set (in_fees (input_of canon)) \<longleftrightarrow> FeeRec x4 \<in> set (canonical_records canon)"
  "x5 \<in> set (in_lines (input_of canon)) \<longleftrightarrow> SettlementLineRec x5 \<in> set (canonical_records canon)"
  "x6 \<in> set (in_payouts (input_of canon)) \<longleftrightarrow> PayoutRec x6 \<in> set (canonical_records canon)"
  by (simp_all add: input_of_def split_canonical_records_def set_map_filter)

subsection \<open>Codes in the log\<close>

lemma transaction_codes_empty [simp]:
  "transaction_codes log oid = [] \<longleftrightarrow> (\<forall>f \<in> set log. oid \<notin> set (fnd_orders f))"
  by (auto simp: transaction_codes_def filter_empty_conv)

lemma payout_codes_empty [simp]:
  "payout_codes log pid = [] \<longleftrightarrow> (\<forall>f \<in> set log. pid \<notin> set (fnd_payouts f))"
  by (auto simp: payout_codes_def filter_empty_conv)

lemma transaction_codes_skip:
  "(\<And>f. f \<in> set ys \<Longrightarrow> oid \<notin> set (fnd_orders f)) \<Longrightarrow>
    transaction_codes (xs @ ys @ zs) oid = transaction_codes (xs @ zs) oid"
  by (simp add: transaction_codes_def filter_empty_conv[THEN iffD2])

lemma payout_codes_skip:
  "(\<And>f. f \<in> set ys \<Longrightarrow> pid \<notin> set (fnd_payouts f)) \<Longrightarrow>
    payout_codes (xs @ ys @ zs) pid = payout_codes (xs @ zs) pid"
  by (simp add: payout_codes_def filter_empty_conv[THEN iffD2])

lemmas finding_simps = unattributed_def on_order_def on_payouts_def

lemma order_findings_target:
  "f \<in> set (order_findings cx states inp ord) \<Longrightarrow> fnd_orders f = [ord_id ord] \<and> fnd_payouts f = []"
  by (auto simp: order_findings_def finding_simps Let_def split: if_splits)

lemma transaction_row_cong:
  "transaction_codes log (ord_id ord) = transaction_codes log' (ord_id ord) \<Longrightarrow>
    transaction_row_of cx states inp fee_of log ord = transaction_row_of cx states inp fee_of log' ord"
  by (simp add: transaction_row_of_def Let_def)

lemma reconcile_orders_log:
  "fst (reconcile_orders cx states inp fee_of log ords) = log @ concat (map (order_findings cx states inp) ords)"
  by (induction ords arbitrary: log) (simp_all add: Let_def case_prod_beta)

lemma reconcile_orders_rows:
  assumes "distinct (map ord_id ords)"
  shows "snd (reconcile_orders cx states inp fee_of log ords) =
    map (\<lambda>ord. transaction_row_of cx states inp fee_of (log @ order_findings cx states inp ord) ord) ords"
  using assms
proof (induction ords arbitrary: log)
  case (Cons a ords)
  let ?log = "log @ order_findings cx states inp a"
  have "transaction_codes (?log @ order_findings cx states inp ord) (ord_id ord)
      = transaction_codes (log @ order_findings cx states inp ord) (ord_id ord)" if "ord \<in> set ords" for ord
  proof -
    have "ord_id ord \<noteq> ord_id a" using that Cons.prems by (auto simp: image_iff)
    then show ?thesis
      unfolding append_assoc by (intro transaction_codes_skip) (auto dest: order_findings_target)
  qed
  then have "map (\<lambda>ord. transaction_row_of cx states inp fee_of (?log @ order_findings cx states inp ord) ord) ords
      = map (\<lambda>ord. transaction_row_of cx states inp fee_of (log @ order_findings cx states inp ord) ord) ords"
    by (intro map_cong refl transaction_row_cong)
  with Cons show ?case by (simp add: Let_def case_prod_beta)
qed simp

lemma movement_findings_target:
  "f \<in> set (movement_findings cx inp out by_movement m) \<Longrightarrow>
    fnd_payouts f = [out_id out] \<and> fnd_orders f = []"
  by (auto simp: movement_findings_def finding_simps Let_def split: if_splits list.splits)

lemma payout_findings_target:
  "f \<in> set (payout_findings cx states inp movements out) \<Longrightarrow> fnd_payouts f = [out_id out] \<and> fnd_orders f = []"
  by (auto simp: payout_findings_def on_payouts_def Let_def dest: movement_findings_target
      split: if_splits)

lemma payout_row_cong:
  "payout_codes log (out_id out) = payout_codes log' (out_id out) \<Longrightarrow>
    payout_row_of cx states inp movements log out = payout_row_of cx states inp movements log' out"
  by (simp add: payout_row_of_def Let_def)

lemma reconcile_payouts_log:
  "fst (reconcile_payouts cx states inp movements log outs) =
    log @ concat (map (payout_findings cx states inp movements) outs)"
  by (induction outs arbitrary: log) (simp_all add: Let_def case_prod_beta)

lemma reconcile_payouts_rows:
  assumes "distinct (map out_id outs)"
  shows "snd (reconcile_payouts cx states inp movements log outs) =
    map (\<lambda>out. payout_row_of cx states inp movements (log @ payout_findings cx states inp movements out) out) outs"
  using assms
proof (induction outs arbitrary: log)
  case (Cons a outs)
  let ?log = "log @ payout_findings cx states inp movements a"
  have "payout_codes (?log @ payout_findings cx states inp movements out) (out_id out)
      = payout_codes (log @ payout_findings cx states inp movements out) (out_id out)" if "out \<in> set outs" for out
  proof -
    have "out_id out \<noteq> out_id a" using that Cons.prems by (auto simp: image_iff)
    then show ?thesis
      unfolding append_assoc by (intro payout_codes_skip) (auto dest: payout_findings_target)
  qed
  then have "map (\<lambda>out. payout_row_of cx states inp movements (?log @ payout_findings cx states inp movements out) out) outs
      = map (\<lambda>out. payout_row_of cx states inp movements (log @ payout_findings cx states inp movements out) out) outs"
    by (intro map_cong refl payout_row_cong)
  with Cons show ?case by (simp add: Let_def case_prod_beta)
qed simp

subsection \<open>Report states\<close>

abbreviation result_type :: "completeness_result \<Rightarrow> report_type" where
  "result_type r \<equiv> srs_report_type (cr_status r)"

abbreviation result_status :: "completeness_result \<Rightarrow> source_completeness" where
  "result_status r \<equiv> srs_state (cr_status r)"

definition required_in_state ::
  "completeness_result list \<Rightarrow> report_type list \<Rightarrow> source_completeness \<Rightarrow> bool" where
  "required_in_state results required s =
     (\<exists>r \<in> set results. result_type r \<in> set required \<and> result_status r = s)"

definition required_complete :: "completeness_result list \<Rightarrow> report_type list \<Rightarrow> bool" where
  "required_complete results required =
     (\<forall>r \<in> set results. result_type r \<in> set required \<longrightarrow> result_status r = SC_COMPLETE)"

lemma add_report_states:
  "fold_result add_report_state rs [] = Inr states \<longleftrightarrow>
    distinct (map result_type rs) \<and> states = map (\<lambda>r. (result_type r, result_status r)) rs"
proof (induction rs arbitrary: states rule: rev_induct)
  case (snoc r rs)
  then show ?case
    by (auto simp: fold_result_append result_simps add_report_state_def Let_def update_fresh comp_def
        image_iff)
qed auto

lemma build_states:
  assumes "build_report_state_map rs = Inr states"
  shows "distinct (map result_type rs)"
    and "map_of states rt = Some s \<longleftrightarrow> (\<exists>r \<in> set rs. result_type r = rt \<and> result_status r = s)"
    and "\<exists>r \<in> set rs. result_type r = rt"
proof -
  have *: "distinct (map result_type rs)" "states = map (\<lambda>r. (result_type r, result_status r)) rs"
    "\<forall>rt. rt \<in> set (dict_keys states)"
    using assms
    by (auto simp: build_report_state_map_def result_simps add_report_states Let_def filter_empty_conv
        split: if_splits)
  then show "distinct (map result_type rs)" by simp
  have "distinct (dict_keys states)" using * by (simp add: comp_def)
  then show "map_of states rt = Some s \<longleftrightarrow> (\<exists>r \<in> set rs. result_type r = rt \<and> result_status r = s)"
    using *(2) by (auto simp: map_of_eq_Some_iff image_iff)
  show "\<exists>r \<in> set rs. result_type r = rt"
    using *(2,3) by (auto simp: image_iff) metis
qed

lemma reports_complete_iff:
  assumes "build_report_state_map rs = Inr states"
  shows "reports_complete states required \<longleftrightarrow> required_complete rs required"
proof -
  have "r = r'" if "r \<in> set rs" "r' \<in> set rs" "result_type r = result_type r'" for r r'
    using that build_states(1)[OF assms] by (auto simp: distinct_map dest: inj_onD)
  then show ?thesis
    using build_states(2,3)[OF assms]
    by (auto simp: reports_complete_def required_complete_def list_all_iff) metis+
qed

lemma result_state_eq:
  assumes "build_report_state_map rs = Inr states"
  shows "result_state states required blocking =
    (if required_in_state rs required SC_INCOMPLETE then RS_INCOMPLETE
     else if required_in_state rs required SC_PENDING then RS_PENDING
     else if blocking then RS_EXCEPTION else RS_RECONCILED)"
proof -
  have "Some s \<in> set (map (map_of states) required) \<longleftrightarrow> required_in_state rs required s" for s
    using build_states(2)[OF assms] by (auto simp: required_in_state_def image_iff eq_commute[of "Some s"])
  then show ?thesis by (simp only: result_state_def Let_def)
qed

lemma required_complete_iff:
  "required_complete rs required \<longleftrightarrow>
    \<not> required_in_state rs required SC_INCOMPLETE \<and> \<not> required_in_state rs required SC_PENDING"
proof -
  have "s = SC_COMPLETE \<longleftrightarrow> s \<noteq> SC_INCOMPLETE \<and> s \<noteq> SC_PENDING" for s by (cases s) simp_all
  then show ?thesis by (auto simp: required_complete_def required_in_state_def)
qed

lemma result_state_reconciled:
  "build_report_state_map rs = Inr states \<Longrightarrow>
    result_state states required blocking = RS_RECONCILED \<longleftrightarrow> required_complete rs required \<and> \<not> blocking"
  by (simp add: result_state_eq required_complete_iff)

lemma required_complete_sort [simp]:
  "required_complete (sort_key k rs) required = required_complete rs required"
  "required_in_state (sort_key k rs) required s = required_in_state rs required s"
  by (simp_all add: required_complete_def required_in_state_def)

lemma required_complete_subset:
  "required_complete rs required \<Longrightarrow> set required' \<subseteq> set required \<Longrightarrow> required_complete rs required'"
  by (auto simp: required_complete_def)

subsection \<open>A successful run taken apart\<close>

definition base_log ::
  "run_context \<Rightarrow> report_states \<Rightarrow> canonicalization_result \<Rightarrow> completeness_result list
     \<Rightarrow> (string, int) dict \<Rightarrow> finding list" where
  "base_log cx states canon results fee_of =
     source_completeness_exceptions cx results @ canonical_conflict_exceptions cx canon
       @ orphan_rules cx states (input_of canon) @ refund_rules cx states (input_of canon)
       @ fee_rules cx states (input_of canon) fee_of"

definition order_log ::
  "run_context \<Rightarrow> report_states \<Rightarrow> canonicalization_result \<Rightarrow> completeness_result list
     \<Rightarrow> (string, int) dict \<Rightarrow> finding list" where
  "order_log cx states canon results fee_of =
     base_log cx states canon results fee_of
       @ concat (map (order_findings cx states (input_of canon)) (in_orders (input_of canon)))"

definition full_log ::
  "run_context \<Rightarrow> report_states \<Rightarrow> canonicalization_result \<Rightarrow> completeness_result list
     \<Rightarrow> (string, int) dict \<Rightarrow> expected_movement list \<Rightarrow> finding list" where
  "full_log cx states canon results fee_of movements =
     order_log cx states canon results fee_of @ settlement_rules cx states (input_of canon)
       @ concat (map (payout_findings cx states (input_of canon) movements) (in_payouts (input_of canon)))"

lemma reconcile_InrE:
  assumes "reconcile rid detected canon results quarantine = Inr res"
  obtains t states fee_of movements where
    "canonical_text rid" "detected = Aware t"
    "build_report_state_map (sort_key completeness_sort_key results) = Inr states"
    "expected_fee_by_payment (input_of canon) = Inr fee_of"
    "expected_movements (input_of canon) fee_of = Inr movements"
    "check_payout_dates (input_of canon) = Inr ()"
    "res = \<lparr>rr_run_id = rid, rr_contract_version = CONTRACT_VERSION, rr_detected_at = t,
       rr_transactions = sort_key tx_order_id
         (snd (reconcile_orders \<lparr>run_id = rid, detected_at_utc = t\<rparr> states (input_of canon) fee_of
           (base_log \<lparr>run_id = rid, detected_at_utc = t\<rparr> states canon
             (sort_key completeness_sort_key results) fee_of) (in_orders (input_of canon)))),
       rr_movements = movements,
       rr_payouts = sort_key payout_row_sort_key
         (snd (reconcile_payouts \<lparr>run_id = rid, detected_at_utc = t\<rparr> states (input_of canon) movements
           (order_log \<lparr>run_id = rid, detected_at_utc = t\<rparr> states canon
             (sort_key completeness_sort_key results) fee_of
             @ settlement_rules \<lparr>run_id = rid, detected_at_utc = t\<rparr> states (input_of canon))
           (in_payouts (input_of canon)))),
       rr_exceptions = sort_key exception_sort_key (unique_exceptions (map fnd_exception
         (full_log \<lparr>run_id = rid, detected_at_utc = t\<rparr> states canon
           (sort_key completeness_sort_key results) fee_of movements))),
       rr_completeness = map cr_status (sort_key completeness_sort_key results),
       rr_quarantine = sort_key quarantined_sort_key quarantine\<rparr>"
proof -
  from assms obtain t states where a: "canonical_text rid" "detected = Aware t"
    "build_report_state_map (sort_key completeness_sort_key results) = Inr states"
    "reconcile_records \<lparr>run_id = rid, detected_at_utc = t\<rparr> states canon
       (sort_key completeness_sort_key results) quarantine = Inr res"
    unfolding reconcile_def Let_def
    by (auto elim!: bind_result_InrE simp: require_run_id_def as_utc_def split: if_splits pydatetime.splits)
  from a(4) show thesis
    unfolding reconcile_records_def Let_def case_prod_beta reconcile_orders_log reconcile_payouts_log
    by (elim bind_result_InrE)
      (rule that[OF a(1-3)],
       auto simp: input_of_def base_log_def order_log_def full_log_def)
qed

subsection \<open>Expected fees\<close>

lemma add_expected_fee_Inr:
  "add_expected_fee p d = Inr d' \<longleftrightarrow> (\<exists>f. expected_fee p = Inr f \<and> d' = AList.update (pay_id p) f d)"
  by (auto simp: add_expected_fee_def result_simps)

lemma expected_fees_fold:
  "fold_result add_expected_fee ps d = Inr d' \<Longrightarrow> distinct (map pay_id ps) \<Longrightarrow>
    (\<forall>p \<in> set ps. expected_fee p = Inr (dict_get d' (pay_id p) 0))
    \<and> (\<forall>i. i \<notin> pay_id ` set ps \<longrightarrow> dict_get d' i 0 = dict_get d i 0)"
proof (induction ps arbitrary: d)
  case (Cons p ps)
  then obtain f where f: "expected_fee p = Inr f"
    "fold_result add_expected_fee ps (AList.update (pay_id p) f d) = Inr d'"
    by (auto simp: add_expected_fee_Inr bind_result_Inr)
  from Cons.IH[OF f(2)] Cons.prems(2) f(1) show ?case by auto
qed simp

lemma captured_distinct:
  "identities_distinct canon \<Longrightarrow> distinct (map pay_id (captured_payments (input_of canon)))"
  unfolding captured_payments_def by (intro List.distinct_map_filter input_distinct(2))

lemma expected_fee_by_payment_get:
  assumes "identities_distinct canon" and "expected_fee_by_payment (input_of canon) = Inr fee_of"
    and "p \<in> set (captured_payments (input_of canon))"
  shows "expected_fee p = Inr (dict_get fee_of (pay_id p) 0)"
  using expected_fees_fold[OF assms(2)[unfolded expected_fee_by_payment_def] captured_distinct[OF assms(1)]]
    assms(3) by blast

subsection \<open>When a transaction is clean\<close>

text \<open>
  A captured payment is clean when its reported fees exist and add up to the fee of the schedule, its
  refunds do not exceed it and are in its currency.
\<close>

definition payment_clean :: "recon_input \<Rightarrow> payment \<Rightarrow> bool" where
  "payment_clean inp p =
     (let fees = filter (\<lambda>f. fee_payment_id f = pay_id p) (in_fees inp);
          refunds = filter (\<lambda>r. ref_payment_id r = pay_id p) (successful_refunds inp)
      in fees \<noteq> [] \<and> expected_fee p = Inr (sum_list (map fee_amount fees))
         \<and> sum_list (map ref_amount refunds) \<le> pay_amount p
         \<and> (\<forall>r \<in> set refunds. ref_currency r = pay_currency p))"

text \<open>
  A paid order has exactly one capture, of its total; a cancelled order has none; and every capture
  is clean.
\<close>

definition order_clean :: "recon_input \<Rightarrow> order \<Rightarrow> bool" where
  "order_clean inp ord =
     (let ps = filter (\<lambda>p. pay_order_id p = ord_id ord) (captured_payments inp)
      in (case ord_status ord of
            OS_PAID \<Rightarrow> length ps = 1 \<and> sum_list (map pay_amount ps) = ord_total ord
          | OS_CANCELLED \<Rightarrow> ps = []
          | OS_PAYMENT_PENDING \<Rightarrow> True)
         \<and> (\<forall>p \<in> set ps. payment_clean inp p))"

definition flags_order :: "finding list \<Rightarrow> string \<Rightarrow> bool" where
  "flags_order log oid = (\<exists>f \<in> set log. oid \<in> set (fnd_orders f))"

lemma flags_order_simps [simp]:
  "\<not> flags_order [] oid"
  "flags_order (x # xs) oid \<longleftrightarrow> oid \<in> set (fnd_orders x) \<or> flags_order xs oid"
  "flags_order (xs @ ys) oid \<longleftrightarrow> flags_order xs oid \<or> flags_order ys oid"
  by (auto simp: flags_order_def)

lemma flags_order_concat [simp]:
  "flags_order (concat (map g xs)) oid \<longleftrightarrow> (\<exists>x \<in> set xs. flags_order (g x) oid)"
  by (auto simp: flags_order_def)

lemma source_never_flags [simp]:
  "\<not> flags_order (source_completeness_exceptions cx results) oid"
  "\<not> flags_order (canonical_conflict_exceptions cx canon) oid"
  by (simp_all add: flags_order_def source_completeness_exceptions_def
      canonical_conflict_exceptions_def unattributed_def)

lemma payment_findings_flag:
  "flags_order (payment_findings cx inp p) oid \<longleftrightarrow>
    pay_order_id p = oid \<and> (\<exists>ord. map_of (orders_by_id inp) oid = Some ord \<and> ord_status ord = OS_CANCELLED)"
proof (cases "map_of (orders_by_id inp) (pay_order_id p)")
  case (Some ord)
  then have "ord_id ord = pay_order_id p"
    unfolding orders_by_id_def by (drule_tac index_by_SomeD) simp
  with Some show ?thesis by (auto simp: flags_order_def payment_findings_def finding_simps)
qed (auto simp: flags_order_def payment_findings_def finding_simps)

lemma refund_findings_flag:
  "flags_order (refund_findings cx inp r) oid \<longleftrightarrow>
    (\<exists>p. map_of (payments_by_id inp) (ref_payment_id r) = Some p \<and> pay_status p = PS_CAPTURED
      \<and> pay_order_id p = oid \<and> ref_currency r \<noteq> pay_currency p)"
  by (auto simp: flags_order_def refund_findings_def finding_simps Let_def split: option.splits)

lemma refund_total_findings_flag:
  "flags_order (refund_total_findings cx inp p) oid \<longleftrightarrow>
    pay_order_id p = oid
    \<and> pay_amount p < sum_list (map ref_amount (filter (\<lambda>r. ref_payment_id r = pay_id p) (successful_refunds inp)))"
  by (auto simp: flags_order_def refund_total_findings_def refunds_by_payment_def finding_simps Let_def)

lemma payment_fee_findings_flag:
  "flags_order (payment_fee_findings cx inp fee_of p) oid \<longleftrightarrow>
    pay_order_id p = oid \<and> (let fees = filter (\<lambda>f. fee_payment_id f = pay_id p) (in_fees inp)
      in fees = [] \<or> sum_list (map fee_amount fees) \<noteq> dict_get fee_of (pay_id p) 0)"
  by (auto simp: flags_order_def payment_fee_findings_def fees_by_payment_def finding_simps Let_def)

lemma fee_findings_flag [simp]: "\<not> flags_order (fee_findings cx inp f) oid"
  by (auto simp: flags_order_def fee_findings_def finding_simps Let_def split: option.splits)

lemma order_findings_flag:
  "flags_order (order_findings cx states inp ord) (ord_id ord) \<longleftrightarrow>
    ord_status ord = OS_PAID \<and> reports_complete states [RT_ORDERS, RT_PAYMENTS]
    \<and> \<not> (length (order_payments inp ord) = 1 \<and> captured_total inp ord = ord_total ord)"
proof -
  let ?ps = "order_payments inp ord"
  consider (none) "?ps = []" | (one) p where "?ps = [p]" | (many) p q ps where "?ps = p # q # ps"
    by (metis list.exhaust)
  then show ?thesis
    by cases (auto simp add: order_findings_def expected_collection_def finding_simps Let_def)
qed

lemma payments_lookup:
  assumes "identities_distinct canon" and "p \<in> set (in_payments (input_of canon))"
  shows "map_of (payments_by_id (input_of canon)) (pay_id p) = Some p"
  unfolding payments_by_id_def
  using input_distinct(2)[OF assms(1)] assms(2) by (intro index_by_inj inj_on_of_distinct_map)

lemma payments_lookup_iff:
  "identities_distinct canon \<Longrightarrow> map_of (payments_by_id (input_of canon)) i = Some p
    \<longleftrightarrow> p \<in> set (in_payments (input_of canon)) \<and> pay_id p = i"
  using payments_lookup[of canon p] index_by_SomeD[of pay_id "in_payments (input_of canon)" i p]
  unfolding payments_by_id_def by blast

lemma orders_lookup:
  assumes "identities_distinct canon" and "ord \<in> set (in_orders (input_of canon))"
  shows "map_of (orders_by_id (input_of canon)) (ord_id ord) = Some ord"
  unfolding orders_by_id_def
  using input_distinct(1)[OF assms(1)] assms(2) by (intro index_by_inj inj_on_of_distinct_map)

lemma order_codes_clean:
  assumes "identities_distinct canon" and "ord \<in> set (in_orders (input_of canon))"
    and "reports_complete states [RT_ORDERS, RT_PAYMENTS]"
    and "reports_complete states [RT_PAYMENTS, RT_REFUNDS]"
    and "reports_complete states [RT_PAYMENTS, RT_FEES]"
    and "expected_fee_by_payment (input_of canon) = Inr fee_of"
  shows "transaction_codes (base_log cx states canon results fee_of
      @ order_findings cx states (input_of canon) ord) (ord_id ord) = [] \<longleftrightarrow> order_clean (input_of canon) ord"
proof -
  let ?inp = "input_of canon"
  let ?ps = "filter (\<lambda>p. pay_order_id p = ord_id ord) (captured_payments ?inp)"
  have ps: "order_payments ?inp ord = ?ps"
    by (simp add: order_payments_def captured_by_order_def)
  have refunds: "(\<exists>r \<in> set (successful_refunds ?inp). flags_order (refund_findings cx ?inp r) (ord_id ord))
      \<longleftrightarrow> (\<exists>p \<in> set ?ps. \<exists>r \<in> set (successful_refunds ?inp). ref_payment_id r = pay_id p
            \<and> ref_currency r \<noteq> pay_currency p)"
    unfolding refund_findings_flag payments_lookup_iff[OF assms(1)] captured_payments_def
      set_filter mem_Collect_eq Bex_def by metis
  have fee: "dict_get fee_of (pay_id p) 0 = s \<longleftrightarrow> expected_fee p = Inr s" if "p \<in> set ?ps" for p s
    using expected_fee_by_payment_get[OF assms(1,6)] that by auto
  have "transaction_codes (base_log cx states canon results fee_of
      @ order_findings cx states ?inp ord) (ord_id ord) = [] \<longleftrightarrow>
    \<not> flags_order (base_log cx states canon results fee_of @ order_findings cx states ?inp ord) (ord_id ord)"
    by (simp add: flags_order_def)
  also have "\<dots> \<longleftrightarrow>
      \<not> flags_order (orphan_rules cx states ?inp) (ord_id ord)
      \<and> \<not> flags_order (refund_rules cx states ?inp) (ord_id ord)
      \<and> \<not> flags_order (fee_rules cx states ?inp fee_of) (ord_id ord)
      \<and> \<not> flags_order (order_findings cx states ?inp ord) (ord_id ord)"
    by (simp add: base_log_def)
  also have "flags_order (orphan_rules cx states ?inp) (ord_id ord)
      \<longleftrightarrow> ord_status ord = OS_CANCELLED \<and> ?ps \<noteq> []"
    using assms(3) orders_lookup[OF assms(1,2)]
    by (auto simp: orphan_rules_def payment_findings_flag filter_empty_conv)
  also have "flags_order (refund_rules cx states ?inp) (ord_id ord) \<longleftrightarrow>
      (\<exists>p \<in> set ?ps. (\<exists>r \<in> set (successful_refunds ?inp). ref_payment_id r = pay_id p
          \<and> ref_currency r \<noteq> pay_currency p)
        \<or> pay_amount p < sum_list (map ref_amount (filter (\<lambda>r. ref_payment_id r = pay_id p) (successful_refunds ?inp))))"
    using assms(4) refunds by (auto simp: refund_rules_def refund_total_findings_flag)
  also have "flags_order (fee_rules cx states ?inp fee_of) (ord_id ord) \<longleftrightarrow>
      (\<exists>p \<in> set ?ps. let fees = filter (\<lambda>f. fee_payment_id f = pay_id p) (in_fees ?inp)
        in fees = [] \<or> expected_fee p \<noteq> Inr (sum_list (map fee_amount fees)))"
  proof -
    have "flags_order (fee_rules cx states ?inp fee_of) (ord_id ord) \<longleftrightarrow>
        (\<exists>p \<in> set ?ps. let fees = filter (\<lambda>f. fee_payment_id f = pay_id p) (in_fees ?inp)
          in fees = [] \<or> sum_list (map fee_amount fees) \<noteq> dict_get fee_of (pay_id p) 0)"
      using assms(5) by (auto simp: fee_rules_def payment_fee_findings_flag)
    also have "\<dots> \<longleftrightarrow> (\<exists>p \<in> set ?ps. let fees = filter (\<lambda>f. fee_payment_id f = pay_id p) (in_fees ?inp)
        in fees = [] \<or> expected_fee p \<noteq> Inr (sum_list (map fee_amount fees)))"
      by (intro bex_cong refl) (simp add: Let_def eq_commute[of "sum_list _"] fee)
    finally show ?thesis .
  qed
  also have "flags_order (order_findings cx states ?inp ord) (ord_id ord) \<longleftrightarrow>
      ord_status ord = OS_PAID \<and> \<not> (length ?ps = 1 \<and> sum_list (map pay_amount ?ps) = ord_total ord)"
    using assms(3) by (simp add: order_findings_flag captured_total_def ps)
  also have "(\<not> (ord_status ord = OS_CANCELLED \<and> ?ps \<noteq> [])
      \<and> \<not> (\<exists>p \<in> set ?ps. (\<exists>r \<in> set (successful_refunds ?inp). ref_payment_id r = pay_id p
          \<and> ref_currency r \<noteq> pay_currency p)
        \<or> pay_amount p < sum_list (map ref_amount (filter (\<lambda>r. ref_payment_id r = pay_id p) (successful_refunds ?inp))))
      \<and> \<not> (\<exists>p \<in> set ?ps. let fees = filter (\<lambda>f. fee_payment_id f = pay_id p) (in_fees ?inp)
        in fees = [] \<or> expected_fee p \<noteq> Inr (sum_list (map fee_amount fees)))
      \<and> \<not> (ord_status ord = OS_PAID \<and> \<not> (length ?ps = 1 \<and> sum_list (map pay_amount ?ps) = ord_total ord)))
    \<longleftrightarrow> order_clean ?inp ord"
    by (cases "ord_status ord") (auto simp: order_clean_def payment_clean_def Let_def not_less)
  finally show ?thesis .
qed

subsection \<open>When a payout is clean\<close>

text \<open>The amount a settlement line must carry: a reported fee where there is one, else the movement.\<close>

definition settled_amount :: "recon_input \<Rightarrow> expected_movement \<Rightarrow> int" where
  "settled_amount inp m =
     (if mov_type m = MT_FEE then
        (case map_of (fees_by_id inp) (mov_id m) of
           None \<Rightarrow> mov_signed_amount m
         | Some reported \<Rightarrow> - fee_amount reported)
      else mov_signed_amount m)"

definition lines_of :: "recon_input \<Rightarrow> payout \<Rightarrow> settlement_line list" where
  "lines_of inp out = filter (\<lambda>l. line_payout_id l = out_id out) (in_lines inp)"

text \<open>
  The provider's net amount equals both the expected movements of the date and the payout's lines;
  each expected movement has exactly one line in the payout, with the right amount; and no line of
  the payout repeats a movement settled by another line.
\<close>

definition payout_clean :: "recon_input \<Rightarrow> expected_movement list \<Rightarrow> payout \<Rightarrow> bool" where
  "payout_clean inp movements out =
     (let due = filter (\<lambda>m. mov_available_on m = out_date out) movements;
          lines = lines_of inp out
      in out_reported_net_amount out = sum_list (map mov_signed_amount due)
         \<and> out_reported_net_amount out = sum_list (map line_signed_amount lines)
         \<and> (\<forall>m \<in> set due. map line_signed_amount (filter (\<lambda>l. line_movement_key l = movement_key m) lines)
              = [settled_amount inp m])
         \<and> (\<forall>l \<in> set lines. length (filter (\<lambda>l'. line_movement_key l' = line_movement_key l) (in_lines inp)) = 1))"

definition flags_payout :: "finding list \<Rightarrow> string \<Rightarrow> bool" where
  "flags_payout log pid = (\<exists>f \<in> set log. pid \<in> set (fnd_payouts f))"

lemma flags_payout_simps [simp]:
  "\<not> flags_payout [] pid"
  "flags_payout (x # xs) pid \<longleftrightarrow> pid \<in> set (fnd_payouts x) \<or> flags_payout xs pid"
  "flags_payout (xs @ ys) pid \<longleftrightarrow> flags_payout xs pid \<or> flags_payout ys pid"
  by (auto simp: flags_payout_def)

lemma flags_payout_concat [simp]:
  "flags_payout (concat (map g xs)) pid \<longleftrightarrow> (\<exists>x \<in> set xs. flags_payout (g x) pid)"
  by (auto simp: flags_payout_def)

lemma payment_findings_payout [simp]: "\<not> flags_payout (payment_findings cx inp p) pid"
  by (auto simp: payment_findings_def finding_simps split: option.splits)

lemma refund_findings_payout [simp]: "\<not> flags_payout (refund_findings cx inp r) pid"
  by (auto simp: refund_findings_def finding_simps Let_def split: option.splits)

lemma refund_total_findings_payout [simp]: "\<not> flags_payout (refund_total_findings cx inp p) pid"
  by (auto simp: refund_total_findings_def finding_simps Let_def)

lemma payment_fee_findings_payout [simp]: "\<not> flags_payout (payment_fee_findings cx inp fee_of p) pid"
  by (auto simp: payment_fee_findings_def finding_simps Let_def)

lemma fee_findings_payout [simp]: "\<not> flags_payout (fee_findings cx inp f) pid"
  by (auto simp: fee_findings_def finding_simps Let_def split: option.splits)

lemma order_findings_payout [simp]: "\<not> flags_payout (order_findings cx states inp ord) pid"
  by (auto simp: flags_payout_def dest: order_findings_target)

lemma order_log_payout [simp]: "\<not> flags_payout (order_log cx states canon results fee_of) pid"
  by (simp add: order_log_def base_log_def orphan_rules_def refund_rules_def fee_rules_def)
    (simp add: flags_payout_def source_completeness_exceptions_def canonical_conflict_exceptions_def
      unattributed_def)

lemma settlement_rules_payout:
  "flags_payout (settlement_rules cx states inp) pid \<longleftrightarrow>
    map_of states RT_SETTLEMENT_LINES = Some SC_COMPLETE
    \<and> (\<exists>l \<in> set (in_lines inp). line_payout_id l = pid
        \<and> 1 < length (filter (\<lambda>l'. line_movement_key l' = line_movement_key l) (in_lines inp)))"
proof -
  have item: "flags_payout (duplicate_findings cx (k, ls)) pid \<longleftrightarrow>
      1 < length ls \<and> pid \<in> line_payout_id ` set ls" for k ls
    by (cases k) (auto simp: duplicate_findings_def finding_simps)
  have "(\<exists>it \<in> set (lines_by_movement inp). flags_payout (duplicate_findings cx it) pid)
      \<longleftrightarrow> (\<exists>l \<in> set (in_lines inp). line_payout_id l = pid
        \<and> 1 < length (filter (\<lambda>l'. line_movement_key l' = line_movement_key l) (in_lines inp)))"
    unfolding lines_by_movement_def group_by_bex item by auto
  then show ?thesis by (auto simp: settlement_rules_def)
qed

lemma movement_findings_payout:
  "flags_payout (movement_findings cx inp out (group_by line_movement_key ls) m) (out_id out) \<longleftrightarrow>
    (case filter (\<lambda>l. line_movement_key l = movement_key m) ls of
       [] \<Rightarrow> True | [l] \<Rightarrow> line_signed_amount l \<noteq> settled_amount inp m | _ \<Rightarrow> False)"
  by (simp add: movement_findings_def finding_simps settled_amount_def Let_def split: list.splits)

lemma movements_for_filter [simp]:
  "movements_for movements out = filter (\<lambda>m. mov_available_on m = out_date out) movements"
  by (simp add: movements_for_def)

lemma lines_for_filter [simp]: "lines_for inp out = lines_of inp out"
  by (simp add: lines_for_def lines_by_payout_def lines_of_def)

lemma payout_codes_clean:
  assumes "reports_complete states [RT_PAYMENTS, RT_REFUNDS, RT_FEES, RT_SETTLEMENT_LINES]"
    and "reports_complete states [RT_SETTLEMENT_LINES, RT_PAYOUTS]"
  shows "(payout_codes (order_log cx states canon results fee_of @ settlement_rules cx states inp
      @ payout_findings cx states inp movements out) (out_id out) = []
        \<and> out_reported_net_amount out - expected_payout movements out = 0)
    \<longleftrightarrow> payout_clean inp movements out"
proof -
  let ?due = "filter (\<lambda>m. mov_available_on m = out_date out) movements"
  let ?lines = "lines_of inp out"
  let ?sel = "\<lambda>m. filter (\<lambda>l. line_movement_key l = movement_key m) ?lines"
  let ?all = "\<lambda>l. filter (\<lambda>l'. line_movement_key l' = line_movement_key l) (in_lines inp)"
  have settled: "map_of states RT_SETTLEMENT_LINES = Some SC_COMPLETE"
    using assms(2) by (simp add: reports_complete_def)
  have "payout_codes (order_log cx states canon results fee_of @ settlement_rules cx states inp
      @ payout_findings cx states inp movements out) (out_id out) = []
    \<longleftrightarrow> \<not> flags_payout (order_log cx states canon results fee_of @ settlement_rules cx states inp
      @ payout_findings cx states inp movements out) (out_id out)"
    by (simp only: payout_codes_empty flags_payout_def) blast
  also have "\<dots> \<longleftrightarrow> (\<forall>l \<in> set ?lines. \<not> 1 < length (?all l))
      \<and> (\<forall>m \<in> set ?due. case ?sel m of [] \<Rightarrow> False | [l] \<Rightarrow> line_signed_amount l = settled_amount inp m | _ \<Rightarrow> True)
      \<and> out_reported_net_amount out = sum_list (map line_signed_amount ?lines)"
    using assms settled
    by (simp add: settlement_rules_payout payout_findings_def Let_def movement_findings_payout
        reported_line_total_def finding_simps)
      (auto simp: lines_of_def split: list.splits)
  finally have codes: "payout_codes (order_log cx states canon results fee_of @ settlement_rules cx states inp
      @ payout_findings cx states inp movements out) (out_id out) = [] \<longleftrightarrow> \<dots>" .
  have nonempty: "?all l \<noteq> []" if "l \<in> set ?lines" for l
    using that by (auto simp: lines_of_def filter_empty_conv)
  have sel_le: "length (?sel m) \<le> 1" if "\<forall>l \<in> set ?lines. \<not> 1 < length (?all l)" for m
  proof (cases "?sel m")
    case (Cons l ls)
    then have "l \<in> set (?sel m)" by simp
    then have l: "l \<in> set ?lines" "line_movement_key l = movement_key m" by auto
    have "length (?sel m) \<le> length (?all l)"
      unfolding l(2) lines_of_def by (rule length_filter_filter_le)
    with that l(1) show ?thesis by fastforce
  qed simp
  have single: "(case ?sel m of [] \<Rightarrow> False | [l] \<Rightarrow> line_signed_amount l = settled_amount inp m | _ \<Rightarrow> True)
      \<longleftrightarrow> map line_signed_amount (?sel m) = [settled_amount inp m]" if "length (?sel m) \<le> 1" for m
    using that by (auto split: list.splits)
  have length1: "length (?all l) = 1 \<longleftrightarrow> \<not> 1 < length (?all l)" if "l \<in> set ?lines" for l
    using nonempty[OF that] by (cases "?all l") auto
  have "payout_clean inp movements out \<longleftrightarrow>
      out_reported_net_amount out = sum_list (map mov_signed_amount ?due)
      \<and> out_reported_net_amount out = sum_list (map line_signed_amount ?lines)
      \<and> (\<forall>m \<in> set ?due. map line_signed_amount (?sel m) = [settled_amount inp m])
      \<and> (\<forall>l \<in> set ?lines. \<not> 1 < length (?all l))"
    unfolding payout_clean_def Let_def using length1 by (metis (no_types, lifting))
  then show ?thesis
    unfolding codes expected_payout_def movements_for_filter
    using sel_le single by (metis (no_types, lifting) eq_iff_diff_eq_0)
qed

subsection \<open>When a run succeeds\<close>

definition canon_well_formed :: "canonicalization_result \<Rightarrow> bool" where
  "canon_well_formed canon = (\<forall>r \<in> set (canonical_records canon). well_formed r)"

lemma expected_fee_well_formed:
  "well_formed_payment p \<Longrightarrow> expected_fee p = Inr (scheduled_fee (pay_method p) (pay_amount p))"
proof -
  assume "well_formed_payment p"
  then have "0 \<le> pay_amount p" "pay_amount p \<le> int MAX_MONEY_CENTS" "pay_currency p = EUR"
    by (auto simp: well_formed_payment_def positive_amount_def amount_in_range_def)
  then show ?thesis by (simp add: expected_fee_def calculate_fee_eur)
qed

lemma captured_well_formed:
  "canon_well_formed canon \<Longrightarrow> p \<in> set (captured_payments (input_of canon)) \<Longrightarrow>
    well_formed_payment p \<and> pay_available_on p \<noteq> None"
  by (auto simp: canon_well_formed_def captured_payments_def well_formed_payment_def)

lemma refund_well_formed:
  "canon_well_formed canon \<Longrightarrow> r \<in> set (successful_refunds (input_of canon)) \<Longrightarrow>
    well_formed_refund r \<and> ref_available_on r \<noteq> None"
  by (auto simp: canon_well_formed_def successful_refunds_def well_formed_refund_def)

lemma expected_fees_total:
  "canon_well_formed canon \<Longrightarrow> \<exists>d. expected_fee_by_payment (input_of canon) = Inr d"
  unfolding expected_fee_by_payment_def
  by (rule fold_result_total)
    (auto simp: add_expected_fee_Inr expected_fee_well_formed dest!: captured_well_formed)

lemma expected_movements_total:
  assumes "canon_well_formed canon"
  shows "\<exists>ms. expected_movements (input_of canon) fee_of = Inr ms"
proof -
  have "\<exists>ps. map_result (payment_movements (input_of canon) fee_of) (captured_payments (input_of canon)) = Inr ps"
    using captured_well_formed[OF assms]
    by (intro map_result_total) (fastforce simp: payment_movements_def Let_def)
  moreover have "\<exists>rs. map_result refund_movement (successful_refunds (input_of canon)) = Inr rs"
    using refund_well_formed[OF assms]
    by (intro map_result_total) (fastforce simp: refund_movement_def)
  ultimately show ?thesis by (auto simp: expected_movements_def)
qed

lemma check_payout_dates_iff:
  "check_payout_dates inp = Inr () \<longleftrightarrow> distinct (map out_date (in_payouts inp))"
proof -
  let ?xs = "in_payouts inp"
  have "check_payout_dates inp = Inr () \<longleftrightarrow> \<not> (\<exists>it \<in> set (group_by out_date ?xs). 1 < length (snd it))"
    by (simp add: check_payout_dates_def Let_def filter_empty_conv)
  also have "\<dots> \<longleftrightarrow> (\<forall>x \<in> set ?xs. length (filter (\<lambda>y. out_date y = out_date x) ?xs) \<le> 1)"
    by (simp add: group_by_bex not_less)
  also have "\<dots> \<longleftrightarrow> distinct (map out_date ?xs)"
    by (rule distinct_map_iff_single[symmetric])
  finally show ?thesis .
qed

lemma build_states_total:
  "(\<exists>states. build_report_state_map rs = Inr states) \<longleftrightarrow>
    distinct (map result_type rs) \<and> (\<forall>rt. \<exists>r \<in> set rs. result_type r = rt)"
proof
  assume "\<exists>states. build_report_state_map rs = Inr states"
  then show "distinct (map result_type rs) \<and> (\<forall>rt. \<exists>r \<in> set rs. result_type r = rt)"
    using build_states by blast
next
  assume a: "distinct (map result_type rs) \<and> (\<forall>rt. \<exists>r \<in> set rs. result_type r = rt)"
  then have "fold_result add_report_state rs [] = Inr (map (\<lambda>r. (result_type r, result_status r)) rs)"
    by (simp add: add_report_states)
  moreover have "filter (\<lambda>rt. rt \<notin> set (dict_keys (map (\<lambda>r. (result_type r, result_status r)) rs))) EXPECTED_REPORTS = []"
    using a by (auto simp: filter_empty_conv image_iff) metis
  ultimately show "\<exists>states. build_report_state_map rs = Inr states"
    unfolding build_report_state_map_def Let_def by (simp only: bind_result_simps simp_thms if_False) blast
qed

lemma reconcile_succeeds:
  assumes "canon_well_formed canon"
  shows "(\<exists>res. reconcile rid detected canon results quarantine = Inr res) \<longleftrightarrow>
    canonical_text rid \<and> (\<exists>t. detected = Aware t)
    \<and> distinct (map result_type results) \<and> (\<forall>rt. \<exists>r \<in> set results. result_type r = rt)
    \<and> distinct (map out_date (in_payouts (input_of canon)))" (is "?run \<longleftrightarrow> ?ok")
proof
  assume ?run
  then obtain res where "reconcile rid detected canon results quarantine = Inr res" ..
  then show ?ok
    by (rule reconcile_InrE)
      (use build_states_total[of "sort_key completeness_sort_key results"] in
        \<open>auto simp: check_payout_dates_iff\<close>)
next
  assume ok: ?ok
  then obtain t states where t: "detected = Aware t"
    "build_report_state_map (sort_key completeness_sort_key results) = Inr states"
    using build_states_total[of "sort_key completeness_sort_key results"] by auto
  obtain fee_of movements where "expected_fee_by_payment (input_of canon) = Inr fee_of"
    "expected_movements (input_of canon) fee_of = Inr movements"
    using expected_fees_total[OF assms] expected_movements_total[OF assms] by metis
  with ok t show ?run
    by (simp add: reconcile_def require_run_id_def as_utc_def reconcile_records_def Let_def
        input_of_def[symmetric] case_prod_beta check_payout_dates_iff[THEN iffD2])
qed

end
