(* ===== verification/Reconcile_Properties.thy ===== *)
theory Reconcile_Properties
  imports Reconcile_Facts
begin

text \<open>
  The properties of a reconciliation run, each with a concrete run that satisfies its hypotheses:
  one paid order of 100.00 EUR by card, its fee of 2.00 EUR, and a payout of 98.00 EUR with one line
  for each of the two movements.
\<close>

subsection \<open>A sample run\<close>

definition sample_ord :: order where
  "sample_ord = \<lparr>ord_id = ''o1'', ord_created_at_utc = 63860400000000000, ord_status = OS_PAID,
     ord_currency = ''EUR'', ord_total = 10000, ord_source_version = 1\<rparr>"

definition sample_payment :: payment where
  "sample_payment = \<lparr>pay_id = ''p1'', pay_order_id = ''o1'', pay_attempt_number = 1, pay_method = PM_CARD,
     pay_status = PS_CAPTURED, pay_amount = 10000, pay_currency = ''EUR'',
     pay_effective_at_utc = 63860400000000000, pay_available_on = Some 739000, pay_source_version = 1\<rparr>"

definition sample_fee :: fee where
  "sample_fee = \<lparr>fee_id = ''f1'', fee_payment_id = ''p1'', fee_fee_type = FT_PROCESSING, fee_amount = 200,
     fee_currency = ''EUR'', fee_effective_at_utc = 63860400000000000, fee_available_on = 739000,
     fee_source_version = 1\<rparr>"

definition sample_line :: "string \<Rightarrow> movement_type \<Rightarrow> string \<Rightarrow> int \<Rightarrow> settlement_line" where
  "sample_line i mt m a = \<lparr>line_id = i, line_payout_id = ''q1'', line_movement_type = mt,
     line_movement_id = m, line_signed_amount = a, line_currency = ''EUR'', line_source_version = 1\<rparr>"

definition sample_payout :: payout where
  "sample_payout = \<lparr>out_id = ''q1'', out_date = 739000, out_currency = ''EUR'',
     out_reported_net_amount = 9800, out_source_version = 1\<rparr>"

definition sample_canon :: canonicalization_result where
  "sample_canon = \<lparr>canonical_records =
       [FeeRec sample_fee, PaymentRec sample_payment, PayoutRec sample_payout,
        SettlementLineRec (sample_line ''s1'' MT_CAPTURE ''p1'' 10000),
        SettlementLineRec (sample_line ''s2'' MT_FEE ''f1'' (- 200)), OrderRec sample_ord],
     evidence = [], conflicts = []\<rparr>"

definition sample_status :: "source_completeness \<Rightarrow> report_type \<Rightarrow> completeness_result" where
  "sample_status s rt = \<lparr>cr_status = \<lparr>srs_source_system = REPORT_SOURCES rt, srs_report_type = rt,
       srs_business_date = 738999, srs_state = s, srs_batch_id = Some ''b1''\<rparr>,
     cr_deadline_at_utc = 0, cr_issues = []\<rparr>"

definition sample_complete :: "completeness_result list" where
  "sample_complete = map (sample_status SC_COMPLETE) report_type_members"

lemma reconcile_rowsE:
  assumes "reconcile rid detected canon results quarantine = Inr res" and "identities_distinct canon"
  obtains cx states fee_of where "run_id cx = rid" "detected = Aware (detected_at_utc cx)"
    "build_report_state_map (sort_key completeness_sort_key results) = Inr states"
    "expected_fee_by_payment (input_of canon) = Inr fee_of"
    "expected_movements (input_of canon) fee_of = Inr (rr_movements res)"
    "rr_transactions res = sort_key tx_order_id (map (\<lambda>ord. transaction_row_of cx states (input_of canon) fee_of
        (base_log cx states canon (sort_key completeness_sort_key results) fee_of
          @ order_findings cx states (input_of canon) ord) ord) (in_orders (input_of canon)))"
    "rr_payouts res = sort_key payout_row_sort_key (map (\<lambda>out. payout_row_of cx states (input_of canon) (rr_movements res)
        (order_log cx states canon (sort_key completeness_sort_key results) fee_of
          @ settlement_rules cx states (input_of canon)
          @ payout_findings cx states (input_of canon) (rr_movements res) out) out) (in_payouts (input_of canon)))"
    "rr_exceptions res = sort_key exception_sort_key (unique_exceptions (map fnd_exception
        (full_log cx states canon (sort_key completeness_sort_key results) fee_of (rr_movements res))))"
  using assms(1)
  by (rule reconcile_InrE)
    (rule that, auto simp: reconcile_orders_rows[OF input_distinct(1)[OF assms(2)]]
      reconcile_payouts_rows[OF input_distinct(6)[OF assms(2)]])

lemma sample_split:
  "input_of sample_canon = \<lparr>in_orders = [sample_ord], in_payments = [sample_payment], in_refunds = [],
     in_fees = [sample_fee],
     in_lines = [sample_line ''s1'' MT_CAPTURE ''p1'' 10000, sample_line ''s2'' MT_FEE ''f1'' (- 200)],
     in_payouts = [sample_payout]\<rparr>"
  by code_simp

lemma sample_identities: "identities_distinct sample_canon"
  by (simp add: identities_distinct_def sample_canon_def record_identity_simps sample_line_def)

lemma sample_canonical_texts [simp]:
  "canonical_text ''o1''" "canonical_text ''p1''" "canonical_text ''f1''" "canonical_text ''q1''"
  "canonical_text ''s1''" "canonical_text ''s2''" "canonical_text ''run-1''"
  by code_simp+

lemma sample_well_formed: "canon_well_formed sample_canon"
  by (simp add: canon_well_formed_def sample_canon_def well_formed_defs sample_ord_def sample_payment_def
      sample_fee_def sample_line_def sample_payout_def positive_amount_def amount_in_range_def
      MAX_MONEY_CENTS_def EUR_def)

lemma sample_required [simp]: "required_complete sample_complete required"
  by (simp add: required_complete_def sample_complete_def sample_status_def)

text \<open>A run on well-formed canonical records returns a result exactly when the run identifier is canonical,
  the detection time carries an offset, there is one completeness result per report type, and no two payouts fall
  on one date; in every other case it raises.\<close>

theorem reconcile_returns_iff:
  assumes "canon_well_formed canon"
  shows "(\<exists>res. reconcile rid detected canon results quarantine = Inr res) \<longleftrightarrow>
    canonical_text rid \<and> (\<exists>t. detected = Aware t)
    \<and> distinct (map result_type results) \<and> (\<forall>rt. \<exists>r \<in> set results. result_type r = rt)
    \<and> distinct (map out_date (in_payouts (input_of canon)))"
  using assms by (rule reconcile_succeeds)

theorem reconcile_returns_iff_witness:
  "\<exists>res. reconcile ''run-1'' (Aware 0) sample_canon sample_complete [] = Inr res"
proof -
  have "\<exists>r \<in> set sample_complete. result_type r = rt" for rt
    using report_type_members_all by (auto simp: sample_complete_def sample_status_def)
  then show ?thesis
    unfolding reconcile_returns_iff[OF sample_well_formed]
    by (simp add: sample_split sample_complete_def report_type_members_def sample_status_def)
qed

lemma sample_run_exists:
  obtains res where "reconcile ''run-1'' (Aware 0) sample_canon sample_complete [] = Inr res"
proof -
  have "\<exists>r \<in> set sample_complete. result_type r = rt" for rt
    using report_type_members_all by (auto simp: sample_complete_def sample_status_def)
  then have "\<exists>res. reconcile ''run-1'' (Aware 0) sample_canon sample_complete [] = Inr res"
    unfolding reconcile_succeeds[OF sample_well_formed]
    by (simp add: sample_split sample_complete_def report_type_members_def sample_status_def)
  with that show thesis by blast
qed

lemma transaction_row_state:
  assumes "identities_distinct canon" and "ord \<in> set (in_orders (input_of canon))"
    and "build_report_state_map (sort_key completeness_sort_key results) = Inr states"
    and "expected_fee_by_payment (input_of canon) = Inr fee_of"
  shows "tx_state (transaction_row_of cx states (input_of canon) fee_of
        (base_log cx states canon (sort_key completeness_sort_key results) fee_of
          @ order_findings cx states (input_of canon) ord) ord) =
      (if required_in_state results TRANSACTION_REQUIRED_REPORTS SC_INCOMPLETE then RS_INCOMPLETE
       else if required_in_state results TRANSACTION_REQUIRED_REPORTS SC_PENDING then RS_PENDING
       else if order_clean (input_of canon) ord then RS_RECONCILED else RS_EXCEPTION)"
proof -
  let ?base = "base_log cx states canon (sort_key completeness_sort_key results) fee_of"
  let ?codes = "transaction_codes (?base @ order_findings cx states (input_of canon) ord) (ord_id ord)"
  have "?codes = [] \<longleftrightarrow> order_clean (input_of canon) ord"
    if "required_complete results TRANSACTION_REQUIRED_REPORTS"
    using required_complete_subset[OF that]
    by (intro order_codes_clean[OF assms(1,2) _ _ _ assms(4)])
      (simp_all add: reports_complete_iff[OF assms(3)] TRANSACTION_REQUIRED_REPORTS_def)
  then show ?thesis
    by (simp add: required_complete_iff transaction_row_of_def Let_def result_state_eq[OF assms(3)]
        del: transaction_codes_empty)
qed

lemma transaction_row_id:
  "tx_order_id (transaction_row_of cx states inp fee_of log ord) = ord_id ord"
  by (simp add: transaction_row_of_def Let_def)



lemma payout_rows_decided:
  assumes "reconcile rid detected canon results quarantine = Inr res" and "identities_distinct canon"
    and "po \<in> set (rr_payouts res)"
  shows "\<exists>out. PayoutRec out \<in> set (canonical_records canon) \<and> po_payout_id po = out_id out
    \<and> po_state po =
      (if required_in_state results PAYOUT_REQUIRED_REPORTS SC_INCOMPLETE then RS_INCOMPLETE
       else if required_in_state results PAYOUT_REQUIRED_REPORTS SC_PENDING then RS_PENDING
       else if payout_clean (input_of canon) (rr_movements res) out then RS_RECONCILED else RS_EXCEPTION)"
  using assms(1,2)
proof (rule reconcile_rowsE)
  fix cx states fee_of
  assume run: "build_report_state_map (sort_key completeness_sort_key results) = Inr states"
    and rows: "rr_payouts res = sort_key payout_row_sort_key (map (\<lambda>out. payout_row_of cx states (input_of canon) (rr_movements res)
        (order_log cx states canon (sort_key completeness_sort_key results) fee_of
          @ settlement_rules cx states (input_of canon)
          @ payout_findings cx states (input_of canon) (rr_movements res) out) out) (in_payouts (input_of canon)))"
  let ?log = "\<lambda>out. order_log cx states canon (sort_key completeness_sort_key results) fee_of
          @ settlement_rules cx states (input_of canon)
          @ payout_findings cx states (input_of canon) (rr_movements res) out"
  from assms(3) rows obtain out where out: "out \<in> set (in_payouts (input_of canon))"
    and po: "po = payout_row_of cx states (input_of canon) (rr_movements res) (?log out) out"
    by (auto simp del: input_members)
  have "(payout_codes (?log out) (out_id out) = []
      \<and> out_reported_net_amount out - expected_payout (rr_movements res) out = 0)
    \<longleftrightarrow> payout_clean (input_of canon) (rr_movements res) out"
    if "required_complete results PAYOUT_REQUIRED_REPORTS"
    using required_complete_subset[OF that]
    by (intro payout_codes_clean)
      (simp_all add: reports_complete_iff[OF run(1)] PAYOUT_REQUIRED_REPORTS_def)
  then show ?thesis
    using out by (intro exI[of _ out])
      (auto simp add: required_complete_iff po payout_row_of_def Let_def result_state_eq[OF run(1)]
        simp del: payout_codes_empty)
qed

text \<open>C2: Every payout row is decided the same way: INCOMPLETE or PENDING when a required report is, otherwise RECONCILED
  exactly when the payout is clean: the provider's net amount equals the expected movements of its date and the sum of
  its settlement lines, each expected movement has exactly one line with the right amount, and no movement is settled
  twice.\<close>

theorem payout_state_decided:
  assumes "reconcile rid detected canon results quarantine = Inr res" and "identities_distinct canon"
    and "po \<in> set (rr_payouts res)"
  shows "\<exists>out. PayoutRec out \<in> set (canonical_records canon) \<and> po_payout_id po = out_id out
    \<and> po_state po =
      (if required_in_state results PAYOUT_REQUIRED_REPORTS SC_INCOMPLETE then RS_INCOMPLETE
       else if required_in_state results PAYOUT_REQUIRED_REPORTS SC_PENDING then RS_PENDING
       else if payout_clean (input_of canon) (rr_movements res) out then RS_RECONCILED else RS_EXCEPTION)"
  using assms by (rule payout_rows_decided)

lemma payout_clean_mset:
  assumes "mset ms = mset ms'"
  shows "payout_clean inp ms out = payout_clean inp ms' out"
proof -
  let ?f = "filter (\<lambda>m. mov_available_on m = out_date out)"
  have m: "mset (?f ms) = mset (?f ms')" using assms by simp
  then have "sum_mset (mset (map mov_signed_amount (?f ms))) = sum_mset (mset (map mov_signed_amount (?f ms')))"
    by (simp only: mset_map)
  then have "sum_list (map mov_signed_amount (?f ms)) = sum_list (map mov_signed_amount (?f ms'))"
    by (simp only: sum_mset_sum_list)
  moreover have "set (?f ms) = set (?f ms')" using m by (rule mset_eq_setD)
  ultimately show ?thesis by (simp only: payout_clean_def Let_def)
qed

lemma expected_movements_mset:
  assumes "expected_movements inp fee_of = Inr ms"
  obtains ps rs where "map_result (payment_movements inp fee_of) (captured_payments inp) = Inr ps"
    "map_result refund_movement (successful_refunds inp) = Inr rs" "mset ms = mset (concat ps @ rs)"
  using assms by (auto simp: expected_movements_def result_simps)

lemma sample_movements:
  assumes "reconcile ''run-1'' (Aware 0) sample_canon sample_complete [] = Inr res"
  shows "mset (rr_movements res) = mset
    [\<lparr>mov_type = MT_CAPTURE, mov_id = ''p1'', mov_available_on = 739000, mov_signed_amount = 10000,
       mov_support = [source_reference (PaymentRec sample_payment)]\<rparr>,
     \<lparr>mov_type = MT_FEE, mov_id = ''f1'', mov_available_on = 739000, mov_signed_amount = - 200,
       mov_support = [source_reference (PaymentRec sample_payment), source_reference (FeeRec sample_fee)]\<rparr>]"
  using assms sample_identities
proof (rule reconcile_rowsE)
  fix fee_of
  assume a: "expected_fee_by_payment (input_of sample_canon) = Inr fee_of"
    "expected_movements (input_of sample_canon) fee_of = Inr (rr_movements res)"
  have "expected_fee sample_payment = Inr 200"
    using expected_fee_well_formed[of sample_payment]
    by (simp add: sample_payment_def well_formed_payment_def positive_amount_def
        amount_in_range_def MAX_MONEY_CENTS_def EUR_def scheduled_fee_def)
  moreover have cap: "captured_payments (input_of sample_canon) = [sample_payment]"
    by (simp add: sample_split captured_payments_def sample_payment_def)
  ultimately have f: "fee_of = [(''p1'', 200)]"
    using a(1) by (simp add: expected_fee_by_payment_def add_expected_fee_def sample_payment_def)
  have "successful_refunds (input_of sample_canon) = []"
    "dict_get (fees_by_payment (input_of sample_canon)) ''p1'' [] = [sample_fee]"
    "pay_id sample_payment = ''p1''" "pay_available_on sample_payment = Some 739000"
    "pay_amount sample_payment = 10000" "fee_id sample_fee = ''f1''"
    by (simp_all add: sample_split successful_refunds_def fees_by_payment_def sample_fee_def sample_payment_def)
  with a(2) show ?thesis
    by (elim expected_movements_mset)
      (auto simp: cap f payment_movements_def dict_get_def[of "[(''p1'', 200)]"] Let_def)
qed

theorem payout_state_decided_witness:
  "\<exists>res po. reconcile ''run-1'' (Aware 0) sample_canon sample_complete [] = Inr res
    \<and> po \<in> set (rr_payouts res) \<and> po_state po = RS_RECONCILED"
proof (rule sample_run_exists)
  fix res assume run: "reconcile ''run-1'' (Aware 0) sample_canon sample_complete [] = Inr res"
  have "rr_payouts res \<noteq> []"
    using run sample_identities by (rule reconcile_rowsE) (simp add: sample_split)
  then obtain po where po: "po \<in> set (rr_payouts res)" by (meson list.set_sel(1))
  have "\<not> required_in_state sample_complete req SC_INCOMPLETE" "\<not> required_in_state sample_complete req SC_PENDING" for req
    using sample_required[of req] unfolding required_complete_iff by blast+
  moreover have "payout_clean (input_of sample_canon) (rr_movements res) sample_payout"
  proof -
    show ?thesis
      unfolding payout_clean_mset[OF sample_movements[OF run]]
      by (simp add: payout_clean_def lines_of_def sample_split sample_payout_def sample_line_def
          sample_fee_def line_movement_key_def movement_key_def settled_amount_def fees_by_id_def index_by_def Let_def)
  qed
  moreover have "PayoutRec out \<in> set (canonical_records sample_canon) \<Longrightarrow> out = sample_payout" for out
    by (simp add: sample_canon_def)
  ultimately have "po_state po = RS_RECONCILED"
    using payout_state_decided[OF run sample_identities po] by metis
  with run po show ?thesis by blast
qed

subsection \<open>Accounting\<close>

lemma sum_over_groups:
  assumes "distinct ks"
  shows "sum_list (map (\<lambda>k. sum_list (map f (filter (\<lambda>x. key x = k) xs))) ks)
    = (sum_list (map f (filter (\<lambda>x. key x \<in> set ks) xs)) :: int)"
  using assms
proof (induction ks)
  case (Cons k ks)
  have "sum_list (map f (filter (\<lambda>x. key x \<in> set (k # ks)) xs))
      = sum_list (map f (filter (\<lambda>x. key x = k) xs)) + sum_list (map f (filter (\<lambda>x. key x \<in> set ks) xs))"
    using Cons.prems by (induction xs) auto
  with Cons show ?case by simp
qed simp

lemma captured_total_filter:
  "captured_total inp ord = sum_list (map pay_amount (filter (\<lambda>p. pay_order_id p = ord_id ord) (captured_payments inp)))"
  by (simp add: captured_total_def order_payments_def captured_by_order_def)

lemma transaction_row_fields:
  "tx_order_id (transaction_row_of cx states inp fee_of log ord) = ord_id ord"
  "tx_captured_total (transaction_row_of cx states inp fee_of log ord) = captured_total inp ord"
  by (simp_all add: transaction_row_of_def Let_def)

lemma run_transaction_rows:
  assumes "reconcile rid detected canon results quarantine = Inr res" and "identities_distinct canon"
  shows "map tx_order_id (rr_transactions res) = map ord_id (in_orders (input_of canon))
    \<and> sum_list (map tx_captured_total (rr_transactions res))
      = sum_list (map pay_amount (filter (\<lambda>p. pay_order_id p \<in> ord_id ` set (in_orders (input_of canon)))
          (captured_payments (input_of canon))))
    \<and> (\<forall>tx \<in> set (rr_transactions res).
        tx_collection_variance tx = tx_captured_total tx - tx_expected_collection tx
        \<and> tx_lifetime_net tx = tx_captured_total tx - tx_refund_total tx - tx_expected_fee_total tx)"
  using assms
proof (rule reconcile_rowsE)
  fix cx states fee_of
  let ?inp = "input_of canon"
  let ?row = "\<lambda>ord. transaction_row_of cx states ?inp fee_of
      (base_log cx states canon (sort_key completeness_sort_key results) fee_of
        @ order_findings cx states ?inp ord) ord"
  assume rows: "rr_transactions res = sort_key tx_order_id (map ?row (in_orders ?inp))"
  have ids: "map tx_order_id (map ?row (in_orders ?inp)) = map ord_id (in_orders ?inp)"
    by (simp add: transaction_row_fields)
  have "sorted (map ord_id (in_orders ?inp))"
    by (simp add: input_of_def split_canonical_records_def)
  then have eq: "rr_transactions res = map ?row (in_orders ?inp)"
    unfolding rows by (intro sort_key_id_if_sorted) (simp only: ids)
  have "sum_list (map tx_captured_total (rr_transactions res)) = sum_list (map (captured_total ?inp) (in_orders ?inp))"
    unfolding eq by (simp add: transaction_row_fields comp_def)
  also have "\<dots> = sum_list (map (\<lambda>i. sum_list (map pay_amount (filter (\<lambda>p. pay_order_id p = i) (captured_payments ?inp))))
      (map ord_id (in_orders ?inp)))"
    by (simp add: captured_total_filter[abs_def] comp_def)
  also have "\<dots> = sum_list (map pay_amount (filter (\<lambda>p. pay_order_id p \<in> ord_id ` set (in_orders ?inp))
          (captured_payments ?inp)))"
    using sum_over_groups[OF input_distinct(1)[OF assms(2)], of pay_amount pay_order_id] by simp
  finally have total: "sum_list (map tx_captured_total (rr_transactions res)) = \<dots>" .
  have "\<forall>tx \<in> set (rr_transactions res).
        tx_collection_variance tx = tx_captured_total tx - tx_expected_collection tx
        \<and> tx_lifetime_net tx = tx_captured_total tx - tx_refund_total tx - tx_expected_fee_total tx"
    unfolding eq by (auto simp: transaction_row_of_def Let_def)
  then show ?thesis
    using total ids unfolding eq by blast
qed

text \<open>There is exactly one transaction row per order, in the order of the identifiers, and the rows account for every
  capture: their captured totals add up to the captures whose order is known; in each row the variance and the net
  collection are the differences of the row's own totals.\<close>

theorem transaction_rows_account:
  assumes "reconcile rid detected canon results quarantine = Inr res" and "identities_distinct canon"
  shows "map tx_order_id (rr_transactions res) = map ord_id (in_orders (input_of canon))
    \<and> sum_list (map tx_captured_total (rr_transactions res))
      = sum_list (map pay_amount (filter (\<lambda>p. pay_order_id p \<in> ord_id ` set (in_orders (input_of canon)))
          (captured_payments (input_of canon))))
    \<and> (\<forall>tx \<in> set (rr_transactions res).
        tx_collection_variance tx = tx_captured_total tx - tx_expected_collection tx
        \<and> tx_lifetime_net tx = tx_captured_total tx - tx_refund_total tx - tx_expected_fee_total tx)"
  using assms by (rule run_transaction_rows)

theorem transaction_rows_account_witness:
  "\<exists>res. reconcile ''run-1'' (Aware 0) sample_canon sample_complete [] = Inr res
    \<and> sum_list (map tx_captured_total (rr_transactions res)) = 10000"
proof (rule sample_run_exists)
  fix res assume run: "reconcile ''run-1'' (Aware 0) sample_canon sample_complete [] = Inr res"
  from transaction_rows_account[OF run sample_identities]
  have "sum_list (map tx_captured_total (rr_transactions res)) = 10000"
    by (simp add: sample_split captured_payments_def sample_payment_def sample_ord_def)
  with run show ?thesis by blast
qed

lemma payment_movements_Inr:
  "payment_movements inp fee_of p = Inr ms \<Longrightarrow> \<exists>d c f. pay_available_on p = Some d \<and> ms = [c, f]
    \<and> mov_type c = MT_CAPTURE \<and> mov_id c = pay_id p \<and> mov_available_on c = d
    \<and> mov_signed_amount c = pay_amount p
    \<and> mov_type f = MT_FEE \<and> mov_available_on f = d \<and> mov_signed_amount f = - dict_get fee_of (pay_id p) 0"
  by (auto simp: payment_movements_def Let_def split: option.splits)

lemma payment_movements_sum:
  "map_result (payment_movements inp fee_of) ps = Inr mss \<Longrightarrow>
    sum_list (map mov_signed_amount (filter (\<lambda>m. mov_available_on m = d) (concat mss)))
    = sum_list (map (\<lambda>p. pay_amount p - dict_get fee_of (pay_id p) 0)
        (filter (\<lambda>p. pay_available_on p = Some d) ps))"
proof (induction ps arbitrary: mss)
  case (Cons p ps)
  then obtain ms mss' where "payment_movements inp fee_of p = Inr ms"
    "map_result (payment_movements inp fee_of) ps = Inr mss'" "mss = ms # mss'"
    by (auto simp: bind_result_Inr)
  with Cons.IH[of mss'] show ?case
    by (auto dest!: payment_movements_Inr)
qed simp

lemma refund_movement_Inr:
  "refund_movement r = Inr m \<longleftrightarrow> (\<exists>d. ref_available_on r = Some d
    \<and> m = \<lparr>mov_type = MT_REFUND, mov_id = ref_id r, mov_available_on = d,
        mov_signed_amount = - ref_amount r, mov_support = [source_reference (RefundRec r)]\<rparr>)"
  by (auto simp: refund_movement_def split: option.splits)

lemma refund_movements_sum:
  "map_result refund_movement rs = Inr ms \<Longrightarrow>
    sum_list (map mov_signed_amount (filter (\<lambda>m. mov_available_on m = d) ms))
    = - sum_list (map ref_amount (filter (\<lambda>r. ref_available_on r = Some d) rs))"
proof (induction rs arbitrary: ms)
  case (Cons r rs)
  then obtain m ms' where "refund_movement r = Inr m" "map_result refund_movement rs = Inr ms'" "ms = m # ms'"
    by (auto simp: bind_result_Inr)
  with Cons.IH[of ms'] show ?case
    by (auto simp: refund_movement_Inr)
qed simp

lemma expected_payout_sum:
  assumes "expected_movements inp fee_of = Inr ms"
  shows "expected_payout ms out =
    sum_list (map (\<lambda>p. pay_amount p - dict_get fee_of (pay_id p) 0)
      (filter (\<lambda>p. pay_available_on p = Some (out_date out)) (captured_payments inp)))
    - sum_list (map ref_amount (filter (\<lambda>r. ref_available_on r = Some (out_date out)) (successful_refunds inp)))"
  using assms
proof (rule expected_movements_mset)
  fix ps rs
  assume ps: "map_result (payment_movements inp fee_of) (captured_payments inp) = Inr ps"
    and rs: "map_result refund_movement (successful_refunds inp) = Inr rs" and ms: "mset ms = mset (concat ps @ rs)"
  let ?f = "filter (\<lambda>m. mov_available_on m = out_date out)"
  have "sum_mset (mset (map mov_signed_amount (?f ms))) = sum_mset (mset (map mov_signed_amount (?f (concat ps @ rs))))"
    by (simp only: mset_map mset_filter ms)
  then have "expected_payout ms out = sum_list (map mov_signed_amount (?f (concat ps @ rs)))"
    by (simp only: sum_mset_sum_list expected_payout_def movements_for_filter)
  then show ?thesis
    using payment_movements_sum[OF ps, of "out_date out"] refund_movements_sum[OF rs, of "out_date out"] by simp
qed

text \<open>C21: Payout arithmetic: the expected payout of a date is the captures available that day less their scheduled fees,
  less the refunds available that day; the two reported variances are the provider's net amount less the line total
  and less the expected payout.\<close>

theorem expected_payout_arithmetic:
  assumes "reconcile rid detected canon results quarantine = Inr res" and "identities_distinct canon"
    and "canon_well_formed canon" and "po \<in> set (rr_payouts res)"
  shows "po_expected po =
      sum_list (map (\<lambda>p. pay_amount p - scheduled_fee (pay_method p) (pay_amount p))
        (filter (\<lambda>p. pay_available_on p = Some (po_payout_date po)) (captured_payments (input_of canon))))
      - sum_list (map ref_amount
        (filter (\<lambda>r. ref_available_on r = Some (po_payout_date po)) (successful_refunds (input_of canon))))
    \<and> po_end_to_end_variance po = po_reported_net po - po_expected po
    \<and> po_provider_variance po = po_reported_net po - po_line_total po
    \<and> po_line_total po = sum_list (map line_signed_amount
        (filter (\<lambda>l. line_payout_id l = po_payout_id po) (in_lines (input_of canon))))"
  using assms(1,2)
proof (rule reconcile_rowsE)
  fix cx states fee_of
  let ?inp = "input_of canon"
  assume fees: "expected_fee_by_payment ?inp = Inr fee_of" and ms: "expected_movements ?inp fee_of = Inr (rr_movements res)"
    and rows: "rr_payouts res = sort_key payout_row_sort_key (map (\<lambda>out. payout_row_of cx states (input_of canon) (rr_movements res)
        (order_log cx states canon (sort_key completeness_sort_key results) fee_of
          @ settlement_rules cx states (input_of canon)
          @ payout_findings cx states (input_of canon) (rr_movements res) out) out) (in_payouts (input_of canon)))"
  from assms(4) rows obtain out log where po: "po = payout_row_of cx states ?inp (rr_movements res) log out"
    by auto
  have "dict_get fee_of (pay_id p) 0 = scheduled_fee (pay_method p) (pay_amount p)"
    if "p \<in> set (captured_payments ?inp)" for p
    using expected_fee_by_payment_get[OF assms(2) fees that] captured_well_formed[OF assms(3) that]
    by (simp add: expected_fee_well_formed)
  then have F: "map (\<lambda>p. pay_amount p - dict_get fee_of (pay_id p) 0) (filter P (captured_payments ?inp))
      = map (\<lambda>p. pay_amount p - scheduled_fee (pay_method p) (pay_amount p)) (filter P (captured_payments ?inp))" for P
    by auto
  show ?thesis
    unfolding po
    by (simp add: payout_row_of_def Let_def expected_payout_sum[OF ms, unfolded F] reported_line_total_def lines_of_def)
qed

theorem expected_payout_arithmetic_witness:
  "\<exists>res po. reconcile ''run-1'' (Aware 0) sample_canon sample_complete [] = Inr res
    \<and> po \<in> set (rr_payouts res) \<and> po_expected po = 9800"
proof (rule sample_run_exists)
  fix res assume run: "reconcile ''run-1'' (Aware 0) sample_canon sample_complete [] = Inr res"
  have "map po_payout_date (rr_payouts res) = [739000]"
    using run sample_identities
    by (rule reconcile_rowsE) (simp add: sample_split payout_row_of_def Let_def sample_payout_def)
  then obtain po where po: "po \<in> set (rr_payouts res)" "po_payout_date po = 739000" by auto
  with expected_payout_arithmetic[OF run sample_identities sample_well_formed po(1)]
  have "po_expected po = 9800"
    by (simp add: sample_split captured_payments_def successful_refunds_def sample_payment_def scheduled_fee_def)
  with run po show ?thesis by blast
qed

subsection \<open>Exceptions\<close>

lemma unique_exceptions_keys:
  "distinct (map exception_key (unique_exceptions xs))"
  "exception_key ` set (unique_exceptions xs) = exception_key ` set xs"
  "set (unique_exceptions xs) \<subseteq> set xs"
  unfolding unique_exceptions_def
  by (simp_all only: index_by_values_keys distinct_keys_index_by index_by_values_image index_by_values_subset)

text \<open>What every appended exception has in common.\<close>

definition audited :: "run_context \<Rightarrow> finding \<Rightarrow> bool" where
  "audited cx f = (rx_run_id (fnd_exception f) = run_id cx
     \<and> rx_contract_version (fnd_exception f) = CONTRACT_VERSION
     \<and> rx_detected_at (fnd_exception f) = detected_at_utc cx
     \<and> rx_status (fnd_exception f) = ''OPEN''
     \<and> rx_variance (fnd_exception f) =
         (case (rx_expected (fnd_exception f), rx_actual (fnd_exception f)) of
            (Some e, Some a) \<Rightarrow> Some (a - e) | _ \<Rightarrow> None)
     \<and> sorted (rx_support (fnd_exception f)) \<and> distinct (rx_support (fnd_exception f)))"

lemma audited_new [simp]:
  "audited cx (unattributed (new_exception cx rule code et ei ex ac support))"
  "audited cx (on_order oid (new_exception cx rule code et ei ex ac support))"
  "audited cx (on_payouts ps (new_exception cx rule code et ei ex ac support))"
  by (simp_all add: audited_def finding_simps new_exception_def)

lemma audited_rules:
  "f \<in> set (source_completeness_exceptions cx results) \<Longrightarrow> audited cx f"
  "f \<in> set (canonical_conflict_exceptions cx canon) \<Longrightarrow> audited cx f"
  "f \<in> set (payment_findings cx inp p) \<Longrightarrow> audited cx f"
  "f \<in> set (refund_findings cx inp r) \<Longrightarrow> audited cx f"
  "f \<in> set (refund_total_findings cx inp p) \<Longrightarrow> audited cx f"
  "f \<in> set (payment_fee_findings cx inp fee_of p) \<Longrightarrow> audited cx f"
  "f \<in> set (fee_findings cx inp fe) \<Longrightarrow> audited cx f"
  "f \<in> set (order_findings cx states inp ord) \<Longrightarrow> audited cx f"
  "f \<in> set (duplicate_findings cx item) \<Longrightarrow> audited cx f"
  "f \<in> set (movement_findings cx inp out by_movement m) \<Longrightarrow> audited cx f"
  by (auto simp: source_completeness_exceptions_def canonical_conflict_exceptions_def payment_findings_def
      refund_findings_def refund_total_findings_def payment_fee_findings_def fee_findings_def
      order_findings_def duplicate_findings_def movement_findings_def Let_def
      split: option.splits if_splits list.splits prod.splits)

lemma audited_payout: "f \<in> set (payout_findings cx states inp movements out) \<Longrightarrow> audited cx f"
  by (auto simp: payout_findings_def Let_def dest: audited_rules(10) split: if_splits)

lemma audited_log: "f \<in> set (full_log cx states canon results fee_of movements) \<Longrightarrow> audited cx f"
  by (auto simp: full_log_def order_log_def base_log_def orphan_rules_def refund_rules_def fee_rules_def
      settlement_rules_def dest: audited_rules audited_payout split: if_splits)

lemma run_exceptions_audited:
  assumes "reconcile rid detected canon results quarantine = Inr res" and "identities_distinct canon"
  shows "sorted (map exception_sort_key (rr_exceptions res))
    \<and> distinct (map exception_key (rr_exceptions res))
    \<and> (\<forall>x \<in> set (rr_exceptions res). rx_run_id x = rid \<and> rx_contract_version x = CONTRACT_VERSION
        \<and> Aware (rx_detected_at x) = detected \<and> rx_status x = ''OPEN''
        \<and> rx_variance x = (case (rx_expected x, rx_actual x) of (Some e, Some a) \<Rightarrow> Some (a - e) | _ \<Rightarrow> None)
        \<and> sorted (rx_support x) \<and> distinct (rx_support x))"
  using assms
proof (rule reconcile_rowsE)
  fix cx states fee_of
  let ?log = "full_log cx states canon (sort_key completeness_sort_key results) fee_of (rr_movements res)"
  assume cx: "run_id cx = rid" "detected = Aware (detected_at_utc cx)"
    and ex: "rr_exceptions res = sort_key exception_sort_key (unique_exceptions (map fnd_exception ?log))"
  have "\<exists>f \<in> set ?log. x = fnd_exception f" if "x \<in> set (rr_exceptions res)" for x
    using that unique_exceptions_keys(3)[of "map fnd_exception ?log"] unfolding ex by auto
  then have "rx_run_id x = rid \<and> rx_contract_version x = CONTRACT_VERSION
        \<and> Aware (rx_detected_at x) = detected \<and> rx_status x = ''OPEN''
        \<and> rx_variance x = (case (rx_expected x, rx_actual x) of (Some e, Some a) \<Rightarrow> Some (a - e) | _ \<Rightarrow> None)
        \<and> sorted (rx_support x) \<and> distinct (rx_support x)" if "x \<in> set (rr_exceptions res)" for x
    using that cx audited_log unfolding audited_def by metis
  moreover have "distinct (map exception_key (rr_exceptions res))" "sorted (map exception_sort_key (rr_exceptions res))"
    unfolding ex by (simp_all add: unique_exceptions_keys(1))
  ultimately show ?thesis by blast
qed

text \<open>The exceptions of a run are sorted, at most one per rule, type and entity, belong to the run and its contract
  version, carry the difference of their amounts as variance, and name each supporting record once.\<close>

theorem exceptions_audited:
  assumes "reconcile rid detected canon results quarantine = Inr res" and "identities_distinct canon"
  shows "sorted (map exception_sort_key (rr_exceptions res))
    \<and> distinct (map exception_key (rr_exceptions res))
    \<and> (\<forall>x \<in> set (rr_exceptions res). rx_run_id x = rid \<and> rx_contract_version x = CONTRACT_VERSION
        \<and> Aware (rx_detected_at x) = detected \<and> rx_status x = ''OPEN''
        \<and> rx_variance x = (case (rx_expected x, rx_actual x) of (Some e, Some a) \<Rightarrow> Some (a - e) | _ \<Rightarrow> None)
        \<and> sorted (rx_support x) \<and> distinct (rx_support x))"
  using assms by (rule run_exceptions_audited)

theorem exceptions_audited_witness:
  "\<exists>res. reconcile ''run-1'' (Aware 0) sample_canon sample_complete [] = Inr res
    \<and> distinct (map exception_key (rr_exceptions res))"
proof (rule sample_run_exists)
  fix res assume run: "reconcile ''run-1'' (Aware 0) sample_canon sample_complete [] = Inr res"
  with exceptions_audited[OF run sample_identities] show ?thesis by blast
qed

text \<open>The types each group of rules can write.\<close>

lemma finding_types:
  "f \<in> set (source_completeness_exceptions cx results) \<Longrightarrow>
    rx_type (fnd_exception f) \<in> {EC_SOURCE_REPORT_MISSING, EC_SOURCE_REPORT_INVALID}"
  "f \<in> set (canonical_conflict_exceptions cx canon) \<Longrightarrow>
    rx_type (fnd_exception f) = EC_CONFLICTING_SOURCE_VERSION"
  "f \<in> set (payment_findings cx inp p) \<Longrightarrow>
    rx_type (fnd_exception f) \<in> {EC_ORPHAN_PAYMENT, EC_CAPTURE_FOR_NON_PAYABLE_ORDER}"
  "f \<in> set (refund_findings cx inp r) \<Longrightarrow>
    rx_type (fnd_exception f) \<in> {EC_ORPHAN_REFUND, EC_REFUND_CURRENCY_MISMATCH}"
  "f \<in> set (refund_total_findings cx inp p) \<Longrightarrow> rx_type (fnd_exception f) = EC_EXCESS_REFUND"
  "f \<in> set (payment_fee_findings cx inp fee_of p) \<Longrightarrow>
    rx_type (fnd_exception f) \<in> {EC_MISSING_FEE, EC_FEE_MISMATCH}"
  "f \<in> set (fee_findings cx inp fe) \<Longrightarrow> rx_type (fnd_exception f) = EC_UNEXPECTED_FEE"
  "f \<in> set (order_findings cx states inp ord) \<Longrightarrow>
    rx_type (fnd_exception f) \<in> {EC_MISSING_PAYMENT, EC_PAYMENT_AMOUNT_MISMATCH, EC_MULTIPLE_CAPTURE}"
  "f \<in> set (duplicate_findings cx item) \<Longrightarrow> rx_type (fnd_exception f) = EC_DUPLICATE_SETTLEMENT_MOVEMENT"
  "f \<in> set (movement_findings cx inp out by_movement m) \<Longrightarrow>
    rx_type (fnd_exception f) \<in> {EC_MISSING_SETTLEMENT_LINE, EC_SETTLEMENT_LINE_AMOUNT_MISMATCH}"
  by (auto simp: source_completeness_exceptions_def canonical_conflict_exceptions_def payment_findings_def
      refund_findings_def refund_total_findings_def payment_fee_findings_def fee_findings_def
      order_findings_def duplicate_findings_def movement_findings_def Let_def finding_simps new_exception_def
      split: option.splits if_splits list.splits prod.splits)

lemma payout_finding_types:
  "f \<in> set (payout_findings cx states inp movements out) \<Longrightarrow> rx_type (fnd_exception f) = EC_PAYOUT_TOTAL_MISMATCH
    \<or> (reports_complete states [RT_PAYMENTS, RT_REFUNDS, RT_FEES, RT_SETTLEMENT_LINES]
       \<and> (\<exists>m \<in> set movements. mov_available_on m = out_date out
           \<and> f \<in> set (movement_findings cx inp out (group_by line_movement_key (lines_of inp out)) m)))"
  by (auto simp: payout_findings_def Let_def on_payouts_def new_exception_def split: if_splits)

lemma full_log_cases:
  assumes "f \<in> set (full_log cx states canon results fee_of movements)"
  obtains (source) "rx_type (fnd_exception f) \<in> {EC_SOURCE_REPORT_MISSING, EC_SOURCE_REPORT_INVALID,
        EC_CONFLICTING_SOURCE_VERSION, EC_ORPHAN_PAYMENT, EC_CAPTURE_FOR_NON_PAYABLE_ORDER, EC_ORPHAN_REFUND,
        EC_REFUND_CURRENCY_MISMATCH, EC_EXCESS_REFUND, EC_UNEXPECTED_FEE, EC_DUPLICATE_SETTLEMENT_MOVEMENT,
        EC_PAYOUT_TOTAL_MISMATCH}"
    | (fees) p where "reports_complete states [RT_PAYMENTS, RT_FEES]" "p \<in> set (captured_payments (input_of canon))"
        "f \<in> set (payment_fee_findings cx (input_of canon) fee_of p)"
    | (orders) ord where "ord \<in> set (in_orders (input_of canon))"
        "f \<in> set (order_findings cx states (input_of canon) ord)"
    | (payouts) out m where "reports_complete states [RT_PAYMENTS, RT_REFUNDS, RT_FEES, RT_SETTLEMENT_LINES]"
        "out \<in> set (in_payouts (input_of canon))" "m \<in> set movements" "mov_available_on m = out_date out"
        "f \<in> set (movement_findings cx (input_of canon) out (group_by line_movement_key (lines_of (input_of canon) out)) m)"
proof -
  note f = assms[unfolded full_log_def order_log_def base_log_def, simplified set_append Un_iff]
  from f consider
      "f \<in> set (source_completeness_exceptions cx results)" | "f \<in> set (canonical_conflict_exceptions cx canon)"
    | "f \<in> set (orphan_rules cx states (input_of canon))" | "f \<in> set (refund_rules cx states (input_of canon))"
    | "f \<in> set (fee_rules cx states (input_of canon) fee_of)"
    | "f \<in> set (concat (map (order_findings cx states (input_of canon)) (in_orders (input_of canon))))"
    | "f \<in> set (settlement_rules cx states (input_of canon))"
    | "f \<in> set (concat (map (payout_findings cx states (input_of canon) movements) (in_payouts (input_of canon))))"
    by (auto simp del: set_concat)
  then show thesis
  proof cases
    case 5
    then show thesis
      by (auto simp: fee_rules_def split: if_splits dest: finding_types(7) intro: source fees)
  next
    case 6
    then show thesis by (auto simp del: input_members intro: orders)
  next
    case 8
    then show thesis
      by (auto simp del: input_members dest!: payout_finding_types intro: source payouts)
  qed (rule source; auto simp: orphan_rules_def refund_rules_def settlement_rules_def
      split: if_splits dest: finding_types)+
qed


definition unpaid_canon :: canonicalization_result where
  "unpaid_canon = \<lparr>canonical_records = [OrderRec sample_ord], evidence = [], conflicts = []\<rparr>"

lemma unpaid_split:
  "input_of unpaid_canon = \<lparr>in_orders = [sample_ord], in_payments = [], in_refunds = [], in_fees = [],
     in_lines = [], in_payouts = []\<rparr>"
  by code_simp

lemma unpaid_ok: "identities_distinct unpaid_canon" "canon_well_formed unpaid_canon"
  by (simp_all add: identities_distinct_def unpaid_canon_def canon_well_formed_def well_formed_defs sample_ord_def
      amount_in_range_def MAX_MONEY_CENTS_def EUR_def positive_amount_def)

lemma sample_results [simp]:
  "distinct (map result_type sample_complete)" "\<exists>r \<in> set sample_complete. result_type r = rt"
  by (simp add: sample_complete_def report_type_members_def sample_status_def)
    (cases rt; simp add: sample_complete_def report_type_members_def sample_status_def)


end
