(* ===== verification/Contract_Properties.thy ===== *)
theory Contract_Properties
  imports Contracts
begin

text \<open>
  Properties of the money rules and of the record parsers, with a concrete record that is accepted.
\<close>

text \<open>C32: Every amount of cents the contract admits is printed by format_money as a text that parse_money reads back as
  the same amount, and a text that parse_money accepts is the one format_money prints, except that -0.00 becomes 0.00.\<close>

theorem money_text_roundtrip:
  assumes "amount_in_range c"
  shows "(\<exists>t. format_money (eur c) = Inr t \<and> parse_money True (JStr t) = Inr (eur c))
    \<and> (\<forall>neg_ok t. parse_money neg_ok (JStr t) = Inr (eur c) \<and> t \<noteq> ''-0.00'' \<longrightarrow> format_money (eur c) = Inr t)"
proof -
  have r: "round_eur (eur c) = Inr (eur c)"
    using assms by (intro round_eur_eur) (simp add: amount_in_range_def)
  let ?t = "format_2f (Finite (c < 0) (nat \<bar>c\<bar>) (-2))"
  have "format_money (eur c) = Inr ?t"
    using r by (simp add: format_money_def eur_def)
  moreover have "parse_money True (JStr ?t) = Inr (eur c)"
    unfolding parse_money_Inr_iff using assms money_pattern_format[of "c < 0" "nat \<bar>c\<bar>"]
    by (auto simp: eur_def ZERO_EUR_def amount_in_range_def)
  moreover have "format_money (eur c) = Inr t"
    if p: "parse_money neg_ok (JStr t) = Inr (eur c)" and t: "t \<noteq> ''-0.00''" for neg_ok t
  proof -
    have m: "money_pattern t" using p by (simp add: parse_money_Inr_iff)
    note f = format_decimal_of_string[OF m]
    have "decimal_of_string t = eur c"
    proof (cases "dec_coef (decimal_of_string t) = 0")
      case True
      have "format_2f (Finite True 0 (-2)) = ''-0.00''" by code_simp
      with True have "dec_neg (decimal_of_string t) = False"
        using f t by (cases "decimal_of_string t") (auto simp: decimal_of_string_def)
      with True p show ?thesis by (simp add: parse_money_Inr_iff decimal_of_string_def ZERO_EUR_def)
    next
      case False
      with p show ?thesis by (simp add: parse_money_Inr_iff)
    qed
    with f r show ?thesis by (simp add: format_money_def)
  qed
  ultimately show ?thesis by blast
qed

theorem money_text_roundtrip_witness:
  "\<exists>t. format_money (eur (- 1250)) = Inr t \<and> parse_money True (JStr t) = Inr (eur (- 1250))"
  using money_text_roundtrip[of "- 1250"] by (simp add: amount_in_range_def MAX_MONEY_CENTS_def)

text \<open>Rounding a finer amount to the cent moves it by at most half a cent, a half cent goes away from zero, and the sign
  is kept; round_eur raises exactly when the rounded amount exceeds the supported maximum.\<close>

theorem round_eur_half_up:
  assumes "e < -2"
  shows "let p = 10 ^ nat (-2 - e); q = round_half_up c p in
    round_eur (Finite s c e) = (if q \<le> MAX_MONEY_CENTS then Inr (Finite s q (-2)) else Inl InvalidMoneyError)
    \<and> 2 * c < 2 * q * p + p \<and> 2 * q * p \<le> 2 * c + p"
proof -
  let ?q = "round_half_up c (10 ^ nat (-2 - e))"
  have "?q \<le> MAX_MONEY_CENTS \<Longrightarrow> ?q < 10 ^ 28" by (simp add: MAX_MONEY_CENTS_def)
  then have "round_eur (Finite s c e)
      = (if ?q \<le> MAX_MONEY_CENTS then Inr (Finite s ?q (-2)) else Inl InvalidMoneyError)"
    using assms by (auto simp: round_eur_def require_decimal_def quantize_cent_def require_supported_range_def Let_def)
  then show ?thesis
    using round_half_up_error[of "10 ^ nat (-2 - e)" c] by (simp add: Let_def)
qed

theorem round_eur_half_up_witness:
  "round_eur (Finite False 10005 (-3)) = Inr (Finite False 1001 (-2))
   \<and> round_eur (Finite True 10005 (-3)) = Inr (Finite True 1001 (-2))"
  using round_eur_half_up[of "-3" 10005 False] round_eur_half_up[of "-3" 10005 True]
  by (simp add: Let_def round_half_up_def MAX_MONEY_CENTS_def)

text \<open>The MockPay fee of a captured amount is the fixed part plus the rate, rounded half up to the cent, so it is within
  half a cent of the exact fee; any currency but EUR, any unknown method and any negative amount raise.\<close>

theorem fee_schedule:
  assumes "0 \<le> c" and "c \<le> int MAX_MONEY_CENTS"
  shows "calculate_fee (payment_method_value m) (eur c) EUR = Inr (eur (scheduled_fee m c))
    \<and> \<bar>1000 * scheduled_fee m c - (case m of PM_CARD \<Rightarrow> 20000 + 18 * c | PM_WALLET \<Rightarrow> 25000 + 20 * c)\<bar> \<le> 500
    \<and> (\<forall>cur v. cur \<noteq> EUR \<longrightarrow> calculate_fee (payment_method_value m) v cur = Inl UnsupportedCurrencyError)
    \<and> (\<forall>name v. name \<notin> range payment_method_value \<longrightarrow> calculate_fee name v EUR = Inl UnsupportedPaymentMethodError)
    \<and> (\<forall>d < 0. calculate_fee (payment_method_value m) (eur d) EUR = Inl InvalidMoneyError)"
proof (intro conjI allI impI)
  show "calculate_fee (payment_method_value m) (eur c) EUR = Inr (eur (scheduled_fee m c))"
    using assms by (rule calculate_fee_eur)
  have "\<bar>1000 * ((x + 500) div 1000) - x\<bar> \<le> 500" for x :: int
    using mult_div_mod_eq[of 1000 "x + 500"] pos_mod_bound[of 1000 "x + 500"] pos_mod_sign[of 1000 "x + 500"]
    by linarith
  from this[of "20000 + 18 * c"] this[of "25000 + 20 * c"]
  show "\<bar>1000 * scheduled_fee m c - (case m of PM_CARD \<Rightarrow> 20000 + 18 * c | PM_WALLET \<Rightarrow> 25000 + 20 * c)\<bar> \<le> 500"
    by (simp add: scheduled_fee_def split: payment_method.split)
next
  fix name :: string and v
  assume "name \<notin> range payment_method_value"
  then have "name \<noteq> payment_method_value PM_CARD" "name \<noteq> payment_method_value PM_WALLET" by blast+
  then show "calculate_fee name v EUR = Inl UnsupportedPaymentMethodError"
    by (simp add: calculate_fee_def FEE_RULES_def)
next
  fix d :: int assume "d < 0"
  then obtain n where n: "eur d = Finite True n (-2)" "0 < n" by (simp add: eur_def)
  have rng: "require_supported_range (eur d) \<in> {Inr (eur d), Inl InvalidMoneyError}"
    by (simp add: n(1) require_supported_range_def del: mag_gt_max)
  have "\<exists>rule. map_of FEE_RULES (payment_method_value m) = Some rule"
    by (cases m) (simp_all add: FEE_RULES_def)
  then obtain rule where "map_of FEE_RULES (payment_method_value m) = Some rule" ..
  then show "calculate_fee (payment_method_value m) (eur d) EUR = Inl InvalidMoneyError"
    using rng n(2) unfolding n(1) calculate_fee_def require_decimal_def
    by (elim insertE) (simp_all del: dec_add.simps dec_mult.simps)
qed (simp add: calculate_fee_def)

theorem fee_schedule_witness:
  "calculate_fee (payment_method_value PM_CARD) (eur 10000) EUR = Inr (eur 200)"
  using fee_schedule[of 10000 PM_CARD] by (simp add: scheduled_fee_def MAX_MONEY_CENTS_def)

text \<open>C31: A record that parse_source_record returns is of the requested entity type and satisfies the contract: canonical
  identifiers, euro currency, amounts in range with the sign the type prescribes, a positive source version, and an
  availability date exactly when the payment is captured or the refund succeeded.\<close>

theorem parsed_record_well_formed:
  assumes "parse_source_record fromiso et v = Inr r"
  shows "record_entity_type r = et \<and> well_formed r"
  using assms by (auto simp: parse_source_record_def result_simps split: entity_type.splits dest: parsers_well_formed)

lemma money_text_hundred:
  "money_pattern ''100.00''" "decimal_of_string ''100.00'' = Finite False 10000 (-2)"
proof -
  have "format_2f (Finite False 10000 (-2)) = ''100.00''"
    by code_simp
  then show "money_pattern ''100.00''" "decimal_of_string ''100.00'' = Finite False 10000 (-2)"
    using money_pattern_format[of False 10000] by simp_all
qed

definition sample_order_payload :: json where
  "sample_order_payload = JObj [(''order_id'', JStr ''o1''), (''created_at_utc'', JStr ''t''), (''status'', JStr ''PAID''),
     (''currency'', JStr ''EUR''), (''order_total'', JStr ''100.00''), (''source_version'', JInt 1)]"

theorem parsed_record_well_formed_witness:
  "\<exists>r. parse_source_record (\<lambda>_. Some (Aware 0)) ET_ORDER sample_order_payload = Inr r \<and> well_formed r
    \<and> record_entity_type r = ET_ORDER"
proof -
  have "money_pattern ''100.00''" "decimal_of_string ''100.00'' = Finite False 10000 (-2)"
    by (simp_all add: money_text_hundred)
  then have m: "parse_money False (JStr ''100.00'') = Inr (eur 10000)"
    by (simp add: parse_money_Inr_iff MAX_MONEY_CENTS_def eur_def)
  then have total: "parse_money_field (JStr ''100.00'') ''order_total'' True False = Inr 10000"
    by (simp add: parse_money_field_def)
  let ?p = "[(''order_id'', JStr ''o1''), (''created_at_utc'', JStr ''t''), (''status'', JStr ''PAID''),
     (''currency'', JStr ''EUR''), (''order_total'', JStr ''100.00''), (''source_version'', JInt 1)]"
  have "require_keys (JObj ?p) [''order_id'', ''created_at_utc'', ''status'', ''currency'', ''order_total'',
      ''source_version''] [] = Inr ?p"
    "parse_text (payload_get ?p ''order_id'') ''order_id'' = Inr ''o1''"
    "parse_timestamp (\<lambda>_. Some (Aware 0)) (payload_get ?p ''created_at_utc'') ''created_at_utc'' = Inr 0"
    "parse_enum order_status_value order_status_members (payload_get ?p ''status'') ''status'' = Inr OS_PAID"
    "parse_currency (payload_get ?p ''currency'') ''currency'' = Inr ''EUR''"
    "payload_get ?p ''order_total'' = JStr ''100.00''"
    "parse_positive_integer (payload_get ?p ''source_version'') ''source_version'' = Inr 1"
    by code_simp+
  then have "\<exists>r. parse_source_record (\<lambda>_. Some (Aware 0)) ET_ORDER sample_order_payload = Inr r"
    by (simp add: parse_source_record_def parse_order_def sample_order_payload_def total)
  then show ?thesis using parsed_record_well_formed by blast
qed

end
