(* ===== verification/Publication.thy ===== *)
theory Publication
  imports Reconcile
begin

text \<open>
  \<open>threadline/publication.py\<close>: serialisation of a result, the checks before it replaces the published
  one, and the two stores.  The two English texts of a result (\<open>reason\<close> of a report status,
  \<open>reason_detail\<close> of a quarantined record), which the other theories leave out, are the parameter
  \<open>texts\<close>; \<open>sha256(...).hexdigest()\<close> is the parameter \<open>sha\<close>.  A candidate of the wrong type and a
  timestamp without an offset cannot be written down here.  The before-commit hook is the error it
  raises, if it raises; the clock is the time it returns.
\<close>

subsection \<open>Serialisation\<close>

record result_texts =
  reason_of :: "source_report_status \<Rightarrow> string option"
  detail_of :: "quarantined_record \<Rightarrow> string"

definition text_json :: "string option \<Rightarrow> json" where
  "text_json s = (case s of None \<Rightarrow> JNull | Some t \<Rightarrow> JStr t)"

definition amount_json :: "int option \<Rightarrow> json" where
  "amount_json a = (case a of None \<Rightarrow> JNull | Some c \<Rightarrow> money_json c)"

definition codes_json :: "exception_code list \<Rightarrow> json" where
  "codes_json cs = JArr (map (\<lambda>c. JStr (exception_code_value c)) cs)"

definition transaction_json :: "transaction_row \<Rightarrow> json" where
  "transaction_json t = JObj
     [(''run_id'', JStr (tx_run_id t)),
      (''contract_version'', JStr (tx_contract_version t)),
      (''order_id'', JStr (tx_order_id t)),
      (''order_status'', JStr (order_status_value (tx_order_status t))),
      (''currency'', JStr (tx_currency t)),
      (''expected_collection'', money_json (tx_expected_collection t)),
      (''captured_total'', money_json (tx_captured_total t)),
      (''collection_variance'', money_json (tx_collection_variance t)),
      (''successful_refund_total'', money_json (tx_refund_total t)),
      (''expected_fee_total'', money_json (tx_expected_fee_total t)),
      (''reported_fee_total'', money_json (tx_reported_fee_total t)),
      (''lifetime_net_collection'', money_json (tx_lifetime_net t)),
      (''captured_payment_count'', JInt (int (tx_captured_count t))),
      (''successful_refund_count'', JInt (int (tx_refund_count t))),
      (''state'', JStr (reconciliation_state_value (tx_state t))),
      (''exception_codes'', codes_json (tx_codes t))]"

definition movement_json :: "expected_movement \<Rightarrow> json" where
  "movement_json m = JObj
     [(''movement_type'', JStr (movement_type_value (mov_type m))),
      (''movement_id'', JStr (mov_id m)),
      (''available_on'', date_json (Some (mov_available_on m))),
      (''signed_amount'', money_json (mov_signed_amount m)),
      (''supporting_source_record_ids'', JArr (map JStr (mov_support m)))]"

definition payout_json :: "payout_row \<Rightarrow> json" where
  "payout_json p = JObj
     [(''run_id'', JStr (po_run_id p)),
      (''contract_version'', JStr (po_contract_version p)),
      (''payout_id'', JStr (po_payout_id p)),
      (''payout_date'', date_json (Some (po_payout_date p))),
      (''currency'', JStr (po_currency p)),
      (''expected_payout'', money_json (po_expected p)),
      (''reported_line_total'', money_json (po_line_total p)),
      (''reported_net_amount'', money_json (po_reported_net p)),
      (''provider_report_variance'', money_json (po_provider_variance p)),
      (''end_to_end_payout_variance'', money_json (po_end_to_end_variance p)),
      (''expected_movement_count'', JInt (int (po_movement_count p))),
      (''settlement_line_count'', JInt (int (po_line_count p))),
      (''state'', JStr (reconciliation_state_value (po_state p))),
      (''exception_codes'', codes_json (po_codes p))]"

definition exception_json :: "recon_exception \<Rightarrow> json" where
  "exception_json x = JObj
     [(''run_id'', JStr (rx_run_id x)),
      (''contract_version'', JStr (rx_contract_version x)),
      (''rule_id'', JStr (rx_rule_id x)),
      (''exception_type'', JStr (exception_code_value (rx_type x))),
      (''entity_type'', JStr (rx_entity_type x)),
      (''entity_id'', JStr (rx_entity_id x)),
      (''expected_amount'', amount_json (rx_expected x)),
      (''actual_amount'', amount_json (rx_actual x)),
      (''variance'', amount_json (rx_variance x)),
      (''detected_at_utc'', JStr (iso_utc (rx_detected_at x))),
      (''status'', JStr (rx_status x)),
      (''supporting_source_record_ids'', JArr (map JStr (rx_support x)))]"

definition status_json :: "result_texts \<Rightarrow> source_report_status \<Rightarrow> json" where
  "status_json texts s = JObj
     [(''source_system'', JStr (source_system_value (srs_source_system s))),
      (''report_type'', JStr (report_type_value (srs_report_type s))),
      (''business_date'', date_json (Some (srs_business_date s))),
      (''state'', JStr (source_completeness_value (srs_state s))),
      (''batch_id'', text_json (srs_batch_id s)),
      (''reason'', text_json (reason_of texts s))]"

definition quarantine_json :: "result_texts \<Rightarrow> quarantined_record \<Rightarrow> json" where
  "quarantine_json texts q = JObj
     [(''entity_type'', JStr (qr_entity_type q)),
      (''source_id'', text_json (qr_source_id q)),
      (''reason_code'', JStr (qr_reason_code q)),
      (''reason_detail'', JStr (detail_of texts q)),
      (''raw_payload_json'', JStr (qr_raw_payload_json q))]"

definition result_to_dict :: "result_texts \<Rightarrow> recon_result \<Rightarrow> json" where
  "result_to_dict texts r = JObj
     [(''run_id'', JStr (rr_run_id r)),
      (''contract_version'', JStr (rr_contract_version r)),
      (''detected_at_utc'', JStr (iso_utc (rr_detected_at r))),
      (''transactions'', JArr (map transaction_json (rr_transactions r))),
      (''expected_movements'', JArr (map movement_json (rr_movements r))),
      (''payouts'', JArr (map payout_json (rr_payouts r))),
      (''exceptions'', JArr (map exception_json (rr_exceptions r))),
      (''source_completeness'', JArr (map (status_json texts) (rr_completeness r))),
      (''quarantine_records'', JArr (map (quarantine_json texts) (rr_quarantine r)))]"

definition result_to_json :: "result_texts \<Rightarrow> recon_result \<Rightarrow> bool \<Rightarrow> string" where
  "result_to_json texts r pretty =
     (if pretty then json_pretty 0 (result_to_dict texts r) @ [char_of (10 :: nat)]
      else json_dumps (result_to_dict texts r))"

subsection \<open>Validation\<close>

datatype publication_error =
    RunIdInvalid
  | ContractVersionUnsupported
  | DuplicateKeys string
  | TransactionInvalid string string
  | PayoutInvalid string string
  | ExceptionInvalid string string
  | HookFailed string
  | ClockNaive
  | StorageFailed

definition require_unique :: "'a list \<Rightarrow> string \<Rightarrow> publication_error + unit" where
  "require_unique vs description = require (distinct vs) (DuplicateKeys description)"

definition check_transaction :: "string \<Rightarrow> transaction_row \<Rightarrow> publication_error + unit" where
  "check_transaction rid t =
     bind_result (require (tx_run_id t = rid) (TransactionInvalid (tx_order_id t) ''run_id'')) (\<lambda>_.
     bind_result (require (tx_contract_version t = CONTRACT_VERSION)
       (TransactionInvalid (tx_order_id t) ''contract_version'')) (\<lambda>_.
     bind_result (require (tx_collection_variance t = tx_captured_total t - tx_expected_collection t)
       (TransactionInvalid (tx_order_id t) ''collection_variance'')) (\<lambda>_.
     bind_result (require (tx_lifetime_net t = tx_captured_total t - tx_refund_total t - tx_expected_fee_total t)
       (TransactionInvalid (tx_order_id t) ''lifetime_net_collection'')) (\<lambda>_.
       require (\<not> (tx_state t = RS_RECONCILED \<and> tx_codes t \<noteq> []))
         (TransactionInvalid (tx_order_id t) ''exception_codes'')))))"

definition check_payout :: "string \<Rightarrow> payout_row \<Rightarrow> publication_error + unit" where
  "check_payout rid p =
     bind_result (require (po_run_id p = rid) (PayoutInvalid (po_payout_id p) ''run_id'')) (\<lambda>_.
     bind_result (require (po_provider_variance p = po_reported_net p - po_line_total p)
       (PayoutInvalid (po_payout_id p) ''provider_report_variance'')) (\<lambda>_.
     bind_result (require (po_end_to_end_variance p = po_reported_net p - po_expected p)
       (PayoutInvalid (po_payout_id p) ''end_to_end_payout_variance'')) (\<lambda>_.
       require (\<not> (po_state p = RS_RECONCILED
           \<and> (po_codes p \<noteq> [] \<or> po_provider_variance p \<noteq> 0 \<or> po_end_to_end_variance p \<noteq> 0)))
         (PayoutInvalid (po_payout_id p) ''unresolved variance''))))"

definition check_exception :: "string \<Rightarrow> recon_exception \<Rightarrow> publication_error + unit" where
  "check_exception rid x =
     bind_result (require (rx_run_id x = rid) (ExceptionInvalid (rx_entity_id x) ''run_id'')) (\<lambda>_.
       (case (rx_expected x, rx_actual x) of
          (Some e, Some a) \<Rightarrow>
            require (rx_variance x = Some (a - e)) (ExceptionInvalid (rx_rule_id x) ''variance'')
        | _ \<Rightarrow> require (rx_variance x = None) (ExceptionInvalid (rx_rule_id x) ''variance'')))"

definition status_key :: "source_report_status \<Rightarrow> source_system \<times> report_type \<times> date" where
  "status_key s = (srs_source_system s, srs_report_type s, srs_business_date s)"

definition validate_for_publication :: "recon_result \<Rightarrow> publication_error + unit" where
  "validate_for_publication r =
     bind_result (require (canonical_text (rr_run_id r)) RunIdInvalid) (\<lambda>_.
     bind_result (require (rr_contract_version r = CONTRACT_VERSION) ContractVersionUnsupported) (\<lambda>_.
     bind_result (require_unique (map tx_order_id (rr_transactions r)) ''transaction order IDs'') (\<lambda>_.
     bind_result (require_unique (map po_payout_id (rr_payouts r)) ''payout IDs'') (\<lambda>_.
     bind_result (require_unique (map movement_key (rr_movements r)) ''expected movement keys'') (\<lambda>_.
     bind_result (require_unique (map exception_key (rr_exceptions r)) ''exception rule/entity keys'') (\<lambda>_.
     bind_result (require_unique (map status_key (rr_completeness r)) ''source-completeness keys'') (\<lambda>_.
     bind_result (map_result (check_transaction (rr_run_id r)) (rr_transactions r)) (\<lambda>_.
     bind_result (map_result (check_payout (rr_run_id r)) (rr_payouts r)) (\<lambda>_.
     bind_result (map_result (check_exception (rr_run_id r)) (rr_exceptions r)) (\<lambda>_.
       Inr ()))))))))))"

subsection \<open>The stores\<close>

record publication_receipt =
  pr_run_id :: string
  pr_destination :: string
  pr_payload_sha256 :: string
  pr_byte_count :: nat
  pr_published_at_utc :: instant

definition ensure_clock_utc :: "pydatetime \<Rightarrow> publication_error + instant" where
  "ensure_clock_utc t = (case t of Naive _ \<Rightarrow> Inl ClockNaive | Aware i \<Rightarrow> Inr i)"

text \<open>\<open>str.encode("utf-8")\<close>; a byte is written as the character with its code.\<close>

definition utf8_char :: "char \<Rightarrow> string" where
  "utf8_char c = (let n = (of_char c :: nat) in
     if n < 128 then [c] else [char_of (192 + n div 64), char_of (128 + n mod 64)])"

definition utf8 :: "string \<Rightarrow> string" where
  "utf8 s = concat (map utf8_char s)"

definition make_receipt ::
  "(string \<Rightarrow> string) \<Rightarrow> recon_result \<Rightarrow> string \<Rightarrow> string \<Rightarrow> pydatetime
     \<Rightarrow> publication_error + publication_receipt" where
  "make_receipt sha r destination content clock =
     bind_result (ensure_clock_utc clock) (\<lambda>now.
       Inr \<lparr>pr_run_id = rr_run_id r, pr_destination = destination,
            pr_payload_sha256 = sha content, pr_byte_count = length content,
            pr_published_at_utc = now\<rparr>)"

record memory_store =
  current :: "recon_result option"

definition memory_publish ::
  "(string \<Rightarrow> string) \<Rightarrow> result_texts \<Rightarrow> recon_result \<Rightarrow> string option \<Rightarrow> pydatetime \<Rightarrow> memory_store
     \<Rightarrow> (publication_error + publication_receipt) \<times> memory_store" where
  "memory_publish sha texts candidate hook clock s =
     (case validate_for_publication candidate of
        Inl e \<Rightarrow> (Inl e, s)
      | Inr _ \<Rightarrow>
          (let content = utf8 (result_to_json texts candidate False)
           in case hook of
                Some e \<Rightarrow> (Inl (HookFailed e), s)
              | None \<Rightarrow> (make_receipt sha candidate ''memory'' content clock,
                         s\<lparr>current := Some candidate\<rparr>)))"

text \<open>
  The directory of the target is a map from file names to their bytes.  A fault is the system call
  that raises: the write of the temporary file after some bytes, the rename, or the sync of the
  directory entry.  The temporary path is only remembered once its file is closed, so a failed write
  leaves the temporary file behind; every later failure before the rename removes it.
\<close>

type_synonym directory = "string \<rightharpoonup> string"

datatype fault = NoFault | WriteFault nat | RenameFault | DirectorySyncFault

definition file_publish ::
  "(string \<Rightarrow> string) \<Rightarrow> result_texts \<Rightarrow> string \<Rightarrow> string \<Rightarrow> recon_result \<Rightarrow> string option \<Rightarrow> fault
     \<Rightarrow> pydatetime \<Rightarrow> directory \<Rightarrow> (publication_error + publication_receipt) \<times> directory" where
  "file_publish sha texts target temporary candidate hook fault clock fs =
     (case validate_for_publication candidate of
        Inl e \<Rightarrow> (Inl e, fs)
      | Inr _ \<Rightarrow>
          (let content = utf8 (result_to_json texts candidate True);
               written = fs(temporary \<mapsto> content);
               removed = written(temporary := None);
               replaced = removed(target \<mapsto> content)
           in case (fault, hook) of
                (WriteFault n, _) \<Rightarrow> (Inl StorageFailed, fs(temporary \<mapsto> take n content))
              | (_, Some e) \<Rightarrow> (Inl (HookFailed e), removed)
              | (RenameFault, None) \<Rightarrow> (Inl StorageFailed, removed)
              | (DirectorySyncFault, None) \<Rightarrow> (Inl StorageFailed, replaced)
              | (NoFault, None) \<Rightarrow> (make_receipt sha candidate target content clock, replaced)))"

text \<open>
  The same publication step by step, so that a crash between two system calls is a state of its own:
  the temporary file is opened, grows byte by byte, is closed, the hook runs, the file is renamed over
  the target, and the directory entry is synced.  The failing steps are those of \<open>file_publish\<close>.
\<close>

datatype publish_pc =
    Prepared | Writing nat | Closed | Committing | Renamed | Published | Aborted

inductive publish_step ::
  "string \<Rightarrow> string \<Rightarrow> string \<Rightarrow> publish_pc \<times> directory \<Rightarrow> publish_pc \<times> directory \<Rightarrow> bool"
  for target temporary content where
  create: "publish_step target temporary content (Prepared, fs) (Writing 0, fs(temporary \<mapsto> []))"
| append_byte: "n < length content \<Longrightarrow>
    publish_step target temporary content (Writing n, fs)
      (Writing (Suc n), fs(temporary \<mapsto> take (Suc n) content))"
| write_fault: "publish_step target temporary content (Writing n, fs) (Aborted, fs)"
| close: "publish_step target temporary content (Writing (length content), fs) (Closed, fs)"
| hook_ok: "publish_step target temporary content (Closed, fs) (Committing, fs)"
| hook_raises: "publish_step target temporary content (Closed, fs) (Aborted, fs(temporary := None))"
| rename: "fs temporary = Some written \<Longrightarrow>
    publish_step target temporary content (Committing, fs)
      (Renamed, (fs(temporary := None))(target \<mapsto> written))"
| rename_fault: "publish_step target temporary content (Committing, fs) (Aborted, fs(temporary := None))"
| sync: "publish_step target temporary content (Renamed, fs) (Published, fs)"
| sync_fault: "publish_step target temporary content (Renamed, fs) (Aborted, fs)"

inductive_cases publish_stepE: "publish_step target temporary content s s'"

text \<open>\<open>json.load\<close> is the parameter \<open>load\<close>; a value that is no object raises.\<close>

datatype read_error = NotAnObject

definition read_current :: "(string \<Rightarrow> json) \<Rightarrow> string \<Rightarrow> directory \<Rightarrow> read_error + json option" where
  "read_current load target fs =
     (case fs target of
        None \<Rightarrow> Inr None
      | Some content \<Rightarrow> (case load content of JObj kvs \<Rightarrow> Inr (Some (JObj kvs)) | _ \<Rightarrow> Inl NotAnObject))"

end
