(* ===== verification/Publication_Properties.thy ===== *)
theory Publication_Properties
  imports Reconcile_Properties Publication
begin

text \<open>
  What validation accepts, that every result of a run is accepted (and the one case in which it is not), and
  that both stores replace the published result as a whole or not at all.
\<close>

subsection \<open>What validation accepts\<close>

lemma map_result_unit_iff:
  "(\<exists>ys. map_result f xs = Inr ys) \<longleftrightarrow> (\<forall>x \<in> set xs. \<exists>y. f x = Inr y)"
  by (meson map_result_InrD map_result_total)

lemma check_transaction_iff:
  "(\<exists>u. check_transaction rid t = Inr u) \<longleftrightarrow>
    tx_run_id t = rid \<and> tx_contract_version t = CONTRACT_VERSION
    \<and> tx_collection_variance t = tx_captured_total t - tx_expected_collection t
    \<and> tx_lifetime_net t = tx_captured_total t - tx_refund_total t - tx_expected_fee_total t
    \<and> (tx_state t = RS_RECONCILED \<longrightarrow> tx_codes t = [])"
  by (auto simp: check_transaction_def bind_result_Inr)

lemma check_payout_iff:
  "(\<exists>u. check_payout rid p = Inr u) \<longleftrightarrow>
    po_run_id p = rid
    \<and> po_provider_variance p = po_reported_net p - po_line_total p
    \<and> po_end_to_end_variance p = po_reported_net p - po_expected p
    \<and> (po_state p = RS_RECONCILED \<longrightarrow> po_codes p = [] \<and> po_provider_variance p = 0 \<and> po_end_to_end_variance p = 0)"
  by (auto simp: check_payout_def bind_result_Inr)

lemma check_exception_iff:
  "(\<exists>u. check_exception rid x = Inr u) \<longleftrightarrow>
    rx_run_id x = rid
    \<and> rx_variance x = (case (rx_expected x, rx_actual x) of (Some e, Some a) \<Rightarrow> Some (a - e) | _ \<Rightarrow> None)"
  by (auto simp: check_exception_def bind_result_Inr split: option.splits)

definition publishable :: "recon_result \<Rightarrow> bool" where
  "publishable r =
     (canonical_text (rr_run_id r) \<and> rr_contract_version r = CONTRACT_VERSION
      \<and> distinct (map tx_order_id (rr_transactions r)) \<and> distinct (map po_payout_id (rr_payouts r))
      \<and> distinct (map movement_key (rr_movements r)) \<and> distinct (map exception_key (rr_exceptions r))
      \<and> distinct (map status_key (rr_completeness r))
      \<and> (\<forall>t \<in> set (rr_transactions r). \<exists>u. check_transaction (rr_run_id r) t = Inr u)
      \<and> (\<forall>p \<in> set (rr_payouts r). \<exists>u. check_payout (rr_run_id r) p = Inr u)
      \<and> (\<forall>x \<in> set (rr_exceptions r). \<exists>u. check_exception (rr_run_id r) x = Inr u))"

lemma validate_iff: "validate_for_publication r = Inr () \<longleftrightarrow> publishable r"
  unfolding publishable_def map_result_unit_iff[symmetric]
  by (simp add: validate_for_publication_def bind_result_Inr require_unique_def)

lemma validate_Inr: "validate_for_publication r = Inr u \<longleftrightarrow> publishable r"
  using validate_iff[of r] by simp

subsection \<open>The movements of a run\<close>

text \<open>No reported fee carries the identifier the code makes up for a capture without exactly one fee.\<close>

definition no_synthetic_fee :: "canonicalization_result \<Rightarrow> bool" where
  "no_synthetic_fee canon =
     (\<forall>f p. FeeRec f \<in> set (canonical_records canon) \<longrightarrow> PaymentRec p \<in> set (canonical_records canon) \<longrightarrow>
        fee_id f \<noteq> ''expected-fee:'' @ pay_id p)"

definition fee_movement_of :: "recon_input \<Rightarrow> payment \<Rightarrow> string" where
  "fee_movement_of inp p =
     (case filter (\<lambda>f. fee_payment_id f = pay_id p) (in_fees inp) of
        [f] \<Rightarrow> fee_id f | _ \<Rightarrow> ''expected-fee:'' @ pay_id p)"

lemma payment_movement_keys:
  assumes "payment_movements inp fee_of p = Inr ms"
  shows "map movement_key ms = [(MT_CAPTURE, pay_id p), (MT_FEE, fee_movement_of inp p)]"
proof -
  have "dict_get (fees_by_payment inp) (pay_id p) [] = filter (\<lambda>f. fee_payment_id f = pay_id p) (in_fees inp)"
    by (simp add: fees_by_payment_def)
  with assms show ?thesis
    by (auto simp: payment_movements_def movement_key_def fee_movement_of_def Let_def length_Suc_conv
        split: option.splits list.splits if_splits)
qed

lemma fee_movement_inj:
  assumes "no_synthetic_fee canon" and "identities_distinct canon"
    and "p \<in> set (captured_payments (input_of canon))" and "q \<in> set (captured_payments (input_of canon))"
    and "fee_movement_of (input_of canon) p = fee_movement_of (input_of canon) q"
  shows "pay_id p = pay_id q"
proof -
  let ?F = "\<lambda>p. filter (\<lambda>f. fee_payment_id f = pay_id p) (in_fees (input_of canon))"
  have shape: "(\<exists>f \<in> set (in_fees (input_of canon)). fee_payment_id f = pay_id r
        \<and> fee_movement_of (input_of canon) r = fee_id f)
      \<or> fee_movement_of (input_of canon) r = ''expected-fee:'' @ pay_id r" for r
  proof (cases "?F r")
    case (Cons f fs)
    have "f \<in> set (?F r)" unfolding Cons by simp
    then have f: "f \<in> set (in_fees (input_of canon))" "fee_payment_id f = pay_id r"
      by (simp_all only: set_filter mem_Collect_eq)
    show ?thesis
    proof (cases fs)
      case Nil
      then have "fee_movement_of (input_of canon) r = fee_id f" using Cons by (simp add: fee_movement_of_def)
      with f show ?thesis by blast
    qed (use Cons in \<open>simp add: fee_movement_of_def\<close>)
  qed (simp add: fee_movement_of_def)
  have syn: "fee_id f \<noteq> ''expected-fee:'' @ pay_id r"
    if "f \<in> set (in_fees (input_of canon))" "r \<in> set (captured_payments (input_of canon))" for f r
    using assms(1) that by (auto simp: no_synthetic_fee_def captured_payments_def)
  have inj: "f = g" if "f \<in> set (in_fees (input_of canon))" "g \<in> set (in_fees (input_of canon))" "fee_id f = fee_id g" for f g
    using input_distinct(4)[OF assms(2)] that by (auto simp: distinct_map inj_on_def)
  consider (fees) f g where "f \<in> set (in_fees (input_of canon))" "fee_payment_id f = pay_id p"
        "g \<in> set (in_fees (input_of canon))" "fee_payment_id g = pay_id q" "fee_id f = fee_id g"
    | (left) f where "f \<in> set (in_fees (input_of canon))" "fee_id f = ''expected-fee:'' @ pay_id q"
    | (right) g where "g \<in> set (in_fees (input_of canon))" "fee_id g = ''expected-fee:'' @ pay_id p"
    | (none) "''expected-fee:'' @ pay_id p = ''expected-fee:'' @ pay_id q"
    using shape[of p] shape[of q] unfolding assms(5) by metis
  then show ?thesis
  proof cases
    case fees
    with inj[OF fees(1,3,5)] fees(2,4) show ?thesis by simp
  next
    case left
    with syn[OF left(1) assms(4)] show ?thesis by blast
  next
    case right
    with syn[OF right(1) assms(3)] show ?thesis by blast
  qed simp
qed

lemma payment_movements_keys:
  assumes "map_result (payment_movements inp fee_of) ps = Inr mss"
  shows "set (map movement_key (concat mss))
      = (\<lambda>p. (MT_CAPTURE, pay_id p)) ` set ps \<union> (\<lambda>p. (MT_FEE, fee_movement_of inp p)) ` set ps
    \<and> (distinct (map pay_id ps) \<and> inj_on (fee_movement_of inp) (set ps) \<longrightarrow> distinct (map movement_key (concat mss)))"
  using assms
proof (induction ps arbitrary: mss)
  case (Cons p ps)
  then obtain ms mss' where m: "payment_movements inp fee_of p = Inr ms"
    "map_result (payment_movements inp fee_of) ps = Inr mss'" "mss = ms # mss'"
    by (auto simp: bind_result_Inr)
  have keys: "map movement_key (concat mss)
      = (MT_CAPTURE, pay_id p) # (MT_FEE, fee_movement_of inp p) # map movement_key (concat mss')"
    using payment_movement_keys[OF m(1)] by (simp add: m(3))
  note IH = Cons.IH[OF m(2)]
  show ?case
    unfolding keys set_simps distinct.simps using IH by (auto simp: inj_on_def image_iff)
qed simp

lemma refund_movements_keys:
  "map_result refund_movement rs = Inr ms \<Longrightarrow> map movement_key ms = map (\<lambda>r. (MT_REFUND, ref_id r)) rs"
proof (induction rs arbitrary: ms)
  case (Cons r rs)
  then obtain m ms' where "refund_movement r = Inr m" "map_result refund_movement rs = Inr ms'" "ms = m # ms'"
    by (auto simp: bind_result_Inr)
  with Cons.IH[of ms'] show ?case by (auto simp: refund_movement_Inr movement_key_def)
qed simp

lemma movement_keys_distinct:
  assumes "expected_movements (input_of canon) fee_of = Inr ms" and "identities_distinct canon"
    and "no_synthetic_fee canon"
  shows "distinct (map movement_key ms)"
  using assms(1)
proof (rule expected_movements_mset)
  fix ps rs
  assume ps: "map_result (payment_movements (input_of canon) fee_of) (captured_payments (input_of canon)) = Inr ps"
    and rs: "map_result refund_movement (successful_refunds (input_of canon)) = Inr rs" and ms: "mset ms = mset (concat ps @ rs)"
  have "distinct (map pay_id (captured_payments (input_of canon)))"
    using input_distinct(2)[OF assms(2)] by (simp add: captured_payments_def distinct_map_filter)
  moreover have "inj_on (fee_movement_of (input_of canon)) (set (captured_payments (input_of canon)))"
  proof (rule inj_onI)
    fix p q
    assume pq: "p \<in> set (captured_payments (input_of canon))" "q \<in> set (captured_payments (input_of canon))"
      "fee_movement_of (input_of canon) p = fee_movement_of (input_of canon) q"
    have "pay_id p = pay_id q" using fee_movement_inj[OF assms(3,2) pq] .
    with calculation pq(1,2) show "p = q" by (simp only: distinct_map inj_on_def)
  qed
  ultimately have cap: "distinct (map movement_key (concat ps))"
    "set (map movement_key (concat ps)) \<subseteq> {(t, i). t \<noteq> MT_REFUND}"
    using payment_movements_keys[OF ps] by auto
  have "distinct (map ref_id (successful_refunds (input_of canon)))"
    using input_distinct(3)[OF assms(2)] by (simp add: successful_refunds_def distinct_map_filter)
  then have "distinct (map movement_key rs)"
    unfolding refund_movements_keys[OF rs] by (auto simp: distinct_map inj_on_def)
  moreover have "set (map movement_key rs) \<subseteq> {(t, i). t = MT_REFUND}"
    unfolding refund_movements_keys[OF rs] by auto
  ultimately have "distinct (map movement_key (concat ps @ rs))"
    using cap by auto
  moreover have "mset (map movement_key ms) = mset (map movement_key (concat ps @ rs))"
    using ms by (simp only: mset_map)
  ultimately show ?thesis by (metis mset_eq_imp_distinct_iff)
qed

subsection \<open>The rows of a run pass the checks\<close>

lemma transaction_row_checked:
  assumes "build_report_state_map rs = Inr states" and "run_id cx = rid"
  shows "\<exists>u. check_transaction rid (transaction_row_of cx states inp fee_of log ord) = Inr u"
  unfolding check_transaction_iff
  using result_state_reconciled[OF assms(1), of TRANSACTION_REQUIRED_REPORTS]
  by (simp add: transaction_row_of_def Let_def assms(2))

lemma payout_row_checked:
  assumes "build_report_state_map rs = Inr states" and "run_id cx = rid"
    and "log = order_log cx states canon results fee_of @ settlement_rules cx states inp
      @ payout_findings cx states inp movements out"
  shows "\<exists>u. check_payout rid (payout_row_of cx states inp movements log out) = Inr u"
proof -
  let ?row = "payout_row_of cx states inp movements log out"
  have fields: "po_run_id ?row = rid" "po_provider_variance ?row = po_reported_net ?row - po_line_total ?row"
    "po_end_to_end_variance ?row = po_reported_net ?row - po_expected ?row"
    "po_codes ?row = payout_codes log (out_id out)" "po_expected ?row = expected_payout movements out"
    "po_reported_net ?row = out_reported_net_amount out" "po_line_total ?row = reported_line_total inp out"
    "po_state ?row = result_state states PAYOUT_REQUIRED_REPORTS
       (po_codes ?row \<noteq> [] \<or> po_end_to_end_variance ?row \<noteq> 0)"
    by (simp_all add: payout_row_of_def Let_def assms(2) del: payout_codes_empty)
  have "po_codes ?row = [] \<and> po_provider_variance ?row = 0 \<and> po_end_to_end_variance ?row = 0"
    if "po_state ?row = RS_RECONCILED"
  proof -
    have r: "required_complete rs PAYOUT_REQUIRED_REPORTS" "po_codes ?row = []" "po_end_to_end_variance ?row = 0"
      using that unfolding fields(8) result_state_reconciled[OF assms(1)] by blast+
    have "reports_complete states [RT_PAYMENTS, RT_REFUNDS, RT_FEES, RT_SETTLEMENT_LINES]"
      "reports_complete states [RT_SETTLEMENT_LINES, RT_PAYOUTS]"
      using required_complete_subset[OF r(1)]
      by (simp_all add: reports_complete_iff[OF assms(1)] PAYOUT_REQUIRED_REPORTS_def)
    note clean = payout_codes_clean[OF this, of cx canon results fee_of inp movements out, folded assms(3)]
    have "payout_codes log (out_id out) = []" using r(2) unfolding fields(4) .
    moreover have "out_reported_net_amount out - expected_payout movements out = 0"
      using r(3) unfolding fields(3,5,6) .
    ultimately have "payout_clean inp movements out" using clean by blast
    then have "out_reported_net_amount out = reported_line_total inp out"
      by (simp add: payout_clean_def Let_def reported_line_total_def)
    then have "po_provider_variance ?row = 0" unfolding fields by simp
    with r show ?thesis by blast
  qed
  then show ?thesis unfolding check_payout_iff using fields(1-3) by blast
qed

lemma run_header:
  assumes "reconcile rid detected canon results quarantine = Inr res"
  shows "canonical_text rid \<and> rr_run_id res = rid \<and> rr_contract_version res = CONTRACT_VERSION
    \<and> rr_completeness res = map cr_status (sort_key completeness_sort_key results)
    \<and> distinct (map result_type results)"
  using assms
proof (rule reconcile_InrE)
  fix t states fee_of movements
  assume a: "canonical_text rid" "build_report_state_map (sort_key completeness_sort_key results) = Inr states"
    and res: "res = \<lparr>rr_run_id = rid, rr_contract_version = CONTRACT_VERSION, rr_detected_at = t,
       rr_transactions = sort_key tx_order_id
         (snd (reconcile_orders \<lparr>run_id = rid, detected_at_utc = t\<rparr> states (input_of canon) fee_of
           (base_log \<lparr>run_id = rid, detected_at_utc = t\<rparr> states canon
             (sort_key completeness_sort_key results) fee_of) (in_orders (input_of canon)))),
       rr_movements = movements,
       rr_payouts = sort_key payout_row_sort_key
         (snd (reconcile_payouts \<lparr>run_id = rid, detected_at_utc = t\<rparr> states (input_of canon) movements
           (order_log \<lparr>run_id = rid, detected_at_utc = t\<rparr> states canon
             (sort_key completeness_sort_key results) fee_of
             @ settlement_rules \<lparr>run_id = rid, detected_at_utc = t\<rparr> states (input_of canon))
           (in_payouts (input_of canon)))),
       rr_exceptions = sort_key exception_sort_key (unique_exceptions (map fnd_exception
         (full_log \<lparr>run_id = rid, detected_at_utc = t\<rparr> states canon
           (sort_key completeness_sort_key results) fee_of movements))),
       rr_completeness = map cr_status (sort_key completeness_sort_key results),
       rr_quarantine = sort_key quarantined_sort_key quarantine\<rparr>"
  have "distinct (map result_type results)"
    using build_states(1)[OF a(2)] unfolding distinct_map_sort_key .
  with a(1) show ?thesis unfolding res recon_result.simps by blast
qed

lemma run_publishable:
  assumes "reconcile rid detected canon results quarantine = Inr res" and "identities_distinct canon"
    and "no_synthetic_fee canon"
  shows "publishable res"
  using assms(1,2)
proof (rule reconcile_rowsE)
  fix cx states fee_of
  assume cx: "run_id cx = rid"
    and states: "build_report_state_map (sort_key completeness_sort_key results) = Inr states"
    and movements: "expected_movements (input_of canon) fee_of = Inr (rr_movements res)"
    and txs: "rr_transactions res = sort_key tx_order_id (map (\<lambda>ord. transaction_row_of cx states (input_of canon) fee_of
        (base_log cx states canon (sort_key completeness_sort_key results) fee_of
          @ order_findings cx states (input_of canon) ord) ord) (in_orders (input_of canon)))"
    and pos: "rr_payouts res = sort_key payout_row_sort_key (map (\<lambda>out. payout_row_of cx states (input_of canon) (rr_movements res)
        (order_log cx states canon (sort_key completeness_sort_key results) fee_of
          @ settlement_rules cx states (input_of canon)
          @ payout_findings cx states (input_of canon) (rr_movements res) out) out) (in_payouts (input_of canon)))"
  have h: "canonical_text rid" "rr_run_id res = rid" "rr_contract_version res = CONTRACT_VERSION"
    "rr_completeness res = map cr_status (sort_key completeness_sort_key results)" "distinct (map result_type results)"
    using run_header[OF assms(1)] by blast+
  have "distinct (map (\<lambda>r. status_key (cr_status r)) (sort_key completeness_sort_key results))"
    using h(5) by (auto simp: distinct_map_sort_key distinct_map inj_on_def status_key_def)
  then have status: "distinct (map status_key (rr_completeness res))" by (simp add: h(4) comp_def)
  have tx_ids: "distinct (map tx_order_id (rr_transactions res))"
    using run_transaction_rows[OF assms(1,2)] input_distinct(1)[OF assms(2)] by simp
  have po_ids: "distinct (map po_payout_id (rr_payouts res))"
    using input_distinct(6)[OF assms(2)]
    by (simp add: pos distinct_map_sort_key comp_def payout_row_of_def Let_def)
  have exc: "distinct (map exception_key (rr_exceptions res))"
    "\<forall>x \<in> set (rr_exceptions res). \<exists>u. check_exception rid x = Inr u"
    using run_exceptions_audited[OF assms(1,2)] unfolding check_exception_iff by blast+
  have "\<forall>t \<in> set (rr_transactions res). \<exists>u. check_transaction rid t = Inr u"
    using transaction_row_checked[OF states cx] unfolding txs by (auto simp del: input_members)
  moreover have "\<forall>p \<in> set (rr_payouts res). \<exists>u. check_payout rid p = Inr u"
    using payout_row_checked[OF states cx refl] unfolding pos by (auto simp del: input_members)
  ultimately show ?thesis
    unfolding publishable_def h(2,3)
    using h(1) status tx_ids po_ids exc movement_keys_distinct[OF movements assms(2,3)] by blast
qed

subsection \<open>The file store, step by step\<close>

text \<open>What a reader of the directory can see while a publication runs or after it stopped.\<close>

definition directory_safe :: "string \<Rightarrow> string \<Rightarrow> string \<Rightarrow> directory \<Rightarrow> publish_pc \<times> directory \<Rightarrow> bool" where
  "directory_safe target temporary content before s =
     ((\<forall>name. name \<noteq> target \<longrightarrow> name \<noteq> temporary \<longrightarrow> snd s name = before name)
      \<and> snd s target \<in> {before target, Some content}
      \<and> (case fst s of
           Prepared \<Rightarrow> snd s = before
         | Writing n \<Rightarrow> snd s temporary = Some (take n content) \<and> snd s target = before target
         | Closed \<Rightarrow> snd s temporary = Some content \<and> snd s target = before target
         | Committing \<Rightarrow> snd s temporary = Some content \<and> snd s target = before target
         | Renamed \<Rightarrow> snd s temporary = None \<and> snd s target = Some content
         | Published \<Rightarrow> snd s temporary = None \<and> snd s target = Some content
         | Aborted \<Rightarrow> True))"

lemma directory_safe_step:
  assumes "temporary \<noteq> target" and "publish_step target temporary content s s'"
    and "directory_safe target temporary content before s"
  shows "directory_safe target temporary content before s'"
  using assms(2,1,3) by cases (auto simp: directory_safe_def)

lemma directory_safe_reachable:
  assumes "temporary \<noteq> target" and "(publish_step target temporary content)\<^sup>*\<^sup>* (Prepared, before) s"
  shows "directory_safe target temporary content before s"
  using assms(2)
proof (induction rule: rtranclp_induct)
  case base
  then show ?case by (simp add: directory_safe_def)
next
  case (step s s')
  then show ?case using directory_safe_step[OF assms(1)] by blast
qed

text \<open>The outcome of \<open>file_publish\<close> is one of the runs of the machine.\<close>

lemma writing_reachable:
  assumes "n \<le> length content"
  shows "(publish_step target temporary content)\<^sup>*\<^sup>* (Prepared, fs) (Writing n, fs(temporary \<mapsto> take n content))"
  using assms
proof (induction n)
  case 0
  show ?case unfolding take_0 by (intro r_into_rtranclp publish_step.create)
next
  case (Suc n)
  then have "publish_step target temporary content (Writing n, fs(temporary \<mapsto> take n content))
      (Writing (Suc n), fs(temporary \<mapsto> take (Suc n) content))"
    using publish_step.append_byte[of n content target temporary "fs(temporary \<mapsto> take n content)"] by simp
  with Suc show ?case by (meson Suc_leD rtranclp.rtrancl_into_rtrancl)
qed

lemma closed_reachable:
  "(publish_step target temporary content)\<^sup>*\<^sup>* (Prepared, fs) (Closed, fs(temporary \<mapsto> content))"
  using writing_reachable[OF order_refl, of target temporary content fs]
    publish_step.close[of target temporary content "fs(temporary \<mapsto> content)"]
  by (simp add: rtranclp.rtrancl_into_rtrancl)

lemma renamed_reachable:
  "(publish_step target temporary content)\<^sup>*\<^sup>* (Prepared, fs)
    (Renamed, (fs(temporary := None))(target \<mapsto> content))"
proof -
  have "publish_step target temporary content (Closed, fs(temporary \<mapsto> content)) (Committing, fs(temporary \<mapsto> content))"
    by (rule publish_step.hook_ok)
  moreover have "publish_step target temporary content (Committing, fs(temporary \<mapsto> content))
      (Renamed, (fs(temporary := None))(target \<mapsto> content))"
    using publish_step.rename[of "fs(temporary \<mapsto> content)" temporary content target content] by simp
  ultimately show ?thesis
    using closed_reachable[of target temporary content fs] by (meson rtranclp.rtrancl_into_rtrancl)
qed

lemma file_publish_reachable:
  assumes "validate_for_publication candidate = Inr ()"
    and "file_publish sha texts target temporary candidate hook fault clock fs = (out, fs')"
  shows "\<exists>pc. (publish_step target temporary (utf8 (result_to_json texts candidate True)))\<^sup>*\<^sup>* (Prepared, fs) (pc, fs')
    \<and> (pc = Published \<longleftrightarrow> fault = NoFault \<and> hook = None)"
proof -
  let ?c = "utf8 (result_to_json texts candidate True)"
  let ?reach = "\<lambda>pc fs'. (publish_step target temporary ?c)\<^sup>*\<^sup>* (Prepared, fs) (pc, fs')"
  have written: "?reach Aborted (fs(temporary \<mapsto> take n ?c))" for n
  proof (cases "n \<le> length ?c")
    case True
    from writing_reachable[OF this, of target temporary fs] show ?thesis
      by (rule rtranclp.rtrancl_into_rtrancl) (rule publish_step.write_fault)
  next
    case False
    then have "take n ?c = take (length ?c) ?c" by simp
    from writing_reachable[OF order_refl[of "length ?c"], of target temporary fs, folded this] show ?thesis
      by (rule rtranclp.rtrancl_into_rtrancl) (rule publish_step.write_fault)
  qed
  have removed: "?reach Aborted (fs(temporary := None))"
    using closed_reachable[of target temporary ?c fs]
      publish_step.hook_raises[of target temporary ?c "fs(temporary \<mapsto> ?c)"]
    by (simp add: rtranclp.rtrancl_into_rtrancl)
  note ren = renamed_reachable[of target temporary ?c fs]
  have synced: "?reach Published ((fs(temporary := None))(target \<mapsto> ?c))"
    "?reach Aborted ((fs(temporary := None))(target \<mapsto> ?c))"
    using ren by (blast intro: rtranclp.rtrancl_into_rtrancl publish_step.sync publish_step.sync_fault)+
  show ?thesis
    using assms written removed synced
    by (cases fault; cases hook) (force simp: file_publish_def Let_def)+
qed

subsection \<open>Properties\<close>

text \<open>C23: What the reconciler returns can be published: the result of a run on canonical records with distinct identities
  passes every check of validate_for_publication, as long as no reported fee carries an identifier of the form the
  reconciler makes up for captures without exactly one fee.\<close>

theorem reconciliation_publishable:
  assumes "reconcile rid detected canon results quarantine = Inr res" and "identities_distinct canon"
    and "no_synthetic_fee canon"
  shows "validate_for_publication res = Inr ()"
  unfolding validate_iff using assms by (rule run_publishable)

theorem reconciliation_publishable_witness:
  "\<exists>res. reconcile ''run-1'' (Aware 0) sample_canon sample_complete [] = Inr res
    \<and> validate_for_publication res = Inr ()"
proof (rule sample_run_exists)
  fix res assume run: "reconcile ''run-1'' (Aware 0) sample_canon sample_complete [] = Inr res"
  have "no_synthetic_fee sample_canon"
    by (simp add: no_synthetic_fee_def sample_canon_def sample_fee_def)
  from reconciliation_publishable[OF run sample_identities this] run show ?thesis by blast
qed

text \<open>A result with no rows, for the concrete publications.\<close>

definition empty_result :: recon_result where
  "empty_result = \<lparr>rr_run_id = ''run-1'', rr_contract_version = CONTRACT_VERSION, rr_detected_at = 0,
     rr_transactions = [], rr_movements = [], rr_payouts = [], rr_exceptions = [], rr_completeness = [],
     rr_quarantine = []\<rparr>"

lemma empty_publishable: "publishable empty_result"
  by (simp add: publishable_def empty_result_def)

definition no_texts :: result_texts where
  "no_texts = \<lparr>reason_of = \<lambda>_. None, detail_of = \<lambda>_. []\<rparr>"

text \<open>The in-memory store is atomic: a candidate that fails validation, or whose before-commit hook raises, leaves the
  published result as it was; otherwise the candidate becomes current, and the call returns its receipt unless the
  clock returns a time without an offset.\<close>

theorem memory_publish_atomic:
  assumes "memory_publish sha texts candidate hook clock s = (out, s')"
  shows "if publishable candidate \<and> hook = None
    then current s' = Some candidate
      \<and> (case clock of Naive _ \<Rightarrow> out = Inl ClockNaive
         | Aware now \<Rightarrow> \<exists>receipt. out = Inr receipt \<and> pr_run_id receipt = rr_run_id candidate
             \<and> pr_payload_sha256 receipt = sha (utf8 (result_to_json texts candidate False)))
    else s' = s \<and> (\<exists>e. out = Inl e)"
proof (cases "validate_for_publication candidate")
  case (Inl e)
  then have "\<not> publishable candidate" by (simp add: validate_iff[symmetric])
  with Inl assms show ?thesis by (auto simp: memory_publish_def)
next
  case (Inr u)
  then have "publishable candidate" by (simp add: validate_Inr)
  with Inr assms show ?thesis
    by (auto simp: memory_publish_def make_receipt_def ensure_clock_utc_def split: option.splits pydatetime.splits)
qed

theorem memory_publish_atomic_witness:
  "\<exists>receipt. memory_publish (\<lambda>s. s) no_texts empty_result None (Aware 5) \<lparr>current = None\<rparr>
      = (Inr receipt, \<lparr>current = Some empty_result\<rparr>)
    \<and> pr_run_id receipt = ''run-1''"
proof -
  obtain out s' where p: "memory_publish (\<lambda>s. s) no_texts empty_result None (Aware 5) \<lparr>current = None\<rparr> = (out, s')"
    by (metis surj_pair)
  from memory_publish_atomic[OF p] empty_publishable p show ?thesis
    by (cases s') (auto simp: empty_result_def)
qed

text \<open>C26: The file store is crash safe: whatever step a publication was interrupted at, the target holds either its
  previous content or the complete new payload, no other file of the directory has changed, and a published run has
  left no temporary file.\<close>

theorem file_publication_crash_safe:
  assumes "temporary \<noteq> target" and "(publish_step target temporary content)\<^sup>*\<^sup>* (Prepared, before) (pc, fs)"
  shows "(fs target = before target \<or> fs target = Some content)
    \<and> (\<forall>name. name \<noteq> target \<and> name \<noteq> temporary \<longrightarrow> fs name = before name)
    \<and> (pc = Published \<longrightarrow> fs target = Some content \<and> fs temporary = None)"
  using directory_safe_reachable[OF assms] by (auto simp: directory_safe_def)

theorem file_publication_crash_safe_witness:
  "\<exists>fs. (publish_step ''result.json'' ''.tmp'' ''new'')\<^sup>*\<^sup>* (Prepared, [''result.json'' \<mapsto> ''old'']) (Renamed, fs)
    \<and> fs ''result.json'' = Some ''new''"
proof -
  let ?fs = "([''result.json'' \<mapsto> ''old''](''.tmp'' := None))(''result.json'' \<mapsto> ''new'')"
  have "(publish_step ''result.json'' ''.tmp'' ''new'')\<^sup>*\<^sup>* (Prepared, [''result.json'' \<mapsto> ''old'']) (Renamed, ?fs)"
    by (rule renamed_reachable)
  moreover from file_publication_crash_safe[OF _ this]
  have "?fs ''result.json'' = Some ''old'' \<or> ?fs ''result.json'' = Some ''new''" by simp
  ultimately show ?thesis by (intro exI[of _ ?fs]) simp
qed

text \<open>C27: file_publish refines the step machine: a valid candidate's publication ends in a directory the machine reaches,
  and it returns a receipt exactly when no call fails, the hook passes and the clock carries an offset; an invalid
  candidate changes nothing.\<close>

theorem file_publish_refines:
  assumes "file_publish sha texts target temporary candidate hook fault clock fs = (out, fs')"
  shows "if publishable candidate
    then (\<exists>pc. (publish_step target temporary (utf8 (result_to_json texts candidate True)))\<^sup>*\<^sup>* (Prepared, fs) (pc, fs')
           \<and> (pc = Published \<longleftrightarrow> fault = NoFault \<and> hook = None))
      \<and> ((\<exists>receipt. out = Inr receipt) \<longleftrightarrow> fault = NoFault \<and> hook = None \<and> (\<exists>now. clock = Aware now))
    else fs' = fs \<and> (\<exists>e. out = Inl e)"
proof (cases "publishable candidate")
  case True
  then have v: "validate_for_publication candidate = Inr ()" by (simp add: validate_iff)
  have "(\<exists>receipt. out = Inr receipt) \<longleftrightarrow> fault = NoFault \<and> hook = None \<and> (\<exists>now. clock = Aware now)"
    using assms v by (cases fault; cases hook; cases clock)
      (auto simp: file_publish_def Let_def make_receipt_def ensure_clock_utc_def)
  with True file_publish_reachable[OF v assms] show ?thesis by simp
next
  case False
  then obtain e where "validate_for_publication candidate = Inl e"
    using validate_Inr[of candidate] by (cases "validate_for_publication candidate") auto
  with False assms show ?thesis by (auto simp: file_publish_def)
qed

theorem file_publish_refines_witness:
  "\<exists>fs'. file_publish (\<lambda>s. s) no_texts ''t'' ''u'' empty_result (Some ''boom'') NoFault (Aware 5) [''t'' \<mapsto> ''old'']
      = (Inl (HookFailed ''boom''), fs')
    \<and> (\<exists>pc. (publish_step ''t'' ''u'' (utf8 (result_to_json no_texts empty_result True)))\<^sup>*\<^sup>*
          (Prepared, [''t'' \<mapsto> ''old'']) (pc, fs') \<and> pc \<noteq> Published)"
proof -
  have v: "validate_for_publication empty_result = Inr ()" by (simp add: validate_iff empty_publishable)
  let ?fs = "([''t'' \<mapsto> ''old''](''u'' \<mapsto> utf8 (result_to_json no_texts empty_result True)))(''u'' := None)"
  have run: "file_publish (\<lambda>s. s) no_texts ''t'' ''u'' empty_result (Some ''boom'') NoFault (Aware 5) [''t'' \<mapsto> ''old'']
      = (Inl (HookFailed ''boom''), ?fs)"
    by (simp only: file_publish_def v Let_def sum.case fault.case option.case prod.case)
  from file_publish_refines[OF run] empty_publishable have
    "\<exists>pc. (publish_step ''t'' ''u'' (utf8 (result_to_json no_texts empty_result True)))\<^sup>*\<^sup>*
          (Prepared, [''t'' \<mapsto> ''old'']) (pc, ?fs) \<and> pc \<noteq> Published"
    by (simp del: fun_upd_apply)
  with run show ?thesis by blast
qed

subsection \<open>A result that cannot be published\<close>

definition clash_payment :: "string \<Rightarrow> payment" where
  "clash_payment i = sample_payment\<lparr>pay_id := i\<rparr>"

definition clash_canon :: canonicalization_result where
  "clash_canon = \<lparr>canonical_records = [PaymentRec (clash_payment ''p1''), PaymentRec (clash_payment ''p2''),
       FeeRec (sample_fee\<lparr>fee_id := ''expected-fee:p1'', fee_payment_id := ''p2''\<rparr>)],
     evidence = [], conflicts = []\<rparr>"

text \<open>The uniqueness check and the made-up fee identifiers can collide: on well-formed canonical records in which the
  fee of one capture is called expected-fee:p1 and the capture p1 has no fee yet, the run succeeds, but its result is
  rejected for duplicate expected movement keys.\<close>

theorem synthetic_fee_blocks_publication:
  "\<exists>res. canon_well_formed clash_canon \<and> identities_distinct clash_canon
    \<and> reconcile ''run-1'' (Aware 0) clash_canon sample_complete [] = Inr res
    \<and> validate_for_publication res = Inl (DuplicateKeys ''expected movement keys'')"
proof -
  have ids: "identities_distinct clash_canon"
    by (simp add: identities_distinct_def clash_canon_def record_identity_simps clash_payment_def)
  have ct: "canonical_text ''expected-fee:p1''" "canonical_text ''p2''" by code_simp+
  have wf: "canon_well_formed clash_canon"
    by (simp add: canon_well_formed_def clash_canon_def clash_payment_def well_formed_defs sample_payment_def
        sample_fee_def positive_amount_def amount_in_range_def MAX_MONEY_CENTS_def EUR_def ct)
  have split: "input_of clash_canon = \<lparr>in_orders = [], in_payments = [clash_payment ''p1'', clash_payment ''p2''],
      in_refunds = [], in_fees = [sample_fee\<lparr>fee_id := ''expected-fee:p1'', fee_payment_id := ''p2''\<rparr>],
      in_lines = [], in_payouts = []\<rparr>"
    by code_simp
  have "\<exists>res. reconcile ''run-1'' (Aware 0) clash_canon sample_complete [] = Inr res"
    unfolding reconcile_succeeds[OF wf] by (simp add: split)
  then obtain res where run: "reconcile ''run-1'' (Aware 0) clash_canon sample_complete [] = Inr res" by blast
  have cap: "captured_payments (input_of clash_canon) = [clash_payment ''p1'', clash_payment ''p2'']"
    by (simp add: split captured_payments_def clash_payment_def sample_payment_def)
  have ref: "successful_refunds (input_of clash_canon) = []"
    by (simp add: split successful_refunds_def)
  have fm: "fee_movement_of (input_of clash_canon) (clash_payment i) = ''expected-fee:p1''" if "i \<in> {''p1'', ''p2''}" for i
    using that by (auto simp: fee_movement_of_def split clash_payment_def)
  from run ids have dup: "\<not> distinct (map movement_key (rr_movements res))"
  proof (rule reconcile_rowsE)
    fix fee_of
    assume "expected_movements (input_of clash_canon) fee_of = Inr (rr_movements res)"
    then show ?thesis
    proof (rule expected_movements_mset)
      fix ps rs
      assume "map_result (payment_movements (input_of clash_canon) fee_of) (captured_payments (input_of clash_canon)) = Inr ps"
        and rs: "map_result refund_movement (successful_refunds (input_of clash_canon)) = Inr rs"
        and ms: "mset (rr_movements res) = mset (concat ps @ rs)"
      then obtain a b where ab: "payment_movements (input_of clash_canon) fee_of (clash_payment ''p1'') = Inr a"
        "payment_movements (input_of clash_canon) fee_of (clash_payment ''p2'') = Inr b" "ps = [a, b]"
        by (auto simp: cap bind_result_Inr)
      have "map movement_key (concat ps) = [(MT_CAPTURE, ''p1''), (MT_FEE, ''expected-fee:p1''),
          (MT_CAPTURE, ''p2''), (MT_FEE, ''expected-fee:p1'')]"
        using payment_movement_keys[OF ab(1)] payment_movement_keys[OF ab(2)] fm
        by (simp add: ab(3) clash_payment_def)
      moreover have "mset (map movement_key (rr_movements res)) = mset (map movement_key (concat ps))"
        using rs ms by (simp add: ref)
      ultimately have "mset (map movement_key (rr_movements res)) = mset [(MT_CAPTURE, ''p1''), (MT_FEE, ''expected-fee:p1''),
          (MT_CAPTURE, ''p2''), (MT_FEE, ''expected-fee:p1'')]" by simp
      then show ?thesis using mset_eq_imp_distinct_iff by fastforce
    qed
  qed
  have "rr_payouts res = []"
    using run ids by (rule reconcile_rowsE) (simp add: split)
  moreover have "distinct (map tx_order_id (rr_transactions res))"
    using run_transaction_rows[OF run ids] by (simp add: split)
  ultimately have "validate_for_publication res = Inl (DuplicateKeys ''expected movement keys'')"
    using run_header[OF run] dup by (simp add: validate_for_publication_def require_unique_def require_def)
  with run ids wf show ?thesis by blast
qed

end
