(* ===== verification/Late_Data.thy ===== *)
theory Late_Data
  imports Contracts
begin

text \<open>
  \<open>threadline/late_data.py\<close>: what a late receipt means for a published run.  The optional fields the
  code reads with \<open>getattr\<close> are functions of the record; the reasons are the code's texts.  The zone
  Europe/Berlin is the parameter \<open>berlin\<close>.  \<open>arrival_delay_seconds\<close> divides as \<open>float\<close>, which is
  exact for the delays below 2^33 seconds.
\<close>

subsection \<open>Vocabulary\<close>

datatype change_kind =
    NEW_FACT
  | HIGHER_VERSION_CORRECTION
  | SAME_VERSION_CONFLICT
  | EXACT_DUPLICATE
  | STALE_VERSION

primrec change_kind_value :: "change_kind \<Rightarrow> string" where
  "change_kind_value NEW_FACT = ''NEW_FACT''"
| "change_kind_value HIGHER_VERSION_CORRECTION = ''HIGHER_VERSION_CORRECTION''"
| "change_kind_value SAME_VERSION_CONFLICT = ''SAME_VERSION_CONFLICT''"
| "change_kind_value EXACT_DUPLICATE = ''EXACT_DUPLICATE''"
| "change_kind_value STALE_VERSION = ''STALE_VERSION''"

datatype late_data_classification =
    WITHIN_WATERMARK
  | NO_LOGICAL_CHANGE
  | FUTURE_IMPACT
  | LATE_NEW_FACT
  | LATE_CORRECTION
  | LATE_CONFLICT
  | UNRESOLVED_IMPACT

primrec classification_value :: "late_data_classification \<Rightarrow> string" where
  "classification_value WITHIN_WATERMARK = ''WITHIN_WATERMARK''"
| "classification_value NO_LOGICAL_CHANGE = ''NO_LOGICAL_CHANGE''"
| "classification_value FUTURE_IMPACT = ''FUTURE_IMPACT''"
| "classification_value LATE_NEW_FACT = ''LATE_NEW_FACT''"
| "classification_value LATE_CORRECTION = ''LATE_CORRECTION''"
| "classification_value LATE_CONFLICT = ''LATE_CONFLICT''"
| "classification_value UNRESOLVED_IMPACT = ''UNRESOLVED_IMPACT''"

definition LATE_CLASSIFICATIONS :: "late_data_classification list" where
  "LATE_CLASSIFICATIONS = [LATE_NEW_FACT, LATE_CORRECTION, LATE_CONFLICT]"

datatype late_data_error =
    NaiveTimestamp string
  | BoundaryRunIdInvalid
  | EmptyReceiptId
  | EmptySourceId
  | VersionNotPositive

definition late_as_utc :: "pydatetime \<Rightarrow> string \<Rightarrow> late_data_error + instant" where
  "late_as_utc t field = (case t of Naive _ \<Rightarrow> Inl (NaiveTimestamp field) | Aware i \<Rightarrow> Inr i)"

definition business_date_from_timestamp :: "zone \<Rightarrow> instant \<Rightarrow> date" where
  "business_date_from_timestamp z t = date_of_instant (local_at_utc z t)"

subsection \<open>The published boundary and the candidates\<close>

record reconciliation_boundary =
  rb_run_id :: string
  rb_input_watermark_utc :: instant
  rb_covered_through_date :: date

definition make_reconciliation_boundary ::
  "string \<Rightarrow> pydatetime \<Rightarrow> date \<Rightarrow> late_data_error + reconciliation_boundary" where
  "make_reconciliation_boundary rid watermark covered =
     bind_result (require (canonical_text rid) BoundaryRunIdInvalid) (\<lambda>_.
     bind_result (late_as_utc watermark ''input_watermark_utc'') (\<lambda>w.
       Inr \<lparr>rb_run_id = rid, rb_input_watermark_utc = w, rb_covered_through_date = covered\<rparr>))"

record impact_context =
  payment_available_on :: "(string, date) dict"
  payout_dates :: "(string, date) dict"

record impact_resolution =
  ir_affected_dates :: "date list"
  ir_unresolved_reason :: "string option"

definition sorted_dates :: "date list \<Rightarrow> date list" where
  "sorted_dates ds = sort (remdups ds)"

definition make_impact_resolution :: "date list \<Rightarrow> string option \<Rightarrow> impact_resolution" where
  "make_impact_resolution ds reason =
     \<lparr>ir_affected_dates = sorted_dates ds, ir_unresolved_reason = reason\<rparr>"

record late_data_candidate =
  ld_receipt_id :: string
  ld_entity_type :: entity_type
  ld_source_id :: string
  ld_source_version :: int
  ld_received_at_utc :: instant
  ld_change_kind :: change_kind
  ld_affected_dates :: "date list"
  ld_unresolved_reason :: "string option"

definition make_late_data_candidate ::
  "string \<Rightarrow> entity_type \<Rightarrow> string \<Rightarrow> int \<Rightarrow> pydatetime \<Rightarrow> change_kind \<Rightarrow> date list \<Rightarrow> string option
     \<Rightarrow> late_data_error + late_data_candidate" where
  "make_late_data_candidate receipt et sid ver received kind ds reason =
     bind_result (require (receipt \<noteq> []) EmptyReceiptId) (\<lambda>_.
     bind_result (require (sid \<noteq> []) EmptySourceId) (\<lambda>_.
     bind_result (require (0 < ver) VersionNotPositive) (\<lambda>_.
     bind_result (late_as_utc received ''received_at_utc'') (\<lambda>t.
       Inr \<lparr>ld_receipt_id = receipt, ld_entity_type = et, ld_source_id = sid, ld_source_version = ver,
            ld_received_at_utc = t, ld_change_kind = kind, ld_affected_dates = sorted_dates ds,
            ld_unresolved_reason = reason\<rparr>))))"

record late_data_decision =
  dec_receipt_id :: string
  dec_entity_type :: entity_type
  dec_source_id :: string
  dec_source_version :: int
  dec_classification :: late_data_classification
  dec_change_kind :: change_kind
  dec_received_at_utc :: instant
  dec_input_watermark_utc :: instant
  dec_covered_through_date :: date
  dec_affected_dates :: "date list"
  dec_historical_affected_dates :: "date list"
  dec_unresolved_reason :: "string option"

definition is_late :: "late_data_decision \<Rightarrow> bool" where
  "is_late d = (dec_classification d \<in> set LATE_CLASSIFICATIONS)"

definition requires_reprocessing :: "late_data_decision \<Rightarrow> bool" where
  "requires_reprocessing d = (is_late d \<or> dec_classification d = UNRESOLVED_IMPACT)"

definition arrived_after_watermark :: "late_data_decision \<Rightarrow> bool" where
  "arrived_after_watermark d = (dec_input_watermark_utc d < dec_received_at_utc d)"

definition arrival_delay_seconds :: "late_data_decision \<Rightarrow> int" where
  "arrival_delay_seconds d =
     (let delay = dec_received_at_utc d - dec_input_watermark_utc d
      in max 0 (if 0 \<le> delay then delay div 1000000 else - (- delay div 1000000)))"

subsection \<open>The dates a record affects\<close>

primrec available_on_of :: "financial_record \<Rightarrow> date option" where
  "available_on_of (OrderRec r) = None"
| "available_on_of (PaymentRec r) = pay_available_on r"
| "available_on_of (RefundRec r) = ref_available_on r"
| "available_on_of (FeeRec r) = Some (fee_available_on r)"
| "available_on_of (SettlementLineRec r) = None"
| "available_on_of (PayoutRec r) = None"

primrec effective_at_of :: "financial_record \<Rightarrow> instant option" where
  "effective_at_of (OrderRec r) = None"
| "effective_at_of (PaymentRec r) = Some (pay_effective_at_utc r)"
| "effective_at_of (RefundRec r) = Some (ref_effective_at_utc r)"
| "effective_at_of (FeeRec r) = Some (fee_effective_at_utc r)"
| "effective_at_of (SettlementLineRec r) = None"
| "effective_at_of (PayoutRec r) = None"

primrec payment_id_of :: "financial_record \<Rightarrow> string option" where
  "payment_id_of (OrderRec r) = None"
| "payment_id_of (PaymentRec r) = Some (pay_id r)"
| "payment_id_of (RefundRec r) = Some (ref_payment_id r)"
| "payment_id_of (FeeRec r) = Some (fee_payment_id r)"
| "payment_id_of (SettlementLineRec r) = None"
| "payment_id_of (PayoutRec r) = None"

primrec payout_id_of :: "financial_record \<Rightarrow> string option" where
  "payout_id_of (OrderRec r) = None"
| "payout_id_of (PaymentRec r) = None"
| "payout_id_of (RefundRec r) = None"
| "payout_id_of (FeeRec r) = None"
| "payout_id_of (SettlementLineRec r) = Some (line_payout_id r)"
| "payout_id_of (PayoutRec r) = Some (out_id r)"

primrec payout_date_of :: "financial_record \<Rightarrow> date option" where
  "payout_date_of (OrderRec r) = None"
| "payout_date_of (PaymentRec r) = None"
| "payout_date_of (RefundRec r) = None"
| "payout_date_of (FeeRec r) = None"
| "payout_date_of (SettlementLineRec r) = None"
| "payout_date_of (PayoutRec r) = Some (out_date r)"

text \<open>A lookup with an identifier that may be absent or empty.\<close>

definition context_date :: "(string, date) dict \<Rightarrow> string option \<Rightarrow> date option" where
  "context_date m i = (case i of None \<Rightarrow> None | Some s \<Rightarrow> if s = [] then None else map_of m s)"

definition resolved_or :: "date option \<Rightarrow> string \<Rightarrow> impact_resolution" where
  "resolved_or d reason = (case d of
       None \<Rightarrow> make_impact_resolution [] (Some reason)
     | Some x \<Rightarrow> make_impact_resolution [x] None)"

definition resolve_record_impact :: "zone \<Rightarrow> financial_record \<Rightarrow> impact_context \<Rightarrow> impact_resolution" where
  "resolve_record_impact berlin r cx =
     (let et = record_entity_type r
      in if et \<in> {ET_PAYMENT, ET_REFUND} then
           resolved_or (available_on_of r) (entity_type_value et @ '' has no available_on date'')
         else if et = ET_FEE then
           resolved_or (context_date (payment_available_on cx) (payment_id_of r))
             ''FEE requires the parent payment's available_on date''
         else if et = ET_SETTLEMENT_LINE then
           resolved_or (context_date (payout_dates cx) (payout_id_of r))
             ''SETTLEMENT_LINE requires its payout date''
         else if et = ET_PAYOUT then
           resolved_or (payout_date_of r) ''PAYOUT has no payout_date''
         else if et = ET_ORDER then
           resolved_or (map_option (business_date_from_timestamp berlin) (effective_at_of r))
             ''ORDER has no effective_at_utc''
         else make_impact_resolution [] (Some (''unsupported entity type '' @ entity_type_value et)))"

definition build_late_data_candidate ::
  "zone \<Rightarrow> string \<Rightarrow> pydatetime \<Rightarrow> change_kind \<Rightarrow> financial_record \<Rightarrow> financial_record option \<Rightarrow> impact_context
     \<Rightarrow> late_data_error + late_data_candidate" where
  "build_late_data_candidate berlin receipt received kind incoming previous cx =
     (let records = (case previous of None \<Rightarrow> [] | Some p \<Rightarrow> [p]) @ [incoming];
          resolutions = map (\<lambda>r. resolve_record_impact berlin r cx) records;
          dates = concat (map ir_affected_dates resolutions);
          reasons = List.map_filter ir_unresolved_reason resolutions
      in make_late_data_candidate receipt (record_entity_type incoming) (record_id incoming)
           (record_source_version incoming) received kind dates
           (if reasons = [] then None else Some (join ''; '' (sort (remdups reasons)))))"

subsection \<open>Classification\<close>

definition classification_of ::
  "late_data_candidate \<Rightarrow> reconciliation_boundary \<Rightarrow> date list \<Rightarrow> late_data_classification" where
  "classification_of c b historical =
     (if ld_change_kind c \<in> {EXACT_DUPLICATE, STALE_VERSION} then NO_LOGICAL_CHANGE
      else if ld_received_at_utc c \<le> rb_input_watermark_utc b then WITHIN_WATERMARK
      else if (case ld_unresolved_reason c of None \<Rightarrow> False | Some s \<Rightarrow> s \<noteq> []) then UNRESOLVED_IMPACT
      else if historical = [] then FUTURE_IMPACT
      else case ld_change_kind c of
             NEW_FACT \<Rightarrow> LATE_NEW_FACT
           | HIGHER_VERSION_CORRECTION \<Rightarrow> LATE_CORRECTION
           | _ \<Rightarrow> LATE_CONFLICT)"

definition classify_late_data :: "late_data_candidate \<Rightarrow> reconciliation_boundary \<Rightarrow> late_data_decision" where
  "classify_late_data c b =
     (let historical = filter (\<lambda>d. d \<le> rb_covered_through_date b) (ld_affected_dates c)
      in \<lparr>dec_receipt_id = ld_receipt_id c, dec_entity_type = ld_entity_type c,
          dec_source_id = ld_source_id c, dec_source_version = ld_source_version c,
          dec_classification = classification_of c b historical,
          dec_change_kind = ld_change_kind c, dec_received_at_utc = ld_received_at_utc c,
          dec_input_watermark_utc = rb_input_watermark_utc b,
          dec_covered_through_date = rb_covered_through_date b,
          dec_affected_dates = ld_affected_dates c,
          dec_historical_affected_dates = historical,
          dec_unresolved_reason = ld_unresolved_reason c\<rparr>)"

subsection \<open>What is reprocessed\<close>

lemma set_sorted_dates [simp]: "set (sorted_dates ds) = set ds"
  by (simp add: sorted_dates_def)

lemma sorted_sorted_dates [simp]: "sorted (sorted_dates ds)" "distinct (sorted_dates ds)"
  by (simp_all add: sorted_dates_def)

definition unresolved :: "late_data_candidate \<Rightarrow> bool" where
  "unresolved c = (case ld_unresolved_reason c of None \<Rightarrow> False | Some s \<Rightarrow> s \<noteq> [])"

text \<open>C30: Reprocessing is requested exactly for logical changes that arrive after the watermark of the published run and
  either reach a covered date or cannot be resolved: nothing that could change published figures is waved through, and
  duplicates, stale versions and changes of later dates never trigger it.\<close>

theorem reprocessing_decided:
  "requires_reprocessing (classify_late_data c b) \<longleftrightarrow>
    ld_change_kind c \<noteq> EXACT_DUPLICATE \<and> ld_change_kind c \<noteq> STALE_VERSION
    \<and> rb_input_watermark_utc b < ld_received_at_utc c
    \<and> (unresolved c \<or> (\<exists>d. d \<in> set (ld_affected_dates c) \<and> d \<le> rb_covered_through_date b))"
  by (cases "ld_change_kind c")
    (auto simp: requires_reprocessing_def is_late_def LATE_CLASSIFICATIONS_def classify_late_data_def
      classification_of_def unresolved_def Let_def filter_empty_conv)

subsection \<open>Candidates\<close>

lemma make_candidate_Inr:
  "make_late_data_candidate receipt et sid ver received kind ds reason = Inr c \<longleftrightarrow>
    receipt \<noteq> [] \<and> sid \<noteq> [] \<and> 0 < ver \<and> (\<exists>t. received = Aware t
      \<and> c = \<lparr>ld_receipt_id = receipt, ld_entity_type = et, ld_source_id = sid, ld_source_version = ver,
            ld_received_at_utc = t, ld_change_kind = kind, ld_affected_dates = sorted_dates ds,
            ld_unresolved_reason = reason\<rparr>)"
  by (auto simp: make_late_data_candidate_def bind_result_Inr late_as_utc_def split: pydatetime.splits)

lemma join_empty: "join sep xs = [] \<Longrightarrow> sep \<noteq> [] \<Longrightarrow> xs = [] \<or> xs = [[]]"
  by (cases "(sep, xs)" rule: join.cases) auto

lemma join_sorted_nonempty:
  assumes "xs \<noteq> []" and "[] \<notin> set xs" and "sep \<noteq> []"
  shows "join sep (sort (remdups xs)) \<noteq> []"
proof
  define ys where "ys = sort (remdups xs)"
  assume "join sep (sort (remdups xs)) = []"
  then have "ys = [] \<or> ys = [[]]" using join_empty[of sep ys] assms(3) by (simp add: ys_def)
  moreover have "set ys = set xs" by (simp add: ys_def)
  ultimately show False using assms(1,2) by auto
qed

lemma resolve_reason_nonempty: "ir_unresolved_reason (resolve_record_impact berlin r cx) \<noteq> Some []"
  by (auto simp: resolve_record_impact_def resolved_or_def make_impact_resolution_def Let_def split: option.splits)

text \<open>A correction is dated by both versions: the candidate's dates are exactly those the previous and the incoming
  record resolve to, sorted and without repetition, and it counts as unresolved exactly when one of the two records
  could not be resolved.\<close>

theorem candidate_covers_both_versions:
  assumes "build_late_data_candidate berlin receipt received kind incoming previous cx = Inr c"
  shows "set (ld_affected_dates c) =
      (\<Union>r \<in> insert incoming (set_option previous). set (ir_affected_dates (resolve_record_impact berlin r cx)))
    \<and> sorted (ld_affected_dates c) \<and> distinct (ld_affected_dates c)
    \<and> (unresolved c \<longleftrightarrow>
        (\<exists>r \<in> insert incoming (set_option previous). ir_unresolved_reason (resolve_record_impact berlin r cx) \<noteq> None))"
proof -
  let ?rs = "(case previous of None \<Rightarrow> [] | Some p \<Rightarrow> [p]) @ [incoming]"
  let ?why = "List.map_filter ir_unresolved_reason (map (\<lambda>r. resolve_record_impact berlin r cx) ?rs)"
  have rs: "set ?rs = insert incoming (set_option previous)" by (auto split: option.splits)
  have c: "ld_affected_dates c = sorted_dates (concat (map ir_affected_dates (map (\<lambda>r. resolve_record_impact berlin r cx) ?rs)))"
    "ld_unresolved_reason c = (if ?why = [] then None else Some (join ''; '' (sort (remdups ?why))))"
    using assms by (auto simp: build_late_data_candidate_def Let_def make_candidate_Inr)
  have dates: "set (ld_affected_dates c) =
      (\<Union>r \<in> insert incoming (set_option previous). set (ir_affected_dates (resolve_record_impact berlin r cx)))"
    unfolding c rs[symmetric] by (auto split: option.splits)
  have why: "set ?why = {s. \<exists>r \<in> insert incoming (set_option previous).
      ir_unresolved_reason (resolve_record_impact berlin r cx) = Some s}"
    unfolding rs[symmetric] by (simp add: set_map_filter)
  have nonempty: "join ''; '' (sort (remdups ?why)) \<noteq> []" if "?why \<noteq> []"
  proof (rule join_sorted_nonempty)
    show "[] \<notin> set ?why" unfolding why using resolve_reason_nonempty by auto
  qed (use that in simp_all)
  have "unresolved c \<longleftrightarrow> ?why \<noteq> []"
    unfolding unresolved_def c(2) using nonempty by (simp del: set_empty)
  also have "\<dots> \<longleftrightarrow> (\<exists>r \<in> insert incoming (set_option previous).
      ir_unresolved_reason (resolve_record_impact berlin r cx) \<noteq> None)"
    unfolding set_empty[symmetric] why by auto
  finally show ?thesis using dates by (simp add: c(1))
qed

definition late_fee :: financial_record where
  "late_fee = FeeRec \<lparr>fee_id = ''f1'', fee_payment_id = ''p1'', fee_fee_type = FT_PROCESSING, fee_amount = 200,
     fee_currency = ''EUR'', fee_effective_at_utc = 0, fee_available_on = 739000, fee_source_version = 2\<rparr>"

definition late_context :: impact_context where
  "late_context = \<lparr>payment_available_on = [(''p1'', 739000)], payout_dates = []\<rparr>"

definition utc_zone :: zone where
  "utc_zone = \<lparr>offset_at_local = \<lambda>_. 0, local_at_utc = \<lambda>t. t\<rparr>"

theorem candidate_covers_both_versions_witness:
  "\<exists>c. build_late_data_candidate utc_zone ''r1'' (Aware 10) HIGHER_VERSION_CORRECTION late_fee None late_context = Inr c
    \<and> set (ld_affected_dates c) = {739000} \<and> \<not> unresolved c"
proof -
  have "\<exists>c. build_late_data_candidate utc_zone ''r1'' (Aware 10) HIGHER_VERSION_CORRECTION late_fee None late_context = Inr c"
    by (simp add: build_late_data_candidate_def make_candidate_Inr late_fee_def Let_def)
  then obtain c where c: "build_late_data_candidate utc_zone ''r1'' (Aware 10) HIGHER_VERSION_CORRECTION late_fee None late_context = Inr c" ..
  have "resolve_record_impact utc_zone late_fee late_context = \<lparr>ir_affected_dates = [739000], ir_unresolved_reason = None\<rparr>"
    by (simp add: resolve_record_impact_def late_fee_def late_context_def context_date_def resolved_or_def
        make_impact_resolution_def sorted_dates_def)
  with candidate_covers_both_versions[OF c] c show ?thesis by simp
qed

text \<open>An order never resolves: Order has created_at_utc but no effective_at_utc, so every change of an order that
  arrives after the watermark is UNRESOLVED_IMPACT and requests reprocessing, whatever its dates are.\<close>

theorem order_change_unresolved:
  assumes "build_late_data_candidate berlin receipt received kind (OrderRec r) previous cx = Inr c"
    and "kind \<noteq> EXACT_DUPLICATE" and "kind \<noteq> STALE_VERSION" and "rb_input_watermark_utc b < ld_received_at_utc c"
  shows "dec_classification (classify_late_data c b) = UNRESOLVED_IMPACT"
proof -
  have "ir_unresolved_reason (resolve_record_impact berlin (OrderRec r) cx) = Some ''ORDER has no effective_at_utc''"
    by (simp add: resolve_record_impact_def resolved_or_def make_impact_resolution_def)
  with assms(1) have c: "ld_change_kind c = kind" "ld_unresolved_reason c \<noteq> None" "ld_unresolved_reason c \<noteq> Some []"
    using resolve_reason_nonempty[of berlin _ cx]
    by (auto simp: build_late_data_candidate_def Let_def make_candidate_Inr List.map_filter_def
        dest!: join_empty split: option.splits if_splits)
  then obtain s where "ld_unresolved_reason c = Some s" "s \<noteq> []" by auto
  with c(1) assms(2-4) show ?thesis
    by (simp add: classify_late_data_def classification_of_def Let_def)
qed

definition late_order :: order where
  "late_order = \<lparr>ord_id = ''o1'', ord_created_at_utc = 0, ord_status = OS_PAID, ord_currency = ''EUR'',
     ord_total = 100, ord_source_version = 1\<rparr>"

theorem order_change_unresolved_witness:
  "\<exists>c. build_late_data_candidate utc_zone ''r1'' (Aware 10) NEW_FACT (OrderRec late_order) None late_context = Inr c
    \<and> dec_classification (classify_late_data c
        \<lparr>rb_run_id = ''run-1'', rb_input_watermark_utc = 5, rb_covered_through_date = 739000\<rparr>) = UNRESOLVED_IMPACT"
proof -
  have "\<exists>c. build_late_data_candidate utc_zone ''r1'' (Aware 10) NEW_FACT (OrderRec late_order) None late_context = Inr c
      \<and> ld_received_at_utc c = 10"
    by (simp add: build_late_data_candidate_def make_candidate_Inr late_order_def Let_def)
  then obtain c where c: "build_late_data_candidate utc_zone ''r1'' (Aware 10) NEW_FACT (OrderRec late_order) None late_context = Inr c"
    "ld_received_at_utc c = 10" by blast
  from order_change_unresolved[OF c(1)] c show ?thesis by auto
qed

end
