(* ===== verification/Affected_Windows.thy ===== *)
theory Affected_Windows
  imports Late_Data
begin

text \<open>
  \<open>threadline/affected_windows.py\<close>: which orders, payouts and dates a change of source records can
  reach.  The graph object is a record of its dictionaries of sets; a set is a list without
  duplicates, so the order in which the worklist \<open>pending\<close> takes its keys is one of the orders the
  interpreter may take, and the lemmas show that the reached sets do not depend on it.
\<close>

subsection \<open>Plans\<close>

datatype recovery_scope = SCOPE_NONE | SCOPE_WINDOWS | SCOPE_FULL

primrec recovery_scope_value :: "recovery_scope \<Rightarrow> string" where
  "recovery_scope_value SCOPE_NONE = ''NONE''"
| "recovery_scope_value SCOPE_WINDOWS = ''WINDOWS''"
| "recovery_scope_value SCOPE_FULL = ''FULL''"

type_synonym record_key = "entity_type \<times> string"

record date_window =
  start_date :: date
  end_date_exclusive :: date

record affected_window_plan =
  awp_scope :: recovery_scope
  awp_order_ids :: "string list"
  awp_payout_ids :: "string list"
  awp_payout_dates :: "date list"
  awp_payout_windows :: "date_window list"
  awp_source_keys :: "record_key list"
  awp_reason_codes :: "string list"

text \<open>The key of a record; a record without an identifier raises.\<close>

datatype window_error = RecordIdEmpty

definition key_of :: "financial_record \<Rightarrow> record_key" where
  "key_of r = (record_entity_type r, record_id r)"

definition make_record_key :: "financial_record \<Rightarrow> window_error + record_key" where
  "make_record_key r = (if record_id r = [] then Inl RecordIdEmpty else Inr (key_of r))"

subsection \<open>Windows of dates\<close>

fun compress_from :: "date \<Rightarrow> date \<Rightarrow> date list \<Rightarrow> date_window list" where
  "compress_from start previous [] = [\<lparr>start_date = start, end_date_exclusive = previous + 1\<rparr>]"
| "compress_from start previous (d # ds) =
     (if d \<noteq> previous + 1
      then \<lparr>start_date = start, end_date_exclusive = previous + 1\<rparr> # compress_from d d ds
      else compress_from start d ds)"

definition compress_dates :: "date list \<Rightarrow> date_window list" where
  "compress_dates days = (case sorted_dates days of [] \<Rightarrow> [] | d # ds \<Rightarrow> compress_from d d ds)"

definition business_day_utc_bounds :: "zone \<Rightarrow> date \<Rightarrow> instant \<times> instant" where
  "business_day_utc_bounds berlin d =
     (local_to_utc berlin (instant_of_date d), local_to_utc berlin (instant_of_date (d + 1)))"

subsection \<open>The impact graph\<close>

record impact_graph =
  known :: "record_key list"
  neighbors :: "(record_key, record_key list) dict"
  dates :: "(record_key, date list) dict"
  keys_by_date :: "(date, record_key list) dict"
  issues :: "(record_key, string list) dict"

definition empty_graph :: impact_graph where
  "empty_graph = \<lparr>known = [], neighbors = [], dates = [], keys_by_date = [], issues = []\<rparr>"

text \<open>\<open>d[k].add(v)\<close> on a dictionary of sets.\<close>

definition add_to :: "'k \<Rightarrow> 'v \<Rightarrow> ('k, 'v list) dict \<Rightarrow> ('k, 'v list) dict" where
  "add_to k v d = AList.update k (List.insert v (dict_get d k [])) d"

definition add_issue :: "record_key \<Rightarrow> string \<Rightarrow> impact_graph \<Rightarrow> impact_graph" where
  "add_issue k s g = g\<lparr>issues := add_to k s (issues g)\<rparr>"

definition link :: "record_key \<Rightarrow> entity_type \<Rightarrow> string \<Rightarrow> impact_graph \<Rightarrow> impact_graph" where
  "link child parent_type parent_id g =
     (if parent_id = [] then add_issue child ''MISSING_RELATIONSHIP_ID'' g
      else let parent = (parent_type, parent_id)
           in g\<lparr>neighbors := add_to parent child (add_to child parent (neighbors g))\<rparr>)"

definition add_date :: "record_key \<Rightarrow> date \<Rightarrow> impact_graph \<Rightarrow> impact_graph" where
  "add_date k d g = g\<lparr>dates := add_to k d (dates g), keys_by_date := add_to d k (keys_by_date g)\<rparr>"

primrec movement_entity :: "movement_type \<Rightarrow> entity_type" where
  "movement_entity MT_CAPTURE = ET_PAYMENT"
| "movement_entity MT_REFUND = ET_REFUND"
| "movement_entity MT_FEE = ET_FEE"

definition add_availability ::
  "record_key \<Rightarrow> date option \<Rightarrow> bool \<Rightarrow> string \<Rightarrow> impact_graph \<Rightarrow> impact_graph" where
  "add_availability k available effective issue g =
     (case available of
        Some d \<Rightarrow> add_date k d g
      | None \<Rightarrow> if effective then add_issue k issue g else g)"

definition add_record :: "financial_record \<Rightarrow> impact_graph \<Rightarrow> impact_graph" where
  "add_record r g0 =
     (let k = key_of r; g = g0\<lparr>known := List.insert k (known g0)\<rparr>
      in case r of
           OrderRec x \<Rightarrow> g
         | PaymentRec x \<Rightarrow>
             add_availability k (pay_available_on x) (pay_status x = PS_CAPTURED) ''CAPTURE_DATE_UNRESOLVED''
               (link k ET_ORDER (pay_order_id x) g)
         | RefundRec x \<Rightarrow>
             add_availability k (ref_available_on x) (ref_status x = RF_SUCCEEDED) ''REFUND_DATE_UNRESOLVED''
               (link k ET_PAYMENT (ref_payment_id x) g)
         | FeeRec x \<Rightarrow> link k ET_PAYMENT (fee_payment_id x) g
         | SettlementLineRec x \<Rightarrow>
             link k (movement_entity (line_movement_type x)) (line_movement_id x)
               (link k ET_PAYOUT (line_payout_id x) g)
         | PayoutRec x \<Rightarrow> add_date k (out_date x) g)"

definition graph_add :: "financial_record \<Rightarrow> impact_graph \<Rightarrow> window_error + impact_graph" where
  "graph_add r g = bind_result (make_record_key r) (\<lambda>_. Inr (add_record r g))"

subsection \<open>The closure\<close>

record expansion =
  visited :: "record_key list"
  visited_dates :: "date list"
  reasons :: "string list"

definition related_missing :: "record_key \<Rightarrow> string" where
  "related_missing k = ''RELATED_RECORD_MISSING:'' @ entity_type_value (fst k) @ '':'' @ snd k"

definition visit :: "impact_graph \<Rightarrow> record_key \<Rightarrow> expansion \<Rightarrow> expansion" where
  "visit g k s =
     \<lparr>visited = List.insert k (visited s),
      visited_dates = fold List.insert (dict_get (dates g) k []) (visited_dates s),
      reasons = (if k \<in> set (known g) then id else List.insert (related_missing k))
        (fold List.insert (dict_get (issues g) k []) (reasons s))\<rparr>"

text \<open>What processing a key appends to the worklist.\<close>

definition successors :: "impact_graph \<Rightarrow> record_key \<Rightarrow> expansion \<Rightarrow> record_key list" where
  "successors g k s =
     dict_get (neighbors g) k []
     @ concat (map (\<lambda>d. dict_get (keys_by_date g) d [])
         (filter (\<lambda>d. d \<notin> set (visited_dates s)) (dict_get (dates g) k [])))"

text \<open>
  One turn of the loop pops the last pending key.  Either the key was visited and the worklist gets
  shorter, or it is visited now and one key fewer remains unvisited among the pending keys and those
  of the graph.
\<close>

definition graph_keys :: "impact_graph \<Rightarrow> record_key list" where
  "graph_keys g = concat (dict_values (neighbors g)) @ concat (dict_values (keys_by_date g))"

lemma dict_get_values: "x \<in> set (dict_get d k []) \<Longrightarrow> \<exists>v \<in> set (dict_values d). x \<in> set v"
proof -
  assume "x \<in> set (dict_get d k [])"
  then obtain v where v: "map_of d k = Some v" "x \<in> set v"
    by (cases "map_of d k") (auto simp: dict_get_def)
  from map_of_SomeD[OF v(1)] have "v \<in> set (dict_values d)" by force
  with v(2) show ?thesis ..
qed

lemma successors_subset: "set (successors g k s) \<subseteq> set (graph_keys g)"
  by (auto simp: successors_def graph_keys_def dest!: dict_get_values)

lemma visited_visit [simp]: "set (visited (visit g k s)) = insert k (set (visited s))"
  by (simp add: visit_def)

definition unvisited :: "impact_graph \<Rightarrow> record_key list \<Rightarrow> expansion \<Rightarrow> nat" where
  "unvisited g pending s = card ((set pending \<union> set (graph_keys g)) - set (visited s))"

lemma unvisited_rest: "unvisited g (butlast pending) s \<le> unvisited g pending s"
  unfolding unvisited_def by (intro card_mono) (auto dest: in_set_butlastD)

lemma unvisited_visit:
  assumes "pending \<noteq> []" and "last pending \<notin> set (visited s)"
  shows "unvisited g (butlast pending @ successors g (last pending) s) (visit g (last pending) s)
    < unvisited g pending s"
proof -
  let ?k = "last pending"
  let ?A = "(set pending \<union> set (graph_keys g)) - set (visited s)"
  have k: "?k \<in> ?A" using assms by simp
  have "(set (butlast pending @ successors g ?k s) \<union> set (graph_keys g)) - set (visited (visit g ?k s)) \<subseteq> ?A - {?k}"
    using successors_subset[of g ?k s] by (auto dest: in_set_butlastD)
  then have "unvisited g (butlast pending @ successors g ?k s) (visit g ?k s) \<le> card (?A - {?k})"
    unfolding unvisited_def by (intro card_mono) auto
  also have "\<dots> < card ?A" using k by (intro psubset_card_mono) auto
  finally show ?thesis unfolding unvisited_def .
qed

lemma expand_loop_measure:
  assumes "pending \<noteq> []" and "k = last pending" and "rest = butlast pending"
  shows "unvisited g rest s < unvisited g pending s
      \<or> unvisited g rest s = unvisited g pending s \<and> length rest < length pending"
    and "k \<notin> set (visited s) \<Longrightarrow>
      unvisited g (rest @ successors g k s) (visit g k s) < unvisited g pending s"
  using assms unvisited_rest[of g pending s] unvisited_visit[of pending s g] by auto

function expand_loop :: "impact_graph \<Rightarrow> record_key list \<Rightarrow> expansion \<Rightarrow> expansion" where
  "expand_loop g pending s =
     (if pending = [] then s
      else let k = last pending; rest = butlast pending
           in if k \<in> set (visited s) then expand_loop g rest s
              else expand_loop g (rest @ successors g k s) (visit g k s))"
  by pat_completeness auto

termination
  by (relation "measures [\<lambda>(g, pending, s). unvisited g pending s, \<lambda>(g, pending, s). length pending]")
    (simp, (use expand_loop_measure in \<open>auto simp only: measures_less measures_lesseq
       in_measures prod.case simp_thms le_less\<close>)+)

declare expand_loop.simps [simp del]

definition graph_expand :: "impact_graph \<Rightarrow> record_key list \<Rightarrow> expansion" where
  "graph_expand g seeds = expand_loop g seeds \<lparr>visited = [], visited_dates = [], reasons = []\<rparr>"

subsection \<open>The plan\<close>

definition empty_plan :: "recovery_scope \<Rightarrow> string list \<Rightarrow> affected_window_plan" where
  "empty_plan scope codes =
     \<lparr>awp_scope = scope, awp_order_ids = [], awp_payout_ids = [], awp_payout_dates = [],
      awp_payout_windows = [], awp_source_keys = [], awp_reason_codes = codes\<rparr>"

definition key_sort_key :: "record_key \<Rightarrow> string \<times> string" where
  "key_sort_key k = (entity_type_value (fst k), snd k)"

definition plan_of_expansion :: "expansion \<Rightarrow> affected_window_plan" where
  "plan_of_expansion e =
     (let ids = \<lambda>et. sort (map snd (filter (\<lambda>k. fst k = et) (visited e)));
          days = sort (visited_dates e)
      in \<lparr>awp_scope = (if reasons e \<noteq> [] then SCOPE_FULL else SCOPE_WINDOWS),
          awp_order_ids = ids ET_ORDER, awp_payout_ids = ids ET_PAYOUT, awp_payout_dates = days,
          awp_payout_windows = compress_dates days,
          awp_source_keys = sort_key key_sort_key (visited e),
          awp_reason_codes = sort (reasons e)\<rparr>)"

definition build_graph :: "financial_record list \<Rightarrow> window_error + impact_graph" where
  "build_graph rs = fold_result graph_add rs empty_graph"

definition plan_affected_windows ::
  "financial_record list \<Rightarrow> financial_record list \<Rightarrow> financial_record list \<Rightarrow> change_kind \<Rightarrow> bool \<Rightarrow> bool
     \<Rightarrow> window_error + affected_window_plan" where
  "plan_affected_windows before after changed kind canonical_changed completeness_changed =
     (if completeness_changed then Inr (empty_plan SCOPE_FULL [''REPORT_COMPLETENESS_CHANGED''])
      else if \<not> canonical_changed \<or> kind \<in> {EXACT_DUPLICATE, STALE_VERSION} then Inr (empty_plan SCOPE_NONE [])
      else if changed = [] then Inr (empty_plan SCOPE_FULL [''CHANGE_EVIDENCE_MISSING''])
      else bind_result (build_graph (before @ after @ changed)) (\<lambda>g.
           bind_result (map_result make_record_key changed) (\<lambda>keys.
             Inr (plan_of_expansion (graph_expand g (remdups keys))))))"

subsection \<open>The windows are exact\<close>

definition in_window :: "date \<Rightarrow> date_window \<Rightarrow> bool" where
  "in_window d w = (start_date w \<le> d \<and> d < end_date_exclusive w)"

fun separated :: "date_window list \<Rightarrow> bool" where
  "separated [] = True"
| "separated [w] = (start_date w < end_date_exclusive w)"
| "separated (w # v # ws) = (start_date w < end_date_exclusive w \<and> end_date_exclusive w < start_date v \<and> separated (v # ws))"

lemma compress_from_windows:
  assumes "sorted (previous # ds)" and "distinct (previous # ds)" and "start \<le> previous"
  shows "(\<exists>w \<in> set (compress_from start previous ds). in_window d w)
      \<longleftrightarrow> (start \<le> d \<and> d \<le> previous) \<or> d \<in> set ds"
    and "separated (compress_from start previous ds)
      \<and> compress_from start previous ds \<noteq> [] \<and> start_date (hd (compress_from start previous ds)) = start"
  using assms
proof (induction start previous ds rule: compress_from.induct)
  case (1 start previous)
  { case 1 then show ?case by (auto simp: in_window_def) }
  { case 2 then show ?case by simp }
next
  case (2 start previous d' ds)
  { case 1 with "2.IH" show ?case by (auto simp: in_window_def) }
  { case 2
    show ?case
    proof (cases "d' = previous + 1")
      case True
      with 2 "2.IH"(4) show ?thesis by simp
    next
      case False
      then obtain v ws where v: "compress_from d' d' ds = v # ws" "start_date v = d'"
        using 2 "2.IH"(2) by (cases "compress_from d' d' ds") auto
      have "separated (v # ws)" using 2 "2.IH"(2) False by (simp add: v)
      moreover have "previous + 1 < d'" using 2 False by auto
      ultimately show ?thesis using False 2 v by simp
    qed }
qed

text \<open>The windows of a set of dates are the maximal runs of adjacent days: they are in order, nonempty, separated by at
  least one day, and a day lies in one of them exactly when it is one of the dates.\<close>

theorem compress_dates_exact:
  "separated (compress_dates days) \<and> ((\<exists>w. w \<in> set (compress_dates days) \<and> in_window d w) \<longleftrightarrow> d \<in> set days)"
proof (cases "sorted_dates days")
  case Nil
  then have "set (sorted_dates days) = {}" by simp
  then have "set days = {}" by simp
  with Nil show ?thesis by (simp add: compress_dates_def)
next
  case (Cons e es)
  have s: "sorted (e # es)" "distinct (e # es)" using Cons sorted_sorted_dates by metis+
  have "set days = insert e (set es)" using Cons by (metis list.simps(15) set_sorted_dates)
  moreover have "(\<exists>w \<in> set (compress_from e e es). in_window d w) \<longleftrightarrow> d = e \<or> d \<in> set es"
    unfolding compress_from_windows(1)[OF s order_refl] by auto
  ultimately show ?thesis
    using compress_from_windows(2)[OF s order_refl] by (auto simp: compress_dates_def Cons)
qed

subsection \<open>The closure\<close>

text \<open>
  The abstract view of a graph: what is known, which keys touch which, the dates and the issues of a
  key, as sets.  The closure is the least set that contains the seeds and follows neighbours and
  shared dates.
\<close>

definition touches :: "impact_graph \<Rightarrow> record_key \<Rightarrow> record_key \<Rightarrow> bool" where
  "touches g k k' = (k' \<in> set (dict_get (neighbors g) k []))"

definition falls_on :: "impact_graph \<Rightarrow> record_key \<Rightarrow> date \<Rightarrow> bool" where
  "falls_on g k d = (d \<in> set (dict_get (dates g) k []))"

definition indexed_on :: "impact_graph \<Rightarrow> date \<Rightarrow> record_key \<Rightarrow> bool" where
  "indexed_on g d k = (k \<in> set (dict_get (keys_by_date g) d []))"

definition has_issue :: "impact_graph \<Rightarrow> record_key \<Rightarrow> string \<Rightarrow> bool" where
  "has_issue g k s = (s \<in> set (dict_get (issues g) k []) \<or> (k \<notin> set (known g) \<and> s = related_missing k))"

inductive impacts :: "impact_graph \<Rightarrow> record_key set \<Rightarrow> record_key \<Rightarrow> bool" for g seeds where
  seed: "k \<in> seeds \<Longrightarrow> impacts g seeds k"
| neighbor: "impacts g seeds k \<Longrightarrow> touches g k k' \<Longrightarrow> impacts g seeds k'"
| same_day: "impacts g seeds k \<Longrightarrow> falls_on g k d \<Longrightarrow> indexed_on g d k' \<Longrightarrow> impacts g seeds k'"

definition closure_invariant ::
  "impact_graph \<Rightarrow> record_key set \<Rightarrow> record_key list \<Rightarrow> expansion \<Rightarrow> bool" where
  "closure_invariant g seeds pending s =
     (seeds \<subseteq> set (visited s) \<union> set pending
      \<and> (\<forall>k \<in> set (visited s) \<union> set pending. impacts g seeds k)
      \<and> (\<forall>k \<in> set (visited s). \<forall>k'. touches g k k' \<longrightarrow> k' \<in> set (visited s) \<union> set pending)
      \<and> (\<forall>d \<in> set (visited_dates s). \<forall>k'. indexed_on g d k' \<longrightarrow> k' \<in> set (visited s) \<union> set pending)
      \<and> set (visited_dates s) = {d. \<exists>k \<in> set (visited s). falls_on g k d}
      \<and> set (reasons s) = {x. \<exists>k \<in> set (visited s). has_issue g k x}
      \<and> distinct (visited s) \<and> distinct (visited_dates s) \<and> distinct (reasons s))"

lemma fold_insert_set [simp]: "set (fold List.insert xs ys) = set xs \<union> set ys"
  by (induction xs arbitrary: ys) auto

lemma fold_insert_distinct [simp]: "distinct (fold List.insert xs ys) \<longleftrightarrow> distinct ys"
  by (induction xs arbitrary: ys) (auto simp: distinct_insert)

lemma visit_dates_reasons:
  "set (visited_dates (visit g k s)) = {d. falls_on g k d} \<union> set (visited_dates s)"
  "set (reasons (visit g k s)) = {x. has_issue g k x} \<union> set (reasons s)"
  "distinct (visited (visit g k s)) = distinct (visited s)"
  "distinct (visited_dates (visit g k s)) = distinct (visited_dates s)"
  "distinct (reasons (visit g k s)) = distinct (reasons s)"
  by (auto simp: visit_def falls_on_def has_issue_def)

lemma successors_members:
  "k' \<in> set (successors g k s) \<longleftrightarrow>
    touches g k k' \<or> (\<exists>d. falls_on g k d \<and> d \<notin> set (visited_dates s) \<and> indexed_on g d k')"
  by (auto simp: successors_def touches_def falls_on_def indexed_on_def)

lemma closure_invariant_pop:
  assumes "closure_invariant g seeds pending s" and "pending \<noteq> []" and "last pending \<in> set (visited s)"
  shows "closure_invariant g seeds (butlast pending) s"
proof -
  have p: "set pending = insert (last pending) (set (butlast pending))"
    using assms(2) by (metis append_butlast_last_id list.set(1) list.set(2) set_append sup_bot_right Un_insert_right)
  have eq: "set (visited s) \<union> set pending = set (visited s) \<union> set (butlast pending)"
    using assms(3) unfolding p by blast
  show ?thesis using assms(1) unfolding closure_invariant_def eq .
qed

lemma closure_invariant_visit:
  assumes "closure_invariant g seeds pending s" and "pending \<noteq> []"
  shows "closure_invariant g seeds (butlast pending @ successors g (last pending) s) (visit g (last pending) s)"
proof -
  let ?k = "last pending"
  let ?s = "visit g ?k s" and ?p = "butlast pending @ successors g ?k s"
  have p: "set pending = insert ?k (set (butlast pending))"
    using assms(2) by (metis append_butlast_last_id list.set(1) list.set(2) set_append sup_bot_right Un_insert_right)
  have sub: "set (visited s) \<union> set pending \<subseteq> set (visited ?s) \<union> set ?p"
    unfolding p by auto
  note inv = assms(1)[unfolded closure_invariant_def]
  have k: "impacts g seeds ?k" using inv unfolding p by blast
  have grow: "impacts g seeds k'" if "k' \<in> set (successors g ?k s)" for k'
    using that k by (auto simp: successors_members intro: impacts.intros)
  show ?thesis
    unfolding closure_invariant_def
  proof (intro conjI)
    show "seeds \<subseteq> set (visited ?s) \<union> set ?p" using inv sub by blast
    show "\<forall>k \<in> set (visited ?s) \<union> set ?p. impacts g seeds k"
      using inv k grow by (auto dest: in_set_butlastD)
    show "\<forall>k \<in> set (visited ?s). \<forall>k'. touches g k k' \<longrightarrow> k' \<in> set (visited ?s) \<union> set ?p"
    proof (intro ballI allI impI)
      fix x k' assume x: "x \<in> set (visited ?s)" "touches g x k'"
      show "k' \<in> set (visited ?s) \<union> set ?p"
      proof (cases "x = ?k")
        case True
        with x(2) have "k' \<in> set (successors g ?k s)" unfolding successors_members by blast
        then show ?thesis by simp
      next
        case False
        with x(1) have "x \<in> set (visited s)" by simp
        with inv x(2) sub show ?thesis by blast
      qed
    qed
    show "\<forall>d \<in> set (visited_dates ?s). \<forall>k'. indexed_on g d k' \<longrightarrow> k' \<in> set (visited ?s) \<union> set ?p"
    proof (intro ballI allI impI)
      fix d k' assume d: "d \<in> set (visited_dates ?s)" "indexed_on g d k'"
      show "k' \<in> set (visited ?s) \<union> set ?p"
      proof (cases "d \<in> set (visited_dates s)")
        case True
        with inv d(2) sub show ?thesis by blast
      next
        case False
        with d have "k' \<in> set (successors g ?k s)"
          by (auto simp: visit_dates_reasons successors_members)
        then show ?thesis by simp
      qed
    qed
  qed (use inv in \<open>auto simp: visit_dates_reasons\<close>)
qed

lemma expand_loop_invariant:
  "closure_invariant g seeds pending s \<Longrightarrow> closure_invariant g seeds [] (expand_loop g pending s)"
proof (induction g pending s rule: expand_loop.induct)
  case (1 g pending s)
  show ?case
  proof (cases "pending = []")
    case True
    with 1(3) show ?thesis by (subst expand_loop.simps) simp
  next
    case False
    show ?thesis
    proof (cases "last pending \<in> set (visited s)")
      case True
      with False 1(1)[OF False refl refl True] closure_invariant_pop[OF 1(3) False True] show ?thesis
        by (simp add: expand_loop.simps[of g pending s] Let_def)
    next
      case nv: False
      with False 1(2)[OF False refl refl nv] closure_invariant_visit[OF 1(3) False] show ?thesis
        by (simp add: expand_loop.simps[of g pending s] Let_def)
    qed
  qed
qed

lemma closure_complete:
  assumes "closure_invariant g seeds [] s"
  shows "set (visited s) = {k. impacts g seeds k}"
proof -
  note inv = assms[unfolded closure_invariant_def list.set(1) sup_bot_right]
  have "k \<in> set (visited s)" if "impacts g seeds k" for k
    using that
  proof induction
    case (same_day k d k')
    then have "d \<in> set (visited_dates s)" using inv by blast
    with same_day inv show ?case by blast
  qed (use inv in blast)+
  with inv show ?thesis by blast
qed

lemma graph_expand_closure:
  fixes g :: impact_graph and seeds :: "record_key list"
  defines "e \<equiv> graph_expand g seeds"
  shows "set (visited e) = {k. impacts g (set seeds) k}"
    and "set (visited_dates e) = {d. \<exists>k. impacts g (set seeds) k \<and> falls_on g k d}"
    and "set (reasons e) = {x. \<exists>k. impacts g (set seeds) k \<and> has_issue g k x}"
    and "distinct (visited e)" "distinct (visited_dates e)" "distinct (reasons e)"
proof -
  have "closure_invariant g (set seeds) seeds \<lparr>visited = [], visited_dates = [], reasons = []\<rparr>"
    by (auto simp: closure_invariant_def intro: impacts.seed)
  then have inv: "closure_invariant g (set seeds) [] e"
    unfolding e_def graph_expand_def by (rule expand_loop_invariant)
  note v = closure_complete[OF inv]
  show "set (visited e) = {k. impacts g (set seeds) k}" by (rule v)
  have i: "set (visited_dates e) = {d. \<exists>k \<in> set (visited e). falls_on g k d}"
    "set (reasons e) = {x. \<exists>k \<in> set (visited e). has_issue g k x}"
    "distinct (visited e)" "distinct (visited_dates e)" "distinct (reasons e)"
    using inv unfolding closure_invariant_def by blast+
  show "set (visited_dates e) = {d. \<exists>k. impacts g (set seeds) k \<and> falls_on g k d}"
    "set (reasons e) = {x. \<exists>k. impacts g (set seeds) k \<and> has_issue g k x}"
    unfolding i(1,2) v mem_Collect_eq Bex_def by (rule refl)+
  show "distinct (visited e)" "distinct (visited_dates e)" "distinct (reasons e)" using i(3-5) .
qed

subsection \<open>The graph of a set of records\<close>

text \<open>The links, the date and the issues one record contributes.\<close>

primrec record_links :: "financial_record \<Rightarrow> (entity_type \<times> string) list" where
  "record_links (OrderRec r) = []"
| "record_links (PaymentRec r) = [(ET_ORDER, pay_order_id r)]"
| "record_links (RefundRec r) = [(ET_PAYMENT, ref_payment_id r)]"
| "record_links (FeeRec r) = [(ET_PAYMENT, fee_payment_id r)]"
| "record_links (SettlementLineRec r) =
     [(ET_PAYOUT, line_payout_id r), (movement_entity (line_movement_type r), line_movement_id r)]"
| "record_links (PayoutRec r) = []"

primrec record_date :: "financial_record \<Rightarrow> date option" where
  "record_date (OrderRec r) = None"
| "record_date (PaymentRec r) = pay_available_on r"
| "record_date (RefundRec r) = ref_available_on r"
| "record_date (FeeRec r) = None"
| "record_date (SettlementLineRec r) = None"
| "record_date (PayoutRec r) = Some (out_date r)"

definition record_issues :: "financial_record \<Rightarrow> string set" where
  "record_issues r =
     (if \<exists>l \<in> set (record_links r). snd l = [] then {''MISSING_RELATIONSHIP_ID''} else {})
     \<union> (case r of
          PaymentRec x \<Rightarrow> if pay_available_on x = None \<and> pay_status x = PS_CAPTURED then {''CAPTURE_DATE_UNRESOLVED''} else {}
        | RefundRec x \<Rightarrow> if ref_available_on x = None \<and> ref_status x = RF_SUCCEEDED then {''REFUND_DATE_UNRESOLVED''} else {}
        | _ \<Rightarrow> {})"

definition linked :: "financial_record \<Rightarrow> record_key \<Rightarrow> record_key \<Rightarrow> bool" where
  "linked r k k' =
     ((k = key_of r \<and> k' \<in> set (record_links r) \<and> snd k' \<noteq> [])
      \<or> (k' = key_of r \<and> k \<in> set (record_links r) \<and> snd k \<noteq> []))"

lemma add_to_get [simp]:
  "set (dict_get (add_to k v d) k' []) = set (dict_get d k' []) \<union> (if k' = k then {v} else {})"
  by (auto simp: add_to_def)

lemma link_facts:
  "set (known (link c t i g)) = set (known g)"
  "touches (link c t i g) k k' \<longleftrightarrow> touches g k k'
     \<or> (i \<noteq> [] \<and> ((k = c \<and> k' = (t, i)) \<or> (k' = c \<and> k = (t, i))))"
  "falls_on (link c t i g) = falls_on g" "indexed_on (link c t i g) = indexed_on g"
  "set (dict_get (issues (link c t i g)) k []) = set (dict_get (issues g) k [])
     \<union> (if i = [] \<and> k = c then {''MISSING_RELATIONSHIP_ID''} else {})"
  by (auto simp: link_def add_issue_def touches_def falls_on_def indexed_on_def Let_def fun_eq_iff)

lemma add_availability_facts:
  "set (known (add_availability c a e s g)) = set (known g)"
  "touches (add_availability c a e s g) = touches g"
  "falls_on (add_availability c a e s g) k d \<longleftrightarrow> falls_on g k d \<or> (k = c \<and> a = Some d)"
  "indexed_on (add_availability c a e s g) d k \<longleftrightarrow> indexed_on g d k \<or> (k = c \<and> a = Some d)"
  "set (dict_get (issues (add_availability c a e s g)) k []) = set (dict_get (issues g) k [])
     \<union> (if k = c \<and> a = None \<and> e then {s} else {})"
  by (auto simp: add_availability_def add_issue_def add_date_def touches_def falls_on_def indexed_on_def fun_eq_iff
      split: option.splits)

lemma add_date_facts:
  "set (known (add_date c d' g)) = set (known g)" "touches (add_date c d' g) = touches g"
  "falls_on (add_date c d' g) k d \<longleftrightarrow> falls_on g k d \<or> (k = c \<and> d = d')"
  "indexed_on (add_date c d' g) d k \<longleftrightarrow> indexed_on g d k \<or> (k = c \<and> d = d')"
  "issues (add_date c d' g) = issues g"
  by (auto simp: add_date_def touches_def falls_on_def indexed_on_def fun_eq_iff)

lemma known_facts:
  "set (known (g\<lparr>known := List.insert k (known g)\<rparr>)) = insert k (set (known g))"
  "touches (g\<lparr>known := x\<rparr>) = touches g" "falls_on (g\<lparr>known := x\<rparr>) = falls_on g"
  "indexed_on (g\<lparr>known := x\<rparr>) = indexed_on g" "issues (g\<lparr>known := x\<rparr>) = issues g"
  by (auto simp: touches_def falls_on_def indexed_on_def fun_eq_iff)

lemmas graph_facts = link_facts add_availability_facts add_date_facts known_facts

lemma add_record_facts:
  "set (known (add_record r g)) = insert (key_of r) (set (known g))"
  "touches (add_record r g) k k' \<longleftrightarrow> touches g k k' \<or> linked r k k'"
  "falls_on (add_record r g) k d \<longleftrightarrow> falls_on g k d \<or> (k = key_of r \<and> record_date r = Some d)"
  "indexed_on (add_record r g) d k \<longleftrightarrow> indexed_on g d k \<or> (k = key_of r \<and> record_date r = Some d)"
  "set (dict_get (issues (add_record r g)) k []) = set (dict_get (issues g) k [])
     \<union> (if k = key_of r then record_issues r else {})"
  by (cases r; auto simp: add_record_def graph_facts linked_def record_issues_def Let_def)+

lemma build_graph_facts:
  assumes "build_graph rs = Inr g"
  shows "set (known g) = key_of ` set rs"
    and "touches g k k' \<longleftrightarrow> (\<exists>r \<in> set rs. linked r k k')"
    and "falls_on g k d \<longleftrightarrow> (\<exists>r \<in> set rs. key_of r = k \<and> record_date r = Some d)"
    and "indexed_on g d k \<longleftrightarrow> falls_on g k d"
    and "set (dict_get (issues g) k []) = (\<Union>r \<in> {r \<in> set rs. key_of r = k}. record_issues r)"
proof -
  have *: "set (known g') = key_of ` set rs \<union> set (known g)
      \<and> (\<forall>k k'. touches g' k k' \<longleftrightarrow> touches g k k' \<or> (\<exists>r \<in> set rs. linked r k k'))
      \<and> (\<forall>k d. falls_on g' k d \<longleftrightarrow> falls_on g k d \<or> (\<exists>r \<in> set rs. key_of r = k \<and> record_date r = Some d))
      \<and> (\<forall>d k. indexed_on g' d k \<longleftrightarrow> indexed_on g d k \<or> (\<exists>r \<in> set rs. key_of r = k \<and> record_date r = Some d))
      \<and> (\<forall>k. set (dict_get (issues g') k []) = set (dict_get (issues g) k [])
           \<union> (\<Union>r \<in> {r \<in> set rs. key_of r = k}. record_issues r))"
    if "fold_result graph_add rs g = Inr g'" for g g'
    using that
  proof (induction rs arbitrary: g)
    case (Cons r rs)
    then have "fold_result graph_add rs (add_record r g) = Inr g'"
      by (auto simp: bind_result_Inr graph_add_def[of r g])
    from Cons.IH[OF this] show ?case
      unfolding add_record_facts set_simps image_insert bex_simps by auto
  qed simp
  note f = *[OF assms[unfolded build_graph_def]]
  have e: "\<not> touches empty_graph k k'" "\<not> falls_on empty_graph k d" "\<not> indexed_on empty_graph d k"
    "set (dict_get (issues empty_graph) k []) = {}" "set (known empty_graph) = {}" for k k' d
    by (simp_all add: empty_graph_def touches_def falls_on_def indexed_on_def)
  note f1 = f[THEN conjunct1] and r1 = f[THEN conjunct2]
  note f2 = r1[THEN conjunct1, rule_format] and r2 = r1[THEN conjunct2]
  note f3 = r2[THEN conjunct1, rule_format] and r3 = r2[THEN conjunct2]
  note f4 = r3[THEN conjunct1, rule_format] and f5 = r3[THEN conjunct2, rule_format]
  show "set (known g) = key_of ` set rs" using f1 e by simp
  show "touches g k k' \<longleftrightarrow> (\<exists>r \<in> set rs. linked r k k')" using f2[of k k'] e by simp
  show "falls_on g k d \<longleftrightarrow> (\<exists>r \<in> set rs. key_of r = k \<and> record_date r = Some d)" using f3[of k d] e by simp
  show "indexed_on g d k \<longleftrightarrow> falls_on g k d" using f3[of k d] f4[of d k] e by simp
  show "set (dict_get (issues g) k []) = (\<Union>r \<in> {r \<in> set rs. key_of r = k}. record_issues r)" using f5[of k] e by simp
qed

subsection \<open>Plans and closures\<close>

text \<open>The closure stated on records: what a change of \<open>C\<close> can reach among the records \<open>R\<close>.\<close>

inductive affected :: "financial_record set \<Rightarrow> financial_record set \<Rightarrow> record_key \<Rightarrow> bool" for R C where
  changed: "r \<in> C \<Longrightarrow> affected R C (key_of r)"
| linked: "affected R C k \<Longrightarrow> r \<in> R \<Longrightarrow> linked r k k' \<Longrightarrow> affected R C k'"
| same_day: "affected R C (key_of r) \<Longrightarrow> r \<in> R \<Longrightarrow> record_date r = Some d \<Longrightarrow> r' \<in> R \<Longrightarrow>
    record_date r' = Some d \<Longrightarrow> affected R C (key_of r')"

definition affected_date :: "financial_record set \<Rightarrow> financial_record set \<Rightarrow> date \<Rightarrow> bool" where
  "affected_date R C d = (\<exists>r \<in> R. record_date r = Some d \<and> affected R C (key_of r))"

definition affected_reason :: "financial_record set \<Rightarrow> financial_record set \<Rightarrow> string \<Rightarrow> bool" where
  "affected_reason R C s =
     ((\<exists>r \<in> R. affected R C (key_of r) \<and> s \<in> record_issues r)
      \<or> (\<exists>k. affected R C k \<and> k \<notin> key_of ` R \<and> s = related_missing k))"

lemma impacts_affected:
  assumes "build_graph rs = Inr g"
  shows "impacts g (key_of ` C) k \<longleftrightarrow> affected (set rs) C k"
proof
  assume "impacts g (key_of ` C) k"
  then show "affected (set rs) C k"
  proof induction
    case (seed k)
    then show ?case by (auto intro: affected.changed)
  next
    case (neighbor k k')
    then show ?case unfolding build_graph_facts(2)[OF assms] by (auto intro: affected.linked)
  next
    case (same_day k d k')
    then show ?case
      unfolding build_graph_facts(4)[OF assms] build_graph_facts(3)[OF assms]
      by (auto intro: affected.same_day)
  qed
next
  assume "affected (set rs) C k"
  then show "impacts g (key_of ` C) k"
  proof induction
    case (changed r)
    then show ?case by (auto intro: impacts.seed)
  next
    case (linked k r k')
    then have "touches g k k'" unfolding build_graph_facts(2)[OF assms] by blast
    with linked.IH show ?case by (rule impacts.neighbor)
  next
    case (same_day r d r')
    then have "falls_on g (key_of r) d" "indexed_on g d (key_of r')"
      unfolding build_graph_facts(4)[OF assms] build_graph_facts(3)[OF assms] by blast+
    with same_day.IH show ?case by (rule impacts.same_day)
  qed
qed

lemma build_graph_total: "(\<exists>g. build_graph rs = Inr g) \<longleftrightarrow> (\<forall>r \<in> set rs. record_id r \<noteq> [])"
proof -
  have "(\<exists>g'. fold_result graph_add rs g = Inr g') \<longleftrightarrow> (\<forall>r \<in> set rs. record_id r \<noteq> [])" for g
  proof (induction rs arbitrary: g)
    case (Cons r rs)
    then show ?case
      by (cases "record_id r = []") (simp_all add: graph_add_def[of r] make_record_key_def)
  qed simp
  then show ?thesis by (simp add: build_graph_def)
qed

lemma window_error_single: "(x :: window_error + 'a) = Inl e \<longleftrightarrow> (\<nexists>y. x = Inr y)"
  by (cases e; cases x) (auto intro: window_error.exhaust)

lemma make_keys: "\<forall>r \<in> set rs. record_id r \<noteq> [] \<Longrightarrow> map_result make_record_key rs = Inr (map key_of rs)"
  by (rule map_result_pure) (simp add: make_record_key_def)

definition planned_change :: "change_kind \<Rightarrow> bool" where
  "planned_change kind = (kind \<noteq> EXACT_DUPLICATE \<and> kind \<noteq> STALE_VERSION)"

lemma plan_InrE:
  assumes "plan_affected_windows before after changed kind True False = Inr plan"
    and "planned_change kind" and "changed \<noteq> []"
  obtains g where "build_graph (before @ after @ changed) = Inr g"
    "plan = plan_of_expansion (graph_expand g (remdups (map key_of changed)))"
proof -
  from assms obtain g keys where g: "build_graph (before @ after @ changed) = Inr g"
    and keys: "map_result make_record_key changed = Inr keys"
    and plan: "plan = plan_of_expansion (graph_expand g (remdups keys))"
    by (auto simp: plan_affected_windows_def planned_change_def bind_result_Inr)
  have "\<forall>r \<in> set (before @ after @ changed). record_id r \<noteq> []"
    using g build_graph_total by blast
  then have "keys = map key_of changed" using keys make_keys[of changed] by simp
  with g plan that show thesis by simp
qed

lemma expansion_sets:
  assumes "build_graph rs = Inr g"
  shows "set (visited (graph_expand g (remdups (map key_of cs)))) = {k. affected (set rs) (set cs) k}"
    and "set (visited_dates (graph_expand g (remdups (map key_of cs)))) = {d. affected_date (set rs) (set cs) d}"
    and "set (reasons (graph_expand g (remdups (map key_of cs)))) = {s. affected_reason (set rs) (set cs) s}"
proof -
  note c = graph_expand_closure(1-3)[of g "remdups (map key_of cs)", unfolded set_remdups set_map impacts_affected[OF assms]]
  show "set (visited (graph_expand g (remdups (map key_of cs)))) = {k. affected (set rs) (set cs) k}" by (rule c(1))
  show "set (visited_dates (graph_expand g (remdups (map key_of cs)))) = {d. affected_date (set rs) (set cs) d}"
    unfolding c(2) build_graph_facts(3)[OF assms] affected_date_def by blast
  show "set (reasons (graph_expand g (remdups (map key_of cs)))) = {s. affected_reason (set rs) (set cs) s}"
    unfolding c(3) has_issue_def build_graph_facts(5)[OF assms] build_graph_facts(1)[OF assms] affected_reason_def
    by blast
qed

lemma sorted_sets:
  assumes "distinct xs"
  shows "sort xs = sorted_list_of_set (set xs)"
  using assms by (simp add: sorted_list_of_set_sort_remdups distinct_remdups_id)

lemma ids_of_type:
  assumes "distinct ks"
  shows "sort (map snd (filter (\<lambda>k. fst k = et) ks)) = sorted_list_of_set {i. (et, i) \<in> set ks}"
proof -
  have "distinct (map snd (filter (\<lambda>k. fst k = et) ks))"
    using assms by (auto simp: distinct_map inj_on_def)
  moreover have "set (map snd (filter (\<lambda>k. fst k = et) ks)) = {i. (et, i) \<in> set ks}" by force
  ultimately show ?thesis by (simp only: sorted_sets)
qed

lemma entity_type_value_inj: "inj entity_type_value"
  by (rule injI) (case_tac x; case_tac y; simp)

lemma inj_key_sort_key: "inj key_sort_key"
  using entity_type_value_inj by (auto simp: key_sort_key_def inj_def)

text \<open>C29: The plan is the closure: with \<open>R\<close> the records before, after and changed, its keys are exactly those a changed
  record reaches over relationships in either direction and over shared availability or payout dates; its order and
  payout identifiers and its dates are read off these keys, sorted and without repetition; and the scope is FULL exactly
  when a reached key is unknown or has an unresolved relationship or date.\<close>

theorem plan_is_closure:
  assumes "plan_affected_windows before after changed kind True False = Inr plan"
    and "planned_change kind" and "changed \<noteq> []"
  defines "R \<equiv> set (before @ after @ changed)" and "C \<equiv> set changed"
  shows "set (awp_source_keys plan) = {k. affected R C k}
    \<and> awp_order_ids plan = sorted_list_of_set {i. affected R C (ET_ORDER, i)}
    \<and> awp_payout_ids plan = sorted_list_of_set {i. affected R C (ET_PAYOUT, i)}
    \<and> awp_payout_dates plan = sorted_list_of_set {d. affected_date R C d}
    \<and> awp_reason_codes plan = sorted_list_of_set {s. affected_reason R C s}
    \<and> awp_scope plan = (if \<exists>s. affected_reason R C s then SCOPE_FULL else SCOPE_WINDOWS)"
  using assms(1-3)
proof (rule plan_InrE)
  fix g
  assume g: "build_graph (before @ after @ changed) = Inr g"
    and plan: "plan = plan_of_expansion (graph_expand g (remdups (map key_of changed)))"
  let ?e = "graph_expand g (remdups (map key_of changed))"
  note s = expansion_sets[OF g, of changed, folded R_def C_def]
  note d = graph_expand_closure(4-6)[of g "remdups (map key_of changed)"]
  have r: "reasons ?e \<noteq> [] \<longleftrightarrow> (\<exists>s. affected_reason R C s)" unfolding set_empty[symmetric] s(3) by blast
  show ?thesis
    unfolding plan plan_of_expansion_def Let_def affected_window_plan.simps set_sort r
      ids_of_type[OF d(1)] sorted_sets[OF d(2)] sorted_sets[OF d(3)] s mem_Collect_eq
    by blast
qed

definition plan_records :: "financial_record list" where
  "plan_records = [PaymentRec \<lparr>pay_id = ''p1'', pay_order_id = ''o1'', pay_attempt_number = 1, pay_method = PM_CARD,
     pay_status = PS_CAPTURED, pay_amount = 10000, pay_currency = ''EUR'', pay_effective_at_utc = 0,
     pay_available_on = Some 739000, pay_source_version = 1\<rparr>]"

theorem plan_is_closure_witness:
  "\<exists>plan. plan_affected_windows [] plan_records plan_records NEW_FACT True False = Inr plan
    \<and> (ET_ORDER, ''o1'') \<in> set (awp_source_keys plan) \<and> awp_scope plan = SCOPE_FULL"
proof -
  let ?R = "set plan_records"
  have id: "\<forall>r \<in> set plan_records. record_id r \<noteq> []" by (simp add: plan_records_def)
  then obtain g where "build_graph ([] @ plan_records @ plan_records) = Inr g"
    using build_graph_total[of "[] @ plan_records @ plan_records"] by auto
  moreover have ne: "plan_records \<noteq> []" "planned_change NEW_FACT" by (simp_all add: plan_records_def planned_change_def)
  ultimately obtain plan where plan: "plan_affected_windows [] plan_records plan_records NEW_FACT True False = Inr plan"
    using make_keys[OF id] by (auto simp: plan_affected_windows_def)
  have p: "affected ?R ?R (ET_PAYMENT, ''p1'')"
    using affected.changed[of "hd plan_records" ?R ?R] by (simp add: plan_records_def key_of_def)
  then have o: "affected ?R ?R (ET_ORDER, ''o1'')"
    by (rule affected.linked[of _ _ _ "hd plan_records"]) (simp_all add: plan_records_def linked_def key_of_def)
  then have "affected_reason ?R ?R (related_missing (ET_ORDER, ''o1''))"
    by (auto simp: affected_reason_def plan_records_def key_of_def intro!: exI[of _ "(ET_ORDER, ''o1'')"])
  with plan_is_closure[OF plan ne(2,1)] o plan show ?thesis
    by (intro exI[of _ plan]) (auto simp: plan_records_def)
qed

text \<open>The plan depends only on which records there are: reordering or repeating the records before, after and changed
  gives the same plan or the same error.\<close>

theorem plan_order_independent:
  assumes "set (before @ after @ changed) = set (before' @ after' @ changed')" and "set changed = set changed'"
  shows "plan_affected_windows before after changed kind canonical_changed completeness_changed
    = plan_affected_windows before' after' changed' kind canonical_changed completeness_changed"
proof (cases "\<not> completeness_changed \<and> canonical_changed \<and> planned_change kind \<and> changed \<noteq> []")
  case False
  then show ?thesis using assms(2) by (auto simp: plan_affected_windows_def planned_change_def)
next
  case True
  then have ne: "changed \<noteq> []" "changed' \<noteq> []" using assms(2) by auto
  show ?thesis
  proof (cases "\<forall>r \<in> set (before @ after @ changed). record_id r \<noteq> []")
    case False
    then have "build_graph (before @ after @ changed) = Inl RecordIdEmpty"
      "build_graph (before' @ after' @ changed') = Inl RecordIdEmpty"
      using build_graph_total[of "before @ after @ changed"] build_graph_total[of "before' @ after' @ changed'"]
      unfolding window_error_single assms(1) by blast+
    with True ne show ?thesis by (auto simp: plan_affected_windows_def planned_change_def)
  next
    case ok: True
    then obtain g g' where g: "build_graph (before @ after @ changed) = Inr g"
      "build_graph (before' @ after' @ changed') = Inr g'"
      using build_graph_total[of "before @ after @ changed"] build_graph_total[of "before' @ after' @ changed'"]
      unfolding assms(1) by blast
    have k: "map_result make_record_key changed = Inr (map key_of changed)"
      "map_result make_record_key changed' = Inr (map key_of changed')"
      using ok assms(2) by (auto intro!: make_keys)
    let ?e = "graph_expand g (remdups (map key_of changed))" and ?e' = "graph_expand g' (remdups (map key_of changed'))"
    have s: "set (visited ?e) = set (visited ?e')" "set (visited_dates ?e) = set (visited_dates ?e')"
      "set (reasons ?e) = set (reasons ?e')"
      unfolding expansion_sets[OF g(1)] expansion_sets[OF g(2)] assms by (rule refl)+
    note d = graph_expand_closure(4-6)[of g "remdups (map key_of changed)"]
      and d' = graph_expand_closure(4-6)[of g' "remdups (map key_of changed')"]
    have "sort_key key_sort_key (visited ?e) = sort_key key_sort_key (visited ?e')"
      by (rule sort_key_eq_of_set[OF d(1) d'(1) s(1) inj_on_subset[OF inj_key_sort_key subset_UNIV]])
    moreover have "(reasons ?e \<noteq> []) = (reasons ?e' \<noteq> [])" unfolding set_empty[symmetric] s by (rule refl)
    ultimately have "plan_of_expansion ?e = plan_of_expansion ?e'"
      unfolding plan_of_expansion_def Let_def ids_of_type[OF d(1)] ids_of_type[OF d'(1)]
        sorted_sets[OF d(2)] sorted_sets[OF d'(2)] sorted_sets[OF d(3)] sorted_sets[OF d'(3)] s
      by simp
    with True ne g k show ?thesis by (simp add: plan_affected_windows_def planned_change_def)
  qed
qed

theorem plan_order_independent_witness:
  "plan_affected_windows plan_records [] plan_records NEW_FACT True False
    = plan_affected_windows [] plan_records (plan_records @ plan_records) NEW_FACT True False"
  by (rule plan_order_independent) simp_all

end
