(* ===== verification/Impact_Soundness.thy ===== *)
theory Impact_Soundness
  imports Affected_Windows Reconcile_Properties
begin

text \<open>
  Why the plan of a recovery is enough: reconciling before and after a change gives the same rows for
  every order and the same figures for every payout that the plan does not name.
\<close>

subsection \<open>What a plan leaves alone\<close>

lemma affected_finite:
  assumes "build_graph rs = Inr g"
  shows "finite {k. affected (set rs) (set cs) k}" "finite {d. affected_date (set rs) (set cs) d}"
  unfolding expansion_sets[OF assms, symmetric] by simp_all

text \<open>Every record that is only in one of the two canonical sets is a changed record.\<close>

definition covers_difference ::
  "financial_record list \<Rightarrow> financial_record list \<Rightarrow> financial_record list \<Rightarrow> bool" where
  "covers_difference before after changed =
     (set before - set after \<subseteq> set changed \<and> set after - set before \<subseteq> set changed)"

lemma unaffected_same:
  assumes "covers_difference before after changed" and "\<not> affected R (set changed) (key_of r)"
  shows "r \<in> set before \<longleftrightarrow> r \<in> set after"
proof -
  have "r \<notin> set changed" using assms(2) affected.changed by blast
  with assms(1) show ?thesis by (auto simp: covers_difference_def)
qed

text \<open>Records linked to an unaffected key are unaffected themselves.\<close>

lemma affected_link_back:
  assumes "\<not> affected R C k'" and "r \<in> R" and "linked r (key_of r) k'"
  shows "\<not> affected R C (key_of r)"
  using affected.linked[OF _ assms(2,3)] assms(1) by blast

lemma filtered_eq:
  assumes "sorted (map key xs)" "sorted (map key ys)" "distinct (map key xs)" "distinct (map key ys)"
    and "\<And>x. P x \<Longrightarrow> x \<in> set xs \<longleftrightarrow> x \<in> set ys"
  shows "filter P xs = filter P ys"
proof -
  have "sorted (map key (filter P xs))" "sorted (map key (filter P ys))"
    using assms(1,2) by (simp_all add: sorted_filter)
  then have "filter P xs = sort_key key (filter P xs)" "filter P ys = sort_key key (filter P ys)"
    by (simp_all add: sort_key_id_if_sorted)
  moreover have "sort_key key (filter P xs) = sort_key key (filter P ys)"
  proof (rule sort_key_eq_of_set)
    show "distinct (filter P xs)" "distinct (filter P ys)"
      using assms(3,4) by (simp_all add: distinct_map)
    show "set (filter P xs) = set (filter P ys)" using assms(5) by auto
    show "inj_on key (set (filter P xs))" using assms(3) by (auto simp: distinct_map inj_on_def)
  qed
  ultimately show ?thesis by simp
qed

lemma input_sorted:
  "sorted (map pay_id (in_payments (input_of canon)))" "sorted (map ref_id (in_refunds (input_of canon)))"
  "sorted (map fee_id (in_fees (input_of canon)))" "sorted (map line_id (in_lines (input_of canon)))"
  by (simp_all add: input_of_def split_canonical_records_def)

text \<open>The two runs compared: before and after the change, with distinct identities.\<close>

definition change_of ::
  "canonicalization_result \<Rightarrow> canonicalization_result \<Rightarrow> financial_record list \<Rightarrow> bool" where
  "change_of before after changed =
     (identities_distinct before \<and> identities_distinct after
      \<and> canon_well_formed before \<and> canon_well_formed after
      \<and> covers_difference (canonical_records before) (canonical_records after) changed)"

definition change_records ::
  "canonicalization_result \<Rightarrow> canonicalization_result \<Rightarrow> financial_record list \<Rightarrow> financial_record set" where
  "change_records before after changed =
     set (canonical_records before @ canonical_records after @ changed)"

lemma canonical_text_nonempty: "canonical_text s \<Longrightarrow> s \<noteq> []"
  by (auto simp: canonical_text_def)

lemma member_same:
  assumes "change_of before after changed"
    and "\<not> affected (change_records before after changed) (set changed) k"
    and "key_of r = k \<or> linked r (key_of r) k"
  shows "r \<in> set (canonical_records before) \<longleftrightarrow> r \<in> set (canonical_records after)"
proof (cases "r \<in> change_records before after changed")
  case True
  then have "\<not> affected (change_records before after changed) (set changed) (key_of r)"
    using assms(2,3) affected_link_back by blast
  with assms(1) show ?thesis by (intro unaffected_same) (auto simp: change_of_def)
qed (auto simp: change_records_def)

lemma linked_unaffected:
  assumes "\<not> affected (change_records before after changed) (set changed) k"
    and "r \<in> set (canonical_records before) \<or> r \<in> set (canonical_records after)"
    and "key_of r = k \<or> linked r (key_of r) k"
  shows "\<not> affected (change_records before after changed) (set changed) (key_of r)"
  using assms affected_link_back[of _ _ k r] by (auto simp: change_records_def)

lemma movement_entity_payout [simp]: "movement_entity t \<noteq> ET_PAYOUT" "ET_PAYOUT \<noteq> movement_entity t"
  by (cases t; simp)+

lemma links [simp]:
  "linked (PaymentRec p) (key_of (PaymentRec p)) (ET_ORDER, i) \<longleftrightarrow> pay_order_id p = i \<and> i \<noteq> []"
  "linked (RefundRec r) (key_of (RefundRec r)) (ET_PAYMENT, i) \<longleftrightarrow> ref_payment_id r = i \<and> i \<noteq> []"
  "linked (FeeRec f) (key_of (FeeRec f)) (ET_PAYMENT, i) \<longleftrightarrow> fee_payment_id f = i \<and> i \<noteq> []"
  "linked (SettlementLineRec l) (key_of (SettlementLineRec l)) (ET_PAYOUT, i) \<longleftrightarrow> line_payout_id l = i \<and> i \<noteq> []"
  by (auto simp: linked_def key_of_def)

lemma well_formed_ids:
  assumes "canon_well_formed canon" and "r \<in> set (canonical_records canon)"
  shows "snd (key_of r) \<noteq> []"
  using assms by (cases r) (auto simp: canon_well_formed_def key_of_def well_formed_defs dest!: bspec canonical_text_nonempty)

lemma captured_members:
  "p \<in> set (captured_payments (input_of canon)) \<longleftrightarrow> PaymentRec p \<in> set (canonical_records canon) \<and> pay_status p = PS_CAPTURED"
  "r \<in> set (successful_refunds (input_of canon)) \<longleftrightarrow> RefundRec r \<in> set (canonical_records canon) \<and> ref_status r = RF_SUCCEEDED"
  by (auto simp: captured_payments_def successful_refunds_def)

lemma same_payments:
  assumes "change_of before after changed"
    and "\<And>p. P p \<Longrightarrow> PaymentRec p \<in> set (canonical_records before) \<longleftrightarrow> PaymentRec p \<in> set (canonical_records after)"
  shows "filter P (captured_payments (input_of before)) = filter P (captured_payments (input_of after))"
  unfolding captured_payments_def filter_filter
  by (rule filtered_eq[where key = pay_id])
    (use assms input_sorted input_distinct in \<open>simp_all add: change_of_def\<close>)

lemma same_refunds:
  assumes "change_of before after changed"
    and "\<And>r. P r \<Longrightarrow> RefundRec r \<in> set (canonical_records before) \<longleftrightarrow> RefundRec r \<in> set (canonical_records after)"
  shows "filter P (successful_refunds (input_of before)) = filter P (successful_refunds (input_of after))"
  unfolding successful_refunds_def filter_filter
  by (rule filtered_eq[where key = ref_id])
    (use assms input_sorted input_distinct in \<open>simp_all add: change_of_def\<close>)

lemma same_fees:
  assumes "change_of before after changed"
    and "\<And>f. P f \<Longrightarrow> FeeRec f \<in> set (canonical_records before) \<longleftrightarrow> FeeRec f \<in> set (canonical_records after)"
  shows "filter P (in_fees (input_of before)) = filter P (in_fees (input_of after))"
  by (rule filtered_eq[where key = fee_id])
    (use assms input_sorted input_distinct in \<open>simp_all add: change_of_def\<close>)

lemma same_lines:
  assumes "change_of before after changed"
    and "\<And>l. P l \<Longrightarrow> SettlementLineRec l \<in> set (canonical_records before) \<longleftrightarrow> SettlementLineRec l \<in> set (canonical_records after)"
  shows "filter P (in_lines (input_of before)) = filter P (in_lines (input_of after))"
  by (rule filtered_eq[where key = line_id])
    (use assms input_sorted input_distinct in \<open>simp_all add: change_of_def\<close>)

text \<open>The facts of an unaffected order.\<close>

lemma unaffected_order:
  assumes ch: "change_of before after changed"
    and un: "\<not> affected (change_records before after changed) (set changed) (ET_ORDER, oid)" and "oid \<noteq> []"
  shows "filter (\<lambda>p. pay_order_id p = oid) (captured_payments (input_of before))
      = filter (\<lambda>p. pay_order_id p = oid) (captured_payments (input_of after))" (is "?ps = ?ps'")
    and "set ids \<subseteq> pay_id ` set (filter (\<lambda>p. pay_order_id p = oid) (captured_payments (input_of before))) \<Longrightarrow>
      filter (\<lambda>r. ref_payment_id r \<in> set ids) (successful_refunds (input_of before))
        = filter (\<lambda>r. ref_payment_id r \<in> set ids) (successful_refunds (input_of after))
      \<and> filter (\<lambda>f. fee_payment_id f \<in> set ids) (in_fees (input_of before))
        = filter (\<lambda>f. fee_payment_id f \<in> set ids) (in_fees (input_of after))"
proof -
  show "?ps = ?ps'"
    by (rule same_payments[OF ch]) (use member_same[OF ch un] assms(3) in simp)
  assume ids: "set ids \<subseteq> pay_id ` set ?ps"
  have un_pay: "\<not> affected (change_records before after changed) (set changed) (ET_PAYMENT, i) \<and> i \<noteq> []"
    if i: "i \<in> set ids" for i
  proof -
    from ids i have "i \<in> pay_id ` set ?ps" by blast
    then obtain p where p: "i = pay_id p" "PaymentRec p \<in> set (canonical_records before)" "pay_order_id p = oid"
      unfolding image_iff set_filter captured_members by blast
    have "\<not> affected (change_records before after changed) (set changed) (key_of (PaymentRec p))"
      by (rule linked_unaffected[OF un]) (use p assms(3) in simp_all)
    moreover have "snd (key_of (PaymentRec p)) \<noteq> []"
      using ch p(2) by (intro well_formed_ids[of before]) (auto simp: change_of_def)
    ultimately show ?thesis by (simp add: key_of_def p(1))
  qed
  have rs: "RefundRec r \<in> set (canonical_records before) \<longleftrightarrow> RefundRec r \<in> set (canonical_records after)"
    if "ref_payment_id r \<in> set ids" for r
    using un_pay[OF that] member_same[OF ch, of "(ET_PAYMENT, ref_payment_id r)" "RefundRec r"] by simp
  have fs: "FeeRec f \<in> set (canonical_records before) \<longleftrightarrow> FeeRec f \<in> set (canonical_records after)"
    if "fee_payment_id f \<in> set ids" for f
    using un_pay[OF that] member_same[OF ch, of "(ET_PAYMENT, fee_payment_id f)" "FeeRec f"] by simp
  show "filter (\<lambda>r. ref_payment_id r \<in> set ids) (successful_refunds (input_of before))
        = filter (\<lambda>r. ref_payment_id r \<in> set ids) (successful_refunds (input_of after))
      \<and> filter (\<lambda>f. fee_payment_id f \<in> set ids) (in_fees (input_of before))
        = filter (\<lambda>f. fee_payment_id f \<in> set ids) (in_fees (input_of after))"
    using same_refunds[OF ch, of "\<lambda>r. ref_payment_id r \<in> set ids", OF rs]
      same_fees[OF ch, of "\<lambda>f. fee_payment_id f \<in> set ids", OF fs] by (rule conjI)
qed

lemma unaffected_payment_clean:
  assumes "change_of before after changed"
    and "\<not> affected (change_records before after changed) (set changed) (ET_ORDER, oid)" and "oid \<noteq> []"
    and "p \<in> set (filter (\<lambda>p. pay_order_id p = oid) (captured_payments (input_of before)))"
  shows "payment_clean (input_of before) p = payment_clean (input_of after) p"
proof -
  let ?same = "\<lambda>ids. filter (\<lambda>r. ref_payment_id r \<in> set ids) (successful_refunds (input_of before))
        = filter (\<lambda>r. ref_payment_id r \<in> set ids) (successful_refunds (input_of after))
      \<and> filter (\<lambda>f. fee_payment_id f \<in> set ids) (in_fees (input_of before))
        = filter (\<lambda>f. fee_payment_id f \<in> set ids) (in_fees (input_of after))"
  have "set [pay_id p] \<subseteq> pay_id ` set (filter (\<lambda>p. pay_order_id p = oid) (captured_payments (input_of before)))"
    unfolding list.set using imageI[OF assms(4), of pay_id] by (rule insert_subsetI) (rule empty_subsetI)
  from unaffected_order(2)[OF assms(1-3) this] have "?same [pay_id p]" .
  then show ?thesis unfolding payment_clean_def Let_def by simp
qed

lemma unaffected_order_clean:
  assumes "change_of before after changed"
    and "\<not> affected (change_records before after changed) (set changed) (ET_ORDER, ord_id ord)" and "ord_id ord \<noteq> []"
  shows "order_clean (input_of before) ord = order_clean (input_of after) ord"
proof -
  note eq = unaffected_order(1)[OF assms]
  have "(\<forall>p \<in> set (filter (\<lambda>p. pay_order_id p = ord_id ord) (captured_payments (input_of before))). payment_clean (input_of before) p)
      \<longleftrightarrow> (\<forall>p \<in> set (filter (\<lambda>p. pay_order_id p = ord_id ord) (captured_payments (input_of after))). payment_clean (input_of after) p)"
    unfolding eq[symmetric] using unaffected_payment_clean[OF assms] by blast
  then show ?thesis unfolding order_clean_def Let_def by (simp only: eq)
qed

lemma fee_lookup:
  assumes "change_of before after changed"
    and "expected_fee_by_payment (input_of before) = Inr f" and "expected_fee_by_payment (input_of after) = Inr f'"
    and "p \<in> set (captured_payments (input_of before))" and "p \<in> set (captured_payments (input_of after))"
  shows "dict_get f (pay_id p) 0 = dict_get f' (pay_id p) 0"
  using expected_fee_by_payment_get[OF _ assms(2,4)] expected_fee_by_payment_get[OF _ assms(3,5)] assms(1)
  by (auto simp: change_of_def)

lemma unaffected_row:
  assumes ch: "change_of before after changed"
    and un: "\<not> affected (change_records before after changed) (set changed) (ET_ORDER, ord_id ord)" and ne: "ord_id ord \<noteq> []"
    and f: "expected_fee_by_payment (input_of before) = Inr f" "expected_fee_by_payment (input_of after) = Inr f'"
    and state: "tx_state (transaction_row_of cx states (input_of before) f log ord)
      = tx_state (transaction_row_of cx states' (input_of after) f' log' ord)"
  shows "transaction_row_of cx states (input_of before) f log ord
    = (transaction_row_of cx states' (input_of after) f' log' ord)\<lparr>tx_codes := transaction_codes log (ord_id ord)\<rparr>"
proof -
  let ?ps = "filter (\<lambda>p. pay_order_id p = ord_id ord) (captured_payments (input_of before))"
  let ?ids = "remdups (map pay_id ?ps)"
  note ps = unaffected_order(1)[OF ch un ne]
  have ops: "order_payments (input_of before) ord = ?ps" "order_payments (input_of after) ord = ?ps"
    by (simp_all add: order_payments_def captured_by_order_def ps)
  have rf: "filter (\<lambda>r. ref_payment_id r \<in> set ?ids) (successful_refunds (input_of before))
        = filter (\<lambda>r. ref_payment_id r \<in> set ?ids) (successful_refunds (input_of after))"
      "filter (\<lambda>f. fee_payment_id f \<in> set ?ids) (in_fees (input_of before))
        = filter (\<lambda>f. fee_payment_id f \<in> set ?ids) (in_fees (input_of after))"
    using unaffected_order(2)[OF ch un ne, of ?ids] by simp_all
  have fees: "map (\<lambda>i. dict_get f i 0) ?ids = map (\<lambda>i. dict_get f' i 0) ?ids"
  proof (rule map_cong[OF refl])
    fix i assume "i \<in> set ?ids"
    then obtain p where p: "i = pay_id p" "p \<in> set ?ps" by auto
    from p(2) have "p \<in> set (captured_payments (input_of before))" by simp
    moreover from p(2) have "p \<in> set (captured_payments (input_of after))" unfolding ps by simp
    ultimately show "dict_get f i 0 = dict_get f' i 0" unfolding p(1) by (rule fee_lookup[OF ch f])
  qed
  show ?thesis
    using state unfolding transaction_row_of_def Let_def captured_total_def ops rf fees
    by simp
qed

text \<open>C15: A transaction the plan does not name keeps its row: when the canonical records change only in the changed
  records, every order row of the run before whose order is not in the plan reappears in the run after with the same
  state, the same counts and the same amounts (only the list of its exception codes is not compared).\<close>

theorem unplanned_orders_keep_rows:
  assumes "plan_affected_windows (canonical_records before) (canonical_records after) changed kind True False = Inr plan"
    and "planned_change kind" and "changed \<noteq> []" and "change_of before after changed"
    and "reconcile rid detected before results quarantine = Inr res"
    and "reconcile rid detected after results quarantine' = Inr res'"
    and "tx \<in> set (rr_transactions res)" and "tx_order_id tx \<notin> set (awp_order_ids plan)"
  shows "\<exists>tx' \<in> set (rr_transactions res'). tx = tx'\<lparr>tx_codes := tx_codes tx\<rparr>"
proof -
  let ?R = "change_records before after changed"
  have ids: "identities_distinct before" "identities_distinct after" "canon_well_formed before"
    using assms(4) by (auto simp: change_of_def)
  from assms(1-3) have un: "\<not> affected ?R (set changed) (ET_ORDER, tx_order_id tx)"
  proof (rule plan_InrE)
    fix g
    assume g: "build_graph (canonical_records before @ canonical_records after @ changed) = Inr g"
      and plan: "plan = plan_of_expansion (graph_expand g (remdups (map key_of changed)))"
    have "(ET_ORDER, tx_order_id tx) \<notin> set (visited (graph_expand g (remdups (map key_of changed))))"
      using assms(8) by (force simp: plan plan_of_expansion_def Let_def)
    then show ?thesis unfolding expansion_sets(1)[OF g] change_records_def by simp
  qed
  from assms(5) ids(1) show ?thesis
  proof (rule reconcile_rowsE)
    fix cx states fee_of
    assume b: "run_id cx = rid" "detected = Aware (detected_at_utc cx)"
      "build_report_state_map (sort_key completeness_sort_key results) = Inr states"
      "expected_fee_by_payment (input_of before) = Inr fee_of"
      and rows: "rr_transactions res = sort_key tx_order_id (map (\<lambda>ord. transaction_row_of cx states (input_of before) fee_of
        (base_log cx states before (sort_key completeness_sort_key results) fee_of
          @ order_findings cx states (input_of before) ord) ord) (in_orders (input_of before)))"
    from assms(6) ids(2) show ?thesis
    proof (rule reconcile_rowsE)
      fix cx' states' fee_of'
      assume a: "run_id cx' = rid" "detected = Aware (detected_at_utc cx')"
        "build_report_state_map (sort_key completeness_sort_key results) = Inr states'"
        "expected_fee_by_payment (input_of after) = Inr fee_of'"
        and rows': "rr_transactions res' = sort_key tx_order_id (map (\<lambda>ord. transaction_row_of cx' states' (input_of after) fee_of'
          (base_log cx' states' after (sort_key completeness_sort_key results) fee_of'
            @ order_findings cx' states' (input_of after) ord) ord) (in_orders (input_of after)))"
      have cx: "cx' = cx" using a b by (cases cx; cases cx') simp
      let ?log = "\<lambda>ord. base_log cx states before (sort_key completeness_sort_key results) fee_of
          @ order_findings cx states (input_of before) ord"
      let ?log' = "\<lambda>ord. base_log cx states' after (sort_key completeness_sort_key results) fee_of'
          @ order_findings cx states' (input_of after) ord"
      from assms(7) rows obtain ord where ord: "ord \<in> set (in_orders (input_of before))"
        and tx: "tx = transaction_row_of cx states (input_of before) fee_of (?log ord) ord"
        by (auto simp del: input_members)
      have oid: "tx_order_id tx = ord_id ord" by (simp add: tx transaction_row_id)
      have ne: "ord_id ord \<noteq> []"
        using well_formed_ids[OF ids(3), of "OrderRec ord"] ord by (simp add: key_of_def)
      note un' = un[unfolded oid]
      have "ord \<in> set (in_orders (input_of after))"
        using ord member_same[OF assms(4) un', of "OrderRec ord"] by (simp add: key_of_def)
      note ord' = this
      let ?tx' = "transaction_row_of cx states' (input_of after) fee_of' (?log' ord) ord"
      have "tx_state tx = tx_state ?tx'"
        unfolding tx transaction_row_state[OF ids(1) ord b(3,4)] transaction_row_state[OF ids(2) ord' a(3,4)]
          unaffected_order_clean[OF assms(4) un' ne] by (rule refl)
      then have "tx = ?tx'\<lparr>tx_codes := transaction_codes (?log ord) (ord_id ord)\<rparr>"
        unfolding tx by (rule unaffected_row[OF assms(4) un' ne b(4) a(4)])
      moreover have "?tx' \<in> set (rr_transactions res')"
        unfolding rows' cx using ord' by (auto simp del: input_members)
      ultimately show ?thesis by (intro bexI[of _ ?tx']) auto
    qed
  qed
qed

definition second_order :: order where
  "second_order = sample_ord\<lparr>ord_id := ''o2''\<rparr>"

definition second_canon :: canonicalization_result where
  "second_canon = sample_canon\<lparr>canonical_records := canonical_records sample_canon @ [OrderRec second_order]\<rparr>"

lemma second_split:
  "input_of second_canon = (input_of sample_canon)\<lparr>in_orders := [sample_ord, second_order]\<rparr>"
  by code_simp

lemma second_change: "change_of sample_canon second_canon [OrderRec second_order]"
proof -
  have "canonical_text ''o2''" by code_simp
  then have "canon_well_formed second_canon"
    using sample_well_formed by (simp add: canon_well_formed_def second_canon_def second_order_def well_formed_order_def sample_canon_def)
  moreover have "identities_distinct second_canon"
    by (simp add: identities_distinct_def second_canon_def second_order_def sample_canon_def record_identity_simps sample_line_def sample_ord_def)
  ultimately show ?thesis
    using sample_identities sample_well_formed by (auto simp: change_of_def covers_difference_def second_canon_def)
qed

lemma second_affected:
  assumes "affected (change_records sample_canon second_canon [OrderRec second_order]) {OrderRec second_order} k"
  shows "k = (ET_ORDER, ''o2'')"
  using assms
proof induction
  case (changed r)
  then show ?case by (simp add: key_of_def second_order_def)
next
  case (linked k r k')
  then show ?case
    by (auto simp: change_records_def second_canon_def sample_canon_def linked_def key_of_def second_order_def
        sample_line_def sample_ord_def sample_payment_def sample_fee_def sample_payout_def)
next
  case (same_day r d r')
  then show ?case
    by (auto simp: change_records_def second_canon_def sample_canon_def key_of_def second_order_def
        sample_line_def sample_ord_def sample_payment_def sample_fee_def sample_payout_def)
qed

lemma second_plan:
  obtains plan where
    "plan_affected_windows (canonical_records sample_canon) (canonical_records second_canon) [OrderRec second_order]
       NEW_FACT True False = Inr plan"
    "set (awp_order_ids plan) \<subseteq> {''o2''}" "set (awp_payout_ids plan) = {}"
proof -
  let ?all = "canonical_records sample_canon @ canonical_records second_canon @ [OrderRec second_order]"
  let ?e = "\<lambda>g. graph_expand g (remdups (map key_of [OrderRec second_order]))"
  have "\<forall>r \<in> set ?all. record_id r \<noteq> []"
    by (simp add: second_canon_def sample_canon_def second_order_def sample_line_def sample_ord_def sample_payment_def
        sample_fee_def sample_payout_def)
  then obtain g where g: "build_graph ?all = Inr g" using build_graph_total[of ?all] by blast
  have "set (visited (?e g)) \<subseteq> {(ET_ORDER, ''o2'')}"
    unfolding expansion_sets(1)[OF g] using second_affected by (auto simp: change_records_def)
  then have "set (awp_order_ids (plan_of_expansion (?e g))) \<subseteq> {''o2''}" "set (awp_payout_ids (plan_of_expansion (?e g))) = {}"
    by (auto simp: plan_of_expansion_def Let_def filter_empty_conv)
  moreover have "plan_affected_windows (canonical_records sample_canon) (canonical_records second_canon) [OrderRec second_order]
      NEW_FACT True False = Inr (plan_of_expansion (?e g))"
    using g make_keys[of "[OrderRec second_order]"] by (simp add: plan_affected_windows_def second_order_def)
  ultimately show thesis using that by blast
qed

lemma second_run:
  obtains res where "reconcile ''run-1'' (Aware 0) second_canon sample_complete [] = Inr res"
proof -
  have "canon_well_formed second_canon" using second_change by (simp add: change_of_def)
  then have "\<exists>res. reconcile ''run-1'' (Aware 0) second_canon sample_complete [] = Inr res"
    by (subst reconcile_succeeds) (simp_all add: second_split sample_split)
  with that show thesis by blast
qed

lemma single_order: "planned_change NEW_FACT" "[OrderRec second_order] \<noteq> []"
  by (simp_all add: planned_change_def)

theorem unplanned_orders_keep_rows_witness:
  "\<exists>plan res res' tx tx'.
    plan_affected_windows (canonical_records sample_canon) (canonical_records second_canon) [OrderRec second_order]
       NEW_FACT True False = Inr plan
    \<and> reconcile ''run-1'' (Aware 0) sample_canon sample_complete [] = Inr res
    \<and> reconcile ''run-1'' (Aware 0) second_canon sample_complete [] = Inr res'
    \<and> tx \<in> set (rr_transactions res) \<and> tx' \<in> set (rr_transactions res') \<and> tx = tx'\<lparr>tx_codes := tx_codes tx\<rparr>"
proof (rule second_plan)
  fix plan
  assume plan: "plan_affected_windows (canonical_records sample_canon) (canonical_records second_canon) [OrderRec second_order]
       NEW_FACT True False = Inr plan" and ids: "set (awp_order_ids plan) \<subseteq> {''o2''}"
  obtain res where run: "reconcile ''run-1'' (Aware 0) sample_canon sample_complete [] = Inr res" by (rule sample_run_exists)
  obtain res' where run': "reconcile ''run-1'' (Aware 0) second_canon sample_complete [] = Inr res'" by (rule second_run)
  have tx_ids: "map tx_order_id (rr_transactions res) = [''o1'']"
    using run_transaction_rows[OF run sample_identities] by (simp add: sample_split sample_ord_def)
  then obtain tx where tx: "tx \<in> set (rr_transactions res)" "tx_order_id tx = ''o1''" by auto
  with ids have "tx_order_id tx \<notin> set (awp_order_ids plan)" by auto
  from unplanned_orders_keep_rows[OF plan single_order second_change run run' tx(1) this] plan run run' tx(1)
  show ?thesis by blast
qed

subsection \<open>Payouts\<close>

text \<open>The facts of an unaffected payout: its lines, and the captures and refunds available on its date.\<close>

lemma date_links:
  assumes "\<not> affected R C (key_of (PayoutRec out))" and "PayoutRec out \<in> R" and "r \<in> R"
    and "record_date r = Some (out_date out)"
  shows "\<not> affected R C (key_of r)"
  using affected.same_day[of R C r "out_date out" "PayoutRec out"] assms by auto

lemma unaffected_payout:
  assumes ch: "change_of before after changed"
    and un: "\<not> affected (change_records before after changed) (set changed) (key_of (PayoutRec out))"
    and out: "PayoutRec out \<in> set (canonical_records before)" and ne: "out_id out \<noteq> []"
  shows "filter (\<lambda>p. pay_available_on p = Some (out_date out)) (captured_payments (input_of before))
      = filter (\<lambda>p. pay_available_on p = Some (out_date out)) (captured_payments (input_of after))"
    and "filter (\<lambda>r. ref_available_on r = Some (out_date out)) (successful_refunds (input_of before))
      = filter (\<lambda>r. ref_available_on r = Some (out_date out)) (successful_refunds (input_of after))"
    and "filter (\<lambda>l. line_payout_id l = out_id out) (in_lines (input_of before))
      = filter (\<lambda>l. line_payout_id l = out_id out) (in_lines (input_of after))"
proof -
  let ?R = "change_records before after changed"
  have outR: "PayoutRec out \<in> ?R" using out by (simp add: change_records_def)
  have same: "r \<in> set (canonical_records before) \<longleftrightarrow> r \<in> set (canonical_records after)"
    if "record_date r = Some (out_date out)" for r
  proof (cases "r \<in> ?R")
    case True
    from member_same[OF ch date_links[OF un outR True that]] show ?thesis by simp
  qed (auto simp: change_records_def)
  show "filter (\<lambda>p. pay_available_on p = Some (out_date out)) (captured_payments (input_of before))
      = filter (\<lambda>p. pay_available_on p = Some (out_date out)) (captured_payments (input_of after))"
    by (rule same_payments[OF ch]) (use same in simp)
  show "filter (\<lambda>r. ref_available_on r = Some (out_date out)) (successful_refunds (input_of before))
      = filter (\<lambda>r. ref_available_on r = Some (out_date out)) (successful_refunds (input_of after))"
    by (rule same_refunds[OF ch]) (use same in simp)
  show "filter (\<lambda>l. line_payout_id l = out_id out) (in_lines (input_of before))
      = filter (\<lambda>l. line_payout_id l = out_id out) (in_lines (input_of after))"
  proof (rule same_lines[OF ch])
    fix l :: settlement_line
    assume "line_payout_id l = out_id out"
    then show "SettlementLineRec l \<in> set (canonical_records before) \<longleftrightarrow> SettlementLineRec l \<in> set (canonical_records after)"
      using member_same[OF ch un, of "SettlementLineRec l"] ne by (simp add: key_of_def[of "PayoutRec out"])
  qed
qed

text \<open>A payout the plan does not name keeps its figures: in the same setting, every payout row of the run before whose
  payout is not in the plan has a row in the run after with the same date, the same expected payout, line total and
  provider amount, and so the same two variances.\<close>

theorem unplanned_payouts_keep_figures:
  assumes "plan_affected_windows (canonical_records before) (canonical_records after) changed kind True False = Inr plan"
    and "planned_change kind" and "changed \<noteq> []" and "change_of before after changed"
    and "reconcile rid detected before results quarantine = Inr res"
    and "reconcile rid detected after results quarantine' = Inr res'"
    and "po \<in> set (rr_payouts res)" and "po_payout_id po \<notin> set (awp_payout_ids plan)"
  shows "\<exists>po' \<in> set (rr_payouts res'). po_payout_id po' = po_payout_id po \<and> po_payout_date po' = po_payout_date po
    \<and> po_expected po' = po_expected po \<and> po_line_total po' = po_line_total po
    \<and> po_reported_net po' = po_reported_net po
    \<and> po_provider_variance po' = po_provider_variance po \<and> po_end_to_end_variance po' = po_end_to_end_variance po"
proof -
  let ?R = "change_records before after changed"
  have ids: "identities_distinct before" "identities_distinct after" "canon_well_formed before"
    using assms(4) by (auto simp: change_of_def)
  from assms(1-3) have un: "\<not> affected ?R (set changed) (ET_PAYOUT, po_payout_id po)"
  proof (rule plan_InrE)
    fix g
    assume g: "build_graph (canonical_records before @ canonical_records after @ changed) = Inr g"
      and plan: "plan = plan_of_expansion (graph_expand g (remdups (map key_of changed)))"
    have "(ET_PAYOUT, po_payout_id po) \<notin> set (visited (graph_expand g (remdups (map key_of changed))))"
      using assms(8) by (force simp: plan plan_of_expansion_def Let_def)
    then show ?thesis unfolding expansion_sets(1)[OF g] change_records_def by simp
  qed
  from assms(5) ids(1) show ?thesis
  proof (rule reconcile_rowsE)
    fix cx states fee_of
    assume b: "expected_fee_by_payment (input_of before) = Inr fee_of"
      "expected_movements (input_of before) fee_of = Inr (rr_movements res)"
      and rows: "rr_payouts res = sort_key payout_row_sort_key (map (\<lambda>out. payout_row_of cx states (input_of before) (rr_movements res)
        (order_log cx states before (sort_key completeness_sort_key results) fee_of
          @ settlement_rules cx states (input_of before)
          @ payout_findings cx states (input_of before) (rr_movements res) out) out) (in_payouts (input_of before)))"
    from assms(6) ids(2) show ?thesis
    proof (rule reconcile_rowsE)
      fix cx' states' fee_of'
      assume a: "expected_fee_by_payment (input_of after) = Inr fee_of'"
        "expected_movements (input_of after) fee_of' = Inr (rr_movements res')"
        and rows': "rr_payouts res' = sort_key payout_row_sort_key (map (\<lambda>out. payout_row_of cx' states' (input_of after) (rr_movements res')
          (order_log cx' states' after (sort_key completeness_sort_key results) fee_of'
            @ settlement_rules cx' states' (input_of after)
            @ payout_findings cx' states' (input_of after) (rr_movements res') out) out) (in_payouts (input_of after)))"
      from assms(7) rows obtain out log where out: "out \<in> set (in_payouts (input_of before))"
        and po: "po = payout_row_of cx states (input_of before) (rr_movements res) log out"
        by (auto simp del: input_members)
      have pid: "po_payout_id po = out_id out" by (simp add: po payout_row_of_def Let_def)
      have outb: "PayoutRec out \<in> set (canonical_records before)" using out by simp
      have ne: "out_id out \<noteq> []" using well_formed_ids[OF ids(3) outb] by (simp add: key_of_def)
      have un': "\<not> affected ?R (set changed) (key_of (PayoutRec out))" using un by (simp add: key_of_def pid)
      note eq = unaffected_payout[OF assms(4) un' outb ne]
      have outa: "out \<in> set (in_payouts (input_of after))"
        using outb member_same[OF assms(4) un', of "PayoutRec out"] by simp
      let ?cap = "filter (\<lambda>p. pay_available_on p = Some (out_date out)) (captured_payments (input_of before))"
      have fees: "map (\<lambda>p. pay_amount p - dict_get fee_of (pay_id p) 0) ?cap = map (\<lambda>p. pay_amount p - dict_get fee_of' (pay_id p) 0) ?cap"
      proof (rule map_cong[OF refl])
        fix p assume p: "p \<in> set ?cap"
        have "p \<in> set (captured_payments (input_of before))" using p by simp
        moreover have "p \<in> set (captured_payments (input_of after))" using p unfolding eq(1) by simp
        ultimately show "pay_amount p - dict_get fee_of (pay_id p) 0 = pay_amount p - dict_get fee_of' (pay_id p) 0"
          using fee_lookup[OF assms(4) b(1) a(1)] by simp
      qed
      have exp: "expected_payout (rr_movements res) out = expected_payout (rr_movements res') out"
        unfolding expected_payout_sum[OF b(2)] expected_payout_sum[OF a(2)] eq(1,2)[symmetric] fees by (rule refl)
      have lines: "reported_line_total (input_of before) out = reported_line_total (input_of after) out"
        by (simp add: reported_line_total_def lines_of_def eq(3))
      from outa rows' obtain log' where "payout_row_of cx' states' (input_of after) (rr_movements res') log' out \<in> set (rr_payouts res')"
        by (auto simp del: input_members)
      then show ?thesis
        by (rule bexI[rotated]) (simp add: po payout_row_of_def Let_def exp lines)
    qed
  qed
qed

theorem unplanned_payouts_keep_figures_witness:
  "\<exists>res res' po po'. reconcile ''run-1'' (Aware 0) sample_canon sample_complete [] = Inr res
    \<and> reconcile ''run-1'' (Aware 0) second_canon sample_complete [] = Inr res'
    \<and> po \<in> set (rr_payouts res) \<and> po' \<in> set (rr_payouts res') \<and> po_expected po' = po_expected po"
proof (rule second_plan)
  fix plan
  assume plan: "plan_affected_windows (canonical_records sample_canon) (canonical_records second_canon) [OrderRec second_order]
       NEW_FACT True False = Inr plan" and ids: "set (awp_payout_ids plan) = {}"
  obtain res where run: "reconcile ''run-1'' (Aware 0) sample_canon sample_complete [] = Inr res" by (rule sample_run_exists)
  obtain res' where run': "reconcile ''run-1'' (Aware 0) second_canon sample_complete [] = Inr res'" by (rule second_run)
  have "rr_payouts res \<noteq> []"
    using run sample_identities by (rule reconcile_rowsE) (simp add: sample_split)
  then obtain po where po: "po \<in> set (rr_payouts res)" by (meson list.set_sel(1))
  with ids have "po_payout_id po \<notin> set (awp_payout_ids plan)" by simp
  from unplanned_payouts_keep_figures[OF plan single_order second_change run run' po this] run run' po
  show ?thesis by blast
qed

end
