(* ===== verification/Recovery_Queue.thy ===== *)
theory Recovery_Queue
  imports Calendar
begin

text \<open>
  \<open>recovery_queue.py\<close> over the tables of migrations 006 and 007: the recovery requests and the
  history of their attempts.  An operation takes whether its connection is in a transaction, the
  readings of the database clock and the two tables, and returns the error it raises or the tables
  after it.  A raised error rolls the caller's transaction back, so an error carries no tables.  The
  CHECK constraints and primary keys of the two tables are part of the model; a write that breaks one
  raises.  A UUID is its canonical text, whose order is that of the database.
\<close>

subsection \<open>Tables\<close>

type_synonym uuid = string

datatype request_status = RQ_PENDING | RQ_SUCCEEDED | RQ_FAILED

datatype attempt_outcome = ATT_SUCCEEDED | ATT_FAILED

record recovery_request =
  rq_id :: uuid
  rq_key :: string
  rq_trigger_receipt :: "uuid option"
  rq_trigger_batch :: "uuid option"
  rq_reason_code :: string
  rq_as_of :: instant
  rq_status :: request_status
  rq_attempt_count :: int
  rq_last_error :: "string option"
  rq_result_run :: "uuid option"
  rq_created_at :: instant
  rq_completed_at :: "instant option"
  rq_next_attempt_at :: instant
  rq_max_attempts :: int
  rq_base_delay :: int

record recovery_attempt =
  att_request :: uuid
  att_number :: int
  att_outcome :: attempt_outcome
  att_run :: "uuid option"
  att_error :: "string option"
  att_recorded_at :: instant

record recovery_queue =
  q_requests :: "recovery_request list"
  q_attempts :: "recovery_attempt list"

definition empty_queue :: recovery_queue where
  "empty_queue = \<lparr>q_requests = [], q_attempts = []\<rparr>"

datatype queue_error =
    NoTransaction
  | RequestMissing
  | RequestNotPending
  | AttemptLimitExceeded
  | AdditionalAttemptsInvalid
  | RequestNotFailed
  | ConstraintViolated string

text \<open>The constraints of a request row, an attempt row, and the range of the INTEGER columns.\<close>

definition int4 :: "int \<Rightarrow> bool" where
  "int4 i = (- 2147483648 \<le> i \<and> i \<le> 2147483647)"

definition completion_consistent :: "recovery_request \<Rightarrow> bool" where
  "completion_consistent r =
     (case rq_status r of
        RQ_PENDING \<Rightarrow> rq_result_run r = None \<and> rq_completed_at r = None
      | RQ_SUCCEEDED \<Rightarrow> rq_result_run r \<noteq> None \<and> rq_completed_at r \<noteq> None
      | RQ_FAILED \<Rightarrow> rq_result_run r = None \<and> rq_completed_at r \<noteq> None \<and> rq_last_error r \<noteq> None)"

definition request_constraints :: "recovery_request \<Rightarrow> bool" where
  "request_constraints r =
     (completion_consistent r
      \<and> 0 \<le> rq_attempt_count r \<and> int4 (rq_attempt_count r)
      \<and> 1 \<le> rq_max_attempts r \<and> int4 (rq_max_attempts r)
      \<and> 0 \<le> rq_base_delay r \<and> rq_base_delay r \<le> 3600
      \<and> (rq_status r = RQ_PENDING \<longrightarrow> rq_attempt_count r < rq_max_attempts r))"

definition attempt_constraints :: "recovery_attempt \<Rightarrow> bool" where
  "attempt_constraints a =
     (1 \<le> att_number a \<and> int4 (att_number a)
      \<and> (case att_outcome a of
           ATT_SUCCEEDED \<Rightarrow> att_run a \<noteq> None \<and> att_error a = None
         | ATT_FAILED \<Rightarrow> att_run a = None \<and> att_error a \<noteq> None))"

definition find_request :: "uuid \<Rightarrow> recovery_queue \<Rightarrow> recovery_request option" where
  "find_request i q = List.find (\<lambda>r. rq_id r = i) (q_requests q)"

definition update_request :: "recovery_request \<Rightarrow> recovery_queue \<Rightarrow> queue_error + recovery_queue" where
  "update_request r q =
     bind_result (require (request_constraints r) (ConstraintViolated ''recovery_request'')) (\<lambda>_.
       Inr (q\<lparr>q_requests := map (\<lambda>x. if rq_id x = rq_id r then r else x) (q_requests q)\<rparr>))"

definition insert_attempt :: "recovery_attempt \<Rightarrow> recovery_queue \<Rightarrow> queue_error + recovery_queue" where
  "insert_attempt a q =
     bind_result (require (attempt_constraints a \<and> find_request (att_request a) q \<noteq> None
         \<and> (att_request a, att_number a) \<notin> set (map (\<lambda>b. (att_request b, att_number b)) (q_attempts q)))
       (ConstraintViolated ''recovery_attempt'')) (\<lambda>_.
       Inr (q\<lparr>q_attempts := q_attempts q @ [a]\<rparr>))"

text \<open>
  A row as the two INSERT statements of the program leave it: the columns they do not name have the
  defaults of the migrations.
\<close>

definition new_request ::
  "uuid \<Rightarrow> string \<Rightarrow> uuid option \<Rightarrow> uuid option \<Rightarrow> string \<Rightarrow> instant \<Rightarrow> instant \<Rightarrow> recovery_request" where
  "new_request i key receipt batch reason as_of now =
     \<lparr>rq_id = i, rq_key = key, rq_trigger_receipt = receipt, rq_trigger_batch = batch,
      rq_reason_code = reason, rq_as_of = as_of, rq_status = RQ_PENDING, rq_attempt_count = 0,
      rq_last_error = None, rq_result_run = None, rq_created_at = now, rq_completed_at = None,
      rq_next_attempt_at = now, rq_max_attempts = 5, rq_base_delay = 30\<rparr>"

definition insert_request :: "recovery_request \<Rightarrow> recovery_queue \<Rightarrow> queue_error + recovery_queue" where
  "insert_request r q =
     bind_result (require (request_constraints r
         \<and> rq_id r \<notin> set (map rq_id (q_requests q)) \<and> rq_key r \<notin> set (map rq_key (q_requests q)))
       (ConstraintViolated ''recovery_request'')) (\<lambda>_.
       Inr (q\<lparr>q_requests := q_requests q @ [r]\<rparr>))"

subsection \<open>Operations\<close>

definition request_ready :: "instant \<Rightarrow> uuid list \<Rightarrow> recovery_request \<Rightarrow> bool" where
  "request_ready now locked r =
     (rq_status r = RQ_PENDING \<and> rq_attempt_count r < rq_max_attempts r
      \<and> rq_next_attempt_at r \<le> now \<and> rq_id r \<notin> set locked)"

definition queue_order :: "recovery_request \<Rightarrow> instant \<times> instant \<times> uuid" where
  "queue_order r = (rq_next_attempt_at r, rq_created_at r, rq_id r)"

definition next_ready ::
  "bool \<Rightarrow> instant \<Rightarrow> uuid list \<Rightarrow> recovery_queue \<Rightarrow> queue_error + recovery_request option" where
  "next_ready in_transaction now locked q =
     bind_result (require in_transaction NoTransaction) (\<lambda>_.
       Inr (case sort_key queue_order (filter (request_ready now locked) (q_requests q)) of
              [] \<Rightarrow> None
            | r # _ \<Rightarrow> Some r))"

definition mark_succeeded ::
  "bool \<Rightarrow> instant \<Rightarrow> uuid \<Rightarrow> uuid \<Rightarrow> recovery_queue \<Rightarrow> queue_error + recovery_queue" where
  "mark_succeeded in_transaction now request_id run_id q =
     bind_result (require in_transaction NoTransaction) (\<lambda>_.
       case find_request request_id q of
         None \<Rightarrow> Inl RequestMissing
       | Some r \<Rightarrow>
           bind_result (require (rq_status r = RQ_PENDING) RequestNotPending) (\<lambda>_.
             let attempt_number = rq_attempt_count r + 1 in
             bind_result (require (attempt_number \<le> rq_max_attempts r) AttemptLimitExceeded) (\<lambda>_.
             bind_result (insert_attempt
                 \<lparr>att_request = request_id, att_number = attempt_number, att_outcome = ATT_SUCCEEDED,
                  att_run = Some run_id, att_error = None, att_recorded_at = now\<rparr> q)
               (update_request
                 (r\<lparr>rq_status := RQ_SUCCEEDED, rq_attempt_count := attempt_number, rq_last_error := None,
                    rq_result_run := Some run_id, rq_completed_at := Some now\<rparr>)))))"

definition retry_delay :: "int \<Rightarrow> int \<Rightarrow> int" where
  "retry_delay base attempt_number =
     (let exponent = min (attempt_number - 1) 12 in min 3600 (base * 2 ^ nat exponent))"

definition error_message :: "string \<Rightarrow> string \<Rightarrow> string" where
  "error_message type_name detail = take 2000 (type_name @ '': '' @ detail)"

definition record_failure ::
  "bool \<Rightarrow> instant \<Rightarrow> uuid \<Rightarrow> string \<Rightarrow> recovery_queue \<Rightarrow> queue_error + recovery_queue" where
  "record_failure in_transaction now request_id message q =
     bind_result (require in_transaction NoTransaction) (\<lambda>_.
       case find_request request_id q of
         None \<Rightarrow> Inl RequestMissing
       | Some r \<Rightarrow>
           if rq_status r \<noteq> RQ_PENDING then Inr q
           else
             let attempt_number = rq_attempt_count r + 1;
                 exhausted = rq_max_attempts r \<le> attempt_number
             in bind_result (insert_attempt
                  \<lparr>att_request = request_id, att_number = attempt_number, att_outcome = ATT_FAILED,
                   att_run = None, att_error = Some message, att_recorded_at = now\<rparr> q)
                (update_request
                  (r\<lparr>rq_attempt_count := attempt_number, rq_last_error := Some message,
                     rq_status := (if exhausted then RQ_FAILED else RQ_PENDING),
                     rq_next_attempt_at := now + 1000000 * retry_delay (rq_base_delay r) attempt_number,
                     rq_completed_at := (if exhausted then Some now else None)\<rparr>)))"

definition requeue_failed ::
  "bool \<Rightarrow> instant \<Rightarrow> uuid \<Rightarrow> int \<Rightarrow> recovery_queue \<Rightarrow> queue_error + recovery_queue" where
  "requeue_failed in_transaction now request_id additional_attempts q =
     bind_result (require in_transaction NoTransaction) (\<lambda>_.
     bind_result (require (1 \<le> additional_attempts) AdditionalAttemptsInvalid) (\<lambda>_.
       case find_request request_id q of
         None \<Rightarrow> Inl RequestNotFailed
       | Some r \<Rightarrow>
           bind_result (require (rq_status r = RQ_FAILED) RequestNotFailed) (\<lambda>_.
             update_request
               (r\<lparr>rq_status := RQ_PENDING, rq_max_attempts := rq_attempt_count r + additional_attempts,
                  rq_next_attempt_at := now, rq_completed_at := None\<rparr>) q)))"

text \<open>What any number of workers and operators may do to the queue, one transaction at a time.\<close>

inductive queue_step :: "recovery_queue \<Rightarrow> recovery_queue \<Rightarrow> bool" where
  enqueued: "insert_request (new_request i key receipt batch reason as_of now) q = Inr q' \<Longrightarrow> queue_step q q'"
| succeeded: "mark_succeeded True now i run q = Inr q' \<Longrightarrow> queue_step q q'"
| failed: "record_failure True now i message q = Inr q' \<Longrightarrow> queue_step q q'"
| requeued: "requeue_failed True now i additional q = Inr q' \<Longrightarrow> queue_step q q'"

inductive_cases queue_stepE: "queue_step q q'"

subsection \<open>Searching and updating the tables\<close>

lemma find_request_Some:
  "find_request i q = Some r \<Longrightarrow> r \<in> set (q_requests q) \<and> rq_id r = i"
  by (auto simp: find_request_def find_Some_iff in_set_conv_nth)

lemma find_request_unique:
  assumes "distinct (map rq_id (q_requests q))" "r \<in> set (q_requests q)"
  shows "find_request (rq_id r) q = Some r"
proof -
  obtain r' where "find_request (rq_id r) q = Some r'"
    using assms(2) by (cases "find_request (rq_id r) q") (auto simp: find_request_def find_None_iff)
  with find_request_Some[OF this] assms show ?thesis
    by (auto dest: inj_on_of_distinct_map inj_onD)
qed

lemma find_request_None: "find_request i q = None \<longleftrightarrow> i \<notin> rq_id ` set (q_requests q)"
  by (auto simp: find_request_def find_None_iff)

definition attempts_of :: "uuid \<Rightarrow> recovery_queue \<Rightarrow> recovery_attempt list" where
  "attempts_of i q = filter (\<lambda>a. att_request a = i) (q_attempts q)"

text \<open>
  A request and its history agree: the attempts are numbered from one, all of them failed except the
  last one of a succeeded request, which published the run the request points at.
\<close>

definition history_ok :: "recovery_request \<Rightarrow> recovery_attempt list \<Rightarrow> bool" where
  "history_ok r as =
     (map att_number as = [1..rq_attempt_count r] \<and> list_all attempt_constraints as
      \<and> (if rq_status r = RQ_SUCCEEDED
         then as \<noteq> [] \<and> att_outcome (last as) = ATT_SUCCEEDED \<and> att_run (last as) = rq_result_run r
           \<and> list_all (\<lambda>a. att_outcome a = ATT_FAILED) (butlast as)
         else list_all (\<lambda>a. att_outcome a = ATT_FAILED) as))"

definition queue_ok :: "recovery_queue \<Rightarrow> bool" where
  "queue_ok q =
     (distinct (map rq_id (q_requests q)) \<and> distinct (map rq_key (q_requests q))
      \<and> list_all (\<lambda>a. att_request a \<in> rq_id ` set (q_requests q)) (q_attempts q)
      \<and> list_all (\<lambda>r. request_constraints r \<and> history_ok r (attempts_of (rq_id r) q)) (q_requests q))"

lemma queue_ok_request:
  assumes "queue_ok q" "find_request i q = Some r"
  shows "rq_id r = i" "request_constraints r" "history_ok r (attempts_of i q)"
  using assms find_request_Some[OF assms(2)] by (auto simp: queue_ok_def list_all_iff)

lemma map_replace_column:
  assumes "\<And>x. x \<in> set xs \<Longrightarrow> k x = k r \<Longrightarrow> f x = f r"
  shows "map f (map (\<lambda>x. if k x = k r then r else x) xs) = map f xs"
  using assms by auto

text \<open>One request is rewritten and attempts of its own are added.\<close>

lemma queue_ok_rewrite:
  assumes ok: "queue_ok q" and found: "find_request i q = Some r"
    and same: "rq_id r' = i" "rq_key r' = rq_key r"
    and good: "request_constraints r'" "history_ok r' (attempts_of i q @ as)"
    and own: "list_all (\<lambda>a. att_request a = i) as"
  shows "queue_ok (q\<lparr>q_requests := map (\<lambda>x. if rq_id x = rq_id r' then r' else x) (q_requests q),
    q_attempts := q_attempts q @ as\<rparr>)"
proof -
  let ?rs = "map (\<lambda>x. if rq_id x = rq_id r' then r' else x) (q_requests q)"
  have r: "r \<in> set (q_requests q)" "rq_id r = i" using find_request_Some[OF found] by auto
  have only: "x = r" if "x \<in> set (q_requests q)" "rq_id x = i" for x
    using ok that r by (auto simp: queue_ok_def dest: inj_on_of_distinct_map inj_onD)
  have ids: "map rq_id ?rs = map rq_id (q_requests q)"
    using same by (intro map_replace_column) auto
  have keys: "map rq_key ?rs = map rq_key (q_requests q)"
    using same only by (intro map_replace_column) auto
  have set_ids: "rq_id ` set ?rs = rq_id ` set (q_requests q)"
    using arg_cong[OF ids, of set] by (simp only: set_map)
  have atts: "list_all (\<lambda>a. att_request a \<in> rq_id ` set (q_requests q)) (q_attempts q @ as)"
    using ok own r by (auto simp: queue_ok_def list_all_iff)
  have mine: "attempts_of j (q\<lparr>q_requests := ?rs, q_attempts := q_attempts q @ as\<rparr>)
      = (if j = i then attempts_of i q @ as else attempts_of j q)" for j
    using own by (auto simp: attempts_of_def list_all_iff filter_empty_conv)
  have rows: "request_constraints x \<and> history_ok x (if rq_id x = i then attempts_of i q @ as else attempts_of (rq_id x) q)"
    if "x \<in> set ?rs" for x
    using that ok same good by (auto simp: queue_ok_def list_all_iff)
  have "distinct (map rq_id ?rs)" "distinct (map rq_key ?rs)"
    using ok unfolding ids keys by (auto simp: queue_ok_def)
  moreover have "list_all (\<lambda>a. att_request a \<in> rq_id ` set ?rs) (q_attempts q @ as)"
    unfolding set_ids by (rule atts)
  moreover have "list_all (\<lambda>x. request_constraints x
      \<and> history_ok x (if rq_id x = i then attempts_of i q @ as else attempts_of (rq_id x) q)) ?rs"
    unfolding list_all_iff by (intro ballI rows)
  ultimately show ?thesis
    unfolding queue_ok_def mine by simp
qed

subsection \<open>What an operation that returns has done\<close>

lemma update_request_Inr:
  "update_request r q = Inr q' \<longleftrightarrow> request_constraints r
    \<and> q' = q\<lparr>q_requests := map (\<lambda>x. if rq_id x = rq_id r then r else x) (q_requests q)\<rparr>"
  by (auto simp: update_request_def result_simps)

lemma insert_attempt_Inr:
  "insert_attempt a q = Inr q' \<longleftrightarrow> attempt_constraints a \<and> find_request (att_request a) q \<noteq> None
    \<and> (att_request a, att_number a) \<notin> (\<lambda>b. (att_request b, att_number b)) ` set (q_attempts q)
    \<and> q' = q\<lparr>q_attempts := q_attempts q @ [a]\<rparr>"
  by (auto simp: insert_attempt_def result_simps)

text \<open>The next attempt of a pending request can always be recorded.\<close>

definition next_number :: "recovery_request \<Rightarrow> int" where
  "next_number r = rq_attempt_count r + 1"

lemma insert_next_attempt:
  assumes ok: "queue_ok q" and found: "find_request i q = Some r" and pending: "rq_status r = RQ_PENDING"
    and a: "att_request a = i" "att_number a = rq_attempt_count r + 1"
    and shape: "case att_outcome a of ATT_SUCCEEDED \<Rightarrow> att_run a \<noteq> None \<and> att_error a = None
       | ATT_FAILED \<Rightarrow> att_run a = None \<and> att_error a \<noteq> None"
  shows "insert_attempt a q = Inr (q\<lparr>q_attempts := q_attempts q @ [a]\<rparr>)" "attempt_constraints a"
proof -
  note r = queue_ok_request[OF ok found]
  have bounds: "0 \<le> rq_attempt_count r" "rq_attempt_count r < rq_max_attempts r" "rq_max_attempts r \<le> 2147483647"
    using r(2) pending by (auto simp: request_constraints_def int4_def)
  show c: "attempt_constraints a"
    using bounds a shape by (auto simp: attempt_constraints_def int4_def)
  have "att_number b \<le> rq_attempt_count r" if "b \<in> set (q_attempts q)" "att_request b = i" for b
  proof -
    have "att_number b \<in> set (map att_number (attempts_of i q))"
      using that by (auto simp: attempts_of_def)
    then show ?thesis using r(3) by (simp add: history_ok_def del: set_map)
  qed
  then have "(att_request a, att_number a) \<notin> (\<lambda>b. (att_request b, att_number b)) ` set (q_attempts q)"
    using a by fastforce
  with c found a show "insert_attempt a q = Inr (q\<lparr>q_attempts := q_attempts q @ [a]\<rparr>)"
    by (simp add: insert_attempt_Inr)
qed

subsection \<open>The rows an operation writes\<close>

definition succeeded_row :: "instant \<Rightarrow> uuid \<Rightarrow> recovery_request \<Rightarrow> recovery_request" where
  "succeeded_row now run r = r\<lparr>rq_status := RQ_SUCCEEDED, rq_attempt_count := rq_attempt_count r + 1,
     rq_last_error := None, rq_result_run := Some run, rq_completed_at := Some now\<rparr>"

definition failed_row :: "instant \<Rightarrow> string \<Rightarrow> recovery_request \<Rightarrow> recovery_request" where
  "failed_row now message r =
     (let exhausted = rq_max_attempts r \<le> rq_attempt_count r + 1 in
      r\<lparr>rq_attempt_count := rq_attempt_count r + 1, rq_last_error := Some message,
        rq_status := (if exhausted then RQ_FAILED else RQ_PENDING),
        rq_next_attempt_at := now + 1000000 * retry_delay (rq_base_delay r) (rq_attempt_count r + 1),
        rq_completed_at := (if exhausted then Some now else None)\<rparr>)"

definition requeued_row :: "instant \<Rightarrow> int \<Rightarrow> recovery_request \<Rightarrow> recovery_request" where
  "requeued_row now additional r = r\<lparr>rq_status := RQ_PENDING,
     rq_max_attempts := rq_attempt_count r + additional, rq_next_attempt_at := now, rq_completed_at := None\<rparr>"

definition succeeded_attempt :: "instant \<Rightarrow> uuid \<Rightarrow> recovery_request \<Rightarrow> recovery_attempt" where
  "succeeded_attempt now run r = \<lparr>att_request = rq_id r, att_number = rq_attempt_count r + 1,
     att_outcome = ATT_SUCCEEDED, att_run = Some run, att_error = None, att_recorded_at = now\<rparr>"

definition failed_attempt :: "instant \<Rightarrow> string \<Rightarrow> recovery_request \<Rightarrow> recovery_attempt" where
  "failed_attempt now message r = \<lparr>att_request = rq_id r, att_number = rq_attempt_count r + 1,
     att_outcome = ATT_FAILED, att_run = None, att_error = Some message, att_recorded_at = now\<rparr>"

definition rewrite :: "recovery_request \<Rightarrow> recovery_attempt list \<Rightarrow> recovery_queue \<Rightarrow> recovery_queue" where
  "rewrite r as q = q\<lparr>q_requests := map (\<lambda>x. if rq_id x = rq_id r then r else x) (q_requests q),
     q_attempts := q_attempts q @ as\<rparr>"

lemmas row_defs = succeeded_row_def failed_row_def requeued_row_def succeeded_attempt_def failed_attempt_def

lemma rewritten_row_id [simp]:
  "rq_id (succeeded_row now run r) = rq_id r" "rq_id (failed_row now m r) = rq_id r"
  "rq_id (requeued_row now n r) = rq_id r"
  "rq_key (succeeded_row now run r) = rq_key r" "rq_key (failed_row now m r) = rq_key r"
  "rq_key (requeued_row now n r) = rq_key r"
  by (simp_all add: row_defs Let_def)

lemma retry_delay_bounds: "0 \<le> base \<Longrightarrow> 0 \<le> retry_delay base n \<and> retry_delay base n \<le> 3600"
  by (simp add: retry_delay_def Let_def)

lemma rewritten_row_constraints:
  assumes "request_constraints r"
  shows "rq_status r = RQ_PENDING \<Longrightarrow> request_constraints (succeeded_row now run r)"
    and "rq_status r = RQ_PENDING \<Longrightarrow> request_constraints (failed_row now m r)"
    and "rq_status r = RQ_FAILED \<Longrightarrow> 1 \<le> n \<Longrightarrow>
      request_constraints (requeued_row now n r) \<longleftrightarrow> rq_attempt_count r + n \<le> 2147483647"
  using assms
  by (auto simp: request_constraints_def completion_consistent_def row_defs int4_def Let_def)

lemma append_next_number:
  "map att_number as = [1..n] \<Longrightarrow> 0 \<le> n \<Longrightarrow> att_number a = n + 1 \<Longrightarrow> map att_number (as @ [a]) = [1..n + 1]"
  by (simp add: upto_rec2[of 1 "n + 1"])

lemma history_next:
  assumes h: "history_ok r as" "rq_status r = RQ_PENDING" "0 \<le> rq_attempt_count r"
  shows "attempt_constraints (succeeded_attempt now run r) \<Longrightarrow>
      history_ok (succeeded_row now run r) (as @ [succeeded_attempt now run r])"
    and "attempt_constraints (failed_attempt now m r) \<Longrightarrow>
      history_ok (failed_row now m r) (as @ [failed_attempt now m r])"
    and "history_ok (requeued_row now n r) as"
proof -
  have n: "map att_number as = [1..rq_attempt_count r]" and c: "list_all attempt_constraints as"
    and f: "list_all (\<lambda>a. att_outcome a = ATT_FAILED) as"
    using h(1,2) by (auto simp: history_ok_def)
  show "history_ok (succeeded_row now run r) (as @ [succeeded_attempt now run r])"
    if "attempt_constraints (succeeded_attempt now run r)"
    using that c f append_next_number[OF n h(3), of "succeeded_attempt now run r"]
    by (simp add: history_ok_def row_defs)
  show "history_ok (failed_row now m r) (as @ [failed_attempt now m r])"
    if "attempt_constraints (failed_attempt now m r)"
    using that c f append_next_number[OF n h(3), of "failed_attempt now m r"]
    by (simp add: history_ok_def row_defs Let_def)
  show "history_ok (requeued_row now n r) as"
    using n c f by (simp add: history_ok_def row_defs)
qed

lemma history_requeued:
  "history_ok r as \<Longrightarrow> rq_status r = RQ_FAILED \<Longrightarrow> history_ok (requeued_row now n r) as"
  by (simp add: history_ok_def row_defs)

subsection \<open>The operations on a consistent queue\<close>

lemma mark_succeeded_pending:
  assumes "queue_ok q" "find_request i q = Some r" "rq_status r = RQ_PENDING"
  shows "mark_succeeded True now i run q = Inr (rewrite (succeeded_row now run r) [succeeded_attempt now run r] q)"
proof -
  note r = queue_ok_request[OF assms(1,2)]
  have "insert_attempt (succeeded_attempt now run r) q
      = Inr (q\<lparr>q_attempts := q_attempts q @ [succeeded_attempt now run r]\<rparr>)"
    using assms r by (intro insert_next_attempt) (auto simp: row_defs)
  moreover have "rq_attempt_count r + 1 \<le> rq_max_attempts r"
    using r(2) assms(3) by (simp add: request_constraints_def)
  ultimately show ?thesis
    using assms r rewritten_row_constraints(1)[OF r(2) assms(3), of now run]
    by (simp add: mark_succeeded_def succeeded_attempt_def update_request_def rewrite_def succeeded_row_def
        require_def Let_def)
qed

lemma record_failure_pending:
  assumes "queue_ok q" "find_request i q = Some r" "rq_status r = RQ_PENDING"
  shows "record_failure True now i m q = Inr (rewrite (failed_row now m r) [failed_attempt now m r] q)"
proof -
  note r = queue_ok_request[OF assms(1,2)]
  have "insert_attempt (failed_attempt now m r) q
      = Inr (q\<lparr>q_attempts := q_attempts q @ [failed_attempt now m r]\<rparr>)"
    using assms r by (intro insert_next_attempt) (auto simp: row_defs)
  then show ?thesis
    using assms r rewritten_row_constraints(2)[OF r(2) assms(3), of now m]
    by (simp add: record_failure_def failed_attempt_def update_request_def rewrite_def failed_row_def
        require_def Let_def)
qed

lemma requeue_failed_row:
  assumes "queue_ok q" "find_request i q = Some r" "rq_status r = RQ_FAILED" "1 \<le> n"
  shows "requeue_failed True now i n q =
    (if rq_attempt_count r + n \<le> 2147483647 then Inr (rewrite (requeued_row now n r) [] q)
     else Inl (ConstraintViolated ''recovery_request''))"
proof -
  note r = queue_ok_request[OF assms(1,2)]
  show ?thesis
    using assms r rewritten_row_constraints(3)[OF r(2) assms(3,4), of now]
    by (simp add: requeue_failed_def update_request_def rewrite_def requeued_row_def require_def)
qed

text \<open>Exactly the changes an operation can make, whatever it is called with.\<close>

lemma mark_succeeded_Inr:
  assumes "queue_ok q"
  shows "mark_succeeded b now i run q = Inr q' \<longleftrightarrow> b \<and> (\<exists>r. find_request i q = Some r
    \<and> rq_status r = RQ_PENDING \<and> q' = rewrite (succeeded_row now run r) [succeeded_attempt now run r] q)"
proof (cases "b \<and> (\<exists>r. find_request i q = Some r \<and> rq_status r = RQ_PENDING)")
  case True
  then show ?thesis using mark_succeeded_pending[OF assms] by auto
next
  case False
  then show ?thesis by (auto simp: mark_succeeded_def result_simps split: option.splits)
qed

lemma record_failure_Inr:
  assumes "queue_ok q"
  shows "record_failure b now i m q = Inr q' \<longleftrightarrow> b \<and> (\<exists>r. find_request i q = Some r
    \<and> (if rq_status r = RQ_PENDING then q' = rewrite (failed_row now m r) [failed_attempt now m r] q else q' = q))"
proof (cases "b \<and> (\<exists>r. find_request i q = Some r \<and> rq_status r = RQ_PENDING)")
  case True
  then show ?thesis using record_failure_pending[OF assms] by auto
next
  case False
  then show ?thesis by (auto simp: record_failure_def result_simps split: option.splits)
qed

lemma requeue_failed_Inr:
  assumes "queue_ok q"
  shows "requeue_failed b now i n q = Inr q' \<longleftrightarrow> b \<and> 1 \<le> n \<and> (\<exists>r. find_request i q = Some r
    \<and> rq_status r = RQ_FAILED \<and> rq_attempt_count r + n \<le> 2147483647 \<and> q' = rewrite (requeued_row now n r) [] q)"
proof (cases "b \<and> 1 \<le> n \<and> (\<exists>r. find_request i q = Some r \<and> rq_status r = RQ_FAILED)")
  case True
  then show ?thesis using requeue_failed_row[OF assms, of i _ n now] by (auto split: if_splits)
next
  case False
  then show ?thesis by (auto simp: requeue_failed_def result_simps split: option.splits)
qed

subsection \<open>The invariant\<close>

lemma queue_ok_empty: "queue_ok empty_queue"
  by (simp add: queue_ok_def empty_queue_def)

lemma queue_ok_insert:
  assumes ok: "queue_ok q" and i: "insert_request (new_request i key receipt batch reason as_of now) q = Inr q'"
  shows "queue_ok q'"
proof -
  let ?r = "new_request i key receipt batch reason as_of now"
  have f: "i \<notin> rq_id ` set (q_requests q)" "key \<notin> rq_key ` set (q_requests q)" "request_constraints ?r"
    and q': "q' = q\<lparr>q_requests := q_requests q @ [?r]\<rparr>"
    using i by (auto simp: insert_request_def result_simps new_request_def)
  have other: "attempts_of j q' = attempts_of j q" for j
    by (simp add: q' attempts_of_def)
  have none: "attempts_of i q = []"
    using ok f(1) by (auto simp: queue_ok_def attempts_of_def list_all_iff filter_empty_conv)
  have "history_ok ?r (attempts_of i q)"
    unfolding none by (simp add: history_ok_def new_request_def)
  then have "history_ok ?r (attempts_of (rq_id ?r) q)"
    by (simp add: new_request_def)
  with f(3) have "list_all (\<lambda>r. request_constraints r \<and> history_ok r (attempts_of (rq_id r) q)) (q_requests q @ [?r])"
    using ok by (simp add: queue_ok_def)
  moreover have "rq_id ?r = i" "rq_key ?r = key" by (simp_all add: new_request_def)
  moreover have "q_requests q' = q_requests q @ [?r]" "q_attempts q' = q_attempts q" by (simp_all add: q')
  ultimately show ?thesis
    using ok f unfolding queue_ok_def other by (auto simp: list_all_iff)
qed

lemma queue_ok_rewrite':
  assumes "queue_ok q" "find_request i q = Some r" "rq_id r' = rq_id r" "rq_key r' = rq_key r"
    and "request_constraints r'" "history_ok r' (attempts_of i q @ as)" "list_all (\<lambda>a. att_request a = i) as"
  shows "queue_ok (rewrite r' as q)"
  unfolding rewrite_def
  using assms queue_ok_request(1)[OF assms(1,2)] by (intro queue_ok_rewrite) auto

lemma attempt_count_nonneg: "request_constraints r \<Longrightarrow> 0 \<le> rq_attempt_count r"
  by (simp add: request_constraints_def)

lemma queue_ok_succeeded:
  assumes "queue_ok q" "find_request i q = Some r" "rq_status r = RQ_PENDING"
  shows "queue_ok (rewrite (succeeded_row now run r) [succeeded_attempt now run r] q)"
proof -
  note r = queue_ok_request[OF assms(1,2)]
  have "attempt_constraints (succeeded_attempt now run r)"
    using assms r by (intro insert_next_attempt(2)[OF assms]) (auto simp: row_defs)
  then show ?thesis
    using assms r rewritten_row_constraints(1)[OF r(2) assms(3)]
      history_next(1)[OF r(3) assms(3) attempt_count_nonneg[OF r(2)]]
    by (intro queue_ok_rewrite') (auto simp: succeeded_attempt_def)
qed

lemma queue_ok_failed:
  assumes "queue_ok q" "find_request i q = Some r" "rq_status r = RQ_PENDING"
  shows "queue_ok (rewrite (failed_row now m r) [failed_attempt now m r] q)"
proof -
  note r = queue_ok_request[OF assms(1,2)]
  have "attempt_constraints (failed_attempt now m r)"
    using assms r by (intro insert_next_attempt(2)[OF assms]) (auto simp: row_defs)
  then show ?thesis
    using assms r rewritten_row_constraints(2)[OF r(2) assms(3)]
      history_next(2)[OF r(3) assms(3) attempt_count_nonneg[OF r(2)]]
    by (intro queue_ok_rewrite') (auto simp: failed_attempt_def)
qed

lemma queue_ok_requeued:
  assumes "queue_ok q" "find_request i q = Some r" "rq_status r = RQ_FAILED" "1 \<le> n"
    "rq_attempt_count r + n \<le> 2147483647"
  shows "queue_ok (rewrite (requeued_row now n r) [] q)"
proof -
  note r = queue_ok_request[OF assms(1,2)]
  show ?thesis
    using assms r rewritten_row_constraints(3)[OF r(2) assms(3,4)] history_requeued[OF r(3) assms(3)]
    by (intro queue_ok_rewrite') auto
qed

lemma queue_step_ok: "queue_step q q' \<Longrightarrow> queue_ok q \<Longrightarrow> queue_ok q'"
proof (induction rule: queue_step.induct)
  case enqueued
  then show ?case by (blast intro: queue_ok_insert)
next
  case (succeeded now i run q q')
  then show ?case by (auto simp: mark_succeeded_Inr intro: queue_ok_succeeded)
next
  case (failed now i message q q')
  then show ?case by (auto simp: record_failure_Inr intro: queue_ok_failed split: if_splits)
next
  case (requeued now i additional q q')
  then show ?case by (auto simp: requeue_failed_Inr intro: queue_ok_requeued)
qed

lemma queue_steps_ok: "queue_step\<^sup>*\<^sup>* q q' \<Longrightarrow> queue_ok q \<Longrightarrow> queue_ok q'"
  by (induction rule: rtranclp_induct) (auto intro: queue_step_ok)

lemma find_request_rewrite:
  "find_request j (rewrite r as q) = (case find_request j q of None \<Rightarrow> None
     | Some x \<Rightarrow> Some (if rq_id x = rq_id r then r else x))"
proof -
  have "List.find (\<lambda>r. rq_id r = j) (map (\<lambda>x. if rq_id x = rq_id r then r else x) xs)
    = (case List.find (\<lambda>r. rq_id r = j) xs of None \<Rightarrow> None | Some x \<Rightarrow> Some (if rq_id x = rq_id r then r else x))"
    for xs by (induction xs) auto
  then show ?thesis by (simp add: find_request_def rewrite_def)
qed

end
