(* ===== verification/Queue_Properties.thy ===== *)
theory Queue_Properties
  imports Recovery_Queue
begin

text \<open>
  What the recovery queue guarantees: the consistency of requests and attempt histories on every
  reachable queue, the outcome of each operation, that success is final, and that retries are spaced
  and end.
\<close>

lemma find_append_Some: "List.find P xs = Some x \<Longrightarrow> List.find P (xs @ ys) = Some x"
  by (induction xs) auto

subsection \<open>Choosing a request\<close>

lemma next_ready_Some:
  assumes "next_ready b now locked q = Inr (Some r)"
  shows "b \<and> r \<in> set (q_requests q) \<and> request_ready now locked r
    \<and> (\<forall>x \<in> set (q_requests q). request_ready now locked x \<longrightarrow> queue_order r \<le> queue_order x)"
proof -
  let ?s = "sort_key queue_order (filter (request_ready now locked) (q_requests q))"
  obtain rest where b: b and s: "?s = r # rest"
    using assms by (auto simp: next_ready_def result_simps split: list.splits)
  have members: "set ?s = {x \<in> set (q_requests q). request_ready now locked x}" by simp
  have "sorted (map queue_order (r # rest))"
    using sorted_sort_key[of queue_order "filter (request_ready now locked) (q_requests q)"] by (simp only: s)
  then have "\<forall>x \<in> set (r # rest). queue_order r \<le> queue_order x" by auto
  with b members show ?thesis unfolding s by auto
qed

lemma next_ready_None:
  "next_ready b now locked q = Inr None \<longleftrightarrow> b \<and> (\<forall>r \<in> set (q_requests q). \<not> request_ready now locked r)"
  by (auto simp: next_ready_def result_simps filter_empty_conv split: list.splits)
    (metis filter_empty_conv sort_key_eq_Nil list.distinct(1))

lemma next_ready_exists:
  assumes "r \<in> set (q_requests q)" "request_ready now locked r"
  shows "\<exists>x. next_ready True now locked q = Inr (Some x) \<and> queue_order x \<le> queue_order r"
proof -
  have "next_ready True now locked q \<noteq> Inr None"
    using assms unfolding next_ready_None by blast
  then obtain x where x: "next_ready True now locked q = Inr (Some x)"
    by (auto simp: next_ready_def require_def split: list.splits)
  with next_ready_Some[OF x] assms show ?thesis by blast
qed

subsection \<open>Repeated failures\<close>

definition fail_all :: "uuid \<Rightarrow> (instant \<times> string) list \<Rightarrow> recovery_queue \<Rightarrow> queue_error + recovery_queue" where
  "fail_all i = fold_result (\<lambda>(now, message). record_failure True now i message)"

lemma failed_row_status:
  assumes "request_constraints r" "rq_status r = RQ_PENDING"
  shows "rq_status (failed_row now m r) = (if rq_attempt_count r + 1 = rq_max_attempts r then RQ_FAILED else RQ_PENDING)"
  using assms by (auto simp: failed_row_def request_constraints_def Let_def)

lemma find_failed:
  assumes "queue_ok q" "find_request i q = Some r"
  shows "find_request i (rewrite (failed_row now m r) as q) = Some (failed_row now m r)"
  using queue_ok_request(1)[OF assms] assms(2) by (simp add: find_request_rewrite)

lemma fail_all_failed:
  assumes "queue_ok q" "find_request i q = Some r" "rq_status r = RQ_FAILED"
  shows "fail_all i fs q = Inr q"
  using assms by (induction fs) (auto simp: fail_all_def record_failure_Inr record_failure_def require_def)

lemma fail_all_pending:
  assumes "queue_ok q" "find_request i q = Some r" "rq_status r = RQ_PENDING"
  shows "\<exists>q' r'. fail_all i fs q = Inr q' \<and> queue_ok q' \<and> find_request i q' = Some r'
    \<and> rq_max_attempts r' = rq_max_attempts r
    \<and> rq_attempt_count r' = min (rq_attempt_count r + int (length fs)) (rq_max_attempts r)
    \<and> rq_status r' = (if rq_attempt_count r + int (length fs) < rq_max_attempts r then RQ_PENDING else RQ_FAILED)"
  using assms
proof (induction fs arbitrary: q r)
  case Nil
  have "rq_attempt_count r < rq_max_attempts r"
    using queue_ok_request(2)[OF Nil(1,2)] Nil(3) by (simp add: request_constraints_def)
  then show ?case using Nil by (simp add: fail_all_def)
next
  case (Cons f fs)
  obtain now m where f: "f = (now, m)" by force
  let ?r = "failed_row now m r" and ?q = "rewrite (failed_row now m r) [failed_attempt now m r] q"
  have step: "fail_all i (f # fs) q = fail_all i fs ?q"
    using record_failure_pending[OF Cons.prems, of now m] by (simp add: fail_all_def f)
  have ok: "queue_ok ?q" by (rule queue_ok_failed[OF Cons.prems])
  have found: "find_request i ?q = Some ?r" by (rule find_failed[OF Cons.prems(1,2)])
  have row: "rq_attempt_count ?r = rq_attempt_count r + 1" "rq_max_attempts ?r = rq_max_attempts r"
    by (simp_all add: failed_row_def Let_def)
  have status: "rq_status ?r = (if rq_attempt_count r + 1 = rq_max_attempts r then RQ_FAILED else RQ_PENDING)"
    by (rule failed_row_status[OF queue_ok_request(2)[OF Cons.prems(1,2)] Cons.prems(3)])
  have bound: "rq_attempt_count r < rq_max_attempts r"
    using queue_ok_request(2)[OF Cons.prems(1,2)] Cons.prems(3) by (simp add: request_constraints_def)
  show ?case
  proof (cases "rq_attempt_count r + 1 = rq_max_attempts r")
    case True
    with status have "fail_all i fs ?q = Inr ?q" by (intro fail_all_failed[OF ok found]) simp
    with True ok found row status show ?thesis unfolding step by simp
  next
    case False
    with status have "rq_status ?r = RQ_PENDING" by simp
    from Cons.IH[OF ok found this] row show ?thesis unfolding step by (simp add: add.assoc)
  qed
qed

lemma history_numbers: "history_ok r as \<Longrightarrow> map att_number as = [1..rq_attempt_count r]"
  by (simp add: history_ok_def)

lemma history_successes:
  assumes h: "history_ok r as"
  shows "map att_run (filter (\<lambda>a. att_outcome a = ATT_SUCCEEDED) as)
    = (if rq_status r = RQ_SUCCEEDED then [rq_result_run r] else [])"
proof (cases "rq_status r = RQ_SUCCEEDED")
  case True
  then obtain bs a where "as = bs @ [a]" using h by (cases as rule: rev_cases) (auto simp: history_ok_def)
  with h True show ?thesis by (auto simp: history_ok_def list_all_iff filter_empty_conv)
next
  case False
  with h show ?thesis by (auto simp: history_ok_def list_all_iff filter_empty_conv)
qed

subsection \<open>Properties\<close>

text \<open>A small history used by the witnesses: a request is enqueued, fails once, and then succeeds.\<close>

definition sample_request :: recovery_request where
  "sample_request = new_request ''r1'' ''k1'' (Some ''x1'') None ''LATE'' 5 10"

definition queue1 :: recovery_queue where
  "queue1 = \<lparr>q_requests = [sample_request], q_attempts = []\<rparr>"

definition queue2 :: recovery_queue where
  "queue2 = rewrite (failed_row 20 ''boom'' sample_request) [failed_attempt 20 ''boom'' sample_request] queue1"

definition queue3 :: recovery_queue where
  "queue3 = rewrite (succeeded_row 90 ''run7'' (failed_row 20 ''boom'' sample_request))
     [succeeded_attempt 90 ''run7'' (failed_row 20 ''boom'' sample_request)] queue2"

lemma sample_rows:
  "rq_id sample_request = ''r1''" "rq_status sample_request = RQ_PENDING" "request_constraints sample_request"
  "rq_status (failed_row 20 ''boom'' sample_request) = RQ_PENDING"
  "find_request ''r1'' queue1 = Some sample_request"
  "find_request ''r1'' queue2 = Some (failed_row 20 ''boom'' sample_request)"
  by (simp_all add: sample_request_def new_request_def queue1_def queue2_def rewrite_def find_request_def
      request_constraints_def completion_consistent_def int4_def failed_row_def Let_def)

lemma sample_step1: "queue_step empty_queue queue1"
  by (rule queue_step.enqueued[of "''r1''" "''k1''" "Some ''x1''" None "''LATE''" 5 10])
    (use sample_rows(3) in \<open>simp add: insert_request_def sample_request_def[symmetric] empty_queue_def queue1_def require_def\<close>)

lemma sample_ok1: "queue_ok queue1"
  using queue_step_ok[OF sample_step1 queue_ok_empty] .

lemma sample_step2: "queue_step queue1 queue2"
  by (rule queue_step.failed[of 20 "''r1''" "''boom''"]) (simp add: record_failure_pending[OF sample_ok1 sample_rows(5,2)] queue2_def)

lemma sample_ok2: "queue_ok queue2"
  using queue_step_ok[OF sample_step2 sample_ok1] .

lemma sample_step3: "queue_step queue2 queue3"
  by (rule queue_step.succeeded[of 90 "''r1''" "''run7''"]) (simp add: mark_succeeded_pending[OF sample_ok2 sample_rows(6,4)] queue3_def)

lemma sample_reachable:
  "queue_step\<^sup>*\<^sup>* empty_queue queue1" "queue_step\<^sup>*\<^sup>* empty_queue queue2" "queue_step\<^sup>*\<^sup>* empty_queue queue3"
proof -
  show one: "queue_step\<^sup>*\<^sup>* empty_queue queue1" using sample_step1 by (rule r_into_rtranclp)
  show two: "queue_step\<^sup>*\<^sup>* empty_queue queue2" using one sample_step2 by (rule rtranclp.rtrancl_into_rtrancl)
  show "queue_step\<^sup>*\<^sup>* empty_queue queue3" using two sample_step3 by (rule rtranclp.rtrancl_into_rtrancl)
qed

text \<open>C24: On every queue the workers and operators can bring about, ids are unique, every request satisfies the
  constraints of its table (a pending one has attempts left and no result), its attempts are numbered from one to its
  attempt count without gaps, and exactly one of them succeeded when the request did, none otherwise.\<close>

theorem recovery_queue_invariant:
  assumes "queue_step\<^sup>*\<^sup>* empty_queue q"
  shows "distinct (map rq_id (q_requests q)) \<and>
    (\<forall>r \<in> set (q_requests q). request_constraints r
      \<and> map att_number (attempts_of (rq_id r) q) = [1..rq_attempt_count r]
      \<and> map att_run (filter (\<lambda>a. att_outcome a = ATT_SUCCEEDED) (attempts_of (rq_id r) q))
        = (if rq_status r = RQ_SUCCEEDED then [rq_result_run r] else []))"
proof -
  have ok: "queue_ok q" by (rule queue_steps_ok[OF assms queue_ok_empty])
  have "request_constraints r \<and> history_ok r (attempts_of (rq_id r) q)" if "r \<in> set (q_requests q)" for r
    using ok that by (simp add: queue_ok_def list_all_iff)
  moreover have "distinct (map rq_id (q_requests q))" using ok by (simp add: queue_ok_def)
  ultimately show ?thesis by (blast dest: history_successes history_numbers)
qed

theorem recovery_queue_invariant_witness:
  "\<exists>r \<in> set (q_requests queue3). rq_status r = RQ_SUCCEEDED
    \<and> map att_number (attempts_of (rq_id r) queue3) = [1..2]
    \<and> map att_run (filter (\<lambda>a. att_outcome a = ATT_SUCCEEDED) (attempts_of (rq_id r) queue3)) = [Some ''run7'']"
proof -
  obtain r where r: "q_requests queue3 = [r]" "rq_status r = RQ_SUCCEEDED" "rq_attempt_count r = 2" "rq_result_run r = Some ''run7''"
    by (simp add: queue3_def queue2_def queue1_def rewrite_def succeeded_row_def failed_row_def Let_def
        sample_request_def new_request_def)
  show ?thesis
    using recovery_queue_invariant[OF sample_reachable(3)] r by simp
qed

text \<open>The operations of the queue are decided by the transaction state, the existence and the status of the
  request: on a reachable queue no write ever breaks a constraint of the tables (short of the INTEGER range when
  attempts are granted), the attempt limit is never found exceeded, and a failure report for a request that is no
  longer pending changes nothing.\<close>

theorem queue_operations_decided:
  assumes "queue_step\<^sup>*\<^sup>* empty_queue q"
  shows "mark_succeeded b now i run q =
      (if \<not> b then Inl NoTransaction else case find_request i q of None \<Rightarrow> Inl RequestMissing
       | Some r \<Rightarrow> if rq_status r \<noteq> RQ_PENDING then Inl RequestNotPending
           else Inr (rewrite (succeeded_row now run r) [succeeded_attempt now run r] q))
    \<and> record_failure b now i m q =
      (if \<not> b then Inl NoTransaction else case find_request i q of None \<Rightarrow> Inl RequestMissing
       | Some r \<Rightarrow> if rq_status r \<noteq> RQ_PENDING then Inr q
           else Inr (rewrite (failed_row now m r) [failed_attempt now m r] q))
    \<and> requeue_failed b now i n q =
      (if \<not> b then Inl NoTransaction else if n < 1 then Inl AdditionalAttemptsInvalid
       else case find_request i q of None \<Rightarrow> Inl RequestNotFailed
       | Some r \<Rightarrow> if rq_status r \<noteq> RQ_FAILED then Inl RequestNotFailed
           else if rq_attempt_count r + n \<le> 2147483647 then Inr (rewrite (requeued_row now n r) [] q)
           else Inl (ConstraintViolated ''recovery_request''))"
proof -
  have ok: "queue_ok q" by (rule queue_steps_ok[OF assms queue_ok_empty])
  have "mark_succeeded b now i run q =
      (if \<not> b then Inl NoTransaction else case find_request i q of None \<Rightarrow> Inl RequestMissing
       | Some r \<Rightarrow> if rq_status r \<noteq> RQ_PENDING then Inl RequestNotPending
           else Inr (rewrite (succeeded_row now run r) [succeeded_attempt now run r] q))"
    using mark_succeeded_pending[OF ok] by (auto simp: mark_succeeded_def require_def split: option.splits)
  moreover have "record_failure b now i m q =
      (if \<not> b then Inl NoTransaction else case find_request i q of None \<Rightarrow> Inl RequestMissing
       | Some r \<Rightarrow> if rq_status r \<noteq> RQ_PENDING then Inr q
           else Inr (rewrite (failed_row now m r) [failed_attempt now m r] q))"
    using record_failure_pending[OF ok] by (auto simp: record_failure_def require_def split: option.splits)
  moreover have "requeue_failed b now i n q =
      (if \<not> b then Inl NoTransaction else if n < 1 then Inl AdditionalAttemptsInvalid
       else case find_request i q of None \<Rightarrow> Inl RequestNotFailed
       | Some r \<Rightarrow> if rq_status r \<noteq> RQ_FAILED then Inl RequestNotFailed
           else if rq_attempt_count r + n \<le> 2147483647 then Inr (rewrite (requeued_row now n r) [] q)
           else Inl (ConstraintViolated ''recovery_request''))"
    using requeue_failed_row[OF ok] by (auto simp: requeue_failed_def require_def not_less split: option.splits)
  ultimately show ?thesis by blast
qed

theorem queue_operations_decided_witness:
  "mark_succeeded True 99 ''r1'' ''run8'' queue3 = Inl RequestNotPending
    \<and> record_failure True 99 ''r1'' ''late'' queue3 = Inr queue3
    \<and> requeue_failed True 99 ''r1'' 3 queue2 = Inl RequestNotFailed"
  using queue_operations_decided[OF sample_reachable(3), of True 99 "''r1''" "''run8''", THEN conjunct1]
    queue_operations_decided[OF sample_reachable(3), of True 99 "''r1''" _ "''late''", THEN conjunct2, THEN conjunct1]
    queue_operations_decided[OF sample_reachable(2), of True 99 "''r1''" _ _ 3, THEN conjunct2, THEN conjunct2] sample_rows
  by (simp add: queue3_def find_request_rewrite) (simp add: succeeded_row_def)

text \<open>Once a request has succeeded, no later operation of any worker or operator changes it: it keeps its run, its
  attempts and its completion time, so a published request is never repeated.\<close>

theorem succeeded_request_final:
  assumes "queue_step\<^sup>*\<^sup>* empty_queue q" and "find_request i q = Some r" and "rq_status r = RQ_SUCCEEDED"
    and "queue_step\<^sup>*\<^sup>* q q'"
  shows "find_request i q' = Some r \<and> attempts_of i q' = attempts_of i q"
proof -
  have ok: "queue_ok q" by (rule queue_steps_ok[OF assms(1) queue_ok_empty])
  show ?thesis using assms(4)
  proof (induction rule: rtranclp_induct)
    case base
    then show ?case using assms(2) by simp
  next
    case (step y z)
    have y: "queue_ok y" by (rule queue_steps_ok[OF step(1) ok])
    have other: "find_request i (rewrite x as y) = Some r \<and> attempts_of i (rewrite x as y) = attempts_of i y"
      if "find_request j y = Some x0" "rq_status x0 \<noteq> RQ_SUCCEEDED" "rq_id x = rq_id x0"
        "list_all (\<lambda>a. att_request a = rq_id x0) as" for j x0 x as
    proof -
      have "rq_id x0 \<noteq> i" using that step.IH assms(3) find_request_Some by fastforce
      moreover have "rq_id r = i" using step.IH find_request_Some by blast
      moreover have "attempts_of i (rewrite x as y) = attempts_of i y" if "rq_id x0 \<noteq> i"
        using that \<open>list_all (\<lambda>a. att_request a = rq_id x0) as\<close>
        by (auto simp: attempts_of_def rewrite_def list_all_iff filter_empty_conv)
      ultimately show ?thesis
        using that(3) step.IH by (simp add: find_request_rewrite)
    qed
    from step(2) have "find_request i z = Some r \<and> attempts_of i z = attempts_of i y"
    proof cases
      case (enqueued j key receipt batch reason as_of now)
      then show ?thesis using step.IH
        by (auto simp: insert_request_def result_simps find_request_def attempts_of_def find_append_Some)
    next
      case (succeeded now j run)
      then show ?thesis using other by (auto simp: mark_succeeded_Inr[OF y] succeeded_attempt_def)
    next
      case (failed now j message)
      then show ?thesis using other step.IH by (auto simp: record_failure_Inr[OF y] failed_attempt_def split: if_splits)
    next
      case (requeued now j additional)
      then show ?thesis using other by (auto simp: requeue_failed_Inr[OF y])
    qed
    with step.IH show ?case by simp
  qed
qed

theorem succeeded_request_final_witness:
  "\<exists>r q'. record_failure True 99 ''r1'' ''late'' queue3 = Inr q' \<and> find_request ''r1'' q' = Some r
    \<and> rq_status r = RQ_SUCCEEDED \<and> rq_result_run r = Some ''run7''"
proof -
  obtain r where r: "find_request ''r1'' queue3 = Some r" "rq_status r = RQ_SUCCEEDED" "rq_result_run r = Some ''run7''"
    by (simp add: queue3_def queue2_def queue1_def rewrite_def succeeded_row_def failed_row_def Let_def
        sample_request_def new_request_def find_request_def)
  have late: "record_failure True 99 ''r1'' ''late'' queue3 = Inr queue3"
    using r by (simp add: record_failure_def require_def)
  have "queue_step\<^sup>*\<^sup>* queue3 queue3"
    by (rule r_into_rtranclp) (rule queue_step.failed[OF late])
  then have "find_request ''r1'' queue3 = Some r"
    using succeeded_request_final[OF sample_reachable(3) r(1,2)] by blast
  with late r show ?thesis by blast
qed

text \<open>A failed attempt of a pending request is recorded and the request is tried again after at least the base
  delay and at most an hour, the delay doubling with every attempt up to that cap; it becomes FAILED exactly with its
  last attempt.  Otherwise it is served again: from its next attempt time on, the queue hands out a request that is
  not later in the queue's order, unless the request is locked by another worker.\<close>

theorem failure_rescheduled:
  assumes "queue_step\<^sup>*\<^sup>* empty_queue q" and "find_request i q = Some r" and "rq_status r = RQ_PENDING"
  shows "\<exists>q' r' delay. record_failure True now i m q = Inr q' \<and> find_request i q' = Some r'
    \<and> rq_attempt_count r' = rq_attempt_count r + 1 \<and> rq_last_error r' = Some m
    \<and> rq_next_attempt_at r' = now + 1000000 * delay
    \<and> delay = min 3600 (rq_base_delay r * 2 ^ nat (min (rq_attempt_count r) 12))
    \<and> rq_base_delay r \<le> delay \<and> delay \<le> 3600
    \<and> (if rq_attempt_count r' = rq_max_attempts r then rq_status r' = RQ_FAILED \<and> rq_completed_at r' = Some now
       else rq_status r' = RQ_PENDING \<and> (\<forall>t locked. rq_next_attempt_at r' \<le> t \<and> i \<notin> set locked \<longrightarrow>
         (\<exists>x. next_ready True t locked q' = Inr (Some x) \<and> queue_order x \<le> queue_order r')))"
proof -
  have ok: "queue_ok q" by (rule queue_steps_ok[OF assms(1) queue_ok_empty])
  let ?r = "failed_row now m r" and ?q = "rewrite (failed_row now m r) [failed_attempt now m r] q"
  let ?delay = "retry_delay (rq_base_delay r) (rq_attempt_count r + 1)"
  note c = queue_ok_request(1,2)[OF ok assms(2)]
  have "record_failure True now i m q = Inr ?q" by (rule record_failure_pending[OF ok assms(2,3)])
  moreover have found: "find_request i ?q = Some ?r" by (rule find_failed[OF ok assms(2)])
  moreover have "rq_attempt_count ?r = rq_attempt_count r + 1 \<and> rq_last_error ?r = Some m
      \<and> rq_next_attempt_at ?r = now + 1000000 * ?delay"
    by (simp add: failed_row_def Let_def)
  moreover have "?delay = min 3600 (rq_base_delay r * 2 ^ nat (min (rq_attempt_count r) 12))"
    by (simp add: retry_delay_def Let_def)
  moreover have "rq_base_delay r \<le> ?delay \<and> ?delay \<le> 3600"
  proof -
    have "rq_base_delay r * 1 \<le> rq_base_delay r * 2 ^ nat (min (rq_attempt_count r) 12)"
      using c(2) by (intro mult_left_mono) (auto simp: request_constraints_def)
    then show ?thesis using c(2) by (simp add: retry_delay_def Let_def request_constraints_def)
  qed
  moreover have status: "rq_status ?r = (if rq_attempt_count r + 1 = rq_max_attempts r then RQ_FAILED else RQ_PENDING)"
    by (rule failed_row_status[OF c(2) assms(3)])
  moreover have "rq_attempt_count r + 1 = rq_max_attempts r \<Longrightarrow> rq_completed_at ?r = Some now"
    by (simp add: failed_row_def Let_def)
  moreover have "\<exists>x. next_ready True t locked ?q = Inr (Some x) \<and> queue_order x \<le> queue_order ?r"
    if "rq_attempt_count r + 1 \<noteq> rq_max_attempts r" "rq_next_attempt_at ?r \<le> t" "i \<notin> set locked" for t locked
  proof (rule next_ready_exists)
    show "?r \<in> set (q_requests ?q)" using find_request_Some[OF found] by blast
    have "rq_attempt_count ?r < rq_max_attempts ?r"
      using c(2) assms(3) that(1) by (auto simp: failed_row_def Let_def request_constraints_def)
    then show "request_ready t locked ?r"
      using that status c(1) by (simp add: request_ready_def)
  qed
  ultimately show ?thesis
    by (intro exI[of _ ?q] exI[of _ ?r] exI[of _ ?delay]) simp
qed

theorem failure_rescheduled_witness:
  "\<exists>q'. record_failure True 20 ''r1'' ''boom'' queue1 = Inr q'
    \<and> (\<exists>x. next_ready True (20 + 30000000) [] q' = Inr (Some x) \<and> rq_attempt_count x \<le> 5)"
proof -
  have vals: "rq_base_delay sample_request = 30" "rq_attempt_count sample_request = 0" "rq_max_attempts sample_request = 5"
    by (simp_all add: sample_request_def new_request_def)
  obtain q' r' where q': "record_failure True 20 ''r1'' ''boom'' queue1 = Inr q'" "rq_next_attempt_at r' = 20 + 1000000 * 30"
    "\<forall>t locked. rq_next_attempt_at r' \<le> t \<and> ''r1'' \<notin> set locked \<longrightarrow>
         (\<exists>x. next_ready True t locked q' = Inr (Some x) \<and> queue_order x \<le> queue_order r')"
    using failure_rescheduled[OF sample_reachable(1) sample_rows(5,2), of 20 "''boom''"] vals by auto
  then obtain x where x: "next_ready True (20 + 30000000) [] q' = Inr (Some x)" by force
  have "queue_ok q'"
    using queue_step_ok[OF queue_step.failed[OF q'(1)] sample_ok1] .
  moreover have "q' = rewrite (failed_row 20 ''boom'' sample_request) [failed_attempt 20 ''boom'' sample_request] queue1"
    using q'(1) record_failure_pending[OF sample_ok1 sample_rows(5,2)] by simp
  ultimately have "rq_attempt_count x \<le> 5"
    using next_ready_Some[OF x] by (auto simp: queue1_def rewrite_def failed_row_def Let_def vals)
  with q'(1) x show ?thesis by blast
qed

text \<open>C33: Automatic retries end: however many failures are reported for a pending request, each is accepted, the
  attempt count grows by one until it reaches the limit, and from then on the request is FAILED and further
  reports change nothing.\<close>

theorem retries_end:
  assumes "queue_step\<^sup>*\<^sup>* empty_queue q" and "find_request i q = Some r" and "rq_status r = RQ_PENDING"
  shows "\<exists>q' r'. fail_all i fs q = Inr q' \<and> find_request i q' = Some r'
    \<and> rq_attempt_count r' = min (rq_attempt_count r + int (length fs)) (rq_max_attempts r)
    \<and> rq_status r' = (if rq_attempt_count r + int (length fs) < rq_max_attempts r then RQ_PENDING else RQ_FAILED)
    \<and> (rq_status r' = RQ_FAILED \<longrightarrow> (\<forall>gs. fail_all i gs q' = Inr q'))"
proof -
  have ok: "queue_ok q" by (rule queue_steps_ok[OF assms(1) queue_ok_empty])
  from fail_all_pending[OF ok assms(2,3)] fail_all_failed show ?thesis by blast
qed

theorem retries_end_witness:
  "\<exists>q' r'. fail_all ''r1'' (replicate 9 (50, ''down'')) queue1 = Inr q' \<and> find_request ''r1'' q' = Some r'
    \<and> rq_attempt_count r' = 5 \<and> rq_status r' = RQ_FAILED"
proof -
  have vals: "rq_attempt_count sample_request = 0" "rq_max_attempts sample_request = 5"
    by (simp_all add: sample_request_def new_request_def)
  show ?thesis
    using retries_end[OF sample_reachable(1) sample_rows(5,2), of "replicate 9 (50, ''down'')"] vals by auto
qed

end
