(* ===== verification/Recovery_Fingerprint.thy ===== *)
theory Recovery_Fingerprint
  imports Publication
begin

text \<open>
  \<open>recovery_fingerprint.py\<close>: the serialisation of a candidate with its audit evidence, and the
  logical fingerprint that leaves the audit evidence out.  Python values are the datatype \<open>pyval\<close>;
  \<open>hashlib.sha256(...).hexdigest()\<close> is the parameter \<open>sha\<close>.
\<close>

subsection \<open>Python values\<close>

text \<open>
  An enumeration member is a \<open>StringEnum\<close> and is kept as its text; keys of a mapping are texts; a
  float is kept as its printed text.
\<close>

datatype pyval =
    PyNone
  | PyBool bool
  | PyInt int
  | PyStr string
  | PyFloat string
  | PyDecimal decimal
  | PyDatetime pydatetime
  | PyDate date
  | PyUuid string
  | PyEnum string
  | PyData "(string \<times> pyval) list"
  | PyMap "(string \<times> pyval) list"
  | PySeq "pyval list"
  | PyOther

datatype fingerprint_error =
    FpValueError
  | FpTypeError
  | FpKeyError string
  | FinancialResultMismatch "string list"

lemma map_result_cong [fundef_cong]:
  "xs = ys \<Longrightarrow> (\<And>x. x \<in> set ys \<Longrightarrow> f x = g x) \<Longrightarrow> map_result f xs = map_result g ys"
  by (induction ys arbitrary: xs) auto

lemma bind_result_cong [fundef_cong]:
  "m = m' \<Longrightarrow> (\<And>a. m' = Inr a \<Longrightarrow> f a = g a) \<Longrightarrow> bind_result m f = bind_result m' g"
  by (simp add: bind_result_def split: sum.splits)

text \<open>\<open>format(value, "f")\<close> of a finite decimal: no exponent, all its decimals.\<close>

definition format_f :: "bool \<Rightarrow> nat \<Rightarrow> int \<Rightarrow> string" where
  "format_f neg c e = (if neg then ''-'' else []) @
     (if 0 \<le> e then string_of_nat (c * 10 ^ nat e)
      else string_of_nat (c div 10 ^ nat (- e)) @ ''.'' @ pad_nat (nat (- e)) (c mod 10 ^ nat (- e)))"

text \<open>\<open>datetime.astimezone(timezone.utc).isoformat()\<close> ends in the offset where \<open>iso_utc\<close> has a Z.\<close>

definition isoformat_utc :: "instant \<Rightarrow> string" where
  "isoformat_utc t = butlast (iso_utc t) @ ''+00:00''"

fun json_value :: "pyval \<Rightarrow> fingerprint_error + json" where
  "json_value (PyEnum s) = Inr (JStr s)"
| "json_value (PyData kvs) =
     bind_result (map_result (\<lambda>(k, v). bind_result (json_value v) (\<lambda>j. Inr (k, j))) kvs) (\<lambda>js. Inr (JObj js))"
| "json_value (PyMap kvs) =
     bind_result (map_result (\<lambda>(k, v). bind_result (json_value v) (\<lambda>j. Inr (k, j))) kvs) (\<lambda>js. Inr (JObj js))"
| "json_value (PyDecimal d) =
     (case d of Finite neg c e \<Rightarrow> Inr (JStr (format_f neg c e)) | _ \<Rightarrow> Inl FpValueError)"
| "json_value (PyDatetime t) =
     (case t of Naive _ \<Rightarrow> Inl FpValueError | Aware i \<Rightarrow> Inr (JStr (isoformat_utc i)))"
| "json_value (PyDate d) = Inr (JStr (isoformat d))"
| "json_value (PyUuid s) = Inr (JStr s)"
| "json_value (PySeq vs) = bind_result (map_result json_value vs) (\<lambda>js. Inr (JArr js))"
| "json_value (PyFloat s) = Inl FpTypeError"
| "json_value PyNone = Inr JNull"
| "json_value (PyStr s) = Inr (JStr s)"
| "json_value (PyBool b) = Inr (JBool b)"
| "json_value (PyInt i) = Inr (JInt i)"
| "json_value PyOther = Inl FpTypeError"

definition document_fingerprint :: "(string \<Rightarrow> string) \<Rightarrow> json \<Rightarrow> string" where
  "document_fingerprint sha document = sha (utf8 (json_dumps document))"

subsection \<open>Amounts\<close>

text \<open>
  The text a \<open>Decimal\<close> accepts: blanks around it and underscores are ignored, a sign, then an
  infinity, a NaN with its diagnostic digits, or digits with at most one point and an exponent.
\<close>

definition to_lower :: "char \<Rightarrow> char" where
  "to_lower c = (let n = (of_char c :: nat) in if 65 \<le> n \<and> n \<le> 90 then char_of (n + 32) else c)"

definition unsigned :: "string \<Rightarrow> string" where
  "unsigned s = (if s \<noteq> [] \<and> (hd s = CHR ''-'' \<or> hd s = CHR ''+'') then tl s else s)"

definition negative_text :: "string \<Rightarrow> bool" where
  "negative_text s = (s \<noteq> [] \<and> hd s = CHR ''-'')"

definition nan_text :: "string \<Rightarrow> bool" where
  "nan_text s = ((take 3 s = ''nan'' \<and> list_all is_digit (drop 3 s))
     \<or> (take 4 s = ''snan'' \<and> list_all is_digit (drop 4 s)))"

definition exponent_text :: "string \<Rightarrow> int option" where
  "exponent_text s = (case s of
       [] \<Rightarrow> Some 0
     | _ # r \<Rightarrow>
         (let ds = unsigned r in
          if ds \<noteq> [] \<and> list_all is_digit ds
          then Some (if negative_text r then - int (nat_of_digits ds) else int (nat_of_digits ds))
          else None))"

definition finite_text :: "bool \<Rightarrow> string \<Rightarrow> decimal option" where
  "finite_text neg s =
     (let mantissa = takeWhile (\<lambda>c. to_lower c \<noteq> CHR ''e'') s;
          int_part = takeWhile (\<lambda>c. c \<noteq> CHR ''.'') mantissa;
          fraction = drop (Suc (length int_part)) mantissa
      in if int_part @ fraction \<noteq> [] \<and> list_all is_digit (int_part @ fraction)
         then map_option (\<lambda>e. Finite neg (nat_of_digits (int_part @ fraction)) (e - int (length fraction)))
           (exponent_text (drop (length mantissa) s))
         else None)"

definition decimal_of_text :: "string \<Rightarrow> decimal option" where
  "decimal_of_text s =
     (let t = filter (\<lambda>c. c \<noteq> CHR ''_'') (strip s); u = unsigned t; l = map to_lower u
      in if l = ''inf'' \<or> l = ''infinity'' then Some (Infinite (negative_text t))
         else if nan_text l then Some NaN
         else finite_text (negative_text t) u)"

text \<open>Cents under a precision of 40 digits, half to even; an amount that is not whole cents raises.\<close>

definition even_cents :: "nat \<Rightarrow> int \<Rightarrow> nat" where
  "even_cents c e =
     (if -2 \<le> e then c * 10 ^ nat (e + 2) else round_half_even c (10 ^ nat (-2 - e)))"

definition whole_cents :: "nat \<Rightarrow> int \<Rightarrow> bool" where
  "whole_cents c e = (-2 \<le> e \<or> even_cents c e * 10 ^ nat (-2 - e) = c)"

definition money_text :: "decimal \<Rightarrow> fingerprint_error + string" where
  "money_text amount = (case amount of
       Finite neg c e \<Rightarrow>
         if mag_gt c e MAX_MONEY_CENTS (-2) then Inl FpValueError
         else if \<not> whole_cents c e then Inl FpValueError
         else Inr (if even_cents c e = 0 then ''0.00'' else format_2f (Finite neg (even_cents c e) (-2)))
     | _ \<Rightarrow> Inl FpValueError)"

definition money_string :: "pyval \<Rightarrow> fingerprint_error + json" where
  "money_string v = (case v of
       PyNone \<Rightarrow> Inr JNull
     | PyDecimal d \<Rightarrow> bind_result (money_text d) (\<lambda>t. Inr (JStr t))
     | PyInt i \<Rightarrow> bind_result (money_text (Finite (i < 0) (nat \<bar>i\<bar>) 0)) (\<lambda>t. Inr (JStr t))
     | PyStr s \<Rightarrow> (case decimal_of_text s of
           None \<Rightarrow> Inl FpValueError | Some d \<Rightarrow> bind_result (money_text d) (\<lambda>t. Inr (JStr t)))
     | PyEnum s \<Rightarrow> (case decimal_of_text s of
           None \<Rightarrow> Inl FpValueError | Some d \<Rightarrow> bind_result (money_text d) (\<lambda>t. Inr (JStr t)))
     | _ \<Rightarrow> Inl FpTypeError)"

subsection \<open>The logical document\<close>

definition AUDIT_FIELDS :: "string list" where
  "AUDIT_FIELDS =
     [''run_id'', ''detected_at'', ''detected_at_utc'', ''observed_at'', ''observed_at_utc'',
      ''received_at_utc'', ''ingested_at_utc'', ''published_at_utc'', ''created_at_utc'',
      ''receipt_id'', ''batch_id'', ''original_filename'', ''archive_path'']"

definition LOGICAL_SECTIONS :: "string list" where
  "LOGICAL_SECTIONS =
     [''transactions'', ''expected_movements'', ''payouts'', ''exceptions'', ''source_completeness'']"

definition MONEY_FIELDS :: "string list" where
  "MONEY_FIELDS =
     [''expected_collection'', ''captured_total'', ''collection_variance'', ''successful_refund_total'',
      ''expected_fee_total'', ''reported_fee_total'', ''lifetime_net_collection'', ''expected_payout'',
      ''reported_line_total'', ''reported_net_amount'', ''provider_report_variance'',
      ''end_to_end_payout_variance'', ''signed_amount'', ''expected_amount'', ''actual_amount'', ''variance'']"

fun logical_value :: "pyval \<Rightarrow> fingerprint_error + json" where
  "logical_value (PyMap kvs) =
     bind_result (map_result (\<lambda>(k, v).
         if k \<in> set AUDIT_FIELDS then Inr []
         else if k \<in> set MONEY_FIELDS then bind_result (money_string v) (\<lambda>j. Inr [(k, j)])
         else bind_result (logical_value v) (\<lambda>j. Inr [(k, j)])) kvs)
       (\<lambda>fields. Inr (JObj (concat fields)))"
| "logical_value (PyData kvs) =
     bind_result (map_result (\<lambda>(k, v).
         if k \<in> set AUDIT_FIELDS then Inr []
         else if k \<in> set MONEY_FIELDS then bind_result (money_string v) (\<lambda>j. Inr [(k, j)])
         else bind_result (logical_value v) (\<lambda>j. Inr [(k, j)])) kvs)
       (\<lambda>fields. Inr (JObj (concat fields)))"
| "logical_value (PySeq vs) =
     bind_result (map_result logical_value vs) (\<lambda>js. Inr (JArr (sort_key json_dumps js)))"
| "logical_value v = json_value v"

definition FINANCIAL_FINGERPRINT_VERSION :: int where
  "FINANCIAL_FINGERPRINT_VERSION = 2"

text \<open>\<open>read(name)\<close> and what \<open>json.dumps\<close> makes of the unprocessed contract version.\<close>

definition read_field :: "pyval \<Rightarrow> string \<Rightarrow> fingerprint_error + pyval" where
  "read_field result name =
     (case (case result of PyMap kvs \<Rightarrow> map_of kvs name | PyData kvs \<Rightarrow> map_of kvs name | _ \<Rightarrow> None) of
        None \<Rightarrow> Inl (FpKeyError name)
      | Some v \<Rightarrow> Inr v)"

fun raw_json :: "pyval \<Rightarrow> fingerprint_error + json" where
  "raw_json PyNone = Inr JNull"
| "raw_json (PyBool b) = Inr (JBool b)"
| "raw_json (PyInt i) = Inr (JInt i)"
| "raw_json (PyStr s) = Inr (JStr s)"
| "raw_json (PyEnum s) = Inr (JStr s)"
| "raw_json (PyFloat s) = (if s \<in> {''nan'', ''inf'', ''-inf''} then Inl FpValueError else Inr (JFloat s))"
| "raw_json (PySeq vs) = bind_result (map_result raw_json vs) (\<lambda>js. Inr (JArr js))"
| "raw_json (PyMap kvs) =
     bind_result (map_result (\<lambda>(k, v). bind_result (raw_json v) (\<lambda>j. Inr (k, j))) kvs) (\<lambda>js. Inr (JObj js))"
| "raw_json _ = Inl FpTypeError"

definition logical_document :: "pyval \<Rightarrow> fingerprint_error + json" where
  "logical_document result =
     bind_result (bind_result (read_field result ''contract_version'') raw_json) (\<lambda>version.
     bind_result (map_result (\<lambda>section. bind_result (bind_result (read_field result section) logical_value)
         (\<lambda>j. Inr (section, j))) LOGICAL_SECTIONS) (\<lambda>sections.
       Inr (JObj ((''fingerprint_version'', JInt FINANCIAL_FINGERPRINT_VERSION)
         # (''contract_version'', version) # sections))))"

definition logical_fingerprint :: "(string \<Rightarrow> string) \<Rightarrow> pyval \<Rightarrow> fingerprint_error + string" where
  "logical_fingerprint sha result =
     bind_result (logical_document result) (\<lambda>document. Inr (document_fingerprint sha document))"

text \<open>Two documents are equal as Python values when they agree up to the order of an object's keys.\<close>

fun sort_keys :: "json \<Rightarrow> json" where
  "sort_keys (JObj kvs) = JObj (sort_key fst (map (\<lambda>(k, v). (k, sort_keys v)) kvs))"
| "sort_keys (JArr vs) = JArr (map sort_keys vs)"
| "sort_keys v = v"

definition sections_of :: "json \<Rightarrow> (string, json) dict" where
  "sections_of document = (case document of JObj kvs \<Rightarrow> kvs | _ \<Rightarrow> [])"

definition assert_financial_equal :: "pyval \<Rightarrow> pyval \<Rightarrow> fingerprint_error + unit" where
  "assert_financial_equal expected actual =
     bind_result (logical_document expected) (\<lambda>e.
     bind_result (logical_document actual) (\<lambda>a.
       if sort_keys e = sort_keys a then Inr ()
       else Inl (FinancialResultMismatch
         (map fst (filter (\<lambda>(section, j).
            map_option sort_keys (map_of (sections_of a) section) \<noteq> Some (sort_keys j)) (sections_of e))))))"

text \<open>A stored artifact: the payload as read from its JSONB column.\<close>

fun of_json :: "json \<Rightarrow> pyval" where
  "of_json JNull = PyNone"
| "of_json (JBool b) = PyBool b"
| "of_json (JInt i) = PyInt i"
| "of_json (JFloat s) = PyFloat s"
| "of_json (JStr s) = PyStr s"
| "of_json (JArr vs) = PySeq (map of_json vs)"
| "of_json (JObj kvs) = PyMap (map (\<lambda>(k, v). (k, of_json v)) kvs)"

definition payload_version :: "json \<Rightarrow> json" where
  "payload_version payload = dict_get (sections_of payload) ''financial_fingerprint_version'' (JInt 1)"

definition verify_stored_financial_result ::
  "(string \<Rightarrow> string) \<Rightarrow> json \<Rightarrow> string \<Rightarrow> fingerprint_error + string" where
  "verify_stored_financial_result sha payload stored_fingerprint =
     (if payload_version payload \<noteq> JInt FINANCIAL_FINGERPRINT_VERSION then Inl FpValueError
      else bind_result (logical_fingerprint sha (of_json payload)) (\<lambda>calculated.
        if calculated \<noteq> stored_fingerprint then Inl (FinancialResultMismatch [])
        else Inr calculated))"

subsection \<open>The reconciler's result as a Python value\<close>

definition money_value :: "int \<Rightarrow> pyval" where
  "money_value c = PyDecimal (eur c)"

definition optional_value :: "('a \<Rightarrow> pyval) \<Rightarrow> 'a option \<Rightarrow> pyval" where
  "optional_value f v = (case v of None \<Rightarrow> PyNone | Some x \<Rightarrow> f x)"

definition codes_value :: "exception_code list \<Rightarrow> pyval" where
  "codes_value cs = PySeq (map (\<lambda>c. PyEnum (exception_code_value c)) cs)"

definition transaction_value :: "transaction_row \<Rightarrow> pyval" where
  "transaction_value t = PyData
     [(''run_id'', PyStr (tx_run_id t)),
      (''contract_version'', PyStr (tx_contract_version t)),
      (''order_id'', PyStr (tx_order_id t)),
      (''order_status'', PyEnum (order_status_value (tx_order_status t))),
      (''currency'', PyStr (tx_currency t)),
      (''expected_collection'', money_value (tx_expected_collection t)),
      (''captured_total'', money_value (tx_captured_total t)),
      (''collection_variance'', money_value (tx_collection_variance t)),
      (''successful_refund_total'', money_value (tx_refund_total t)),
      (''expected_fee_total'', money_value (tx_expected_fee_total t)),
      (''reported_fee_total'', money_value (tx_reported_fee_total t)),
      (''lifetime_net_collection'', money_value (tx_lifetime_net t)),
      (''captured_payment_count'', PyInt (int (tx_captured_count t))),
      (''successful_refund_count'', PyInt (int (tx_refund_count t))),
      (''state'', PyEnum (reconciliation_state_value (tx_state t))),
      (''exception_codes'', codes_value (tx_codes t))]"

definition movement_value :: "expected_movement \<Rightarrow> pyval" where
  "movement_value m = PyData
     [(''movement_type'', PyEnum (movement_type_value (mov_type m))),
      (''movement_id'', PyStr (mov_id m)),
      (''available_on'', PyDate (mov_available_on m)),
      (''signed_amount'', money_value (mov_signed_amount m)),
      (''supporting_source_record_ids'', PySeq (map PyStr (mov_support m)))]"

definition payout_value :: "payout_row \<Rightarrow> pyval" where
  "payout_value p = PyData
     [(''run_id'', PyStr (po_run_id p)),
      (''contract_version'', PyStr (po_contract_version p)),
      (''payout_id'', PyStr (po_payout_id p)),
      (''payout_date'', PyDate (po_payout_date p)),
      (''currency'', PyStr (po_currency p)),
      (''expected_payout'', money_value (po_expected p)),
      (''reported_line_total'', money_value (po_line_total p)),
      (''reported_net_amount'', money_value (po_reported_net p)),
      (''provider_report_variance'', money_value (po_provider_variance p)),
      (''end_to_end_payout_variance'', money_value (po_end_to_end_variance p)),
      (''expected_movement_count'', PyInt (int (po_movement_count p))),
      (''settlement_line_count'', PyInt (int (po_line_count p))),
      (''state'', PyEnum (reconciliation_state_value (po_state p))),
      (''exception_codes'', codes_value (po_codes p))]"

definition exception_value :: "recon_exception \<Rightarrow> pyval" where
  "exception_value x = PyData
     [(''run_id'', PyStr (rx_run_id x)),
      (''contract_version'', PyStr (rx_contract_version x)),
      (''rule_id'', PyStr (rx_rule_id x)),
      (''exception_type'', PyEnum (exception_code_value (rx_type x))),
      (''entity_type'', PyStr (rx_entity_type x)),
      (''entity_id'', PyStr (rx_entity_id x)),
      (''expected_amount'', optional_value money_value (rx_expected x)),
      (''actual_amount'', optional_value money_value (rx_actual x)),
      (''variance'', optional_value money_value (rx_variance x)),
      (''detected_at_utc'', PyDatetime (Aware (rx_detected_at x))),
      (''status'', PyStr (rx_status x)),
      (''supporting_source_record_ids'', PySeq (map PyStr (rx_support x)))]"

definition status_value :: "result_texts \<Rightarrow> source_report_status \<Rightarrow> pyval" where
  "status_value texts s = PyData
     [(''source_system'', PyEnum (source_system_value (srs_source_system s))),
      (''report_type'', PyEnum (report_type_value (srs_report_type s))),
      (''business_date'', PyDate (srs_business_date s)),
      (''state'', PyEnum (source_completeness_value (srs_state s))),
      (''batch_id'', optional_value PyStr (srs_batch_id s)),
      (''reason'', optional_value PyStr (reason_of texts s))]"

definition quarantine_value :: "result_texts \<Rightarrow> quarantined_record \<Rightarrow> pyval" where
  "quarantine_value texts q = PyData
     [(''entity_type'', PyStr (qr_entity_type q)),
      (''source_id'', optional_value PyStr (qr_source_id q)),
      (''reason_code'', PyStr (qr_reason_code q)),
      (''reason_detail'', PyStr (detail_of texts q)),
      (''raw_payload_json'', PyStr (qr_raw_payload_json q))]"

definition result_fields :: "result_texts \<Rightarrow> recon_result \<Rightarrow> (string \<times> pyval) list" where
  "result_fields texts r =
     [(''run_id'', PyStr (rr_run_id r)),
      (''contract_version'', PyStr (rr_contract_version r)),
      (''detected_at_utc'', PyDatetime (Aware (rr_detected_at r))),
      (''transactions'', PySeq (map transaction_value (rr_transactions r))),
      (''expected_movements'', PySeq (map movement_value (rr_movements r))),
      (''payouts'', PySeq (map payout_value (rr_payouts r))),
      (''exceptions'', PySeq (map exception_value (rr_exceptions r))),
      (''source_completeness'', PySeq (map (status_value texts) (rr_completeness r))),
      (''quarantine_records'', PySeq (map (quarantine_value texts) (rr_quarantine r)))]"

definition result_value :: "result_texts \<Rightarrow> recon_result \<Rightarrow> pyval" where
  "result_value texts r = PyData (result_fields texts r)"

end
