(* ===== verification/Fingerprint_Facts.thy ===== *)
theory Fingerprint_Facts
  imports Recovery_Fingerprint
begin

text \<open>
  The relation of changes without financial meaning, and that neither they nor a round trip through
  a JSONB column change the text that is hashed.
\<close>

subsection \<open>Amounts with the same value\<close>

text \<open>Read at an exponent \<open>m\<close> below both, an amount is an integer; the checks only see that integer.\<close>

definition scaled :: "nat \<Rightarrow> int \<Rightarrow> int \<Rightarrow> nat" where
  "scaled c e m = c * 10 ^ nat (e - m)"

fun dec_equal :: "decimal \<Rightarrow> decimal \<Rightarrow> bool" where
  "dec_equal (Finite s c e) (Finite s' c' e') =
     (signed_coef s (scaled c e (min e e')) = signed_coef s' (scaled c' e' (min e e')))"
| "dec_equal d d' = (d = d')"

lemma nat_split: "m \<le> e \<Longrightarrow> e \<le> k \<Longrightarrow> nat (k - m) = nat (k - e) + nat (e - m)"
  by simp

lemma scaled_lower: "m \<le> e' \<Longrightarrow> e' \<le> e \<Longrightarrow> scaled c e m = scaled c e e' * 10 ^ nat (e' - m)"
  using nat_split[of m e' e] by (simp add: scaled_def power_add)

lemma mag_gt_scaled:
  assumes "m \<le> e" "m \<le> f"
  shows "mag_gt c e d f \<longleftrightarrow> scaled d f m < scaled c e m"
proof -
  have m: "m \<le> min e f" "min e f \<le> e" "min e f \<le> f" using assms by simp_all
  show ?thesis
    unfolding mag_gt_def Let_def scaled_lower[OF m(1,2)] scaled_lower[OF m(1,3)]
    by (simp add: scaled_def)
qed

lemma round_half_even_dvd: "0 < p \<Longrightarrow> round_half_even c p * p = c \<longleftrightarrow> p dvd c"
proof
  assume p: "0 < p" and d: "p dvd c"
  then show "round_half_even c p * p = c" by (simp add: round_half_even_def Let_def)
qed (metis dvd_triv_right)

lemma round_half_even_exact: "0 < p \<Longrightarrow> p dvd c \<Longrightarrow> round_half_even c p = c div p"
  by (simp add: round_half_even_def Let_def)

lemma whole_cents_scaled:
  assumes "m \<le> e" "m \<le> -2"
  shows "whole_cents c e \<longleftrightarrow> 10 ^ nat (-2 - m) dvd scaled c e m"
    and "whole_cents c e \<Longrightarrow> even_cents c e = scaled c e m div 10 ^ nat (-2 - m)"
proof -
  have "(whole_cents c e \<longleftrightarrow> 10 ^ nat (-2 - m) dvd scaled c e m)
    \<and> (whole_cents c e \<longrightarrow> even_cents c e = scaled c e m div 10 ^ nat (-2 - m))"
  proof (cases "-2 \<le> e")
    case True
    have "scaled c e m = c * 10 ^ nat (e + 2) * 10 ^ nat (-2 - m)"
      using scaled_lower[of m "-2" e c] assms True by (simp add: scaled_def)
    with True show ?thesis by (simp add: whole_cents_def even_cents_def)
  next
    case False
    have p: "(10::nat) ^ nat (-2 - m) = 10 ^ nat (-2 - e) * 10 ^ nat (e - m)"
      using nat_split[of m e "-2"] assms False by (simp add: power_add)
    have s: "scaled c e m = c * 10 ^ nat (e - m)" by (simp add: scaled_def)
    have w: "whole_cents c e \<longleftrightarrow> 10 ^ nat (-2 - e) dvd c"
      using False round_half_even_dvd[of "10 ^ nat (-2 - e)" c] by (simp add: whole_cents_def even_cents_def)
    have "even_cents c e = c div 10 ^ nat (-2 - e)" if "whole_cents c e"
      using that False w round_half_even_exact[of "10 ^ nat (-2 - e)" c] by (simp add: even_cents_def)
    with w show ?thesis unfolding p s by simp
  qed
  then show "whole_cents c e \<longleftrightarrow> 10 ^ nat (-2 - m) dvd scaled c e m"
    and "whole_cents c e \<Longrightarrow> even_cents c e = scaled c e m div 10 ^ nat (-2 - m)"
    by blast+
qed

lemma signed_coef_eq:
  "signed_coef s c = signed_coef s' c' \<longleftrightarrow> c = c' \<and> (c = 0 \<or> s = s')"
  by (cases s; cases s') (auto simp: signed_coef_def)

lemma money_text_equal: "dec_equal d d' \<Longrightarrow> money_text d = money_text d'"
proof (induction d d' rule: dec_equal.induct)
  case (1 s c e s' c' e')
  define m where "m = min (min e e') (-2)"
  have m: "m \<le> min e e'" "m \<le> e" "m \<le> e'" "m \<le> -2" by (auto simp: m_def)
  have eq: "scaled c e (min e e') = scaled c' e' (min e e')"
    and sign: "scaled c e (min e e') = 0 \<or> s = s'"
    using 1 by (auto simp: signed_coef_eq)
  have C: "scaled c e m = scaled c' e' m"
    using eq scaled_lower[OF m(1), of e c] scaled_lower[OF m(1), of e' c'] by simp
  have zero: "scaled c e m = 0 \<or> s = s'"
    using sign scaled_lower[OF m(1), of e c] by auto
  have "mag_gt c e MAX_MONEY_CENTS (-2) = mag_gt c' e' MAX_MONEY_CENTS (-2)"
    using mag_gt_scaled[OF m(2,4)] mag_gt_scaled[OF m(3,4)] C by simp
  moreover have w: "whole_cents c e = whole_cents c' e'"
    using whole_cents_scaled(1)[OF m(2,4)] whole_cents_scaled(1)[OF m(3,4)] C by simp
  moreover have "even_cents c e = even_cents c' e' \<and> (even_cents c e = 0 \<or> s = s')" if "whole_cents c e"
    using whole_cents_scaled(2)[OF m(2,4) that] whole_cents_scaled(2)[OF m(3,4)] that w C zero by auto
  ultimately show ?case by (auto simp: money_text_def)
qed auto

subsection \<open>The printed form of a decimal\<close>

lemma is_digit_space: "is_digit c \<Longrightarrow> \<not> is_space c"
  by (auto simp: is_digit_def is_space_def Let_def)

lemma is_digit_lower: "is_digit c \<Longrightarrow> to_lower c = c"
  by (simp add: is_digit_def to_lower_def Let_def)

lemma lower_point: "to_lower CHR ''.'' = CHR ''.''"
  by code_simp

lemma is_digit_not:
  assumes "is_digit c"
  shows "c \<noteq> CHR ''e''" "c \<noteq> CHR ''.''" "c \<noteq> CHR ''_''" "c \<noteq> CHR ''-''" "c \<noteq> CHR ''+''"
    "c \<noteq> CHR ''i''" "c \<noteq> CHR ''n''" "c \<noteq> CHR ''s''"
  using assms by (auto simp: is_digit_def)

lemma decimal_text_plain:
  assumes ds: "list_all is_digit ip" "list_all is_digit fp" "ip \<noteq> []"
    and body: "body = ip @ (if fp = [] then [] else CHR ''.'' # fp)"
    and t: "t = (if neg then CHR ''-'' # body else body)"
  shows "decimal_of_text t = Some (Finite neg (nat_of_digits (ip @ fp)) (- int (length fp)))"
proof -
  obtain a r where ip: "ip = a # r" and a: "is_digit a" using ds by (cases ip) auto
  have dig: "c \<in> set body \<Longrightarrow> is_digit c \<or> c = CHR ''.''" for c
    using ds unfolding body by (auto simp: list_all_iff split: if_splits)
  have under: "filter (\<lambda>c. c \<noteq> CHR ''_'') t = t"
    unfolding t using dig is_digit_not(3) by (auto simp: filter_id_conv)
  have ne: "body \<noteq> []" "hd body = a" by (simp_all add: body ip)
  have "\<not> is_space (last body)" using dig[OF last_in_set[OF ne(1)]] is_digit_space by (auto simp: is_space_def)
  moreover have "\<not> is_space (hd t)" using ne a is_digit_space by (auto simp: t is_space_def)
  moreover have "last t = last body" using ne by (simp add: t)
  ultimately have strip: "strip t = t" using ne unfolding t
    by (metis canonical_text_def canonical_text_iff list.distinct(1))
  have u: "unsigned t = body" and n: "negative_text t = neg"
    using ne is_digit_not(4,5)[OF a] by (auto simp: t unsigned_def negative_text_def)
  have low: "map to_lower body = body"
    using dig is_digit_lower lower_point by (intro map_idI) metis
  have first: "hd body \<noteq> CHR ''i''" "hd body \<noteq> CHR ''n''" "hd body \<noteq> CHR ''s''"
    using ne is_digit_not[OF a] by simp_all
  have "body \<noteq> ''inf''" "body \<noteq> ''infinity''" "\<not> nan_text body"
    using first ne(1) by (cases body; auto simp: nan_text_def)+
  moreover have man: "takeWhile (\<lambda>c. to_lower c \<noteq> CHR ''e'') body = body"
    using dig is_digit_lower is_digit_not(1) lower_point by (fastforce simp: takeWhile_eq_all_conv)
  have "takeWhile (\<lambda>c. c \<noteq> CHR ''.'') body = ip"
  proof (cases "fp = []")
    case True
    then show ?thesis using ds is_digit_not(2) by (auto simp: body takeWhile_eq_all_conv list_all_iff)
  next
    case False
    then have "takeWhile (\<lambda>c. c \<noteq> CHR ''.'') body = ip @ takeWhile (\<lambda>c. c \<noteq> CHR ''.'') (CHR ''.'' # fp)"
      unfolding body using ds is_digit_not(2) by (subst if_not_P, simp, intro takeWhile_append2) (auto simp: list_all_iff)
    then show ?thesis by simp
  qed
  moreover have "drop (Suc (length ip)) body = fp" by (simp add: body)
  ultimately show ?thesis
    using ds ip by (simp add: decimal_of_text_def under strip u n low finite_text_def man Let_def exponent_text_def)
qed

lemma list_all_string_of_nat: "list_all is_digit (string_of_nat n)"
  using string_of_nat_digits by (auto simp: list_all_iff)

lemma list_all_pad_nat: "list_all is_digit (pad_nat w n)"
  using pad_nat_digits by (auto simp: list_all_iff)

lemma nat_of_digits_append: "nat_of_digits (s @ t) = nat_of_digits s * 10 ^ length t + nat_of_digits t"
  by (induction t rule: rev_induct) (simp_all flip: append_assoc add: algebra_simps)

lemma decimal_of_format_f:
  "\<exists>d. decimal_of_text (format_f neg c e) = Some d \<and> dec_equal (Finite neg c e) d"
proof (cases "0 \<le> e")
  case True
  have "decimal_of_text (format_f neg c e) = Some (Finite neg (nat_of_digits (string_of_nat (c * 10 ^ nat e) @ [])) (- int (length ([] :: string))))"
    by (rule decimal_text_plain[where body = "string_of_nat (c * 10 ^ nat e)"])
      (use True in \<open>auto simp: format_f_def list_all_string_of_nat\<close>)
  with True show ?thesis by (simp add: scaled_def)
next
  case False
  let ?w = "nat (- e)"
  have w: "?w = Suc (?w - 1)" using False by simp
  have ne: "pad_nat ?w x \<noteq> []" for x by (metis length_pad_nat list.size(3) False neg_le_0_iff_le nat_eq_iff2 linorder_le_cases nat_0_iff)
  have "decimal_of_text (format_f neg c e) = Some (Finite neg
      (nat_of_digits (string_of_nat (c div 10 ^ ?w) @ pad_nat ?w (c mod 10 ^ ?w))) (- int (length (pad_nat ?w (c mod 10 ^ ?w)))))"
    by (rule decimal_text_plain[where body = "string_of_nat (c div 10 ^ ?w) @ ''.'' @ pad_nat ?w (c mod 10 ^ ?w)"])
      (use False ne in \<open>auto simp: format_f_def list_all_string_of_nat list_all_pad_nat\<close>)
  moreover have "nat_of_digits (string_of_nat (c div 10 ^ ?w) @ pad_nat ?w (c mod 10 ^ ?w)) = c"
    by (simp add: nat_of_digits_append div_mult_mod_eq)
  moreover have "- int (length (pad_nat ?w (c mod 10 ^ ?w))) = e" using False by simp
  ultimately show ?thesis by simp
qed

subsection \<open>Changes without financial meaning\<close>

definition amount_of :: "pyval \<Rightarrow> decimal option" where
  "amount_of v = (case v of
       PyDecimal d \<Rightarrow> Some d
     | PyInt i \<Rightarrow> Some (Finite (i < 0) (nat \<bar>i\<bar>) 0)
     | PyStr s \<Rightarrow> decimal_of_text s
     | PyEnum s \<Rightarrow> decimal_of_text s
     | _ \<Rightarrow> None)"

definition same_amount :: "pyval \<Rightarrow> pyval \<Rightarrow> bool" where
  "same_amount v w = (case (amount_of v, amount_of w) of (Some d, Some d') \<Rightarrow> dec_equal d d' | _ \<Rightarrow> False)"

definition rejected_amount :: "pyval \<Rightarrow> bool" where
  "rejected_amount v = (amount_of v = None \<and> v \<noteq> PyNone)"

inductive harmless :: "pyval \<Rightarrow> pyval \<Rightarrow> bool" where
  same: "harmless v v"
| undo: "harmless v w \<Longrightarrow> harmless w v"
| chain: "harmless u v \<Longrightarrow> harmless v w \<Longrightarrow> harmless u w"
| enum_text: "harmless (PyEnum s) (PyStr s)"
| date_text: "harmless (PyDate d) (PyStr (isoformat d))"
| time_text: "harmless (PyDatetime (Aware i)) (PyStr (isoformat_utc i))"
| uuid_text: "harmless (PyUuid s) (PyStr s)"
| decimal_text: "harmless (PyDecimal (Finite neg c e)) (PyStr (format_f neg c e))"
| as_mapping: "harmless (PyData kvs) (PyMap kvs)"
| drop_audit: "harmless (PyMap kvs) (PyMap (filter (\<lambda>(k, v). k \<notin> set AUDIT_FIELDS) kvs))"
| reorder_fields: "mset kvs = mset kvs' \<Longrightarrow> distinct (map fst kvs) \<Longrightarrow> harmless (PyMap kvs) (PyMap kvs')"
| money_field: "k \<in> set MONEY_FIELDS \<Longrightarrow> same_amount v w \<Longrightarrow>
    harmless (PyMap (kvs @ (k, v) # kvs')) (PyMap (kvs @ (k, w) # kvs'))"
| rejected_field: "k \<in> set MONEY_FIELDS \<Longrightarrow> rejected_amount v \<Longrightarrow> rejected_amount w \<Longrightarrow>
    harmless (PyMap (kvs @ (k, v) # kvs')) (PyMap (kvs @ (k, w) # kvs'))"
| plain_field: "k \<notin> set MONEY_FIELDS \<Longrightarrow> harmless v w \<Longrightarrow>
    harmless (PyMap (kvs @ (k, v) # kvs')) (PyMap (kvs @ (k, w) # kvs'))"
| permute: "mset vs = mset vs' \<Longrightarrow> harmless (PySeq vs) (PySeq vs')"
| element: "harmless v w \<Longrightarrow> harmless (PySeq (vs @ v # vs')) (PySeq (vs @ w # vs'))"

text \<open>The text that is hashed; all errors count as one.\<close>

definition text_of :: "fingerprint_error + json \<Rightarrow> string option" where
  "text_of r = (case r of Inl _ \<Rightarrow> None | Inr j \<Rightarrow> Some (json_dumps j))"

lemma text_of_simps [simp]: "text_of (Inl e) = None" "text_of (Inr j) = Some (json_dumps j)"
  by (simp_all add: text_of_def)

lemma sort_map_key: "sort (map f xs) = map f (sort_key f xs)"
  by (rule properties_for_sort) simp_all

fun sequence :: "'a option list \<Rightarrow> 'a list option" where
  "sequence [] = Some []"
| "sequence (None # xs) = None"
| "sequence (Some x # xs) = map_option ((#) x) (sequence xs)"

lemma sequence_Some: "sequence xs = Some ys \<longleftrightarrow> xs = map Some ys"
  by (induction xs arbitrary: ys rule: sequence.induct) (auto simp: Cons_eq_map_conv)

lemma sequence_None: "sequence xs = None \<longleftrightarrow> None \<in> set xs"
  by (induction xs rule: sequence.induct) auto

lemma sequence_permuted:
  assumes "mset xs = mset ys"
  shows "map_option mset (sequence xs) = map_option mset (sequence ys)"
proof (cases "None \<in> set xs")
  case True
  then have "sequence xs = None" "sequence ys = None"
    using mset_eq_setD[OF assms] by (simp_all add: sequence_None)
  then show ?thesis by simp
next
  case False
  then obtain as bs where ab: "sequence xs = Some as" "sequence ys = Some bs"
    using mset_eq_setD[OF assms] by (metis not_None_eq sequence_None)
  then have "image_mset Some (mset as) = image_mset Some (mset bs)"
    using assms by (simp add: sequence_Some)
  then have "image_mset the (image_mset Some (mset as)) = image_mset the (image_mset Some (mset bs))" by simp
  with ab show ?thesis by (simp add: multiset.map_comp comp_def)
qed

lemma map_result_sequence:
  "(case map_result f xs of Inl _ \<Rightarrow> None | Inr ys \<Rightarrow> Some (map g ys))
    = sequence (map (\<lambda>x. case f x of Inl _ \<Rightarrow> None | Inr y \<Rightarrow> Some (g y)) xs)"
proof (induction xs)
  case (Cons a xs)
  then show ?case
    by (cases "f a"; cases "map_result f xs") (simp_all flip: Cons.IH)
qed simp

definition seq_text :: "string list \<Rightarrow> string" where
  "seq_text ts = ''['' @ join '','' (sort ts) @ '']''"

lemma text_of_seq:
  "text_of (logical_value (PySeq vs)) = map_option seq_text (sequence (map (\<lambda>v. text_of (logical_value v)) vs))"
proof -
  have "text_of (logical_value (PySeq vs))
      = map_option seq_text (case map_result logical_value vs of Inl _ \<Rightarrow> None | Inr js \<Rightarrow> Some (map json_dumps js))"
    by (cases "map_result logical_value vs") (simp_all add: seq_text_def sort_map_key)
  then show ?thesis unfolding map_result_sequence text_of_def .
qed

definition field_of :: "string \<times> pyval \<Rightarrow> fingerprint_error + (string \<times> json) list" where
  "field_of = (\<lambda>(k, v).
     if k \<in> set AUDIT_FIELDS then Inr []
     else if k \<in> set MONEY_FIELDS then bind_result (money_string v) (\<lambda>j. Inr [(k, j)])
     else bind_result (logical_value v) (\<lambda>j. Inr [(k, j)]))"

definition field_text :: "string \<times> pyval \<Rightarrow> (string \<times> string) list option" where
  "field_text kv = (case field_of kv of Inl _ \<Rightarrow> None | Inr fs \<Rightarrow> Some (map (\<lambda>(k, j). (k, json_dumps j)) fs))"

definition map_text :: "(string \<times> string) list list \<Rightarrow> string" where
  "map_text fs = CHR 0x7B # join '','' (map (\<lambda>(k, t). json_quote k @ '':'' @ t) (sort_key fst (concat fs))) @ [CHR 0x7D]"

lemma text_of_map: "text_of (logical_value (PyMap kvs)) = map_option map_text (sequence (map field_text kvs))"
proof -
  have "logical_value (PyMap kvs) = bind_result (map_result field_of kvs) (\<lambda>fields. Inr (JObj (concat fields)))"
    by (simp add: field_of_def)
  then have "text_of (logical_value (PyMap kvs)) = map_option map_text
      (case map_result field_of kvs of Inl _ \<Rightarrow> None | Inr fs \<Rightarrow> Some (map (map (\<lambda>(k, j). (k, json_dumps j))) fs))"
    by (cases "map_result field_of kvs") (simp_all add: map_text_def map_concat)
  then show ?thesis unfolding map_result_sequence field_text_def .
qed

lemma text_of_data: "logical_value (PyData kvs) = logical_value (PyMap kvs)"
  by simp

lemma field_text_key: "field_text (k, v) = Some fs \<Longrightarrow> set (map fst fs) \<subseteq> {k} \<and> length fs \<le> 1"
  by (auto simp: field_text_def field_of_def bind_result_def split: sum.splits if_splits)

lemma distinct_fields:
  assumes "distinct (map fst kvs)" and "map field_text kvs = map Some fss"
  shows "distinct (map fst (concat fss)) \<and> set (map fst (concat fss)) \<subseteq> set (map fst kvs)"
  using assms
proof (induction kvs arbitrary: fss)
  case (Cons kv kvs)
  obtain k v fs rest where c: "kv = (k, v)" "fss = fs # rest" "field_text (k, v) = Some fs" "map field_text kvs = map Some rest"
    using Cons.prems by (cases kv; cases fss) auto
  have IH: "distinct (map fst (concat rest)) \<and> set (map fst (concat rest)) \<subseteq> set (map fst kvs)"
    by (rule Cons.IH) (use Cons.prems c in auto)
  have one: "set (map fst fs) \<subseteq> {k}" "distinct (map fst fs)"
    using field_text_key[OF c(3)] by (auto simp: le_Suc_eq length_Suc_conv)
  have "k \<notin> set (map fst kvs)" using Cons.prems(1) by (simp add: c)
  with one IH have disj: "set (map fst fs) \<inter> set (map fst (concat rest)) = {}" by blast
  have split: "map fst (concat fss) = map fst fs @ map fst (concat rest)" by (simp add: c)
  show ?case unfolding split using one IH disj by (auto simp: c simp del: set_map)
qed simp

lemma map_text_permuted:
  assumes "mset fss = mset fss'" and "distinct (map fst (concat fss))"
  shows "map_text fss = map_text fss'"
proof -
  have "mset (concat fss) = mset (concat fss')"
    using assms(1) by (simp add: mset_concat flip: sum_mset_sum_list)
  then have "sort_key fst (concat fss) = sort_key fst (concat fss')"
    using assms(2) by (intro sort_key_eq_of_mset inj_on_of_distinct_map)
  then show ?thesis by (simp add: map_text_def)
qed

lemma sequence_replace: "f x = f y \<Longrightarrow> sequence (map f (xs @ x # ys)) = sequence (map f (xs @ y # ys))"
  by simp

lemma field_text_audit: "k \<in> set AUDIT_FIELDS \<Longrightarrow> field_text (k, v) = Some []"
  by (simp add: field_text_def field_of_def)

lemma sequence_drop_audit:
  "map_option concat (sequence (map field_text kvs))
    = map_option concat (sequence (map field_text (filter (\<lambda>(k, v). k \<notin> set AUDIT_FIELDS) kvs)))"
proof (induction kvs)
  case (Cons kv kvs)
  show ?case
  proof (cases "fst kv \<in> set AUDIT_FIELDS")
    case True
    then have "field_text kv = Some []" by (metis field_text_audit prod.collapse)
    then have "map_option concat (sequence (map field_text (kv # kvs))) = map_option concat (sequence (map field_text kvs))"
      by (simp add: option.map_comp comp_def)
    with True Cons show ?thesis by (simp add: case_prod_beta)
  next
    case False
    have "map_option concat (sequence (x # xs)) = (case x of None \<Rightarrow> None | Some a \<Rightarrow> map_option ((@) a) (map_option concat (sequence xs)))"
      for x and xs :: "(string \<times> string) list option list"
      by (cases x) (simp_all add: option.map_comp comp_def)
    moreover have "filter (\<lambda>(k, v). k \<notin> set AUDIT_FIELDS) (kv # kvs)
        = kv # filter (\<lambda>(k, v). k \<notin> set AUDIT_FIELDS) kvs"
      using False by (simp add: case_prod_beta)
    ultimately show ?thesis using Cons by (simp only: list.map)
  qed
qed simp

lemma map_text_concat: "map_option map_text x = map_option (\<lambda>c. map_text [c]) (map_option concat x)"
  by (cases x) (simp_all add: map_text_def)

lemma money_string_same:
  assumes "same_amount v w"
  shows "money_string v = money_string w"
proof -
  obtain d d' where d: "amount_of v = Some d" "amount_of w = Some d'" "dec_equal d d'"
    using assms by (auto simp: same_amount_def split: option.splits)
  have m: "money_string u = bind_result (money_text x) (\<lambda>t. Inr (JStr t))" if "amount_of u = Some x" for u x
    using that by (cases u) (auto simp: amount_of_def money_string_def)
  from m[OF d(1)] m[OF d(2)] money_text_equal[OF d(3)] show ?thesis by simp
qed

text \<open>A financially meaningless change does not change the text that is hashed.\<close>

lemma harmless_text: "harmless v w \<Longrightarrow> text_of (logical_value v) = text_of (logical_value w)"
proof (induction rule: harmless.induct)
  case (drop_audit kvs)
  show ?case unfolding text_of_map map_text_concat sequence_drop_audit[of kvs] ..
next
  case (reorder_fields kvs kvs')
  have m: "map_option mset (sequence (map field_text kvs)) = map_option mset (sequence (map field_text kvs'))"
    using reorder_fields(1) by (intro sequence_permuted) (simp add: mset_map)
  show ?case
  proof (cases "sequence (map field_text kvs)")
    case None
    with m show ?thesis unfolding text_of_map by simp
  next
    case (Some fss)
    then obtain fss' where fss': "sequence (map field_text kvs') = Some fss'" "mset fss = mset fss'"
      using m by (cases "sequence (map field_text kvs')") auto
    moreover have "distinct (map fst (concat fss))"
      using distinct_fields reorder_fields(2) Some by (simp add: sequence_Some)
    ultimately show ?thesis unfolding text_of_map using Some map_text_permuted by simp
  qed
next
  case (money_field k v w kvs kvs')
  have "field_text (k, v) = field_text (k, w)"
    using money_field by (simp add: field_text_def field_of_def money_string_same)
  then show ?case unfolding text_of_map using sequence_replace by metis
next
  case (rejected_field k v w kvs kvs')
  have "\<exists>e. money_string u = Inl e" if "rejected_amount u" for u
    using that by (cases u) (auto simp: rejected_amount_def amount_of_def money_string_def)
  then obtain e e' where "money_string v = Inl e" "money_string w = Inl e'"
    using rejected_field(2,3) by blast
  then have "field_text (k, v) = field_text (k, w)"
    using rejected_field(1) by (simp add: field_text_def field_of_def)
  then show ?case unfolding text_of_map using sequence_replace by metis
next
  case (plain_field k v w kvs kvs')
  have "field_text (k, v) = field_text (k, w)"
    using plain_field(1,3) by (cases "logical_value v"; cases "logical_value w") (simp_all add: field_text_def field_of_def)
  then show ?case unfolding text_of_map using sequence_replace by metis
next
  case (permute vs vs')
  have "map_option mset (sequence (map (\<lambda>v. text_of (logical_value v)) vs))
      = map_option mset (sequence (map (\<lambda>v. text_of (logical_value v)) vs'))"
    using permute by (intro sequence_permuted) (simp add: mset_map)
  moreover have "map_option seq_text x = map_option (\<lambda>m. ''['' @ join '','' (sorted_list_of_multiset m) @ '']'') (map_option mset x)" for x
    by (cases x) (simp_all add: seq_text_def)
  ultimately show ?case unfolding text_of_seq by simp
next
  case (element v w vs vs')
  then show ?case unfolding text_of_seq using sequence_replace by metis
qed simp_all

subsection \<open>Storing a candidate and reading it back\<close>

lemma harmless_elements:
  assumes "list_all2 harmless vs ws"
  shows "harmless (PySeq (us @ vs)) (PySeq (us @ ws))"
  using assms
proof (induction arbitrary: us rule: list_all2_induct)
  case Nil
  then show ?case by (simp add: same)
next
  case (Cons v vs w ws)
  have "harmless (PySeq (us @ v # vs)) (PySeq (us @ w # vs))" using Cons(1) by (rule element)
  moreover have "harmless (PySeq (us @ w # vs)) (PySeq (us @ w # ws))" using Cons(3)[of "us @ [w]"] by simp
  ultimately show ?case by (rule chain)
qed

definition harmless_field :: "string \<times> pyval \<Rightarrow> string \<times> pyval \<Rightarrow> bool" where
  "harmless_field f g = (fst f = fst g \<and> (fst f \<in> set AUDIT_FIELDS \<or>
     (if fst f \<in> set MONEY_FIELDS
      then snd f = snd g \<or> same_amount (snd f) (snd g) \<or> (rejected_amount (snd f) \<and> rejected_amount (snd g))
      else harmless (snd f) (snd g))))"

lemma harmless_audit:
  assumes "k \<in> set AUDIT_FIELDS"
  shows "harmless (PyMap (a @ (k, v) # b)) (PyMap (a @ (k, w) # b))"
proof -
  let ?P = "\<lambda>(k, v). k \<notin> set AUDIT_FIELDS"
  have "filter ?P (a @ (k, v) # b) = filter ?P (a @ (k, w) # b)" using assms by simp
  then have "harmless (PyMap (filter ?P (a @ (k, v) # b))) (PyMap (a @ (k, w) # b))"
    using undo[OF drop_audit[of "a @ (k, w) # b"]] by simp
  with drop_audit show ?thesis by (rule chain)
qed

lemma harmless_one_field:
  assumes "harmless_field (k, v) (k', w)"
  shows "harmless (PyMap (a @ (k, v) # b)) (PyMap (a @ (k', w) # b))"
proof -
  have k: "k' = k" using assms by (simp add: harmless_field_def)
  then have field: "harmless_field (k, v) (k, w)" using assms by simp
  show ?thesis unfolding k
  proof (cases "k \<in> set AUDIT_FIELDS")
    case True
    then show "harmless (PyMap (a @ (k, v) # b)) (PyMap (a @ (k, w) # b))" by (rule harmless_audit)
  next
    case False
    with field have "if k \<in> set MONEY_FIELDS
        then v = w \<or> same_amount v w \<or> (rejected_amount v \<and> rejected_amount w) else harmless v w"
      unfolding harmless_field_def fst_conv snd_conv by blast
    then show "harmless (PyMap (a @ (k, v) # b)) (PyMap (a @ (k, w) # b))"
      by (auto intro: same money_field rejected_field plain_field split: if_splits)
  qed
qed

lemma harmless_fields:
  assumes "list_all2 harmless_field kvs kvs'"
  shows "harmless (PyMap (a @ kvs)) (PyMap (a @ kvs'))"
  using assms
proof (induction arbitrary: a rule: list_all2_induct)
  case Nil
  then show ?case by (simp add: same)
next
  case (Cons f fs g gs)
  have "harmless (PyMap (a @ f # fs)) (PyMap (a @ g # fs))"
    using Cons(1) harmless_one_field[of "fst f" "snd f" "fst g" "snd g"] by simp
  moreover have "harmless (PyMap (a @ g # fs)) (PyMap (a @ g # gs))" using Cons(3)[of "a @ [g]"] by simp
  ultimately show ?case by (rule chain)
qed

lemma stored_amount:
  assumes "json_value v = Inr j" and "money_string v = Inr m"
  shows "v = of_json j \<or> same_amount v (of_json j)"
proof (cases v)
  case (PyDecimal d)
  then obtain neg c e where d: "d = Finite neg c e" "j = JStr (format_f neg c e)"
    using assms(1) by (auto split: decimal.splits)
  with PyDecimal decimal_of_format_f[of neg c e] show ?thesis by (auto simp: same_amount_def amount_of_def)
next
  case (PyEnum s)
  obtain d where "decimal_of_text s = Some d" using assms(2) PyEnum by (auto simp: money_string_def split: option.splits)
  moreover have "dec_equal d d" by (cases d) auto
  ultimately show ?thesis using assms PyEnum by (auto simp: same_amount_def amount_of_def)
qed (use assms in \<open>auto simp: money_string_def\<close>)

lemma stored_fields:
  assumes IH: "\<And>k v j a. (k, v) \<in> set kvs \<Longrightarrow> json_value v = Inr j \<Longrightarrow> logical_value v = Inr a \<Longrightarrow> harmless v (of_json j)"
    and j: "map_result (\<lambda>(k, v). bind_result (json_value v) (\<lambda>j. Inr (k, j))) kvs = Inr js"
    and l: "map_result field_of kvs = Inr fs"
  shows "list_all2 harmless_field kvs (map (\<lambda>(k, v). (k, of_json v)) js)"
  unfolding list_all2_conv_all_nth
proof (intro conjI allI impI)
  note j' = j[unfolded map_result_Inr_iff] and l' = l[unfolded map_result_Inr_iff]
  show "length kvs = length (map (\<lambda>(k, v). (k, of_json v)) js)" using j' by (simp add: list_all2_lengthD)
  fix i assume i: "i < length kvs"
  obtain k v where kv: "kvs ! i = (k, v)" by (cases "kvs ! i")
  have "(k, v) \<in> set kvs" using i kv by (metis nth_mem)
  obtain x where x: "json_value v = Inr x" "js ! i = (k, x)"
    using list_all2_nthD[OF j' i] kv by (auto simp: result_simps)
  have f: "field_of (k, v) = Inr (fs ! i)" using list_all2_nthD[OF l' i] kv by simp
  have "harmless_field (k, v) (k, of_json x)"
  proof (cases "k \<in> set AUDIT_FIELDS")
    case True
    then show ?thesis by (simp add: harmless_field_def)
  next
    case no: False
    show ?thesis
    proof (cases "k \<in> set MONEY_FIELDS")
      case True
      with f no obtain m where "money_string v = Inr m" by (auto simp: field_of_def result_simps)
      with True show ?thesis using stored_amount[OF x(1)] by (auto simp: harmless_field_def)
    next
      case False
      with f no obtain m where "logical_value v = Inr m" by (auto simp: field_of_def result_simps)
      with False IH[OF \<open>(k, v) \<in> set kvs\<close> x(1)] show ?thesis by (simp add: harmless_field_def)
    qed
  qed
  then show "harmless_field (kvs ! i) (map (\<lambda>(k, v). (k, of_json v)) js ! i)"
    using i j' kv x(2) by (simp add: list_all2_lengthD)
qed

lemma stored_harmless: "json_value v = Inr j \<Longrightarrow> logical_value v = Inr a \<Longrightarrow> harmless v (of_json j)"
proof (induction v arbitrary: j a)
  case (PyDecimal d)
  then show ?case by (cases d) (auto intro: decimal_text)
next
  case (PyDatetime t)
  then show ?case by (cases t) (auto intro: time_text)
next
  case (PyData kvs)
  obtain js where js: "map_result (\<lambda>(k, v). bind_result (json_value v) (\<lambda>j. Inr (k, j))) kvs = Inr js" "j = JObj js"
    using PyData.prems(1) by (auto simp: result_simps)
  obtain fs where fs: "map_result field_of kvs = Inr fs"
    using PyData.prems(2) by (auto simp: result_simps field_of_def)
  have "list_all2 harmless_field kvs (map (\<lambda>(k, v). (k, of_json v)) js)"
    by (rule stored_fields[OF _ js(1) fs]) (use PyData.IH in fastforce)
  from harmless_fields[OF this, of "[]"] show ?case unfolding js(2) by (auto intro: chain as_mapping)
next
  case (PyMap kvs)
  obtain js where js: "map_result (\<lambda>(k, v). bind_result (json_value v) (\<lambda>j. Inr (k, j))) kvs = Inr js" "j = JObj js"
    using PyMap.prems(1) by (auto simp: result_simps)
  obtain fs where fs: "map_result field_of kvs = Inr fs"
    using PyMap.prems(2) by (auto simp: result_simps field_of_def)
  have "list_all2 harmless_field kvs (map (\<lambda>(k, v). (k, of_json v)) js)"
    by (rule stored_fields[OF _ js(1) fs]) (use PyMap.IH in fastforce)
  from harmless_fields[OF this, of "[]"] show ?case unfolding js(2) by simp
next
  case (PySeq vs)
  obtain js where js: "list_all2 (\<lambda>v j. json_value v = Inr j) vs js" "j = JArr js"
    using PySeq.prems(1) by (auto simp: result_simps map_result_Inr_iff)
  obtain fs where fs: "map_result logical_value vs = Inr fs"
    using PySeq.prems(2) by (auto simp: result_simps)
  have "list_all2 harmless vs (map of_json js)"
    using js(1) PySeq.IH map_result_InrD[OF fs] by (fastforce simp: list_all2_conv_all_nth in_set_conv_nth)
  from harmless_elements[OF this, of "[]"] show ?case unfolding js(2) by simp
qed (auto intro: harmless.intros)

subsection \<open>The order of keys\<close>

fun unique_keys :: "json \<Rightarrow> bool" where
  "unique_keys (JObj kvs) = (distinct (map fst kvs) \<and> (\<forall>(k, v) \<in> set kvs. unique_keys v))"
| "unique_keys (JArr vs) = (\<forall>v \<in> set vs. unique_keys v)"
| "unique_keys v = True"

fun unique_fields :: "pyval \<Rightarrow> bool" where
  "unique_fields (PyData kvs) = (distinct (map fst kvs) \<and> (\<forall>(k, v) \<in> set kvs. unique_fields v))"
| "unique_fields (PyMap kvs) = (distinct (map fst kvs) \<and> (\<forall>(k, v) \<in> set kvs. unique_fields v))"
| "unique_fields (PySeq vs) = (\<forall>v \<in> set vs. unique_fields v)"
| "unique_fields v = True"

lemma map_result_keys:
  "map_result (\<lambda>(k, v). bind_result (f v) (\<lambda>j. Inr (k, j))) kvs = Inr js \<Longrightarrow> map fst js = map fst kvs"
  by (induction kvs arbitrary: js) (auto simp: result_simps)

lemma map_result_member:
  assumes "map_result (\<lambda>(k, v). bind_result (f v) (\<lambda>j. Inr (k, j))) kvs = Inr js" "(k, j) \<in> set js"
  shows "\<exists>v. (k, v) \<in> set kvs \<and> f v = Inr j"
proof -
  obtain i where i: "i < length js" "js ! i = (k, j)" using assms(2) by (auto simp: in_set_conv_nth)
  note all = assms(1)[unfolded map_result_Inr_iff]
  obtain k' v where v: "kvs ! i = (k', v)" by (cases "kvs ! i")
  have "i < length kvs" using all i(1) by (simp add: list_all2_lengthD)
  with list_all2_nthD2[OF all i(1)] v i(2) show ?thesis by (auto simp: result_simps intro!: nth_mem exI[of _ v]) (metis nth_mem)
qed

lemma unique_keys_fields:
  assumes "map_result (\<lambda>(k, v). bind_result (json_value v) (\<lambda>j. Inr (k, j))) kvs = Inr js"
    and "distinct (map fst kvs)" "\<And>k v j. (k, v) \<in> set kvs \<Longrightarrow> json_value v = Inr j \<Longrightarrow> unique_keys j"
  shows "unique_keys (JObj js)"
  using assms(2,3) map_result_keys[OF assms(1)] map_result_member[OF assms(1)] by (fastforce simp del: set_map)

lemma unique_keys_json_value: "json_value v = Inr j \<Longrightarrow> unique_fields v \<Longrightarrow> unique_keys j"
proof (induction v arbitrary: j)
  case (PyData kvs)
  then obtain js where "map_result (\<lambda>(k, v). bind_result (json_value v) (\<lambda>j. Inr (k, j))) kvs = Inr js" "j = JObj js"
    by (auto simp: result_simps)
  with PyData show ?case by (auto simp del: unique_keys.simps intro!: unique_keys_fields)
next
  case (PyMap kvs)
  then obtain js where "map_result (\<lambda>(k, v). bind_result (json_value v) (\<lambda>j. Inr (k, j))) kvs = Inr js" "j = JObj js"
    by (auto simp: result_simps)
  with PyMap show ?case by (auto simp del: unique_keys.simps intro!: unique_keys_fields)
next
  case (PySeq vs)
  then show ?case by (fastforce simp: result_simps map_result_Inr_iff list_all2_conv_all_nth in_set_conv_nth)
qed (auto split: decimal.splits pydatetime.splits)

lemma keys_sort_keys: "map fst (map (\<lambda>(k, v). (k, f v)) kvs) = map fst kvs"
  by auto

lemma unique_keys_sort [simp]: "unique_keys (sort_keys j) = unique_keys j"
proof (induction j)
  case (JObj kvs)
  have "distinct (map fst (sort_key fst (map (\<lambda>(k, v). (k, sort_keys v)) kvs))) = distinct (map fst kvs)"
    unfolding distinct_map_sort_key keys_sort_keys ..
  with JObj show ?case by fastforce
qed auto

lemma sorted_amount:
  "of_json v = of_json (sort_keys v) \<or> (rejected_amount (of_json v) \<and> rejected_amount (of_json (sort_keys v)))"
  by (cases v) (auto simp: rejected_amount_def amount_of_def)

lemma sort_keys_harmless: "unique_keys j \<Longrightarrow> harmless (of_json j) (of_json (sort_keys j))"
proof (induction j)
  case (JArr vs)
  then have "list_all2 harmless (map of_json vs) (map of_json (map sort_keys vs))"
    by (auto simp: list_all2_conv_all_nth)
  from harmless_elements[OF this, of "[]"] show ?case by simp
next
  case (JObj kvs)
  let ?o = "map (\<lambda>(k, v). (k, of_json v))" and ?s = "map (\<lambda>(k, v). (k, sort_keys v)) kvs"
  have "harmless_field (k, of_json v) (k, of_json (sort_keys v))" if "(k, v) \<in> set kvs" for k v
    using that JObj sorted_amount[of v] by (fastforce simp: harmless_field_def)
  then have "list_all2 harmless_field (?o kvs) (?o ?s)"
    by (auto simp: list.rel_map case_prod_beta intro!: list.rel_refl_strong)
  from harmless_fields[OF this, of "[]"] have 1: "harmless (of_json (JObj kvs)) (PyMap (?o ?s))" by simp
  have keys: "map fst (?o ?s) = map fst kvs" unfolding keys_sort_keys ..
  have "mset (?o ?s) = mset (?o (sort_key fst ?s))" by (simp only: mset_map mset_sort)
  moreover have "distinct (map fst (?o ?s))" using JObj.prems unfolding keys by simp
  ultimately have "harmless (PyMap (?o ?s)) (PyMap (?o (sort_key fst ?s)))" by (rule reorder_fields)
  with 1 show ?case by (auto intro: chain)
qed (auto intro: same)

lemma stored_harmless_sorted:
  assumes "json_value v = Inr j" "logical_value v = Inr a" "unique_fields v" "sort_keys j' = sort_keys j"
  shows "harmless v (of_json j')"
proof -
  have u: "unique_keys j" by (rule unique_keys_json_value[OF assms(1,3)])
  then have "unique_keys j'" using assms(4) unique_keys_sort by metis
  then have "harmless (of_json j) (of_json j')"
    using sort_keys_harmless[OF u] sort_keys_harmless[of j'] assms(4) by (metis chain undo)
  with stored_harmless[OF assms(1,2)] show ?thesis by (rule chain)
qed

end
