(* ===== verification/Fingerprint_Properties.thy ===== *)
theory Fingerprint_Properties
  imports Fingerprint_Facts
begin

text \<open>
  The logical fingerprint of whole results: its independence of audit evidence, the verification of
  a stored artifact and the comparison of two results.
\<close>

subsection \<open>The fingerprint of a document\<close>

definition document_text :: "string option list \<Rightarrow> string option" where
  "document_text ts = map_option (\<lambda>ts. CHR 0x7B # join '','' (map (\<lambda>(k, t). json_quote k @ '':'' @ t)
      (sort_key fst (zip (''fingerprint_version'' # ''contract_version'' # LOGICAL_SECTIONS)
        (json_dumps (JInt FINANCIAL_FINGERPRINT_VERSION) # ts)))) @ [CHR 0x7D]) (sequence ts)"

definition section_text :: "pyval \<Rightarrow> string \<Rightarrow> string option" where
  "section_text result s = text_of (bind_result (read_field result s) logical_value)"

lemma map_result_tag:
  "(case map_result (\<lambda>s. bind_result (f s) (\<lambda>j. Inr (s, j))) ss of Inl _ \<Rightarrow> None
      | Inr js \<Rightarrow> Some (map (\<lambda>(s, j). (s, json_dumps j)) js))
    = map_option (zip ss) (sequence (map (\<lambda>s. text_of (f s)) ss))"
proof (induction ss)
  case (Cons s ss)
  then show ?case
    by (cases "f s"; cases "map_result (\<lambda>s. bind_result (f s) (\<lambda>j. Inr (s, j))) ss";
        cases "sequence (map (\<lambda>s. text_of (f s)) ss)") simp_all
qed simp

lemma text_of_document:
  "text_of (logical_document result) = document_text
    (text_of (bind_result (read_field result ''contract_version'') raw_json) # map (section_text result) LOGICAL_SECTIONS)"
proof (cases "bind_result (read_field result ''contract_version'') raw_json")
  case (Inr version)
  let ?m = "map_result (\<lambda>section. bind_result (bind_result (read_field result section) logical_value)
         (\<lambda>j. Inr (section, j))) LOGICAL_SECTIONS"
  have "text_of (logical_document result) = map_option (\<lambda>kts. CHR 0x7B # join '','' (map (\<lambda>(k, t). json_quote k @ '':'' @ t)
      (sort_key fst ((''fingerprint_version'', json_dumps (JInt FINANCIAL_FINGERPRINT_VERSION))
        # (''contract_version'', json_dumps version) # kts))) @ [CHR 0x7D])
      (case ?m of Inl _ \<Rightarrow> None | Inr js \<Rightarrow> Some (map (\<lambda>(s, j). (s, json_dumps j)) js))"
    by (cases ?m) (simp_all add: logical_document_def Inr del: sort_key_simps)
  then show ?thesis
    unfolding map_result_tag section_text_def[abs_def] document_text_def
    by (simp add: Inr option.map_comp comp_def del: sort_key_simps)
next
  case (Inl e)
  then show ?thesis by (simp add: logical_document_def document_text_def)
qed

lemma logical_fingerprint_text:
  "logical_fingerprint sha result = Inr h \<longleftrightarrow> (\<exists>t. text_of (logical_document result) = Some t \<and> h = sha (utf8 t))"
  by (cases "logical_document result") (auto simp: logical_fingerprint_def document_fingerprint_def)

lemma section_text_harmless:
  "read_field r s = Inr x \<Longrightarrow> read_field r' s = Inr y \<Longrightarrow> harmless x y \<Longrightarrow> section_text r s = section_text r' s"
  by (simp add: section_text_def harmless_text)

lemma document_text_sections:
  assumes "text_of (bind_result (read_field r ''contract_version'') raw_json)
      = text_of (bind_result (read_field r' ''contract_version'') raw_json)"
    and "\<forall>s \<in> set LOGICAL_SECTIONS. \<exists>x y. read_field r s = Inr x \<and> read_field r' s = Inr y \<and> harmless x y"
  shows "text_of (logical_document r) = text_of (logical_document r')"
proof -
  have "map (section_text r) LOGICAL_SECTIONS = map (section_text r') LOGICAL_SECTIONS"
    using assms(2) by (intro map_cong refl) (blast intro: section_text_harmless)
  with assms(1) show ?thesis unfolding text_of_document by (simp only:)
qed

subsection \<open>The artifact of a publication\<close>

text \<open>The document \<open>run_next\<close> stores: the serialised candidate and the version of the fingerprint.\<close>

definition versioned :: "json \<Rightarrow> json" where
  "versioned document = JObj (AList.update ''financial_fingerprint_version'' (JInt FINANCIAL_FINGERPRINT_VERSION)
     (sections_of document))"

lemma sorted_lookup:
  assumes "sort_keys (JObj kvs) = sort_keys (JObj kvs')" "distinct (map fst kvs)"
  shows "map_option sort_keys (map_of kvs k) = map_option sort_keys (map_of kvs' k)"
proof -
  let ?f = "map (\<lambda>(k, v). (k, sort_keys v))"
  have eq: "sort_key fst (?f kvs) = sort_key fst (?f kvs')" using assms(1) by simp
  have m: "mset (?f kvs) = mset (?f kvs')"
    using arg_cong[OF eq, of mset] by simp
  have d: "distinct (map fst (?f kvs))" using assms(2) unfolding keys_sort_keys .
  have "mset (map fst (?f kvs)) = mset (map fst (?f kvs'))" using arg_cong[OF m, of "image_mset fst"] by (simp only: mset_map)
  then have d': "distinct (map fst (?f kvs'))" using d mset_eq_imp_distinct_iff by blast
  have "map_of (?f kvs) = map_of (?f kvs')"
    using map_of_inject_set[OF d d'] mset_eq_setD[OF m] by simp
  moreover have "map_of (?f xs) k = map_option sort_keys (map_of xs k)" for xs by (simp add: map_of_map)
  ultimately show ?thesis by metis
qed

lemma sort_keys_obj: "sort_keys j = sort_keys (JObj kvs) \<Longrightarrow> \<exists>kvs'. j = JObj kvs'"
  by (cases j) auto

lemma sort_keys_scalar:
  "sort_keys v = JInt i \<longleftrightarrow> v = JInt i" "sort_keys v = JStr s \<longleftrightarrow> v = JStr s"
  by (cases v; auto)+

lemma map_of_json_value:
  assumes "map_result (\<lambda>(k, v). bind_result (json_value v) (\<lambda>j. Inr (k, j))) kvs = Inr js"
  shows "map_of kvs k = Some v \<Longrightarrow> \<exists>j. json_value v = Inr j \<and> map_of js k = Some j"
  using assms by (induction kvs arbitrary: js) (auto simp: result_simps split: if_splits)

lemma map_of_of_json: "read_field (of_json (JObj kvs)) k
    = (case map_of kvs k of None \<Rightarrow> Inl (FpKeyError k) | Some j \<Rightarrow> Inr (of_json j))"
  by (simp add: read_field_def map_of_map split: option.split)

text \<open>
  A stored payload is the document up to the order of keys inside objects, which JSONB does not keep.
\<close>

lemma stored_document:
  assumes candidate: "json_value (PyData kvs) = Inr document" "unique_fields (PyData kvs)"
      "map_of kvs ''contract_version'' = Some (PyStr c)"
    and logical: "text_of (logical_document (PyData kvs)) = Some t"
    and stored: "sort_keys payload = sort_keys (versioned document)"
  shows "payload_version payload = JInt FINANCIAL_FINGERPRINT_VERSION"
    and "text_of (logical_document (of_json payload)) = Some t"
proof -
  obtain js where js: "map_result (\<lambda>(k, v). bind_result (json_value v) (\<lambda>j. Inr (k, j))) kvs = Inr js" "document = JObj js"
    using candidate(1) by (auto simp: result_simps)
  let ?js = "AList.update ''financial_fingerprint_version'' (JInt FINANCIAL_FINGERPRINT_VERSION) js"
  have doc: "versioned document = JObj ?js" by (simp add: versioned_def sections_of_def js)
  obtain ps where p: "payload = JObj ps" using stored sort_keys_obj unfolding doc by blast
  have u: "unique_keys (JObj js)" using unique_keys_json_value[OF candidate(1,2)] js by simp
  then have "distinct (map fst ?js)" by (auto intro: distinct_update)
  then have look: "map_option sort_keys (map_of ps k) = map_option sort_keys (map_of ?js k)" for k
    using sorted_lookup[of ?js ps k] stored unfolding doc p by simp
  have "map_option sort_keys (map_of ps ''financial_fingerprint_version'') = Some (JInt FINANCIAL_FINGERPRINT_VERSION)"
    unfolding look by (simp add: update_conv')
  then show "payload_version payload = JInt FINANCIAL_FINGERPRINT_VERSION"
    by (auto simp: payload_version_def sections_of_def p dict_get_def sort_keys_scalar)
  have other: "map_option sort_keys (map_of ps k) = map_option sort_keys (map_of js k)" if "k \<noteq> ''financial_fingerprint_version''" for k
    using look[of k] that by (simp add: update_conv')
  obtain cj where "json_value (PyStr c) = Inr cj" "map_of js ''contract_version'' = Some cj"
    using map_of_json_value[OF js(1) candidate(3)] by blast
  then have "map_of js ''contract_version'' = Some (JStr c)" by simp
  then have "map_of ps ''contract_version'' = Some (JStr c)"
    using other[of "''contract_version''"] by (auto simp: sort_keys_scalar)
  then have version: "text_of (bind_result (read_field (PyData kvs) ''contract_version'') raw_json)
      = text_of (bind_result (read_field (of_json payload) ''contract_version'') raw_json)"
    using candidate(3) unfolding p map_of_of_json by (simp add: read_field_def)
  have "\<exists>x y. read_field (PyData kvs) s = Inr x \<and> read_field (of_json payload) s = Inr y \<and> harmless x y"
    if s: "s \<in> set LOGICAL_SECTIONS" for s
  proof -
    have "section_text (PyData kvs) s \<noteq> None"
      using logical s unfolding text_of_document document_text_def
      by (auto simp: sequence_Some Cons_eq_map_conv) (metis image_iff list.set_map not_None_eq)
    then obtain v a where v: "map_of kvs s = Some v" "logical_value v = Inr a"
      by (auto simp: section_text_def read_field_def text_of_def split: option.splits sum.splits)
    obtain j where j: "json_value v = Inr j" "map_of js s = Some j" using map_of_json_value[OF js(1) v(1)] by blast
    have "s \<noteq> ''financial_fingerprint_version''" using s by (auto simp: LOGICAL_SECTIONS_def)
    then obtain j' where j': "map_of ps s = Some j'" "sort_keys j' = sort_keys j" using other[of s] j(2) by auto
    have "unique_fields v" using candidate(2) map_of_SomeD[OF v(1)] by auto
    from stored_harmless_sorted[OF j(1) v(2) this j'(2)] have "harmless v (of_json j')" .
    moreover have "read_field (of_json payload) s = Inr (of_json j')" unfolding p map_of_of_json j' by simp
    moreover have "read_field (PyData kvs) s = Inr v" using v(1) by (simp add: read_field_def)
    ultimately show ?thesis by blast
  qed
  then show "text_of (logical_document (of_json payload)) = Some t"
    using document_text_sections[OF version] logical by metis
qed

lemmas value_defs = transaction_value_def movement_value_def payout_value_def exception_value_def
  status_value_def quarantine_value_def codes_value_def optional_value_def money_value_def

lemma unique_fields_result: "unique_fields (result_value texts r)"
  by (auto simp: result_value_def result_fields_def value_defs split: option.splits)

lemma json_value_total:
  "\<exists>j. json_value (money_value c) = Inr j"
  "\<exists>j. json_value (optional_value money_value a) = Inr j"
  "\<exists>j. json_value (optional_value PyStr s) = Inr j"
  by (auto simp: value_defs eur_def split: option.splits)

lemma json_value_seq: "(\<And>v. v \<in> set vs \<Longrightarrow> \<exists>j. json_value v = Inr j) \<Longrightarrow> \<exists>j. json_value (PySeq vs) = Inr j"
  using map_result_total[of vs json_value] by auto

lemma json_value_data:
  assumes "\<And>k v. (k, v) \<in> set kvs \<Longrightarrow> \<exists>j. json_value v = Inr j"
  shows "\<exists>j. json_value (PyData kvs) = Inr j"
proof -
  have "\<exists>y. (case kv of (k, v) \<Rightarrow> bind_result (json_value v) (\<lambda>j. Inr (k, j))) = Inr y" if "kv \<in> set kvs" for kv
    using assms that by (cases kv) (fastforce simp: result_simps)
  then have "\<exists>js. map_result (\<lambda>(k, v). bind_result (json_value v) (\<lambda>j. Inr (k, j))) kvs = Inr js"
    by (intro map_result_total) blast
  then show ?thesis by auto
qed

text \<open>Every result of the reconciler can be serialised.\<close>

lemma json_value_result: "\<exists>j. json_value (result_value texts r) = Inr j"
proof -
  note leaf = json_value_total json_value.simps(1,5-7,10-13)
  have codes: "\<exists>j. json_value (codes_value cs) = Inr j" for cs
    unfolding codes_value_def by (rule json_value_seq) auto
  have texts: "\<exists>j. json_value (PySeq (map PyStr ss)) = Inr j" for ss
    by (rule json_value_seq) auto
  have "\<exists>j. json_value (transaction_value t) = Inr j" for t
    unfolding transaction_value_def by (rule json_value_data) (auto simp: leaf codes)
  moreover have "\<exists>j. json_value (movement_value m) = Inr j" for m
    unfolding movement_value_def by (rule json_value_data) (auto simp: leaf texts simp del: json_value.simps(8))
  moreover have "\<exists>j. json_value (payout_value p) = Inr j" for p
    unfolding payout_value_def by (rule json_value_data) (auto simp: leaf codes)
  moreover have "\<exists>j. json_value (exception_value x) = Inr j" for x
    unfolding exception_value_def by (rule json_value_data) (auto simp: leaf texts simp del: json_value.simps(8))
  moreover have "\<exists>j. json_value (status_value texts s) = Inr j" for s
    unfolding status_value_def by (rule json_value_data) (auto simp: leaf)
  moreover have "\<exists>j. json_value (quarantine_value texts q) = Inr j" for q
    unfolding quarantine_value_def by (rule json_value_data) (auto simp: leaf)
  ultimately show ?thesis
    unfolding result_value_def result_fields_def
    by (intro json_value_data) (auto simp: leaf simp del: json_value.simps(8) intro!: json_value_seq)
qed

subsection \<open>Equality up to the order of keys\<close>

lemma insort_key_map_values:
  "insort_key fst (k, g v) (map (\<lambda>(k, v). (k, g v)) xs) = map (\<lambda>(k, v). (k, g v)) (insort_key fst (k, v) xs)"
  by (induction xs) auto

lemma sort_key_map_values:
  "sort_key fst (map (\<lambda>(k, v). (k, g v)) xs) = map (\<lambda>(k, v). (k, g v)) (sort_key fst xs)"
  by (induction xs) (auto simp: insort_key_map_values)

lemma sort_key_idem: "sort_key f (sort_key f xs) = sort_key f xs"
  by (rule sort_key_id_if_sorted) simp

lemma sort_keys_idem: "sort_keys (sort_keys j) = sort_keys j"
proof (induction j)
  case (JObj kvs)
  have "map (\<lambda>(k, v). (k, sort_keys v)) (map (\<lambda>(k, v). (k, sort_keys v)) kvs) = map (\<lambda>(k, v). (k, sort_keys v)) kvs"
    using JObj by fastforce
  then show ?case by (simp only: sort_keys.simps sort_key_map_values[symmetric] sort_key_idem)
qed auto

lemma json_dumps_sort_keys: "json_dumps (sort_keys j) = json_dumps j"
proof (induction j)
  case (JArr vs)
  then have "map json_dumps (map sort_keys vs) = map json_dumps vs" by simp
  then show ?case by (simp only: sort_keys.simps json_dumps.simps)
next
  case (JObj kvs)
  have "map (\<lambda>(k, v). (k, json_dumps v)) (map (\<lambda>(k, v). (k, sort_keys v)) kvs) = map (\<lambda>(k, v). (k, json_dumps v)) kvs"
    using JObj by fastforce
  then have "sort_key fst (map (\<lambda>(k, v). (k, json_dumps v)) (sort_key fst (map (\<lambda>(k, v). (k, sort_keys v)) kvs)))
      = sort_key fst (map (\<lambda>(k, v). (k, json_dumps v)) kvs)"
    by (simp only: sort_key_map_values[symmetric] sort_key_idem)
  then show ?case by (simp only: sort_keys.simps json_dumps.simps)
qed auto

lemma logical_document_shape:
  assumes "logical_document r = Inr d"
  shows "\<exists>v ss. d = JObj ((''fingerprint_version'', JInt 2) # (''contract_version'', v) # ss) \<and> map fst ss = LOGICAL_SECTIONS"
proof -
  have "map_result (\<lambda>s. bind_result (f s) (\<lambda>j. Inr (s, j))) ss = Inr js \<Longrightarrow> map fst js = ss" for f :: "string \<Rightarrow> fingerprint_error + json" and ss js
    by (induction ss arbitrary: js) (auto simp: result_simps)
  then show ?thesis
    using assms by (auto simp: logical_document_def result_simps FINANCIAL_FINGERPRINT_VERSION_def)
qed

lemma differing_sections:
  assumes "distinct (map fst es)" and keys: "map fst es = v # names" and "map_of es v = map_of as v"
  shows "s \<in> set (map fst (filter (\<lambda>(s, j). map_option sort_keys (map_of as s) \<noteq> Some (sort_keys j)) es))
    \<longleftrightarrow> s \<in> set names \<and> map_option sort_keys (map_of es s) \<noteq> map_option sort_keys (map_of as s)"
proof -
  have "(s, j) \<in> set es \<longleftrightarrow> map_of es s = Some j" for j using assms(1) by simp
  then have "s \<in> set (map fst (filter (\<lambda>(s, j). map_option sort_keys (map_of as s) \<noteq> Some (sort_keys j)) es))
      \<longleftrightarrow> (\<exists>j. map_of es s = Some j \<and> map_option sort_keys (map_of as s) \<noteq> Some (sort_keys j))"
    by force
  also have "\<dots> \<longleftrightarrow> map_of es s \<noteq> None \<and> map_option sort_keys (map_of es s) \<noteq> map_option sort_keys (map_of as s)"
    by (cases "map_of es s"; cases "map_of as s") auto
  also have "map_of es s \<noteq> None \<longleftrightarrow> s \<in> set (v # names)"
    unfolding keys[symmetric] by (simp add: map_of_eq_None_iff)
  finally show ?thesis using assms(3) assms(1)[unfolded keys] by auto
qed

lemma sort_keys_same_lookup:
  assumes "distinct (map fst es)" "distinct (map fst as)"
    and "\<And>s. map_option sort_keys (map_of es s) = map_option sort_keys (map_of as s)"
  shows "sort_keys (JObj es) = sort_keys (JObj as)"
proof -
  let ?f = "map (\<lambda>(k, v). (k, sort_keys v))"
  have "map_of (?f es) = map_of (?f as)" using assms(3) by (auto simp: map_of_map)
  moreover have d: "distinct (map fst (?f es))" "distinct (map fst (?f as))" using assms(1,2) unfolding keys_sort_keys .
  ultimately have "set (?f es) = set (?f as)" by (simp only: map_of_inject_set)
  then have "sort_key fst (?f es) = sort_key fst (?f as)"
    using d d[unfolded distinct_map[of fst]] by (intro sort_key_eq_of_set inj_on_of_distinct_map) blast+
  then show ?thesis by simp
qed

subsection \<open>Properties\<close>

text \<open>C34: The logical fingerprint of a result depends only on its financial meaning: replacing audit fields, changing
  the order of rows, codes or keys, or writing an amount, a date or an enumeration member in another of its forms leaves
  it unchanged, whatever the hash function.\<close>

theorem fingerprint_ignores_audit:
  assumes "read_field r ''contract_version'' = read_field r' ''contract_version''"
    and "\<forall>s \<in> set LOGICAL_SECTIONS. \<exists>x y. read_field r s = Inr x \<and> read_field r' s = Inr y \<and> harmless x y"
  shows "logical_fingerprint sha r = Inr h \<longleftrightarrow> logical_fingerprint sha r' = Inr h"
proof -
  have "text_of (logical_document r) = text_of (logical_document r')"
    using assms by (intro document_text_sections) simp_all
  then show ?thesis by (simp add: logical_fingerprint_text)
qed

definition plain_texts :: result_texts where
  "plain_texts = \<lparr>reason_of = (\<lambda>_. None), detail_of = (\<lambda>_. [])\<rparr>"

definition sample_row :: "string \<Rightarrow> transaction_row" where
  "sample_row run = \<lparr>tx_run_id = run, tx_contract_version = CONTRACT_VERSION, tx_order_id = ''O1'',
     tx_order_status = OS_PAID, tx_currency = ''EUR'', tx_expected_collection = 1000,
     tx_captured_total = 1000, tx_collection_variance = 0, tx_refund_total = 0, tx_expected_fee_total = 20,
     tx_reported_fee_total = 20, tx_lifetime_net = 980, tx_captured_count = 1, tx_refund_count = 0,
     tx_state = RS_RECONCILED, tx_codes = []\<rparr>"

definition sample_result :: "string \<Rightarrow> instant \<Rightarrow> recon_result" where
  "sample_result run now = \<lparr>rr_run_id = run, rr_contract_version = CONTRACT_VERSION, rr_detected_at = now,
     rr_transactions = [sample_row run], rr_movements = [], rr_payouts = [], rr_exceptions = [],
     rr_completeness = [], rr_quarantine = []\<rparr>"

lemma sample_transactions:
  "harmless (PySeq [transaction_value (sample_row run)]) (PySeq [transaction_value (sample_row run')])"
proof -
  obtain kvs where kvs: "\<And>run. transaction_value (sample_row run) = PyData ((''run_id'', PyStr run) # kvs)"
    by (simp add: transaction_value_def sample_row_def)
  have "harmless (PyMap ([] @ (''run_id'', PyStr run) # kvs)) (PyMap ([] @ (''run_id'', PyStr run') # kvs))"
    by (rule harmless_audit) (simp add: AUDIT_FIELDS_def)
  then have "harmless (transaction_value (sample_row run)) (transaction_value (sample_row run'))"
    unfolding kvs append_Nil by (intro chain[OF as_mapping] chain[OF _ undo[OF as_mapping]])
  from element[OF this, of "[]" "[]"] show ?thesis by simp
qed

lemma sample_document: "\<exists>d. logical_document (result_value plain_texts (sample_result run now)) = Inr d"
  by (simp add: logical_document_def result_value_def result_fields_def sample_result_def read_field_def
      LOGICAL_SECTIONS_def transaction_value_def sample_row_def AUDIT_FIELDS_def MONEY_FIELDS_def money_value_def
      money_string_def money_text_def eur_def mag_gt_def MAX_MONEY_CENTS_def whole_cents_def codes_value_def)

theorem fingerprint_ignores_audit_witness:
  "\<exists>h. logical_fingerprint rev (result_value plain_texts (sample_result ''a'' 1)) = Inr h
    \<and> logical_fingerprint rev (result_value plain_texts (sample_result ''b'' 2)) = Inr h"
proof -
  let ?a = "result_value plain_texts (sample_result ''a'' 1)" and ?b = "result_value plain_texts (sample_result ''b'' 2)"
  have "read_field ?a ''contract_version'' = read_field ?b ''contract_version''"
    by (simp add: result_value_def result_fields_def sample_result_def read_field_def)
  moreover have "\<forall>s \<in> set LOGICAL_SECTIONS. \<exists>x y. read_field ?a s = Inr x \<and> read_field ?b s = Inr y \<and> harmless x y"
    using sample_transactions[of "''a''" "''b''"]
    by (simp add: LOGICAL_SECTIONS_def result_value_def result_fields_def sample_result_def read_field_def same)
  ultimately have "logical_fingerprint rev ?a = Inr h \<longleftrightarrow> logical_fingerprint rev ?b = Inr h" for h
    by (rule fingerprint_ignores_audit)
  moreover obtain h where "logical_fingerprint rev ?a = Inr h"
    using sample_document[of "''a''" 1] by (auto simp: logical_fingerprint_def)
  ultimately show ?thesis by blast
qed

lemma stored_artifact_verified:
  assumes "json_value (result_value texts r) = Inr document"
    and "logical_fingerprint sha (result_value texts r) = Inr h"
    and "sort_keys payload = sort_keys (versioned document)"
  shows "verify_stored_financial_result sha payload h = Inr h"
proof -
  obtain t where t: "text_of (logical_document (result_value texts r)) = Some t" "h = sha (utf8 t)"
    using assms(2) by (auto simp: logical_fingerprint_text)
  have v: "map_of (result_fields texts r) ''contract_version'' = Some (PyStr (rr_contract_version r))"
    by (simp add: result_fields_def)
  note stored = stored_document[OF assms(1)[unfolded result_value_def] unique_fields_result[unfolded result_value_def]
      v t(1)[unfolded result_value_def] assms(3)]
  have "logical_fingerprint sha (of_json payload) = Inr h"
    using stored(2) t(2) by (simp add: logical_fingerprint_text)
  then show ?thesis by (simp add: verify_stored_financial_result_def stored(1))
qed

text \<open>A published artifact passes its verification: the document stored for a candidate of the reconciler, read back
  from a JSONB column that may have reordered the keys of its objects, has the supported version and exactly the
  fingerprint computed before it was stored.\<close>

theorem stored_artifact_verifies:
  assumes "json_value (result_value texts r) = Inr document"
    and "logical_fingerprint sha (result_value texts r) = Inr h"
    and "sort_keys payload = sort_keys (versioned document)"
  shows "verify_stored_financial_result sha payload h = Inr h"
  using assms by (rule stored_artifact_verified)

theorem stored_artifact_verifies_witness:
  "\<exists>document h. json_value (result_value plain_texts (sample_result ''a'' 1)) = Inr document
    \<and> verify_stored_financial_result rev (sort_keys (versioned document)) h = Inr h"
proof -
  obtain document where d: "json_value (result_value plain_texts (sample_result ''a'' 1)) = Inr document"
    using json_value_result by blast
  obtain h where h: "logical_fingerprint rev (result_value plain_texts (sample_result ''a'' 1)) = Inr h"
    using sample_document[of "''a''" 1] by (auto simp: logical_fingerprint_def)
  have "sort_keys (sort_keys (versioned document)) = sort_keys (versioned document)" by (rule sort_keys_idem)
  from stored_artifact_verifies[OF d h this] d show ?thesis by blast
qed

text \<open>Comparing two results either accepts them, and then they have the same fingerprint under every hash function,
  or names exactly the sections of the contract that differ, and at least one.\<close>

theorem financial_comparison_decided:
  assumes "logical_document expected = Inr e" and "logical_document actual = Inr a"
  shows "(assert_financial_equal expected actual = Inr () \<and> (\<forall>sha. logical_fingerprint sha expected = logical_fingerprint sha actual))
    \<or> (\<exists>sections. assert_financial_equal expected actual = Inl (FinancialResultMismatch sections) \<and> sections \<noteq> []
      \<and> (\<forall>s. s \<in> set sections \<longleftrightarrow> s \<in> set (''contract_version'' # LOGICAL_SECTIONS)
          \<and> map_option sort_keys (map_of (sections_of e) s) \<noteq> map_option sort_keys (map_of (sections_of a) s)))"
proof (cases "sort_keys e = sort_keys a")
  case True
  then have "json_dumps e = json_dumps a" using json_dumps_sort_keys by metis
  then show ?thesis
    using True assms by (simp add: assert_financial_equal_def logical_fingerprint_def document_fingerprint_def)
next
  case False
  obtain ve es where e: "e = JObj ((''fingerprint_version'', JInt 2) # (''contract_version'', ve) # es)" "map fst es = LOGICAL_SECTIONS"
    using logical_document_shape[OF assms(1)] by blast
  obtain va as where a: "a = JObj ((''fingerprint_version'', JInt 2) # (''contract_version'', va) # as)" "map fst as = LOGICAL_SECTIONS"
    using logical_document_shape[OF assms(2)] by blast
  let ?sections = "map fst (filter (\<lambda>(section, j).
            map_option sort_keys (map_of (sections_of a) section) \<noteq> Some (sort_keys j)) (sections_of e))"
  have d: "distinct (map fst (sections_of e))" "distinct (map fst (sections_of a))"
    using e a by (auto simp: sections_of_def LOGICAL_SECTIONS_def simp flip: set_map)
  have keys: "map fst (sections_of e) = ''fingerprint_version'' # ''contract_version'' # LOGICAL_SECTIONS"
    "map fst (sections_of a) = ''fingerprint_version'' # ''contract_version'' # LOGICAL_SECTIONS"
    using e a by (auto simp: sections_of_def)
  have version: "map_of (sections_of e) ''fingerprint_version'' = map_of (sections_of a) ''fingerprint_version''"
    using e(1) a(1) by (simp add: sections_of_def)
  have member: "s \<in> set ?sections \<longleftrightarrow> s \<in> set (''contract_version'' # LOGICAL_SECTIONS)
      \<and> map_option sort_keys (map_of (sections_of e) s) \<noteq> map_option sort_keys (map_of (sections_of a) s)" for s
    by (rule differing_sections[OF d(1) keys(1) version])
  have "?sections \<noteq> []"
  proof
    assume none: "?sections = []"
    have same: "map_option sort_keys (map_of (sections_of e) s) = map_option sort_keys (map_of (sections_of a) s)" for s
    proof (cases "s \<in> set (''contract_version'' # LOGICAL_SECTIONS)")
      case True
      moreover have "s \<notin> set ?sections" unfolding none by simp
      ultimately show ?thesis using member[of s] by blast
    next
      case False
      then consider "s = ''fingerprint_version''" | "s \<notin> set (map fst (sections_of e))" "s \<notin> set (map fst (sections_of a))"
        unfolding keys by auto
      then show ?thesis
      proof cases
        case 2
        then show ?thesis by (metis map_of_eq_None_iff set_map)
      qed (simp add: version)
    qed
    have "sort_keys e = sort_keys a"
      using sort_keys_same_lookup[OF d same] e(1) a(1) by (simp add: sections_of_def)
    with False show False ..
  qed
  moreover have "assert_financial_equal expected actual = Inl (FinancialResultMismatch ?sections)"
    using False assms by (simp add: assert_financial_equal_def)
  ultimately show ?thesis using member by blast
qed

theorem financial_comparison_decided_witness:
  "\<exists>e. logical_document (result_value plain_texts (sample_result ''a'' 1)) = Inr e
    \<and> assert_financial_equal (result_value plain_texts (sample_result ''a'' 1)) (result_value plain_texts (sample_result ''a'' 1)) = Inr ()"
proof -
  obtain e where e: "logical_document (result_value plain_texts (sample_result ''a'' 1)) = Inr e"
    using sample_document by blast
  have "sections = []" if "\<forall>s. s \<in> set sections \<longleftrightarrow> s \<in> set names
      \<and> map_option sort_keys (map_of (sections_of e) s) \<noteq> map_option sort_keys (map_of (sections_of e) s)" for sections names
    using that by (cases sections) auto
  with financial_comparison_decided[OF e e] e show ?thesis by blast
qed

end
