(* ===== verification/Result_Rows.thy ===== *)
theory Result_Rows
  imports Fingerprint_Properties
begin

text \<open>
  \<open>postgres_result_rows.py\<close>: the rows of a serialised candidate, converted column by column and
  inserted into the four result tables of migration 004 inside the caller's transaction.  The parsers
  \<open>date.fromisoformat\<close> and \<open>datetime.fromisoformat\<close> are parameters.
\<close>

subsection \<open>Columns\<close>

definition TRANSACTION_COLUMNS :: "string list" where
  "TRANSACTION_COLUMNS =
     [''run_id'', ''order_id'', ''order_status'', ''currency'', ''expected_collection'', ''captured_total'',
      ''collection_variance'', ''successful_refund_total'', ''expected_fee_total'', ''reported_fee_total'',
      ''lifetime_net_collection'', ''captured_payment_count'', ''successful_refund_count'', ''state'',
      ''exception_codes'']"

definition PAYOUT_COLUMNS :: "string list" where
  "PAYOUT_COLUMNS =
     [''run_id'', ''payout_id'', ''payout_date'', ''currency'', ''expected_payout'', ''reported_line_total'',
      ''reported_net_amount'', ''provider_report_variance'', ''end_to_end_payout_variance'',
      ''expected_movement_count'', ''settlement_line_count'', ''state'', ''exception_codes'']"

definition EXCEPTION_COLUMNS :: "string list" where
  "EXCEPTION_COLUMNS =
     [''run_id'', ''rule_id'', ''exception_type'', ''entity_type'', ''entity_id'', ''expected_amount'',
      ''actual_amount'', ''variance'', ''detected_at_utc'', ''status'', ''supporting_source_record_ids'']"

definition SNAPSHOT_COLUMNS :: "string list" where
  "SNAPSHOT_COLUMNS =
     [''run_id'', ''report_type'', ''report_date'', ''state'', ''deadline_utc'', ''observed_at_utc'', ''issue_codes'']"

definition MONEY_COLUMNS :: "string list" where
  "MONEY_COLUMNS =
     [''expected_collection'', ''captured_total'', ''collection_variance'', ''successful_refund_total'',
      ''expected_fee_total'', ''reported_fee_total'', ''lifetime_net_collection'', ''expected_payout'',
      ''reported_line_total'', ''reported_net_amount'', ''provider_report_variance'',
      ''end_to_end_payout_variance'', ''expected_amount'', ''actual_amount'', ''variance'']"

definition JSON_COLUMNS :: "string list" where
  "JSON_COLUMNS = [''exception_codes'', ''supporting_source_record_ids'', ''issue_codes'']"

datatype column =
    ColNull
  | ColMoney decimal
  | ColJson json
  | ColUuid string
  | ColDate date
  | ColTime pydatetime
  | ColPlain json

type_synonym table_row = "column list"

datatype rows_error =
    RowKeyMissing string
  | RowValueInvalid string
  | RowCompletenessFailed completeness_error
  | RowConstraint string

text \<open>\<open>str(value)\<close> of a JSON scalar; nothing a container prints is read back by the callers.\<close>

definition str_of :: "json \<Rightarrow> string" where
  "str_of j = (case j of
       JStr s \<Rightarrow> s
     | JInt i \<Rightarrow> string_of_int i
     | JFloat s \<Rightarrow> s
     | JBool b \<Rightarrow> (if b then ''True'' else ''False'')
     | JNull \<Rightarrow> ''None''
     | _ \<Rightarrow> ''{}'')"

record iso_parsers =
  date_fromiso :: "string \<Rightarrow> date option"
  datetime_fromiso :: "string \<Rightarrow> pydatetime option"

text \<open>\<open>value.replace("Z", "+00:00")\<close> replaces every Z.\<close>

definition timestamp_of :: "iso_parsers \<Rightarrow> json \<Rightarrow> rows_error + pydatetime" where
  "timestamp_of parsers v = (case v of
       JStr s \<Rightarrow>
         (case datetime_fromiso parsers (concat (map (\<lambda>c. if c = CHR ''Z'' then ''+00:00'' else [c]) s)) of
            None \<Rightarrow> Inl (RowValueInvalid ''timestamp'') | Some t \<Rightarrow> Inr t)
     | _ \<Rightarrow> Inl (RowValueInvalid ''timestamp''))"

definition date_of :: "iso_parsers \<Rightarrow> json \<Rightarrow> rows_error + date" where
  "date_of parsers v = (case v of
       JStr s \<Rightarrow> (case date_fromiso parsers s of None \<Rightarrow> Inl (RowValueInvalid ''date'') | Some d \<Rightarrow> Inr d)
     | _ \<Rightarrow> Inl (RowValueInvalid ''date''))"

text \<open>A UUID column takes the canonical text of a UUID: 32 hexadecimal digits in five groups.\<close>

definition is_hex :: "char \<Rightarrow> bool" where
  "is_hex c = (is_digit c \<or> (let n = (of_char c :: nat) in 97 \<le> n \<and> n \<le> 102))"

definition uuid_text :: "string \<Rightarrow> bool" where
  "uuid_text s = (length s = 36 \<and> list_all (\<lambda>i. s ! i = CHR ''-'') [8, 13, 18, 23]
     \<and> length (filter (\<lambda>c. c = CHR ''-'') s) = 4 \<and> list_all (\<lambda>c. is_hex c \<or> c = CHR ''-'') s)"

definition column_value :: "iso_parsers \<Rightarrow> string \<Rightarrow> json \<Rightarrow> rows_error + column" where
  "column_value parsers column value =
     (if value = JNull then Inr ColNull
      else if column \<in> set MONEY_COLUMNS then
        (case decimal_of_text (str_of value) of
           None \<Rightarrow> Inl (RowValueInvalid column) | Some d \<Rightarrow> Inr (ColMoney d))
      else if column \<in> set JSON_COLUMNS then Inr (ColJson value)
      else if column = ''run_id'' then
        (if uuid_text (str_of value) then Inr (ColUuid (str_of value)) else Inl (RowValueInvalid column))
      else if column \<in> {''payout_date'', ''report_date''} then
        bind_result (date_of parsers value) (\<lambda>d. Inr (ColDate d))
      else if column \<in> {''detected_at_utc'', ''deadline_utc'', ''observed_at_utc''} then
        bind_result (timestamp_of parsers value) (\<lambda>t. Inr (ColTime t))
      else Inr (ColPlain value))"

definition row_values :: "iso_parsers \<Rightarrow> string list \<Rightarrow> (string, json) dict \<Rightarrow> rows_error + table_row" where
  "row_values parsers columns row =
     map_result (\<lambda>column. case map_of row column of
         None \<Rightarrow> Inl (RowKeyMissing column)
       | Some v \<Rightarrow> column_value parsers column v) columns"

subsection \<open>Tables\<close>

text \<open>
  The checks of a table that a candidate can run into: the range of \<open>NUMERIC(18, 2)\<close>, which rounds
  to cents, the currency, and the primary key, named by the positions of its columns.  The exception
  table has a generated key.
\<close>

definition column_fits :: "column \<Rightarrow> bool" where
  "column_fits c = (case c of
       ColMoney (Finite neg m e) \<Rightarrow> \<not> mag_gt (if -2 \<le> e then m else round_half_up m (10 ^ nat (-2 - e)))
         (if -2 \<le> e then e else -2) MAX_MONEY_CENTS (-2)
     | ColMoney _ \<Rightarrow> False
     | _ \<Rightarrow> True)"

definition insert_row :: "string \<Rightarrow> nat list \<Rightarrow> (table_row \<Rightarrow> bool) \<Rightarrow> table_row \<Rightarrow> table_row list
    \<Rightarrow> rows_error + table_row list" where
  "insert_row table key check row rows =
     bind_result (require (list_all column_fits row \<and> check row
         \<and> (key = [] \<or> map (nth row) key \<notin> set (map (\<lambda>r. map (nth r) key) rows)))
       (RowConstraint table)) (\<lambda>_. Inr (rows @ [row]))"

definition insert_rows :: "iso_parsers \<Rightarrow> string \<Rightarrow> string list \<Rightarrow> nat list \<Rightarrow> (table_row \<Rightarrow> bool)
    \<Rightarrow> (string, json) dict list \<Rightarrow> table_row list \<Rightarrow> rows_error + table_row list" where
  "insert_rows parsers table columns key check rows =
     fold_result (\<lambda>row stored. bind_result (row_values parsers columns row) (\<lambda>values.
       insert_row table key check values stored)) rows"

record result_tables =
  rt_transactions :: "table_row list"
  rt_payouts :: "table_row list"
  rt_exceptions :: "table_row list"
  rt_snapshots :: "table_row list"

definition no_nulls :: "table_row \<Rightarrow> bool" where
  "no_nulls row = (ColNull \<notin> set row)"

text \<open>Currency and state of a transaction or payout row, the state of a snapshot, the NOT NULL columns.\<close>

definition outcome_row_ok :: "table_row \<Rightarrow> bool" where
  "outcome_row_ok row = (no_nulls row \<and> row ! 3 = ColPlain (JStr ''EUR'')
     \<and> row ! (length row - 2) \<in> {ColPlain (JStr ''PENDING''), ColPlain (JStr ''RECONCILED''),
         ColPlain (JStr ''INCOMPLETE''), ColPlain (JStr ''EXCEPTION'')})"

definition exception_row_ok :: "table_row \<Rightarrow> bool" where
  "exception_row_ok row = list_all (\<lambda>i. row ! i \<noteq> ColNull) [0, 1, 2, 3, 4, 8, 9, 10]"

definition snapshot_row_ok :: "table_row \<Rightarrow> bool" where
  "snapshot_row_ok row = (no_nulls row
     \<and> row ! 3 \<in> {ColPlain (JStr ''COMPLETE''), ColPlain (JStr ''PENDING''), ColPlain (JStr ''INCOMPLETE'')})"

subsection \<open>Persisting a candidate\<close>

definition object_rows :: "json \<Rightarrow> string \<Rightarrow> rows_error + (string, json) dict list" where
  "object_rows document section =
     (case map_of (sections_of document) section of
        None \<Rightarrow> Inl (RowKeyMissing section)
      | Some (JArr vs) \<Rightarrow> map_result (\<lambda>v. case v of JObj kvs \<Rightarrow> Inr kvs | _ \<Rightarrow> Inl (RowValueInvalid section)) vs
      | Some _ \<Rightarrow> Inl (RowValueInvalid section))"

definition row_field :: "(string, json) dict \<Rightarrow> string \<Rightarrow> rows_error + json" where
  "row_field row name = (case map_of row name of None \<Rightarrow> Inl (RowKeyMissing name) | Some v \<Rightarrow> Inr v)"

definition report_type_of :: "json \<Rightarrow> rows_error + report_type" where
  "report_type_of v = (case List.find (\<lambda>t. v = JStr (report_type_value t)) report_type_members of
     None \<Rightarrow> Inl (RowValueInvalid ''report_type'') | Some t \<Rightarrow> Inr t)"

definition snapshot_row ::
  "iso_parsers \<Rightarrow> zone \<Rightarrow> (string, json) dict \<Rightarrow> (string, json) dict \<Rightarrow> rows_error + (string, json) dict" where
  "snapshot_row parsers berlin document status =
     bind_result (bind_result (row_field status ''report_type'') report_type_of) (\<lambda>rt.
     bind_result (bind_result (row_field status ''business_date'') (date_of parsers)) (\<lambda>d.
     bind_result (bind_result (row_field document ''detected_at_utc'') (timestamp_of parsers)) (\<lambda>as_of.
     bind_result (case evaluate_report berlin rt d as_of no_evidence of
         Inl e \<Rightarrow> Inl (RowCompletenessFailed e) | Inr r \<Rightarrow> Inr (cr_deadline_at_utc r)) (\<lambda>deadline.
     bind_result (row_field document ''run_id'') (\<lambda>run_id.
     bind_result (row_field status ''state'') (\<lambda>state.
     bind_result (row_field document ''detected_at_utc'') (\<lambda>detected.
       Inr [(''run_id'', run_id),
            (''report_type'', JStr (report_type_value rt)),
            (''report_date'', JStr (isoformat d)),
            (''state'', state),
            (''deadline_utc'', JStr (isoformat_utc deadline)),
            (''observed_at_utc'', detected),
            (''issue_codes'', JArr (if state = JStr ''COMPLETE'' then [] else [JStr ''SOURCE_EVIDENCE_INCOMPLETE'']))])))))))"

definition persist_candidate_rows ::
  "iso_parsers \<Rightarrow> zone \<Rightarrow> json \<Rightarrow> result_tables \<Rightarrow> rows_error + result_tables" where
  "persist_candidate_rows parsers berlin document tables =
     bind_result (bind_result (object_rows document ''transactions'') (\<lambda>rows.
       insert_rows parsers ''transaction_reconciliation'' TRANSACTION_COLUMNS [0, 1] outcome_row_ok rows
         (rt_transactions tables))) (\<lambda>transactions.
     bind_result (bind_result (object_rows document ''payouts'') (\<lambda>rows.
       insert_rows parsers ''payout_reconciliation'' PAYOUT_COLUMNS [0, 1] outcome_row_ok rows
         (rt_payouts tables))) (\<lambda>payouts.
     bind_result (bind_result (object_rows document ''exceptions'') (\<lambda>rows.
       insert_rows parsers ''reconciliation_exception'' EXCEPTION_COLUMNS [] exception_row_ok rows
         (rt_exceptions tables))) (\<lambda>exceptions.
     bind_result (bind_result (object_rows document ''source_completeness'') (\<lambda>rows.
       bind_result (map_result (snapshot_row parsers berlin (sections_of document)) rows) (\<lambda>snapshots.
       insert_rows parsers ''source_completeness_snapshot'' SNAPSHOT_COLUMNS [0, 1, 2] snapshot_row_ok snapshots
         (rt_snapshots tables)))) (\<lambda>snapshots.
       Inr \<lparr>rt_transactions = transactions, rt_payouts = payouts, rt_exceptions = exceptions,
            rt_snapshots = snapshots\<rparr>))))"

end
