(* ===== verification/Failure_Injection.thy ===== *)
theory Failure_Injection
  imports Prelude
begin

text \<open>
  \<open>failure_injection.py\<close>: the injector that fails on the first visit to a chosen point.  A hook is a
  callable with a state of its own: called with the name of a point it may raise, and its state changes
  whether it raises or not.
\<close>

datatype failure_point =
    AFTER_VALIDATION
  | AFTER_RUN_INSERT
  | AFTER_RESULT_INSERT
  | BEFORE_POINTER_UPDATE
  | AFTER_POINTER_UPDATE
  | AFTER_QUEUE_COMPLETION
  | BEFORE_COMMIT
  | AFTER_COMMIT

primrec failure_point_value :: "failure_point \<Rightarrow> string" where
  "failure_point_value AFTER_VALIDATION = ''after_validation''"
| "failure_point_value AFTER_RUN_INSERT = ''after_run_insert''"
| "failure_point_value AFTER_RESULT_INSERT = ''after_result_insert''"
| "failure_point_value BEFORE_POINTER_UPDATE = ''before_pointer_update''"
| "failure_point_value AFTER_POINTER_UPDATE = ''after_pointer_update''"
| "failure_point_value AFTER_QUEUE_COMPLETION = ''after_queue_completion''"
| "failure_point_value BEFORE_COMMIT = ''before_commit''"
| "failure_point_value AFTER_COMMIT = ''after_commit''"

definition failure_points :: "failure_point list" where
  "failure_points = [AFTER_VALIDATION, AFTER_RUN_INSERT, AFTER_RESULT_INSERT, BEFORE_POINTER_UPDATE,
     AFTER_POINTER_UPDATE, AFTER_QUEUE_COMPLETION, BEFORE_COMMIT, AFTER_COMMIT]"

datatype injection_error = InjectedFailure failure_point | UnknownPoint string

text \<open>\<open>FailurePoint(point)\<close> for a text.\<close>

definition failure_point_of :: "string \<Rightarrow> injection_error + failure_point" where
  "failure_point_of s = (case List.find (\<lambda>p. failure_point_value p = s) failure_points of
     None \<Rightarrow> Inl (UnknownPoint s) | Some p \<Rightarrow> Inr p)"

record failure_visit =
  fv_sequence :: nat
  fv_point :: failure_point
  fv_injected :: bool

record fail_once =
  fo_point :: failure_point
  fo_fired :: bool
  fo_visits :: "failure_visit list"

definition new_fail_once :: "string \<Rightarrow> injection_error + fail_once" where
  "new_fail_once point = bind_result (failure_point_of point) (\<lambda>p.
     Inr \<lparr>fo_point = p, fo_fired = False, fo_visits = []\<rparr>)"

definition fail_once_call :: "fail_once \<Rightarrow> string \<Rightarrow> (injection_error + unit) \<times> fail_once" where
  "fail_once_call s point = (case failure_point_of point of
     Inl e \<Rightarrow> (Inl e, s)
   | Inr visited \<Rightarrow>
       let should_fail = (visited = fo_point s \<and> \<not> fo_fired s);
           noted = s\<lparr>fo_visits := fo_visits s @
             [\<lparr>fv_sequence = length (fo_visits s) + 1, fv_point = visited, fv_injected = should_fail\<rparr>]\<rparr>
       in if should_fail then (Inl (InjectedFailure visited), noted\<lparr>fo_fired := True\<rparr>)
          else (Inr (), noted))"

lemma failure_point_value_inject [simp]: "failure_point_value p = failure_point_value q \<longleftrightarrow> p = q"
  by (cases p; cases q; simp)

lemma failure_point_of_value [simp]: "failure_point_of (failure_point_value p) = Inr p"
  by (cases p) (simp_all add: failure_point_of_def failure_points_def)

lemma fail_once_fired: "fo_fired s \<Longrightarrow> fail_once_call s (failure_point_value p) = (Inr (), snd (fail_once_call s (failure_point_value p)))"
  by (simp add: fail_once_call_def)

text \<open>Visiting a sequence of points until one of them fails.\<close>

fun visit_all :: "fail_once \<Rightarrow> failure_point list \<Rightarrow> (injection_error + unit) \<times> fail_once" where
  "visit_all s [] = (Inr (), s)"
| "visit_all s (p # ps) = (case fail_once_call s (failure_point_value p) of
     (Inl e, s') \<Rightarrow> (Inl e, s') | (Inr _, s') \<Rightarrow> visit_all s' ps)"

definition injected_count :: "fail_once \<Rightarrow> nat" where
  "injected_count s = length (filter fv_injected (fo_visits s))"

definition fail_once_ok :: "fail_once \<Rightarrow> bool" where
  "fail_once_ok s = (injected_count s = (if fo_fired s then 1 else 0)
     \<and> map fv_sequence (fo_visits s) = [1..<Suc (length (fo_visits s))]
     \<and> (\<forall>v \<in> set (fo_visits s). fv_injected v \<longrightarrow> fv_point v = fo_point s))"

lemma fail_once_call_ok: "fail_once_ok s \<Longrightarrow> fail_once_ok (snd (fail_once_call s p))"
  by (auto simp: fail_once_ok_def fail_once_call_def injected_count_def Let_def split: sum.splits)

lemma visit_all_ok: "fail_once_ok s \<Longrightarrow> fail_once_ok (snd (visit_all s ps))"
proof (induction ps arbitrary: s)
  case (Cons p ps)
  then show ?case
    using fail_once_call_ok[OF Cons.prems, of "failure_point_value p"]
    by (auto split: prod.splits sum.splits)
qed simp

end
