(* ===== verification/Full_Rebuild.thy ===== *)
theory Full_Rebuild
  imports Queue_Properties Result_Rows Failure_Injection
begin

text \<open>
  \<open>full_rebuild_recovery.py\<close>: enqueueing a rebuild, the checks on a candidate, and \<open>run_next\<close>, which
  publishes one request.  The durable state is a record of tables.  A transaction works on a copy of it
  that becomes durable at the commit; an exception inside drops the copy.  Parameters stand for what
  the class is given or reads from its surroundings: the builder, the validator, the failure hook with
  its state, sha256, the parsers, the clock readings, the new run id and what becomes of the commit.
\<close>

subsection \<open>Tables\<close>

datatype run_status = RUN_CANDIDATE | RUN_PUBLISHED

record reconciliation_run =
  run_row_id :: uuid
  run_contract_version :: json
  run_as_of :: instant
  run_watermark :: instant
  run_status :: run_status
  run_result_hash :: string
  run_published_at :: "instant option"

record recovery_result =
  res_run_id :: uuid
  res_input_fingerprint :: string
  res_logical_fingerprint :: string
  res_payload :: json

record publication_pointer =
  ptr_name :: string
  ptr_run :: uuid
  ptr_updated_at :: instant

text \<open>The rows of the three queries of \<open>input_fingerprint\<close>, in the order the queries give them.\<close>

record durable_inputs =
  in_batches :: "(string \<times> pyval) list list"
  in_receipts :: "(string \<times> pyval) list list"
  in_resolutions :: "(string \<times> pyval) list list"

record financial_state =
  fs_queue :: recovery_queue
  fs_runs :: "reconciliation_run list"
  fs_results :: "recovery_result list"
  fs_rows :: result_tables
  fs_pointers :: "publication_pointer list"
  fs_inputs :: durable_inputs

datatype recovery_error =
    QueueRaised queue_error
  | BuilderRaised string
  | FingerprintRaised fingerprint_error
  | CandidateNotObject
  | DocumentKeyMissing string
  | RunIdMismatch
  | AsOfMismatch
  | ValidatorRaised string
  | ArithmeticInvalid string
  | HookRaised string
  | RunConstraint
  | ResultConstraint
  | RowsRaised rows_error
  | CommitFailed
  | AsOfNaive
  | ChangeKeyMissing
  | ReceiptMissing
  | BatchNotCommitted

definition lift_error :: "('e \<Rightarrow> 'f) \<Rightarrow> 'e + 'a \<Rightarrow> 'f + 'a" where
  "lift_error f r = (case r of Inl e \<Rightarrow> Inl (f e) | Inr a \<Rightarrow> Inr a)"

lemma lift_error_Inr [simp]: "lift_error f r = Inr a \<longleftrightarrow> r = Inr a"
  by (simp add: lift_error_def split: sum.splits)

subsection \<open>Checks on a candidate\<close>

definition require_aware_utc :: "pydatetime \<Rightarrow> recovery_error + instant" where
  "require_aware_utc t = (case t of Naive _ \<Rightarrow> Inl AsOfNaive | Aware i \<Rightarrow> Inr i)"

definition document_field :: "(string, json) dict \<Rightarrow> string \<Rightarrow> recovery_error + json" where
  "document_field row name = (case map_of row name of None \<Rightarrow> Inl (DocumentKeyMissing name) | Some v \<Rightarrow> Inr v)"

definition document_rows :: "json \<Rightarrow> string \<Rightarrow> recovery_error + (string, json) dict list" where
  "document_rows document section =
     bind_result (document_field (sections_of document) section) (\<lambda>v. case v of
       JArr vs \<Rightarrow> map_result (\<lambda>v. case v of JObj kvs \<Rightarrow> Inr kvs | _ \<Rightarrow> Inl (ArithmeticInvalid section)) vs
     | _ \<Rightarrow> Inl (ArithmeticInvalid section))"

definition amount_field :: "(string, json) dict \<Rightarrow> string \<Rightarrow> recovery_error + decimal" where
  "amount_field row key =
     bind_result (document_field row key) (\<lambda>v. case decimal_of_text (str_of v) of
       Some (Finite s c e) \<Rightarrow> Inr (Finite s c e)
     | _ \<Rightarrow> Inl (ArithmeticInvalid key))"

definition dec_neg_of :: "decimal \<Rightarrow> decimal" where
  "dec_neg_of d = (case d of Finite s c e \<Rightarrow> Finite (\<not> s) c e | Infinite s \<Rightarrow> Infinite (\<not> s) | NaN \<Rightarrow> NaN)"

definition dec_sub :: "decimal \<Rightarrow> decimal \<Rightarrow> decimal" where
  "dec_sub x y = dec_add x (dec_neg_of y)"

definition check_difference ::
  "(string, json) dict \<Rightarrow> string \<Rightarrow> string \<Rightarrow> string list \<Rightarrow> recovery_error + unit" where
  "check_difference row result_key minuend subtrahends =
     bind_result (amount_field row result_key) (\<lambda>r.
     bind_result (amount_field row minuend) (\<lambda>m.
     bind_result (map_result (amount_field row) subtrahends) (\<lambda>ss.
       require (dec_equal r (foldl dec_sub m ss)) (ArithmeticInvalid result_key))))"

definition validate_arithmetic :: "json \<Rightarrow> recovery_error + unit" where
  "validate_arithmetic document =
     bind_result (document_rows document ''transactions'') (\<lambda>transactions.
     bind_result (document_rows document ''payouts'') (\<lambda>payouts.
     bind_result (map_result (\<lambda>row. document_field row ''order_id'') transactions) (\<lambda>order_ids.
     bind_result (map_result (\<lambda>row. document_field row ''payout_id'') payouts) (\<lambda>payout_ids.
     bind_result (require (distinct order_ids) (ArithmeticInvalid ''order_id'')) (\<lambda>_.
     bind_result (require (distinct payout_ids) (ArithmeticInvalid ''payout_id'')) (\<lambda>_.
     bind_result (map_result (\<lambda>row.
         bind_result (check_difference row ''collection_variance'' ''captured_total'' [''expected_collection'']) (\<lambda>_.
           check_difference row ''lifetime_net_collection'' ''captured_total''
             [''successful_refund_total'', ''expected_fee_total''])) transactions) (\<lambda>_.
     bind_result (map_result (\<lambda>row.
         bind_result (check_difference row ''provider_report_variance'' ''reported_net_amount'' [''reported_line_total'']) (\<lambda>_.
           check_difference row ''end_to_end_payout_variance'' ''reported_net_amount'' [''expected_payout''])) payouts) (\<lambda>_.
       Inr ()))))))))"

definition audit_row :: "(string \<times> pyval) list \<Rightarrow> fingerprint_error + json" where
  "audit_row row = bind_result (map_result (\<lambda>(key, value).
       bind_result (case value of PyUuid s \<Rightarrow> Inr (JStr s) | _ \<Rightarrow> json_value value) (\<lambda>j. Inr (key, j))) row)
     (\<lambda>kvs. Inr (JObj kvs))"

definition input_fingerprint ::
  "(string \<Rightarrow> string) \<Rightarrow> durable_inputs \<Rightarrow> json \<Rightarrow> recovery_error + string" where
  "input_fingerprint sha inputs document =
     bind_result (lift_error FingerprintRaised (map_result audit_row (in_batches inputs))) (\<lambda>batches.
     bind_result (lift_error FingerprintRaised (map_result audit_row (in_receipts inputs))) (\<lambda>receipts.
     bind_result (lift_error FingerprintRaised (map_result audit_row (in_resolutions inputs))) (\<lambda>resolutions.
     bind_result (document_field (sections_of document) ''source_completeness'') (\<lambda>completeness.
       Inr (document_fingerprint sha (JObj
         [(''batches'', JArr batches), (''receipts'', JArr receipts), (''resolutions'', JArr resolutions),
          (''source_completeness'', completeness)]))))))"

subsection \<open>Enqueueing\<close>

definition enqueue_full_rebuild ::
  "(string \<Rightarrow> string) \<Rightarrow> (uuid \<Rightarrow> string option) \<Rightarrow> uuid \<Rightarrow> instant \<Rightarrow> uuid \<Rightarrow> bool \<Rightarrow> bool \<Rightarrow> string \<Rightarrow> string
     \<Rightarrow> pydatetime \<Rightarrow> recovery_queue \<Rightarrow> recovery_error + (uuid option \<times> recovery_queue)" where
  "enqueue_full_rebuild sha batch_status_of_receipt new_id now trigger_receipt canonical_changed
     affects_published_history change_key reason_code as_of_utc q =
     (if \<not> canonical_changed \<or> \<not> affects_published_history then Inr (None, q)
      else bind_result (require (change_key \<noteq> [] \<and> reason_code \<noteq> []) ChangeKeyMissing) (\<lambda>_.
        bind_result (require_aware_utc as_of_utc) (\<lambda>as_of.
        let request_key = document_fingerprint sha
              (JObj [(''scope'', JStr ''FULL''), (''change_key'', JStr change_key)])
        in case batch_status_of_receipt trigger_receipt of
             None \<Rightarrow> Inl ReceiptMissing
           | Some status \<Rightarrow>
               bind_result (require (status = ''COMMITTED'') BatchNotCommitted) (\<lambda>_.
                 case List.find (\<lambda>r. rq_key r = request_key) (q_requests q) of
                   Some r \<Rightarrow> Inr (Some (rq_id r), q)
                 | None \<Rightarrow> bind_result (lift_error QueueRaised (insert_request
                     (new_request new_id request_key (Some trigger_receipt) None reason_code as_of now) q))
                     (\<lambda>q'. Inr (Some new_id, q'))))))"

subsection \<open>Publishing one request\<close>

text \<open>A computation that may raise and threads the state of the hook.\<close>

type_synonym ('h, 'a) hooked = "'h \<Rightarrow> (recovery_error + 'a) \<times> 'h"

definition hook_bind :: "('h, 'a) hooked \<Rightarrow> ('a \<Rightarrow> ('h, 'b) hooked) \<Rightarrow> ('h, 'b) hooked" where
  "hook_bind m f h = (case m h of (Inl e, h') \<Rightarrow> (Inl e, h') | (Inr a, h') \<Rightarrow> f a h')"

definition pure_step :: "recovery_error + 'a \<Rightarrow> ('h, 'a) hooked" where
  "pure_step r h = (r, h)"

type_synonym 'h failure_hook = "'h \<Rightarrow> string \<Rightarrow> (string + unit) \<times> 'h"

definition visit_point :: "'h failure_hook \<Rightarrow> string \<Rightarrow> ('h, unit) hooked" where
  "visit_point hook point h = (case hook h point of
     (Inl e, h') \<Rightarrow> (Inl (HookRaised e), h') | (Inr _, h') \<Rightarrow> (Inr (), h'))"

fun visit_points :: "'h failure_hook \<Rightarrow> string list \<Rightarrow> ('h, unit) hooked" where
  "visit_points hook [] = pure_step (Inr ())"
| "visit_points hook (p # ps) = hook_bind (visit_point hook p) (\<lambda>_. visit_points hook ps)"

record recovery_config =
  rc_build :: "uuid \<Rightarrow> instant \<Rightarrow> string + pyval"
  rc_validate :: "pyval \<Rightarrow> string + unit"
  rc_publication_name :: string
  rc_sha :: "string \<Rightarrow> string"
  rc_parsers :: iso_parsers
  rc_berlin :: zone
  rc_describe :: "recovery_error \<Rightarrow> string \<times> string"

record clock_readings =
  ck_ready :: instant
  ck_cutoff :: instant
  ck_transaction :: instant
  ck_succeeded :: instant
  ck_failed :: instant

record recovery_outcome =
  ro_request_id :: uuid
  ro_run_id :: uuid
  ro_input_fingerprint :: string
  ro_logical_fingerprint :: string

definition is_sha256 :: "string \<Rightarrow> bool" where
  "is_sha256 s = (length s = 64 \<and> list_all is_hex s)"

text \<open>The document of a candidate and the checks up to the first point a hook is called.\<close>

definition candidate_document :: "uuid \<Rightarrow> instant \<Rightarrow> pyval \<Rightarrow> recovery_error + json" where
  "candidate_document run as_of candidate =
     bind_result (lift_error FingerprintRaised (json_value candidate)) (\<lambda>j.
     bind_result (require (case j of JObj _ \<Rightarrow> True | _ \<Rightarrow> False) CandidateNotObject) (\<lambda>_.
     let document = versioned j in
     bind_result (document_field (sections_of document) ''run_id'') (\<lambda>r.
     bind_result (require (r = JStr run) RunIdMismatch) (\<lambda>_.
     bind_result (document_field (sections_of document) ''detected_at_utc'') (\<lambda>d.
     bind_result (require (d = JStr (isoformat_utc as_of)) AsOfMismatch) (\<lambda>_.
       Inr document))))))"

definition checked_candidate ::
  "recovery_config \<Rightarrow> uuid \<Rightarrow> instant \<Rightarrow> durable_inputs \<Rightarrow> recovery_error + (json \<times> string \<times> string)" where
  "checked_candidate cfg run as_of inputs =
     bind_result (lift_error BuilderRaised (rc_build cfg run as_of)) (\<lambda>candidate.
     bind_result (candidate_document run as_of candidate) (\<lambda>document.
     bind_result (lift_error ValidatorRaised (rc_validate cfg candidate)) (\<lambda>_.
     bind_result (validate_arithmetic document) (\<lambda>_.
     bind_result (lift_error FingerprintRaised (logical_fingerprint (rc_sha cfg) candidate)) (\<lambda>logical_hash.
     bind_result (input_fingerprint (rc_sha cfg) inputs document) (\<lambda>evidence_hash.
       Inr (document, logical_hash, evidence_hash)))))))"

definition insert_run :: "reconciliation_run \<Rightarrow> financial_state \<Rightarrow> recovery_error + financial_state" where
  "insert_run r s =
     bind_result (require (run_row_id r \<notin> set (map run_row_id (fs_runs s)) \<and> is_sha256 (run_result_hash r)
         \<and> (case run_contract_version r of JStr v \<Rightarrow> length v \<le> 32 | _ \<Rightarrow> False)) RunConstraint) (\<lambda>_.
       Inr (s\<lparr>fs_runs := fs_runs s @ [r]\<rparr>))"

definition insert_result :: "recovery_result \<Rightarrow> financial_state \<Rightarrow> recovery_error + financial_state" where
  "insert_result r s =
     bind_result (require (res_run_id r \<notin> set (map res_run_id (fs_results s))
         \<and> res_run_id r \<in> set (map run_row_id (fs_runs s))
         \<and> is_sha256 (res_input_fingerprint r) \<and> is_sha256 (res_logical_fingerprint r)) ResultConstraint) (\<lambda>_.
       Inr (s\<lparr>fs_results := fs_results s @ [r]\<rparr>))"

definition publish_run :: "uuid \<Rightarrow> instant \<Rightarrow> financial_state \<Rightarrow> financial_state" where
  "publish_run run now s = s\<lparr>fs_runs := map (\<lambda>r. if run_row_id r = run
     then r\<lparr>run_status := RUN_PUBLISHED, run_published_at := Some now\<rparr> else r) (fs_runs s)\<rparr>"

definition upsert_pointer :: "string \<Rightarrow> uuid \<Rightarrow> instant \<Rightarrow> financial_state \<Rightarrow> financial_state" where
  "upsert_pointer name run now s =
     (let p = \<lparr>ptr_name = name, ptr_run = run, ptr_updated_at = now\<rparr> in
      s\<lparr>fs_pointers := (if name \<in> set (map ptr_name (fs_pointers s))
          then map (\<lambda>q. if ptr_name q = name then p else q) (fs_pointers s)
          else fs_pointers s @ [p])\<rparr>)"

text \<open>The body of the transaction after a request has been handed out.\<close>

definition publish_request ::
  "recovery_config \<Rightarrow> 'h failure_hook \<Rightarrow> clock_readings \<Rightarrow> uuid \<Rightarrow> recovery_request \<Rightarrow> financial_state
     \<Rightarrow> ('h, recovery_outcome \<times> financial_state) hooked" where
  "publish_request cfg hook ck run request s0 =
     hook_bind (pure_step (checked_candidate cfg run (rq_as_of request) (fs_inputs s0))) (\<lambda>(document, logical_hash, evidence_hash).
     hook_bind (visit_point hook ''after_validation'') (\<lambda>_.
     hook_bind (pure_step (bind_result (document_field (sections_of document) ''contract_version'') (\<lambda>version.
       insert_run \<lparr>run_row_id = run, run_contract_version = version, run_as_of = rq_as_of request,
         run_watermark = ck_cutoff ck, run_status = RUN_CANDIDATE, run_result_hash = logical_hash,
         run_published_at = None\<rparr> s0))) (\<lambda>s1.
     hook_bind (visit_point hook ''after_run_insert'') (\<lambda>_.
     hook_bind (pure_step (insert_result \<lparr>res_run_id = run, res_input_fingerprint = evidence_hash,
         res_logical_fingerprint = logical_hash, res_payload = document\<rparr> s1)) (\<lambda>s2.
     hook_bind (pure_step (lift_error RowsRaised
         (persist_candidate_rows (rc_parsers cfg) (rc_berlin cfg) document (fs_rows s2)))) (\<lambda>rows.
     hook_bind (visit_points hook [''after_result_insert'', ''before_pointer_update'',
         ''after_result_insert'', ''before_pointer_update'']) (\<lambda>_.
     (let s3 = upsert_pointer (rc_publication_name cfg) run (ck_transaction ck)
            (publish_run run (ck_transaction ck) (s2\<lparr>fs_rows := rows\<rparr>))
      in hook_bind (visit_point hook ''after_pointer_update'') (\<lambda>_.
         hook_bind (pure_step (lift_error QueueRaised
           (mark_succeeded True (ck_succeeded ck) (rq_id request) run (fs_queue s3)))) (\<lambda>q.
         hook_bind (visit_points hook [''after_queue_completion'', ''before_commit'']) (\<lambda>_.
           pure_step (Inr (\<lparr>ro_request_id = rq_id request, ro_run_id = run,
             ro_input_fingerprint = evidence_hash, ro_logical_fingerprint = logical_hash\<rparr>,
             s3\<lparr>fs_queue := q\<rparr>)))))))))))))"

text \<open>
  What becomes of the commit: it takes effect, it is refused, or it takes effect but the
  acknowledgement is lost, which the caller sees as an exception.  \<open>failure_recorded\<close> tells whether
  the transaction of \<open>record_failure\<close> commits.
\<close>

datatype commit_fate = CommitOk | CommitRefused | CommitAckLost

record environment =
  env_commit :: commit_fate
  env_failure_recorded :: bool

definition handle_failure ::
  "recovery_config \<Rightarrow> clock_readings \<Rightarrow> environment \<Rightarrow> uuid \<Rightarrow> recovery_error \<Rightarrow> financial_state \<Rightarrow> financial_state" where
  "handle_failure cfg ck env request_id e s =
     (if env_failure_recorded env
      then (case record_failure True (ck_failed ck) request_id (case_prod error_message (rc_describe cfg e)) (fs_queue s) of
              Inl _ \<Rightarrow> s
            | Inr q \<Rightarrow> s\<lparr>fs_queue := q\<rparr>)
      else s)"

definition run_next ::
  "recovery_config \<Rightarrow> 'h failure_hook \<Rightarrow> clock_readings \<Rightarrow> environment \<Rightarrow> uuid \<Rightarrow> uuid list \<Rightarrow> financial_state \<Rightarrow> 'h
     \<Rightarrow> (recovery_error + recovery_outcome option) \<times> financial_state \<times> 'h" where
  "run_next cfg hook ck env run locked s h =
     (case next_ready True (ck_ready ck) locked (fs_queue s) of
        Inl e \<Rightarrow> (Inl (QueueRaised e), s, h)
      | Inr None \<Rightarrow> (Inr None, s, h)
      | Inr (Some request) \<Rightarrow>
          (case publish_request cfg hook ck run request s h of
             (Inl e, h') \<Rightarrow> (Inl e, handle_failure cfg ck env (rq_id request) e s, h')
           | (Inr (outcome, s'), h') \<Rightarrow>
               (case env_commit env of
                  CommitRefused \<Rightarrow>
                    (Inl CommitFailed, handle_failure cfg ck env (rq_id request) CommitFailed s, h')
                | CommitAckLost \<Rightarrow>
                    (Inl CommitFailed, handle_failure cfg ck env (rq_id request) CommitFailed s', h')
                | CommitOk \<Rightarrow>
                    (case visit_point hook ''after_commit'' h' of
                       (Inl e, h'') \<Rightarrow> (Inl e, s', h'')
                     | (Inr _, h'') \<Rightarrow> (Inr (Some outcome), s', h'')))))"

definition read_published_result :: "string \<Rightarrow> financial_state \<Rightarrow> (uuid \<times> recovery_result) option" where
  "read_published_result name s =
     (case List.find (\<lambda>p. ptr_name p = name) (fs_pointers s) of
        None \<Rightarrow> None
      | Some p \<Rightarrow> map_option (\<lambda>r. (ptr_run p, r)) (List.find (\<lambda>r. res_run_id r = ptr_run p) (fs_results s)))"

end
