(* ===== verification/Rebuild_Facts.thy ===== *)
theory Rebuild_Facts
  imports Full_Rebuild
begin

text \<open>
  What a committed publication has done to the tables, when a hook makes it fail, and the three ways a
  call of \<open>run_next\<close> can end.
\<close>

subsection \<open>What a committed transaction has done\<close>

lemma hook_bind_Inr:
  "hook_bind m f h = (Inr b, h'') \<longleftrightarrow> (\<exists>a h'. m h = (Inr a, h') \<and> f a h' = (Inr b, h''))"
  by (auto simp: hook_bind_def split: prod.splits sum.splits)

lemma pure_step_Inr: "pure_step r h = (Inr a, h') \<longleftrightarrow> r = Inr a \<and> h' = h"
  by (auto simp: pure_step_def)

lemma visit_points_append:
  "visit_points hook (ps @ qs) h = hook_bind (visit_points hook ps) (\<lambda>_. visit_points hook qs) h"
  by (induction ps arbitrary: h) (auto simp: hook_bind_def pure_step_def split: prod.splits sum.splits)

lemma visit_points_one: "visit_points hook [p] h = visit_point hook p h"
  by (auto simp: hook_bind_def pure_step_def visit_point_def split: prod.splits sum.splits)

text \<open>The points a transaction passes before its commit, in order.\<close>

definition transaction_points :: "string list" where
  "transaction_points = [''after_validation'', ''after_run_insert'', ''after_result_insert'',
     ''before_pointer_update'', ''after_result_insert'', ''before_pointer_update'', ''after_pointer_update'',
     ''after_queue_completion'', ''before_commit'']"

definition candidate_run :: "clock_readings \<Rightarrow> uuid \<Rightarrow> recovery_request \<Rightarrow> json \<Rightarrow> string \<Rightarrow> reconciliation_run" where
  "candidate_run ck run request version logical_hash =
     \<lparr>run_row_id = run, run_contract_version = version, run_as_of = rq_as_of request,
      run_watermark = ck_cutoff ck, run_status = RUN_CANDIDATE, run_result_hash = logical_hash,
      run_published_at = None\<rparr>"

definition artifact :: "uuid \<Rightarrow> json \<Rightarrow> string \<Rightarrow> string \<Rightarrow> recovery_result" where
  "artifact run document logical_hash evidence_hash =
     \<lparr>res_run_id = run, res_input_fingerprint = evidence_hash, res_logical_fingerprint = logical_hash,
      res_payload = document\<rparr>"

definition published :: "recovery_config \<Rightarrow> clock_readings \<Rightarrow> uuid \<Rightarrow> recovery_request \<Rightarrow> financial_state
    \<Rightarrow> recovery_outcome \<times> financial_state \<Rightarrow> bool" where
  "published cfg ck run request s x \<longleftrightarrow> (\<exists>document logical_hash evidence_hash version s1 s2 rows q.
     checked_candidate cfg run (rq_as_of request) (fs_inputs s) = Inr (document, logical_hash, evidence_hash)
     \<and> document_field (sections_of document) ''contract_version'' = Inr version
     \<and> insert_run (candidate_run ck run request version logical_hash) s = Inr s1
     \<and> insert_result (artifact run document logical_hash evidence_hash) s1 = Inr s2
     \<and> persist_candidate_rows (rc_parsers cfg) (rc_berlin cfg) document (fs_rows s2) = Inr rows
     \<and> mark_succeeded True (ck_succeeded ck) (rq_id request) run (fs_queue s) = Inr q
     \<and> x = (\<lparr>ro_request_id = rq_id request, ro_run_id = run, ro_input_fingerprint = evidence_hash,
             ro_logical_fingerprint = logical_hash\<rparr>,
           (upsert_pointer (rc_publication_name cfg) run (ck_transaction ck)
             (publish_run run (ck_transaction ck) (s2\<lparr>fs_rows := rows\<rparr>)))\<lparr>fs_queue := q\<rparr>))"

lemma inserts_keep:
  "insert_run r s = Inr s1 \<Longrightarrow> fs_queue s1 = fs_queue s \<and> fs_inputs s1 = fs_inputs s \<and> fs_pointers s1 = fs_pointers s
    \<and> fs_results s1 = fs_results s \<and> fs_rows s1 = fs_rows s"
  "insert_result a s = Inr s1 \<Longrightarrow> fs_queue s1 = fs_queue s \<and> fs_inputs s1 = fs_inputs s \<and> fs_pointers s1 = fs_pointers s
    \<and> fs_runs s1 = fs_runs s \<and> fs_rows s1 = fs_rows s"
  by (auto simp: insert_run_def insert_result_def result_simps)

lemma publish_keeps_queue [simp]:
  "fs_queue (upsert_pointer name run now s) = fs_queue s" "fs_queue (publish_run run now s) = fs_queue s"
  by (simp_all add: upsert_pointer_def publish_run_def Let_def)

lemmas publish_request_unfold = publish_request_def hook_bind_Inr pure_step_Inr Let_def

lemma publish_request_published:
  assumes "publish_request cfg hook ck run request s h = (Inr x, h')"
  shows "published cfg ck run request s x" "visit_points hook transaction_points h = (Inr (), h')"
proof -
  obtain document logical_hash evidence_hash s1 s2 rows q h1 h2 h3 h4 version where c:
    "checked_candidate cfg run (rq_as_of request) (fs_inputs s) = Inr (document, logical_hash, evidence_hash)"
    "visit_point hook ''after_validation'' h = (Inr (), h1)"
    "document_field (sections_of document) ''contract_version'' = Inr version"
    "insert_run (candidate_run ck run request version logical_hash) s = Inr s1"
    "visit_point hook ''after_run_insert'' h1 = (Inr (), h2)"
    "insert_result (artifact run document logical_hash evidence_hash) s1 = Inr s2"
    "persist_candidate_rows (rc_parsers cfg) (rc_berlin cfg) document (fs_rows s2) = Inr rows"
    "visit_points hook [''after_result_insert'', ''before_pointer_update'', ''after_result_insert'',
       ''before_pointer_update''] h2 = (Inr (), h3)"
    "visit_point hook ''after_pointer_update'' h3 = (Inr (), h4)"
    "mark_succeeded True (ck_succeeded ck) (rq_id request) run (fs_queue s2) = Inr q"
    "visit_points hook [''after_queue_completion'', ''before_commit''] h4 = (Inr (), h')"
    "x = (\<lparr>ro_request_id = rq_id request, ro_run_id = run, ro_input_fingerprint = evidence_hash,
             ro_logical_fingerprint = logical_hash\<rparr>,
           (upsert_pointer (rc_publication_name cfg) run (ck_transaction ck)
             (publish_run run (ck_transaction ck) (s2\<lparr>fs_rows := rows\<rparr>)))\<lparr>fs_queue := q\<rparr>)"
    using assms unfolding publish_request_unfold candidate_run_def artifact_def
    by (clarsimp simp: hook_bind_Inr pure_step_Inr result_simps simp del: visit_points.simps)
  have "fs_queue s2 = fs_queue s" using inserts_keep(1)[OF c(4)] inserts_keep(2)[OF c(6)] by simp
  with c show "published cfg ck run request s x" unfolding published_def by metis
  have split: "transaction_points = [''after_validation''] @ [''after_run_insert''] @ [''after_result_insert'',
      ''before_pointer_update'', ''after_result_insert'', ''before_pointer_update''] @ [''after_pointer_update'']
      @ [''after_queue_completion'', ''before_commit'']"
    by (simp add: transaction_points_def)
  show "visit_points hook transaction_points h = (Inr (), h')"
    unfolding split visit_points_append hook_bind_Inr visit_points_one using c by blast
qed

lemma published_publish_request:
  assumes "published cfg ck run request s x" "visit_points hook transaction_points h = (Inr (), h')"
  shows "publish_request cfg hook ck run request s h = (Inr x, h')"
proof -
  have split: "transaction_points = [''after_validation''] @ [''after_run_insert''] @ [''after_result_insert'',
      ''before_pointer_update'', ''after_result_insert'', ''before_pointer_update''] @ [''after_pointer_update'']
      @ [''after_queue_completion'', ''before_commit'']"
    by (simp add: transaction_points_def)
  obtain h1 h2 h3 h4 where v: "visit_point hook ''after_validation'' h = (Inr (), h1)"
    "visit_point hook ''after_run_insert'' h1 = (Inr (), h2)"
    "visit_points hook [''after_result_insert'', ''before_pointer_update'', ''after_result_insert'',
       ''before_pointer_update''] h2 = (Inr (), h3)"
    "visit_point hook ''after_pointer_update'' h3 = (Inr (), h4)"
    "visit_points hook [''after_queue_completion'', ''before_commit''] h4 = (Inr (), h')"
    using assms(2) unfolding split visit_points_append hook_bind_Inr visit_points_one by auto
  obtain document logical_hash evidence_hash version s1 s2 rows q where c:
    "checked_candidate cfg run (rq_as_of request) (fs_inputs s) = Inr (document, logical_hash, evidence_hash)"
    "document_field (sections_of document) ''contract_version'' = Inr version"
    "insert_run (candidate_run ck run request version logical_hash) s = Inr s1"
    "insert_result (artifact run document logical_hash evidence_hash) s1 = Inr s2"
    "persist_candidate_rows (rc_parsers cfg) (rc_berlin cfg) document (fs_rows s2) = Inr rows"
    "mark_succeeded True (ck_succeeded ck) (rq_id request) run (fs_queue s) = Inr q"
    "x = (\<lparr>ro_request_id = rq_id request, ro_run_id = run, ro_input_fingerprint = evidence_hash,
             ro_logical_fingerprint = logical_hash\<rparr>,
           (upsert_pointer (rc_publication_name cfg) run (ck_transaction ck)
             (publish_run run (ck_transaction ck) (s2\<lparr>fs_rows := rows\<rparr>)))\<lparr>fs_queue := q\<rparr>)"
    using assms(1) unfolding published_def by blast
  have q: "fs_queue s2 = fs_queue s" using inserts_keep(1)[OF c(3)] inserts_keep(2)[OF c(4)] by simp
  note run = c(3)[unfolded candidate_run_def] and result = c(4)[unfolded artifact_def]
  show ?thesis
    unfolding publish_request_def Let_def
    by (simp only: hook_bind_def pure_step_def c(1,2) v run result c(5,6) q prod.case sum.case bind_result_simps
        lift_error_def publish_keeps_queue financial_state.select_convs financial_state.update_convs c(7)) (simp add: q c(6))
qed

lemma published_unique: "published cfg ck run r s x \<Longrightarrow> published cfg ck run r s y \<Longrightarrow> x = y"
  unfolding published_def by (elim exE conjE) simp

subsection \<open>The consistency of published results\<close>

definition artifact_ok :: "(string \<Rightarrow> string) \<Rightarrow> recovery_result \<Rightarrow> bool" where
  "artifact_ok sha a = (\<forall>payload. sort_keys payload = sort_keys (res_payload a) \<longrightarrow>
     verify_stored_financial_result sha payload (res_logical_fingerprint a) = Inr (res_logical_fingerprint a))"

definition run_of :: "financial_state \<Rightarrow> uuid \<Rightarrow> reconciliation_run option" where
  "run_of s i = List.find (\<lambda>r. run_row_id r = i) (fs_runs s)"

definition result_of :: "financial_state \<Rightarrow> uuid \<Rightarrow> recovery_result option" where
  "result_of s i = List.find (\<lambda>a. res_run_id a = i) (fs_results s)"

text \<open>A run that can be pointed at: published, with an artifact that verifies and agrees with the ledger.\<close>

definition run_complete :: "(string \<Rightarrow> string) \<Rightarrow> financial_state \<Rightarrow> uuid \<Rightarrow> bool" where
  "run_complete sha s i = (\<exists>r a. run_of s i = Some r \<and> result_of s i = Some a \<and> run_status r = RUN_PUBLISHED
     \<and> run_published_at r \<noteq> None \<and> run_result_hash r = res_logical_fingerprint a \<and> artifact_ok sha a)"

definition financial_ok :: "(string \<Rightarrow> string) \<Rightarrow> financial_state \<Rightarrow> bool" where
  "financial_ok sha s = (queue_ok (fs_queue s)
     \<and> (\<forall>p \<in> set (fs_pointers s). run_complete sha s (ptr_run p))
     \<and> (\<forall>r \<in> set (q_requests (fs_queue s)). rq_status r = RQ_SUCCEEDED \<longrightarrow>
          (\<exists>i. rq_result_run r = Some i \<and> run_complete sha s i)))"

text \<open>A configuration whose builder returns results of the reconciler, as the builders of the program do.\<close>

definition reconciling :: "(string \<Rightarrow> string) \<Rightarrow> recovery_config \<Rightarrow> bool" where
  "reconciling sha cfg = (rc_sha cfg = sha
     \<and> (\<forall>run t c. rc_build cfg run t = Inr c \<longrightarrow> (\<exists>texts r. c = result_value texts r)))"

lemma find_append: "List.find P (xs @ ys) = (case List.find P xs of None \<Rightarrow> List.find P ys | Some x \<Rightarrow> Some x)"
  by (induction xs) auto

lemma find_map_same: "(\<And>x. P (f x) = P x) \<Longrightarrow> List.find P (map f xs) = map_option f (List.find P xs)"
  by (induction xs) auto

lemma find_None_image: "i \<notin> set (map k xs) \<Longrightarrow> List.find (\<lambda>x. k x = i) xs = None"
  by (auto simp: find_None_iff)

lemma checked_artifact:
  assumes "checked_candidate cfg run as_of inputs = Inr (document, logical_hash, evidence_hash)" "reconciling sha cfg"
  shows "artifact_ok sha (artifact run document logical_hash evidence_hash')"
proof -
  obtain candidate j where c: "rc_build cfg run as_of = Inr candidate" "json_value candidate = Inr j" "document = versioned j"
    "logical_fingerprint (rc_sha cfg) candidate = Inr logical_hash"
    using assms(1) by (auto simp: checked_candidate_def candidate_document_def result_simps Let_def)
  obtain texts r where r: "candidate = result_value texts r" using c(1) assms(2) unfolding reconciling_def by blast
  have "verify_stored_financial_result sha payload logical_hash = Inr logical_hash"
    if "sort_keys payload = sort_keys document" for payload
    using stored_artifact_verified c assms(2) that unfolding r reconciling_def by blast
  then show ?thesis by (simp add: artifact_ok_def artifact_def)
qed

lemma replace_find:
  "n \<in> set (map ptr_name ps) \<Longrightarrow> ptr_name p = n \<Longrightarrow>
    List.find (\<lambda>p. ptr_name p = n) (map (\<lambda>q. if ptr_name q = n then p else q) ps) = Some p"
  by (induction ps) auto

lemma upsert_pointer_find:
  "List.find (\<lambda>p. ptr_name p = n) (fs_pointers (upsert_pointer n run now s))
    = Some \<lparr>ptr_name = n, ptr_run = run, ptr_updated_at = now\<rparr>"
proof (cases "n \<in> set (map ptr_name (fs_pointers s))")
  case True
  then show ?thesis using replace_find[OF True] by (simp add: upsert_pointer_def Let_def)
next
  case False
  then show ?thesis by (simp add: upsert_pointer_def Let_def find_append find_None_image)
qed

text \<open>What the published state keeps and adds.\<close>

lemma published_tables:
  assumes "published cfg ck run request s x"
  shows "reconciling sha cfg \<Longrightarrow> run_complete sha (snd x) run"
    and "\<exists>a. result_of (snd x) run = Some a \<and> res_run_id a = run"
    and "\<And>i. run_complete sha s i \<Longrightarrow> run_complete sha (snd x) i"
    and "set (map ptr_run (fs_pointers (snd x))) \<subseteq> insert run (set (map ptr_run (fs_pointers s)))"
    and "List.find (\<lambda>p. ptr_name p = rc_publication_name cfg) (fs_pointers (snd x))
      = Some \<lparr>ptr_name = rc_publication_name cfg, ptr_run = run, ptr_updated_at = ck_transaction ck\<rparr>"
    and "mark_succeeded True (ck_succeeded ck) (rq_id request) run (fs_queue s) = Inr (fs_queue (snd x))"
proof -
  obtain document logical_hash evidence_hash version s1 s2 rows q where c:
    "checked_candidate cfg run (rq_as_of request) (fs_inputs s) = Inr (document, logical_hash, evidence_hash)"
    "insert_run (candidate_run ck run request version logical_hash) s = Inr s1"
    "insert_result (artifact run document logical_hash evidence_hash) s1 = Inr s2"
    "mark_succeeded True (ck_succeeded ck) (rq_id request) run (fs_queue s) = Inr q"
    "snd x = (upsert_pointer (rc_publication_name cfg) run (ck_transaction ck)
             (publish_run run (ck_transaction ck) (s2\<lparr>fs_rows := rows\<rparr>)))\<lparr>fs_queue := q\<rparr>"
    using assms(1) unfolding published_def by fastforce
  let ?r = "candidate_run ck run request version logical_hash" and ?a = "artifact run document logical_hash evidence_hash"
  let ?pub = "\<lambda>r. if run_row_id r = run then r\<lparr>run_status := RUN_PUBLISHED, run_published_at := Some (ck_transaction ck)\<rparr> else r"
  have s1: "run \<notin> set (map run_row_id (fs_runs s))" "s1 = s\<lparr>fs_runs := fs_runs s @ [?r]\<rparr>"
    using c(2) by (auto simp: insert_run_def result_simps candidate_run_def)
  have s2: "run \<notin> set (map res_run_id (fs_results s))" "s2 = s1\<lparr>fs_results := fs_results s @ [?a]\<rparr>"
    using c(3) by (auto simp: insert_result_def result_simps artifact_def s1(2))
  have runs: "fs_runs (snd x) = map ?pub (fs_runs s @ [?r])" and results: "fs_results (snd x) = fs_results s @ [?a]"
    unfolding c(5) s2(2) s1(2) by (simp_all add: upsert_pointer_def publish_run_def Let_def)
  have find_run: "run_of (snd x) i = map_option ?pub (List.find (\<lambda>r. run_row_id r = i) (fs_runs s @ [?r]))" for i
    unfolding run_of_def runs by (rule find_map_same) auto
  have new: "run_of (snd x) run = Some (?pub ?r)" "result_of (snd x) run = Some ?a"
    using s1(1) s2(1) by (simp_all add: find_run result_of_def results find_append find_None_image candidate_run_def artifact_def)
  then show "\<exists>a. result_of (snd x) run = Some a \<and> res_run_id a = run" by (simp add: artifact_def)
  show "run_complete sha (snd x) run" if "reconciling sha cfg"
    using new checked_artifact[OF c(1) that] by (simp add: run_complete_def candidate_run_def artifact_def)
  show "run_complete sha (snd x) i" if "run_complete sha s i" for i
  proof -
    obtain r a where ra: "run_of s i = Some r" "result_of s i = Some a" "run_status r = RUN_PUBLISHED"
      "run_published_at r \<noteq> None" "run_result_hash r = res_logical_fingerprint a" "artifact_ok sha a"
      using \<open>run_complete sha s i\<close> unfolding run_complete_def by blast
    then have "r \<in> set (fs_runs s)" "run_row_id r = i" by (auto simp: run_of_def find_Some_iff)
    then have "i \<noteq> run" using s1(1) by auto
    then have "run_of (snd x) i = Some r"
      using \<open>run_row_id r = i\<close> unfolding find_run find_append ra(1)[unfolded run_of_def] by simp
    moreover have "result_of (snd x) i = Some a"
      using ra(2) by (simp add: result_of_def results find_append)
    ultimately show ?thesis using ra unfolding run_complete_def by blast
  qed
  show "set (map ptr_run (fs_pointers (snd x))) \<subseteq> insert run (set (map ptr_run (fs_pointers s)))"
    unfolding c(5) s2(2) s1(2) by (auto simp: upsert_pointer_def publish_run_def Let_def)
  show "List.find (\<lambda>p. ptr_name p = rc_publication_name cfg) (fs_pointers (snd x))
      = Some \<lparr>ptr_name = rc_publication_name cfg, ptr_run = run, ptr_updated_at = ck_transaction ck\<rparr>"
    unfolding c(5) using upsert_pointer_find by simp
  show "mark_succeeded True (ck_succeeded ck) (rq_id request) run (fs_queue s) = Inr (fs_queue (snd x))"
    using c(4) unfolding c(5) by simp
qed

subsection \<open>One call of the worker\<close>

lemma run_complete_queue [simp]: "run_complete sha (s\<lparr>fs_queue := q\<rparr>) i = run_complete sha s i"
  by (simp add: run_complete_def run_of_def result_of_def)

lemma handle_failure_cases:
  "handle_failure cfg ck env i e s = s \<or> (\<exists>q. record_failure True (ck_failed ck) i
      (case_prod error_message (rc_describe cfg e)) (fs_queue s) = Inr q \<and> handle_failure cfg ck env i e s = s\<lparr>fs_queue := q\<rparr>)"
  by (auto simp: handle_failure_def split: sum.splits)

lemma handle_failure_succeeded:
  assumes "find_request i (fs_queue s) = Some r" "rq_status r \<noteq> RQ_PENDING"
  shows "handle_failure cfg ck env i e s = s"
  using assms by (simp add: handle_failure_def record_failure_def require_def)

text \<open>
  The three ways a call can end: nothing changed, a failure was recorded and nothing else changed, or
  everything was published.
\<close>

lemma run_next_cases:
  assumes "queue_ok (fs_queue s)"
    and run: "run_next cfg hook ck env run locked s h = (res, s', h')"
  obtains (idle) "s' = s" "\<forall>out. res \<noteq> Inr (Some out)"
    | (failed) r e q where "next_ready True (ck_ready ck) locked (fs_queue s) = Inr (Some r)" "res = Inl e"
        "record_failure True (ck_failed ck) (rq_id r) (case_prod error_message (rc_describe cfg e)) (fs_queue s) = Inr q"
        "s' = s\<lparr>fs_queue := q\<rparr>"
    | (committed) r out where "next_ready True (ck_ready ck) locked (fs_queue s) = Inr (Some r)"
        "published cfg ck run r s (out, s')" "res = Inr (Some out) \<or> (\<exists>e. res = Inl e)"
proof (cases "next_ready True (ck_ready ck) locked (fs_queue s)")
  case (Inl e)
  then have "s' = s" "\<forall>out. res \<noteq> Inr (Some out)" using run by (auto simp: run_next_def)
  then show thesis by (rule idle)
next
  case (Inr ready)
  show thesis
  proof (cases ready)
    case None
    then have "s' = s" "\<forall>out. res \<noteq> Inr (Some out)" using run Inr by (auto simp: run_next_def)
    then show thesis by (rule idle)
  next
    case (Some r)
    note ready = Inr[unfolded Some]
    obtain m h1 where m: "publish_request cfg hook ck run r s h = (m, h1)" by (cases "publish_request cfg hook ck run r s h")
    have fail: thesis if "res = Inl e" "s' = handle_failure cfg ck env (rq_id r) e s" for e
      using handle_failure_cases[of cfg ck env "rq_id r" e s] that idle failed[OF ready that(1)] by auto
    show thesis
    proof (cases m)
      case (Inl e)
      then show thesis using run ready m by (intro fail[of e]) (simp_all add: run_next_def)
    next
      case (Inr x)
      obtain out s1 where x: "x = (out, s1)" by (cases x)
      have pub: "published cfg ck run r s (out, s1)"
        using publish_request_published(1) m Inr x by metis
      show thesis
      proof (cases "env_commit env")
        case CommitOk
        then have "s' = s1" "res = Inr (Some out) \<or> (\<exists>e. res = Inl e)"
          using run ready m Inr x by (auto simp: run_next_def split: prod.splits sum.splits)
        with pub committed[OF ready] show thesis by blast
      next
        case CommitRefused
        then show thesis
          using run ready m Inr x by (intro fail[of CommitFailed]) (simp_all add: run_next_def)
      next
        case CommitAckLost
        then have s': "s' = handle_failure cfg ck env (rq_id r) CommitFailed s1" "res = Inl CommitFailed"
          using run ready m Inr x by (simp_all add: run_next_def)
        have mark: "mark_succeeded True (ck_succeeded ck) (rq_id r) run (fs_queue s) = Inr (fs_queue s1)"
          using pub unfolding published_def by auto
        then obtain r0 where r0: "find_request (rq_id r) (fs_queue s) = Some r0"
          "fs_queue s1 = rewrite (succeeded_row (ck_succeeded ck) run r0) [succeeded_attempt (ck_succeeded ck) run r0] (fs_queue s)"
          by (auto simp: mark_succeeded_Inr[OF assms(1)])
        have "rq_id r0 = rq_id r" using find_request_Some[OF r0(1)] by simp
        then have "find_request (rq_id r) (fs_queue s1) = Some (succeeded_row (ck_succeeded ck) run r0)"
          using r0 by (simp add: find_request_rewrite)
        then have "s' = s1" unfolding s'(1) by (rule handle_failure_succeeded) (simp add: succeeded_row_def)
        with pub s'(2) committed[OF ready] show thesis by blast
      qed
    qed
  qed
qed

subsection \<open>Hooks that fail\<close>

lemma publish_request_hook_fails:
  assumes "published cfg ck run request s x" "visit_points hook transaction_points h = (Inl e, h')"
  shows "publish_request cfg hook ck run request s h = (Inl e, h')"
proof -
  have split: "transaction_points = [''after_validation''] @ [''after_run_insert''] @ [''after_result_insert'',
      ''before_pointer_update'', ''after_result_insert'', ''before_pointer_update''] @ [''after_pointer_update'']
      @ [''after_queue_completion'', ''before_commit'']"
    by (simp add: transaction_points_def)
  obtain document logical_hash evidence_hash version s1 s2 rows q where c:
    "checked_candidate cfg run (rq_as_of request) (fs_inputs s) = Inr (document, logical_hash, evidence_hash)"
    "document_field (sections_of document) ''contract_version'' = Inr version"
    "insert_run (candidate_run ck run request version logical_hash) s = Inr s1"
    "insert_result (artifact run document logical_hash evidence_hash) s1 = Inr s2"
    "persist_candidate_rows (rc_parsers cfg) (rc_berlin cfg) document (fs_rows s2) = Inr rows"
    "mark_succeeded True (ck_succeeded ck) (rq_id request) run (fs_queue s) = Inr q"
    using assms(1) unfolding published_def by blast
  have q: "fs_queue s2 = fs_queue s" using inserts_keep(1)[OF c(3)] inserts_keep(2)[OF c(4)] by simp
  note run = c(3)[unfolded candidate_run_def] and result = c(4)[unfolded artifact_def]
  have steps: "publish_request cfg hook ck run request s h =
    (case visit_point hook ''after_validation'' h of (Inl e, h1) \<Rightarrow> (Inl e, h1) | (Inr _, h1) \<Rightarrow>
    (case visit_point hook ''after_run_insert'' h1 of (Inl e, h2) \<Rightarrow> (Inl e, h2) | (Inr _, h2) \<Rightarrow>
    (case visit_points hook [''after_result_insert'', ''before_pointer_update'', ''after_result_insert'',
       ''before_pointer_update''] h2 of (Inl e, h3) \<Rightarrow> (Inl e, h3) | (Inr _, h3) \<Rightarrow>
    (case visit_point hook ''after_pointer_update'' h3 of (Inl e, h4) \<Rightarrow> (Inl e, h4) | (Inr _, h4) \<Rightarrow>
    (case visit_points hook [''after_queue_completion'', ''before_commit''] h4 of (Inl e, h5) \<Rightarrow> (Inl e, h5) | (Inr _, h5) \<Rightarrow>
      (Inr (\<lparr>ro_request_id = rq_id request, ro_run_id = run, ro_input_fingerprint = evidence_hash,
             ro_logical_fingerprint = logical_hash\<rparr>,
           (upsert_pointer (rc_publication_name cfg) run (ck_transaction ck)
             (publish_run run (ck_transaction ck) (s2\<lparr>fs_rows := rows\<rparr>)))\<lparr>fs_queue := q\<rparr>), h5))))))"
    unfolding publish_request_def Let_def
    by (simp only: hook_bind_def pure_step_def c(1,2) run result c(5) q prod.case sum.case bind_result_simps
        lift_error_def publish_keeps_queue financial_state.select_convs financial_state.update_convs)
      (simp add: q c(6) del: visit_points.simps cong: prod.case_cong sum.case_cong)
  show ?thesis
    using assms(2) unfolding split visit_points_append visit_points_one steps
    by (auto simp: hook_bind_def visit_points_append visit_points_one simp del: visit_points.simps split: prod.splits sum.splits)
qed

end
