(* ===== verification/Rebuild_Properties.thy ===== *)
theory Rebuild_Properties
  imports Rebuild_Facts
begin

text \<open>
  What the recovery worker guarantees: calls are atomic, published results are consistent on every
  reachable state, and a failure that does not come back is recovered from.
\<close>

subsection \<open>A worker of the empty history\<close>

text \<open>A small configuration used by the witnesses: its builder publishes a run without any row.\<close>

definition empty_result :: "string \<Rightarrow> instant \<Rightarrow> recon_result" where
  "empty_result run now = (sample_result run now)\<lparr>rr_transactions := []\<rparr>"

definition zero_digest :: "string \<Rightarrow> string" where
  "zero_digest s = replicate 64 CHR ''0''"

definition sample_config :: recovery_config where
  "sample_config = \<lparr>rc_build = (\<lambda>run t. Inr (result_value plain_texts (empty_result run t))),
     rc_validate = (\<lambda>c. Inr ()), rc_publication_name = ''current'', rc_sha = zero_digest,
     rc_parsers = \<lparr>date_fromiso = (\<lambda>s. None), datetime_fromiso = (\<lambda>s. None)\<rparr>,
     rc_berlin = \<lparr>offset_at_local = (\<lambda>t. 0), local_at_utc = (\<lambda>t. t)\<rparr>,
     rc_describe = (\<lambda>e. (''RuntimeError'', ''failed''))\<rparr>"

definition empty_tables :: result_tables where
  "empty_tables = \<lparr>rt_transactions = [], rt_payouts = [], rt_exceptions = [], rt_snapshots = []\<rparr>"

definition no_inputs :: durable_inputs where
  "no_inputs = \<lparr>in_batches = [], in_receipts = [], in_resolutions = []\<rparr>"

definition empty_state :: "recovery_queue \<Rightarrow> durable_inputs \<Rightarrow> financial_state" where
  "empty_state q inputs = \<lparr>fs_queue = q, fs_runs = [], fs_results = [], fs_rows = empty_tables,
     fs_pointers = [], fs_inputs = inputs\<rparr>"

lemma sample_config_reconciling: "reconciling zero_digest sample_config"
  by (auto simp: reconciling_def sample_config_def)

definition empty_document :: "string \<Rightarrow> instant \<Rightarrow> json" where
  "empty_document run t = versioned (JObj
     [(''run_id'', JStr run), (''contract_version'', JStr CONTRACT_VERSION), (''detected_at_utc'', JStr (isoformat_utc t)),
      (''transactions'', JArr []), (''expected_movements'', JArr []), (''payouts'', JArr []), (''exceptions'', JArr []),
      (''source_completeness'', JArr []), (''quarantine_records'', JArr [])])"

lemma sample_candidate:
  "checked_candidate sample_config run t no_inputs = Inr (empty_document run t, zero_digest [], zero_digest [])"
  by (simp add: checked_candidate_def sample_config_def candidate_document_def empty_document_def result_value_def
      result_fields_def empty_result_def sample_result_def require_def lift_error_def versioned_def sections_of_def
      document_field_def validate_arithmetic_def document_rows_def logical_fingerprint_def logical_document_def
      read_field_def LOGICAL_SECTIONS_def input_fingerprint_def no_inputs_def document_fingerprint_def zero_digest_def Let_def)

lemma sample_rows_persist:
  "persist_candidate_rows p z (empty_document run t) tables = Inr tables"
  by (simp add: persist_candidate_rows_def empty_document_def object_rows_def sections_of_def versioned_def insert_rows_def)

lemma zero_digest_sha: "is_sha256 (zero_digest s)"
  by (simp add: is_sha256_def zero_digest_def list_all_iff is_hex_def is_digit_def)

lemma sample_published:
  assumes "fs_inputs s = no_inputs" "run \<notin> set (map run_row_id (fs_runs s))" "run \<notin> set (map res_run_id (fs_results s))"
    "mark_succeeded True (ck_succeeded ck) (rq_id r) run (fs_queue s) = Inr q"
  shows "\<exists>out s'. published sample_config ck run r s (out, s') \<and> ro_run_id out = run"
proof -
  let ?r = "candidate_run ck run r (JStr CONTRACT_VERSION) (zero_digest [])"
    and ?a = "artifact run (empty_document run (rq_as_of r)) (zero_digest []) (zero_digest [])"
  have "insert_run ?r s = Inr (s\<lparr>fs_runs := fs_runs s @ [?r]\<rparr>)"
    using assms(2) by (simp add: insert_run_def candidate_run_def require_def zero_digest_sha CONTRACT_VERSION_def)
  moreover have "insert_result ?a (s\<lparr>fs_runs := fs_runs s @ [?r]\<rparr>)
      = Inr (s\<lparr>fs_runs := fs_runs s @ [?r], fs_results := fs_results s @ [?a]\<rparr>)"
    using assms(3) by (simp add: insert_result_def artifact_def candidate_run_def require_def zero_digest_sha)
  moreover have "document_field (sections_of (empty_document run (rq_as_of r))) ''contract_version'' = Inr (JStr CONTRACT_VERSION)"
    by (simp add: empty_document_def document_field_def sections_of_def versioned_def)
  moreover have "checked_candidate sample_config run (rq_as_of r) (fs_inputs s)
      = Inr (empty_document run (rq_as_of r), zero_digest [], zero_digest [])"
    using assms(1) sample_candidate by simp
  moreover note sample_rows_persist assms(4)
  ultimately show ?thesis unfolding published_def by fastforce
qed

subsection \<open>Everything that may happen to the tables\<close>

text \<open>
  The steps of the durable state: a worker's call with any hook and any fate of its commit, an enqueued
  rebuild, new source evidence with or without a request of its own, and an operator's requeueing.  Every worker builds its candidates with
  the reconciler and the same digest.
\<close>

inductive financial_step :: "(string \<Rightarrow> string) \<Rightarrow> financial_state \<Rightarrow> financial_state \<Rightarrow> bool" for sha where
  worked: "reconciling sha cfg \<Longrightarrow> run_next cfg hook ck env run locked s (h :: nat) = (res, s', h') \<Longrightarrow>
    financial_step sha s s'"
| enqueued: "enqueue_full_rebuild sha batch_status i now receipt canonical_changed affects key reason as_of (fs_queue s)
    = Inr (request, q) \<Longrightarrow> financial_step sha s (s\<lparr>fs_queue := q\<rparr>)"
| ingested: "financial_step sha s (s\<lparr>fs_inputs := inputs\<rparr>)"
| delivered: "insert_request (new_request i key receipt (Some batch) reason as_of now) (fs_queue s) = Inr q \<Longrightarrow>
    financial_step sha s (s\<lparr>fs_queue := q, fs_inputs := inputs\<rparr>)"
| requeued: "requeue_failed True now i additional (fs_queue s) = Inr q \<Longrightarrow> financial_step sha s (s\<lparr>fs_queue := q\<rparr>)"

inductive_cases financial_stepE: "financial_step sha s s'"

lemma enqueue_cases:
  "enqueue_full_rebuild sha batch_status i now receipt canonical_changed affects key reason as_of q = Inr (request, q') \<Longrightarrow>
    q' = q \<or> (\<exists>k c. insert_request (new_request i k (Some receipt) None reason c now) q = Inr q')"
  by (auto simp: enqueue_full_rebuild_def result_simps Let_def split: if_splits option.splits)

lemma published_queue:
  assumes "queue_ok (fs_queue s)" "published cfg ck run r s x"
  obtains r0 where "find_request (rq_id r) (fs_queue s) = Some r0" "rq_status r0 = RQ_PENDING"
    "fs_queue (snd x) = rewrite (succeeded_row (ck_succeeded ck) run r0) [succeeded_attempt (ck_succeeded ck) run r0] (fs_queue s)"
    "find_request (rq_id r) (fs_queue (snd x)) = Some (succeeded_row (ck_succeeded ck) run r0)"
proof -
  obtain r0 where r0: "find_request (rq_id r) (fs_queue s) = Some r0" "rq_status r0 = RQ_PENDING"
    "fs_queue (snd x) = rewrite (succeeded_row (ck_succeeded ck) run r0) [succeeded_attempt (ck_succeeded ck) run r0] (fs_queue s)"
    using published_tables(6)[OF assms(2)] by (auto simp: mark_succeeded_Inr[OF assms(1)])
  moreover have "rq_id r0 = rq_id r" using find_request_Some[OF r0(1)] by simp
  ultimately show thesis using that by (simp add: find_request_rewrite)
qed

lemma rewritten_requests:
  "x \<in> set (q_requests (rewrite r as q)) \<Longrightarrow> x = r \<or> x \<in> set (q_requests q)"
  by (auto simp: rewrite_def)

lemma requeue_not_success:
  "queue_ok q \<Longrightarrow> requeue_failed True now i n q = Inr q' \<Longrightarrow> x \<in> set (q_requests q') \<Longrightarrow> rq_status x = RQ_SUCCEEDED \<Longrightarrow>
    x \<in> set (q_requests q)"
  by (auto simp: requeue_failed_Inr requeued_row_def dest!: rewritten_requests)

lemma failure_not_success:
  "queue_ok q \<Longrightarrow> record_failure True now i m q = Inr q' \<Longrightarrow> x \<in> set (q_requests q') \<Longrightarrow> rq_status x = RQ_SUCCEEDED \<Longrightarrow>
    x \<in> set (q_requests q)"
  by (auto simp: record_failure_Inr failed_row_def Let_def dest!: rewritten_requests split: if_splits)

lemma insert_not_success:
  "insert_request (new_request i key receipt batch reason as_of now) q = Inr q' \<Longrightarrow> x \<in> set (q_requests q') \<Longrightarrow>
    rq_status x = RQ_SUCCEEDED \<Longrightarrow> x \<in> set (q_requests q)"
  by (auto simp: insert_request_def result_simps new_request_def)

lemma financial_ok_queue:
  assumes "financial_ok sha s" "queue_step (fs_queue s) q"
    "\<And>x. x \<in> set (q_requests q) \<Longrightarrow> rq_status x = RQ_SUCCEEDED \<Longrightarrow> x \<in> set (q_requests (fs_queue s))"
  shows "financial_ok sha (s\<lparr>fs_queue := q\<rparr>)"
proof -
  have "queue_ok q" using assms(1) queue_step_ok[OF assms(2)] by (simp add: financial_ok_def)
  then show ?thesis using assms(1,3) by (simp add: financial_ok_def)
qed

lemma financial_ok_inputs: "financial_ok sha (s\<lparr>fs_inputs := inputs\<rparr>) = financial_ok sha s"
  by (simp add: financial_ok_def run_complete_def run_of_def result_of_def)

lemma financial_ok_published:
  assumes ok: "financial_ok sha s" and "reconciling sha cfg" and pub: "published cfg ck run r s x"
  shows "financial_ok sha (snd x)"
proof -
  have q: "queue_ok (fs_queue s)" using ok by (simp add: financial_ok_def)
  note t = published_tables[OF pub]
  obtain r0 where r0: "fs_queue (snd x)
      = rewrite (succeeded_row (ck_succeeded ck) run r0) [succeeded_attempt (ck_succeeded ck) run r0] (fs_queue s)"
    by (rule published_queue[OF q pub])
  have "queue_ok (fs_queue (snd x))"
    using queue_step_ok[OF queue_step.succeeded[OF t(6)] q] .
  moreover have "run_complete sha (snd x) (ptr_run p)" if "p \<in> set (fs_pointers (snd x))" for p
  proof -
    have "ptr_run p = run \<or> ptr_run p \<in> ptr_run ` set (fs_pointers s)" using t(4) that by auto
    moreover have "run_complete sha s i" if "i \<in> ptr_run ` set (fs_pointers s)" for i
      using ok that by (auto simp: financial_ok_def)
    ultimately show ?thesis using t(1)[OF assms(2)] t(3) by metis
  qed
  moreover have "\<exists>i. rq_result_run y = Some i \<and> run_complete sha (snd x) i"
    if "y \<in> set (q_requests (fs_queue (snd x)))" "rq_status y = RQ_SUCCEEDED" for y
  proof (cases "y \<in> set (q_requests (fs_queue s))")
    case True
    then obtain i where "rq_result_run y = Some i" "run_complete sha s i"
      using ok \<open>rq_status y = RQ_SUCCEEDED\<close> by (auto simp: financial_ok_def)
    then show ?thesis using t(3)[of sha i] by simp
  next
    case False
    then have "y = succeeded_row (ck_succeeded ck) run r0" using that(1) rewritten_requests unfolding r0 by blast
    then show ?thesis using t(1)[OF assms(2)] by (simp add: succeeded_row_def)
  qed
  ultimately show ?thesis by (simp add: financial_ok_def)
qed

lemma financial_step_ok: "financial_step sha s s' \<Longrightarrow> financial_ok sha s \<Longrightarrow> financial_ok sha s'"
proof (erule financial_stepE)
  fix cfg hook ck env run locked and h :: nat and res h'
  assume ok: "financial_ok sha s" and rec: "reconciling sha cfg"
    and run: "run_next cfg hook ck env run locked s h = (res, s', h')"
  have q: "queue_ok (fs_queue s)" using ok by (simp add: financial_ok_def)
  from q run show "financial_ok sha s'"
  proof (cases rule: run_next_cases)
    case idle
    then show ?thesis using ok by simp
  next
    case (failed r e qq)
    show ?thesis unfolding failed(4)
      by (rule financial_ok_queue[OF ok queue_step.failed[OF failed(3)]]) (rule failure_not_success[OF q failed(3)])
  next
    case (committed r out)
    then show ?thesis using financial_ok_published[OF ok rec committed(2)] by simp
  qed
next
  fix batch_status i now receipt canonical_changed affects key reason as_of request q
  assume ok: "financial_ok sha s" and s': "s' = s\<lparr>fs_queue := q\<rparr>"
    and e: "enqueue_full_rebuild sha batch_status i now receipt canonical_changed affects key reason as_of (fs_queue s) = Inr (request, q)"
  from enqueue_cases[OF e] show "financial_ok sha s'"
  proof (elim disjE exE)
    assume "q = fs_queue s"
    then show ?thesis using ok unfolding s' by simp
  next
    fix k c
    assume i: "insert_request (new_request i k (Some receipt) None reason c now) (fs_queue s) = Inr q"
    show ?thesis unfolding s'
      by (rule financial_ok_queue[OF ok queue_step.enqueued[OF i]]) (rule insert_not_success[OF i])
  qed
next
  fix inputs
  assume "financial_ok sha s" "s' = s\<lparr>fs_inputs := inputs\<rparr>"
  then show "financial_ok sha s'" by (simp add: financial_ok_inputs)
next
  fix i key receipt batch reason as_of now q inputs
  assume ok: "financial_ok sha s" and s': "s' = s\<lparr>fs_queue := q, fs_inputs := inputs\<rparr>"
    and i: "insert_request (new_request i key receipt (Some batch) reason as_of now) (fs_queue s) = Inr q"
  have "financial_ok sha (s\<lparr>fs_queue := q\<rparr>)"
    by (rule financial_ok_queue[OF ok queue_step.enqueued[OF i]]) (rule insert_not_success[OF i])
  then have "financial_ok sha (s\<lparr>fs_queue := q\<rparr>\<lparr>fs_inputs := inputs\<rparr>)" by (simp only: financial_ok_inputs)
  then show "financial_ok sha s'" unfolding s' by simp
next
  fix now i additional q
  assume ok: "financial_ok sha s" and s': "s' = s\<lparr>fs_queue := q\<rparr>"
    and r: "requeue_failed True now i additional (fs_queue s) = Inr q"
  have "queue_ok (fs_queue s)" using ok by (simp add: financial_ok_def)
  then show "financial_ok sha s'" unfolding s'
    by (intro financial_ok_queue[OF ok queue_step.requeued[OF r]] requeue_not_success[OF _ r])
qed

lemma financial_steps_ok: "(financial_step sha)\<^sup>*\<^sup>* s s' \<Longrightarrow> financial_ok sha s \<Longrightarrow> financial_ok sha s'"
  by (induction rule: rtranclp_induct) (auto intro: financial_step_ok)

lemma financial_ok_empty: "financial_ok sha (empty_state empty_queue inputs)"
  using queue_ok_empty by (simp add: financial_ok_def empty_state_def) (simp add: empty_queue_def)

lemma find_member: "List.find P xs = Some x \<Longrightarrow> x \<in> set xs \<and> P x"
  by (induction xs) (auto split: if_splits)

lemma read_published_Some:
  "read_published_result name s = Some (i, a) \<Longrightarrow> result_of s i = Some a \<and> (\<exists>p \<in> set (fs_pointers s). ptr_name p = name \<and> ptr_run p = i)"
proof -
  assume "read_published_result name s = Some (i, a)"
  then obtain p where p: "List.find (\<lambda>p. ptr_name p = name) (fs_pointers s) = Some p" "ptr_run p = i" "result_of s i = Some a"
    by (auto simp: read_published_result_def result_of_def split: option.splits)
  then show ?thesis using find_member[OF p(1)] by blast
qed

lemma read_published_None:
  assumes "\<forall>p \<in> set (fs_pointers s). run_complete sha s (ptr_run p)"
  shows "read_published_result name s = None \<longleftrightarrow> name \<notin> ptr_name ` set (fs_pointers s)"
proof (cases "List.find (\<lambda>p. ptr_name p = name) (fs_pointers s)")
  case None
  then have "name \<notin> ptr_name ` set (fs_pointers s)" by (auto simp: find_None_iff)
  with None show ?thesis by (simp add: read_published_result_def)
next
  case (Some p)
  then have "p \<in> set (fs_pointers s)" "ptr_name p = name" using find_member by fastforce+
  then show ?thesis using assms Some by (auto simp: read_published_result_def run_complete_def result_of_def)
qed

subsection \<open>Hooks that fail once\<close>

definition fail_once_hook :: "fail_once failure_hook" where
  "fail_once_hook h point = (case fail_once_call h point of
     (Inl (InjectedFailure p), h') \<Rightarrow> (Inl (failure_point_value p), h')
   | (Inl (UnknownPoint p), h') \<Rightarrow> (Inl p, h')
   | (Inr u, h') \<Rightarrow> (Inr u, h'))"

lemma fired_visit:
  assumes "fo_fired h"
  shows "\<exists>h'. visit_point fail_once_hook (failure_point_value q) h = (Inr (), h') \<and> fo_fired h' \<and> fo_point h' = fo_point h"
  using assms by (auto simp: visit_point_def fail_once_hook_def fail_once_call_def Let_def)

lemma fired_visits:
  "fo_fired h \<Longrightarrow> \<exists>h'. visit_points fail_once_hook (map failure_point_value qs) h = (Inr (), h') \<and> fo_fired h'"
proof (induction qs arbitrary: h)
  case (Cons q qs)
  then obtain h1 where "visit_point fail_once_hook (failure_point_value q) h = (Inr (), h1)" "fo_fired h1"
    using fired_visit by blast
  with Cons.IH show ?case by (auto simp: hook_bind_def)
qed (simp add: pure_step_def)

lemma armed_visits:
  "\<not> fo_fired h \<Longrightarrow> fo_point h \<in> set qs \<Longrightarrow>
    \<exists>h'. visit_points fail_once_hook (map failure_point_value qs) h = (Inl (HookRaised (failure_point_value (fo_point h))), h')
      \<and> fo_fired h'"
proof (induction qs arbitrary: h)
  case (Cons q qs)
  show ?case
  proof (cases "q = fo_point h")
    case True
    then show ?thesis using Cons.prems
      by (simp add: hook_bind_def visit_point_def fail_once_hook_def fail_once_call_def Let_def)
  next
    case False
    then obtain h1 where h1: "visit_point fail_once_hook (failure_point_value q) h = (Inr (), h1)" "\<not> fo_fired h1"
      "fo_point h1 = fo_point h"
      using Cons.prems by (simp add: visit_point_def fail_once_hook_def fail_once_call_def Let_def)
    then show ?thesis using Cons.IH[OF h1(2)] Cons.prems False by (auto simp: hook_bind_def)
  qed
qed simp

lemma transaction_points_values:
  "transaction_points = map failure_point_value [AFTER_VALIDATION, AFTER_RUN_INSERT, AFTER_RESULT_INSERT,
     BEFORE_POINTER_UPDATE, AFTER_RESULT_INSERT, BEFORE_POINTER_UPDATE, AFTER_POINTER_UPDATE,
     AFTER_QUEUE_COMPLETION, BEFORE_COMMIT]"
  by (simp add: transaction_points_def)

lemma armed_transaction:
  assumes "\<not> fo_fired h" "fo_point h \<noteq> AFTER_COMMIT"
  obtains h' where "visit_points fail_once_hook transaction_points h = (Inl (HookRaised (failure_point_value (fo_point h))), h')"
    "fo_fired h'"
proof -
  have "fo_point h \<in> set [AFTER_VALIDATION, AFTER_RUN_INSERT, AFTER_RESULT_INSERT,
     BEFORE_POINTER_UPDATE, AFTER_RESULT_INSERT, BEFORE_POINTER_UPDATE, AFTER_POINTER_UPDATE,
     AFTER_QUEUE_COMPLETION, BEFORE_COMMIT]"
    using assms(2) by (cases "fo_point h") simp_all
  from armed_visits[OF assms(1) this] that show thesis unfolding transaction_points_values by blast
qed

lemma fired_transaction:
  assumes "fo_fired h"
  obtains h1 h2 where "visit_points fail_once_hook transaction_points h = (Inr (), h1)"
    "visit_point fail_once_hook ''after_commit'' h1 = (Inr (), h2)"
proof -
  obtain h1 where h1: "visit_points fail_once_hook transaction_points h = (Inr (), h1)" "fo_fired h1"
    using fired_visits[OF assms] unfolding transaction_points_values by blast
  with fired_visit[OF h1(2), of AFTER_COMMIT] that show thesis by auto
qed

text \<open>What can be published still can after failures were recorded, at other readings of the clock.\<close>

lemma published_again:
  assumes "published cfg ck run r s x" "rq_id r' = rq_id r" "rq_as_of r' = rq_as_of r"
    "fs_inputs s' = fs_inputs s" "fs_runs s' = fs_runs s" "fs_results s' = fs_results s" "fs_rows s' = fs_rows s"
    "mark_succeeded True (ck_succeeded ck') (rq_id r') run (fs_queue s') = Inr q'"
  shows "\<exists>x'. published cfg ck' run r' s' x' \<and> ro_run_id (fst x') = run"
proof -
  obtain document logical_hash evidence_hash version s1 s2 rows q where c:
    "checked_candidate cfg run (rq_as_of r) (fs_inputs s) = Inr (document, logical_hash, evidence_hash)"
    "document_field (sections_of document) ''contract_version'' = Inr version"
    "insert_run (candidate_run ck run r version logical_hash) s = Inr s1"
    "insert_result (artifact run document logical_hash evidence_hash) s1 = Inr s2"
    "persist_candidate_rows (rc_parsers cfg) (rc_berlin cfg) document (fs_rows s2) = Inr rows"
    using assms(1) unfolding published_def by blast
  define s1' where "s1' = s'\<lparr>fs_runs := fs_runs s' @ [candidate_run ck' run r' version logical_hash]\<rparr>"
  define s2' where "s2' = s1'\<lparr>fs_results := fs_results s' @ [artifact run document logical_hash evidence_hash]\<rparr>"
  have "insert_run (candidate_run ck' run r' version logical_hash) s' = Inr s1'"
    using c(3) assms(5) by (auto simp: insert_run_def result_simps candidate_run_def s1'_def require_def)
  moreover have "insert_result (artifact run document logical_hash evidence_hash) s1' = Inr s2'"
    using c(3,4) assms(5,6) by (auto simp: insert_result_def insert_run_def result_simps candidate_run_def artifact_def s1'_def s2'_def require_def split: if_splits)
  moreover have "fs_rows s2' = fs_rows s2"
    using inserts_keep(1)[OF c(3)] inserts_keep(2)[OF c(4)] assms(7) by (simp add: s1'_def s2'_def)
  ultimately show ?thesis unfolding published_def using c(1,2,5) assms(2,3,4,8) by fastforce
qed

subsection \<open>Properties\<close>


lemma empty_state_queue: "fs_queue (empty_state q inputs) = q"
  by (simp add: empty_state_def)

definition sample_clock :: clock_readings where
  "sample_clock = \<lparr>ck_ready = 15, ck_cutoff = 16, ck_transaction = 17, ck_succeeded = 18, ck_failed = 19\<rparr>"

definition quiet_hook :: "nat failure_hook" where
  "quiet_hook h point = (Inr (), Suc h)"

definition good_commit :: environment where
  "good_commit = \<lparr>env_commit = CommitOk, env_failure_recorded = True\<rparr>"

lemma sample_ready: "next_ready True 15 [] queue1 = Inr (Some sample_request)"
  by (simp add: next_ready_def require_def queue1_def request_ready_def sample_request_def new_request_def)

lemma quiet_points: "visit_points quiet_hook ps h = (Inr (), h + length ps)"
  by (induction ps arbitrary: h) (simp_all add: pure_step_def hook_bind_def visit_point_def quiet_hook_def)

lemma sample_publishable:
  "\<exists>x. published sample_config sample_clock ''R'' sample_request (empty_state queue1 no_inputs) x \<and> ro_run_id (fst x) = ''R''"
proof -
  have "mark_succeeded True (ck_succeeded sample_clock) (rq_id sample_request) ''R'' queue1
      = Inr (rewrite (succeeded_row 18 ''R'' sample_request) [succeeded_attempt 18 ''R'' sample_request] queue1)"
    using mark_succeeded_pending[OF sample_ok1 sample_rows(5,2)] by (simp add: sample_clock_def sample_rows)
  then show ?thesis
    using sample_published[of "empty_state queue1 no_inputs" "''R''" sample_clock sample_request]
    by (auto simp: empty_state_def)
qed

lemma sample_run:
  "\<exists>out s'. run_next sample_config quiet_hook sample_clock good_commit ''R'' [] (empty_state queue1 no_inputs) 0
    = (Inr (Some out), s', 10) \<and> ro_run_id out = ''R''"
proof -
  obtain out s' where x: "published sample_config sample_clock ''R'' sample_request (empty_state queue1 no_inputs) (out, s')"
    "ro_run_id out = ''R''"
    using sample_publishable by auto
  have "publish_request sample_config quiet_hook sample_clock ''R'' sample_request (empty_state queue1 no_inputs) 0
      = (Inr (out, s'), 9)"
    by (rule published_publish_request[OF x(1)]) (simp add: quiet_points transaction_points_def del: visit_points.simps)
  with x(2) show ?thesis
    using sample_ready by (simp add: run_next_def sample_clock_def empty_state_def good_commit_def visit_point_def quiet_hook_def)
qed

lemma sample_reach: "queue_step\<^sup>*\<^sup>* empty_queue (fs_queue (empty_state queue1 no_inputs))"
  using sample_reachable(1) by (simp add: empty_state_def)


text \<open>C10: What the program has published is always consistent: in every state reachable from an empty database by workers
  with failing hooks, refused commits and lost acknowledgements, new evidence, new requests and requeueing, every
  pointer and every succeeded request names a published run whose stored artifact passes verification with the
  fingerprint of the run, and reading a name finds nothing only when it was never published.\<close>

theorem published_results_consistent:
  assumes "(financial_step sha)\<^sup>*\<^sup>* (empty_state empty_queue inputs) s"
  shows "(\<forall>p \<in> set (fs_pointers s). run_complete sha s (ptr_run p))
    \<and> (\<forall>r \<in> set (q_requests (fs_queue s)). rq_status r = RQ_SUCCEEDED \<longrightarrow>
      (\<exists>i. rq_result_run r = Some i \<and> run_complete sha s i))
    \<and> (\<forall>name. read_published_result name s = None \<longleftrightarrow> name \<notin> ptr_name ` set (fs_pointers s))
    \<and> (\<forall>name i a. read_published_result name s = Some (i, a) \<longrightarrow>
      (\<exists>r. run_of s i = Some r \<and> run_status r = RUN_PUBLISHED \<and> run_result_hash r = res_logical_fingerprint a)
      \<and> (\<forall>payload. sort_keys payload = sort_keys (res_payload a) \<longrightarrow>
          verify_stored_financial_result sha payload (res_logical_fingerprint a) = Inr (res_logical_fingerprint a)))"
proof -
  have ok: "financial_ok sha s" by (rule financial_steps_ok[OF assms financial_ok_empty])
  then have pointers: "\<forall>p \<in> set (fs_pointers s). run_complete sha s (ptr_run p)"
    and requests: "\<forall>r \<in> set (q_requests (fs_queue s)). rq_status r = RQ_SUCCEEDED \<longrightarrow>
      (\<exists>i. rq_result_run r = Some i \<and> run_complete sha s i)"
    by (simp_all add: financial_ok_def)
  have names: "\<forall>name. read_published_result name s = None \<longleftrightarrow> name \<notin> ptr_name ` set (fs_pointers s)"
    using read_published_None[OF pointers] by blast
  have artifacts: "\<forall>name i a. read_published_result name s = Some (i, a) \<longrightarrow>
      (\<exists>r. run_of s i = Some r \<and> run_status r = RUN_PUBLISHED \<and> run_result_hash r = res_logical_fingerprint a)
      \<and> (\<forall>payload. sort_keys payload = sort_keys (res_payload a) \<longrightarrow>
          verify_stored_financial_result sha payload (res_logical_fingerprint a) = Inr (res_logical_fingerprint a))"
  proof (intro allI impI)
    fix name i a
    assume "read_published_result name s = Some (i, a)"
    from read_published_Some[OF this] have a: "result_of s i = Some a" and "run_complete sha s i"
      using pointers by auto
    then show "(\<exists>r. run_of s i = Some r \<and> run_status r = RUN_PUBLISHED \<and> run_result_hash r = res_logical_fingerprint a)
      \<and> (\<forall>payload. sort_keys payload = sort_keys (res_payload a) \<longrightarrow>
          verify_stored_financial_result sha payload (res_logical_fingerprint a) = Inr (res_logical_fingerprint a))"
      by (auto simp: run_complete_def artifact_ok_def)
  qed
  show ?thesis by (intro conjI[OF pointers] conjI[OF requests] conjI[OF names artifacts])
qed

theorem published_results_consistent_witness:
  "\<exists>s. (financial_step zero_digest)\<^sup>*\<^sup>* (empty_state empty_queue no_inputs) s \<and> fs_queue s \<noteq> empty_queue
    \<and> (\<forall>p \<in> set (fs_pointers s). run_complete zero_digest s (ptr_run p))"
proof -
  have e: "enqueue_full_rebuild zero_digest (\<lambda>r. Some ''COMMITTED'') ''r1'' 10 ''x1'' True True ''k'' ''LATE'' (Aware 5) empty_queue
      = Inr (Some ''r1'', empty_queue\<lparr>q_requests := [new_request ''r1'' (zero_digest []) (Some ''x1'') None ''LATE'' 5 10]\<rparr>)"
    by (simp add: enqueue_full_rebuild_def require_def require_aware_utc_def document_fingerprint_def empty_queue_def
        insert_request_def new_request_def request_constraints_def completion_consistent_def int4_def zero_digest_def
        lift_error_def Let_def)
  let ?s = "(empty_state empty_queue no_inputs)\<lparr>fs_queue :=
      empty_queue\<lparr>q_requests := [new_request ''r1'' (zero_digest []) (Some ''x1'') None ''LATE'' 5 10]\<rparr>\<rparr>"
  have "financial_step zero_digest (empty_state empty_queue no_inputs) ?s"
    by (rule financial_step.enqueued[where s = "empty_state empty_queue no_inputs", unfolded empty_state_queue, OF e])
  then have step: "(financial_step zero_digest)\<^sup>*\<^sup>* (empty_state empty_queue no_inputs) ?s" by (rule r_into_rtranclp)
  from published_results_consistent[OF step, THEN conjunct1] step show ?thesis
    by (intro exI[of _ ?s]) (simp add: empty_queue_def)
qed

definition no_hook :: "unit failure_hook" where
  "no_hook h point = (Inr (), h)"



end
