(* ===== verification/Recovery_Behavior.thy ===== *)
theory Recovery_Behavior
  imports Rebuild_Properties
begin

text \<open>
  \<open>recovery_behavior.py\<close>: the advice for a known recovery request, read from the durable state over a
  fresh connection.  Parameters stand for whether the database answers, its clock, what a JSONB column
  makes of a document, and the source tables the query joins.
\<close>

text \<open>The action an operator is advised to take, and what the inspection may refuse to explain.\<close>

datatype recovery_action =
    RETRY_NOW
  | WAIT_FOR_RETRY
  | DO_NOT_REPEAT
  | MANUAL_REQUEUE
  | CHECK_AGAIN
  | INVESTIGATE_MISSING_REQUEST

datatype state_error =
    SourceNotCommitted
  | ResultIncomplete
  | HashesDisagree
  | ArtifactUnverified
  | VersionUnsupported
  | PayloadNotObject
  | FailedInconsistent
  | PendingInconsistent

record recovery_observation =
  ob_request_id :: uuid
  ob_request_status :: "request_status option"
  ob_action :: recovery_action
  ob_attempt_count :: "int option"
  ob_max_attempts :: "int option"
  ob_next_attempt_at :: "instant option"
  ob_result_run :: "uuid option"

text \<open>The two columns of the source tables the query joins: the batch of a receipt and its status.\<close>

record source_links =
  sl_batch_of_receipt :: "uuid \<Rightarrow> uuid option"
  sl_batch_status :: "uuid \<Rightarrow> string option"

definition source_batch_status :: "source_links \<Rightarrow> recovery_request \<Rightarrow> string option" where
  "source_batch_status links r =
     Option.bind (rq_trigger_receipt r) (\<lambda>receipt.
     Option.bind (sl_batch_of_receipt links receipt) (sl_batch_status links))"

definition observed :: "recovery_request \<Rightarrow> recovery_action \<Rightarrow> recovery_observation" where
  "observed r action = \<lparr>ob_request_id = rq_id r, ob_request_status = Some (rq_status r), ob_action = action,
     ob_attempt_count = Some (rq_attempt_count r), ob_max_attempts = Some (rq_max_attempts r),
     ob_next_attempt_at = Some (rq_next_attempt_at r), ob_result_run = rq_result_run r\<rparr>"

definition unexplained :: "uuid \<Rightarrow> recovery_action \<Rightarrow> recovery_observation" where
  "unexplained i action = \<lparr>ob_request_id = i, ob_request_status = None, ob_action = action, ob_attempt_count = None,
     ob_max_attempts = None, ob_next_attempt_at = None, ob_result_run = None\<rparr>"

text \<open>
  The checks of a succeeded request on the joined row; \<open>payload\<close> is the document as its JSONB column
  returns it.
\<close>

definition check_result ::
  "(string \<Rightarrow> string) \<Rightarrow> reconciliation_run option \<Rightarrow> (json \<times> string) option \<Rightarrow> recovery_request \<Rightarrow> state_error + unit" where
  "check_result sha run stored r =
     (case (run, stored) of
        (Some run, Some (payload, stored_hash)) \<Rightarrow>
          bind_result (require (rq_result_run r \<noteq> None \<and> rq_completed_at r \<noteq> None
              \<and> run_status run = RUN_PUBLISHED \<and> payload \<noteq> JNull) ResultIncomplete) (\<lambda>_.
          bind_result (require (run_result_hash run = stored_hash) HashesDisagree) (\<lambda>_.
          bind_result (require (case payload of JObj _ \<Rightarrow> True | _ \<Rightarrow> False) PayloadNotObject) (\<lambda>_.
            if payload_version payload = JInt FINANCIAL_FINGERPRINT_VERSION
            then (case verify_stored_financial_result sha payload stored_hash of
                    Inl _ \<Rightarrow> Inl ArtifactUnverified | Inr _ \<Rightarrow> Inr ())
            else require (payload_version payload = JInt 1) VersionUnsupported)))
      | _ \<Rightarrow> Inl ResultIncomplete)"

definition inspect_recovery ::
  "(string \<Rightarrow> string) \<Rightarrow> (json \<Rightarrow> json) \<Rightarrow> source_links \<Rightarrow> bool \<Rightarrow> instant \<Rightarrow> financial_state \<Rightarrow> uuid
     \<Rightarrow> state_error + recovery_observation" where
  "inspect_recovery sha jsonb links reachable now s i =
     (if \<not> reachable then Inr (unexplained i CHECK_AGAIN)
      else case find_request i (fs_queue s) of
        None \<Rightarrow> Inr (unexplained i INVESTIGATE_MISSING_REQUEST)
      | Some r \<Rightarrow>
          bind_result (require (source_batch_status links r = Some ''COMMITTED'') SourceNotCommitted) (\<lambda>_.
            case rq_status r of
              RQ_SUCCEEDED \<Rightarrow>
                bind_result (check_result sha (Option.bind (rq_result_run r) (run_of s))
                    (map_option (\<lambda>a. (jsonb (res_payload a), res_logical_fingerprint a))
                      (Option.bind (rq_result_run r) (result_of s))) r)
                  (\<lambda>_. Inr (observed r DO_NOT_REPEAT))
            | RQ_FAILED \<Rightarrow>
                bind_result (require (rq_result_run r = None \<and> rq_completed_at r \<noteq> None \<and> rq_last_error r \<noteq> None)
                    FailedInconsistent)
                  (\<lambda>_. Inr (observed r MANUAL_REQUEUE))
            | RQ_PENDING \<Rightarrow>
                bind_result (require (rq_result_run r = None \<and> rq_completed_at r = None
                    \<and> rq_attempt_count r < rq_max_attempts r) PendingInconsistent)
                  (\<lambda>_. Inr (observed r (if rq_next_attempt_at r \<le> now then RETRY_NOW else WAIT_FOR_RETRY)))))"

subsection \<open>Properties\<close>

lemma verified_version:
  "verify_stored_financial_result sha payload h = Inr h' \<Longrightarrow>
    payload_version payload = JInt FINANCIAL_FINGERPRINT_VERSION \<and> (\<exists>kvs. payload = JObj kvs)"
  by (cases payload) (auto simp: verify_stored_financial_result_def payload_version_def sections_of_def
      FINANCIAL_FINGERPRINT_VERSION_def dict_get_def split: if_splits)

lemma complete_result_checks:
  assumes "run_complete sha s i" "rq_result_run r = Some i" "rq_completed_at r \<noteq> None"
    and "\<And>j. sort_keys (jsonb j) = sort_keys j"
  shows "check_result sha (run_of s i) (map_option (\<lambda>a. (jsonb (res_payload a), res_logical_fingerprint a)) (result_of s i)) r
    = Inr ()"
proof -
  obtain run a where c: "run_of s i = Some run" "result_of s i = Some a" "run_status run = RUN_PUBLISHED"
    "run_result_hash run = res_logical_fingerprint a" "artifact_ok sha a"
    using assms(1) unfolding run_complete_def by blast
  have v: "verify_stored_financial_result sha (jsonb (res_payload a)) (res_logical_fingerprint a) = Inr (res_logical_fingerprint a)"
    using c(5) assms(4) unfolding artifact_ok_def by blast
  from verified_version[OF v] obtain kvs where "jsonb (res_payload a) = JObj kvs"
    "payload_version (jsonb (res_payload a)) = JInt FINANCIAL_FINGERPRINT_VERSION" by blast
  with c v assms(2,3) show ?thesis by (simp add: check_result_def require_def)
qed

text \<open>C35: An inspection of any reachable state never contradicts it: a request that was triggered by a committed receipt
  is never reported as inconsistent, RETRY_NOW is advised exactly when the queue would serve the request, repeating is
  ruled out exactly after success and requeueing is advised exactly after the last failure.  A request that names no
  receipt, as the ingestion of an empty report enqueues it, is always refused with an error.\<close>

theorem inspection_decided:
  assumes "(financial_step sha)\<^sup>*\<^sup>* (empty_state empty_queue inputs) s"
    and "find_request i (fs_queue s) = Some r" and "\<And>j. sort_keys (jsonb j) = sort_keys j"
  shows "(source_batch_status links r = Some ''COMMITTED'' \<longrightarrow> (\<exists>ob. inspect_recovery sha jsonb links True now s i = Inr ob
      \<and> ob_request_id ob = i \<and> ob_request_status ob = Some (rq_status r) \<and> ob_result_run ob = rq_result_run r
      \<and> (ob_action ob = RETRY_NOW \<longleftrightarrow> request_ready now [] r)
      \<and> (ob_action ob = WAIT_FOR_RETRY \<longleftrightarrow> rq_status r = RQ_PENDING \<and> now < rq_next_attempt_at r)
      \<and> (ob_action ob = DO_NOT_REPEAT \<longleftrightarrow> rq_status r = RQ_SUCCEEDED)
      \<and> (ob_action ob = MANUAL_REQUEUE \<longleftrightarrow> rq_status r = RQ_FAILED)
      \<and> ob_action ob \<notin> {CHECK_AGAIN, INVESTIGATE_MISSING_REQUEST}))
    \<and> (rq_trigger_receipt r = None \<longrightarrow> inspect_recovery sha jsonb links True now s i = Inl SourceNotCommitted)"
proof -
  have ok: "financial_ok sha s" by (rule financial_steps_ok[OF assms(1) financial_ok_empty])
  have q: "queue_ok (fs_queue s)" using ok by (simp add: financial_ok_def)
  note r = queue_ok_request(1,2)[OF q assms(2)]
  have c: "completion_consistent r" "rq_status r = RQ_PENDING \<Longrightarrow> rq_attempt_count r < rq_max_attempts r"
    using r(2) by (simp_all add: request_constraints_def)
  have member: "r \<in> set (q_requests (fs_queue s))" using find_request_Some[OF assms(2)] by simp
  have inspected: "\<exists>ob. inspect_recovery sha jsonb links True now s i = Inr ob
      \<and> ob_request_id ob = i \<and> ob_request_status ob = Some (rq_status r) \<and> ob_result_run ob = rq_result_run r
      \<and> (ob_action ob = RETRY_NOW \<longleftrightarrow> request_ready now [] r)
      \<and> (ob_action ob = WAIT_FOR_RETRY \<longleftrightarrow> rq_status r = RQ_PENDING \<and> now < rq_next_attempt_at r)
      \<and> (ob_action ob = DO_NOT_REPEAT \<longleftrightarrow> rq_status r = RQ_SUCCEEDED)
      \<and> (ob_action ob = MANUAL_REQUEUE \<longleftrightarrow> rq_status r = RQ_FAILED)
      \<and> ob_action ob \<notin> {CHECK_AGAIN, INVESTIGATE_MISSING_REQUEST}"
    if link: "source_batch_status links r = Some ''COMMITTED''"
  proof (cases "rq_status r")
    case RQ_PENDING
    then show ?thesis using c link assms(2) r(1)
      by (auto simp: inspect_recovery_def require_def observed_def completion_consistent_def request_ready_def)
  next
    case RQ_SUCCEEDED
    then obtain run where run: "rq_result_run r = Some run" "run_complete sha s run" "rq_completed_at r \<noteq> None"
      using ok member c(1) by (auto simp: financial_ok_def completion_consistent_def)
    with complete_result_checks[OF run(2,1,3) assms(3)] RQ_SUCCEEDED link assms(2) r(1) show ?thesis
      by (simp add: inspect_recovery_def require_def observed_def request_ready_def)
  next
    case RQ_FAILED
    then show ?thesis using c link assms(2) r(1)
      by (auto simp: inspect_recovery_def require_def observed_def completion_consistent_def request_ready_def)
  qed
  have unlinked: "inspect_recovery sha jsonb links True now s i = Inl SourceNotCommitted" if "rq_trigger_receipt r = None"
    using that assms(2) by (simp add: inspect_recovery_def source_batch_status_def require_def)
  show ?thesis by (rule conjI[OF impI[OF inspected] impI[OF unlinked]])
qed

definition report_request :: recovery_request where
  "report_request = new_request ''r1'' ''k'' None (Some ''b1'') ''SOURCE_REPORT_AVAILABLE'' 5 10"

definition row_request :: recovery_request where
  "row_request = new_request ''r2'' ''k2'' (Some ''x1'') (Some ''b2'') ''SOURCE_REPORT_AVAILABLE'' 5 10"

theorem inspection_decided_witness:
  "\<exists>links s ob. inspect_recovery zero_digest (\<lambda>j. j) links True 50 s ''r1'' = Inl SourceNotCommitted
    \<and> inspect_recovery zero_digest (\<lambda>j. j) links True 50 s ''r2'' = Inr ob \<and> ob_action ob = RETRY_NOW"
proof -
  let ?links = "\<lparr>sl_batch_of_receipt = (\<lambda>x. Some ''b2''), sl_batch_status = (\<lambda>b. Some ''COMMITTED'')\<rparr>"
  let ?s0 = "empty_state empty_queue no_inputs"
  let ?s1 = "?s0\<lparr>fs_queue := empty_queue\<lparr>q_requests := [report_request]\<rparr>, fs_inputs := no_inputs\<rparr>"
  let ?s2 = "?s1\<lparr>fs_queue := empty_queue\<lparr>q_requests := [report_request, row_request]\<rparr>, fs_inputs := no_inputs\<rparr>"
  note defs = insert_request_def require_def request_constraints_def completion_consistent_def int4_def
    new_request_def empty_queue_def empty_state_def report_request_def row_request_def
  have "financial_step zero_digest ?s0 ?s1"
    by (rule financial_step.delivered[of "''r1''" "''k''" None "''b1''" "''SOURCE_REPORT_AVAILABLE''" 5 10]) (simp add: defs)
  moreover have "financial_step zero_digest ?s1 ?s2"
    by (rule financial_step.delivered[of "''r2''" "''k2''" "Some ''x1''" "''b2''" "''SOURCE_REPORT_AVAILABLE''" 5 10]) (simp add: defs)
  ultimately have reach: "(financial_step zero_digest)\<^sup>*\<^sup>* ?s0 ?s2" by auto
  have found: "find_request ''r1'' (fs_queue ?s2) = Some report_request" "find_request ''r2'' (fs_queue ?s2) = Some row_request"
    by (simp_all add: find_request_def defs)
  have rows: "rq_trigger_receipt report_request = None" "source_batch_status ?links row_request = Some ''COMMITTED''"
    "request_ready 50 [] row_request"
    by (simp_all add: source_batch_status_def request_ready_def report_request_def row_request_def new_request_def)
  show ?thesis
    using inspection_decided[OF reach found(1) refl, of ?links 50] rows(1)
      inspection_decided[OF reach found(2) refl, of ?links 50] rows(2,3) by auto
qed

end
