(* ===== verification/Lock_Discipline.thy ===== *)
theory Lock_Discipline
  imports Prelude
begin

text \<open>
  Transactions that wait for advisory locks: the interleavings of any number of them, and two
  disciplines under which they never deadlock.
\<close>

subsection \<open>Transactions that wait for locks\<close>

text \<open>
  A transaction acquires the locks of its plan in turn, each when no other transaction holds it, and
  gives all of them back when it ends; it may also be rolled back at any moment.
\<close>

record 'l session =
  wanted :: "'l list"
  held :: "'l list"
  finished :: bool

definition started :: "'l list list \<Rightarrow> 'l session list" where
  "started = map (\<lambda>p. \<lparr>wanted = p, held = [], finished = False\<rparr>)"

definition ended :: "'l session" where
  "ended = \<lparr>wanted = [], held = [], finished = True\<rparr>"

definition may_acquire :: "'l session list \<Rightarrow> nat \<Rightarrow> 'l \<Rightarrow> bool" where
  "may_acquire c i l = (\<forall>j < length c. j \<noteq> i \<longrightarrow> l \<notin> set (held (c ! j)))"

inductive lock_step :: "'l session list \<Rightarrow> 'l session list \<Rightarrow> bool" where
  acquire: "i < length c \<Longrightarrow> \<not> finished (c ! i) \<Longrightarrow> wanted (c ! i) = l # ls \<Longrightarrow> may_acquire c i l \<Longrightarrow>
    lock_step c (c[i := \<lparr>wanted = ls, held = l # held (c ! i), finished = False\<rparr>])"
| commit: "i < length c \<Longrightarrow> \<not> finished (c ! i) \<Longrightarrow> wanted (c ! i) = [] \<Longrightarrow> lock_step c (c[i := ended])"

inductive session_step :: "'l session list \<Rightarrow> 'l session list \<Rightarrow> bool" where
  progress: "lock_step c c' \<Longrightarrow> session_step c c'"
| rollback: "i < length c \<Longrightarrow> \<not> finished (c ! i) \<Longrightarrow> session_step c (c[i := ended])"

inductive_cases lock_stepE: "lock_step c c'"
inductive_cases session_stepE: "session_step c c'"

definition session_work :: "'l session \<Rightarrow> nat" where
  "session_work s = (if finished s then 0 else Suc (length (wanted s)))"

definition pending_work :: "'l session list \<Rightarrow> nat" where
  "pending_work c = sum_list (map session_work c)"

lemma pending_work_update:
  "i < length c \<Longrightarrow> session_work s < session_work (c ! i) \<Longrightarrow> pending_work (c[i := s]) < pending_work c"
proof (induction c arbitrary: i)
  case (Cons x c)
  then show ?case by (cases i) (auto simp: pending_work_def)
qed simp

lemma session_step_decreases: "session_step c c' \<Longrightarrow> pending_work c' < pending_work c"
  by (erule session_stepE; (erule lock_stepE)?) (auto intro!: pending_work_update simp: ended_def session_work_def)

lemma session_steps_bounded: "(session_step ^^ n) c c' \<Longrightarrow> n \<le> pending_work c"
proof (induction n arbitrary: c')
  case (Suc n)
  have "n + pending_work c' \<le> pending_work c" if "(session_step ^^ n) c c'" for n c'
    using that
  proof (induction n arbitrary: c')
    case (Suc n)
    then obtain d where "(session_step ^^ n) c d" "session_step d c'" by auto
    with Suc.IH[of d] session_step_decreases[of d c'] show ?case by simp
  qed simp
  from this[OF Suc.prems] show ?case by simp
qed simp

text \<open>No two transactions ever hold the same lock, and one that has ended holds nothing.\<close>

definition exclusive :: "'l session list \<Rightarrow> bool" where
  "exclusive c = ((\<forall>i < length c. \<forall>j < length c. i \<noteq> j \<longrightarrow> set (held (c ! i)) \<inter> set (held (c ! j)) = {})
     \<and> (\<forall>i < length c. finished (c ! i) \<longrightarrow> held (c ! i) = []))"

lemma exclusive_started: "exclusive (started ps)"
  by (simp add: exclusive_def started_def)

lemma exclusive_ended: "exclusive c \<Longrightarrow> i < length c \<Longrightarrow> exclusive (c[i := ended])"
  by (auto simp: exclusive_def nth_list_update ended_def)

lemma exclusive_step: "session_step c c' \<Longrightarrow> exclusive c \<Longrightarrow> exclusive c'"
proof (erule session_stepE; (erule lock_stepE)?)
  fix i l ls
  assume c: "exclusive c" "i < length c" "may_acquire c i l"
    and c': "c' = c[i := \<lparr>wanted = ls, held = l # held (c ! i), finished = False\<rparr>]"
  have "set (held (c' ! a)) \<inter> set (held (c' ! b)) = {}" if "a < length c" "b < length c" "a \<noteq> b" for a b
    using c that by (auto simp: c' nth_list_update exclusive_def may_acquire_def)
  moreover have "held (c' ! a) = []" if "a < length c" "finished (c' ! a)" for a
    using c that by (auto simp: c' nth_list_update exclusive_def split: if_splits)
  ultimately show "exclusive c'" by (simp add: exclusive_def c')
qed (auto intro: exclusive_ended)

text \<open>The promise of a locking discipline: some transaction that has not ended can always go on.\<close>

definition stuck :: "'l session list \<Rightarrow> bool" where
  "stuck c = ((\<exists>s \<in> set c. \<not> finished s) \<and> (\<forall>c'. \<not> lock_step c c'))"

locale deadlock_free =
  fixes admitted :: "'l list \<Rightarrow> bool"
  assumes not_stuck: "list_all admitted ps \<Longrightarrow> session_step\<^sup>*\<^sup>* (started ps) c \<Longrightarrow> \<not> stuck c"
begin

lemma completes:
  assumes "list_all admitted ps" "session_step\<^sup>*\<^sup>* (started ps) c"
  shows "\<exists>c'. lock_step\<^sup>*\<^sup>* c c' \<and> (\<forall>s \<in> set c'. finished s)"
  using assms(2)
proof (induction "pending_work c" arbitrary: c rule: less_induct)
  case less
  show ?case
  proof (cases "\<forall>s \<in> set c. finished s")
    case False
    then obtain c1 where c1: "lock_step c c1" using not_stuck[OF assms(1) less.prems] by (auto simp: stuck_def)
    then have s: "session_step c c1" by (rule session_step.progress)
    with less.prems have "session_step\<^sup>*\<^sup>* (started ps) c1" by simp
    from less.hyps[OF session_step_decreases[OF s] this] c1 show ?thesis
      by (meson converse_rtranclp_into_rtranclp)
  qed blast
qed

end

text \<open>A transaction that can go on, from what the others hold.\<close>

lemma lock_step_exists:
  assumes "i < length c" "\<not> finished (c ! i)" "\<And>l. wanted (c ! i) \<noteq> [] \<Longrightarrow> l = hd (wanted (c ! i)) \<Longrightarrow> may_acquire c i l"
  shows "\<not> stuck c"
proof (cases "wanted (c ! i)")
  case Nil
  with assms show ?thesis by (auto simp: stuck_def intro: lock_step.commit)
next
  case (Cons l ls)
  with lock_step.acquire[OF assms(1,2) Cons] assms(3) show ?thesis by (auto simp: stuck_def)
qed

subsection \<open>Two disciplines\<close>

text \<open>Every plan takes its locks in a common strict order.\<close>

locale ordered_plans =
  fixes admitted :: "'l list \<Rightarrow> bool" and rank :: "'l \<Rightarrow> 'r::linorder"
  assumes ascending: "admitted p \<Longrightarrow> sorted_wrt (\<lambda>a b. rank a < rank b) p"
begin

definition in_order :: "'l session list \<Rightarrow> bool" where
  "in_order c = (\<forall>s \<in> set c. sorted_wrt (\<lambda>a b. rank a < rank b) (rev (held s) @ wanted s))"

lemma in_order_step: "session_step c c' \<Longrightarrow> in_order c \<Longrightarrow> in_order c'"
proof (erule session_stepE; (erule lock_stepE)?)
  fix i l ls
  assume c: "in_order c" "i < length c" "wanted (c ! i) = l # ls"
    and c': "c' = c[i := \<lparr>wanted = ls, held = l # held (c ! i), finished = False\<rparr>]"
  have "sorted_wrt (\<lambda>a b. rank a < rank b) (rev (held (c ! i)) @ wanted (c ! i))"
    using c(1,2) by (simp add: in_order_def)
  then show "in_order c'"
    using c set_update_subset_insert[of c i "\<lparr>wanted = ls, held = l # held (c ! i), finished = False\<rparr>"]
    by (auto simp: in_order_def c')
qed (auto simp: in_order_def ended_def dest!: set_update_subset_insert[THEN subsetD])

lemma in_order_reachable:
  "session_step\<^sup>*\<^sup>* (started ps) c \<Longrightarrow> list_all admitted ps \<Longrightarrow> in_order c \<and> exclusive c"
proof (induction rule: rtranclp_induct)
  case base
  then show ?case using ascending exclusive_started by (auto simp: in_order_def started_def list_all_iff)
next
  case (step y z)
  then show ?case using in_order_step exclusive_step by blast
qed

lemma highest_waits:
  assumes c: "in_order c" "exclusive c" and "i < length c" "\<not> finished (c ! i)" "wanted (c ! i) \<noteq> []"
    and top: "\<And>j. j < length c \<Longrightarrow> \<not> finished (c ! j) \<Longrightarrow> wanted (c ! j) \<noteq> [] \<Longrightarrow>
      rank (hd (wanted (c ! j))) \<le> rank (hd (wanted (c ! i)))"
    and all: "\<And>j. j < length c \<Longrightarrow> \<not> finished (c ! j) \<Longrightarrow> wanted (c ! j) \<noteq> []"
  shows "may_acquire c i (hd (wanted (c ! i)))"
proof (unfold may_acquire_def, intro allI impI notI)
  fix j
  let ?l = "hd (wanted (c ! i))"
  assume j: "j < length c" "j \<noteq> i" "?l \<in> set (held (c ! j))"
  then have "\<not> finished (c ! j)" using c(2) by (auto simp: exclusive_def)
  moreover from this all j(1) obtain m ms where m: "wanted (c ! j) = m # ms" by (cases "wanted (c ! j)") auto
  moreover have "sorted_wrt (\<lambda>a b. rank a < rank b) (rev (held (c ! j)) @ m # ms)"
    using c(1) j(1) m by (metis in_order_def nth_mem)
  then have "rank ?l < rank m" using j(3) by (simp add: sorted_wrt_append)
  ultimately show False using top[OF j(1)] by fastforce
qed

lemma ordered_not_stuck:
  assumes "list_all admitted ps" "session_step\<^sup>*\<^sup>* (started ps) c"
  shows "\<not> stuck c"
proof (cases "\<exists>i < length c. \<not> finished (c ! i) \<and> wanted (c ! i) = []")
  case True
  then obtain i where "i < length c" "\<not> finished (c ! i)" "wanted (c ! i) = []" by blast
  then show ?thesis by (intro lock_step_exists[of i]) simp_all
next
  case False
  let ?waiting = "{i. i < length c \<and> \<not> finished (c ! i)}"
  show ?thesis
  proof (cases "?waiting = {}")
    case True
    then have "finished s" if "s \<in> set c" for s using that by (auto simp: in_set_conv_nth)
    then show ?thesis by (simp add: stuck_def)
  next
    case some: False
    let ?ranks = "(\<lambda>i. rank (hd (wanted (c ! i)))) ` ?waiting"
    have "Max ?ranks \<in> ?ranks" using some by (intro Max_in) auto
    then obtain i where i: "i < length c" "\<not> finished (c ! i)" "rank (hd (wanted (c ! i))) = Max ?ranks" by auto
    have "rank (hd (wanted (c ! j))) \<le> rank (hd (wanted (c ! i)))" if "j < length c" "\<not> finished (c ! j)" for j
      unfolding i(3) using that by (intro Max_ge) auto
    then have "may_acquire c i (hd (wanted (c ! i)))"
      using in_order_reachable[OF assms(2,1)] i False by (intro highest_waits) auto
    with i(1,2) show ?thesis by (intro lock_step_exists) auto
  qed
qed

end

sublocale ordered_plans \<subseteq> deadlock_free admitted
  by unfold_locales (rule ordered_not_stuck)

text \<open>Every plan begins with the same lock, whatever comes after it.\<close>

locale gated_plans =
  fixes admitted :: "'l list \<Rightarrow> bool" and gate :: 'l
  assumes opens: "admitted p \<Longrightarrow> \<exists>ls. p = gate # ls"
begin

definition behind_gate :: "'l session list \<Rightarrow> bool" where
  "behind_gate c = (\<forall>s \<in> set c. held s \<noteq> [] \<longrightarrow> gate \<in> set (held s))"

definition before_gate :: "'l session list \<Rightarrow> bool" where
  "before_gate c = (\<forall>s \<in> set c. \<not> finished s \<and> held s = [] \<longrightarrow> (\<exists>ls. wanted s = gate # ls))"

lemma gate_step:
  "session_step c c' \<Longrightarrow> behind_gate c \<and> before_gate c \<Longrightarrow> behind_gate c' \<and> before_gate c'"
proof (erule session_stepE; (erule lock_stepE)?)
  fix i l ls
  assume c: "behind_gate c \<and> before_gate c" "i < length c" "\<not> finished (c ! i)" "wanted (c ! i) = l # ls"
    and c': "c' = c[i := \<lparr>wanted = ls, held = l # held (c ! i), finished = False\<rparr>]"
  have "held (c ! i) = [] \<longrightarrow> l = gate" "held (c ! i) \<noteq> [] \<longrightarrow> gate \<in> set (held (c ! i))"
    using c by (auto simp: behind_gate_def before_gate_def)
  then show "behind_gate c' \<and> before_gate c'"
    using c(1) unfolding c' behind_gate_def before_gate_def
    by (auto dest!: set_update_subset_insert[THEN subsetD])
qed (auto simp: behind_gate_def before_gate_def ended_def dest!: set_update_subset_insert[THEN subsetD])

lemma gate_reachable:
  "session_step\<^sup>*\<^sup>* (started ps) c \<Longrightarrow> list_all admitted ps \<Longrightarrow> (behind_gate c \<and> before_gate c) \<and> exclusive c"
proof (induction rule: rtranclp_induct)
  case base
  then show ?case using opens exclusive_started
    by (auto simp: behind_gate_def before_gate_def started_def list_all_iff)
next
  case (step y z)
  then show ?case using gate_step exclusive_step by blast
qed

lemma gated_not_stuck:
  assumes "list_all admitted ps" "session_step\<^sup>*\<^sup>* (started ps) c"
  shows "\<not> stuck c"
proof (cases "\<exists>i < length c. held (c ! i) \<noteq> []")
  case True
  then obtain i where i: "i < length c" "held (c ! i) \<noteq> []" by blast
  note inv = gate_reachable[OF assms(2,1)]
  have gate: "held (c ! j) \<noteq> [] \<Longrightarrow> gate \<in> set (held (c ! j))" if "j < length c" for j
    using inv that by (simp add: behind_gate_def)
  have "held (c ! j) = []" if "j < length c" "j \<noteq> i" for j
    using inv gate[OF that(1)] gate[OF i(1)] i that unfolding exclusive_def by blast
  moreover have "\<not> finished (c ! i)" using inv i by (auto simp: exclusive_def)
  ultimately show ?thesis using i(1) by (intro lock_step_exists) (auto simp: may_acquire_def)
next
  case False
  then have go: "\<not> stuck c" if "\<not> finished (c ! i)" "i < length c" for i
    using that by (intro lock_step_exists[of i]) (auto simp: may_acquire_def)
  show ?thesis
  proof
    assume "stuck c"
    then obtain i where "i < length c" "\<not> finished (c ! i)" by (auto simp: stuck_def in_set_conv_nth)
    with go \<open>stuck c\<close> show False by blast
  qed
qed

end

sublocale gated_plans \<subseteq> deadlock_free admitted
  by unfold_locales (rule gated_not_stuck)

end
