(* ===== verification/Entity_Locks.thy ===== *)
theory Entity_Locks
  imports Lock_Discipline Recovery_Fingerprint Recovery_Queue "HOL-Library.Word"
begin

text \<open>
  \<open>entity_locks.py\<close>: the locks of a transaction over source entities, their order and numbers, and
  the transactions of the program as plans of the locking discipline.
\<close>

unbundle bit_operations_syntax

subsection \<open>Entity keys\<close>

definition ENTITY_LOCK_NAMESPACE :: int where
  "ENTITY_LOCK_NAMESPACE = 740033"

definition ENTITY_ORDER :: "entity_type list" where
  "ENTITY_ORDER = [ET_ORDER, ET_FEE, ET_PAYMENT, ET_PAYOUT, ET_REFUND, ET_SETTLEMENT_LINE]"

definition ENTITY_RANK :: "(string \<times> nat) list" where
  "ENTITY_RANK = zip (map entity_type_value ENTITY_ORDER) [0..<length ENTITY_ORDER]"

type_synonym entity_key = "string \<times> string"

text \<open>What a caller may pass: an enum member or a text, and a source identifier of any type.\<close>

datatype raw_entity_type = TypeMember entity_type | TypeText string

datatype raw_source_id = IdText string | IdOther

datatype lock_error = EntityTypeUnknown string | SourceIdNotCanonical | LocksNeedTransaction

definition normalize_entity_key :: "raw_entity_type \<times> raw_source_id \<Rightarrow> lock_error + entity_key" where
  "normalize_entity_key key = (case key of (entity_type, source_id) \<Rightarrow>
     bind_result (case entity_type of
         TypeMember t \<Rightarrow> Inr t
       | TypeText s \<Rightarrow> (case enum_lookup entity_type_value entity_type_members s of
             None \<Rightarrow> Inl (EntityTypeUnknown s) | Some t \<Rightarrow> Inr t)) (\<lambda>normalized_type.
     case source_id of
       IdText s \<Rightarrow> if canonical_text s then Inr (entity_type_value normalized_type, s) else Inl SourceIdNotCanonical
     | IdOther \<Rightarrow> Inl SourceIdNotCanonical))"

text \<open>The sort key of a key that has already been normalised; its type has a rank.\<close>

definition entity_sort_key :: "entity_key \<Rightarrow> nat \<times> string" where
  "entity_sort_key key = (the (map_of ENTITY_RANK (fst key)), snd key)"

definition ordered_entity_keys :: "(raw_entity_type \<times> raw_source_id) list \<Rightarrow> lock_error + entity_key list" where
  "ordered_entity_keys keys =
     bind_result (map_result normalize_entity_key keys) (\<lambda>normalized.
       Inr (sort_key entity_sort_key (remdups normalized)))"

subsection \<open>Lock numbers\<close>

text \<open>
  The first four bytes of the digest of the key's JSON text, read as a signed big-endian integer; the
  digest function is a parameter that maps a text to its bytes.
\<close>

definition be_word :: "8 word list \<Rightarrow> 32 word" where
  "be_word bs = foldl (\<lambda>w b. push_bit 8 w OR ucast b) 0 bs"

definition entity_lock_number :: "(string \<Rightarrow> 8 word list) \<Rightarrow> entity_key \<Rightarrow> int" where
  "entity_lock_number digest key =
     sint (be_word (take 4 (digest (utf8 (json_dumps (JArr [JStr (fst key), JStr (snd key)]))))))"

text \<open>The advisory locks of the database: one space of single numbers, one of pairs.\<close>

datatype advisory_lock = SingleLock int | PairLock int int

definition FINANCIAL_STATE_LOCK :: int where
  "FINANCIAL_STATE_LOCK = 740031"

definition lock_financial_state :: "advisory_lock list" where
  "lock_financial_state = [SingleLock FINANCIAL_STATE_LOCK]"

text \<open>The locks a transaction asks for, in the order it asks.\<close>

definition acquire_entity_locks ::
  "(string \<Rightarrow> 8 word list) \<Rightarrow> bool \<Rightarrow> (raw_entity_type \<times> raw_source_id) list
     \<Rightarrow> lock_error + (advisory_lock list \<times> entity_key list)" where
  "acquire_entity_locks digest in_transaction keys =
     bind_result (require in_transaction LocksNeedTransaction) (\<lambda>_.
     bind_result (ordered_entity_keys keys) (\<lambda>ordered.
       Inr (map (\<lambda>key. PairLock ENTITY_LOCK_NAMESPACE (entity_lock_number digest key)) ordered, ordered)))"

subsection \<open>The order of the keys\<close>

lemma canonical_key_rank:
  "normalize_entity_key k = Inr key \<Longrightarrow> \<exists>t. fst key = entity_type_value t \<and> canonical_text (snd key)"
proof -
  assume k: "normalize_entity_key k = Inr key"
  obtain t s where ts: "k = (t, s)" by (cases k)
  with k show ?thesis
    by (cases s; cases t) (auto simp: normalize_entity_key_def result_simps split: option.splits if_splits)
qed

lemma entity_rank_inject:
  "map_of ENTITY_RANK (entity_type_value t) = map_of ENTITY_RANK (entity_type_value u) \<longleftrightarrow> t = u"
  by (cases t; cases u) (simp_all add: ENTITY_RANK_def ENTITY_ORDER_def)

lemma entity_rank_Some: "\<exists>n. map_of ENTITY_RANK (entity_type_value t) = Some n"
  by (cases t) (simp_all add: ENTITY_RANK_def ENTITY_ORDER_def)

lemma entity_sort_key_inj:
  assumes "\<forall>k \<in> K. \<exists>t. fst k = entity_type_value t"
  shows "inj_on entity_sort_key K"
proof (rule inj_onI)
  fix a b
  assume ab: "a \<in> K" "b \<in> K" "entity_sort_key a = entity_sort_key b"
  then obtain t u where tu: "fst a = entity_type_value t" "fst b = entity_type_value u" using assms by blast
  obtain m n where "map_of ENTITY_RANK (entity_type_value t) = Some m" "map_of ENTITY_RANK (entity_type_value u) = Some n"
    using entity_rank_Some by meson
  with ab(3) tu have "t = u" by (metis (no_types) entity_rank_inject entity_sort_key_def option.sel prod.inject)
  with ab(3) tu show "a = b" by (simp add: entity_sort_key_def prod_eq_iff)
qed

lemma sorted_strict:
  assumes "distinct xs" "inj_on f (set xs)" "sorted (map f xs)"
  shows "sorted_wrt (\<lambda>a b. f a < f b) xs"
  using assms
proof (induction xs)
  case (Cons x xs)
  have "f x < f y" if "y \<in> set xs" for y
  proof -
    have "f x \<noteq> f y" using Cons.prems(1,2) that by (auto dest: inj_onD)
    then show ?thesis using Cons.prems(3) that by (simp add: order_less_le)
  qed
  with Cons show ?case by simp
qed simp

lemma strict_sorted_unique:
  assumes "sorted_wrt (\<lambda>a b. (f a :: 'b :: linorder) < f b) xs" "sorted_wrt (\<lambda>a b. f a < f b) ys" "set ys = set xs"
  shows "ys = xs"
proof -
  have d: "distinct (map f zs)" "sorted (map f zs)" if "sorted_wrt (\<lambda>a b. f a < f b) zs" for zs
    using that by (induction zs) (auto simp: less_imp_le)
  have "map f ys = map f xs"
    using d[OF assms(1)] d[OF assms(2)] assms(3) by (intro sorted_distinct_set_unique) auto
  moreover have "inj_on f (set ys \<union> set xs)" using d(1)[OF assms(1)] assms(3) by (simp add: distinct_map)
  ultimately show ?thesis by (rule map_inj_on)
qed

lemma map_result_set: "map_result f xs = Inr ys \<Longrightarrow> set ys = {y. \<exists>x \<in> set xs. f x = Inr y}"
  unfolding map_result_Inr_iff by (induction rule: list_all2_induct) auto

lemma ordered_entity_keys_facts:
  assumes "ordered_entity_keys keys = Inr ordered"
  shows "set ordered = {k. \<exists>r \<in> set keys. normalize_entity_key r = Inr k}"
    and "sorted_wrt (\<lambda>a b. entity_sort_key a < entity_sort_key b) ordered"
proof -
  obtain ks where ks: "map_result normalize_entity_key keys = Inr ks" "ordered = sort_key entity_sort_key (remdups ks)"
    using assms by (auto simp: ordered_entity_keys_def result_simps)
  have "set ks = {k. \<exists>r \<in> set keys. normalize_entity_key r = Inr k}"
    using map_result_set[OF ks(1)] by auto
  then show members: "set ordered = {k. \<exists>r \<in> set keys. normalize_entity_key r = Inr k}" by (simp add: ks(2))
  have "inj_on entity_sort_key (set ordered)"
    unfolding members using canonical_key_rank by (intro entity_sort_key_inj) blast
  then show "sorted_wrt (\<lambda>a b. entity_sort_key a < entity_sort_key b) ordered"
    by (intro sorted_strict) (simp_all add: ks(2))
qed

subsection \<open>The plans of the program's transactions\<close>

text \<open>
  Every financial transaction first locks the financial state; an ingestion then takes the locks of the
  entities of its delivery, whose collisions are harmless because no other transaction is behind the
  gate.
\<close>

definition transaction_plan :: "(string \<Rightarrow> 8 word list) \<Rightarrow> advisory_lock list \<Rightarrow> bool" where
  "transaction_plan digest p = (p = lock_financial_state
     \<or> (\<exists>keys locks ordered. acquire_entity_locks digest True keys = Inr (locks, ordered) \<and> p = lock_financial_state @ locks))"

interpretation transactions: gated_plans "transaction_plan digest" "SingleLock FINANCIAL_STATE_LOCK" for digest
  by unfold_locales (auto simp: transaction_plan_def lock_financial_state_def)

text \<open>Were every entity to have a lock of its own, the order of the keys alone would suffice.\<close>

definition entity_plan :: "entity_key list \<Rightarrow> bool" where
  "entity_plan p = (\<exists>keys. ordered_entity_keys keys = Inr p)"

interpretation entities: ordered_plans entity_plan entity_sort_key
  by unfold_locales (auto simp: entity_plan_def intro: ordered_entity_keys_facts)

lemma entity_keys_suffice:
  "list_all entity_plan ps \<Longrightarrow> session_step\<^sup>*\<^sup>* (started ps) c \<Longrightarrow> \<not> stuck c"
  by (rule entities.ordered_not_stuck)

text \<open>
  Numbers are shared, though: two entities whose digests begin alike have one lock, and three of them
  can be asked for in a cycle.  The two plans below are ascending in their keys and deadlock.
\<close>

lemma collision_deadlocks:
  assumes "a \<noteq> (b :: 'l)"
  shows "\<exists>c. session_step\<^sup>*\<^sup>* (started [[a, b], [b, a]]) c \<and> stuck c"
proof -
  let ?s1 = "[\<lparr>wanted = [b], held = [a], finished = False\<rparr>, \<lparr>wanted = [b, a], held = [], finished = False\<rparr>]"
  let ?s2 = "[\<lparr>wanted = [b], held = [a], finished = False\<rparr>, \<lparr>wanted = [a], held = [b], finished = False\<rparr>]"
  have "lock_step (started [[a, b], [b, a]]) ?s1"
    using lock_step.acquire[of 0 "started [[a, b], [b, a]]" a "[b]"]
    by (simp add: started_def may_acquire_def less_Suc_eq)
  moreover have "lock_step ?s1 ?s2"
    using lock_step.acquire[of 1 ?s1 b "[a]"] assms by (simp add: may_acquire_def less_Suc_eq)
  ultimately have "session_step\<^sup>*\<^sup>* (started [[a, b], [b, a]]) ?s2"
    by (meson r_into_rtranclp rtranclp.rtrancl_into_rtrancl session_step.progress)
  moreover have "stuck ?s2"
    by (auto simp: stuck_def may_acquire_def less_Suc_eq elim!: lock_stepE) (metis less_irrefl)
  ultimately show ?thesis by blast
qed

subsection \<open>Properties\<close>

lemma sint_word_range: "- 2147483648 \<le> sint (w :: 32 word) \<and> sint w \<le> 2147483647"
  using sint_greater_eq[of w] sint_less[of w] by simp

text \<open>C36: The entity locks of a transaction are those of the distinct normalised keys, however the caller orders, repeats
  or spells them, strictly ascending in type rank and source identifier; every lock number fits the database's INTEGER;
  outside a transaction or for a malformed key nothing is locked.\<close>

theorem entity_locks_canonical:
  assumes "acquire_entity_locks digest active keys = Inr (locks, ordered)"
  shows "active \<and> set ordered = {k. \<exists>r \<in> set keys. normalize_entity_key r = Inr k}
    \<and> (\<forall>r \<in> set keys. \<exists>k. normalize_entity_key r = Inr k)
    \<and> sorted_wrt (\<lambda>a b. entity_sort_key a < entity_sort_key b) ordered
    \<and> locks = map (\<lambda>k. PairLock ENTITY_LOCK_NAMESPACE (entity_lock_number digest k)) ordered
    \<and> (\<forall>k \<in> set ordered. int4 (entity_lock_number digest k))
    \<and> (\<forall>keys' locks' ordered'. acquire_entity_locks digest active keys' = Inr (locks', ordered')
      \<and> set ordered' = set ordered \<longrightarrow> locks' = locks \<and> ordered' = ordered)"
proof -
  have o: "ordered_entity_keys keys = Inr ordered" and l: "active"
    "locks = map (\<lambda>k. PairLock ENTITY_LOCK_NAMESPACE (entity_lock_number digest k)) ordered"
    using assms by (auto simp: acquire_entity_locks_def result_simps)
  note facts = ordered_entity_keys_facts[OF o]
  have known: "active" "locks = map (\<lambda>k. PairLock ENTITY_LOCK_NAMESPACE (entity_lock_number digest k)) ordered"
    "set ordered = {k. \<exists>r \<in> set keys. normalize_entity_key r = Inr k}"
    "sorted_wrt (\<lambda>a b. entity_sort_key a < entity_sort_key b) ordered"
    by (rule l facts)+
  obtain ks where "map_result normalize_entity_key keys = Inr ks" using o by (auto simp: ordered_entity_keys_def result_simps)
  then have normal: "\<forall>r \<in> set keys. \<exists>k. normalize_entity_key r = Inr k" by (auto dest: map_result_InrD)
  have range: "\<forall>k \<in> set ordered. int4 (entity_lock_number digest k)"
    by (simp add: int4_def entity_lock_number_def sint_word_range)
  have unique: "\<forall>keys' locks' ordered'. acquire_entity_locks digest active keys' = Inr (locks', ordered')
      \<and> set ordered' = set ordered \<longrightarrow> locks' = locks \<and> ordered' = ordered"
  proof (intro allI impI, elim conjE)
    fix keys' locks' ordered'
    assume a: "acquire_entity_locks digest active keys' = Inr (locks', ordered')" and same: "set ordered' = set ordered"
    have o': "ordered_entity_keys keys' = Inr ordered'"
      and l': "locks' = map (\<lambda>k. PairLock ENTITY_LOCK_NAMESPACE (entity_lock_number digest k)) ordered'"
      using a by (auto simp: acquire_entity_locks_def result_simps)
    have "ordered' = ordered"
      using facts(2) ordered_entity_keys_facts(2)[OF o'] same by (rule strict_sorted_unique)
    with l' l show "locks' = locks \<and> ordered' = ordered" by simp
  qed
  show ?thesis by (intro conjI known normal range unique)
qed

theorem entity_locks_canonical_witness:
  "\<exists>locks ordered. acquire_entity_locks (\<lambda>s. [255, 255, 255, 254]) True
      [(TypeText ''REFUND'', IdText ''R1''), (TypeMember ET_FEE, IdText ''F2''), (TypeText ''FEE'', IdText ''F2'')]
    = Inr (locks, ordered) \<and> ordered = [(''FEE'', ''F2''), (''REFUND'', ''R1'')]
    \<and> (\<forall>k \<in> set ordered. int4 (entity_lock_number (\<lambda>s. [255, 255, 255, 254]) k))"
proof -
  let ?keys = "[(TypeText ''REFUND'', IdText ''R1''), (TypeMember ET_FEE, IdText ''F2''), (TypeText ''FEE'', IdText ''F2'')]"
  have "ordered_entity_keys ?keys = Inr [(''FEE'', ''F2''), (''REFUND'', ''R1'')]"
    by (simp add: ordered_entity_keys_def normalize_entity_key_def enum_lookup_def entity_type_members_def canonical_text_iff
        is_space_def entity_sort_key_def ENTITY_RANK_def ENTITY_ORDER_def)
  then obtain locks where a: "acquire_entity_locks (\<lambda>s. [255, 255, 255, 254]) True ?keys = Inr (locks, [(''FEE'', ''F2''), (''REFUND'', ''R1'')])"
    by (simp add: acquire_entity_locks_def require_def)
  from entity_locks_canonical[OF a] a show ?thesis by blast
qed

text \<open>C12: However the transactions of ingestions and recovery workers interleave, and whichever of them are rolled back,
  they never deadlock: as long as one has not ended some transaction can go on, no schedule runs forever, and every
  situation can be brought to an end where all have ended; no two transactions ever hold the same lock.\<close>

theorem transactions_never_deadlock:
  assumes "list_all (transaction_plan digest) ps" and "session_step\<^sup>*\<^sup>* (started ps) c"
  shows "((\<exists>s \<in> set c. \<not> finished s) \<longrightarrow> (\<exists>c'. lock_step c c'))
    \<and> (\<exists>c'. lock_step\<^sup>*\<^sup>* c c' \<and> (\<forall>s \<in> set c'. finished s))
    \<and> (\<exists>limit. \<forall>n c'. (session_step ^^ n) c c' \<longrightarrow> n \<le> limit)
    \<and> exclusive c"
proof -
  have progress: "\<exists>c'. lock_step c c'" if "\<exists>s \<in> set c. \<not> finished s"
    using transactions.gated_not_stuck[OF assms] that by (simp add: stuck_def)
  moreover have "\<exists>c'. lock_step\<^sup>*\<^sup>* c c' \<and> (\<forall>s \<in> set c'. finished s)" by (rule transactions.completes[OF assms])
  moreover have "\<exists>limit. \<forall>n c'. (session_step ^^ n) c c' \<longrightarrow> n \<le> limit"
    using session_steps_bounded by blast
  moreover have "exclusive c" using transactions.gate_reachable[OF assms(2,1)] by simp
  ultimately show ?thesis using progress by blast
qed

theorem transactions_never_deadlock_witness:
  "\<exists>p c'. transaction_plan (\<lambda>s. [0, 0, 0, 7]) p \<and> length p = 2 \<and> lock_step\<^sup>*\<^sup>* (started [p, lock_financial_state]) c'
    \<and> (\<forall>s \<in> set c'. finished s)"
proof -
  let ?d = "\<lambda>s. [0, 0, 0, 7 :: 8 word]"
  have "ordered_entity_keys [(TypeMember ET_FEE, IdText ''F2'')] = Inr [(''FEE'', ''F2'')]"
    by (simp add: ordered_entity_keys_def normalize_entity_key_def canonical_text_iff is_space_def)
  then obtain locks where a: "acquire_entity_locks ?d True [(TypeMember ET_FEE, IdText ''F2'')] = Inr (locks, [(''FEE'', ''F2'')])"
    "length locks = 1"
    by (simp add: acquire_entity_locks_def require_def)
  let ?p = "lock_financial_state @ locks"
  have "transaction_plan ?d ?p" "transaction_plan ?d lock_financial_state" using a by (auto simp: transaction_plan_def)
  then have plans: "list_all (transaction_plan ?d) [?p, lock_financial_state]" by simp
  from transactions_never_deadlock[OF plans rtranclp.rtrancl_refl, THEN conjunct2, THEN conjunct1] plans a(2) show ?thesis
    by (intro exI[of _ ?p]) (simp add: lock_financial_state_def)
qed

end
