(* ===== verification/Recovery_Runner.thy ===== *)
theory Recovery_Runner
  imports Rebuild_Properties Complex_Main
begin

text \<open>
  \<open>recovery_runner.py\<close>: a bounded batch of a worker, the contract the runner expects of any worker, and
  the recovery worker as one.  A duration is the rational value of the float the clock difference yields.
\<close>

subsection \<open>Arguments and summary\<close>

text \<open>
  A value passed for \<open>max_requests\<close>: an int or anything else; and for \<open>max_seconds\<close>: a bool, a finite
  number, or an infinity or NaN.
\<close>

datatype count_argument = CountInt int | CountOther

datatype seconds_argument = SecondsBool bool | SecondsFinite rat | SecondsNotFinite

datatype stop_reason = TIME_BUDGET | NO_READY_REQUEST | BATCH_LIMIT

datatype 'e drain_error = MaxRequestsInvalid | MaxSecondsInvalid | WorkerRaised 'e

record drain_summary =
  ds_processed_count :: nat
  ds_stop_reason :: stop_reason
  ds_elapsed_seconds :: rat
  ds_last_request_id :: "uuid option"
  ds_last_run_id :: "uuid option"
  ds_last_logical_fingerprint :: "string option"

type_synonym ('s, 'e) worker = "'s \<Rightarrow> ('e + recovery_outcome option) \<times> 's"

text \<open>
  The loop, with the number of requests it may still start, the number of clock readings it has made and
  the last outcome.  \<open>elapsed k\<close> is the k-th difference \<open>clock() - started\<close> as computed; the loop returns
  the reason it stops, the count, the readings and the last outcome.
\<close>

fun drain_loop ::
  "('s, 'e) worker \<Rightarrow> (nat \<Rightarrow> rat) \<Rightarrow> rat \<Rightarrow> nat \<Rightarrow> nat \<Rightarrow> recovery_outcome option \<Rightarrow> 's
     \<Rightarrow> ('e + (stop_reason \<times> nat \<times> nat \<times> recovery_outcome option)) \<times> 's" where
  "drain_loop worker_next elapsed max_seconds 0 processed last_outcome s =
     (Inr (BATCH_LIMIT, processed, processed, last_outcome), s)"
| "drain_loop worker_next elapsed max_seconds (Suc remaining) processed last_outcome s =
     (if max_seconds \<le> elapsed processed
      then (Inr (TIME_BUDGET, processed, Suc processed, last_outcome), s)
      else case worker_next s of
        (Inl e, s') \<Rightarrow> (Inl e, s')
      | (Inr None, s') \<Rightarrow> (Inr (NO_READY_REQUEST, processed, Suc processed, last_outcome), s')
      | (Inr (Some outcome), s') \<Rightarrow>
          drain_loop worker_next elapsed max_seconds remaining (Suc processed) (Some outcome) s')"

definition drain_recovery_queue ::
  "(rat \<Rightarrow> rat) \<Rightarrow> (nat \<Rightarrow> rat) \<Rightarrow> ('s, 'e) worker \<Rightarrow> count_argument \<Rightarrow> seconds_argument \<Rightarrow> 's
     \<Rightarrow> ('e drain_error + drain_summary) \<times> 's" where
  "drain_recovery_queue round3 elapsed worker_next max_requests max_seconds s =
     (case max_requests of
        CountOther \<Rightarrow> (Inl MaxRequestsInvalid, s)
      | CountInt n \<Rightarrow>
          if n \<le> 0 then (Inl MaxRequestsInvalid, s)
          else case max_seconds of
            SecondsFinite t \<Rightarrow>
              if t \<le> 0 then (Inl MaxSecondsInvalid, s)
              else (case drain_loop worker_next elapsed t (nat n) 0 None s of
                  (Inl e, s') \<Rightarrow> (Inl (WorkerRaised e), s')
                | (Inr (reason, processed, readings, last_outcome), s') \<Rightarrow>
                    (Inr \<lparr>ds_processed_count = processed, ds_stop_reason = reason,
                       ds_elapsed_seconds = round3 (elapsed readings),
                       ds_last_request_id = map_option ro_request_id last_outcome,
                       ds_last_run_id = map_option ro_run_id last_outcome,
                       ds_last_logical_fingerprint = map_option ro_logical_fingerprint last_outcome\<rparr>, s'))
          | _ \<Rightarrow> (Inl MaxSecondsInvalid, s))"

subsection \<open>What a worker promises\<close>

locale recovery_worker =
  fixes worker_next :: "('s, 'e) worker"
    and good :: "'s \<Rightarrow> bool"
    and succeeded :: "'s \<Rightarrow> nat"
    and current :: "'s \<Rightarrow> uuid option"
    and nothing_ready :: "'s \<Rightarrow> bool"
  assumes stays_good: "good s \<Longrightarrow> good (snd (worker_next s))"
    and success: "good s \<Longrightarrow> worker_next s = (Inr (Some outcome), s') \<Longrightarrow>
      succeeded s' = Suc (succeeded s) \<and> current s' = Some (ro_run_id outcome)"
    and idle: "good s \<Longrightarrow> worker_next s = (Inr None, s') \<Longrightarrow>
      succeeded s' = succeeded s \<and> current s' = current s \<and> nothing_ready s"
    and never_lost: "good s \<Longrightarrow> succeeded s \<le> succeeded (snd (worker_next s))"
begin

lemma loop_result:
  assumes "good s" "drain_loop worker_next elapsed limit remaining processed last_outcome s = (Inr (reason, total_count, readings, final), s')"
  shows "good s' \<and> processed \<le> total_count \<and> total_count \<le> processed + remaining
    \<and> succeeded s' + processed = succeeded s + total_count
    \<and> (reason = BATCH_LIMIT \<longrightarrow> total_count = processed + remaining)
    \<and> (reason \<noteq> BATCH_LIMIT \<longrightarrow> total_count < processed + remaining)
    \<and> (reason = TIME_BUDGET \<longrightarrow> limit \<le> elapsed total_count)
    \<and> (reason = NO_READY_REQUEST \<longrightarrow> (\<exists>x. good x \<and> nothing_ready x \<and> s' = snd (worker_next x)))
    \<and> (if total_count = processed then final = last_outcome \<and> current s' = current s
       else \<exists>outcome. final = Some outcome \<and> current s' = Some (ro_run_id outcome))"
  using assms
proof (induction remaining arbitrary: processed last_outcome s)
  case 0
  then show ?case by auto
next
  case (Suc remaining)
  show ?case
  proof (cases "limit \<le> elapsed processed")
    case True
    with Suc.prems show ?thesis by auto
  next
    case False
    obtain r s1 where r: "worker_next s = (r, s1)" by (cases "worker_next s")
    have good: "good s1" using stays_good[OF Suc.prems(1)] r by simp
    show ?thesis
    proof (cases r)
      case (Inl e)
      with Suc.prems(2) False r show ?thesis by simp
    next
      case (Inr res)
      show ?thesis
      proof (cases res)
        case None
        then show ?thesis using Suc.prems False r Inr good idle[OF Suc.prems(1), of s1] by auto
      next
        case (Some outcome)
        have step: "drain_loop worker_next elapsed limit remaining (Suc processed) (Some outcome) s1
            = (Inr (reason, total_count, readings, final), s')"
          using Suc.prems(2) False r Inr Some by simp
        have s1: "succeeded s1 = Suc (succeeded s)" "current s1 = Some (ro_run_id outcome)"
          using success[OF Suc.prems(1), of outcome s1] r Inr Some by simp_all
        from Suc.IH[OF good step] s1 show ?thesis by (auto split: if_splits)
      qed
    qed
  qed
qed

lemma loop_error:
  assumes "good s" "drain_loop worker_next elapsed limit remaining processed last_outcome s = (Inl e, s')"
  shows "good s' \<and> succeeded s \<le> succeeded s' \<and> (\<exists>x. good x \<and> worker_next x = (Inl e, s'))"
  using assms
proof (induction remaining arbitrary: processed last_outcome s)
  case (Suc remaining)
  obtain r s1 where r: "worker_next s = (r, s1)" by (cases "worker_next s")
  have s1: "good s1" "succeeded s \<le> succeeded s1"
    using stays_good[OF Suc.prems(1)] never_lost[OF Suc.prems(1)] r by simp_all
  show ?case
  proof (cases r)
    case (Inl f)
    with Suc.prems r s1 show ?thesis by (auto split: if_splits)
  next
    case (Inr res)
    then obtain outcome where "drain_loop worker_next elapsed limit remaining (Suc processed) (Some outcome) s1 = (Inl e, s')"
      using Suc.prems r by (auto split: if_splits option.splits)
    from Suc.IH[OF s1(1) this] s1(2) show ?thesis by (auto split: if_splits)
  qed
qed simp

end

subsection \<open>The recovery worker as a worker\<close>

text \<open>
  Successive calls of \<open>run_next\<close> of one worker: the state carries the tables, the hook's state and the
  number of the call, whose clock readings, commit, run identifier and foreign locks are given.
\<close>

record call_environment =
  ce_clock :: clock_readings
  ce_environment :: environment
  ce_run :: uuid
  ce_locked :: "uuid list"

type_synonym 'h worker_state = "financial_state \<times> 'h \<times> nat"

definition worker_call ::
  "recovery_config \<Rightarrow> 'h failure_hook \<Rightarrow> (nat \<Rightarrow> call_environment) \<Rightarrow> ('h worker_state, recovery_error) worker" where
  "worker_call cfg hook calls w = (case w of (s, h, n) \<Rightarrow>
     let call = calls n
     in case run_next cfg hook (ce_clock call) (ce_environment call) (ce_run call) (ce_locked call) s h of
       (result, s', h') \<Rightarrow> (result, (s', h', Suc n)))"

definition succeeded_requests :: "recovery_queue \<Rightarrow> nat" where
  "succeeded_requests q = length (filter (\<lambda>r. rq_status r = RQ_SUCCEEDED) (q_requests q))"

lemma count_replaced:
  assumes "distinct (map k xs)" "x \<in> set xs" "k y = k x" "P y \<noteq> P x \<or> P y = P x"
  shows "length (filter P (map (\<lambda>z. if k z = k y then y else z) xs)) + (if P x then 1 else 0)
    = length (filter P xs) + (if P y then 1 else 0)"
  using assms
proof (induction xs)
  case (Cons z xs)
  show ?case
  proof (cases "z = x")
    case True
    then have "k y \<notin> set (map k xs)" using Cons.prems(1,3) by simp
    then have "map (\<lambda>z. if k z = k y then y else z) xs = xs" by (induction xs) auto
    with True Cons.prems(3) show ?thesis by simp
  next
    case False
    then have x: "x \<in> set xs" using Cons.prems(2) by simp
    then have "k z \<noteq> k y" using Cons.prems(1,3) by auto
    with Cons.IH x Cons.prems show ?thesis by simp
  qed
qed simp

lemma succeeded_rewrite:
  assumes "queue_ok q" "find_request i q = Some r" "rq_id r' = rq_id r"
  shows "succeeded_requests (rewrite r' as q) + (if rq_status r = RQ_SUCCEEDED then 1 else 0)
    = succeeded_requests q + (if rq_status r' = RQ_SUCCEEDED then 1 else 0)"
proof -
  have "distinct (map rq_id (q_requests q))" using assms(1) by (simp add: queue_ok_def)
  then show ?thesis
    using count_replaced[of rq_id "q_requests q" r r' "\<lambda>r. rq_status r = RQ_SUCCEEDED"] find_request_Some[OF assms(2)] assms(3)
    by (simp add: succeeded_requests_def rewrite_def)
qed

lemma record_failure_succeeded_same:
  assumes "queue_ok q" "record_failure True now i m q = Inr q'"
  shows "succeeded_requests q' = succeeded_requests q"
proof -
  obtain r where r: "find_request i q = Some r"
    "if rq_status r = RQ_PENDING then q' = rewrite (failed_row now m r) [failed_attempt now m r] q else q' = q"
    using assms by (auto simp: record_failure_Inr)
  show ?thesis
  proof (cases "rq_status r = RQ_PENDING")
    case True
    then have "rq_status (failed_row now m r) \<noteq> RQ_SUCCEEDED" by (simp add: failed_row_def Let_def)
    then show ?thesis using succeeded_rewrite[OF assms(1) r(1), of "failed_row now m r"] r(2) True by simp
  qed (use r in simp)
qed

lemma published_counts:
  assumes "queue_ok (fs_queue s)" "published cfg ck run r s x"
  shows "succeeded_requests (fs_queue (snd x)) = Suc (succeeded_requests (fs_queue s))"
proof -
  obtain r0 where r0: "find_request (rq_id r) (fs_queue s) = Some r0" "rq_status r0 = RQ_PENDING"
    "fs_queue (snd x) = rewrite (succeeded_row (ck_succeeded ck) run r0) [succeeded_attempt (ck_succeeded ck) run r0] (fs_queue s)"
    by (rule published_queue[OF assms])
  then show ?thesis
    using succeeded_rewrite[OF assms(1) r0(1), of "succeeded_row (ck_succeeded ck) run r0"] by (simp add: succeeded_row_def)
qed

lemma published_current:
  "published cfg ck run r s x \<Longrightarrow> map_option fst (read_published_result (rc_publication_name cfg) (snd x)) = Some run
    \<and> ro_run_id (fst x) = run"
  using published_tables(2,5)[of cfg ck run r s x]
  by (auto simp: read_published_result_def result_of_def published_def)

lemma run_next_None:
  "run_next cfg hook ck env run locked s h = (Inr None, s', h') \<Longrightarrow> next_ready True (ck_ready ck) locked (fs_queue s) = Inr None \<and> s' = s"
  by (auto simp: run_next_def split: sum.splits option.splits prod.splits commit_fate.splits)

definition worker_good :: "'h worker_state \<Rightarrow> bool" where
  "worker_good w = queue_ok (fs_queue (fst w))"

definition worker_succeeded :: "'h worker_state \<Rightarrow> nat" where
  "worker_succeeded w = succeeded_requests (fs_queue (fst w))"

definition worker_current :: "recovery_config \<Rightarrow> 'h worker_state \<Rightarrow> uuid option" where
  "worker_current cfg w = map_option fst (read_published_result (rc_publication_name cfg) (fst w))"

definition worker_idle :: "(nat \<Rightarrow> call_environment) \<Rightarrow> 'h worker_state \<Rightarrow> bool" where
  "worker_idle calls w = (let call = calls (snd (snd w)) in
     next_ready True (ck_ready (ce_clock call)) (ce_locked call) (fs_queue (fst w)) = Inr None)"

lemma worker_call_eq:
  "worker_call cfg hook calls (s, h, n) = (res, w') \<longleftrightarrow> (\<exists>s' h'. w' = (s', h', Suc n)
    \<and> run_next cfg hook (ce_clock (calls n)) (ce_environment (calls n)) (ce_run (calls n)) (ce_locked (calls n)) s h = (res, s', h'))"
  by (auto simp: worker_call_def Let_def split: prod.splits)

lemma worker_call_facts:
  assumes "worker_good w" "worker_call cfg hook calls w = (res, w')"
  shows "worker_good w' \<and> worker_succeeded w \<le> worker_succeeded w'"
    and "res = Inr (Some outcome) \<Longrightarrow> worker_succeeded w' = Suc (worker_succeeded w)
      \<and> worker_current cfg w' = Some (ro_run_id outcome)"
    and "res = Inr None \<Longrightarrow> worker_succeeded w' = worker_succeeded w \<and> worker_current cfg w' = worker_current cfg w
      \<and> worker_idle calls w"
proof -
  obtain s h n where w: "w = (s, h, n)" by (cases w)
  have q: "queue_ok (fs_queue s)" using assms(1) by (simp add: worker_good_def w)
  obtain s' h' where w': "w' = (s', h', Suc n)" and
    run: "run_next cfg hook (ce_clock (calls n)) (ce_environment (calls n)) (ce_run (calls n)) (ce_locked (calls n)) s h = (res, s', h')"
    using assms(2) unfolding w worker_call_eq by blast
  note defs = worker_good_def worker_succeeded_def worker_current_def worker_idle_def w w' Let_def
  show "worker_succeeded w' = worker_succeeded w \<and> worker_current cfg w' = worker_current cfg w \<and> worker_idle calls w"
    if "res = Inr None"
    using run_next_None[OF run[unfolded that]] by (simp add: defs)
  from q run have "queue_ok (fs_queue s') \<and> succeeded_requests (fs_queue s) \<le> succeeded_requests (fs_queue s')
    \<and> (res = Inr (Some outcome) \<longrightarrow> succeeded_requests (fs_queue s') = Suc (succeeded_requests (fs_queue s))
      \<and> map_option fst (read_published_result (rc_publication_name cfg) s') = Some (ro_run_id outcome))" for outcome
  proof (cases rule: run_next_cases)
    case idle
    with q show ?thesis by simp
  next
    case (failed r e q')
    then show ?thesis
      using record_failure_succeeded_same[OF q failed(3)] queue_step_ok[OF queue_step.failed[OF failed(3)] q] by simp
  next
    case (committed r out)
    have "queue_ok (fs_queue s')"
      using queue_step_ok[OF queue_step.succeeded[OF published_tables(6)[OF committed(2)]] q] by simp
    then show ?thesis
      using published_counts[OF q committed(2)] published_current[OF committed(2)] committed(3) by auto
  qed
  then show "worker_good w' \<and> worker_succeeded w \<le> worker_succeeded w'"
    and "res = Inr (Some outcome) \<Longrightarrow> worker_succeeded w' = Suc (worker_succeeded w)
      \<and> worker_current cfg w' = Some (ro_run_id outcome)"
    by (simp_all add: defs)
qed

interpretation recovery: recovery_worker "worker_call cfg hook calls" worker_good worker_succeeded "worker_current cfg"
  "worker_idle calls" for cfg :: recovery_config and hook :: "'h failure_hook" and calls
proof
  fix w w' :: "'h worker_state" and outcome
  assume good: "worker_good w"
  show "worker_good (snd (worker_call cfg hook calls w))"
    "worker_succeeded w \<le> worker_succeeded (snd (worker_call cfg hook calls w))"
    using worker_call_facts(1)[OF good, of cfg hook calls] by (metis prod.collapse)+
  show "worker_call cfg hook calls w = (Inr (Some outcome), w') \<Longrightarrow>
      worker_succeeded w' = Suc (worker_succeeded w) \<and> worker_current cfg w' = Some (ro_run_id outcome)"
    by (rule worker_call_facts(2)[OF good]) simp_all
  show "worker_call cfg hook calls w = (Inr None, w') \<Longrightarrow>
      worker_succeeded w' = worker_succeeded w \<and> worker_current cfg w' = worker_current cfg w \<and> worker_idle calls w"
    by (rule worker_call_facts(3)[OF good]) simp_all
qed

subsection \<open>Properties\<close>

text \<open>Draining the queue is accounted for: a summary counts exactly the requests that became SUCCEEDED, never more than
  \<open>max_requests\<close> and exactly that many when the batch limit stopped it, names the run that is current when it processed
  any, and says truthfully why it stopped; when a worker error comes through, what was published before it stays.\<close>

theorem drain_accounted:
  assumes "queue_step\<^sup>*\<^sup>* empty_queue (fs_queue s)"
    and "drain_recovery_queue round3 elapsed (worker_call cfg hook calls) (CountInt n) (SecondsFinite t) (s, h, k) = (res, (s', h', k'))"
    and "0 < n" and "0 < t"
  shows "(\<forall>d. res = Inr d \<longrightarrow>
      succeeded_requests (fs_queue s') = succeeded_requests (fs_queue s) + ds_processed_count d
      \<and> int (ds_processed_count d) \<le> n
      \<and> (ds_stop_reason d = BATCH_LIMIT \<longleftrightarrow> int (ds_processed_count d) = n)
      \<and> (ds_stop_reason d = TIME_BUDGET \<longrightarrow> t \<le> elapsed (ds_processed_count d))
      \<and> (ds_stop_reason d = NO_READY_REQUEST \<longrightarrow> (\<exists>x. worker_idle calls x \<and> (s', h', k') = snd (worker_call cfg hook calls x)))
      \<and> (0 < ds_processed_count d \<longrightarrow>
          map_option fst (read_published_result (rc_publication_name cfg) s') = ds_last_run_id d \<and> ds_last_run_id d \<noteq> None))
    \<and> (\<forall>e. res = Inl e \<longrightarrow> succeeded_requests (fs_queue s) \<le> succeeded_requests (fs_queue s')
      \<and> (\<exists>x f. e = WorkerRaised f \<and> worker_call cfg hook calls x = (Inl f, (s', h', k'))))"
proof -
  have good: "worker_good (s, h, k)" using queue_steps_ok[OF assms(1) queue_ok_empty] by (simp add: worker_good_def)
  have d: "drain_recovery_queue round3 elapsed (worker_call cfg hook calls) (CountInt n) (SecondsFinite t) (s, h, k)
      = (case drain_loop (worker_call cfg hook calls) elapsed t (nat n) 0 None (s, h, k) of
          (Inl e, w) \<Rightarrow> (Inl (WorkerRaised e), w)
        | (Inr (reason, processed, readings, last_outcome), w) \<Rightarrow>
            (Inr \<lparr>ds_processed_count = processed, ds_stop_reason = reason, ds_elapsed_seconds = round3 (elapsed readings),
               ds_last_request_id = map_option ro_request_id last_outcome, ds_last_run_id = map_option ro_run_id last_outcome,
               ds_last_logical_fingerprint = map_option ro_logical_fingerprint last_outcome\<rparr>, w))"
    using assms(3,4) by (simp add: drain_recovery_queue_def)
  have drained: "\<forall>d. res = Inr d \<longrightarrow>
      succeeded_requests (fs_queue s') = succeeded_requests (fs_queue s) + ds_processed_count d
      \<and> int (ds_processed_count d) \<le> n
      \<and> (ds_stop_reason d = BATCH_LIMIT \<longleftrightarrow> int (ds_processed_count d) = n)
      \<and> (ds_stop_reason d = TIME_BUDGET \<longrightarrow> t \<le> elapsed (ds_processed_count d))
      \<and> (ds_stop_reason d = NO_READY_REQUEST \<longrightarrow> (\<exists>x. worker_idle calls x \<and> (s', h', k') = snd (worker_call cfg hook calls x)))
      \<and> (0 < ds_processed_count d \<longrightarrow>
          map_option fst (read_published_result (rc_publication_name cfg) s') = ds_last_run_id d \<and> ds_last_run_id d \<noteq> None)"
  proof (intro allI impI)
    fix d'
    assume "res = Inr d'"
    then obtain reason processed readings last_outcome where
      loop: "drain_loop (worker_call cfg hook calls) elapsed t (nat n) 0 None (s, h, k)
        = (Inr (reason, processed, readings, last_outcome), (s', h', k'))"
      and d': "ds_processed_count d' = processed" "ds_stop_reason d' = reason" "ds_last_run_id d' = map_option ro_run_id last_outcome"
      using assms(2) unfolding d by (auto split: prod.splits sum.splits)
    note facts = recovery.loop_result[OF good loop, unfolded worker_succeeded_def worker_current_def fst_conv]
    have ready: "reason = NO_READY_REQUEST \<longrightarrow> (\<exists>x. worker_idle calls x \<and> (s', h', k') = snd (worker_call cfg hook calls x))"
      using facts by blast
    have counts: "succeeded_requests (fs_queue s') + 0 = succeeded_requests (fs_queue s) + processed"
      "processed \<le> 0 + nat n" "reason = BATCH_LIMIT \<longrightarrow> processed = 0 + nat n" "reason \<noteq> BATCH_LIMIT \<longrightarrow> processed < 0 + nat n"
      and budget: "reason = TIME_BUDGET \<longrightarrow> t \<le> elapsed processed"
      and last_run: "if processed = 0 then last_outcome = None \<and> map_option fst (read_published_result (rc_publication_name cfg) s')
          = map_option fst (read_published_result (rc_publication_name cfg) s)
        else \<exists>outcome. last_outcome = Some outcome
          \<and> map_option fst (read_published_result (rc_publication_name cfg) s') = Some (ro_run_id outcome)"
      using facts by blast+
    have bounds: "succeeded_requests (fs_queue s') = succeeded_requests (fs_queue s) + processed" "int processed \<le> n"
      "reason = BATCH_LIMIT \<longleftrightarrow> int processed = n"
      using counts assms(3) by auto
    have final: "0 < processed \<longrightarrow> map_option fst (read_published_result (rc_publication_name cfg) s')
        = map_option ro_run_id last_outcome \<and> map_option ro_run_id last_outcome \<noteq> None"
      using last_run by auto
    show "succeeded_requests (fs_queue s') = succeeded_requests (fs_queue s) + ds_processed_count d'
      \<and> int (ds_processed_count d') \<le> n
      \<and> (ds_stop_reason d' = BATCH_LIMIT \<longleftrightarrow> int (ds_processed_count d') = n)
      \<and> (ds_stop_reason d' = TIME_BUDGET \<longrightarrow> t \<le> elapsed (ds_processed_count d'))
      \<and> (ds_stop_reason d' = NO_READY_REQUEST \<longrightarrow> (\<exists>x. worker_idle calls x \<and> (s', h', k') = snd (worker_call cfg hook calls x)))
      \<and> (0 < ds_processed_count d' \<longrightarrow>
          map_option fst (read_published_result (rc_publication_name cfg) s') = ds_last_run_id d' \<and> ds_last_run_id d' \<noteq> None)"
      unfolding d' by (intro conjI bounds budget ready final)
  qed
  have failed: "\<forall>e. res = Inl e \<longrightarrow> succeeded_requests (fs_queue s) \<le> succeeded_requests (fs_queue s')
      \<and> (\<exists>x f. e = WorkerRaised f \<and> worker_call cfg hook calls x = (Inl f, (s', h', k')))"
  proof (intro allI impI)
    fix e
    assume "res = Inl e"
    then obtain f where f: "e = WorkerRaised f"
      "drain_loop (worker_call cfg hook calls) elapsed t (nat n) 0 None (s, h, k) = (Inl f, (s', h', k'))"
      using assms(2) unfolding d by (auto split: prod.splits sum.splits)
    from recovery.loop_error[OF good f(2)] f(1)
    show "succeeded_requests (fs_queue s) \<le> succeeded_requests (fs_queue s')
      \<and> (\<exists>x f. e = WorkerRaised f \<and> worker_call cfg hook calls x = (Inl f, (s', h', k')))"
      by (auto simp: worker_succeeded_def)
  qed
  show ?thesis by (rule conjI[OF drained failed])
qed

theorem drain_accounted_witness:
  "\<exists>d s' h' k'. drain_recovery_queue (\<lambda>x. x) (\<lambda>k. of_nat k) (worker_call sample_config quiet_hook
      (\<lambda>n. \<lparr>ce_clock = sample_clock, ce_environment = good_commit, ce_run = ''R'', ce_locked = []\<rparr>))
      (CountInt 1) (SecondsFinite 5) (empty_state queue1 no_inputs, 0, 0) = (Inr d, (s', h', k'))
    \<and> ds_processed_count d = 1 \<and> ds_last_run_id d = Some ''R''
    \<and> succeeded_requests (fs_queue s') = succeeded_requests queue1 + 1"
proof -
  let ?call = "worker_call sample_config quiet_hook
      (\<lambda>n. \<lparr>ce_clock = sample_clock, ce_environment = good_commit, ce_run = ''R'', ce_locked = []\<rparr>)"
  obtain out s' where r: "run_next sample_config quiet_hook sample_clock good_commit ''R'' [] (empty_state queue1 no_inputs) 0
    = (Inr (Some out), s', 10)" "ro_run_id out = ''R''"
    using sample_run by blast
  then have "drain_loop ?call (\<lambda>k. of_nat k) 5 (Suc 0) 0 None (empty_state queue1 no_inputs, 0, 0)
      = (Inr (BATCH_LIMIT, 1, 1, Some out), (s', 10, 1))"
    by (simp add: worker_call_def)
  then have d: "drain_recovery_queue (\<lambda>x. x) (\<lambda>k. of_nat k) ?call (CountInt 1) (SecondsFinite 5) (empty_state queue1 no_inputs, 0, 0)
      = (Inr \<lparr>ds_processed_count = 1, ds_stop_reason = BATCH_LIMIT, ds_elapsed_seconds = 1,
          ds_last_request_id = Some (ro_request_id out), ds_last_run_id = Some ''R'',
          ds_last_logical_fingerprint = Some (ro_logical_fingerprint out)\<rparr>, (s', 10, 1))"
    using r(2) by (simp add: drain_recovery_queue_def)
  from drain_accounted[OF sample_reach d] d show ?thesis by (simp add: empty_state_def)
qed

end
