(* ===== verification/Recovery_Runtime.thy ===== *)
theory Recovery_Runtime
  imports Prelude
begin

text \<open>
  \<open>recovery_runtime.py\<close>: the settings of a recovery worker and the callables they name.  The modules that
  can be imported are a parameter.
\<close>

subsection \<open>Settings\<close>

datatype runtime_error =
    SettingMissing string
  | ImportPathMalformed string
  | ModuleMissing string
  | AttributeMissing string string
  | NotCallable string

text \<open>\<open>os.environ\<close>: the variables that are set.\<close>

type_synonym environ = "string \<Rightarrow> string option"

definition environ_get :: "environ \<Rightarrow> string \<Rightarrow> string \<Rightarrow> string" where
  "environ_get env name default_value = (case env name of None \<Rightarrow> default_value | Some v \<Rightarrow> v)"

definition required_environment :: "environ \<Rightarrow> string \<Rightarrow> runtime_error + string" where
  "required_environment env name =
     (let value = strip (environ_get env name []) in if value = [] then Inl (SettingMissing name) else Inr value)"

text \<open>\<open>s.partition(":")\<close>: before the first colon, the colon if there is one, and the rest.\<close>

definition partition_colon :: "string \<Rightarrow> string \<times> string \<times> string" where
  "partition_colon s = (let before = takeWhile (\<lambda>c. c \<noteq> CHR '':'') s; after = dropWhile (\<lambda>c. c \<noteq> CHR '':'') s
     in (before, take 1 after, drop 1 after))"

definition split_import_path :: "string \<Rightarrow> string \<Rightarrow> runtime_error + (string \<times> string)" where
  "split_import_path setting_name import_path = (case partition_colon import_path of (module_name, separator, attribute_name) \<Rightarrow>
     if separator \<noteq> '':'' \<or> module_name = [] \<or> attribute_name = [] \<or> CHR '':'' \<in> set attribute_name
     then Inl (ImportPathMalformed setting_name) else Inr (module_name, attribute_name))"

text \<open>
  The modules that can be imported, as the attributes each has; an attribute that is callable is a
  function of the program, here a value of type \<open>'f\<close>.
\<close>

datatype 'f attribute = Callable 'f | OtherAttribute

type_synonym 'f modules = "string \<Rightarrow> (string \<Rightarrow> 'f attribute option) option"

definition load_callable :: "'f modules \<Rightarrow> string \<Rightarrow> string \<Rightarrow> runtime_error + 'f" where
  "load_callable modules setting_name import_path =
     bind_result (split_import_path setting_name import_path) (\<lambda>(module_name, attribute_name).
       case modules module_name of
         None \<Rightarrow> Inl (ModuleMissing module_name)
       | Some attributes \<Rightarrow>
           (case attributes attribute_name of
              None \<Rightarrow> Inl (AttributeMissing module_name attribute_name)
            | Some OtherAttribute \<Rightarrow> Inl (NotCallable setting_name)
            | Some (Callable f) \<Rightarrow> Inr f))"

record 'f worker_settings =
  ws_database_url :: string
  ws_build_candidate :: 'f
  ws_validate_domain :: 'f
  ws_publication_name :: string

definition create_recovery_worker :: "environ \<Rightarrow> 'f modules \<Rightarrow> runtime_error + 'f worker_settings" where
  "create_recovery_worker env modules =
     bind_result (required_environment env ''THREADLINE_DATABASE_URL'') (\<lambda>database_url.
     bind_result (required_environment env ''THREADLINE_RECOVERY_BUILDER'') (\<lambda>builder_path.
     let validator_path = strip (environ_get env ''THREADLINE_RECOVERY_VALIDATOR''
           ''threadline.publication:validate_for_publication'')
     in bind_result (require (validator_path \<noteq> []) (SettingMissing ''THREADLINE_RECOVERY_VALIDATOR'')) (\<lambda>_.
     bind_result (load_callable modules ''THREADLINE_RECOVERY_BUILDER'' builder_path) (\<lambda>build_candidate.
     bind_result (load_callable modules ''THREADLINE_RECOVERY_VALIDATOR'' validator_path) (\<lambda>validate_domain.
     let publication_name = strip (environ_get env ''THREADLINE_PUBLICATION_NAME'' ''threadline'')
     in bind_result (require (publication_name \<noteq> []) (SettingMissing ''THREADLINE_PUBLICATION_NAME'')) (\<lambda>_.
       Inr \<lparr>ws_database_url = database_url, ws_build_candidate = build_candidate,
            ws_validate_domain = validate_domain, ws_publication_name = publication_name\<rparr>))))))"

subsection \<open>Import paths\<close>

text \<open>An import path is accepted exactly when it is a module and an attribute around a single colon.\<close>

lemma split_import_path_iff:
  "split_import_path setting p = Inr (m, a) \<longleftrightarrow>
    p = m @ '':'' @ a \<and> m \<noteq> [] \<and> a \<noteq> [] \<and> CHR '':'' \<notin> set m \<and> CHR '':'' \<notin> set a"
proof
  assume l: "split_import_path setting p = Inr (m, a)"
  let ?after = "dropWhile (\<lambda>c. c \<noteq> CHR '':'') p"
  have parts: "m = takeWhile (\<lambda>c. c \<noteq> CHR '':'') p" "take 1 ?after = '':''" "a = drop 1 ?after"
    "m \<noteq> []" "a \<noteq> []" "CHR '':'' \<notin> set a"
    using l by (auto simp: split_import_path_def partition_colon_def Let_def split: if_splits)
  have "p = m @ ?after" using parts(1) by simp
  also have "?after = take 1 ?after @ drop 1 ?after" by simp
  finally have "p = m @ '':'' @ a" unfolding parts(2) parts(3)[symmetric] .
  moreover have "CHR '':'' \<notin> set m" unfolding parts(1) by (auto dest: set_takeWhileD)
  ultimately show "p = m @ '':'' @ a \<and> m \<noteq> [] \<and> a \<noteq> [] \<and> CHR '':'' \<notin> set m \<and> CHR '':'' \<notin> set a"
    using parts by simp
next
  assume r: "p = m @ '':'' @ a \<and> m \<noteq> [] \<and> a \<noteq> [] \<and> CHR '':'' \<notin> set m \<and> CHR '':'' \<notin> set a"
  moreover have "takeWhile (\<lambda>c. c \<noteq> CHR '':'') (m @ '':'' @ a) = m"
      "dropWhile (\<lambda>c. c \<noteq> CHR '':'') (m @ '':'' @ a) = '':'' @ a" if "CHR '':'' \<notin> set m"
    using that by (induction m) auto
  ultimately have "takeWhile (\<lambda>c. c \<noteq> CHR '':'') p = m" "dropWhile (\<lambda>c. c \<noteq> CHR '':'') p = '':'' @ a" by simp_all
  with r show "split_import_path setting p = Inr (m, a)"
    by (simp add: split_import_path_def partition_colon_def Let_def)
qed

lemma load_callable_Inr:
  "load_callable modules setting p = Inr f \<Longrightarrow> \<exists>m a attributes. modules m = Some attributes \<and> attributes a = Some (Callable f)"
proof -
  assume l: "load_callable modules setting p = Inr f"
  then obtain m a where path: "split_import_path setting p = Inr (m, a)"
    by (cases "split_import_path setting p") (auto simp: load_callable_def)
  with l obtain attributes where "modules m = Some attributes"
    by (cases "modules m") (auto simp: load_callable_def)
  moreover from this l path have "attributes a = Some (Callable f)"
    by (auto simp: load_callable_def split: option.splits attribute.splits)
  ultimately show ?thesis by blast
qed

text \<open>A worker that is created has a name, an address and callables for both of its settings.\<close>

lemma created_worker:
  assumes "create_recovery_worker env modules = Inr w"
  shows "ws_database_url w \<noteq> []" "ws_publication_name w \<noteq> []"
    "\<exists>m a f. modules m = Some f \<and> f a = Some (Callable (ws_build_candidate w))"
    "\<exists>m a f. modules m = Some f \<and> f a = Some (Callable (ws_validate_domain w))"
  using assms
  by (auto simp: create_recovery_worker_def required_environment_def result_simps Let_def
      dest: load_callable_Inr split: if_splits)

end
