(* ===== verification/Source_Tables.thy ===== *)
theory Source_Tables
  imports Entity_Locks Recovery_Behavior
begin

text \<open>
  The PostgreSQL tables that ingestion writes (batches, retained evidence, receipts, record versions, entity
  resolutions, expected report days) with the constraints of their columns, and the statements that
  \<open>threadline/durable_ingestion.py\<close> runs on them.  A statement that violates a constraint is an error value.
\<close>

subsection \<open>Rows\<close>

datatype ingestion_status = IS_RECEIVED | IS_PROCESSING | IS_COMMITTED | IS_FAILED

datatype archive_status = AR_PENDING | AR_ARCHIVED | AR_FAILED

datatype disposition = DI_PENDING | DI_ACCEPTED | DI_STALE | DI_DUPLICATE | DI_CONFLICTED | DI_QUARANTINED

record ingestion_batch =
  ib_id :: uuid
  ib_delivery_key :: string
  ib_source_system :: string
  ib_report_type :: string
  ib_report_date :: date
  ib_filename :: string
  ib_file_checksum :: string
  ib_manifest_checksum :: string
  ib_schema_version :: string
  ib_declared_rows :: int
  ib_observed_rows :: int
  ib_status :: ingestion_status
  ib_archive_status :: archive_status
  ib_archive_path :: "string option"
  ib_received_at :: instant
  ib_committed_at :: "instant option"
  ib_archived_at :: "instant option"
  ib_error_message :: "string option"
  ib_source_path :: "string option"
  ib_archive_attempts :: int
  ib_archive_last_attempt :: "instant option"
  ib_archive_error :: "string option"

record delivery_evidence =
  de_batch :: uuid
  de_data_bytes :: string
  de_manifest_bytes :: string

record source_receipt =
  sr_id :: uuid
  sr_batch :: uuid
  sr_row_number :: int
  sr_entity_type :: "string option"
  sr_source_id :: "string option"
  sr_source_version :: "int option"
  sr_payload_hash :: string
  sr_payload :: payload
  sr_disposition :: disposition
  sr_reason_code :: "string option"
  sr_received_at :: instant
  sr_record_version :: "uuid option"

record record_version =
  rv_id :: uuid
  rv_entity_type :: string
  rv_source_id :: string
  rv_source_version :: int
  rv_payload_hash :: string
  rv_canonical_payload :: json
  rv_first_batch :: uuid
  rv_first_receipt :: uuid
  rv_first_seen_at :: instant

datatype resolution_state = ER_ACCEPTED | ER_CONFLICTED

record entity_resolution =
  er_entity_type :: string
  er_source_id :: string
  er_winning_version :: int
  er_state :: resolution_state
  er_selected_hash :: "string option"
  er_updated_at :: instant

record source_tables =
  st_batches :: "ingestion_batch list"
  st_evidence :: "delivery_evidence list"
  st_receipts :: "source_receipt list"
  st_versions :: "record_version list"
  st_resolutions :: "entity_resolution list"
  st_days :: "date list"

definition empty_sources :: source_tables where
  "empty_sources = \<lparr>st_batches = [], st_evidence = [], st_receipts = [], st_versions = [], st_resolutions = [], st_days = []\<rparr>"

subsection \<open>Constraints\<close>

datatype table_error = TableConstraint string | RowNotFound string

text \<open>A text of a VARCHAR column: bounded, and without the character the database cannot store.\<close>

definition varchar :: "nat \<Rightarrow> string \<Rightarrow> bool" where
  "varchar n s = (length s \<le> n \<and> list_all (\<lambda>c. c \<noteq> CHR 0x00) s)"

definition optional_ok :: "('a \<Rightarrow> bool) \<Rightarrow> 'a option \<Rightarrow> bool" where
  "optional_ok P v = (case v of None \<Rightarrow> True | Some x \<Rightarrow> P x)"

definition batch_constraints :: "ingestion_batch \<Rightarrow> bool" where
  "batch_constraints b =
     (is_sha256 (ib_delivery_key b) \<and> is_sha256 (ib_file_checksum b) \<and> is_sha256 (ib_manifest_checksum b)
      \<and> varchar 64 (ib_source_system b) \<and> varchar 32 (ib_report_type b) \<and> varchar 32 (ib_schema_version b)
      \<and> 0 \<le> ib_declared_rows b \<and> int4 (ib_declared_rows b) \<and> 0 \<le> ib_observed_rows b \<and> int4 (ib_observed_rows b)
      \<and> (ib_status b = IS_COMMITTED \<longrightarrow> ib_committed_at b \<noteq> None)
      \<and> (ib_archive_status b = AR_ARCHIVED \<longrightarrow> ib_archived_at b \<noteq> None \<and> ib_archive_path b \<noteq> None)
      \<and> 0 \<le> ib_archive_attempts b \<and> int4 (ib_archive_attempts b) \<and> ib_source_path b \<noteq> Some [])"

definition receipt_constraints :: "source_receipt \<Rightarrow> bool" where
  "receipt_constraints r =
     (0 < sr_row_number r \<and> int4 (sr_row_number r)
      \<and> optional_ok (varchar 32) (sr_entity_type r) \<and> optional_ok (varchar 128) (sr_source_id r)
      \<and> optional_ok (\<lambda>v. 0 < v \<and> int4 v) (sr_source_version r) \<and> is_sha256 (sr_payload_hash r)
      \<and> optional_ok (varchar 64) (sr_reason_code r)
      \<and> (sr_disposition r = DI_QUARANTINED \<longrightarrow> sr_reason_code r \<noteq> None))"

definition version_constraints :: "record_version \<Rightarrow> bool" where
  "version_constraints v =
     (varchar 32 (rv_entity_type v) \<and> varchar 128 (rv_source_id v)
      \<and> 0 < rv_source_version v \<and> int4 (rv_source_version v) \<and> is_sha256 (rv_payload_hash v))"

subsection \<open>Statements\<close>

definition find_batch :: "uuid \<Rightarrow> source_tables \<Rightarrow> ingestion_batch option" where
  "find_batch i st = List.find (\<lambda>b. ib_id b = i) (st_batches st)"

definition find_delivery :: "string \<Rightarrow> source_tables \<Rightarrow> ingestion_batch option" where
  "find_delivery key st = List.find (\<lambda>b. ib_delivery_key b = key) (st_batches st)"

definition insert_batch :: "ingestion_batch \<Rightarrow> source_tables \<Rightarrow> table_error + source_tables" where
  "insert_batch b st =
     bind_result (require (batch_constraints b \<and> ib_id b \<notin> ib_id ` set (st_batches st)
         \<and> ib_delivery_key b \<notin> ib_delivery_key ` set (st_batches st)) (TableConstraint ''ingestion_batch'')) (\<lambda>_.
       Inr (st\<lparr>st_batches := st_batches st @ [b]\<rparr>))"

definition update_batch :: "uuid \<Rightarrow> (ingestion_batch \<Rightarrow> ingestion_batch) \<Rightarrow> source_tables \<Rightarrow> table_error + source_tables" where
  "update_batch i f st =
     bind_result (require (list_all (\<lambda>b. ib_id b = i \<longrightarrow> batch_constraints (f b)) (st_batches st))
         (TableConstraint ''ingestion_batch'')) (\<lambda>_.
       Inr (st\<lparr>st_batches := map (\<lambda>b. if ib_id b = i then f b else b) (st_batches st)\<rparr>))"

definition insert_evidence :: "delivery_evidence \<Rightarrow> source_tables \<Rightarrow> table_error + source_tables" where
  "insert_evidence e st =
     bind_result (require (de_batch e \<notin> de_batch ` set (st_evidence st) \<and> find_batch (de_batch e) st \<noteq> None)
         (TableConstraint ''verified_delivery_evidence'')) (\<lambda>_.
       Inr (st\<lparr>st_evidence := st_evidence st @ [e]\<rparr>))"

definition insert_receipt :: "source_receipt \<Rightarrow> source_tables \<Rightarrow> table_error + source_tables" where
  "insert_receipt r st =
     bind_result (require (receipt_constraints r \<and> sr_id r \<notin> sr_id ` set (st_receipts st)
         \<and> (sr_batch r, sr_row_number r) \<notin> (\<lambda>r. (sr_batch r, sr_row_number r)) ` set (st_receipts st)
         \<and> find_batch (sr_batch r) st \<noteq> None) (TableConstraint ''source_receipt'')) (\<lambda>_.
       Inr (st\<lparr>st_receipts := st_receipts st @ [r]\<rparr>))"

definition version_key :: "record_version \<Rightarrow> string \<times> string \<times> int \<times> string" where
  "version_key v = (rv_entity_type v, rv_source_id v, rv_source_version v, rv_payload_hash v)"

definition find_version :: "string \<times> string \<times> int \<times> string \<Rightarrow> source_tables \<Rightarrow> record_version option" where
  "find_version key st = List.find (\<lambda>v. version_key v = key) (st_versions st)"

text \<open>\<open>ON CONFLICT (entity_type, source_id, source_version, payload_hash) DO NOTHING\<close>.\<close>

definition insert_version :: "record_version \<Rightarrow> source_tables \<Rightarrow> table_error + source_tables" where
  "insert_version v st =
     (if version_constraints v \<and> find_version (version_key v) st \<noteq> None then Inr st
      else bind_result (require (version_constraints v \<and> rv_id v \<notin> rv_id ` set (st_versions st)
          \<and> find_batch (rv_first_batch v) st \<noteq> None \<and> rv_first_receipt v \<in> sr_id ` set (st_receipts st))
          (TableConstraint ''source_record_version'')) (\<lambda>_.
        Inr (st\<lparr>st_versions := st_versions st @ [v]\<rparr>)))"

definition link_receipt :: "uuid \<Rightarrow> uuid \<Rightarrow> source_tables \<Rightarrow> source_tables" where
  "link_receipt receipt version st =
     st\<lparr>st_receipts := map (\<lambda>r. if sr_id r = receipt then r\<lparr>sr_record_version := Some version\<rparr> else r) (st_receipts st)\<rparr>"

definition resolution_key :: "entity_resolution \<Rightarrow> string \<times> string" where
  "resolution_key e = (er_entity_type e, er_source_id e)"

text \<open>\<open>ON CONFLICT (entity_type, source_id) DO UPDATE\<close>; the selected version is a foreign key.\<close>

definition upsert_resolution :: "entity_resolution \<Rightarrow> source_tables \<Rightarrow> table_error + source_tables" where
  "upsert_resolution e st =
     bind_result (require (0 < er_winning_version e \<and> (er_state e = ER_ACCEPTED \<longleftrightarrow> er_selected_hash e \<noteq> None)
         \<and> optional_ok (\<lambda>h. find_version (er_entity_type e, er_source_id e, er_winning_version e, h) st \<noteq> None) (er_selected_hash e))
         (TableConstraint ''entity_resolution'')) (\<lambda>_.
       Inr (st\<lparr>st_resolutions := (if resolution_key e \<in> resolution_key ` set (st_resolutions st)
           then map (\<lambda>x. if resolution_key x = resolution_key e then e else x) (st_resolutions st)
           else st_resolutions st @ [e])\<rparr>))"

definition declare_day :: "date \<Rightarrow> source_tables \<Rightarrow> source_tables" where
  "declare_day d st = (if d \<in> set (st_days st) then st else st\<lparr>st_days := st_days st @ [d]\<rparr>)"

end
