(* ===== verification/Delivery_Verification.thy ===== *)
theory Delivery_Verification
  imports Source_Tables
begin

text \<open>
  \<open>threadline/durable_ingestion.py\<close>, verification of a delivered file against its manifest: strict JSON (the
  standard library's parser is a parameter that yields pairs in text order), enums by name or value, the file
  protocol (temporary files, both files present, the two reads, the final check) and the manifest's checks.
\<close>

subsection \<open>Strict JSON\<close>

text \<open>
  What the JSON parser of the standard library makes of a text before its hooks are applied: objects are
  the pairs in the order of the text, and NaN and the infinities are constants of their own.
\<close>

datatype raw_json =
    RawNull
  | RawBool bool
  | RawInt int
  | RawFloat string
  | RawConstant string
  | RawString string
  | RawArray "raw_json list"
  | RawObject "(string \<times> raw_json) list"

datatype delivery_error =
    IntegrityError string
  | JsonUnreadable
  | FileUnreadable
  | EnumValueUnknown string
  | DateMalformed

fun strict_value :: "raw_json \<Rightarrow> delivery_error + json" where
  "strict_value RawNull = Inr JNull"
| "strict_value (RawBool b) = Inr (JBool b)"
| "strict_value (RawInt i) = Inr (JInt i)"
| "strict_value (RawFloat s) = Inr (JFloat s)"
| "strict_value (RawConstant c) = Inl (IntegrityError ''json'')"
| "strict_value (RawString s) = Inr (JStr s)"
| "strict_value (RawArray vs) = bind_result (map_result strict_value vs) (\<lambda>js. Inr (JArr js))"
| "strict_value (RawObject kvs) =
     bind_result (map_result (\<lambda>(k, v). bind_result (strict_value v) (\<lambda>j. Inr (k, j))) kvs) (\<lambda>fields.
     bind_result (require (distinct (map fst kvs)) (IntegrityError ''json'')) (\<lambda>_. Inr (JObj fields)))"

definition strict_json :: "(string \<Rightarrow> raw_json option) \<Rightarrow> string \<Rightarrow> delivery_error + json" where
  "strict_json loads content = (case loads content of None \<Rightarrow> Inl JsonUnreadable | Some raw \<Rightarrow> strict_value raw)"

lemma strict_value_unique: "strict_value r = Inr j \<Longrightarrow> unique_keys j"
proof (induction r arbitrary: j)
  case (RawArray vs)
  then obtain js where js: "map_result strict_value vs = Inr js" "j = JArr js" by (auto simp: result_simps)
  have "unique_keys y" if "y \<in> set js" for y
    using map_result_set[OF js(1)] RawArray.IH that by auto
  then show ?case by (simp add: js(2))
next
  case (RawObject kvs)
  then obtain fields where f: "map_result (\<lambda>(k, v). bind_result (strict_value v) (\<lambda>j. Inr (k, j))) kvs = Inr fields"
    "distinct (map fst kvs)" "j = JObj fields"
    by (auto simp: result_simps)
  have "list_all2 (\<lambda>kv f. strict_value (snd kv) = Inr (snd f) \<and> fst f = fst kv) kvs fields"
    using f(1) unfolding map_result_Inr_iff by (rule list.rel_mono_strong) (auto simp: result_simps)
  then have "map fst fields = map fst kvs \<and> (\<forall>y \<in> set fields. \<exists>x \<in> set kvs. strict_value (snd x) = Inr (snd y))"
    by (induction rule: list_all2_induct) auto
  then show ?case using f(2) RawObject.IH unfolding f(3) by fastforce
qed auto

subsection \<open>Enums by name or value\<close>

primrec report_type_name :: "report_type \<Rightarrow> string" where
  "report_type_name RT_ORDERS = ''ORDERS''"
| "report_type_name RT_PAYMENTS = ''PAYMENTS''"
| "report_type_name RT_REFUNDS = ''REFUNDS''"
| "report_type_name RT_FEES = ''FEES''"
| "report_type_name RT_SETTLEMENT_LINES = ''SETTLEMENT_LINES''"
| "report_type_name RT_PAYOUTS = ''PAYOUTS''"

primrec source_system_name :: "source_system \<Rightarrow> string" where
  "source_system_name THREADLINE_SHOP = ''THREADLINE_SHOP''"
| "source_system_name MOCKPAY = ''MOCKPAY''"

definition enum_member :: "('e \<Rightarrow> string) \<Rightarrow> ('e \<Rightarrow> string) \<Rightarrow> 'e list \<Rightarrow> json \<Rightarrow> delivery_error + 'e" where
  "enum_member name_of value_of members v = (case v of
       JStr s \<Rightarrow>
         (case enum_lookup name_of members s of
            Some m \<Rightarrow> Inr m
          | None \<Rightarrow> (case enum_lookup value_of members s of Some m \<Rightarrow> Inr m | None \<Rightarrow> Inl (EnumValueUnknown s)))
     | _ \<Rightarrow> Inl (EnumValueUnknown []))"

primrec REPORT_ENTITIES :: "report_type \<Rightarrow> entity_type" where
  "REPORT_ENTITIES RT_ORDERS = ET_ORDER"
| "REPORT_ENTITIES RT_PAYMENTS = ET_PAYMENT"
| "REPORT_ENTITIES RT_REFUNDS = ET_REFUND"
| "REPORT_ENTITIES RT_FEES = ET_FEE"
| "REPORT_ENTITIES RT_SETTLEMENT_LINES = ET_SETTLEMENT_LINE"
| "REPORT_ENTITIES RT_PAYOUTS = ET_PAYOUT"

subsection \<open>Deliveries\<close>

type_synonym path = "string list"

datatype file_node = FileNode string | DirNode

type_synonym file_view = "path \<Rightarrow> file_node option"

definition ends_with :: "string \<Rightarrow> string \<Rightarrow> bool" where
  "ends_with suffix s = (length suffix \<le> length s \<and> drop (length s - length suffix) s = suffix)"

text \<open>
  \<open>path.suffix == ".json"\<close> (a name that is only a suffix has none) and not a manifest;
  \<open>path.with_suffix(".manifest.json")\<close>.
\<close>

definition data_file_name :: "string \<Rightarrow> bool" where
  "data_file_name name = (ends_with ''.json'' name \<and> 5 < length name \<and> \<not> ends_with ''.manifest.json'' name)"

definition manifest_name :: "string \<Rightarrow> string" where
  "manifest_name name = take (length name - 5) name @ ''.manifest.json''"

definition with_name :: "path \<Rightarrow> string \<Rightarrow> path" where
  "with_name p name = butlast p @ [name]"

definition part_path :: "path \<Rightarrow> path" where
  "part_path p = with_name p (last p @ ''.part'')"

definition manifest_path :: "path \<Rightarrow> path" where
  "manifest_path p = with_name p (manifest_name (last p))"

definition temporary_paths :: "path \<Rightarrow> path list" where
  "temporary_paths p = [part_path p, part_path (manifest_path p)]"

definition path_exists :: "file_view \<Rightarrow> path \<Rightarrow> bool" where
  "path_exists view p = (view p \<noteq> None)"

definition is_file :: "file_view \<Rightarrow> path \<Rightarrow> bool" where
  "is_file view p = (case view p of Some (FileNode _) \<Rightarrow> True | _ \<Rightarrow> False)"

definition read_bytes :: "file_view \<Rightarrow> path \<Rightarrow> delivery_error + string" where
  "read_bytes view p = (case view p of Some (FileNode b) \<Rightarrow> Inr b | _ \<Rightarrow> Inl FileUnreadable)"

fun join_path :: "string list \<Rightarrow> string" where
  "join_path [] = []"
| "join_path [p] = p"
| "join_path (p # ps) = p @ ''/'' @ join_path ps"

record verified_delivery =
  vd_path :: path
  vd_relative_path :: string
  vd_source_system :: source_system
  vd_report_type :: report_type
  vd_report_date :: date
  vd_entity_type :: entity_type
  vd_data_bytes :: string
  vd_manifest_bytes :: string
  vd_records :: "payload list"

definition manifest_keys :: "string list" where
  "manifest_keys = [''filename'', ''source_system'', ''report_type'', ''report_date'', ''entity_type'',
     ''schema_version'', ''row_count'', ''checksum_sha256'']"

definition object_list :: "json \<Rightarrow> payload list option" where
  "object_list j = (case j of
       JArr vs \<Rightarrow> those (map (\<lambda>v. case v of JObj kvs \<Rightarrow> Some kvs | _ \<Rightarrow> None) vs)
     | _ \<Rightarrow> None)"

definition nonneg_int :: "json \<Rightarrow> nat option" where
  "nonneg_int j = (case j of JInt i \<Rightarrow> if 0 \<le> i then Some (nat i) else None | _ \<Rightarrow> None)"

definition report_date_of :: "(string \<Rightarrow> date option) \<Rightarrow> json \<Rightarrow> delivery_error + date" where
  "report_date_of date_iso j = (case j of
       JStr s \<Rightarrow> (case date_iso s of
           None \<Rightarrow> Inl DateMalformed
         | Some d \<Rightarrow> if isoformat d = s then Inr d else Inl (IntegrityError ''report_date''))
     | _ \<Rightarrow> Inl DateMalformed)"

text \<open>The manifest and the data, once both are read; \<open>name\<close> is that of the data file.\<close>

definition check_delivery ::
  "(string \<Rightarrow> string) \<Rightarrow> (string \<Rightarrow> raw_json option) \<Rightarrow> (string \<Rightarrow> date option) \<Rightarrow> path \<Rightarrow> string \<Rightarrow> string \<Rightarrow> string
     \<Rightarrow> delivery_error + verified_delivery" where
  "check_delivery sha loads date_iso p relative data_bytes manifest_bytes =
     bind_result (strict_json loads data_bytes) (\<lambda>data.
     bind_result (strict_json loads manifest_bytes) (\<lambda>manifest.
     let m = sections_of manifest; field = \<lambda>k. the (map_of m k)
     in bind_result (require ((case manifest of JObj _ \<Rightarrow> True | _ \<Rightarrow> False) \<and> set (map fst m) = set manifest_keys)
          (IntegrityError ''manifest'')) (\<lambda>_.
     bind_result (require (field ''filename'' = JStr (last p)) (IntegrityError ''filename'')) (\<lambda>_.
     bind_result (require (field ''schema_version'' = JStr ''1'') (IntegrityError ''schema_version'')) (\<lambda>_.
     case object_list data of
       None \<Rightarrow> Inl (IntegrityError ''data'')
     | Some records \<Rightarrow>
     bind_result (require (nonneg_int (field ''row_count'') = Some (length records)) (IntegrityError ''row_count'')) (\<lambda>_.
     bind_result (require (field ''checksum_sha256'' = JStr (sha data_bytes)) (IntegrityError ''checksum'')) (\<lambda>_.
     bind_result (enum_member report_type_name report_type_value report_type_members (field ''report_type'')) (\<lambda>rt.
     bind_result (enum_member entity_type_value entity_type_value entity_type_members (field ''entity_type'')) (\<lambda>et.
     bind_result (enum_member source_system_name source_system_value source_system_members (field ''source_system'')) (\<lambda>ss.
     bind_result (require (et = REPORT_ENTITIES rt) (IntegrityError ''entity_type'')) (\<lambda>_.
     bind_result (require (ss = REPORT_SOURCES rt) (IntegrityError ''source_system'')) (\<lambda>_.
     bind_result (report_date_of date_iso (field ''report_date'')) (\<lambda>d.
       Inr \<lparr>vd_path = p, vd_relative_path = relative, vd_source_system = ss, vd_report_type = rt,
            vd_report_date = d, vd_entity_type = et, vd_data_bytes = data_bytes,
            vd_manifest_bytes = manifest_bytes, vd_records = records\<rparr>)))))))))))))"

text \<open>
  The file system may change between the steps: \<open>views\<close> gives it as the check for temporary files, the
  check for the two files, the two reads and the final check see it.
\<close>

definition verify_delivery ::
  "(string \<Rightarrow> string) \<Rightarrow> (string \<Rightarrow> raw_json option) \<Rightarrow> (string \<Rightarrow> date option) \<Rightarrow> (string \<Rightarrow> path)
     \<Rightarrow> (nat \<Rightarrow> file_view) \<Rightarrow> string \<Rightarrow> string \<Rightarrow> delivery_error + verified_delivery option" where
  "verify_delivery sha loads date_iso resolve views source_path inbox_root =
     (let root = resolve inbox_root; p = resolve source_path
      in bind_result (require (take (length root) p = root \<and> p \<noteq> root) (IntegrityError ''path'')) (\<lambda>_.
         bind_result (require (data_file_name (last p)) (IntegrityError ''suffix'')) (\<lambda>_.
           if list_ex (path_exists (views 0)) (temporary_paths p) then Inr None
           else if \<not> is_file (views 1) p \<or> \<not> is_file (views 1) (manifest_path p) then Inr None
           else bind_result (read_bytes (views 2) p) (\<lambda>data_bytes.
             bind_result (read_bytes (views 3) (manifest_path p)) (\<lambda>manifest_bytes.
             bind_result (check_delivery sha loads date_iso p (join_path (drop (length root) p)) data_bytes manifest_bytes)
               (\<lambda>delivery. if list_ex (path_exists (views 4)) (temporary_paths p) then Inr None
                  else Inr (Some delivery)))))))"

lemma object_list_unique: "object_list j = Some rs \<Longrightarrow> unique_keys j \<Longrightarrow> r \<in> set rs \<Longrightarrow> distinct (map fst r)"
proof (cases j)
  case (JArr vs)
  assume o: "object_list j = Some rs" "unique_keys j" "r \<in> set rs"
  have "those (map f vs) = Some rs \<Longrightarrow> r \<in> set rs \<Longrightarrow> \<exists>v \<in> set vs. f v = Some r" for f :: "json \<Rightarrow> payload option"
    by (induction vs arbitrary: rs) (auto split: option.splits)
  from this[of "\<lambda>v. case v of JObj kvs \<Rightarrow> Some kvs | _ \<Rightarrow> None"] o JArr obtain v
    where "v \<in> set vs" "(case v of JObj kvs \<Rightarrow> Some kvs | _ \<Rightarrow> None) = Some r" by (auto simp: object_list_def)
  moreover from this(1) have "unique_keys v" using o(2) JArr by simp
  ultimately show ?thesis by (auto split: json.splits)
qed (auto simp: object_list_def)

text \<open>What a verified delivery guarantees.\<close>

lemma check_delivery_facts:
  assumes "check_delivery sha loads date_iso p relative data_bytes manifest_bytes = Inr d"
  shows "vd_path d = p" "vd_relative_path d = relative" "vd_data_bytes d = data_bytes" "vd_manifest_bytes d = manifest_bytes"
    and "vd_entity_type d = REPORT_ENTITIES (vd_report_type d)" "vd_source_system d = REPORT_SOURCES (vd_report_type d)"
    and "r \<in> set (vd_records d) \<Longrightarrow> distinct (map fst r)"
proof -
  obtain data where data: "strict_json loads data_bytes = Inr data" "object_list data = Some (vd_records d)"
    and d: "vd_path d = p \<and> vd_relative_path d = relative \<and> vd_data_bytes d = data_bytes \<and> vd_manifest_bytes d = manifest_bytes
      \<and> vd_entity_type d = REPORT_ENTITIES (vd_report_type d) \<and> vd_source_system d = REPORT_SOURCES (vd_report_type d)"
    using assms by (auto simp: check_delivery_def result_simps Let_def split: option.splits)
  then show "vd_path d = p" "vd_relative_path d = relative" "vd_data_bytes d = data_bytes" "vd_manifest_bytes d = manifest_bytes"
    "vd_entity_type d = REPORT_ENTITIES (vd_report_type d)" "vd_source_system d = REPORT_SOURCES (vd_report_type d)"
    by blast+
  have "unique_keys data" using data(1) strict_value_unique by (auto simp: strict_json_def split: option.splits)
  then show "r \<in> set (vd_records d) \<Longrightarrow> distinct (map fst r)" using object_list_unique[OF data(2)] by blast
qed

lemma verify_delivery_facts:
  assumes "verify_delivery sha loads date_iso resolve views source_path inbox_root = Inr (Some d)"
  shows "\<exists>relative data_bytes manifest_bytes. check_delivery sha loads date_iso (vd_path d) relative data_bytes manifest_bytes = Inr d"
    and "\<not> list_ex (path_exists (views 0)) (temporary_paths (vd_path d))"
    and "\<not> list_ex (path_exists (views 4)) (temporary_paths (vd_path d))"
    and "views 2 (vd_path d) = Some (FileNode (vd_data_bytes d))"
    and "views 3 (manifest_path (vd_path d)) = Some (FileNode (vd_manifest_bytes d))"
proof -
  let ?p = "resolve source_path" and ?root = "resolve inbox_root"
  obtain data_bytes manifest_bytes where c: "read_bytes (views 2) ?p = Inr data_bytes"
    "read_bytes (views 3) (manifest_path ?p) = Inr manifest_bytes"
    "check_delivery sha loads date_iso ?p (join_path (drop (length ?root) ?p)) data_bytes manifest_bytes = Inr d"
    "\<not> list_ex (path_exists (views 0)) (temporary_paths ?p)" "\<not> list_ex (path_exists (views 4)) (temporary_paths ?p)"
    using assms unfolding verify_delivery_def Let_def by (auto simp: result_simps simp del: list_ex_iff split: if_splits)
  note facts = check_delivery_facts[OF c(3)]
  show "\<exists>relative data_bytes manifest_bytes. check_delivery sha loads date_iso (vd_path d) relative data_bytes manifest_bytes = Inr d"
    "\<not> list_ex (path_exists (views 0)) (temporary_paths (vd_path d))"
    "\<not> list_ex (path_exists (views 4)) (temporary_paths (vd_path d))"
    using c(3,4,5) unfolding facts(1) by blast+
  show "views 2 (vd_path d) = Some (FileNode (vd_data_bytes d))"
    "views 3 (manifest_path (vd_path d)) = Some (FileNode (vd_manifest_bytes d))"
    using c(1,2) unfolding facts(1,3,4) by (auto simp: read_bytes_def split: option.splits file_node.splits)
qed

end
