(* ===== verification/Durable_Ingestion.thy ===== *)
theory Durable_Ingestion
  imports Delivery_Verification
begin

text \<open>
  \<open>threadline/durable_ingestion.py\<close>: the transaction that stores a verified delivery.  It locks the identities of
  the rows, returns the batch of an earlier identical delivery, or inserts the batch, its evidence, one receipt
  per row (quarantined, or linked to a record version), resolves every touched entity again, commits the batch and
  queues a recovery request.  Failure hooks and the fate of the commit are explicit.
\<close>

subsection \<open>Resolving one entity\<close>

datatype ingestion_error =
    DeliveryRaised delivery_error
  | IngestAsOfNaive
  | TableRaised table_error
  | LocksRaised lock_error
  | EnvelopeRaised canonicalization_error
  | SerialisationRaised fingerprint_error
  | EntityHasNoVersion
  | VersionRowMissing
  | ExistingNotCommitted
  | DeliveryLacksRequest
  | IngestQueueRaised queue_error
  | IngestHookRaised string
  | IngestCommitFailed

text \<open>The receipts of an entity that count: linked to a version, in a batch that is or will be committed.\<close>

definition receipt_key :: "source_receipt \<Rightarrow> string option \<times> string option" where
  "receipt_key r = (sr_entity_type r, sr_source_id r)"

definition counted_batch :: "source_tables \<Rightarrow> uuid \<Rightarrow> bool" where
  "counted_batch st i = (case find_batch i st of
     None \<Rightarrow> False | Some b \<Rightarrow> ib_status b = IS_COMMITTED \<or> ib_status b = IS_PROCESSING)"

definition find_version_row :: "uuid \<Rightarrow> source_tables \<Rightarrow> record_version option" where
  "find_version_row i st = List.find (\<lambda>v. rv_id v = i) (st_versions st)"

definition rank_receipt :: "source_tables \<Rightarrow> string \<Rightarrow> string \<Rightarrow> source_receipt \<Rightarrow> (source_receipt \<times> record_version) list" where
  "rank_receipt st entity_type source_id r =
     (case Option.bind (sr_record_version r) (\<lambda>i. find_version_row i st) of
        None \<Rightarrow> []
      | Some v \<Rightarrow> if receipt_key r = (Some entity_type, Some source_id) \<and> counted_batch st (sr_batch r) then [(r, v)] else [])"

definition ranked_receipts :: "source_tables \<Rightarrow> string \<Rightarrow> string \<Rightarrow> (source_receipt \<times> record_version) list" where
  "ranked_receipts st entity_type source_id = concat (map (rank_receipt st entity_type source_id) (st_receipts st))"

definition occurrence_key :: "source_receipt \<times> record_version \<Rightarrow> nat \<times> instant \<times> uuid" where
  "occurrence_key x = (case x of (r, v) \<Rightarrow>
     (if sr_id r = rv_first_receipt v then 0 else 1, sr_received_at r, sr_id r))"

text \<open>\<open>occurrence = 1\<close>: the first of its partition by version and payload hash.\<close>

definition first_occurrence :: "(source_receipt \<times> record_version) list \<Rightarrow> source_receipt \<times> record_version \<Rightarrow> bool" where
  "first_occurrence ranked x = list_all (\<lambda>y.
     sr_source_version (fst y) = sr_source_version (fst x) \<and> sr_payload_hash (fst y) = sr_payload_hash (fst x)
       \<longrightarrow> occurrence_key x \<le> occurrence_key y) ranked"

definition classified_as ::
  "(source_receipt \<times> record_version) list \<Rightarrow> int \<Rightarrow> bool \<Rightarrow> source_receipt \<times> record_version \<Rightarrow> disposition" where
  "classified_as ranked winning conflicted x =
     (if (case sr_source_version (fst x) of None \<Rightarrow> False | Some v \<Rightarrow> v < winning) then DI_STALE
      else if conflicted then DI_CONFLICTED
      else if first_occurrence ranked x then DI_ACCEPTED
      else DI_DUPLICATE)"

definition reason_for :: "disposition \<Rightarrow> string option" where
  "reason_for d = (case d of
       DI_STALE \<Rightarrow> Some ''LOWER_SOURCE_VERSION''
     | DI_CONFLICTED \<Rightarrow> Some ''CONFLICTING_SOURCE_VERSION''
     | DI_DUPLICATE \<Rightarrow> Some ''IDENTICAL_DUPLICATE''
     | _ \<Rightarrow> None)"

definition reclassify :: "(source_receipt \<times> record_version) list \<Rightarrow> int \<Rightarrow> bool \<Rightarrow> source_receipt \<Rightarrow> source_receipt" where
  "reclassify ranked winning conflicted r =
     (case List.find (\<lambda>x. sr_id (fst x) = sr_id r) ranked of
        None \<Rightarrow> r
      | Some x \<Rightarrow> (let d = classified_as ranked winning conflicted x
                   in r\<lparr>sr_disposition := d, sr_reason_code := reason_for d\<rparr>))"

definition entity_versions :: "source_tables \<Rightarrow> string \<Rightarrow> string \<Rightarrow> record_version list" where
  "entity_versions st entity_type source_id =
     sort_key (\<lambda>v. (- rv_source_version v, rv_payload_hash v))
       (filter (\<lambda>v. rv_entity_type v = entity_type \<and> rv_source_id v = source_id) (st_versions st))"

definition resolve_entity :: "instant \<Rightarrow> string \<times> string \<Rightarrow> source_tables \<Rightarrow> ingestion_error + source_tables" where
  "resolve_entity now key st = (case key of (entity_type, source_id) \<Rightarrow>
     (case entity_versions st entity_type source_id of
        [] \<Rightarrow> Inl EntityHasNoVersion
      | v # vs \<Rightarrow>
          let winning = rv_source_version v;
              winning_hashes = remdups (map rv_payload_hash (filter (\<lambda>x. rv_source_version x = winning) (v # vs)));
              conflicted = 1 < length winning_hashes;
              selected_hash = (if conflicted then None else Some (hd winning_hashes))
          in bind_result (lift_error TableRaised (upsert_resolution
                \<lparr>er_entity_type = entity_type, er_source_id = source_id, er_winning_version = winning,
                 er_state = (if conflicted then ER_CONFLICTED else ER_ACCEPTED), er_selected_hash = selected_hash,
                 er_updated_at = now\<rparr> st)) (\<lambda>st1.
             Inr (st1\<lparr>st_receipts := map (reclassify (ranked_receipts st1 entity_type source_id) winning conflicted)
               (st_receipts st1)\<rparr>))))"

subsection \<open>One row of a delivery\<close>

text \<open>The dataclass of a record as a Python value.\<close>

primrec record_value :: "financial_record \<Rightarrow> pyval" where
  "record_value (OrderRec r) = PyData
     [(''source_version'', PyInt (ord_source_version r)),
      (''order_id'', PyStr (ord_id r)),
      (''created_at_utc'', PyDatetime (Aware (ord_created_at_utc r))),
      (''status'', PyEnum (order_status_value (ord_status r))),
      (''currency'', PyStr (ord_currency r)),
      (''order_total'', money_value (ord_total r))]"
| "record_value (PaymentRec r) = PyData
     [(''source_version'', PyInt (pay_source_version r)),
      (''payment_id'', PyStr (pay_id r)),
      (''order_id'', PyStr (pay_order_id r)),
      (''attempt_number'', PyInt (pay_attempt_number r)),
      (''payment_method'', PyEnum (payment_method_value (pay_method r))),
      (''status'', PyEnum (payment_status_value (pay_status r))),
      (''amount'', money_value (pay_amount r)),
      (''currency'', PyStr (pay_currency r)),
      (''effective_at_utc'', PyDatetime (Aware (pay_effective_at_utc r))),
      (''available_on'', optional_value PyDate (pay_available_on r))]"
| "record_value (RefundRec r) = PyData
     [(''source_version'', PyInt (ref_source_version r)),
      (''refund_id'', PyStr (ref_id r)),
      (''payment_id'', PyStr (ref_payment_id r)),
      (''status'', PyEnum (refund_status_value (ref_status r))),
      (''amount'', money_value (ref_amount r)),
      (''currency'', PyStr (ref_currency r)),
      (''effective_at_utc'', PyDatetime (Aware (ref_effective_at_utc r))),
      (''available_on'', optional_value PyDate (ref_available_on r))]"
| "record_value (FeeRec r) = PyData
     [(''source_version'', PyInt (fee_source_version r)),
      (''fee_id'', PyStr (fee_id r)),
      (''payment_id'', PyStr (fee_payment_id r)),
      (''fee_type'', PyEnum (fee_type_value (fee_fee_type r))),
      (''amount'', money_value (fee_amount r)),
      (''currency'', PyStr (fee_currency r)),
      (''effective_at_utc'', PyDatetime (Aware (fee_effective_at_utc r))),
      (''available_on'', PyDate (fee_available_on r))]"
| "record_value (SettlementLineRec r) = PyData
     [(''source_version'', PyInt (line_source_version r)),
      (''settlement_line_id'', PyStr (line_id r)),
      (''payout_id'', PyStr (line_payout_id r)),
      (''movement_type'', PyEnum (movement_type_value (line_movement_type r))),
      (''movement_id'', PyStr (line_movement_id r)),
      (''signed_amount'', money_value (line_signed_amount r)),
      (''currency'', PyStr (line_currency r))]"
| "record_value (PayoutRec r) = PyData
     [(''source_version'', PyInt (out_source_version r)),
      (''payout_id'', PyStr (out_id r)),
      (''payout_date'', PyDate (out_date r)),
      (''currency'', PyStr (out_currency r)),
      (''reported_net_amount'', money_value (out_reported_net_amount r))]"

text \<open>The digest of a text, and the identifiers the program and the database generate.\<close>

definition sha_text :: "(string \<Rightarrow> string) \<Rightarrow> string \<Rightarrow> string" where
  "sha_text sha s = sha (utf8 s)"

record fresh_ids =
  id_batch :: uuid
  id_receipt :: "nat \<Rightarrow> uuid"
  id_version :: "nat \<Rightarrow> uuid"
  id_request :: uuid

definition receipt_row ::
  "uuid \<Rightarrow> uuid \<Rightarrow> nat \<Rightarrow> entity_type \<Rightarrow> string option \<Rightarrow> int option \<Rightarrow> string \<Rightarrow> payload \<Rightarrow> disposition \<Rightarrow> string option
     \<Rightarrow> instant \<Rightarrow> source_receipt" where
  "receipt_row i batch n et source_id version hash payload d reason received =
     \<lparr>sr_id = i, sr_batch = batch, sr_row_number = int n, sr_entity_type = Some (entity_type_value et),
      sr_source_id = source_id, sr_source_version = version, sr_payload_hash = hash, sr_payload = payload,
      sr_disposition = d, sr_reason_code = reason, sr_received_at = received, sr_record_version = None\<rparr>"

definition ingest_row ::
  "(string \<Rightarrow> string) \<Rightarrow> (string \<Rightarrow> pydatetime option) \<Rightarrow> fresh_ids \<Rightarrow> instant \<Rightarrow> entity_type \<Rightarrow> nat \<times> payload
     \<Rightarrow> source_tables \<times> (string \<times> string) list \<Rightarrow> ingestion_error + source_tables \<times> (string \<times> string) list" where
  "ingest_row sha fromiso ids as_of et x s = (case (x, s) of ((n, payload), (st, touched)) \<Rightarrow>
     (case parse_source_record fromiso et (JObj payload) of
        Inl violation \<Rightarrow>
          (let rejected = quarantine_from_violation (Inl et) payload violation
           in bind_result (lift_error TableRaised (insert_receipt
               (receipt_row (id_receipt ids n) (id_batch ids) n et (qr_source_id rejected) None
                 (document_fingerprint sha (JObj payload)) payload DI_QUARANTINED (Some (qr_reason_code rejected)) as_of) st))
             (\<lambda>st'. Inr (st', touched)))
      | Inr r \<Rightarrow>
          bind_result (lift_error EnvelopeRaised (make_record_envelope (sha_text sha) (id_receipt ids n) r)) (\<lambda>envelope.
          bind_result (lift_error TableRaised (insert_receipt
              (receipt_row (id_receipt ids n) (id_batch ids) n et (Some (record_id r)) (Some (record_source_version r))
                (env_payload_hash envelope) payload DI_PENDING None as_of) st)) (\<lambda>st1.
          bind_result (lift_error SerialisationRaised (json_value (record_value r))) (\<lambda>canonical_payload.
          bind_result (lift_error TableRaised (insert_version
              \<lparr>rv_id = id_version ids n, rv_entity_type = entity_type_value et, rv_source_id = record_id r,
               rv_source_version = record_source_version r, rv_payload_hash = env_payload_hash envelope,
               rv_canonical_payload = canonical_payload, rv_first_batch = id_batch ids,
               rv_first_receipt = id_receipt ids n, rv_first_seen_at = as_of\<rparr> st1)) (\<lambda>st2.
          case find_version (entity_type_value et, record_id r, record_source_version r, env_payload_hash envelope) st2 of
            None \<Rightarrow> Inl VersionRowMissing
          | Some v \<Rightarrow> Inr (link_receipt (id_receipt ids n) (rv_id v) st2,
              List.insert (entity_type_value et, record_id r) touched)))))))"

subsection \<open>The transaction of a delivery\<close>

record database =
  db_sources :: source_tables
  db_queue :: recovery_queue

definition delivery_key :: "(string \<Rightarrow> string) \<Rightarrow> verified_delivery \<Rightarrow> string" where
  "delivery_key sha d = document_fingerprint sha (JObj
     [(''source_system'', JStr (source_system_value (vd_source_system d))),
      (''report_type'', JStr (report_type_value (vd_report_type d))),
      (''report_date'', JStr (isoformat (vd_report_date d))),
      (''source_relative_path'', JStr (vd_relative_path d)),
      (''file_checksum'', JStr (sha (vd_data_bytes d))),
      (''manifest_checksum'', JStr (sha (vd_manifest_bytes d)))])"

definition delivery_batch :: "(string \<Rightarrow> string) \<Rightarrow> fresh_ids \<Rightarrow> instant \<Rightarrow> verified_delivery \<Rightarrow> ingestion_batch" where
  "delivery_batch sha ids as_of d =
     \<lparr>ib_id = id_batch ids, ib_delivery_key = delivery_key sha d,
      ib_source_system = source_system_value (vd_source_system d), ib_report_type = report_type_value (vd_report_type d),
      ib_report_date = vd_report_date d, ib_filename = last (vd_path d), ib_file_checksum = sha (vd_data_bytes d),
      ib_manifest_checksum = sha (vd_manifest_bytes d), ib_schema_version = ''1'',
      ib_declared_rows = int (length (vd_records d)), ib_observed_rows = int (length (vd_records d)),
      ib_status = IS_PROCESSING, ib_archive_status = AR_PENDING, ib_archive_path = None, ib_received_at = as_of,
      ib_committed_at = None, ib_archived_at = None, ib_error_message = None,
      ib_source_path = Some (vd_relative_path d), ib_archive_attempts = 0, ib_archive_last_attempt = None,
      ib_archive_error = None\<rparr>"

text \<open>The identities the transaction locks: those of the rows that parse.\<close>

definition identity_keys :: "(string \<Rightarrow> pydatetime option) \<Rightarrow> verified_delivery \<Rightarrow> (raw_entity_type \<times> raw_source_id) list" where
  "identity_keys fromiso d = List.map_filter (\<lambda>payload.
     case parse_source_record fromiso (vd_entity_type d) (JObj payload) of
       Inl _ \<Rightarrow> None
     | Inr r \<Rightarrow> Some (TypeText (entity_type_value (vd_entity_type d)), IdText (record_id r))) (vd_records d)"

definition numbered_rows :: "payload list \<Rightarrow> (nat \<times> payload) list" where
  "numbered_rows rows = zip [1..<Suc (length rows)] rows"

definition stage_delivery ::
  "(string \<Rightarrow> string) \<Rightarrow> (string \<Rightarrow> pydatetime option) \<Rightarrow> fresh_ids \<Rightarrow> instant \<Rightarrow> instant \<Rightarrow> verified_delivery \<Rightarrow> source_tables
     \<Rightarrow> ingestion_error + source_tables" where
  "stage_delivery sha fromiso ids as_of now d st =
     bind_result (lift_error TableRaised (insert_batch (delivery_batch sha ids as_of d) st)) (\<lambda>st1.
     bind_result (lift_error TableRaised (insert_evidence
         \<lparr>de_batch = id_batch ids, de_data_bytes = vd_data_bytes d, de_manifest_bytes = vd_manifest_bytes d\<rparr> st1)) (\<lambda>st2.
     bind_result (fold_result (ingest_row sha fromiso ids as_of (vd_entity_type d)) (numbered_rows (vd_records d)) (st2, []))
       (\<lambda>(st3, touched). fold_result (resolve_entity now) (sort_key entity_sort_key touched) st3)))"

definition finish_delivery ::
  "(string \<Rightarrow> string) \<Rightarrow> fresh_ids \<Rightarrow> instant \<Rightarrow> instant \<Rightarrow> verified_delivery \<Rightarrow> source_tables \<Rightarrow> recovery_queue
     \<Rightarrow> ingestion_error + database" where
  "finish_delivery sha ids as_of now d st q =
     bind_result (lift_error TableRaised (update_batch (id_batch ids)
         (\<lambda>b. b\<lparr>ib_status := IS_COMMITTED, ib_committed_at := Some now\<rparr>) (declare_day (vd_report_date d) st))) (\<lambda>st'.
     bind_result (lift_error IngestQueueRaised (insert_request
         (new_request (id_request ids) (document_fingerprint sha (JObj [(''verified_delivery'', JStr (delivery_key sha d))]))
           (if vd_records d = [] then None else Some (id_receipt ids 1)) (Some (id_batch ids))
           ''SOURCE_REPORT_AVAILABLE'' as_of now) q)) (\<lambda>q'.
       Inr \<lparr>db_sources = st', db_queue = q'\<rparr>))"

record ingestion_outcome =
  io_batch :: uuid
  io_request :: uuid
  io_reused :: bool

definition reuse_delivery :: "ingestion_batch \<Rightarrow> recovery_queue \<Rightarrow> ingestion_error + ingestion_outcome" where
  "reuse_delivery b q =
     bind_result (require (ib_status b = IS_COMMITTED) ExistingNotCommitted) (\<lambda>_.
       case List.find (\<lambda>r. rq_trigger_batch r = Some (ib_id b)) (q_requests q) of
         None \<Rightarrow> Inl DeliveryLacksRequest
       | Some r \<Rightarrow> Inr \<lparr>io_batch = ib_id b, io_request = rq_id r, io_reused = True\<rparr>)"

definition hook_point :: "'h failure_hook \<Rightarrow> string \<Rightarrow> 'h \<Rightarrow> (ingestion_error + unit) \<times> 'h" where
  "hook_point hook point h = (case hook h point of
     (Inl e, h') \<Rightarrow> (Inl (IngestHookRaised e), h') | (Inr _, h') \<Rightarrow> (Inr (), h'))"

text \<open>
  The whole call.  The transaction works on a copy of the database; \<open>fate\<close> is what becomes of its commit.
\<close>

record ingest_config =
  ic_sha :: "string \<Rightarrow> string"
  ic_digest :: "string \<Rightarrow> 8 word list"
  ic_fromiso :: "string \<Rightarrow> pydatetime option"
  ic_loads :: "string \<Rightarrow> raw_json option"
  ic_date_iso :: "string \<Rightarrow> date option"
  ic_resolve :: "string \<Rightarrow> path"

definition ingest_verified ::
  "ingest_config \<Rightarrow> 'h failure_hook \<Rightarrow> fresh_ids \<Rightarrow> instant \<Rightarrow> instant \<Rightarrow> commit_fate \<Rightarrow> verified_delivery \<Rightarrow> database \<Rightarrow> 'h
     \<Rightarrow> (ingestion_error + ingestion_outcome) \<times> database \<times> 'h" where
  "ingest_verified cfg hook ids as_of now fate d db h =
     (case acquire_entity_locks (ic_digest cfg) True (identity_keys (ic_fromiso cfg) d) of
        Inl e \<Rightarrow> (Inl (LocksRaised e), db, h)
      | Inr _ \<Rightarrow>
     (case find_delivery (delivery_key (ic_sha cfg) d) (db_sources db) of
        Some b \<Rightarrow> (reuse_delivery b (db_queue db), db, h)
      | None \<Rightarrow>
     (case stage_delivery (ic_sha cfg) (ic_fromiso cfg) ids as_of now d (db_sources db) of
        Inl e \<Rightarrow> (Inl e, db, h)
      | Inr st \<Rightarrow>
     (case hook_point hook ''after_entity_resolution'' h of
        (Inl e, h1) \<Rightarrow> (Inl e, db, h1)
      | (Inr _, h1) \<Rightarrow>
     (case finish_delivery (ic_sha cfg) ids as_of now d st (db_queue db) of
        Inl e \<Rightarrow> (Inl e, db, h1)
      | Inr db' \<Rightarrow>
     (case hook_point hook ''before_ingestion_commit'' h1 of
        (Inl e, h2) \<Rightarrow> (Inl e, db, h2)
      | (Inr _, h2) \<Rightarrow>
          let outcome = \<lparr>io_batch = id_batch ids, io_request = id_request ids, io_reused = False\<rparr>
          in (case fate of
                CommitRefused \<Rightarrow> (Inl IngestCommitFailed, db, h2)
              | CommitAckLost \<Rightarrow> (Inl IngestCommitFailed, db', h2)
              | CommitOk \<Rightarrow> (case hook_point hook ''after_ingestion_commit'' h2 of
                    (Inl e, h3) \<Rightarrow> (Inl e, db', h3)
                  | (Inr _, h3) \<Rightarrow> (Inr outcome, db', h3)))))))))"

definition ingest_source_file ::
  "ingest_config \<Rightarrow> 'h failure_hook \<Rightarrow> fresh_ids \<Rightarrow> instant \<Rightarrow> commit_fate \<Rightarrow> (nat \<Rightarrow> file_view) \<Rightarrow> string \<Rightarrow> string
     \<Rightarrow> pydatetime \<Rightarrow> database \<Rightarrow> 'h \<Rightarrow> (ingestion_error + ingestion_outcome option) \<times> database \<times> 'h" where
  "ingest_source_file cfg hook ids now fate views source_path inbox_root as_of_utc db h =
     (case as_of_utc of
        Naive _ \<Rightarrow> (Inl IngestAsOfNaive, db, h)
      | Aware as_of \<Rightarrow>
     (case verify_delivery (ic_sha cfg) (ic_loads cfg) (ic_date_iso cfg) (ic_resolve cfg) views source_path inbox_root of
        Inl e \<Rightarrow> (Inl (DeliveryRaised e), db, h)
      | Inr None \<Rightarrow> (Inr None, db, h)
      | Inr (Some d) \<Rightarrow>
          (case ingest_verified cfg hook ids as_of now fate d db h of
             (Inl e, db', h') \<Rightarrow> (Inl e, db', h')
           | (Inr outcome, db', h') \<Rightarrow> (Inr (Some outcome), db', h'))))"

end
