(* ===== verification/Ingestion_Facts.thy ===== *)
theory Ingestion_Facts
  imports Durable_Ingestion
begin

text \<open>
  What the resolution of an entity depends on, when an entity is settled, and what one row of a delivery adds:
  the facts from which the invariant of the database follows.
\<close>

subsection \<open>Searching tables that grow\<close>

lemma find_append_left: "List.find P xs = Some x \<Longrightarrow> List.find P (xs @ ys) = Some x"
  by (induction xs) auto

lemma find_unique: "distinct (map k xs) \<Longrightarrow> x \<in> set xs \<Longrightarrow> List.find (\<lambda>y. k y = k x) xs = Some x"
  by (induction xs) auto

lemma find_None_key: "List.find (\<lambda>y. k y = i) xs = None \<longleftrightarrow> i \<notin> k ` set xs"
  by (auto simp: find_None_iff)

lemma find_same_key: "(\<And>x. x \<in> set xs \<Longrightarrow> P (f x) = P x) \<Longrightarrow> List.find P (map f xs) = map_option f (List.find P xs)"
  by (induction xs) auto

subsection \<open>Every violation has a code\<close>

definition coded :: "'a parsed \<Rightarrow> bool" where
  "coded r = (\<forall>e. r = Inl e \<longrightarrow> strip (violation_code e) \<noteq> [])"

named_theorems coded_rules \<open>parsers that name what they reject\<close>

lemma coded_Inr [coded_rules]: "coded (Inr a)"
  by (simp add: coded_def)

lemma coded_bind [coded_rules]: "coded r \<Longrightarrow> (\<And>a. coded (f a)) \<Longrightarrow> coded (bind_result r f)"
  by (auto simp: coded_def result_simps)

lemma code_constants:
  "strip ''INVALID_VALUE'' \<noteq> []" "strip ''INVALID_TYPE'' \<noteq> []" "strip ''INVALID_AMOUNT'' \<noteq> []"
  "strip ''MISSING_FIELD'' \<noteq> []" "strip ''UNEXPECTED_FIELD'' \<noteq> []" "strip ''UNSUPPORTED_CURRENCY'' \<noteq> []"
  "strip ''INVALID_MONEY_SIGN'' \<noteq> []"
  by code_simp+

lemma coded_fields [coded_rules]:
  "coded (require_keys v ks os)" "coded (parse_text j f)" "coded (parse_positive_integer j f)"
  "coded (parse_money_field j f pos neg)"
  by (auto simp: coded_def require_keys_def parse_text_def parse_positive_integer_def parse_money_field_def
      violation_at_def type_violation_def amount_violation_def code_constants split: json.splits sum.splits if_splits)

lemma coded_currency [coded_rules]: "coded (parse_currency j f)"
  unfolding parse_currency_def by (intro coded_rules) (simp add: coded_def code_constants)

lemma coded_enum [coded_rules]: "coded (parse_enum val ms j f)"
  unfolding parse_enum_def by (intro coded_rules) (simp add: coded_def violation_at_def code_constants split: option.split)

lemma coded_date [coded_rules]: "coded (parse_date j f)"
  unfolding parse_date_def by (intro coded_rules) (simp add: coded_def violation_at_def code_constants split: option.split)

lemma coded_timestamp [coded_rules]: "coded (parse_timestamp fromiso j f)"
  unfolding parse_timestamp_def
  by (intro coded_rules) (simp add: coded_def violation_at_def code_constants Let_def split: option.split pydatetime.split)

lemma coded_available [coded_rules]: "coded (parse_available_on b p)"
proof -
  have "coded (bind_result (parse_date j f) (\<lambda>d. Inr (Some d)))" for j f by (intro coded_rules)
  then show ?thesis by (auto simp: parse_available_on_def coded_def violation_at_def code_constants)
qed

lemma coded_sign [coded_rules]: "coded (require b (Violation ''INVALID_MONEY_SIGN'' f))"
  by (simp add: coded_def require_def code_constants)

lemma parse_source_coded: "coded (parse_source_record fromiso et v)"
  unfolding parse_source_record_def parse_order_def parse_payment_def parse_refund_def parse_fee_def
    parse_settlement_line_def parse_payout_def
  by (cases et; simp only: entity_type.case; intro coded_rules)

text \<open>A rejected row: unlinked, quarantined, with a reason that can be read back.\<close>

definition rejected_row :: "source_receipt \<Rightarrow> bool" where
  "rejected_row r = (sr_disposition r = DI_QUARANTINED \<and> (\<exists>et. sr_entity_type r = Some (entity_type_value et))
     \<and> (\<exists>reason. sr_reason_code r = Some reason \<and> strip reason \<noteq> []))"

subsection \<open>What the resolution of an entity depends on\<close>

text \<open>
  Two tables agree on an entity when the resolution statement sees the same rows of it and leaves the
  same row behind.
\<close>

definition find_resolution :: "string \<times> string \<Rightarrow> source_tables \<Rightarrow> entity_resolution option" where
  "find_resolution key st = List.find (\<lambda>e. resolution_key e = key) (st_resolutions st)"

definition same_entity :: "source_tables \<Rightarrow> source_tables \<Rightarrow> string \<times> string \<Rightarrow> bool" where
  "same_entity st st' key = (ranked_receipts st' (fst key) (snd key) = ranked_receipts st (fst key) (snd key)
     \<and> entity_versions st' (fst key) (snd key) = entity_versions st (fst key) (snd key)
     \<and> find_resolution key st' = find_resolution key st)"

lemma same_entity_refl [simp]: "same_entity st st key"
  by (simp add: same_entity_def)

lemma same_entity_trans: "same_entity a b key \<Longrightarrow> same_entity b c key \<Longrightarrow> same_entity a c key"
  by (simp add: same_entity_def)

definition entity_winning :: "record_version list \<Rightarrow> int" where
  "entity_winning vs = rv_source_version (hd vs)"

definition entity_hashes :: "record_version list \<Rightarrow> string list" where
  "entity_hashes vs = remdups (map rv_payload_hash (filter (\<lambda>x. rv_source_version x = entity_winning vs) vs))"

definition entity_conflicted :: "record_version list \<Rightarrow> bool" where
  "entity_conflicted vs = (1 < length (entity_hashes vs))"

text \<open>An entity is settled when its receipts and its resolution are what the resolution would make of them.\<close>

definition settled :: "source_tables \<Rightarrow> string \<times> string \<Rightarrow> bool" where
  "settled st key =
     (let vs = entity_versions st (fst key) (snd key); ranked = ranked_receipts st (fst key) (snd key) in
      if vs = [] then ranked = [] \<and> find_resolution key st = None
      else (\<forall>x \<in> set ranked. sr_disposition (fst x) = classified_as ranked (entity_winning vs) (entity_conflicted vs) x
              \<and> sr_reason_code (fst x) = reason_for (sr_disposition (fst x)))
        \<and> (\<exists>e. find_resolution key st = Some e \<and> er_winning_version e = entity_winning vs
            \<and> er_state e = (if entity_conflicted vs then ER_CONFLICTED else ER_ACCEPTED)
            \<and> er_selected_hash e = (if entity_conflicted vs then None else Some (hd (entity_hashes vs)))))"

lemma settled_same: "same_entity st st' key \<Longrightarrow> settled st key \<Longrightarrow> settled st' key"
  by (simp add: settled_def same_entity_def Let_def)

text \<open>The receipts that are linked to a version, with the record they carry.\<close>

definition carries :: "(string \<Rightarrow> string) \<Rightarrow> (string \<Rightarrow> pydatetime option) \<Rightarrow> source_receipt \<Rightarrow> record_version \<Rightarrow> financial_record \<Rightarrow> bool" where
  "carries sha fromiso r v rec = (canonical_text (sr_id r) \<and> (\<exists>et. sr_entity_type r = Some (entity_type_value et)
     \<and> parse_source_record fromiso et (JObj (sr_payload r)) = Inr rec
     \<and> sr_source_id r = Some (record_id rec) \<and> sr_source_version r = Some (record_source_version rec)
     \<and> sr_payload_hash r = calculate_payload_hash (sha_text sha) rec
     \<and> version_key v = (entity_type_value et, record_id rec, record_source_version rec, sr_payload_hash r)))"

definition linked_ok :: "(string \<Rightarrow> string) \<Rightarrow> (string \<Rightarrow> pydatetime option) \<Rightarrow> source_tables \<Rightarrow> source_receipt \<Rightarrow> bool" where
  "linked_ok sha fromiso st r = (case sr_record_version r of None \<Rightarrow> True
     | Some i \<Rightarrow> (\<exists>v rec. find_version_row i st = Some v \<and> carries sha fromiso r v rec) \<and> counted_batch st (sr_batch r))"

definition tables_ok :: "(string \<Rightarrow> string) \<Rightarrow> (string \<Rightarrow> pydatetime option) \<Rightarrow> source_tables \<Rightarrow> bool" where
  "tables_ok sha fromiso st = (distinct (map sr_id (st_receipts st)) \<and> distinct (map rv_id (st_versions st))
     \<and> distinct (map version_key (st_versions st)) \<and> distinct (map ib_id (st_batches st))
     \<and> distinct (map ib_delivery_key (st_batches st))
     \<and> (\<forall>r \<in> set (st_receipts st). linked_ok sha fromiso st r \<and> find_batch (sr_batch r) st \<noteq> None)
     \<and> (\<forall>v \<in> set (st_versions st). \<exists>r \<in> set (st_receipts st). sr_record_version r = Some (rv_id v)))"

lemmas tables_okD = tables_ok_def[THEN iffD1, THEN conjunct1]

text \<open>Tables that keep the versions and the standing of the batches keep what the links say.\<close>

definition grows :: "source_tables \<Rightarrow> source_tables \<Rightarrow> bool" where
  "grows st st' = ((\<forall>i v. find_version_row i st = Some v \<longrightarrow> find_version_row i st' = Some v)
     \<and> (\<forall>i. find_batch i st \<noteq> None \<longrightarrow> find_batch i st' \<noteq> None \<and> counted_batch st' i = counted_batch st i))"

lemma linked_ok_grows: "grows st st' \<Longrightarrow> find_batch (sr_batch r) st \<noteq> None \<Longrightarrow> linked_ok sha fromiso st r \<Longrightarrow> linked_ok sha fromiso st' r"
  unfolding linked_ok_def grows_def by (cases "sr_record_version r") fastforce+

text \<open>Under the invariant the ranked receipts of an entity are its linked receipts with their versions.\<close>

lemma rank_receipt_cases:
  "rank_receipt st t i r = [] \<or> (\<exists>v. rank_receipt st t i r = [(r, v)] \<and> receipt_key r = (Some t, Some i)
    \<and> counted_batch st (sr_batch r) \<and> (\<exists>j. sr_record_version r = Some j \<and> find_version_row j st = Some v))"
  by (auto simp: rank_receipt_def bind_eq_Some_conv split: option.splits)

lemma rank_receipt_member:
  "(x, v) \<in> set (rank_receipt st t i r) \<longleftrightarrow> x = r \<and> receipt_key r = (Some t, Some i)
    \<and> counted_batch st (sr_batch r) \<and> (\<exists>j. sr_record_version r = Some j \<and> find_version_row j st = Some v)"
  by (cases "sr_record_version r") (auto simp: rank_receipt_def split: option.splits)

lemma ranked_member:
  "(r, v) \<in> set (ranked_receipts st t i) \<longleftrightarrow> r \<in> set (st_receipts st) \<and> receipt_key r = (Some t, Some i)
    \<and> counted_batch st (sr_batch r) \<and> (\<exists>j. sr_record_version r = Some j \<and> find_version_row j st = Some v)"
  unfolding ranked_receipts_def by (auto simp: rank_receipt_member)

lemma ranked_ids: "distinct (map sr_id (st_receipts st)) \<Longrightarrow> distinct (map (sr_id \<circ> fst) (ranked_receipts st t i))"
proof -
  have "distinct (map sr_id rs) \<Longrightarrow> distinct (map (sr_id \<circ> fst) (concat (map (rank_receipt st t i) rs)))
      \<and> (sr_id \<circ> fst) ` set (concat (map (rank_receipt st t i) rs)) \<subseteq> sr_id ` set rs" for rs
  proof (induction rs)
    case (Cons r rs)
    then show ?case using rank_receipt_cases[of st t i r] by (auto simp: rank_receipt_member)
  qed simp
  then show "distinct (map sr_id (st_receipts st)) \<Longrightarrow> ?thesis" unfolding ranked_receipts_def by blast
qed

subsection \<open>Resolving an entity settles it\<close>

text \<open>A rewriting of the receipts that keeps what ranking looks at.\<close>

definition keeps_rank :: "(source_receipt \<Rightarrow> source_receipt) \<Rightarrow> bool" where
  "keeps_rank g = (\<forall>r. \<exists>d c. g r = r\<lparr>sr_disposition := d, sr_reason_code := c\<rparr>)"

lemma keeps_rank_fields:
  assumes "keeps_rank g"
  shows "sr_id (g r) = sr_id r" "sr_batch (g r) = sr_batch r" "sr_row_number (g r) = sr_row_number r"
    "sr_entity_type (g r) = sr_entity_type r" "sr_source_id (g r) = sr_source_id r"
    "sr_source_version (g r) = sr_source_version r" "sr_payload_hash (g r) = sr_payload_hash r"
    "sr_payload (g r) = sr_payload r" "sr_received_at (g r) = sr_received_at r"
    "sr_record_version (g r) = sr_record_version r" "receipt_key (g r) = receipt_key r"
proof -
  obtain d c where "g r = r\<lparr>sr_disposition := d, sr_reason_code := c\<rparr>" using assms unfolding keeps_rank_def by blast
  then show "sr_id (g r) = sr_id r" "sr_batch (g r) = sr_batch r" "sr_row_number (g r) = sr_row_number r"
    "sr_entity_type (g r) = sr_entity_type r" "sr_source_id (g r) = sr_source_id r"
    "sr_source_version (g r) = sr_source_version r" "sr_payload_hash (g r) = sr_payload_hash r"
    "sr_payload (g r) = sr_payload r" "sr_received_at (g r) = sr_received_at r"
    "sr_record_version (g r) = sr_record_version r" "receipt_key (g r) = receipt_key r"
    by (simp_all add: receipt_key_def)
qed

lemma reclassify_keeps: "keeps_rank (reclassify ranked w c)"
proof -
  have "\<exists>d c. r = r\<lparr>sr_disposition := d, sr_reason_code := c\<rparr>" for r :: source_receipt
    by (rule exI[of _ "sr_disposition r"], rule exI[of _ "sr_reason_code r"]) simp
  then show ?thesis unfolding keeps_rank_def reclassify_def Let_def by (simp split: option.split) blast
qed

definition rewrite_receipts :: "(source_receipt \<Rightarrow> source_receipt) \<Rightarrow> source_tables \<Rightarrow> source_tables" where
  "rewrite_receipts g st = st\<lparr>st_receipts := map g (st_receipts st)\<rparr>"

lemma rewrite_receipts_same [simp]:
  "find_version_row j (rewrite_receipts g st) = find_version_row j st"
  "counted_batch (rewrite_receipts g st) b = counted_batch st b"
  "find_batch b (rewrite_receipts g st) = find_batch b st"
  "entity_versions (rewrite_receipts g st) t i = entity_versions st t i"
  "find_resolution key (rewrite_receipts g st) = find_resolution key st"
  "st_versions (rewrite_receipts g st) = st_versions st" "st_batches (rewrite_receipts g st) = st_batches st"
  "st_receipts (rewrite_receipts g st) = map g (st_receipts st)"
  by (simp_all add: rewrite_receipts_def find_version_row_def counted_batch_def find_batch_def entity_versions_def find_resolution_def)

lemma ranked_rewrite:
  assumes "keeps_rank g"
  shows "ranked_receipts (rewrite_receipts g st) t i = map (apfst g) (ranked_receipts st t i)"
proof -
  have "rank_receipt (rewrite_receipts g st) t i (g r) = map (apfst g) (rank_receipt st t i r)" for r
    by (cases "Option.bind (sr_record_version r) (\<lambda>i. find_version_row i st)")
      (simp_all add: rank_receipt_def keeps_rank_fields[OF assms])
  then show ?thesis by (simp add: ranked_receipts_def map_concat comp_def)
qed

lemma classified_rewrite:
  assumes "keeps_rank g"
  shows "classified_as (map (apfst g) ranked) w c (g r, v) = classified_as ranked w c (r, v)"
proof -
  have "first_occurrence (map (apfst g) ranked) (g r, v) = first_occurrence ranked (r, v)"
    by (simp add: first_occurrence_def occurrence_key_def keeps_rank_fields[OF assms] list.pred_map comp_def split_def)
  then show ?thesis by (simp add: classified_as_def keeps_rank_fields[OF assms])
qed

lemma upsert_resolution_facts:
  assumes "upsert_resolution e st = Inr st'"
  shows "st_receipts st' = st_receipts st" "st_versions st' = st_versions st" "st_batches st' = st_batches st"
    "st_evidence st' = st_evidence st" "st_days st' = st_days st"
    and "find_resolution (resolution_key e) st' = Some e"
    and "key \<noteq> resolution_key e \<Longrightarrow> find_resolution key st' = find_resolution key st"
proof -
  have st': "st' = st\<lparr>st_resolutions := (if resolution_key e \<in> resolution_key ` set (st_resolutions st)
      then map (\<lambda>x. if resolution_key x = resolution_key e then e else x) (st_resolutions st)
      else st_resolutions st @ [e])\<rparr>"
    using assms by (auto simp: upsert_resolution_def result_simps)
  then show "st_receipts st' = st_receipts st" "st_versions st' = st_versions st" "st_batches st' = st_batches st"
    "st_evidence st' = st_evidence st" "st_days st' = st_days st" by simp_all
  have replaced: "resolution_key e \<in> resolution_key ` set es \<Longrightarrow>
      List.find (\<lambda>x. resolution_key x = resolution_key e) (map (\<lambda>x. if resolution_key x = resolution_key e then e else x) es) = Some e"
    for es by (induction es) auto
  have appended: "resolution_key e \<notin> resolution_key ` set es \<Longrightarrow>
      List.find (\<lambda>x. resolution_key x = resolution_key e) (es @ [e]) = Some e" for es by (induction es) auto
  show "find_resolution (resolution_key e) st' = Some e"
    using replaced[of "st_resolutions st"] appended[of "st_resolutions st"] by (simp add: st' find_resolution_def)
  have other: "key \<noteq> resolution_key e \<Longrightarrow> List.find (\<lambda>x. resolution_key x = key) (map (\<lambda>x. if resolution_key x = resolution_key e then e else x) es)
      = List.find (\<lambda>x. resolution_key x = key) es" "key \<noteq> resolution_key e \<Longrightarrow>
      List.find (\<lambda>x. resolution_key x = key) (es @ [e]) = List.find (\<lambda>x. resolution_key x = key) es" for es
    by (induction es) auto
  show "key \<noteq> resolution_key e \<Longrightarrow> find_resolution key st' = find_resolution key st"
    by (simp add: st' find_resolution_def other)
qed

lemma find_ranked:
  assumes "distinct (map sr_id (st_receipts st))" "(r, v) \<in> set (ranked_receipts st t i)"
  shows "List.find (\<lambda>x. sr_id (fst x) = sr_id r) (ranked_receipts st t i) = Some (r, v)"
  using find_unique[of "sr_id \<circ> fst" "ranked_receipts st t i" "(r, v)"] ranked_ids[OF assms(1)] assms(2) by simp

lemma reclassify_other:
  assumes "distinct (map sr_id (st_receipts st))" "r \<in> set (st_receipts st)" "receipt_key r \<noteq> (Some t, Some i)"
  shows "reclassify (ranked_receipts st t i) w c r = r"
proof -
  have "List.find (\<lambda>x. sr_id (fst x) = sr_id r) (ranked_receipts st t i) = None"
  proof (rule ccontr)
    assume "List.find (\<lambda>x. sr_id (fst x) = sr_id r) (ranked_receipts st t i) \<noteq> None"
    then obtain x where "List.find (\<lambda>x. sr_id (fst x) = sr_id r) (ranked_receipts st t i) = Some x" by blast
    from find_member[OF this] obtain r' v where x: "(r', v) \<in> set (ranked_receipts st t i)" "sr_id r' = sr_id r" by (cases x) auto
    then have "r' = r" using assms(1,2) by (auto simp: ranked_member dest: inj_on_of_distinct_map inj_onD)
    with x(1) assms(3) show False by (simp add: ranked_member)
  qed
  then show ?thesis by (simp add: reclassify_def)
qed

lemma resolve_entity_eq:
  "entity_versions st t i = v # vs \<Longrightarrow> resolve_entity now (t, i) st =
    bind_result (lift_error TableRaised (upsert_resolution
      \<lparr>er_entity_type = t, er_source_id = i, er_winning_version = entity_winning (v # vs),
       er_state = (if entity_conflicted (v # vs) then ER_CONFLICTED else ER_ACCEPTED),
       er_selected_hash = (if entity_conflicted (v # vs) then None else Some (hd (entity_hashes (v # vs)))), er_updated_at = now\<rparr> st))
      (\<lambda>st1. Inr (rewrite_receipts (reclassify (ranked_receipts st1 t i) (entity_winning (v # vs)) (entity_conflicted (v # vs))) st1))"
  unfolding resolve_entity_def entity_winning_def entity_hashes_def entity_conflicted_def rewrite_receipts_def Let_def
  by (simp only: prod.case list.case list.sel)

lemma resolve_entity_settles:
  assumes ids: "distinct (map sr_id (st_receipts st))" and res: "resolve_entity now (t, i) st = Inr st'"
  shows "settled st' (t, i)"
    and "key \<noteq> (t, i) \<Longrightarrow> same_entity st st' key"
    and "\<exists>g. keeps_rank g \<and> st_receipts st' = map g (st_receipts st)
      \<and> (\<forall>r \<in> set (st_receipts st). sr_record_version r = None \<longrightarrow> g r = r)"
    and "st_versions st' = st_versions st" "st_batches st' = st_batches st" "st_evidence st' = st_evidence st"
proof -
  let ?vs = "entity_versions st t i"
  obtain v vs where v: "?vs = v # vs" using res by (auto simp: resolve_entity_def split: list.splits)
  let ?e = "\<lparr>er_entity_type = t, er_source_id = i, er_winning_version = entity_winning ?vs,
     er_state = (if entity_conflicted ?vs then ER_CONFLICTED else ER_ACCEPTED),
     er_selected_hash = (if entity_conflicted ?vs then None else Some (hd (entity_hashes ?vs))), er_updated_at = now\<rparr>"
  obtain st1 where st1: "upsert_resolution ?e st = Inr st1"
    "st' = rewrite_receipts (reclassify (ranked_receipts st1 t i) (entity_winning ?vs) (entity_conflicted ?vs)) st1"
    using res unfolding resolve_entity_eq[OF v] v[symmetric] by (auto simp: result_simps)
  note up = upsert_resolution_facts[OF st1(1)]
  have finds: "find_version_row j st1 = find_version_row j st" "counted_batch st1 = counted_batch st" for j
    using up(2,3) by (auto simp: find_version_row_def counted_batch_def find_batch_def)
  have same: "ranked_receipts st1 t' i' = ranked_receipts st t' i'" "entity_versions st1 t' i' = entity_versions st t' i'" for t' i'
    by (simp_all add: ranked_receipts_def rank_receipt_def[abs_def] finds up(1) entity_versions_def up(2) cong: option.case_cong)
  let ?g = "reclassify (ranked_receipts st t i) (entity_winning ?vs) (entity_conflicted ?vs)"
  have st': "st' = rewrite_receipts ?g st1" using st1(2) same by simp
  have g: "keeps_rank ?g" by (rule reclassify_keeps)
  have ranked': "ranked_receipts st' t' i' = map (apfst ?g) (ranked_receipts st t' i')" for t' i'
    unfolding st' ranked_rewrite[OF g] same ..
  have new: "sr_disposition (fst x) = classified_as (ranked_receipts st' t i) (entity_winning ?vs) (entity_conflicted ?vs) x
      \<and> sr_reason_code (fst x) = reason_for (sr_disposition (fst x))" if "x \<in> set (ranked_receipts st' t i)" for x
  proof -
    from that obtain r u where x: "x = (?g r, u)" "(r, u) \<in> set (ranked_receipts st t i)" unfolding ranked' by force
    have "?g r = r\<lparr>sr_disposition := classified_as (ranked_receipts st t i) (entity_winning ?vs) (entity_conflicted ?vs) (r, u),
        sr_reason_code := reason_for (classified_as (ranked_receipts st t i) (entity_winning ?vs) (entity_conflicted ?vs) (r, u))\<rparr>"
      using find_ranked[OF ids x(2)] by (simp add: reclassify_def Let_def)
    then show ?thesis unfolding x(1) ranked' classified_rewrite[OF g] by simp
  qed
  show "settled st' (t, i)"
    using new up(6) v unfolding settled_def by (simp add: st' same(2) resolution_key_def Let_def)
  show "same_entity st st' key" if "key \<noteq> (t, i)"
  proof -
    have "map (apfst ?g) (ranked_receipts st (fst key) (snd key)) = ranked_receipts st (fst key) (snd key)"
    proof (rule map_idI)
      fix x
      assume "x \<in> set (ranked_receipts st (fst key) (snd key))"
      then obtain r u where x: "x = (r, u)" "r \<in> set (st_receipts st)" "receipt_key r = (Some (fst key), Some (snd key))"
        by (cases x rule: prod.exhaust) (auto simp: ranked_member)
      have "receipt_key r \<noteq> (Some t, Some i)" using x(3) that by (cases key) auto
      with x(1) reclassify_other[OF ids x(2)] show "apfst ?g x = x" by simp
    qed
    moreover have "find_resolution key st' = find_resolution key st"
      using up(7)[of key] that by (simp add: st' resolution_key_def)
    ultimately show ?thesis by (simp add: same_entity_def ranked' ) (simp add: st' same(2))
  qed
  have "?g r = r" if "r \<in> set (st_receipts st)" "sr_record_version r = None" for r
  proof -
    have "List.find (\<lambda>x. sr_id (fst x) = sr_id r) (ranked_receipts st t i) = None"
    proof (rule ccontr)
      assume "List.find (\<lambda>x. sr_id (fst x) = sr_id r) (ranked_receipts st t i) \<noteq> None"
      then obtain x where "List.find (\<lambda>x. sr_id (fst x) = sr_id r) (ranked_receipts st t i) = Some x" by blast
      from find_member[OF this] obtain r' u where x: "(r', u) \<in> set (ranked_receipts st t i)" "sr_id r' = sr_id r" by (cases x) auto
      then have "r' = r" using ids that(1) by (auto simp: ranked_member dest: inj_on_of_distinct_map inj_onD)
      with x(1) that(2) show False by (simp add: ranked_member)
    qed
    then show ?thesis by (simp add: reclassify_def)
  qed
  then show "\<exists>g. keeps_rank g \<and> st_receipts st' = map g (st_receipts st)
      \<and> (\<forall>r \<in> set (st_receipts st). sr_record_version r = None \<longrightarrow> g r = r)"
    using g up(1) by (intro exI[of _ ?g]) (simp add: st')
  show "st_versions st' = st_versions st" "st_batches st' = st_batches st" "st_evidence st' = st_evidence st"
    using up by (simp_all add: st') (simp add: rewrite_receipts_def)
qed

subsection \<open>One more receipt\<close>

text \<open>
  What a row adds: an unlinked, quarantined receipt, or a receipt linked to a version that was already
  there or is added with it.
\<close>

definition adds_receipt :: "source_receipt \<Rightarrow> record_version list \<Rightarrow> source_tables \<Rightarrow> source_tables" where
  "adds_receipt r vs st = st\<lparr>st_receipts := st_receipts st @ [r], st_versions := vs\<rparr>"

definition versions_with :: "record_version \<Rightarrow> source_tables \<Rightarrow> record_version list \<Rightarrow> bool" where
  "versions_with v st vs = (v \<in> set vs \<and> (vs = st_versions st \<or> vs = st_versions st @ [v]
     \<and> rv_id v \<notin> rv_id ` set (st_versions st) \<and> version_key v \<notin> version_key ` set (st_versions st)))"

inductive row_added :: "(string \<Rightarrow> string) \<Rightarrow> (string \<Rightarrow> pydatetime option) \<Rightarrow> uuid \<Rightarrow> nat \<times> payload
    \<Rightarrow> source_tables \<times> (string \<times> string) list \<Rightarrow> source_tables \<times> (string \<times> string) list \<Rightarrow> bool" for sha fromiso b where
  quarantined: "sr_id r \<notin> sr_id ` set (st_receipts st) \<Longrightarrow> sr_batch r = b \<Longrightarrow> sr_row_number r = int n \<Longrightarrow> sr_payload r = p \<Longrightarrow>
    sr_record_version r = None \<Longrightarrow> rejected_row r \<Longrightarrow> find_batch b st \<noteq> None \<Longrightarrow>
    row_added sha fromiso b (n, p) (st, touched) (adds_receipt r (st_versions st) st, touched)"
| linked: "sr_id r \<notin> sr_id ` set (st_receipts st) \<Longrightarrow> sr_batch r = b \<Longrightarrow> sr_row_number r = int n \<Longrightarrow> sr_payload r = p \<Longrightarrow>
    sr_record_version r = Some (rv_id v) \<Longrightarrow> carries sha fromiso r v rec \<Longrightarrow> receipt_key r = (Some t, Some i) \<Longrightarrow>
    versions_with v st vs \<Longrightarrow> find_batch b st \<noteq> None \<Longrightarrow>
    row_added sha fromiso b (n, p) (st, touched) (adds_receipt r vs st, List.insert (t, i) touched)"

lemma find_version_key: "find_version k st = Some v \<Longrightarrow> v \<in> set (st_versions st) \<and> version_key v = k"
  by (auto simp: find_version_def dest: find_member)

lemma insert_version_cases:
  assumes "insert_version v st = Inr st'"
  obtains "st' = st" "find_version (version_key v) st \<noteq> None"
    | "st' = st\<lparr>st_versions := st_versions st @ [v]\<rparr>" "rv_id v \<notin> rv_id ` set (st_versions st)"
      "version_key v \<notin> version_key ` set (st_versions st)"
proof (cases "find_version (version_key v) st = None")
  case True
  then have "version_key v \<notin> version_key ` set (st_versions st)" by (auto simp: find_version_def find_None_iff)
  then show thesis using that(2) assms True by (auto simp: insert_version_def result_simps)
next
  case False
  show thesis
  proof (cases "version_constraints v")
    case True
    then show thesis using that(1) assms False by (auto simp: insert_version_def)
  next
    case no: False
    then show thesis using assms by (auto simp: insert_version_def result_simps)
  qed
qed

lemma ingest_row_added:
  assumes ids: "distinct (map sr_id (st_receipts st))"
    and row: "ingest_row sha fromiso ids as_of et (n, p) (st, touched) = Inr s'"
  shows "row_added sha fromiso (id_batch ids) (n, p) (st, touched) s'"
proof (cases "parse_source_record fromiso et (JObj p)")
  case (Inl violation)
  let ?q = "quarantine_from_violation (Inl et) p violation"
  let ?r = "receipt_row (id_receipt ids n) (id_batch ids) n et (qr_source_id ?q) None (document_fingerprint sha (JObj p)) p
    DI_QUARANTINED (Some (qr_reason_code ?q)) as_of"
  obtain st1 where s: "insert_receipt ?r st = Inr st1" "s' = (st1, touched)"
    using row Inl by (auto simp: ingest_row_def result_simps Let_def)
  have st1: "st1 = adds_receipt ?r (st_versions st) st" "id_receipt ids n \<notin> sr_id ` set (st_receipts st)"
    "find_batch (id_batch ids) st \<noteq> None"
    using s(1) by (auto simp: insert_receipt_def result_simps receipt_row_def adds_receipt_def)
  have "strip (violation_code violation) \<noteq> []" using parse_source_coded[of fromiso et "JObj p"] Inl by (simp add: coded_def)
  then have "rejected_row ?r" by (auto simp: rejected_row_def receipt_row_def quarantine_from_violation_def)
  then show ?thesis unfolding s(2) st1(1)
    by (intro row_added.quarantined) (use st1(2,3) in \<open>simp_all add: receipt_row_def\<close>)
next
  case (Inr rec)
  let ?h = "calculate_payload_hash (sha_text sha) rec" and ?t = "entity_type_value et"
  let ?key = "(?t, record_id rec, record_source_version rec, ?h)"
  let ?r = "receipt_row (id_receipt ids n) (id_batch ids) n et (Some (record_id rec)) (Some (record_source_version rec)) ?h p
    DI_PENDING None as_of"
  obtain st1 cp st2 v where s: "insert_receipt ?r st = Inr st1"
    "insert_version \<lparr>rv_id = id_version ids n, rv_entity_type = ?t, rv_source_id = record_id rec,
       rv_source_version = record_source_version rec, rv_payload_hash = ?h, rv_canonical_payload = cp,
       rv_first_batch = id_batch ids, rv_first_receipt = id_receipt ids n, rv_first_seen_at = as_of\<rparr> st1 = Inr st2"
    "find_version ?key st2 = Some v" "canonical_text (id_receipt ids n)"
    "s' = (link_receipt (id_receipt ids n) (rv_id v) st2, List.insert (?t, record_id rec) touched)"
    using row Inr by (auto simp: ingest_row_def result_simps make_record_envelope_def split: option.splits if_splits)
  have st1: "st1 = st\<lparr>st_receipts := st_receipts st @ [?r]\<rparr>" "id_receipt ids n \<notin> sr_id ` set (st_receipts st)"
    "find_batch (id_batch ids) st \<noteq> None"
    using s(1) by (auto simp: insert_receipt_def result_simps receipt_row_def)
  have link: "link_receipt (id_receipt ids n) (rv_id v) (st\<lparr>st_receipts := st_receipts st @ [?r], st_versions := vs\<rparr>)
      = adds_receipt (?r\<lparr>sr_record_version := Some (rv_id v)\<rparr>) vs st" for vs
  proof -
    have "map (\<lambda>r. if sr_id r = id_receipt ids n then r\<lparr>sr_record_version := Some (rv_id v)\<rparr> else r) (st_receipts st) = st_receipts st"
      using st1(2) by (intro map_idI) (auto simp: image_def)
    then show ?thesis by (simp add: link_receipt_def adds_receipt_def receipt_row_def)
  qed
  have vk: "v \<in> set (st_versions st2)" "version_key v = ?key" using find_version_key[OF s(3)] by auto
  have "\<exists>vs. st2 = st\<lparr>st_receipts := st_receipts st @ [?r], st_versions := vs\<rparr> \<and> versions_with v st vs"
    using s(2)
  proof (cases rule: insert_version_cases)
    case 1
    have "st2 = st\<lparr>st_receipts := st_receipts st @ [?r], st_versions := st_versions st\<rparr>" unfolding 1(1) st1(1) by simp
    moreover have "versions_with v st (st_versions st)" using vk(1) unfolding 1(1) st1(1) by (simp add: versions_with_def)
    ultimately show ?thesis by blast
  next
    case 2
    let ?v = "\<lparr>rv_id = id_version ids n, rv_entity_type = ?t, rv_source_id = record_id rec,
       rv_source_version = record_source_version rec, rv_payload_hash = ?h, rv_canonical_payload = cp,
       rv_first_batch = id_batch ids, rv_first_receipt = id_receipt ids n, rv_first_seen_at = as_of\<rparr>"
    have st2: "st_versions st2 = st_versions st @ [?v]" "st2 = st\<lparr>st_receipts := st_receipts st @ [?r], st_versions := st_versions st @ [?v]\<rparr>"
      unfolding 2(1) st1(1) by simp_all
    have fresh: "version_key ?v = ?key" "?key \<notin> version_key ` set (st_versions st)" "rv_id ?v \<notin> rv_id ` set (st_versions st)"
      using 2(2,3) unfolding st1(1) by (simp_all add: version_key_def)
    have "v \<notin> set (st_versions st)" using vk(2) fresh(2) by force
    then have "v = ?v" using vk(1) unfolding st2(1) by simp
    then have "versions_with v st (st_versions st @ [?v])" using fresh unfolding versions_with_def by simp
    with st2(2) show ?thesis by blast
  qed
  then obtain vs where vs: "st2 = st\<lparr>st_receipts := st_receipts st @ [?r], st_versions := vs\<rparr>" "versions_with v st vs" by blast
  show ?thesis unfolding s(5) vs(1) link
  proof (rule row_added.linked[OF _ _ _ _ _ _ _ vs(2)])
    show "carries sha fromiso (?r\<lparr>sr_record_version := Some (rv_id v)\<rparr>) v rec"
      using Inr vk(2) s(4) unfolding carries_def by (intro conjI exI[of _ et]) (simp_all add: receipt_row_def)
  qed (use st1 in \<open>simp_all add: receipt_row_def receipt_key_def\<close>)
qed

lemma adds_receipt_simps [simp]:
  "st_receipts (adds_receipt r vs st) = st_receipts st @ [r]" "st_versions (adds_receipt r vs st) = vs"
  "st_batches (adds_receipt r vs st) = st_batches st" "st_evidence (adds_receipt r vs st) = st_evidence st"
  "find_batch b (adds_receipt r vs st) = find_batch b st" "counted_batch (adds_receipt r vs st) b = counted_batch st b"
  "find_resolution key (adds_receipt r vs st) = find_resolution key st"
  by (simp_all add: adds_receipt_def find_batch_def counted_batch_def find_resolution_def)

lemma versions_with_find:
  assumes "versions_with v st vs" "find_version_row i st = Some x"
  shows "find_version_row i (adds_receipt r vs st) = Some x"
  using assms by (auto simp: versions_with_def find_version_row_def adds_receipt_def find_append_left)

lemma find_own_version:
  assumes "versions_with v st vs" "distinct (map rv_id (st_versions st))"
  shows "find_version_row (rv_id v) (adds_receipt r vs st) = Some v"
proof -
  have "distinct (map rv_id vs)" "v \<in> set vs" using assms by (auto simp: versions_with_def)
  from find_unique[OF this] show ?thesis by (simp add: find_version_row_def)
qed

text \<open>Other entities see nothing of the new receipt.\<close>

lemma adds_receipt_same:
  assumes ok: "tables_ok sha fromiso st" and vs: "vs = st_versions st \<or> (\<exists>v. versions_with v st vs \<and> (rv_entity_type v, rv_source_id v) \<noteq> key)"
    and r: "sr_record_version r = None \<or> receipt_key r \<noteq> (Some (fst key), Some (snd key))"
  shows "same_entity st (adds_receipt r vs st) key"
proof -
  have "rank_receipt (adds_receipt r vs st) (fst key) (snd key) x = rank_receipt st (fst key) (snd key) x" if "x \<in> set (st_receipts st)" for x
  proof (cases "sr_record_version x")
    case (Some j)
    have "linked_ok sha fromiso st x" using ok that by (simp add: tables_ok_def)
    with Some obtain v where "find_version_row j st = Some v" by (auto simp: linked_ok_def)
    moreover from this have "find_version_row j (adds_receipt r vs st) = Some v"
      using vs versions_with_find by (auto simp: find_version_row_def)
    ultimately show ?thesis using Some by (simp add: rank_receipt_def)
  qed (simp add: rank_receipt_def)
  moreover have "rank_receipt (adds_receipt r vs st) (fst key) (snd key) r = []"
    using r by (auto simp: rank_receipt_def split: option.split)
  ultimately have "ranked_receipts (adds_receipt r vs st) (fst key) (snd key) = ranked_receipts st (fst key) (snd key)"
    by (simp add: ranked_receipts_def cong: map_cong)
  moreover have "entity_versions (adds_receipt r vs st) (fst key) (snd key) = entity_versions st (fst key) (snd key)"
    using vs by (auto simp: entity_versions_def versions_with_def prod_eq_iff)
  ultimately show ?thesis by (simp add: same_entity_def)
qed

lemma carries_key:
  "carries sha fromiso r v rec \<Longrightarrow> receipt_key r = (Some t, Some i) \<Longrightarrow> (rv_entity_type v, rv_source_id v) = (t, i)"
  by (auto simp: carries_def receipt_key_def version_key_def)

lemma tables_ok_adds:
  assumes ok: "tables_ok sha fromiso st" and fresh: "sr_id r \<notin> sr_id ` set (st_receipts st)" "find_batch (sr_batch r) st \<noteq> None"
    and link: "sr_record_version r = None \<and> vs = st_versions st
      \<or> (\<exists>v rec. sr_record_version r = Some (rv_id v) \<and> carries sha fromiso r v rec \<and> versions_with v st vs \<and> counted_batch st (sr_batch r))"
  shows "tables_ok sha fromiso (adds_receipt r vs st)"
proof -
  let ?st = "adds_receipt r vs st"
  have old: "linked_ok sha fromiso ?st x" if "x \<in> set (st_receipts st)" for x
  proof -
    have "linked_ok sha fromiso st x" using ok that by (simp add: tables_ok_def)
    moreover have "find_version_row i ?st = Some v" if "find_version_row i st = Some v" for i v
      using link that versions_with_find by (auto simp: find_version_row_def)
    ultimately show ?thesis by (fastforce simp: linked_ok_def split: option.splits)
  qed
  have new: "linked_ok sha fromiso ?st r"
  proof (cases "sr_record_version r")
    case (Some j)
    then obtain v rec where v: "j = rv_id v" "carries sha fromiso r v rec" "versions_with v st vs" "counted_batch st (sr_batch r)"
      using link by auto
    have "find_version_row j ?st = Some v"
      using find_own_version[OF v(3)] ok by (simp add: v(1) tables_ok_def)
    then show ?thesis using v(2,4) Some by (auto simp: linked_ok_def)
  qed (simp add: linked_ok_def)
  have "distinct (map rv_id vs) \<and> distinct (map version_key vs)"
    using ok link by (auto simp: tables_ok_def versions_with_def)
  moreover have "\<exists>x \<in> set (st_receipts ?st). sr_record_version x = Some (rv_id v)" if "v \<in> set vs" for v
  proof (cases "v \<in> set (st_versions st)")
    case True
    then show ?thesis using ok by (auto simp: tables_ok_def)
  next
    case False
    then have "sr_record_version r = Some (rv_id v)" using link that by (auto simp: versions_with_def)
    then show ?thesis by simp
  qed
  ultimately show ?thesis using ok fresh old new by (auto simp: tables_ok_def)
qed

subsection \<open>All rows of a delivery\<close>

text \<open>What the staging of a delivery maintains: the receipts of its batch are classified later or quarantined.\<close>

definition classified_or_linked :: "uuid \<Rightarrow> source_tables \<Rightarrow> bool" where
  "classified_or_linked b st = (\<forall>r \<in> set (st_receipts st). sr_batch r = b \<longrightarrow> sr_record_version r \<noteq> None \<or> rejected_row r)"

lemma row_added_facts:
  assumes "row_added sha fromiso b x (st, touched) (st', touched')"
    and ok: "tables_ok sha fromiso st" and counted: "counted_batch st b"
  shows "tables_ok sha fromiso st'" and "counted_batch st' = counted_batch st" and "set touched \<subseteq> set touched'"
    and "key \<notin> set touched' \<Longrightarrow> same_entity st st' key"
    and "\<exists>r. st_receipts st' = st_receipts st @ [r] \<and> sr_batch r = b \<and> sr_row_number r = int (fst x) \<and> sr_payload r = snd x
      \<and> (sr_record_version r \<noteq> None \<or> rejected_row r)"
    and "st_batches st' = st_batches st" and "st_evidence st' = st_evidence st"
proof -
  from assms(1) have "tables_ok sha fromiso st' \<and> counted_batch st' = counted_batch st \<and> set touched \<subseteq> set touched'
    \<and> (key \<notin> set touched' \<longrightarrow> same_entity st st' key)
    \<and> (\<exists>r. st_receipts st' = st_receipts st @ [r] \<and> sr_batch r = b \<and> sr_row_number r = int (fst x) \<and> sr_payload r = snd x
      \<and> (sr_record_version r \<noteq> None \<or> rejected_row r))
    \<and> st_batches st' = st_batches st \<and> st_evidence st' = st_evidence st" for key
  proof cases
    case (quarantined r n p)
    have "tables_ok sha fromiso st'" unfolding quarantined(2)
      using quarantined by (intro tables_ok_adds[OF ok]) auto
    moreover have "same_entity st st' key" unfolding quarantined(2)
      using quarantined by (intro adds_receipt_same[OF ok]) auto
    ultimately show ?thesis using quarantined by auto
  next
    case (linked r n p v rec t i vs)
    have "tables_ok sha fromiso st'" unfolding linked(2)
      using linked counted by (intro tables_ok_adds[OF ok]) auto
    moreover have "same_entity st st' key" if "key \<notin> set touched'" for key
    proof -
      have "key \<noteq> (t, i)" using that linked(3) by auto
      then show ?thesis unfolding linked(2)
        using linked(10,9) carries_key[OF linked(9,10)] linked(11)
        by (intro adds_receipt_same[OF ok]) auto
    qed
    ultimately show ?thesis using linked by auto
  qed
  then show "tables_ok sha fromiso st'" "counted_batch st' = counted_batch st" "set touched \<subseteq> set touched'"
    "key \<notin> set touched' \<Longrightarrow> same_entity st st' key"
    "\<exists>r. st_receipts st' = st_receipts st @ [r] \<and> sr_batch r = b \<and> sr_row_number r = int (fst x) \<and> sr_payload r = snd x
      \<and> (sr_record_version r \<noteq> None \<or> rejected_row r)"
    "st_batches st' = st_batches st" "st_evidence st' = st_evidence st"
    by blast+
qed

lemma rows_added:
  assumes "fold_result (ingest_row sha fromiso ids as_of et) xs (st, touched) = Inr (st', touched')"
    and "tables_ok sha fromiso st" and "counted_batch st (id_batch ids)"
  shows "tables_ok sha fromiso st'" and "counted_batch st' = counted_batch st" and "set touched \<subseteq> set touched'"
    and "key \<notin> set touched' \<Longrightarrow> same_entity st st' key"
    and "\<exists>rs. st_receipts st' = st_receipts st @ rs \<and> map (\<lambda>r. (sr_row_number r, sr_payload r)) rs = map (apfst int) xs
      \<and> (\<forall>r \<in> set rs. sr_batch r = id_batch ids \<and> (sr_record_version r \<noteq> None \<or> rejected_row r))"
    and "st_batches st' = st_batches st" and "st_evidence st' = st_evidence st"
proof -
  have "tables_ok sha fromiso st' \<and> counted_batch st' = counted_batch st \<and> set touched \<subseteq> set touched'
    \<and> (\<forall>key. key \<notin> set touched' \<longrightarrow> same_entity st st' key)
    \<and> (\<exists>rs. st_receipts st' = st_receipts st @ rs \<and> map (\<lambda>r. (sr_row_number r, sr_payload r)) rs = map (apfst int) xs
      \<and> (\<forall>r \<in> set rs. sr_batch r = id_batch ids \<and> (sr_record_version r \<noteq> None \<or> rejected_row r)))
    \<and> st_batches st' = st_batches st \<and> st_evidence st' = st_evidence st"
    using assms
  proof (induction xs arbitrary: st touched)
    case Nil
    then show ?case by (auto intro: exI[of _ "[]"])
  next
    case (Cons x xs)
    obtain s1 t1 where row: "ingest_row sha fromiso ids as_of et x (st, touched) = Inr (s1, t1)"
      and rest: "fold_result (ingest_row sha fromiso ids as_of et) xs (s1, t1) = Inr (st', touched')"
      using Cons.prems(1) by (auto simp: result_simps)
    obtain n p where x: "x = (n, p)" by (cases x)
    have ids: "distinct (map sr_id (st_receipts st))" using Cons.prems(2) by (simp add: tables_ok_def)
    have added: "row_added sha fromiso (id_batch ids) x (st, touched) (s1, t1)"
      using ingest_row_added[OF ids row[unfolded x]] unfolding x .
    note f = row_added_facts[OF added Cons.prems(2,3)]
    have counted: "counted_batch s1 (id_batch ids)" using f(2) Cons.prems(3) by simp
    note ih = Cons.IH[OF rest f(1) counted]
    obtain r where r: "st_receipts s1 = st_receipts st @ [r]" "sr_batch r = id_batch ids" "sr_row_number r = int (fst x)"
      "sr_payload r = snd x" "sr_record_version r \<noteq> None \<or> rejected_row r"
      using f(5) by blast
    obtain rs where rs: "st_receipts st' = st_receipts s1 @ rs" "map (\<lambda>r. (sr_row_number r, sr_payload r)) rs = map (apfst int) xs"
      "\<forall>r \<in> set rs. sr_batch r = id_batch ids \<and> (sr_record_version r \<noteq> None \<or> rejected_row r)"
      using ih by blast
    have inherited: "tables_ok sha fromiso st'" "counted_batch st' = counted_batch st" "set touched \<subseteq> set touched'"
      "st_batches st' = st_batches st" "st_evidence st' = st_evidence st" and later: "set t1 \<subseteq> set touched'"
      using ih f(2,3,6,7) by auto
    have same: "same_entity st st' key" if "key \<notin> set touched'" for key
    proof (rule same_entity_trans)
      show "same_entity st s1 key" using f(4) later that by blast
      show "same_entity s1 st' key" using ih that by blast
    qed
    have rows: "st_receipts st' = st_receipts st @ (r # rs)" using r(1) rs(1) by simp
    have numbers: "map (\<lambda>r. (sr_row_number r, sr_payload r)) (r # rs) = map (apfst int) (x # xs)"
      using r(3,4) rs(2) by (simp add: apfst_def map_prod_def split_def)
    have batch: "\<forall>r \<in> set (r # rs). sr_batch r = id_batch ids \<and> (sr_record_version r \<noteq> None \<or> rejected_row r)"
      using r(2,5) rs(3) by simp
    show ?case
      by (intro conjI allI impI inherited same exI[of _ "r # rs"] rows numbers batch)
  qed
  then show "tables_ok sha fromiso st'" "counted_batch st' = counted_batch st" "set touched \<subseteq> set touched'"
    "key \<notin> set touched' \<Longrightarrow> same_entity st st' key"
    "\<exists>rs. st_receipts st' = st_receipts st @ rs \<and> map (\<lambda>r. (sr_row_number r, sr_payload r)) rs = map (apfst int) xs
      \<and> (\<forall>r \<in> set rs. sr_batch r = id_batch ids \<and> (sr_record_version r \<noteq> None \<or> rejected_row r))"
    "st_batches st' = st_batches st" "st_evidence st' = st_evidence st"
    by blast+
qed

end
