(* ===== verification/Ingestion_Invariant.thy ===== *)
theory Ingestion_Invariant
  imports Ingestion_Facts
begin

text \<open>
  The invariant of the ingestion database between transactions and its preservation by a delivery and by the work
  on the recovery queue; the reachable databases.
\<close>

subsection \<open>Resolving the touched entities\<close>

lemma tables_ok_rewrite:
  assumes ok: "tables_ok sha fromiso st" and g: "keeps_rank g"
    and st': "st_receipts st' = map g (st_receipts st)" "st_versions st' = st_versions st" "st_batches st' = st_batches st"
  shows "tables_ok sha fromiso st'" "counted_batch st' = counted_batch st"
proof -
  note f = keeps_rank_fields[OF g]
  have finds: "find_version_row j st' = find_version_row j st" "find_batch b st' = find_batch b st" for j b
    using st' by (simp_all add: find_version_row_def find_batch_def)
  then show counted: "counted_batch st' = counted_batch st" by (auto simp: counted_batch_def)
  have "carries sha fromiso (g r) v rec = carries sha fromiso r v rec" for r v rec
    by (simp add: carries_def f)
  then have linked: "linked_ok sha fromiso st' (g r) = linked_ok sha fromiso st r" for r
    by (simp add: linked_ok_def f finds counted cong: option.case_cong)
  have "distinct (map sr_id (st_receipts st'))" using ok st'(1) by (simp add: tables_ok_def comp_def f)
  then show "tables_ok sha fromiso st'"
    using ok linked unfolding tables_ok_def st' by (auto simp: f finds)
qed

lemma keeps_rank_id: "keeps_rank (\<lambda>r. r)"
proof -
  have "\<exists>d c. r = r\<lparr>sr_disposition := d, sr_reason_code := c\<rparr>" for r :: source_receipt
    by (rule exI[of _ "sr_disposition r"], rule exI[of _ "sr_reason_code r"]) simp
  then show ?thesis by (simp add: keeps_rank_def)
qed

lemma keeps_rank_comp: "keeps_rank g \<Longrightarrow> keeps_rank f \<Longrightarrow> keeps_rank (g \<circ> f)"
  unfolding keeps_rank_def comp_def by (metis (no_types) source_receipt.surjective source_receipt.update_convs(9,10))

lemma entities_resolved:
  assumes "fold_result (resolve_entity now) keys st = Inr st'" and "tables_ok sha fromiso st"
  shows "tables_ok sha fromiso st'" and "counted_batch st' = counted_batch st"
    and "key \<in> set keys \<Longrightarrow> settled st' key" and "key \<notin> set keys \<Longrightarrow> same_entity st st' key"
    and "\<exists>g. keeps_rank g \<and> st_receipts st' = map g (st_receipts st)
      \<and> (\<forall>r \<in> set (st_receipts st). sr_record_version r = None \<longrightarrow> g r = r)"
    and "st_batches st' = st_batches st" and "st_evidence st' = st_evidence st" and "st_versions st' = st_versions st"
proof -
  have "tables_ok sha fromiso st' \<and> counted_batch st' = counted_batch st
    \<and> (\<forall>key. (key \<in> set keys \<longrightarrow> settled st' key) \<and> (key \<notin> set keys \<longrightarrow> same_entity st st' key))
    \<and> (\<exists>g. keeps_rank g \<and> st_receipts st' = map g (st_receipts st)
      \<and> (\<forall>r \<in> set (st_receipts st). sr_record_version r = None \<longrightarrow> g r = r))
    \<and> st_batches st' = st_batches st \<and> st_evidence st' = st_evidence st \<and> st_versions st' = st_versions st"
    using assms
  proof (induction keys arbitrary: st)
    case Nil
    then show ?case using keeps_rank_id by (auto intro: exI[of _ "\<lambda>r. r"])
  next
    case (Cons k ks)
    obtain s1 where one: "resolve_entity now k st = Inr s1" and rest: "fold_result (resolve_entity now) ks s1 = Inr st'"
      using Cons.prems(1) by (auto simp: result_simps)
    obtain t i where k: "k = (t, i)" by (cases k)
    have ids: "distinct (map sr_id (st_receipts st))" using Cons.prems(2) by (simp add: tables_ok_def)
    note f = resolve_entity_settles[OF ids one[unfolded k]]
    obtain g where g: "keeps_rank g" "st_receipts s1 = map g (st_receipts st)"
      "\<forall>r \<in> set (st_receipts st). sr_record_version r = None \<longrightarrow> g r = r"
      using f(3) by blast
    note ok = tables_ok_rewrite[OF Cons.prems(2) g(1,2) f(4,5)]
    note ih = Cons.IH[OF rest ok(1)]
    obtain g' where g': "keeps_rank g'" "st_receipts st' = map g' (st_receipts s1)"
      "\<forall>r \<in> set (st_receipts s1). sr_record_version r = None \<longrightarrow> g' r = r"
      using ih by blast
    have settled: "settled st' key" if "key \<in> set (k # ks)" for key
    proof (cases "key \<in> set ks")
      case False
      then have "key = (t, i)" using that k by simp
      then show ?thesis using f(1) ih False settled_same by blast
    qed (use ih in blast)
    have same: "same_entity st st' key" if "key \<notin> set (k # ks)" for key
    proof (rule same_entity_trans)
      show "same_entity st s1 key" using f(2) that k by simp
      show "same_entity s1 st' key" using ih that by (meson list.set_intros(2))
    qed
    have "st_receipts st' = map (g' \<circ> g) (st_receipts st)" using g(2) g'(2) by simp
    moreover have "\<forall>r \<in> set (st_receipts st). sr_record_version r = None \<longrightarrow> (g' \<circ> g) r = r"
      using g g'(3) by (auto simp: keeps_rank_fields[OF g(1)])
    ultimately have "\<exists>g. keeps_rank g \<and> st_receipts st' = map g (st_receipts st)
        \<and> (\<forall>r \<in> set (st_receipts st). sr_record_version r = None \<longrightarrow> g r = r)"
      using keeps_rank_comp[OF g'(1) g(1)] by blast
    with settled same ih ok(2) f(4,5,6) show ?case by simp
  qed
  then show "tables_ok sha fromiso st'" "counted_batch st' = counted_batch st"
    "key \<in> set keys \<Longrightarrow> settled st' key" "key \<notin> set keys \<Longrightarrow> same_entity st st' key"
    "\<exists>g. keeps_rank g \<and> st_receipts st' = map g (st_receipts st)
      \<and> (\<forall>r \<in> set (st_receipts st). sr_record_version r = None \<longrightarrow> g r = r)"
    "st_batches st' = st_batches st" "st_evidence st' = st_evidence st" "st_versions st' = st_versions st"
    by blast+
qed

subsection \<open>Adding and committing the batch\<close>

lemma insert_batch_facts:
  assumes "insert_batch b st = Inr st'"
  shows "st' = st\<lparr>st_batches := st_batches st @ [b]\<rparr>" "ib_id b \<notin> ib_id ` set (st_batches st)"
    "ib_delivery_key b \<notin> ib_delivery_key ` set (st_batches st)"
  using assms by (auto simp: insert_batch_def result_simps)

text \<open>A change of the batches that keeps the standing of those that receipts belong to.\<close>

lemma batches_changed:
  assumes ok: "tables_ok sha fromiso st"
    and st': "st_receipts st' = st_receipts st" "st_versions st' = st_versions st" "st_resolutions st' = st_resolutions st"
    and batches: "distinct (map ib_id (st_batches st'))" "distinct (map ib_delivery_key (st_batches st'))"
    and keep: "\<And>i. find_batch i st \<noteq> None \<Longrightarrow> find_batch i st' \<noteq> None \<and> counted_batch st' i = counted_batch st i"
  shows "tables_ok sha fromiso st'" and "same_entity st st' key"
proof -
  have finds: "find_version_row j st' = find_version_row j st" for j using st' by (simp add: find_version_row_def)
  have linked: "linked_ok sha fromiso st' r" if "r \<in> set (st_receipts st)" for r
    using ok that keep[of "sr_batch r"] by (auto simp: tables_ok_def linked_ok_def finds split: option.splits)
  show "tables_ok sha fromiso st'"
    using ok linked batches keep unfolding tables_ok_def st' by blast
  have "rank_receipt st' (fst key) (snd key) r = rank_receipt st (fst key) (snd key) r" if "r \<in> set (st_receipts st)" for r
    using ok that keep[of "sr_batch r"] by (auto simp: rank_receipt_def finds tables_ok_def split: option.split)
  then show "same_entity st st' key"
    by (simp add: same_entity_def ranked_receipts_def st' entity_versions_def find_resolution_def cong: map_cong)
qed

lemma batch_inserted:
  assumes ok: "tables_ok sha fromiso st" and ins: "insert_batch b st = Inr st'" and b: "ib_status b = IS_PROCESSING"
  shows "tables_ok sha fromiso st'" "same_entity st st' key" "counted_batch st' (ib_id b)"
    "st_receipts st' = st_receipts st" "st_evidence st' = st_evidence st" "st_batches st' = st_batches st @ [b]"
proof -
  note f = insert_batch_facts[OF ins]
  show facts: "st_receipts st' = st_receipts st" "st_evidence st' = st_evidence st" "st_batches st' = st_batches st @ [b]"
    by (simp_all add: f(1))
  have keep: "find_batch i st' \<noteq> None \<and> counted_batch st' i = counted_batch st i" if found: "find_batch i st \<noteq> None" for i
  proof -
    obtain x where "find_batch i st = Some x" using found by blast
    moreover from this have "find_batch i st' = Some x" by (simp add: find_batch_def facts(3) find_append_left)
    ultimately show ?thesis by (simp add: counted_batch_def)
  qed
  have "find_batch (ib_id b) st' = Some b"
  proof -
    have "List.find (\<lambda>x. ib_id x = ib_id b) (st_batches st) = None" using f(2) by (auto simp: find_None_iff image_def)
    then show ?thesis by (simp add: find_batch_def facts(3) find_append)
  qed
  then show "counted_batch st' (ib_id b)" by (simp add: counted_batch_def b)
  show "tables_ok sha fromiso st'" "same_entity st st' key"
    using f(2,3) ok by (intro batches_changed[OF ok _ _ _ _ _ keep]; simp add: f(1) tables_ok_def)+
qed

lemma find_batch_update:
  assumes "\<And>b. ib_id (f b) = ib_id b"
  shows "List.find (\<lambda>b. ib_id b = j) (map (\<lambda>b. if ib_id b = i then f b else b) bs)
    = map_option (\<lambda>b. if ib_id b = i then f b else b) (List.find (\<lambda>b. ib_id b = j) bs)"
  using assms by (intro find_same_key) simp

lemma batch_committed:
  assumes ok: "tables_ok sha fromiso st" and upd: "update_batch i (\<lambda>b. b\<lparr>ib_status := IS_COMMITTED, ib_committed_at := Some now\<rparr>) st = Inr st'"
    and counted: "counted_batch st i"
  shows "tables_ok sha fromiso st'" "same_entity st st' key"
    "st_receipts st' = st_receipts st" "st_evidence st' = st_evidence st"
    "st_batches st' = map (\<lambda>b. if ib_id b = i then b\<lparr>ib_status := IS_COMMITTED, ib_committed_at := Some now\<rparr> else b) (st_batches st)"
proof -
  let ?f = "\<lambda>b. b\<lparr>ib_status := IS_COMMITTED, ib_committed_at := Some now\<rparr>"
  have st': "st' = st\<lparr>st_batches := map (\<lambda>b. if ib_id b = i then ?f b else b) (st_batches st)\<rparr>"
    using upd by (auto simp: update_batch_def result_simps)
  then show facts: "st_receipts st' = st_receipts st" "st_evidence st' = st_evidence st"
    "st_batches st' = map (\<lambda>b. if ib_id b = i then ?f b else b) (st_batches st)" by simp_all
  have found: "find_batch j st' = map_option (\<lambda>b. if ib_id b = i then ?f b else b) (find_batch j st)" for j
    unfolding find_batch_def facts(3) by (rule find_batch_update) simp
  have keep: "find_batch j st' \<noteq> None \<and> counted_batch st' j = counted_batch st j" if "find_batch j st \<noteq> None" for j
  proof -
    obtain b where b: "find_batch j st = Some b" using \<open>find_batch j st \<noteq> None\<close> by blast
    then have "ib_id b = j" by (auto simp: find_batch_def dest: find_member)
    then show ?thesis using b counted found[of j] by (auto simp: counted_batch_def)
  qed
  have same_columns: "map ib_id (st_batches st') = map ib_id (st_batches st)"
    "map ib_delivery_key (st_batches st') = map ib_delivery_key (st_batches st)" by (simp_all add: facts(3))
  have distinct: "distinct (map ib_id (st_batches st'))" "distinct (map ib_delivery_key (st_batches st'))"
    unfolding same_columns using ok by (simp_all add: tables_ok_def)
  have rest: "st_versions st' = st_versions st" "st_resolutions st' = st_resolutions st" by (simp_all add: st')
  note changed = batches_changed[OF ok facts(1) rest distinct keep]
  show "tables_ok sha fromiso st'" by (rule changed(1))
  show "same_entity st st' key" by (rule changed(2))
qed

subsection \<open>A delivery is staged\<close>

lemma row_versions:
  assumes "ingest_row sha fromiso ids as_of et x (st, touched) = Inr (st', touched')"
  shows "\<exists>vs. st_versions st' = st_versions st @ vs"
proof -
  obtain n p where x: "x = (n, p)" by (cases x)
  have keep: "st_versions s' = st_versions s" if "insert_receipt r s = Inr s'" for r s s'
    using that by (auto simp: insert_receipt_def result_simps)
  have grow: "\<exists>vs. st_versions s' = st_versions s @ vs" if "insert_version v s = Inr s'" for v s s'
    using that by (cases rule: insert_version_cases) auto
  show ?thesis
  proof (cases "parse_source_record fromiso et (JObj p)")
    case (Inl violation)
    then show ?thesis using assms keep unfolding x by (auto simp: ingest_row_def result_simps Let_def)
  next
    case (Inr rec)
    then obtain r s1 v s2 k i where "insert_receipt r st = Inr s1" "insert_version v s1 = Inr s2" "st' = link_receipt k i s2"
      using assms unfolding x by (auto simp: ingest_row_def result_simps Let_def split: option.splits)
    then show ?thesis using keep grow by (fastforce simp: link_receipt_def)
  qed
qed

lemma rows_versions:
  "fold_result (ingest_row sha fromiso ids as_of et) xs (st, touched) = Inr (st', touched') \<Longrightarrow>
    \<exists>vs. st_versions st' = st_versions st @ vs"
proof (induction xs arbitrary: st touched)
  case (Cons x xs)
  then obtain s1 t1 where row: "ingest_row sha fromiso ids as_of et x (st, touched) = Inr (s1, t1)"
    and rest: "fold_result (ingest_row sha fromiso ids as_of et) xs (s1, t1) = Inr (st', touched')"
    by (auto simp: result_simps)
  from row_versions[OF row] Cons.IH[OF rest] show ?case by auto
qed simp

text \<open>Changes that resolution does not look at.\<close>

lemma tables_ok_same:
  assumes "st_receipts st' = st_receipts st" "st_versions st' = st_versions st" "st_batches st' = st_batches st"
    "st_resolutions st' = st_resolutions st"
  shows "tables_ok sha fromiso st' = tables_ok sha fromiso st" "same_entity st st' key" "counted_batch st' = counted_batch st"
proof -
  have finds: "find_version_row j st' = find_version_row j st" "find_batch b st' = find_batch b st" for j b
    using assms by (simp_all add: find_version_row_def find_batch_def)
  then show counted: "counted_batch st' = counted_batch st" by (auto simp: counted_batch_def)
  have "linked_ok sha fromiso st' = linked_ok sha fromiso st"
    by (intro ext) (simp add: linked_ok_def finds counted cong: option.case_cong)
  then show "tables_ok sha fromiso st' = tables_ok sha fromiso st" by (simp add: tables_ok_def assms finds)
  have "rank_receipt st' (fst key) (snd key) = rank_receipt st (fst key) (snd key)"
    by (intro ext) (simp add: rank_receipt_def finds counted cong: option.case_cong)
  then show "same_entity st st' key"
    by (simp add: same_entity_def ranked_receipts_def entity_versions_def find_resolution_def assms)
qed

lemma delivery_staged:
  assumes staged: "stage_delivery sha fromiso ids as_of now d st = Inr st'"
    and ok: "tables_ok sha fromiso st" and settled: "\<And>key. settled st key"
  shows "tables_ok sha fromiso st'" and "settled st' key" and "counted_batch st' (id_batch ids)"
    and "st_batches st' = st_batches st @ [delivery_batch sha ids as_of d]"
    and "st_evidence st' = st_evidence st
      @ [\<lparr>de_batch = id_batch ids, de_data_bytes = vd_data_bytes d, de_manifest_bytes = vd_manifest_bytes d\<rparr>]"
    and "id_batch ids \<notin> ib_id ` set (st_batches st)"
    and "\<exists>vs. st_versions st' = st_versions st @ vs"
    and "\<exists>g rs. keeps_rank g \<and> st_receipts st' = map g (st_receipts st) @ rs
      \<and> (\<forall>r \<in> set (st_receipts st). sr_record_version r = None \<longrightarrow> g r = r)
      \<and> map (\<lambda>r. (sr_row_number r, sr_payload r)) rs = map (apfst int) (numbered_rows (vd_records d))
      \<and> (\<forall>r \<in> set rs. sr_batch r = id_batch ids \<and> (sr_record_version r \<noteq> None \<or> rejected_row r))"
proof -
  let ?b = "delivery_batch sha ids as_of d"
  let ?e = "\<lparr>de_batch = id_batch ids, de_data_bytes = vd_data_bytes d, de_manifest_bytes = vd_manifest_bytes d\<rparr>"
  obtain st1 st2 st3 touched where s: "insert_batch ?b st = Inr st1" "insert_evidence ?e st1 = Inr st2"
    "fold_result (ingest_row sha fromiso ids as_of (vd_entity_type d)) (numbered_rows (vd_records d)) (st2, []) = Inr (st3, touched)"
    "fold_result (resolve_entity now) (sort_key entity_sort_key touched) st3 = Inr st'"
    using staged by (auto simp: stage_delivery_def result_simps)
  have id: "ib_id ?b = id_batch ids" "ib_status ?b = IS_PROCESSING" by (simp_all add: delivery_batch_def)
  note f1 = batch_inserted[OF ok s(1) id(2)]
  have st1_versions: "st_versions st1 = st_versions st" using insert_batch_facts(1)[OF s(1)] by simp
  have st2: "st2 = st1\<lparr>st_evidence := st_evidence st1 @ [?e]\<rparr>"
    using s(2) by (auto simp: insert_evidence_def result_simps)
  note f2 = tables_ok_same[of st2 st1, unfolded st2, simplified, folded st2]
  have ok2: "tables_ok sha fromiso st2" using f1(1) f2(1) by simp
  have counted2: "counted_batch st2 (id_batch ids)" using f1(3) f2(3) id(1) by simp
  note f3 = rows_added[OF s(3) ok2 counted2]
  note f4 = entities_resolved[OF s(4) f3(1)]
  show "tables_ok sha fromiso st'" by (rule f4(1))
  show "settled st' key"
  proof (cases "key \<in> set (sort_key entity_sort_key touched)")
    case True
    then show ?thesis by (rule f4(3))
  next
    case False
    then have outside: "key \<notin> set touched" by simp
    have "same_entity st st' key"
      by (rule same_entity_trans[OF f1(2) same_entity_trans[OF f2(2) same_entity_trans[OF f3(4)[OF outside] f4(4)[OF False]]]])
    then show ?thesis by (rule settled_same) (rule settled)
  qed
  show "counted_batch st' (id_batch ids)" using counted2 f3(2) f4(2) by simp
  show "st_batches st' = st_batches st @ [?b]" using f1(6) f3(6) f4(6) by (simp add: st2)
  show "st_evidence st' = st_evidence st @ [?e]" using f1(5) f3(7) f4(7) by (simp add: st2)
  show "id_batch ids \<notin> ib_id ` set (st_batches st)" using insert_batch_facts(2)[OF s(1)] id(1) by simp
  show "\<exists>vs. st_versions st' = st_versions st @ vs"
    using rows_versions[OF s(3)] f4(8) st1_versions by (simp add: st2)
  obtain rs where rs: "st_receipts st3 = st_receipts st @ rs"
    "map (\<lambda>r. (sr_row_number r, sr_payload r)) rs = map (apfst int) (numbered_rows (vd_records d))"
    "\<forall>r \<in> set rs. sr_batch r = id_batch ids \<and> (sr_record_version r \<noteq> None \<or> rejected_row r)"
    using f3(5) f1(4) by (auto simp: st2)
  obtain g where g: "keeps_rank g" "st_receipts st' = map g (st_receipts st3)"
    "\<forall>r \<in> set (st_receipts st3). sr_record_version r = None \<longrightarrow> g r = r"
    using f4(5) by blast
  have "st_receipts st' = map g (st_receipts st) @ map g rs" using g(2) rs(1) by simp
  moreover have "map (\<lambda>r. (sr_row_number r, sr_payload r)) (map g rs) = map (apfst int) (numbered_rows (vd_records d))"
    using rs(2) by (simp add: comp_def keeps_rank_fields[OF g(1)])
  moreover have "\<forall>r \<in> set (map g rs). sr_batch r = id_batch ids \<and> (sr_record_version r \<noteq> None \<or> rejected_row r)"
    using rs g(3) by (fastforce simp: keeps_rank_fields[OF g(1)])
  moreover have "\<forall>r \<in> set (st_receipts st). sr_record_version r = None \<longrightarrow> g r = r" using g(3) rs(1) by simp
  ultimately show "\<exists>g rs. keeps_rank g \<and> st_receipts st' = map g (st_receipts st) @ rs
      \<and> (\<forall>r \<in> set (st_receipts st). sr_record_version r = None \<longrightarrow> g r = r)
      \<and> map (\<lambda>r. (sr_row_number r, sr_payload r)) rs = map (apfst int) (numbered_rows (vd_records d))
      \<and> (\<forall>r \<in> set rs. sr_batch r = id_batch ids \<and> (sr_record_version r \<noteq> None \<or> rejected_row r))"
    using g(1) by blast
qed

subsection \<open>The database between transactions\<close>

definition batch_whole :: "(string \<Rightarrow> string) \<Rightarrow> source_tables \<Rightarrow> ingestion_batch \<Rightarrow> bool" where
  "batch_whole sha st b = (ib_status b = IS_COMMITTED \<and> ib_declared_rows b = ib_observed_rows b
     \<and> (\<exists>e \<in> set (st_evidence st). de_batch e = ib_id b \<and> sha (de_data_bytes e) = ib_file_checksum b
         \<and> sha (de_manifest_bytes e) = ib_manifest_checksum b)
     \<and> map sr_row_number (filter (\<lambda>r. sr_batch r = ib_id b) (st_receipts st)) = [1..ib_observed_rows b])"

definition has_request :: "recovery_queue \<Rightarrow> uuid \<Rightarrow> bool" where
  "has_request q i = (\<exists>r \<in> set (q_requests q). rq_trigger_batch r = Some i)"

text \<open>The foreign key of the trigger of a request.\<close>

definition triggers_known :: "source_tables \<Rightarrow> recovery_queue \<Rightarrow> bool" where
  "triggers_known st q = (\<forall>r \<in> set (q_requests q). \<forall>i. rq_trigger_batch r = Some i \<longrightarrow> i \<in> ib_id ` set (st_batches st))"

definition database_ok :: "(string \<Rightarrow> string) \<Rightarrow> (string \<Rightarrow> pydatetime option) \<Rightarrow> database \<Rightarrow> bool" where
  "database_ok sha fromiso db = (tables_ok sha fromiso (db_sources db) \<and> (\<forall>key. settled (db_sources db) key)
     \<and> (\<forall>r \<in> set (st_receipts (db_sources db)). sr_record_version r \<noteq> None \<or> rejected_row r)
     \<and> (\<forall>b \<in> set (st_batches (db_sources db)). batch_whole sha (db_sources db) b \<and> has_request (db_queue db) (ib_id b))
     \<and> triggers_known (db_sources db) (db_queue db) \<and> queue_ok (db_queue db))"

lemma numbers_from_one: "map int [1..<Suc n] = [1..int n]"
proof (induction n)
  case (Suc n)
  have "[1..int (Suc n)] = [1..int n] @ [int (Suc n)]" using upto_rec2[of 1 "int (Suc n)"] by simp
  with Suc show ?case by simp
qed simp

lemma numbered_row_numbers: "map (int \<circ> fst) (numbered_rows rows) = [1..int (length rows)]"
proof -
  have "map fst (numbered_rows rows) = [1..<Suc (length rows)]" by (simp add: numbered_rows_def)
  then have "map (int \<circ> fst) (numbered_rows rows) = map int [1..<Suc (length rows)]"
    by (simp only: map_map[symmetric])
  then show ?thesis by (simp only: numbers_from_one)
qed

subsection \<open>The transaction keeps the database\<close>

definition delivery_committed ::
  "ingest_config \<Rightarrow> fresh_ids \<Rightarrow> instant \<Rightarrow> instant \<Rightarrow> verified_delivery \<Rightarrow> database \<Rightarrow> database \<Rightarrow> bool" where
  "delivery_committed cfg ids as_of now d db db' =
     (find_delivery (delivery_key (ic_sha cfg) d) (db_sources db) = None
      \<and> (\<exists>st. stage_delivery (ic_sha cfg) (ic_fromiso cfg) ids as_of now d (db_sources db) = Inr st
           \<and> finish_delivery (ic_sha cfg) ids as_of now d st (db_queue db) = Inr db'))"

lemma ingest_verified_cases:
  assumes "ingest_verified cfg hook ids as_of now fate d db h = (out, db', h')"
  shows "db' = db \<and> (\<forall>x. out = Inr x \<longrightarrow> (\<exists>b. find_delivery (delivery_key (ic_sha cfg) d) (db_sources db) = Some b
        \<and> reuse_delivery b (db_queue db) = Inr x))
    \<or> delivery_committed cfg ids as_of now d db db'
        \<and> (\<forall>x. out = Inr x \<longrightarrow> x = \<lparr>io_batch = id_batch ids, io_request = id_request ids, io_reused = False\<rparr>)"
proof (cases "acquire_entity_locks (ic_digest cfg) True (identity_keys (ic_fromiso cfg) d)")
  case (Inr locks)
  show ?thesis
  proof (cases "find_delivery (delivery_key (ic_sha cfg) d) (db_sources db)")
    case (Some b)
    then show ?thesis using assms Inr by (auto simp: ingest_verified_def)
  next
    case None
    show ?thesis
    proof (cases "stage_delivery (ic_sha cfg) (ic_fromiso cfg) ids as_of now d (db_sources db)")
      case (Inr st)
      then show ?thesis
        using assms \<open>acquire_entity_locks _ _ _ = Inr locks\<close> None
        by (auto simp: ingest_verified_def delivery_committed_def Let_def split: prod.splits sum.splits commit_fate.splits)
    qed (use assms Inr None in \<open>auto simp: ingest_verified_def\<close>)
  qed
qed (use assms in \<open>auto simp: ingest_verified_def\<close>)

lemma has_request_append: "has_request q i \<Longrightarrow> has_request (q\<lparr>q_requests := q_requests q @ rs\<rparr>) i"
  by (auto simp: has_request_def)

text \<open>What a committed delivery leaves behind.\<close>

lemma delivery_committed_facts:
  assumes committed: "delivery_committed cfg ids as_of now d db db'"
    and ok: "database_ok (ic_sha cfg) (ic_fromiso cfg) db"
  shows "database_ok (ic_sha cfg) (ic_fromiso cfg) db'"
    and "st_batches (db_sources db') = st_batches (db_sources db)
      @ [(delivery_batch (ic_sha cfg) ids as_of d)\<lparr>ib_status := IS_COMMITTED, ib_committed_at := Some now\<rparr>]"
    and "\<exists>vs. st_versions (db_sources db') = st_versions (db_sources db) @ vs"
    and "st_evidence (db_sources db') = st_evidence (db_sources db)
      @ [\<lparr>de_batch = id_batch ids, de_data_bytes = vd_data_bytes d, de_manifest_bytes = vd_manifest_bytes d\<rparr>]"
    and "\<exists>g rs. keeps_rank g \<and> st_receipts (db_sources db') = map g (st_receipts (db_sources db)) @ rs
      \<and> map (\<lambda>r. (sr_row_number r, sr_payload r)) rs = map (apfst int) (numbered_rows (vd_records d))
      \<and> (\<forall>r \<in> set rs. sr_batch r = id_batch ids)"
    and "\<exists>r. q_requests (db_queue db') = q_requests (db_queue db) @ [r] \<and> rq_id r = id_request ids
      \<and> rq_trigger_batch r = Some (id_batch ids) \<and> rq_status r = RQ_PENDING
      \<and> rq_key r = document_fingerprint (ic_sha cfg) (JObj [(''verified_delivery'', JStr (delivery_key (ic_sha cfg) d))])"
    and "id_batch ids \<notin> ib_id ` set (st_batches (db_sources db))"
proof -
  let ?sha = "ic_sha cfg" and ?iso = "ic_fromiso cfg" and ?s = "db_sources db"
  let ?b = "delivery_batch ?sha ids as_of d"
  let ?f = "\<lambda>b. b\<lparr>ib_status := IS_COMMITTED, ib_committed_at := Some now\<rparr>"
  let ?r = "new_request (id_request ids) (document_fingerprint ?sha (JObj [(''verified_delivery'', JStr (delivery_key ?sha d))]))
    (if vd_records d = [] then None else Some (id_receipt ids 1)) (Some (id_batch ids)) ''SOURCE_REPORT_AVAILABLE'' as_of now"
  obtain st where staged: "stage_delivery ?sha ?iso ids as_of now d ?s = Inr st"
    and fin: "finish_delivery ?sha ids as_of now d st (db_queue db) = Inr db'"
    using committed by (auto simp: delivery_committed_def)
  have tables: "tables_ok ?sha ?iso ?s" and settled: "\<And>key. settled ?s key" and queue: "queue_ok (db_queue db)"
    and rows: "\<forall>r \<in> set (st_receipts ?s). sr_record_version r \<noteq> None \<or> rejected_row r"
    and batches: "\<forall>b \<in> set (st_batches ?s). batch_whole ?sha ?s b \<and> has_request (db_queue db) (ib_id b)"
    and triggers: "triggers_known ?s (db_queue db)"
    using ok unfolding database_ok_def by blast+
  note f = delivery_staged[OF staged tables settled]
  obtain st' q' where u: "update_batch (id_batch ids) ?f (declare_day (vd_report_date d) st) = Inr st'"
    "insert_request ?r (db_queue db) = Inr q'" "db' = \<lparr>db_sources = st', db_queue = q'\<rparr>"
    using fin by (auto simp: finish_delivery_def result_simps)
  have day: "tables_ok ?sha ?iso (declare_day (vd_report_date d) st) = tables_ok ?sha ?iso st"
    "same_entity st (declare_day (vd_report_date d) st) key" "counted_batch (declare_day (vd_report_date d) st) = counted_batch st" for key
    by (rule tables_ok_same; simp add: declare_day_def)+
  have day_tables: "st_batches (declare_day (vd_report_date d) st) = st_batches st"
    "st_evidence (declare_day (vd_report_date d) st) = st_evidence st" "st_receipts (declare_day (vd_report_date d) st) = st_receipts st"
    by (simp_all add: declare_day_def)
  note c = batch_committed[OF _ u(1), of ?sha ?iso, unfolded day(1,3), OF f(1) f(3)]
  have q': "q' = (db_queue db)\<lparr>q_requests := q_requests (db_queue db) @ [?r]\<rparr>"
    using u(2) by (auto simp: insert_request_def result_simps)
  have id: "ib_id ?b = id_batch ids" by (simp add: delivery_batch_def)
  have old_batch: "map (\<lambda>b. if ib_id b = id_batch ids then ?f b else b) (st_batches ?s) = st_batches ?s"
    using f(6) by (intro map_idI) (auto simp: image_def)
  show new_batches: "st_batches (db_sources db') = st_batches ?s @ [?f ?b]"
    using c(5) by (simp add: u(3) day_tables f(4) id old_batch)
  show fresh: "id_batch ids \<notin> ib_id ` set (st_batches ?s)" by (rule f(6))
  have versions: "st_versions st' = st_versions st" using u(1) by (auto simp: update_batch_def declare_day_def result_simps)
  show "\<exists>vs. st_versions (db_sources db') = st_versions ?s @ vs" using f(7) by (simp add: u(3) versions)
  have evidence: "st_evidence (db_sources db') = st_evidence ?s
      @ [\<lparr>de_batch = id_batch ids, de_data_bytes = vd_data_bytes d, de_manifest_bytes = vd_manifest_bytes d\<rparr>]"
    using c(4) f(5) by (simp add: u(3) day_tables)
  then show "st_evidence (db_sources db') = st_evidence ?s
      @ [\<lparr>de_batch = id_batch ids, de_data_bytes = vd_data_bytes d, de_manifest_bytes = vd_manifest_bytes d\<rparr>]" .
  obtain g rs where g: "keeps_rank g" "st_receipts st = map g (st_receipts ?s) @ rs"
    "\<forall>r \<in> set (st_receipts ?s). sr_record_version r = None \<longrightarrow> g r = r"
    "map (\<lambda>r. (sr_row_number r, sr_payload r)) rs = map (apfst int) (numbered_rows (vd_records d))"
    "\<forall>r \<in> set rs. sr_batch r = id_batch ids \<and> (sr_record_version r \<noteq> None \<or> rejected_row r)"
    using f(8) by blast
  have receipts: "st_receipts (db_sources db') = map g (st_receipts ?s) @ rs"
    using c(3) g(2) by (simp add: u(3) day_tables)
  then show "\<exists>g rs. keeps_rank g \<and> st_receipts (db_sources db') = map g (st_receipts ?s) @ rs
      \<and> map (\<lambda>r. (sr_row_number r, sr_payload r)) rs = map (apfst int) (numbered_rows (vd_records d))
      \<and> (\<forall>r \<in> set rs. sr_batch r = id_batch ids)" using g by blast
  show "\<exists>r. q_requests (db_queue db') = q_requests (db_queue db) @ [r] \<and> rq_id r = id_request ids
      \<and> rq_trigger_batch r = Some (id_batch ids) \<and> rq_status r = RQ_PENDING
      \<and> rq_key r = document_fingerprint ?sha (JObj [(''verified_delivery'', JStr (delivery_key ?sha d))])"
    by (intro exI[of _ ?r]) (simp add: u(3) q' new_request_def)
  note parts = new_batches evidence receipts
  have old_rows: "filter (\<lambda>r. sr_batch r = i) (st_receipts (db_sources db')) = map g (filter (\<lambda>r. sr_batch r = i) (st_receipts ?s))"
    if "i \<noteq> id_batch ids" for i
    using g(5) that unfolding receipts by (simp add: filter_map comp_def keeps_rank_fields[OF g(1)] filter_empty_conv)
  have "sr_batch r \<noteq> id_batch ids" if "r \<in> set (st_receipts ?s)" for r
  proof -
    have "find_batch (sr_batch r) ?s \<noteq> None" using tables that by (simp add: tables_ok_def)
    then have "sr_batch r \<in> ib_id ` set (st_batches ?s)" unfolding find_batch_def by (simp only: find_None_key) simp
    then show ?thesis using fresh by auto
  qed
  then have "filter (\<lambda>r. sr_batch r = id_batch ids) (st_receipts (db_sources db')) = rs"
    using g(5) unfolding receipts by (simp add: filter_map comp_def keeps_rank_fields[OF g(1)] filter_empty_conv)
  moreover have "map sr_row_number rs = [1..int (length (vd_records d))]"
  proof -
    have "map sr_row_number rs = map fst (map (\<lambda>r. (sr_row_number r, sr_payload r)) rs)" by simp
    also have "\<dots> = map (int \<circ> fst) (numbered_rows (vd_records d))" unfolding g(4) by (simp add: comp_def)
    finally show ?thesis by (simp only: numbered_row_numbers)
  qed
  ultimately have new: "batch_whole ?sha (db_sources db') (?f ?b)"
    unfolding batch_whole_def evidence by (simp add: delivery_batch_def)
  have old: "batch_whole ?sha (db_sources db') b" if "b \<in> set (st_batches ?s)" for b
  proof -
    have "ib_id b \<noteq> id_batch ids" using that fresh by (metis image_eqI)
    note o = old_rows[OF this]
    have "batch_whole ?sha ?s b" using batches that by blast
    then show ?thesis unfolding batch_whole_def evidence o by (auto simp: comp_def keeps_rank_fields[OF g(1)])
  qed
  have "has_request (db_queue db') (id_batch ids)" by (auto simp: u(3) q' has_request_def new_request_def)
  moreover have "has_request (db_queue db') (ib_id b)" if "b \<in> set (st_batches ?s)" for b
    using batches that by (simp add: u(3) q' has_request_append)
  ultimately have whole: "\<forall>b \<in> set (st_batches (db_sources db')). batch_whole ?sha (db_sources db') b \<and> has_request (db_queue db') (ib_id b)"
    unfolding new_batches using new old id by simp
  have "settled (db_sources db') key" for key
    using settled_same[OF same_entity_trans[OF day(2) c(2)] f(2)] by (simp add: u(3))
  moreover have "queue_ok (db_queue db')" using queue_step_ok[OF queue_step.enqueued[OF u(2)] queue] by (simp add: u(3))
  moreover have "\<forall>r \<in> set (st_receipts (db_sources db')). sr_record_version r \<noteq> None \<or> rejected_row r"
    using rows g(3,5) unfolding receipts by (fastforce simp: keeps_rank_fields[OF g(1)])
  moreover have "triggers_known (db_sources db') (db_queue db')"
    using triggers id unfolding triggers_known_def new_batches by (auto simp: u(3) q' new_request_def)
  ultimately show "database_ok ?sha ?iso db'"
    using c(1) whole by (simp add: database_ok_def u(3))
qed

subsection \<open>Reachable databases\<close>

inductive ingestion_step :: "ingest_config \<Rightarrow> database \<Rightarrow> database \<Rightarrow> bool" for cfg where
  delivered: "ingest_source_file cfg hook ids now fate views source_path inbox_root as_of db (h :: nat) = (out, db', h') \<Longrightarrow>
    ingestion_step cfg db db'"
| requested: "queue_step (db_queue db) q \<Longrightarrow> triggers_known (db_sources db) q \<Longrightarrow>
    ingestion_step cfg db (db\<lparr>db_queue := q\<rparr>)"

inductive_cases ingestion_stepE: "ingestion_step cfg db db'"

definition empty_database :: database where
  "empty_database = \<lparr>db_sources = empty_sources, db_queue = empty_queue\<rparr>"

lemma empty_database_ok: "database_ok sha fromiso empty_database"
  using queue_ok_empty
  by (simp add: database_ok_def empty_database_def empty_sources_def empty_queue_def tables_ok_def settled_def
      entity_versions_def ranked_receipts_def find_resolution_def triggers_known_def)

lemma ingest_source_cases:
  assumes "ingest_source_file cfg hook ids now fate views source_path inbox_root as_of_utc db h = (out, db', h')"
  shows "db' = db \<and> out \<noteq> Inr None \<and> (\<forall>x. out \<noteq> Inr (Some x))
    \<or> db' = db \<and> out = Inr None
    \<or> (\<exists>as_of d. as_of_utc = Aware as_of
        \<and> verify_delivery (ic_sha cfg) (ic_loads cfg) (ic_date_iso cfg) (ic_resolve cfg) views source_path inbox_root = Inr (Some d)
        \<and> (\<exists>out'. ingest_verified cfg hook ids as_of now fate d db h = (out', db', h') \<and> out = map_sum id Some out'))"
  using assms by (auto simp: ingest_source_file_def split: pydatetime.splits sum.splits option.splits prod.splits)

lemma ingest_source_committed:
  assumes "ingest_source_file cfg hook ids now fate views source_path inbox_root as_of_utc db h = (out, db', h')" "db' \<noteq> db"
  obtains as_of d where "as_of_utc = Aware as_of"
    "verify_delivery (ic_sha cfg) (ic_loads cfg) (ic_date_iso cfg) (ic_resolve cfg) views source_path inbox_root = Inr (Some d)"
    "delivery_committed cfg ids as_of now d db db'"
    "\<And>x. out = Inr (Some x) \<Longrightarrow> x = \<lparr>io_batch = id_batch ids, io_request = id_request ids, io_reused = False\<rparr>"
proof -
  obtain as_of d out' where x: "as_of_utc = Aware as_of"
    "verify_delivery (ic_sha cfg) (ic_loads cfg) (ic_date_iso cfg) (ic_resolve cfg) views source_path inbox_root = Inr (Some d)"
    "ingest_verified cfg hook ids as_of now fate d db h = (out', db', h')" "out = map_sum id Some out'"
    using ingest_source_cases[OF assms(1)] assms(2) by blast
  have "delivery_committed cfg ids as_of now d db db'
    \<and> (\<forall>x. out' = Inr x \<longrightarrow> x = \<lparr>io_batch = id_batch ids, io_request = id_request ids, io_reused = False\<rparr>)"
    using ingest_verified_cases[OF x(3)] assms(2) by blast
  then show thesis using x by (intro that[of as_of d]) (cases out'; auto)+
qed

subsection \<open>Batches and requests are never lost\<close>

definition batch_columns :: "source_tables \<Rightarrow> (uuid \<times> string) list" where
  "batch_columns st = map (\<lambda>b. (ib_id b, ib_delivery_key b)) (st_batches st)"

definition request_columns :: "recovery_queue \<Rightarrow> (uuid \<times> uuid option) list" where
  "request_columns q = map (\<lambda>r. (rq_id r, rq_trigger_batch r)) (q_requests q)"

lemma has_request_columns: "has_request q i \<longleftrightarrow> Some i \<in> set (map snd (request_columns q))"
  by (force simp: has_request_def request_columns_def)

lemma request_columns_rewrite:
  assumes "queue_ok q" "find_request i q = Some r" "rq_id r' = rq_id r" "rq_trigger_batch r' = rq_trigger_batch r"
  shows "request_columns (rewrite r' as q) = request_columns q"
proof -
  have r: "r \<in> set (q_requests q)" using find_request_Some[OF assms(2)] by blast
  have "x = r" if "x \<in> set (q_requests q)" "rq_id x = rq_id r" for x
    using assms(1) that r by (auto simp: queue_ok_def dest: inj_on_of_distinct_map inj_onD)
  then show ?thesis using assms(3,4) by (auto simp: request_columns_def rewrite_def)
qed

lemma queue_step_columns:
  assumes "queue_step q q'" "queue_ok q"
  shows "\<exists>cs. request_columns q' = request_columns q @ cs"
  using assms(1)
proof cases
  case (enqueued i key receipt batch reason as_of now)
  then show ?thesis by (auto simp: insert_request_def result_simps request_columns_def)
next
  case (succeeded now i run)
  then obtain r where r: "find_request i q = Some r" "q' = rewrite (succeeded_row now run r) [succeeded_attempt now run r] q"
    using mark_succeeded_Inr[OF assms(2)] by blast
  then show ?thesis using request_columns_rewrite[OF assms(2) r(1)] by (simp add: succeeded_row_def)
next
  case (failed now i m)
  then obtain r where r: "find_request i q = Some r" "q' = rewrite (failed_row now m r) [failed_attempt now m r] q \<or> q' = q"
    using record_failure_Inr[OF assms(2)] by (metis (no_types, lifting))
  then show ?thesis using request_columns_rewrite[OF assms(2) r(1)] by (auto simp: failed_row_def Let_def)
next
  case (requeued now i n)
  then obtain r where r: "find_request i q = Some r" "q' = rewrite (requeued_row now n r) [] q"
    using requeue_failed_Inr[OF assms(2)] by blast
  then show ?thesis using request_columns_rewrite[OF assms(2) r(1)] by (simp add: requeued_row_def)
qed

lemma ingestion_step_ok:
  assumes "ingestion_step cfg db db'" "database_ok (ic_sha cfg) (ic_fromiso cfg) db"
  shows "database_ok (ic_sha cfg) (ic_fromiso cfg) db'"
  using assms(1)
proof cases
  case (delivered hook ids now fate views source_path inbox_root as_of h out h')
  show ?thesis
  proof (cases "db' = db")
    case False
    from ingest_source_committed[OF delivered(1) False] show ?thesis
      using delivery_committed_facts(1)[OF _ assms(2)] by metis
  qed (use assms(2) in simp)
next
  case (requested q)
  have "has_request q i" if "has_request (db_queue db) i" for i
  proof -
    have "queue_ok (db_queue db)" using assms(2) by (simp add: database_ok_def)
    from queue_step_columns[OF requested(2) this] that show ?thesis unfolding has_request_columns by auto
  qed
  then show ?thesis using assms(2) requested queue_step_ok[OF requested(2)] by (simp add: database_ok_def)
qed

lemma ingestion_steps_ok:
  "(ingestion_step cfg)\<^sup>*\<^sup>* db db' \<Longrightarrow> database_ok (ic_sha cfg) (ic_fromiso cfg) db \<Longrightarrow> database_ok (ic_sha cfg) (ic_fromiso cfg) db'"
  by (induction rule: rtranclp_induct) (auto intro: ingestion_step_ok)

lemma ingestion_steps_columns:
  assumes "(ingestion_step cfg)\<^sup>*\<^sup>* db db'" "database_ok (ic_sha cfg) (ic_fromiso cfg) db"
  shows "\<exists>bs. batch_columns (db_sources db') = batch_columns (db_sources db) @ bs"
    and "\<exists>cs. request_columns (db_queue db') = request_columns (db_queue db) @ cs"
proof -
  have one: "(\<exists>bs. batch_columns (db_sources b) = batch_columns (db_sources a) @ bs)
      \<and> (\<exists>cs. request_columns (db_queue b) = request_columns (db_queue a) @ cs)"
    if step: "ingestion_step cfg a b" and ok: "database_ok (ic_sha cfg) (ic_fromiso cfg) a" for a b
    using step
  proof cases
    case (delivered hook ids now fate views source_path inbox_root as_of h out h')
    show ?thesis
    proof (cases "b = a")
      case False
      obtain t d where c: "delivery_committed cfg ids t now d a b" using ingest_source_committed[OF delivered(1) False] by metis
      show ?thesis using delivery_committed_facts(2,6)[OF c ok] by (auto simp: batch_columns_def request_columns_def)
    qed simp
  next
    case (requested q)
    then show ?thesis using queue_step_columns[OF requested(2)] ok by (simp add: database_ok_def)
  qed
  have "(\<exists>bs. batch_columns (db_sources db') = batch_columns (db_sources db) @ bs)
      \<and> (\<exists>cs. request_columns (db_queue db') = request_columns (db_queue db) @ cs)"
    using assms(1)
  proof (induction rule: rtranclp_induct)
    case (step a b)
    from one[OF step(2) ingestion_steps_ok[OF step(1) assms(2)]] step(3) show ?case by auto
  qed simp
  then show "\<exists>bs. batch_columns (db_sources db') = batch_columns (db_sources db) @ bs"
    "\<exists>cs. request_columns (db_queue db') = request_columns (db_queue db) @ cs" by blast+
qed

subsection \<open>The locks of a delivery are always granted\<close>

lemma parsed_record_facts:
  assumes "parse_source_record fromiso et v = Inr r"
  shows "record_entity_type r = et" "canonical_text (record_id r)" "well_formed r"
  using assms by (auto simp: parse_source_record_def result_simps well_formed_defs split: entity_type.splits dest!: parsers_well_formed)

lemma identity_locks: "\<exists>x. acquire_entity_locks digest True (identity_keys fromiso d) = Inr x"
proof -
  have "\<exists>key. normalize_entity_key k = Inr key" if "k \<in> set (identity_keys fromiso d)" for k
  proof -
    obtain et v r where k: "parse_source_record fromiso et v = Inr r" "k = (TypeText (entity_type_value et), IdText (record_id r))"
      using \<open>k \<in> set _\<close> unfolding identity_keys_def List.map_filter_def by (force split: sum.splits)
    have "enum_lookup entity_type_value entity_type_members (entity_type_value et) = Some et"
      by (cases et) (simp_all add: enum_lookup_def entity_type_members_def)
    then show ?thesis using parsed_record_facts(2)[OF k(1)] by (simp add: normalize_entity_key_def k(2))
  qed
  from map_result_total[OF this] have "\<exists>ys. map_result normalize_entity_key (identity_keys fromiso d) = Inr ys" .
  then show ?thesis by (auto simp: acquire_entity_locks_def ordered_entity_keys_def result_simps)
qed

subsection \<open>What a reachable database says\<close>

lemma linked_receipt:
  assumes "database_ok sha fromiso db" "r \<in> set (st_receipts (db_sources db))" "sr_record_version r = Some i"
  shows "\<exists>v rec. find_version_row i (db_sources db) = Some v \<and> carries sha fromiso r v rec \<and> counted_batch (db_sources db) (sr_batch r)"
proof -
  have "linked_ok sha fromiso (db_sources db) r" using assms by (simp add: database_ok_def tables_ok_def)
  then show ?thesis using assms(3) by (simp add: linked_ok_def)
qed

lemma linked_ranked:
  assumes "database_ok sha fromiso db" "r \<in> set (st_receipts (db_sources db))" "sr_record_version r = Some j"
  obtains v rec t i where "carries sha fromiso r v rec" "receipt_key r = (Some t, Some i)"
    "(r, v) \<in> set (ranked_receipts (db_sources db) t i)" "v \<in> set (entity_versions (db_sources db) t i)"
proof -
  obtain v rec where v: "find_version_row j (db_sources db) = Some v" "carries sha fromiso r v rec"
    "counted_batch (db_sources db) (sr_batch r)" using linked_receipt[OF assms] by blast
  then obtain et where et: "receipt_key r = (Some (entity_type_value et), Some (record_id rec))"
    "rv_entity_type v = entity_type_value et" "rv_source_id v = record_id rec"
    by (auto simp: carries_def receipt_key_def version_key_def)
  have "v \<in> set (st_versions (db_sources db))" using v(1) by (auto simp: find_version_row_def dest: find_member)
  then have "v \<in> set (entity_versions (db_sources db) (entity_type_value et) (record_id rec))"
    using et by (simp add: entity_versions_def)
  moreover have "(r, v) \<in> set (ranked_receipts (db_sources db) (entity_type_value et) (record_id rec))"
    using assms(2,3) v(1,3) et(1) by (auto simp: ranked_member)
  ultimately show thesis using that v(2) et(1) by blast
qed

lemma linked_classified:
  assumes "database_ok sha fromiso db" "r \<in> set (st_receipts (db_sources db))" "sr_record_version r = Some j"
  shows "sr_disposition r \<in> {DI_ACCEPTED, DI_STALE, DI_DUPLICATE, DI_CONFLICTED}"
proof -
  obtain v rec t i where x: "(r, v) \<in> set (ranked_receipts (db_sources db) t i)" "v \<in> set (entity_versions (db_sources db) t i)"
    using linked_ranked[OF assms] by metis
  have "settled (db_sources db) (t, i)" using assms(1) unfolding database_ok_def by blast
  then have "sr_disposition r = classified_as (ranked_receipts (db_sources db) t i)
      (entity_winning (entity_versions (db_sources db) t i)) (entity_conflicted (entity_versions (db_sources db) t i)) (r, v)"
    using x by (auto simp: settled_def Let_def split: if_splits)
  then show ?thesis by (simp add: classified_as_def)
qed

end
