(* ===== verification/Durable_Completeness.thy ===== *)
theory Durable_Completeness
  imports Ingestion_Invariant
begin

text \<open>
  \<open>threadline/durable_completeness.py\<close>: completeness evaluated from the retained evidence.  The lemmas show that a
  delivery that was verified when it was ingested verifies again from the database.
\<close>

subsection \<open>Verifying a stored report\<close>

record stored_report =
  sp_batch :: ingestion_batch
  sp_data_bytes :: "string option"
  sp_manifest_bytes :: "string option"
  sp_receipt_count :: int
  sp_quarantine_count :: int

text \<open>
  The comparison runs inside a \<open>try\<close>: a missing key, a wrong type and a bad value give the problem
  \<open>INVALID_STORED_MANIFEST\<close>; the conditions are evaluated from left to right and the first that holds decides.
\<close>

definition INVALID_MANIFEST :: string where
  "INVALID_MANIFEST = ''INVALID_STORED_MANIFEST''"

definition EVIDENCE_MISMATCH :: string where
  "EVIDENCE_MISMATCH = ''STORED_REPORT_EVIDENCE_MISMATCH''"

definition in_try :: "'e + 'a \<Rightarrow> string + 'a" where
  "in_try r = lift_error (\<lambda>_. INVALID_MANIFEST) r"

definition manifest_item :: "json \<Rightarrow> string \<Rightarrow> string + json" where
  "manifest_item m k = (case m of
       JObj kvs \<Rightarrow> (case map_of kvs k of None \<Rightarrow> Inl INVALID_MANIFEST | Some v \<Rightarrow> Inr v)
     | _ \<Rightarrow> Inl INVALID_MANIFEST)"

definition agrees :: "bool \<Rightarrow> string + unit" where
  "agrees b = require b EVIDENCE_MISMATCH"

text \<open>Membership of a set of texts; lists and objects cannot be hashed.\<close>

definition one_of :: "json \<Rightarrow> string list \<Rightarrow> string + unit" where
  "one_of v texts = (case v of
       JStr s \<Rightarrow> agrees (s \<in> set texts)
     | JArr _ \<Rightarrow> Inl INVALID_MANIFEST
     | JObj _ \<Rightarrow> Inl INVALID_MANIFEST
     | _ \<Rightarrow> agrees False)"

definition compare_manifest :: "ingestion_batch \<Rightarrow> int \<Rightarrow> report_type \<Rightarrow> json \<Rightarrow> nat \<Rightarrow> string + unit" where
  "compare_manifest b receipt_count rt manifest n =
     bind_result (manifest_item manifest ''filename'') (\<lambda>v.
     bind_result (agrees (v = JStr (ib_filename b))) (\<lambda>_.
     bind_result (manifest_item manifest ''report_type'') (\<lambda>v.
     bind_result (in_try (enum_member report_type_name report_type_value report_type_members v)) (\<lambda>t.
     bind_result (agrees (t = rt)) (\<lambda>_.
     bind_result (manifest_item manifest ''source_system'') (\<lambda>v.
     bind_result (one_of v [source_system_name (REPORT_SOURCES rt), source_system_value (REPORT_SOURCES rt)]) (\<lambda>_.
     bind_result (manifest_item manifest ''entity_type'') (\<lambda>v.
     bind_result (one_of v [entity_type_value (REPORT_ENTITIES rt)]) (\<lambda>_.
     bind_result (manifest_item manifest ''report_date'') (\<lambda>v.
     bind_result (agrees (v = JStr (isoformat (ib_report_date b)))) (\<lambda>_.
     bind_result (manifest_item manifest ''schema_version'') (\<lambda>v.
     bind_result (agrees (v = JStr ''1'')) (\<lambda>_.
     bind_result (manifest_item manifest ''checksum_sha256'') (\<lambda>v.
     bind_result (agrees (v = JStr (ib_file_checksum b))) (\<lambda>_.
     bind_result (manifest_item manifest ''row_count'') (\<lambda>v.
     agrees (v = JInt (int n) \<and> int n = ib_declared_rows b \<and> int n = ib_observed_rows b \<and> int n = receipt_count)
     ))))))))))))))))"

definition check_stored_report :: "(string \<Rightarrow> string) \<Rightarrow> (string \<Rightarrow> raw_json option) \<Rightarrow> stored_report \<Rightarrow> string + unit" where
  "check_stored_report sha loads s =
     (case (sp_data_bytes s, sp_manifest_bytes s) of
        (Some data_bytes, Some manifest_bytes) \<Rightarrow>
          bind_result (require (sha data_bytes = ib_file_checksum (sp_batch s)) ''DATA_CHECKSUM_MISMATCH'') (\<lambda>_.
          bind_result (require (sha manifest_bytes = ib_manifest_checksum (sp_batch s)) ''MANIFEST_CHECKSUM_MISMATCH'') (\<lambda>_.
          bind_result (in_try (strict_json loads data_bytes)) (\<lambda>data.
          bind_result (in_try (strict_json loads manifest_bytes)) (\<lambda>manifest.
          case object_list data of
            None \<Rightarrow> Inl ''INVALID_DATA_STRUCTURE''
          | Some records \<Rightarrow>
              bind_result (in_try (enum_member report_type_name report_type_value report_type_members
                (JStr (ib_report_type (sp_batch s))))) (\<lambda>rt.
              bind_result (compare_manifest (sp_batch s) (sp_receipt_count s) rt manifest (length records)) (\<lambda>_.
              require (sp_quarantine_count s = 0) ''QUARANTINED_ROWS''))))))
      | _ \<Rightarrow> Inl ''VERIFIED_EVIDENCE_MISSING'')"

definition verify_stored_report :: "(string \<Rightarrow> string) \<Rightarrow> (string \<Rightarrow> raw_json option) \<Rightarrow> stored_report \<Rightarrow> string option" where
  "verify_stored_report sha loads s = (case check_stored_report sha loads s of Inl problem \<Rightarrow> Some problem | Inr _ \<Rightarrow> None)"

subsection \<open>Loading completeness\<close>

datatype durable_error = NoReportDays | StoredReportTypeUnknown | EvaluationRaised completeness_error

definition finalized :: "ingestion_batch \<Rightarrow> bool" where
  "finalized b = (ib_status b = IS_COMMITTED \<or> ib_status b = IS_FAILED)"

definition report_days :: "source_tables \<Rightarrow> date list" where
  "report_days st = sorted_list_of_set (set (st_days st) \<union> ib_report_date ` set (filter finalized (st_batches st)))"

definition stored_of :: "source_tables \<Rightarrow> ingestion_batch \<Rightarrow> stored_report" where
  "stored_of st b = (let e = List.find (\<lambda>e. de_batch e = ib_id b) (st_evidence st);
       rows = filter (\<lambda>r. sr_batch r = ib_id b) (st_receipts st) in
     \<lparr>sp_batch = b, sp_data_bytes = map_option de_data_bytes e, sp_manifest_bytes = map_option de_manifest_bytes e,
      sp_receipt_count = int (length rows),
      sp_quarantine_count = int (length (filter (\<lambda>r. sr_disposition r = DI_QUARANTINED) rows))\<rparr>)"

definition visible_reports :: "source_tables \<Rightarrow> instant \<Rightarrow> stored_report list" where
  "visible_reports st as_of = map (stored_of st) (sort_key (\<lambda>b. (ib_received_at b, ib_id b))
     (filter (\<lambda>b. ib_status b = IS_COMMITTED \<and> ib_received_at b \<le> as_of) (st_batches st)))"

definition remember_report ::
  "stored_report \<Rightarrow> (date \<times> report_type, stored_report) dict \<Rightarrow> durable_error + (date \<times> report_type, stored_report) dict" where
  "remember_report s latest =
     (case enum_member report_type_name report_type_value report_type_members (JStr (ib_report_type (sp_batch s))) of
        Inl _ \<Rightarrow> Inl StoredReportTypeUnknown
      | Inr rt \<Rightarrow> Inr (AList.update (ib_report_date (sp_batch s), rt) s latest))"

definition report_result ::
  "zone \<Rightarrow> (string \<Rightarrow> string) \<Rightarrow> (string \<Rightarrow> raw_json option) \<Rightarrow> instant \<Rightarrow> (date \<times> report_type, stored_report) dict
     \<Rightarrow> date \<times> report_type \<Rightarrow> durable_error + completeness_result" where
  "report_result berlin sha loads as_of latest key = (case key of (day, rt) \<Rightarrow>
     bind_result (lift_error EvaluationRaised (evaluate_report berlin rt day (Aware as_of) no_evidence)) (\<lambda>missing.
       case map_of latest (day, rt) of
         None \<Rightarrow> Inr missing
       | Some s \<Rightarrow>
           let problem = verify_stored_report sha loads s;
               state = (if problem = None then SC_COMPLETE
                        else if as_of < cr_deadline_at_utc missing then SC_PENDING else SC_INCOMPLETE)
           in Inr \<lparr>cr_status = \<lparr>srs_source_system = REPORT_SOURCES rt, srs_report_type = rt, srs_business_date = day,
                                  srs_state = state, srs_batch_id = Some (ib_id (sp_batch s))\<rparr>,
                    cr_deadline_at_utc = cr_deadline_at_utc missing,
                    cr_issues = (if problem = None then [] else [MANIFEST_INVALID])\<rparr>))"

primrec severity :: "source_completeness \<Rightarrow> int" where
  "severity SC_COMPLETE = 0"
| "severity SC_PENDING = 1"
| "severity SC_INCOMPLETE = 2"

text \<open>The first of the results with the greatest key: the worst state, then the earliest day.\<close>

definition worst_result :: "completeness_result list \<Rightarrow> completeness_result" where
  "worst_result rs = hd (sort_key (\<lambda>r. (- severity (srs_state (cr_status r)), srs_business_date (cr_status r))) rs)"

definition load_completeness ::
  "zone \<Rightarrow> (string \<Rightarrow> string) \<Rightarrow> (string \<Rightarrow> raw_json option) \<Rightarrow> source_tables \<Rightarrow> instant
     \<Rightarrow> durable_error + completeness_result list" where
  "load_completeness berlin sha loads st as_of =
     (let days = report_days st in
      bind_result (require (days \<noteq> []) NoReportDays) (\<lambda>_.
      bind_result (fold_result remember_report (visible_reports st as_of) []) (\<lambda>latest.
      bind_result (map_result (report_result berlin sha loads as_of latest) (List.product days report_type_members)) (\<lambda>results.
        Inr (sort_key completeness_sort_key
          (map (\<lambda>rt. worst_result (filter (\<lambda>r. srs_report_type (cr_status r) = rt) results)) report_type_members))))))"

subsection \<open>The evidence behind a batch\<close>

definition evidence_matches :: "ingest_config \<Rightarrow> ingestion_batch \<Rightarrow> delivery_evidence \<Rightarrow> bool" where
  "evidence_matches cfg b e = (\<exists>p relative d.
     check_delivery (ic_sha cfg) (ic_loads cfg) (ic_date_iso cfg) p relative (de_data_bytes e) (de_manifest_bytes e) = Inr d
     \<and> ib_filename b = last p \<and> ib_source_system b = source_system_value (vd_source_system d) \<and> ib_report_type b = report_type_value (vd_report_type d) \<and> ib_report_date b = vd_report_date d
     \<and> ib_file_checksum b = ic_sha cfg (de_data_bytes e) \<and> ib_manifest_checksum b = ic_sha cfg (de_manifest_bytes e)
     \<and> ib_observed_rows b = int (length (vd_records d)) \<and> ib_declared_rows b = ib_observed_rows b)"

definition evidence_ok :: "ingest_config \<Rightarrow> source_tables \<Rightarrow> bool" where
  "evidence_ok cfg st = (distinct (map de_batch (st_evidence st)) \<and> de_batch ` set (st_evidence st) \<subseteq> ib_id ` set (st_batches st)
     \<and> (\<forall>b \<in> set (st_batches st). \<exists>e \<in> set (st_evidence st). de_batch e = ib_id b \<and> evidence_matches cfg b e))"

lemma ingestion_step_evidence:
  assumes "ingestion_step cfg db db'" "database_ok (ic_sha cfg) (ic_fromiso cfg) db" "evidence_ok cfg (db_sources db)"
  shows "evidence_ok cfg (db_sources db')"
  using assms(1)
proof cases
  case (delivered hook ids now fate views source_path inbox_root as_of h out h')
  show ?thesis
  proof (cases "db' = db")
    case False
    from ingest_source_committed[OF delivered(1) False] obtain t d where c: "delivery_committed cfg ids t now d db db'"
      and v: "verify_delivery (ic_sha cfg) (ic_loads cfg) (ic_date_iso cfg) (ic_resolve cfg) views source_path inbox_root = Inr (Some d)"
      by metis
    note f = delivery_committed_facts[OF c assms(2)]
    let ?b = "(delivery_batch (ic_sha cfg) ids t d)\<lparr>ib_status := IS_COMMITTED, ib_committed_at := Some now\<rparr>"
    let ?e = "\<lparr>de_batch = id_batch ids, de_data_bytes = vd_data_bytes d, de_manifest_bytes = vd_manifest_bytes d\<rparr>"
    obtain relative data_bytes manifest_bytes where
      d: "check_delivery (ic_sha cfg) (ic_loads cfg) (ic_date_iso cfg) (vd_path d) relative data_bytes manifest_bytes = Inr d"
      using verify_delivery_facts(1)[OF v] by blast
    note bytes = check_delivery_facts(3,4)[OF d]
    have "evidence_matches cfg ?b ?e"
      unfolding evidence_matches_def
      by (rule exI[of _ "vd_path d"], rule exI[of _ relative], rule exI[of _ d])
        (use d in \<open>simp add: bytes delivery_batch_def\<close>)
    moreover have "id_batch ids \<notin> de_batch ` set (st_evidence (db_sources db))"
      using assms(3) f(7) by (auto simp: evidence_ok_def)
    ultimately show ?thesis using assms(3) unfolding evidence_ok_def f(2) f(4) by (auto simp: delivery_batch_def)
  qed (use assms(3) in simp)
next
  case (requested q)
  then show ?thesis using assms(3) by simp
qed

lemma ingestion_steps_evidence:
  assumes "(ingestion_step cfg)\<^sup>*\<^sup>* empty_database db"
  shows "evidence_ok cfg (db_sources db)"
  using assms
proof (induction rule: rtranclp_induct)
  case base
  show ?case by (simp add: evidence_ok_def empty_database_def empty_sources_def)
next
  case (step a b)
  then show ?case using ingestion_step_evidence ingestion_steps_ok[OF step(1) empty_database_ok] by blast
qed

subsection \<open>A retained delivery verifies\<close>

lemma check_delivery_fields:
  assumes "check_delivery sha loads date_iso p relative data_bytes manifest_bytes = Inr d"
  obtains data m ss where "strict_json loads data_bytes = Inr data" "strict_json loads manifest_bytes = Inr (JObj m)"
    "object_list data = Some (vd_records d)" "set (map fst m) = set manifest_keys"
    "map_of m ''filename'' = Some (JStr (last p))" "map_of m ''schema_version'' = Some (JStr ''1'')"
    "map_of m ''row_count'' = Some (JInt (int (length (vd_records d))))"
    "map_of m ''checksum_sha256'' = Some (JStr (sha data_bytes))"
    "map_of m ''report_date'' = Some (JStr (isoformat (vd_report_date d)))"
    "\<exists>v. map_of m ''report_type'' = Some v \<and> enum_member report_type_name report_type_value report_type_members v = Inr (vd_report_type d)"
    "\<exists>v. map_of m ''entity_type'' = Some v \<and> enum_member entity_type_value entity_type_value entity_type_members v = Inr (REPORT_ENTITIES (vd_report_type d))"
    "\<exists>v. map_of m ''source_system'' = Some v \<and> enum_member source_system_name source_system_value source_system_members v = Inr (REPORT_SOURCES (vd_report_type d))"
proof -
  obtain data manifest where parsed: "strict_json loads data_bytes = Inr data" "strict_json loads manifest_bytes = Inr manifest"
    and records: "object_list data = Some (vd_records d)"
    and object: "case manifest of JObj _ \<Rightarrow> True | _ \<Rightarrow> False" "set (map fst (sections_of manifest)) = set manifest_keys"
    and fields: "the (map_of (sections_of manifest) ''filename'') = JStr (last p)"
      "the (map_of (sections_of manifest) ''schema_version'') = JStr ''1''"
      "nonneg_int (the (map_of (sections_of manifest) ''row_count'')) = Some (length (vd_records d))"
      "the (map_of (sections_of manifest) ''checksum_sha256'') = JStr (sha data_bytes)"
      "enum_member report_type_name report_type_value report_type_members (the (map_of (sections_of manifest) ''report_type'')) = Inr (vd_report_type d)"
      "enum_member entity_type_value entity_type_value entity_type_members (the (map_of (sections_of manifest) ''entity_type'')) = Inr (REPORT_ENTITIES (vd_report_type d))"
      "enum_member source_system_name source_system_value source_system_members (the (map_of (sections_of manifest) ''source_system'')) = Inr (REPORT_SOURCES (vd_report_type d))"
      "report_date_of date_iso (the (map_of (sections_of manifest) ''report_date'')) = Inr (vd_report_date d)"
    using assms by (auto simp: check_delivery_def result_simps Let_def split: option.splits)
  obtain m where m: "manifest = JObj m" using object(1) by (cases manifest) auto
  have some: "map_of m k = Some (the (map_of m k))" if "k \<in> set manifest_keys" for k
  proof -
    have "k \<in> set (map fst m)" using object(2) that by (simp add: m sections_of_def)
    then show ?thesis by (cases "map_of m k") (auto simp: map_of_eq_None_iff)
  qed
  have keys: "k \<in> set manifest_keys" if "k \<in> {''filename'', ''source_system'', ''report_type'', ''report_date'', ''entity_type'',
     ''schema_version'', ''row_count'', ''checksum_sha256''}" for k using that by (auto simp: manifest_keys_def)
  have count: "the (map_of m ''row_count'') = JInt (int (length (vd_records d)))"
    using fields(3) by (auto simp: m sections_of_def nonneg_int_def split: json.splits if_splits)
  have day: "the (map_of m ''report_date'') = JStr (isoformat (vd_report_date d))"
    using fields(8) by (auto simp: m sections_of_def report_date_of_def split: json.splits option.splits if_splits)
  note f = fields[unfolded m sections_of_def json.case]
  show thesis
  proof (rule that[of data m])
    show "map_of m ''filename'' = Some (JStr (last p))" "map_of m ''schema_version'' = Some (JStr ''1'')"
      "map_of m ''row_count'' = Some (JInt (int (length (vd_records d))))"
      "map_of m ''checksum_sha256'' = Some (JStr (sha data_bytes))"
      "map_of m ''report_date'' = Some (JStr (isoformat (vd_report_date d)))"
      using f(1,2,4) count day some keys by force+
  qed (use parsed records object f some[OF keys] in \<open>auto simp: m sections_of_def\<close>)
qed

lemma manifest_item_Some: "map_of m k = Some v \<Longrightarrow> manifest_item (JObj m) k = Inr v"
  by (simp add: manifest_item_def)

lemma enum_member_text:
  assumes "enum_member name_of value_of members v = Inr x"
  shows "\<exists>s. v = JStr s \<and> (s = name_of x \<or> s = value_of x)"
  using assms by (auto simp: enum_member_def dest: enum_lookup_Some split: json.splits option.splits)

lemma enum_member_value: "enum_member report_type_name report_type_value report_type_members (JStr (report_type_value rt)) = Inr rt"
  by (cases rt) (simp_all add: enum_member_def enum_lookup_def report_type_members_def)

lemma retained_report_verifies:
  assumes match: "evidence_matches cfg b e" and stored: "sp_batch s = b" "sp_data_bytes s = Some (de_data_bytes e)"
    "sp_manifest_bytes s = Some (de_manifest_bytes e)" and count: "sp_receipt_count s = ib_observed_rows b"
  shows "verify_stored_report (ic_sha cfg) (ic_loads cfg) s = (if sp_quarantine_count s = 0 then None else Some ''QUARANTINED_ROWS'')"
proof -
  obtain p relative d where d: "check_delivery (ic_sha cfg) (ic_loads cfg) (ic_date_iso cfg) p relative (de_data_bytes e) (de_manifest_bytes e) = Inr d"
    and b: "ib_filename b = last p" "ib_report_type b = report_type_value (vd_report_type d)" "ib_report_date b = vd_report_date d"
     "ib_file_checksum b = ic_sha cfg (de_data_bytes e)" "ib_manifest_checksum b = ic_sha cfg (de_manifest_bytes e)"
     "ib_observed_rows b = int (length (vd_records d))" "ib_declared_rows b = ib_observed_rows b"
    using match by (auto simp: evidence_matches_def)
  from check_delivery_fields[OF d] obtain data m vr ve vs where
    f: "strict_json (ic_loads cfg) (de_data_bytes e) = Inr data" "strict_json (ic_loads cfg) (de_manifest_bytes e) = Inr (JObj m)"
    "object_list data = Some (vd_records d)"
    and items: "map_of m ''filename'' = Some (JStr (last p))" "map_of m ''schema_version'' = Some (JStr ''1'')"
    "map_of m ''row_count'' = Some (JInt (int (length (vd_records d))))"
    "map_of m ''checksum_sha256'' = Some (JStr (ic_sha cfg (de_data_bytes e)))"
    "map_of m ''report_date'' = Some (JStr (isoformat (vd_report_date d)))"
    "map_of m ''report_type'' = Some vr" "map_of m ''entity_type'' = Some ve" "map_of m ''source_system'' = Some vs"
    and enums: "enum_member report_type_name report_type_value report_type_members vr = Inr (vd_report_type d)"
    "enum_member entity_type_value entity_type_value entity_type_members ve = Inr (REPORT_ENTITIES (vd_report_type d))"
    "enum_member source_system_name source_system_value source_system_members vs = Inr (REPORT_SOURCES (vd_report_type d))"
    by metis
  have sets: "one_of vs [source_system_name (REPORT_SOURCES (vd_report_type d)), source_system_value (REPORT_SOURCES (vd_report_type d))] = Inr ()"
    "one_of ve [entity_type_value (REPORT_ENTITIES (vd_report_type d))] = Inr ()"
    using enum_member_text[OF enums(3)] enum_member_text[OF enums(2)] by (auto simp: one_of_def agrees_def require_def)
  have "compare_manifest b (ib_observed_rows b) (vd_report_type d) (JObj m) (length (vd_records d)) = Inr ()"
    unfolding compare_manifest_def items[THEN manifest_item_Some]
    by (simp add: b sets enums in_try_def lift_error_def agrees_def require_def)
  then have "check_stored_report (ic_sha cfg) (ic_loads cfg) s = require (sp_quarantine_count s = 0) ''QUARANTINED_ROWS''"
    using f enum_member_value by (simp add: check_stored_report_def stored b(2,4,5) in_try_def lift_error_def require_def count)
  then show ?thesis by (simp add: verify_stored_report_def require_def)
qed

definition quarantined_rows :: "source_tables \<Rightarrow> ingestion_batch \<Rightarrow> bool" where
  "quarantined_rows st b = (\<exists>r \<in> set (st_receipts st). sr_batch r = ib_id b \<and> sr_disposition r = DI_QUARANTINED)"

lemma stored_batch_verifies:
  assumes ok: "database_ok (ic_sha cfg) (ic_fromiso cfg) db" and ev: "evidence_ok cfg (db_sources db)" and b: "b \<in> set (st_batches (db_sources db))"
  shows "verify_stored_report (ic_sha cfg) (ic_loads cfg) (stored_of (db_sources db) b)
    = (if quarantined_rows (db_sources db) b then Some ''QUARANTINED_ROWS'' else None)"
proof -
  let ?st = "db_sources db"
  obtain e where e: "e \<in> set (st_evidence ?st)" "de_batch e = ib_id b" "evidence_matches cfg b e"
    using ev b by (auto simp: evidence_ok_def)
  have "distinct (map de_batch (st_evidence ?st))" using ev by (simp add: evidence_ok_def)
  from find_unique[OF this e(1)] have found: "List.find (\<lambda>e. de_batch e = ib_id b) (st_evidence ?st) = Some e" by (simp add: e(2))
  have whole: "batch_whole (ic_sha cfg) ?st b" using ok b by (simp add: database_ok_def)
  have nonneg: "0 \<le> ib_observed_rows b" using e(3) by (auto simp: evidence_matches_def)
  have "length (filter (\<lambda>r. sr_batch r = ib_id b) (st_receipts ?st)) = length [1..ib_observed_rows b]"
    using whole unfolding batch_whole_def by (metis length_map)
  then have count: "sp_receipt_count (stored_of ?st b) = ib_observed_rows b" using nonneg by (simp add: stored_of_def Let_def)
  have quarantine: "sp_quarantine_count (stored_of ?st b) = 0 \<longleftrightarrow> \<not> quarantined_rows ?st b"
    by (auto simp: stored_of_def Let_def quarantined_rows_def filter_empty_conv)
  have "sp_batch (stored_of ?st b) = b" "sp_data_bytes (stored_of ?st b) = Some (de_data_bytes e)"
    "sp_manifest_bytes (stored_of ?st b) = Some (de_manifest_bytes e)" by (simp_all add: stored_of_def Let_def found)
  from retained_report_verifies[OF e(3) this count] show ?thesis unfolding quarantine by simp
qed

subsection \<open>What completeness is loaded\<close>

definition committed_by :: "source_tables \<Rightarrow> instant \<Rightarrow> ingestion_batch list" where
  "committed_by st as_of = sort_key (\<lambda>b. (ib_received_at b, ib_id b))
     (filter (\<lambda>b. ib_status b = IS_COMMITTED \<and> ib_received_at b \<le> as_of) (st_batches st))"

definition latest_batch :: "source_tables \<Rightarrow> instant \<Rightarrow> date \<Rightarrow> report_type \<Rightarrow> ingestion_batch option" where
  "latest_batch st as_of day rt =
     (let bs = filter (\<lambda>b. ib_report_date b = day \<and> ib_report_type b = report_type_value rt) (committed_by st as_of)
      in if bs = [] then None else Some (last bs))"

definition day_certified :: "source_tables \<Rightarrow> instant \<Rightarrow> report_type \<Rightarrow> date \<Rightarrow> bool" where
  "day_certified st as_of rt day = (\<exists>b. latest_batch st as_of day rt = Some b \<and> \<not> quarantined_rows st b)"

lemma remembered:
  assumes "\<forall>s \<in> set ss. \<exists>rt. ib_report_type (sp_batch s) = report_type_value rt"
  shows "\<exists>latest. fold_result remember_report ss [] = Inr latest
    \<and> (\<forall>day rt. map_of latest (day, rt) = (let xs = filter (\<lambda>s. ib_report_date (sp_batch s) = day
        \<and> ib_report_type (sp_batch s) = report_type_value rt) ss in if xs = [] then None else Some (last xs)))"
  using assms
proof (induction ss rule: rev_induct)
  case Nil
  then show ?case by simp
next
  case (snoc s ss)
  then obtain latest where l: "fold_result remember_report ss [] = Inr latest"
    "\<forall>day rt. map_of latest (day, rt) = (let xs = filter (\<lambda>s. ib_report_date (sp_batch s) = day
        \<and> ib_report_type (sp_batch s) = report_type_value rt) ss in if xs = [] then None else Some (last xs))" by auto
  obtain rt where rt: "ib_report_type (sp_batch s) = report_type_value rt" using snoc.prems by auto
  have "fold_result remember_report (ss @ [s]) [] = Inr (AList.update (ib_report_date (sp_batch s), rt) s latest)"
    by (simp add: fold_result_append l(1) remember_report_def rt enum_member_value)
  then show ?case using l(2) by (auto simp: rt Let_def update_conv')
qed

lemma missing_report:
  assumes "day < max_date"
  shows "\<exists>missing deadline. evaluate_report berlin rt day (Aware as_of) no_evidence = Inr missing
    \<and> report_deadline_utc berlin day rt = Inr deadline \<and> cr_deadline_at_utc missing = deadline
    \<and> cr_status missing = \<lparr>srs_source_system = REPORT_SOURCES rt, srs_report_type = rt, srs_business_date = day,
        srs_state = (if as_of < deadline then SC_PENDING else SC_INCOMPLETE), srs_batch_id = None\<rparr>"
  using assms
  by (simp add: evaluate_report_def no_evidence_def visible_data_file_def visible_manifest_def collect_issues_def
      issue_if_def report_deadline_utc_def require_aware_datetime_def Let_def)

definition day_state :: "zone \<Rightarrow> source_tables \<Rightarrow> instant \<Rightarrow> report_type \<Rightarrow> date \<Rightarrow> source_completeness" where
  "day_state berlin st as_of rt day =
     (if day_certified st as_of rt day then SC_COMPLETE
      else case report_deadline_utc berlin day rt of
          Inr deadline \<Rightarrow> if as_of < deadline then SC_PENDING else SC_INCOMPLETE
        | Inl _ \<Rightarrow> SC_INCOMPLETE)"

lemma worst_result_max:
  assumes "rs \<noteq> []"
  shows "worst_result rs \<in> set rs" "r \<in> set rs \<Longrightarrow> severity (srs_state (cr_status r)) \<le> severity (srs_state (cr_status (worst_result rs)))"
proof -
  let ?k = "\<lambda>r. (- severity (srs_state (cr_status r)), srs_business_date (cr_status r))"
  have ne: "sort_key ?k rs \<noteq> []" using assms by (metis length_sort length_0_conv)
  then show "worst_result rs \<in> set rs" unfolding worst_result_def using hd_in_set[OF ne] by simp
  show "severity (srs_state (cr_status r)) \<le> severity (srs_state (cr_status (worst_result rs)))" if "r \<in> set rs"
  proof -
    have "sorted (map ?k (sort_key ?k rs))" by simp
    moreover obtain x xs where x: "sort_key ?k rs = x # xs" using ne by (cases "sort_key ?k rs") auto
    ultimately have "\<forall>y \<in> set (sort_key ?k rs). ?k x \<le> ?k y" by auto
    then have "?k x \<le> ?k r" using that by simp
    then show ?thesis by (auto simp: worst_result_def x less_eq_prod_def)
  qed
qed

lemma severity_order: "severity a \<le> severity b \<longleftrightarrow> (a = SC_COMPLETE \<or> b = SC_INCOMPLETE \<or> a = b)"
  by (cases a; cases b) simp_all

text \<open>What loading completeness returns.\<close>

lemma completeness_loaded:
  assumes reached: "(ingestion_step cfg)\<^sup>*\<^sup>* empty_database db"
    and days: "report_days (db_sources db) \<noteq> []" "\<forall>day \<in> set (report_days (db_sources db)). day < max_date"
  shows "\<exists>rs. load_completeness berlin (ic_sha cfg) (ic_loads cfg) (db_sources db) as_of = Inr rs
    \<and> mset (map (srs_report_type \<circ> cr_status) rs) = mset report_type_members
    \<and> (\<forall>r \<in> set rs. let rt = srs_report_type (cr_status r); certified = day_certified (db_sources db) as_of rt in
        (srs_state (cr_status r) = SC_COMPLETE \<longleftrightarrow> (\<forall>day \<in> set (report_days (db_sources db)). certified day))
      \<and> (srs_state (cr_status r) = SC_INCOMPLETE \<longleftrightarrow> (\<exists>day \<in> set (report_days (db_sources db)). \<not> certified day
          \<and> (\<exists>deadline. report_deadline_utc berlin day rt = Inr deadline \<and> deadline \<le> as_of))))"
proof -
  let ?st = "db_sources db" and ?sha = "ic_sha cfg" and ?loads = "ic_loads cfg"
  have ok: "database_ok ?sha (ic_fromiso cfg) db" by (rule ingestion_steps_ok[OF reached empty_database_ok])
  have ev: "evidence_ok cfg ?st" by (rule ingestion_steps_evidence[OF reached])
  have visible: "visible_reports ?st as_of = map (stored_of ?st) (committed_by ?st as_of)"
    by (simp add: visible_reports_def committed_by_def)
  have batch: "b \<in> set (st_batches ?st)" if "b \<in> set (committed_by ?st as_of)" for b
    using that by (simp add: committed_by_def)
  have stored [simp]: "sp_batch (stored_of ?st b) = b" for b by (simp add: stored_of_def Let_def)
  have "\<forall>s \<in> set (visible_reports ?st as_of). \<exists>rt. ib_report_type (sp_batch s) = report_type_value rt"
    using ev batch by (force simp: visible evidence_ok_def evidence_matches_def)
  from remembered[OF this] obtain latest where latest: "fold_result remember_report (visible_reports ?st as_of) [] = Inr latest"
    and lookup: "map_of latest (day, rt) = (let xs = filter (\<lambda>s. ib_report_date (sp_batch s) = day
        \<and> ib_report_type (sp_batch s) = report_type_value rt) (visible_reports ?st as_of) in if xs = [] then None else Some (last xs))" for day rt
    by auto
  have lookup': "map_of latest (day, rt) = map_option (stored_of ?st) (latest_batch ?st as_of day rt)" for day rt
    by (simp add: lookup visible latest_batch_def Let_def filter_map comp_def last_map)
  have latest_member: "b \<in> set (st_batches ?st)" if "latest_batch ?st as_of day rt = Some b" for b day rt
  proof -
    let ?bs = "filter (\<lambda>b. ib_report_date b = day \<and> ib_report_type b = report_type_value rt) (committed_by ?st as_of)"
    have "?bs \<noteq> []" "b = last ?bs" using that by (auto simp: latest_batch_def Let_def split: if_splits)
    then have "b \<in> set ?bs" by (metis last_in_set)
    then show ?thesis using batch by simp
  qed
  have one: "\<exists>r. report_result berlin ?sha ?loads as_of latest (day, rt) = Inr r \<and> srs_report_type (cr_status r) = rt
      \<and> srs_state (cr_status r) = day_state berlin ?st as_of rt day" if "day \<in> set (report_days ?st)" for day rt
  proof -
    have "day < max_date" using that days(2) by auto
    from missing_report[OF this, of berlin rt as_of] obtain missing deadline where
      m: "evaluate_report berlin rt day (Aware as_of) no_evidence = Inr missing" "report_deadline_utc berlin day rt = Inr deadline"
      "cr_deadline_at_utc missing = deadline"
      "cr_status missing = \<lparr>srs_source_system = REPORT_SOURCES rt, srs_report_type = rt, srs_business_date = day,
        srs_state = (if as_of < deadline then SC_PENDING else SC_INCOMPLETE), srs_batch_id = None\<rparr>" by blast
    show ?thesis
    proof (cases "latest_batch ?st as_of day rt")
      case None
      then show ?thesis by (simp add: report_result_def m lookup' day_state_def day_certified_def lift_error_def)
    next
      case (Some b)
      then show ?thesis using stored_batch_verifies[OF ok ev latest_member[OF Some]]
        by (simp add: report_result_def m lookup' day_state_def day_certified_def Let_def lift_error_def)
    qed
  qed
  define f where "f key = (SOME r. report_result berlin ?sha ?loads as_of latest key = Inr r)" for key
  have f: "report_result berlin ?sha ?loads as_of latest (day, rt) = Inr (f (day, rt))" "srs_report_type (cr_status (f (day, rt))) = rt"
    "srs_state (cr_status (f (day, rt))) = day_state berlin ?st as_of rt day" if "day \<in> set (report_days ?st)" for day rt
    using one[OF that, of rt] by (auto simp: f_def)
  let ?results = "map f (List.product (report_days ?st) report_type_members)"
  have results: "map_result (report_result berlin ?sha ?loads as_of latest) (List.product (report_days ?st) report_type_members) = Inr ?results"
    by (rule map_result_pure) (use f(1) in auto)
  let ?worst = "\<lambda>rt. worst_result (filter (\<lambda>r. srs_report_type (cr_status r) = rt) ?results)"
  have own: "set (filter (\<lambda>r. srs_report_type (cr_status r) = rt) ?results) = (\<lambda>day. f (day, rt)) ` set (report_days ?st)" for rt
    using f(2) by (auto simp: report_type_members_all)
  have nonempty: "filter (\<lambda>r. srs_report_type (cr_status r) = rt) ?results \<noteq> []" for rt
    using own[of rt] days(1) by (metis image_is_empty set_empty)
  have worst_day: "\<exists>day \<in> set (report_days ?st). ?worst rt = f (day, rt)" for rt
    using worst_result_max(1)[OF nonempty[of rt]] unfolding own by blast
  have worst_max: "severity (day_state berlin ?st as_of rt day) \<le> severity (srs_state (cr_status (?worst rt)))"
    if day: "day \<in> set (report_days ?st)" for rt day
  proof -
    have "f (day, rt) \<in> set (filter (\<lambda>r. srs_report_type (cr_status r) = rt) ?results)" unfolding own using day by blast
    from worst_result_max(2)[OF nonempty[of rt] this] show ?thesis unfolding f(3)[OF day] .
  qed
  have type: "srs_report_type (cr_status (?worst rt)) = rt" for rt using worst_day[of rt] f(2) by auto
  let ?rs = "sort_key completeness_sort_key (map ?worst report_type_members)"
  have load: "load_completeness berlin ?sha ?loads ?st as_of = Inr ?rs"
    using days(1) latest results by (simp add: load_completeness_def Let_def require_def)
  have "mset (map (srs_report_type \<circ> cr_status) ?rs) = mset report_type_members"
  proof -
    have "mset (map (srs_report_type \<circ> cr_status) ?rs) = image_mset (srs_report_type \<circ> cr_status) (mset (map ?worst report_type_members))"
      by (simp only: mset_map mset_sort)
    also have "\<dots> = mset (map ((srs_report_type \<circ> cr_status) \<circ> ?worst) report_type_members)"
      by (simp only: mset_map[symmetric] map_map)
    also have "(srs_report_type \<circ> cr_status) \<circ> ?worst = id" unfolding comp_def type by auto
    finally show ?thesis by (simp only: list.map_id)
  qed
  moreover have "let rt = srs_report_type (cr_status r); certified = day_certified ?st as_of rt in
        (srs_state (cr_status r) = SC_COMPLETE \<longleftrightarrow> (\<forall>day \<in> set (report_days ?st). certified day))
      \<and> (srs_state (cr_status r) = SC_INCOMPLETE \<longleftrightarrow> (\<exists>day \<in> set (report_days ?st). \<not> certified day
          \<and> (\<exists>deadline. report_deadline_utc berlin day rt = Inr deadline \<and> deadline \<le> as_of)))" if "r \<in> set ?rs" for r
  proof -
    have "r \<in> ?worst ` set report_type_members" using that by (simp only: set_sort set_map)
    then obtain rt where rt: "r = ?worst rt" by (rule imageE)
    obtain day where day: "day \<in> set (report_days ?st)" "srs_state (cr_status r) = day_state berlin ?st as_of rt day"
      using worst_day[of rt] f(3) unfolding rt by metis
    have le: "severity (day_state berlin ?st as_of rt d) \<le> severity (day_state berlin ?st as_of rt day)" if "d \<in> set (report_days ?st)" for d
      using worst_max[OF that, of rt] day(2) unfolding rt by simp
    have deadline: "\<exists>t. report_deadline_utc berlin d rt = Inr t" if "d \<in> set (report_days ?st)" for d
      using missing_report[of d berlin rt as_of] that days(2) by metis
    have complete: "day_state berlin ?st as_of rt d = SC_COMPLETE \<longleftrightarrow> day_certified ?st as_of rt d" if "d \<in> set (report_days ?st)" for d
      using deadline[OF that] by (auto simp: day_state_def split: if_splits)
    have incomplete: "day_state berlin ?st as_of rt d = SC_INCOMPLETE \<longleftrightarrow> \<not> day_certified ?st as_of rt d
        \<and> (\<exists>t. report_deadline_utc berlin d rt = Inr t \<and> t \<le> as_of)" if "d \<in> set (report_days ?st)" for d
      using deadline[OF that] by (auto simp: day_state_def split: if_splits)
    have type_r: "srs_report_type (cr_status r) = rt" using type[of rt] rt by simp
    have "srs_state (cr_status r) = SC_COMPLETE \<longleftrightarrow> (\<forall>d \<in> set (report_days ?st). day_state berlin ?st as_of rt d = SC_COMPLETE)"
      using day le by (auto simp: severity_order)
    moreover have "srs_state (cr_status r) = SC_INCOMPLETE \<longleftrightarrow> (\<exists>d \<in> set (report_days ?st). day_state berlin ?st as_of rt d = SC_INCOMPLETE)"
    proof
      assume "srs_state (cr_status r) = SC_INCOMPLETE"
      then show "\<exists>d \<in> set (report_days ?st). day_state berlin ?st as_of rt d = SC_INCOMPLETE" using day by auto
    next
      assume "\<exists>d \<in> set (report_days ?st). day_state berlin ?st as_of rt d = SC_INCOMPLETE"
      then obtain d where "d \<in> set (report_days ?st)" "day_state berlin ?st as_of rt d = SC_INCOMPLETE" by blast
      with le[of d] show "srs_state (cr_status r) = SC_INCOMPLETE" unfolding day(2) severity_order by auto
    qed
    ultimately show ?thesis unfolding Let_def type_r using complete incomplete by blast
  qed
  ultimately show ?thesis using load by blast
qed

end
