(* ===== verification/Recovery_Rebuild.thy ===== *)
theory Recovery_Rebuild
  imports Durable_Completeness
begin

text \<open>
  \<open>threadline/recovery_rebuild.py\<close>, \<open>threadline/recovery_adapters.py\<close> and \<open>threadline/conflict_evidence.py\<close>: the
  builder of a full rebuild, which reads every receipt back, canonicalizes, loads completeness, reconciles, and
  replaces the receipts behind conflict exceptions by references of the source variants.
\<close>

subsection \<open>Adapters\<close>

datatype rebuild_error =
    EntityLabelInvalid
  | StoredIdMismatch
  | StoredVersionMismatch
  | StoredReasonMissing
  | FailedBatchNotQuarantined
  | ReceiptUnresolved uuid
  | ReparseRejected violation
  | RebuildCanonicalization canonicalization_error
  | EvidenceLost
  | CompletenessRaised durable_error
  | ReconcileRaised recon_error
  | ConflictReceiptMissing string
  | ReceiptNotUuid
  | SourceSystemInvalid

definition entity_of_label :: "string option \<Rightarrow> rebuild_error + entity_type" where
  "entity_of_label label = (case label of
       None \<Rightarrow> Inl EntityLabelInvalid
     | Some s \<Rightarrow> (case enum_lookup entity_type_value entity_type_members s of
           None \<Rightarrow> Inl EntityLabelInvalid | Some et \<Rightarrow> Inr et))"

definition make_envelope :: "(string \<Rightarrow> string) \<Rightarrow> source_receipt \<Rightarrow> financial_record \<Rightarrow> rebuild_error + record_envelope" where
  "make_envelope sha r rec =
     bind_result (require (sr_source_id r = Some (record_id rec)) StoredIdMismatch) (\<lambda>_.
     bind_result (require (sr_source_version r = Some (record_source_version rec)) StoredVersionMismatch) (\<lambda>_.
       lift_error RebuildCanonicalization (make_record_envelope (sha_text sha) (sr_id r) rec)))"

definition make_quarantine :: "source_receipt \<Rightarrow> rebuild_error + quarantined_record" where
  "make_quarantine r = (case sr_reason_code r of
       None \<Rightarrow> Inl StoredReasonMissing
     | Some reason \<Rightarrow>
         bind_result (require (strip reason \<noteq> []) StoredReasonMissing) (\<lambda>_.
         bind_result (entity_of_label (sr_entity_type r)) (\<lambda>et.
           Inr \<lparr>qr_entity_type = entity_type_value et, qr_source_id = sr_source_id r, qr_reason_code = reason,
                qr_raw_payload_json = json_dumps (JObj (sr_payload r))\<rparr>)))"

subsection \<open>Rebuilding the inputs\<close>

definition rebuild_receipts :: "source_tables \<Rightarrow> (source_receipt \<times> ingestion_status) list" where
  "rebuild_receipts st = List.map_filter (\<lambda>r. case find_batch (sr_batch r) st of
       None \<Rightarrow> None
     | Some b \<Rightarrow> if finalized b then Some (r, ib_status b) else None)
     (sort_key (\<lambda>r. (sr_batch r, sr_row_number r)) (st_receipts st))"

type_synonym rebuilt = "record_envelope list \<times> quarantined_record list"

definition rebuild_receipt ::
  "(string \<Rightarrow> string) \<Rightarrow> (string \<Rightarrow> pydatetime option) \<Rightarrow> source_receipt \<times> ingestion_status \<Rightarrow> rebuilt \<Rightarrow> rebuild_error + rebuilt" where
  "rebuild_receipt sha fromiso x acc = (case (x, acc) of ((r, status), (envelopes, quarantine)) \<Rightarrow>
     if sr_disposition r = DI_QUARANTINED then
       bind_result (make_quarantine r) (\<lambda>q. Inr (envelopes, quarantine @ [q]))
     else
       bind_result (require (status = IS_COMMITTED) FailedBatchNotQuarantined) (\<lambda>_.
       bind_result (require (sr_disposition r \<in> {DI_ACCEPTED, DI_STALE, DI_DUPLICATE, DI_CONFLICTED}) (ReceiptUnresolved (sr_id r))) (\<lambda>_.
       bind_result (entity_of_label (sr_entity_type r)) (\<lambda>et.
       bind_result (lift_error ReparseRejected (parse_source_record fromiso et (JObj (sr_payload r)))) (\<lambda>rec.
       bind_result (make_envelope sha r rec) (\<lambda>e.
         Inr (envelopes @ [e], quarantine)))))))"

definition rebuild_inputs ::
  "(string \<Rightarrow> string) \<Rightarrow> (string \<Rightarrow> pydatetime option) \<Rightarrow> source_tables \<Rightarrow> rebuild_error + rebuilt" where
  "rebuild_inputs sha fromiso st =
     bind_result (fold_result (rebuild_receipt sha fromiso) (rebuild_receipts st) ([], [])) (\<lambda>(envelopes, quarantine).
     bind_result (require (length envelopes + length quarantine = length (rebuild_receipts st)) EvidenceLost) (\<lambda>_.
       Inr (envelopes, quarantine)))"

subsection \<open>Conflict evidence\<close>

definition optional_json :: "('a \<Rightarrow> json) \<Rightarrow> 'a option \<Rightarrow> json" where
  "optional_json f v = (case v of None \<Rightarrow> JNull | Some x \<Rightarrow> f x)"

definition variant_reference ::
  "(string \<Rightarrow> string) \<Rightarrow> string \<Rightarrow> string option \<Rightarrow> string option \<Rightarrow> int option \<Rightarrow> string \<Rightarrow> string" where
  "variant_reference sha source_system entity_type source_id source_version payload_hash =
     ''source-variant:'' @ document_fingerprint sha (JObj
       [(''source_system'', JStr source_system), (''entity_type'', optional_json JStr entity_type),
        (''source_id'', optional_json JStr source_id), (''source_version'', optional_json JInt source_version),
        (''payload_hash'', JStr payload_hash)])"

definition is_conflict_exception :: "recon_exception \<Rightarrow> bool" where
  "is_conflict_exception x = (rx_type x = EC_CONFLICTING_SOURCE_VERSION)"

definition replace_support :: "(string, string) dict \<Rightarrow> recon_exception \<Rightarrow> rebuild_error + recon_exception" where
  "replace_support evidence_by_receipt x =
     (if \<not> is_conflict_exception x then Inr x
      else bind_result (map_result (\<lambda>i. case map_of evidence_by_receipt i of
               None \<Rightarrow> Inl (ConflictReceiptMissing i) | Some ref \<Rightarrow> Inr ref) (rx_support x))
             (\<lambda>refs. Inr (x\<lparr>rx_support := sort (remdups refs)\<rparr>)))"

definition replace_conflict_evidence :: "(string, string) dict \<Rightarrow> recon_result \<Rightarrow> rebuild_error + recon_result" where
  "replace_conflict_evidence evidence_by_receipt candidate =
     bind_result (map_result (replace_support evidence_by_receipt) (rr_exceptions candidate)) (\<lambda>xs.
       Inr (candidate\<lparr>rr_exceptions := xs\<rparr>))"

definition receipt_reference :: "(string \<Rightarrow> string) \<Rightarrow> source_receipt \<times> ingestion_batch \<Rightarrow> rebuild_error + string \<times> string" where
  "receipt_reference sha x = (case x of (r, b) \<Rightarrow>
     (case enum_member source_system_name source_system_value source_system_members (JStr (ib_source_system b)) of
        Inl _ \<Rightarrow> Inl SourceSystemInvalid
      | Inr s \<Rightarrow> Inr (sr_id r, variant_reference sha (source_system_value s) (sr_entity_type r) (sr_source_id r)
          (sr_source_version r) (sr_payload_hash r))))"

definition conflict_rows :: "source_tables \<Rightarrow> string list \<Rightarrow> (source_receipt \<times> ingestion_batch) list" where
  "conflict_rows st ids = List.map_filter (\<lambda>r. case find_batch (sr_batch r) st of
       None \<Rightarrow> None
     | Some b \<Rightarrow> if sr_id r \<in> set ids \<and> ib_status b = IS_COMMITTED then Some (r, b) else None) (st_receipts st)"

definition conflict_receipts :: "recon_result \<Rightarrow> string list" where
  "conflict_receipts candidate = remdups (concat (map rx_support (filter is_conflict_exception (rr_exceptions candidate))))"

definition stabilize_conflict_evidence ::
  "(string \<Rightarrow> string) \<Rightarrow> source_tables \<Rightarrow> recon_result \<Rightarrow> rebuild_error + recon_result" where
  "stabilize_conflict_evidence sha st candidate =
     (let ids = conflict_receipts candidate in
      if ids = [] then Inr candidate
      else bind_result (require (list_all uuid_text ids) ReceiptNotUuid) (\<lambda>_.
           bind_result (map_result (receipt_reference sha) (conflict_rows st ids)) (\<lambda>pairs.
             replace_conflict_evidence (fold (\<lambda>(i, ref). AList.update i ref) pairs []) candidate)))"

subsection \<open>The builder\<close>

definition build_candidate ::
  "ingest_config \<Rightarrow> zone \<Rightarrow> source_tables \<Rightarrow> string \<Rightarrow> instant \<Rightarrow> rebuild_error + recon_result" where
  "build_candidate cfg berlin st run as_of =
     bind_result (rebuild_inputs (ic_sha cfg) (ic_fromiso cfg) st) (\<lambda>(envelopes, quarantine).
     bind_result (lift_error RebuildCanonicalization (canonicalize envelopes)) (\<lambda>canonicalization.
     bind_result (lift_error CompletenessRaised (load_completeness berlin (ic_sha cfg) (ic_loads cfg) st as_of)) (\<lambda>completeness.
     bind_result (lift_error ReconcileRaised (reconcile run (Aware as_of) canonicalization completeness quarantine)) (\<lambda>candidate.
       stabilize_conflict_evidence (ic_sha cfg) st candidate))))"

subsection \<open>The rebuilt evidence of a reachable database\<close>

definition receipt_envelope :: "(string \<Rightarrow> string) \<Rightarrow> (string \<Rightarrow> pydatetime option) \<Rightarrow> source_receipt \<Rightarrow> record_envelope \<Rightarrow> bool" where
  "receipt_envelope sha fromiso r e = (\<exists>v. carries sha fromiso r v (env_record e) \<and> env_receipt_id e = sr_id r
     \<and> env_payload_hash e = sr_payload_hash r)"

lemma entity_of_label_value [simp]: "entity_of_label (Some (entity_type_value et)) = Inr et"
  by (cases et) (simp_all add: entity_of_label_def enum_lookup_def entity_type_members_def)

lemma rebuild_linked:
  assumes "carries sha fromiso r v rec" "sr_disposition r \<in> {DI_ACCEPTED, DI_STALE, DI_DUPLICATE, DI_CONFLICTED}"
  shows "\<exists>e. rebuild_receipt sha fromiso (r, IS_COMMITTED) (es, qs) = Inr (es @ [e], qs) \<and> receipt_envelope sha fromiso r e"
proof -
  obtain et where et: "sr_entity_type r = Some (entity_type_value et)" "parse_source_record fromiso et (JObj (sr_payload r)) = Inr rec"
    "canonical_text (sr_id r)" "sr_source_id r = Some (record_id rec)" "sr_source_version r = Some (record_source_version rec)"
    "sr_payload_hash r = calculate_payload_hash (sha_text sha) rec"
    using assms(1) by (auto simp: carries_def)
  let ?e = "\<lparr>env_receipt_id = sr_id r, env_record = rec, env_payload_hash = calculate_payload_hash (sha_text sha) rec\<rparr>"
  have "receipt_envelope sha fromiso r ?e" using assms(1) et(6) by (auto simp: receipt_envelope_def)
  moreover have "sr_disposition r \<noteq> DI_QUARANTINED" using assms(2) by auto
  ultimately show ?thesis
    using et assms(2) by (intro exI[of _ ?e]) (simp add: rebuild_receipt_def require_def lift_error_def make_envelope_def make_record_envelope_def)
qed

lemma rebuild_rejected:
  assumes "rejected_row r"
  shows "\<exists>q. rebuild_receipt sha fromiso (r, s) (es, qs) = Inr (es, qs @ [q]) \<and> qr_source_id q = sr_source_id r
    \<and> sr_reason_code r = Some (qr_reason_code q)"
  using assms by (auto simp: rejected_row_def rebuild_receipt_def make_quarantine_def require_def)

lemma rebuild_rows:
  assumes "\<forall>x \<in> set xs. rejected_row (fst x) \<and> sr_record_version (fst x) = None
    \<or> sr_record_version (fst x) \<noteq> None \<and> snd x = IS_COMMITTED
      \<and> sr_disposition (fst x) \<in> {DI_ACCEPTED, DI_STALE, DI_DUPLICATE, DI_CONFLICTED} \<and> (\<exists>v rec. carries sha fromiso (fst x) v rec)"
  shows "\<exists>es' qs'. fold_result (rebuild_receipt sha fromiso) xs (es, qs) = Inr (es @ es', qs @ qs')
    \<and> list_all2 (receipt_envelope sha fromiso) (filter (\<lambda>r. sr_record_version r \<noteq> None) (map fst xs)) es'
    \<and> length es' + length qs' = length xs"
  using assms
proof (induction xs arbitrary: es qs)
  case (Cons x xs)
  obtain r s where x: "x = (r, s)" by (cases x)
  show ?case
  proof (cases "sr_record_version r")
    case None
    then have "rejected_row r" using Cons.prems by (auto simp: x)
    from rebuild_rejected[OF this] obtain q where q: "rebuild_receipt sha fromiso (r, s) (es, qs) = Inr (es, qs @ [q])" by blast
    obtain es' qs' where ih: "fold_result (rebuild_receipt sha fromiso) xs (es, qs @ [q]) = Inr (es @ es', (qs @ [q]) @ qs')"
      "list_all2 (receipt_envelope sha fromiso) (filter (\<lambda>r. sr_record_version r \<noteq> None) (map fst xs)) es'"
      "length es' + length qs' = length xs" using Cons.IH[of es "qs @ [q]"] Cons.prems by auto
    show ?thesis using ih q None by (intro exI[of _ es'] exI[of _ "q # qs'"]) (simp add: x)
  next
    case (Some i)
    then obtain v rec where "carries sha fromiso r v rec" "s = IS_COMMITTED" "sr_disposition r \<in> {DI_ACCEPTED, DI_STALE, DI_DUPLICATE, DI_CONFLICTED}"
      using Cons.prems by (auto simp: x)
    from rebuild_linked[OF this(1,3)] this(2) obtain e where e: "rebuild_receipt sha fromiso (r, s) (es, qs) = Inr (es @ [e], qs)"
      "receipt_envelope sha fromiso r e" by metis
    obtain es' qs' where ih: "fold_result (rebuild_receipt sha fromiso) xs (es @ [e], qs) = Inr ((es @ [e]) @ es', qs @ qs')"
      "list_all2 (receipt_envelope sha fromiso) (filter (\<lambda>r. sr_record_version r \<noteq> None) (map fst xs)) es'"
      "length es' + length qs' = length xs" using Cons.IH[of "es @ [e]" qs] Cons.prems by auto
    show ?thesis using ih e Some by (intro exI[of _ "e # es'"] exI[of _ qs']) (simp add: x)
  qed
qed simp

lemma committed_receipts:
  assumes ok: "database_ok sha fromiso db"
  shows "map fst (rebuild_receipts (db_sources db)) = sort_key (\<lambda>r. (sr_batch r, sr_row_number r)) (st_receipts (db_sources db))"
    and "x \<in> set (rebuild_receipts (db_sources db)) \<Longrightarrow> snd x = IS_COMMITTED"
proof -
  let ?f = "\<lambda>r. case find_batch (sr_batch r) (db_sources db) of None \<Rightarrow> None | Some b \<Rightarrow> if finalized b then Some (r, ib_status b) else None"
  have f: "?f r = Some (r, IS_COMMITTED)" if "r \<in> set (st_receipts (db_sources db))" for r
  proof -
    obtain b where b: "find_batch (sr_batch r) (db_sources db) = Some b"
      using ok \<open>r \<in> set (st_receipts (db_sources db))\<close> unfolding database_ok_def tables_ok_def by blast
    then have "b \<in> set (st_batches (db_sources db))" by (auto simp: find_batch_def dest: find_member)
    then have "ib_status b = IS_COMMITTED" using ok by (auto simp: database_ok_def batch_whole_def)
    then show ?thesis by (simp add: b finalized_def)
  qed
  have all: "List.map_filter ?f rs = map (\<lambda>r. (r, IS_COMMITTED)) rs" if "set rs \<subseteq> set (st_receipts (db_sources db))" for rs
    using that
  proof (induction rs)
    case (Cons r rs)
    then have "?f r = Some (r, IS_COMMITTED)" by (intro f) simp
    with Cons show ?case unfolding List.map_filter_simps by simp
  qed (simp add: List.map_filter_simps)
  have "rebuild_receipts (db_sources db) = map (\<lambda>r. (r, IS_COMMITTED)) (sort_key (\<lambda>r. (sr_batch r, sr_row_number r)) (st_receipts (db_sources db)))"
    unfolding rebuild_receipts_def by (rule all) simp
  then show "map fst (rebuild_receipts (db_sources db)) = sort_key (\<lambda>r. (sr_batch r, sr_row_number r)) (st_receipts (db_sources db))"
    "x \<in> set (rebuild_receipts (db_sources db)) \<Longrightarrow> snd x = IS_COMMITTED" by (auto simp: comp_def)
qed

lemma rebuild_inputs_total:
  assumes ok: "database_ok sha fromiso db"
  shows "\<exists>es qs. rebuild_inputs sha fromiso (db_sources db) = Inr (es, qs)
    \<and> length es + length qs = length (st_receipts (db_sources db))
    \<and> list_all2 (receipt_envelope sha fromiso) (filter (\<lambda>r. sr_record_version r \<noteq> None)
        (sort_key (\<lambda>r. (sr_batch r, sr_row_number r)) (st_receipts (db_sources db)))) es"
proof -
  note rows = committed_receipts[OF ok]
  have len: "length (rebuild_receipts (db_sources db)) = length (st_receipts (db_sources db))"
    using arg_cong[OF rows(1), of length] by simp
  have "fst x \<in> set (st_receipts (db_sources db))" if "x \<in> set (rebuild_receipts (db_sources db))" for x
  proof -
    have "fst x \<in> set (map fst (rebuild_receipts (db_sources db)))" using that by simp
    then show ?thesis unfolding rows(1) by simp
  qed
  then have "\<forall>x \<in> set (rebuild_receipts (db_sources db)). rejected_row (fst x) \<and> sr_record_version (fst x) = None
    \<or> sr_record_version (fst x) \<noteq> None \<and> snd x = IS_COMMITTED
      \<and> sr_disposition (fst x) \<in> {DI_ACCEPTED, DI_STALE, DI_DUPLICATE, DI_CONFLICTED} \<and> (\<exists>v rec. carries sha fromiso (fst x) v rec)"
    using ok rows(2) linked_classified[OF ok] linked_receipt[OF ok] unfolding database_ok_def by (metis option.exhaust)
  from rebuild_rows[OF this, of "[]" "[]"] obtain es qs where
    "fold_result (rebuild_receipt sha fromiso) (rebuild_receipts (db_sources db)) ([], []) = Inr (es, qs)"
    "list_all2 (receipt_envelope sha fromiso) (filter (\<lambda>r. sr_record_version r \<noteq> None) (map fst (rebuild_receipts (db_sources db)))) es"
    "length es + length qs = length (rebuild_receipts (db_sources db))" by auto
  then show ?thesis using len unfolding rows(1) by (auto simp: rebuild_inputs_def require_def)
qed

end
