(* ===== verification/Ingestion_Sample.thy ===== *)
theory Ingestion_Sample
  imports Recovery_Rebuild "HOL-Library.Code_Target_Nat"
begin

text \<open>
  A concrete delivery of three rows (an order, the same order again, and an object without fields), evaluated
  through verification and ingestion; the properties of ingestion and of the rebuild are applied to it.
\<close>

subsection \<open>A sample delivery\<close>

definition sample_digest :: "string \<Rightarrow> string" where
  "sample_digest s = replicate 64 (CHR ''0'')"

definition sample_row :: raw_json where
  "sample_row = RawObject [(''order_id'', RawString ''o1''), (''created_at_utc'', RawString ''t''), (''status'', RawString ''PAID''),
     (''currency'', RawString ''EUR''), (''order_total'', RawString ''100.00''), (''source_version'', RawInt 1)]"

definition sample_manifest_fields :: "(string \<times> raw_json) list" where
  "sample_manifest_fields = [(''filename'', RawString ''orders.json''), (''source_system'', RawString ''threadline_shop''),
     (''report_type'', RawString ''orders''), (''report_date'', RawString (isoformat 730000)), (''entity_type'', RawString ''ORDER''),
     (''schema_version'', RawString ''1''), (''row_count'', RawInt 3), (''checksum_sha256'', RawString (sample_digest []))]"

definition sample_ingestion :: ingest_config where
  "sample_ingestion = \<lparr>ic_sha = sample_digest, ic_digest = (\<lambda>_. []), ic_fromiso = (\<lambda>_. Some (Aware 0)),
     ic_loads = (\<lambda>s. Some (if s = ''D'' then RawArray [sample_row, sample_row, RawObject []] else RawObject sample_manifest_fields)),
     ic_date_iso = (\<lambda>_. Some 730000),
     ic_resolve = (\<lambda>s. if s = ''inbox'' then [''inbox''] else [''inbox'', ''orders.json''])\<rparr>"

definition sample_views :: "nat \<Rightarrow> file_view" where
  "sample_views n p = (if p = [''inbox'', ''orders.json''] then Some (FileNode ''D'')
     else if p = [''inbox'', ''orders.manifest.json''] then Some (FileNode ''M'') else None)"

definition sample_uuid :: "nat \<Rightarrow> nat \<Rightarrow> uuid" where
  "sample_uuid k n = ''00000000-0000-0000-0000-0000000000'' @ map (\<lambda>i. ''0123456789'' ! i) [k, n]"

definition sample_ids :: fresh_ids where
  "sample_ids = \<lparr>id_batch = sample_uuid 1 0, id_receipt = sample_uuid 2, id_version = sample_uuid 3, id_request = sample_uuid 4 0\<rparr>"

definition calm_hook :: "nat failure_hook" where
  "calm_hook h point = (Inr (), h)"

definition sample_delivered :: "(ingestion_error + ingestion_outcome option) \<times> database \<times> nat" where
  "sample_delivered = ingest_source_file sample_ingestion calm_hook sample_ids 5 CommitOk sample_views ''orders.json'' ''inbox''
     (Aware 4) empty_database 0"

definition sample_database :: database where
  "sample_database = fst (snd sample_delivered)"

lemma sample_delivered_facts:
  "case sample_delivered of (out, db, h) \<Rightarrow>
     out = Inr (Some \<lparr>io_batch = sample_uuid 1 0, io_request = sample_uuid 4 0, io_reused = False\<rparr>)
     \<and> map (\<lambda>r. (sr_id r, sr_disposition r)) (st_receipts (db_sources db))
         = [(sample_uuid 2 1, DI_ACCEPTED), (sample_uuid 2 2, DI_DUPLICATE), (sample_uuid 2 3, DI_QUARANTINED)]
     \<and> map (\<lambda>b. (ib_id b, ib_report_date b)) (st_batches (db_sources db)) = [(sample_uuid 1 0, 730000)]
     \<and> st_days (db_sources db) = [730000]"
  by code_simp

lemma sample_outcome:
  "sample_delivered = (Inr (Some \<lparr>io_batch = sample_uuid 1 0, io_request = sample_uuid 4 0, io_reused = False\<rparr>), sample_database, snd (snd sample_delivered))"
proof -
  obtain out db h where s: "sample_delivered = (out, db, h)" by (rule prod_cases3)
  show ?thesis using sample_delivered_facts unfolding sample_database_def s by simp
qed

lemma sample_tables:
  "map (\<lambda>r. (sr_id r, sr_disposition r)) (st_receipts (db_sources sample_database))
     = [(sample_uuid 2 1, DI_ACCEPTED), (sample_uuid 2 2, DI_DUPLICATE), (sample_uuid 2 3, DI_QUARANTINED)]"
  "map (\<lambda>b. (ib_id b, ib_report_date b)) (st_batches (db_sources sample_database)) = [(sample_uuid 1 0, 730000)]"
  "st_days (db_sources sample_database) = [730000]"
proof -
  obtain out db h where s: "sample_delivered = (out, db, h)" by (rule prod_cases3)
  show "map (\<lambda>r. (sr_id r, sr_disposition r)) (st_receipts (db_sources sample_database))
     = [(sample_uuid 2 1, DI_ACCEPTED), (sample_uuid 2 2, DI_DUPLICATE), (sample_uuid 2 3, DI_QUARANTINED)]"
    "map (\<lambda>b. (ib_id b, ib_report_date b)) (st_batches (db_sources sample_database)) = [(sample_uuid 1 0, 730000)]"
    "st_days (db_sources sample_database) = [730000]"
    using sample_delivered_facts unfolding sample_database_def s by simp_all
qed

lemma sample_batch_ids: "ib_id ` set (st_batches (db_sources sample_database)) = {sample_uuid 1 0}"
  "ib_report_date ` set (st_batches (db_sources sample_database)) = {730000}"
proof -
  have "ib_id ` set (st_batches (db_sources sample_database)) = fst ` set (map (\<lambda>b. (ib_id b, ib_report_date b)) (st_batches (db_sources sample_database)))"
    "ib_report_date ` set (st_batches (db_sources sample_database)) = snd ` set (map (\<lambda>b. (ib_id b, ib_report_date b)) (st_batches (db_sources sample_database)))"
    by (simp_all add: image_image)
  then show "ib_id ` set (st_batches (db_sources sample_database)) = {sample_uuid 1 0}"
    "ib_report_date ` set (st_batches (db_sources sample_database)) = {730000}" unfolding sample_tables by simp_all
qed

lemma sample_receipt_ids: "sr_id ` set (st_receipts (db_sources sample_database)) = {sample_uuid 2 1, sample_uuid 2 2, sample_uuid 2 3}"
proof -
  have "sr_id ` set (st_receipts (db_sources sample_database)) = fst ` set (map (\<lambda>r. (sr_id r, sr_disposition r)) (st_receipts (db_sources sample_database)))"
    by (simp add: image_image)
  then show ?thesis unfolding sample_tables by simp
qed

lemma sample_changed: "sample_database \<noteq> empty_database"
proof
  assume "sample_database = empty_database"
  with sample_tables(3) show False by (simp add: empty_database_def empty_sources_def)
qed

lemma sample_reached: "(ingestion_step sample_ingestion)\<^sup>*\<^sup>* empty_database sample_database"
  by (rule r_into_rtranclp, rule delivered, rule sample_outcome[unfolded sample_delivered_def])

end
