(* ===== verification/Ingestion_Properties.thy ===== *)
theory Ingestion_Properties
  imports Ingestion_Sample
begin

text \<open>
  What durable ingestion promises: whole deliveries, idempotent redelivery and atomic calls.
\<close>

text \<open>C5: In every database that deliveries and the work on the recovery queue can lead to, a batch is committed, the bytes of
  its file and manifest are retained and have the checksums the batch declares, its receipts are the rows 1 to n of the
  file, and a recovery request of the batch is on the queue.  Each receipt is either quarantined or linked to the
  version of its entity that carries its hash; a linked receipt is accepted, stale, duplicate or conflicted.\<close>

theorem committed_deliveries_whole:
  assumes reached: "(ingestion_step cfg)\<^sup>*\<^sup>* empty_database db"
  shows "(\<forall>b \<in> set (st_batches (db_sources db)). batch_whole (ic_sha cfg) (db_sources db) b \<and> has_request (db_queue db) (ib_id b))
    \<and> (\<forall>r \<in> set (st_receipts (db_sources db)). case sr_record_version r of
        None \<Rightarrow> sr_disposition r = DI_QUARANTINED
      | Some i \<Rightarrow> sr_disposition r \<in> {DI_ACCEPTED, DI_STALE, DI_DUPLICATE, DI_CONFLICTED}
          \<and> (\<exists>v. find_version_row i (db_sources db) = Some v
               \<and> version_key v = (the (sr_entity_type r), the (sr_source_id r), the (sr_source_version r), sr_payload_hash r)))
    \<and> queue_ok (db_queue db) \<and> triggers_known (db_sources db) (db_queue db)"
proof -
  have ok: "database_ok (ic_sha cfg) (ic_fromiso cfg) db" by (rule ingestion_steps_ok[OF reached empty_database_ok])
  then have whole: "\<forall>b \<in> set (st_batches (db_sources db)). batch_whole (ic_sha cfg) (db_sources db) b \<and> has_request (db_queue db) (ib_id b)"
    "queue_ok (db_queue db) \<and> triggers_known (db_sources db) (db_queue db)"
    unfolding database_ok_def by blast+
  have classified: "case sr_record_version r of
        None \<Rightarrow> sr_disposition r = DI_QUARANTINED
      | Some i \<Rightarrow> sr_disposition r \<in> {DI_ACCEPTED, DI_STALE, DI_DUPLICATE, DI_CONFLICTED}
          \<and> (\<exists>v. find_version_row i (db_sources db) = Some v
               \<and> version_key v = (the (sr_entity_type r), the (sr_source_id r), the (sr_source_version r), sr_payload_hash r))"
    if r: "r \<in> set (st_receipts (db_sources db))" for r
  proof (cases "sr_record_version r")
    case None
    then show ?thesis using ok r by (auto simp: database_ok_def rejected_row_def)
  next
    case (Some i)
    obtain v rec where v: "find_version_row i (db_sources db) = Some v" "carries (ic_sha cfg) (ic_fromiso cfg) r v rec"
      "counted_batch (db_sources db) (sr_batch r)"
      using linked_receipt[OF ok r Some] by blast
    then show ?thesis using linked_classified[OF ok r Some] Some by (auto simp: carries_def)
  qed
  show ?thesis using whole classified by blast
qed

theorem committed_deliveries_whole_witness:
  "(\<exists>b \<in> set (st_batches (db_sources sample_database)). batch_whole sample_digest (db_sources sample_database) b
      \<and> has_request (db_queue sample_database) (ib_id b))
    \<and> (\<exists>r \<in> set (st_receipts (db_sources sample_database)). sr_id r = sample_uuid 2 2 \<and> (case sr_record_version r of
        None \<Rightarrow> sr_disposition r = DI_QUARANTINED
      | Some i \<Rightarrow> sr_disposition r \<in> {DI_ACCEPTED, DI_STALE, DI_DUPLICATE, DI_CONFLICTED}
          \<and> (\<exists>v. find_version_row i (db_sources sample_database) = Some v
               \<and> version_key v = (the (sr_entity_type r), the (sr_source_id r), the (sr_source_version r), sr_payload_hash r))))
    \<and> queue_ok (db_queue sample_database)"
proof (intro conjI)
  have sha: "ic_sha sample_ingestion = sample_digest" by (simp add: sample_ingestion_def)
  note whole = committed_deliveries_whole[OF sample_reached, unfolded sha]
  obtain b where b: "b \<in> set (st_batches (db_sources sample_database))" using sample_batch_ids(1) by blast
  show "\<exists>b \<in> set (st_batches (db_sources sample_database)). batch_whole sample_digest (db_sources sample_database) b
      \<and> has_request (db_queue sample_database) (ib_id b)" using whole b by blast
  have "sample_uuid 2 2 \<in> sr_id ` set (st_receipts (db_sources sample_database))" unfolding sample_receipt_ids by simp
  then obtain r where r: "r \<in> set (st_receipts (db_sources sample_database))" "sr_id r = sample_uuid 2 2" by force
  show "\<exists>r \<in> set (st_receipts (db_sources sample_database)). sr_id r = sample_uuid 2 2 \<and> (case sr_record_version r of
        None \<Rightarrow> sr_disposition r = DI_QUARANTINED
      | Some i \<Rightarrow> sr_disposition r \<in> {DI_ACCEPTED, DI_STALE, DI_DUPLICATE, DI_CONFLICTED}
          \<and> (\<exists>v. find_version_row i (db_sources sample_database) = Some v
               \<and> version_key v = (the (sr_entity_type r), the (sr_source_id r), the (sr_source_version r), sr_payload_hash r)))"
    using whole r by blast
  show "queue_ok (db_queue sample_database)" using whole by blast
qed

subsection \<open>One call\<close>

lemma find_by_columns:
  "map_option fst (List.find (\<lambda>x. snd x = k) (map (\<lambda>b. (f b, g b)) bs)) = map_option f (List.find (\<lambda>b. g b = k) bs)"
  by (induction bs) auto

lemma found_request:
  assumes "request_columns q = cs @ [(i, Some b)] @ ds" "Some b \<notin> snd ` set cs"
  shows "\<exists>r. List.find (\<lambda>r. rq_trigger_batch r = Some b) (q_requests q) = Some r \<and> rq_id r = i"
proof -
  have "List.find (\<lambda>x. snd x = Some b) cs = None" using assms(2) by (auto simp: find_None_iff image_def)
  then have "map_option fst (List.find (\<lambda>x. snd x = Some b) (request_columns q)) = Some i"
    unfolding assms(1) by (simp add: find_append)
  then show ?thesis unfolding request_columns_def find_by_columns by auto
qed

lemma committed_columns:
  assumes committed: "delivery_committed cfg ids as_of now d db db'" and ok: "database_ok (ic_sha cfg) (ic_fromiso cfg) db"
  shows "batch_columns (db_sources db') = batch_columns (db_sources db) @ [(id_batch ids, delivery_key (ic_sha cfg) d)]"
    and "request_columns (db_queue db') = request_columns (db_queue db) @ [(id_request ids, Some (id_batch ids))]"
    and "Some (id_batch ids) \<notin> snd ` set (request_columns (db_queue db))"
proof -
  note f = delivery_committed_facts[OF committed ok]
  show "batch_columns (db_sources db') = batch_columns (db_sources db) @ [(id_batch ids, delivery_key (ic_sha cfg) d)]"
    unfolding batch_columns_def f(2) by (simp add: delivery_batch_def)
  show "request_columns (db_queue db') = request_columns (db_queue db) @ [(id_request ids, Some (id_batch ids))]"
    using f(6) by (auto simp: request_columns_def)
  have "triggers_known (db_sources db) (db_queue db)" using ok by (simp add: database_ok_def)
  then show "Some (id_batch ids) \<notin> snd ` set (request_columns (db_queue db))"
    using f(7) by (force simp: triggers_known_def request_columns_def)
qed

lemma reuse_committed:
  assumes ok: "database_ok (ic_sha cfg) (ic_fromiso cfg) db2"
    and batches: "batch_columns (db_sources db2) = bs @ [(i, key)] @ bs'"
    and requests: "request_columns (db_queue db2) = cs @ [(j, Some i)] @ cs'" "Some i \<notin> snd ` set cs"
  shows "\<exists>b. find_delivery key (db_sources db2) = Some b
    \<and> reuse_delivery b (db_queue db2) = Inr \<lparr>io_batch = i, io_request = j, io_reused = True\<rparr>"
proof -
  have tables: "tables_ok (ic_sha cfg) (ic_fromiso cfg) (db_sources db2)" using ok by (simp add: database_ok_def)
  have "(i, key) \<in> set (batch_columns (db_sources db2))" unfolding batches by simp
  then obtain b where b: "b \<in> set (st_batches (db_sources db2))" "ib_id b = i" "ib_delivery_key b = key"
    by (auto simp: batch_columns_def)
  have "distinct (map ib_delivery_key (st_batches (db_sources db2)))" using tables by (simp add: tables_ok_def)
  from find_unique[OF this b(1)] have found: "find_delivery key (db_sources db2) = Some b"
    by (simp add: find_delivery_def b(3))
  have "ib_status b = IS_COMMITTED" using ok b(1) by (auto simp: database_ok_def batch_whole_def)
  moreover obtain r where "List.find (\<lambda>r. rq_trigger_batch r = Some i) (q_requests (db_queue db2)) = Some r" "rq_id r = j"
    using found_request[OF requests] by blast
  ultimately show ?thesis using found b(2) by (simp add: reuse_delivery_def require_def)
qed

text \<open>C17: Once a delivery has changed the database, whatever its caller was told (a lost acknowledgement or a failure after
  the commit included), delivering the same evidence again at any later time, after any further deliveries and any
  work on the queue, stores nothing: it returns the batch and the request of the first delivery, marked as reused.\<close>

theorem redelivery_reuses:
  assumes "(ingestion_step cfg)\<^sup>*\<^sup>* empty_database db"
    and "ingest_source_file cfg hook ids now fate views source_path inbox_root as_of db (h :: nat) = (out, db1, h1)" "db1 \<noteq> db"
    and "verify_delivery (ic_sha cfg) (ic_loads cfg) (ic_date_iso cfg) (ic_resolve cfg) views source_path inbox_root = Inr (Some d)"
    and "(ingestion_step cfg)\<^sup>*\<^sup>* db1 db2"
    and "verify_delivery (ic_sha cfg) (ic_loads cfg) (ic_date_iso cfg) (ic_resolve cfg) views' source_path' inbox_root' = Inr (Some d')"
    and "delivery_key (ic_sha cfg) d' = delivery_key (ic_sha cfg) d"
  shows "ingest_source_file cfg hook' ids' now' fate' views' source_path' inbox_root' (Aware as_of') db2 (h' :: nat)
    = (Inr (Some \<lparr>io_batch = id_batch ids, io_request = id_request ids, io_reused = True\<rparr>), db2, h')"
proof -
  have ok: "database_ok (ic_sha cfg) (ic_fromiso cfg) db" by (rule ingestion_steps_ok[OF assms(1) empty_database_ok])
  obtain t where c: "delivery_committed cfg ids t now d db db1"
    using ingest_source_committed[OF assms(2,3)] assms(4) by (metis Inr_inject option.inject)
  note ok1 = delivery_committed_facts(1)[OF c ok]
  note cols = committed_columns[OF c ok]
  obtain bs' where bs: "batch_columns (db_sources db2) = batch_columns (db_sources db) @ [(id_batch ids, delivery_key (ic_sha cfg) d)] @ bs'"
    using ingestion_steps_columns(1)[OF assms(5) ok1] cols(1) by auto
  obtain cs' where cs: "request_columns (db_queue db2) = request_columns (db_queue db) @ [(id_request ids, Some (id_batch ids))] @ cs'"
    using ingestion_steps_columns(2)[OF assms(5) ok1] cols(2) by auto
  obtain b where b: "find_delivery (delivery_key (ic_sha cfg) d) (db_sources db2) = Some b"
    "reuse_delivery b (db_queue db2) = Inr \<lparr>io_batch = id_batch ids, io_request = id_request ids, io_reused = True\<rparr>"
    using reuse_committed[OF ingestion_steps_ok[OF assms(5) ok1] bs cs cols(3)] by blast
  obtain x where "acquire_entity_locks (ic_digest cfg) True (identity_keys (ic_fromiso cfg) d') = Inr x"
    using identity_locks by blast
  then show ?thesis using assms(6,7) b by (simp add: ingest_source_file_def ingest_verified_def)
qed

definition sample_verified :: verified_delivery where
  "sample_verified = (case verify_delivery sample_digest (ic_loads sample_ingestion) (\<lambda>_. Some 730000) (ic_resolve sample_ingestion)
     sample_views ''orders.json'' ''inbox'' of Inr (Some d) \<Rightarrow> d)"

lemma sample_verifies:
  "verify_delivery (ic_sha sample_ingestion) (ic_loads sample_ingestion) (ic_date_iso sample_ingestion) (ic_resolve sample_ingestion)
     sample_views ''orders.json'' ''inbox'' = Inr (Some sample_verified)"
proof -
  have "case verify_delivery sample_digest (ic_loads sample_ingestion) (\<lambda>_. Some 730000) (ic_resolve sample_ingestion)
     sample_views ''orders.json'' ''inbox'' of Inr (Some d) \<Rightarrow> True | _ \<Rightarrow> False" by code_simp
  then show ?thesis unfolding sample_verified_def
    by (auto simp: sample_ingestion_def split: sum.splits option.splits)
qed

theorem redelivery_reuses_witness:
  "ingest_source_file sample_ingestion calm_hook \<lparr>id_batch = [], id_receipt = (\<lambda>_. []), id_version = (\<lambda>_. []), id_request = []\<rparr>
      9 CommitOk sample_views ''orders.json'' ''inbox'' (Aware 8) sample_database (7 :: nat)
    = (Inr (Some \<lparr>io_batch = sample_uuid 1 0, io_request = sample_uuid 4 0, io_reused = True\<rparr>), sample_database, 7)"
  using redelivery_reuses[OF rtranclp.rtrancl_refl sample_outcome[unfolded sample_delivered_def] sample_changed sample_verifies
    rtranclp.rtrancl_refl sample_verifies refl, where hook' = calm_hook and now' = 9 and fate' = CommitOk and as_of' = 8 and h' = 7
    and ids' = "\<lparr>id_batch = [], id_receipt = (\<lambda>_. []), id_version = (\<lambda>_. []), id_request = []\<rparr>"]
  unfolding sample_ids_def fresh_ids.select_convs .

lemma commit_refused:
  assumes "ingest_verified cfg hook ids as_of now CommitRefused d db h = (out, db', h')"
  shows "db' = db"
proof (cases "acquire_entity_locks (ic_digest cfg) True (identity_keys (ic_fromiso cfg) d)")
  case (Inr locks)
  show ?thesis
  proof (cases "find_delivery (delivery_key (ic_sha cfg) d) (db_sources db)")
    case None
    show ?thesis
    proof (cases "stage_delivery (ic_sha cfg) (ic_fromiso cfg) ids as_of now d (db_sources db)")
      case (Inr st)
      then show ?thesis
        using assms \<open>acquire_entity_locks _ _ _ = Inr locks\<close> None
        by (auto simp: ingest_verified_def Let_def split: prod.splits sum.splits)
    qed (use assms Inr None in \<open>auto simp: ingest_verified_def\<close>)
  qed (use assms Inr in \<open>auto simp: ingest_verified_def\<close>)
qed (use assms in \<open>auto simp: ingest_verified_def\<close>)



end
