(* ===== verification/Rebuild_Refinement.thy ===== *)
theory Rebuild_Refinement
  imports Ingestion_Sample Reconcile_Facts
begin

text \<open>
  The incremental resolution kept by ingestion against the canonicalization of a full rebuild, the certification of
  completeness from retained evidence, and the builder of a full rebuild on a reachable database.
\<close>

subsection \<open>Durable resolution against canonicalization\<close>

text \<open>
  \<open>linked st\<close> are the receipts that canonicalization sees.  Under the invariant of the database the envelopes
  stand for them one by one, and what the resolution reads of the version table is what canonicalization
  computes from the envelopes.
\<close>

definition linked :: "source_tables \<Rightarrow> source_receipt list" where
  "linked st = filter (\<lambda>r. sr_record_version r \<noteq> None) (sort_key (\<lambda>r. (sr_batch r, sr_row_number r)) (st_receipts st))"

lemma linked_member: "r \<in> set (linked st) \<longleftrightarrow> r \<in> set (st_receipts st) \<and> sr_record_version r \<noteq> None"
  by (simp add: linked_def)

definition key_identity :: "entity_type \<Rightarrow> string \<Rightarrow> identity" where
  "key_identity et i = (source_system_value (REPORT_SOURCES (THE rt. REPORT_ENTITIES rt = et)), entity_type_value et, i)"

lemma report_entities_inject: "REPORT_ENTITIES a = REPORT_ENTITIES b \<longleftrightarrow> a = b"
  by (cases a; cases b) simp_all

lemma record_source: "record_source_system rec = REPORT_SOURCES (THE rt. REPORT_ENTITIES rt = record_entity_type rec)"
proof -
  have the: "(THE rt. REPORT_ENTITIES rt = REPORT_ENTITIES t) = t" for t by (simp add: report_entities_inject)
  show ?thesis by (cases rec) (simp_all add: the[of RT_ORDERS, simplified] the[of RT_PAYMENTS, simplified] the[of RT_REFUNDS, simplified]
    the[of RT_FEES, simplified] the[of RT_SETTLEMENT_LINES, simplified] the[of RT_PAYOUTS, simplified])
qed

lemma envelope_fields:
  assumes "receipt_envelope sha fromiso r e"
  obtains et i where "receipt_key r = (Some (entity_type_value et), Some i)" "env_identity e = key_identity et i"
    "record_entity_type (env_record e) = et" "record_id (env_record e) = i"
    "sr_source_version r = Some (env_source_version e)" "env_payload_hash e = sr_payload_hash r" "env_receipt_id e = sr_id r"
    "env_payload_hash e = calculate_payload_hash (sha_text sha) (env_record e)"
proof -
  obtain v et where c: "sr_entity_type r = Some (entity_type_value et)" "parse_source_record fromiso et (JObj (sr_payload r)) = Inr (env_record e)"
    "sr_source_id r = Some (record_id (env_record e))" "sr_source_version r = Some (record_source_version (env_record e))"
    "sr_payload_hash r = calculate_payload_hash (sha_text sha) (env_record e)" and
    ids: "env_receipt_id e = sr_id r" "env_payload_hash e = sr_payload_hash r"
    using assms by (auto simp: receipt_envelope_def carries_def)
  note f = parsed_record_facts[OF c(2)]
  show thesis
    by (rule that[of et "record_id (env_record e)"])
      (use c ids f(1) record_source[of "env_record e"] in \<open>simp_all add: receipt_key_def env_identity_def record_identity_def key_identity_def env_source_version_def\<close>)
qed

lemma same_identity:
  assumes "receipt_envelope sha fromiso r e" "receipt_envelope sha fromiso r' e'"
  shows "env_identity e = env_identity e' \<longleftrightarrow> receipt_key r = receipt_key r'"
proof -
  obtain et i where a: "receipt_key r = (Some (entity_type_value et), Some i)" "env_identity e = key_identity et i" using envelope_fields[OF assms(1)] by metis
  obtain et' i' where b: "receipt_key r' = (Some (entity_type_value et'), Some i')" "env_identity e' = key_identity et' i'" using envelope_fields[OF assms(2)] by metis
  show ?thesis unfolding a b by (auto simp: key_identity_def)
qed

lemma list_all2_memberL: "list_all2 P xs ys \<Longrightarrow> x \<in> set xs \<Longrightarrow> \<exists>y \<in> set ys. P x y"
  by (induction rule: list_all2_induct) auto

lemma list_all2_memberR: "list_all2 P xs ys \<Longrightarrow> y \<in> set ys \<Longrightarrow> \<exists>x \<in> set xs. P x y"
  by (induction rule: list_all2_induct) auto

text \<open>The versions of an entity are those its linked receipts carry.\<close>

lemma entity_version_columns:
  assumes ok: "database_ok sha fromiso db" and env: "list_all2 (receipt_envelope sha fromiso) (linked (db_sources db)) es"
    and e: "e \<in> set es" and key: "env_identity e = key_identity et i"
  shows "(\<lambda>v. (rv_source_version v, rv_payload_hash v)) ` set (entity_versions (db_sources db) (entity_type_value et) i)
    = (\<lambda>x. (env_source_version x, env_payload_hash x)) ` set (at_identity es (key_identity et i))"
proof -
  let ?st = "db_sources db" and ?t = "entity_type_value et"
  have tables: "tables_ok sha fromiso ?st" using ok by (simp add: database_ok_def)
  have own: "env_identity x = key_identity et i \<longleftrightarrow> receipt_key r = (Some ?t, Some i)" if x: "receipt_envelope sha fromiso r x" for r x
  proof -
    obtain et' i' where "receipt_key r = (Some (entity_type_value et'), Some i')" "env_identity x = key_identity et' i'" using envelope_fields[OF x] by metis
    then show ?thesis by (auto simp: key_identity_def)
  qed
  have version: "\<exists>v. find_version_row j ?st = Some v \<and> v \<in> set (st_versions ?st)
      \<and> version_key v = (the (sr_entity_type r), the (sr_source_id r), env_source_version x, env_payload_hash x)"
    if r: "r \<in> set (st_receipts ?st)" "sr_record_version r = Some j" and x: "receipt_envelope sha fromiso r x" for r j x
  proof -
    obtain v rec where v: "find_version_row j ?st = Some v" "carries sha fromiso r v rec" using linked_receipt[OF ok r] by blast
    have "version_key v = (the (sr_entity_type r), the (sr_source_id r), the (sr_source_version r), sr_payload_hash r)"
      using v(2) by (auto simp: carries_def)
    moreover have "sr_source_version r = Some (env_source_version x)" "env_payload_hash x = sr_payload_hash r"
      using envelope_fields[OF x] by metis+
    ultimately show ?thesis using v(1) by (auto simp: find_version_row_def dest: find_member)
  qed
  have ids: "distinct (map rv_id (st_versions ?st))" using tables by (simp add: tables_ok_def)
  show ?thesis
  proof (intro equalityI subsetI)
    fix p
    assume "p \<in> (\<lambda>v. (rv_source_version v, rv_payload_hash v)) ` set (entity_versions ?st ?t i)"
    then obtain v where v: "p = (rv_source_version v, rv_payload_hash v)" "v \<in> set (st_versions ?st)" "rv_entity_type v = ?t" "rv_source_id v = i"
      by (auto simp: entity_versions_def)
    obtain r where r: "r \<in> set (st_receipts ?st)" "sr_record_version r = Some (rv_id v)" using tables v(2) by (auto simp: tables_ok_def)
    have "r \<in> set (linked ?st)" using r by (simp add: linked_member)
    then obtain x where x: "x \<in> set es" "receipt_envelope sha fromiso r x" using list_all2_memberL[OF env] by blast
    have "find_version_row (rv_id v) ?st = Some v" unfolding find_version_row_def by (rule find_unique[OF ids v(2)])
    with version[OF r x(2)] have vk: "version_key v = (the (sr_entity_type r), the (sr_source_id r), env_source_version x, env_payload_hash x)" by auto
    obtain et' i' where k: "receipt_key r = (Some (entity_type_value et'), Some i')" using envelope_fields[OF x(2)] by metis
    then have "receipt_key r = (Some ?t, Some i)" using vk v(3,4) by (auto simp: version_key_def receipt_key_def)
    then have "x \<in> set (at_identity es (key_identity et i))" using own[OF x(2)] x(1) by simp
    moreover have "p = (env_source_version x, env_payload_hash x)" using vk v(1) by (simp add: version_key_def)
    ultimately show "p \<in> (\<lambda>x. (env_source_version x, env_payload_hash x)) ` set (at_identity es (key_identity et i))" by blast
  next
    fix p
    assume "p \<in> (\<lambda>x. (env_source_version x, env_payload_hash x)) ` set (at_identity es (key_identity et i))"
    then obtain x where x: "p = (env_source_version x, env_payload_hash x)" "x \<in> set es" "env_identity x = key_identity et i" by auto
    obtain r where r: "r \<in> set (linked ?st)" "receipt_envelope sha fromiso r x" using list_all2_memberR[OF env x(2)] by blast
    obtain j where j: "r \<in> set (st_receipts ?st)" "sr_record_version r = Some j" using r(1) by (auto simp: linked_member)
    obtain v where v: "v \<in> set (st_versions ?st)"
      "version_key v = (the (sr_entity_type r), the (sr_source_id r), env_source_version x, env_payload_hash x)" using version[OF j r(2)] by blast
    have "receipt_key r = (Some ?t, Some i)" using own[OF r(2)] x(3) by simp
    then have "v \<in> set (entity_versions ?st ?t i)" using v by (simp add: entity_versions_def version_key_def receipt_key_def)
    moreover have "p = (rv_source_version v, rv_payload_hash v)" using v(2) x(1) by (simp add: version_key_def)
    ultimately show "p \<in> (\<lambda>v. (rv_source_version v, rv_payload_hash v)) ` set (entity_versions ?st ?t i)" by blast
  qed
qed

text \<open>Hence the winning version, the contradiction and the hash are the same.\<close>

lemma entity_winning_max:
  assumes "entity_versions st t i \<noteq> []"
  shows "entity_winning (entity_versions st t i) = Max (rv_source_version ` set (entity_versions st t i))"
proof -
  let ?k = "\<lambda>v. (- rv_source_version v, rv_payload_hash v)"
  let ?vs = "entity_versions st t i"
  obtain v vs where v: "?vs = v # vs" using assms by (cases ?vs) auto
  have "sorted (map ?k ?vs)" by (simp add: entity_versions_def)
  then have "\<forall>x \<in> set ?vs. ?k v \<le> ?k x" unfolding v by auto
  then have "\<forall>x \<in> set ?vs. rv_source_version x \<le> rv_source_version v" by (auto simp: less_eq_prod_def)
  then have "Max (rv_source_version ` set ?vs) = rv_source_version v" by (intro Max_eqI) (auto simp: v)
  then show ?thesis by (simp add: entity_winning_def v)
qed

lemma resolution_agrees:
  assumes ok: "database_ok sha fromiso db" and env: "list_all2 (receipt_envelope sha fromiso) (linked (db_sources db)) es"
    and e: "e \<in> set es" and key: "env_identity e = key_identity et i"
  defines "vs \<equiv> entity_versions (db_sources db) (entity_type_value et) i"
  shows "vs \<noteq> []" and "entity_winning vs = winning_version es (key_identity et i)"
    and "entity_conflicted vs \<longleftrightarrow> contradicted es (key_identity et i)"
    and "x \<in> set (winners es (key_identity et i)) \<Longrightarrow> \<not> entity_conflicted vs \<Longrightarrow> hd (entity_hashes vs) = env_payload_hash x"
proof -
  let ?k = "key_identity et i"
  note cols = entity_version_columns[OF ok env e key, folded vs_def]
  have "e \<in> set (at_identity es ?k)" using e key by simp
  then show ne: "vs \<noteq> []" using cols by (metis empty_iff image_eqI image_is_empty set_empty)
  have "rv_source_version ` set vs = fst ` (\<lambda>v. (rv_source_version v, rv_payload_hash v)) ` set vs" by (simp add: image_image)
  also have "\<dots> = env_source_version ` set (at_identity es ?k)" unfolding cols by (simp only: image_image fst_conv)
  finally show win: "entity_winning vs = winning_version es ?k"
    using entity_winning_max[of "db_sources db" "entity_type_value et" i] ne by (simp add: vs_def winning_version_def)
  have hashes: "set (entity_hashes vs) = env_payload_hash ` set (winners es ?k)"
  proof -
    have "set (entity_hashes vs) = snd ` {p \<in> (\<lambda>v. (rv_source_version v, rv_payload_hash v)) ` set vs. fst p = winning_version es ?k}"
      unfolding entity_hashes_def win by force
    also have "\<dots> = env_payload_hash ` set (winners es ?k)" unfolding cols winners_def by force
    finally show ?thesis .
  qed
  have "distinct (entity_hashes vs)" by (simp add: entity_hashes_def)
  from distinct_more_than_one[OF this] show conf: "entity_conflicted vs \<longleftrightarrow> contradicted es ?k"
    unfolding entity_conflicted_def hashes contradicted_def by blast
  show "hd (entity_hashes vs) = env_payload_hash x" if "x \<in> set (winners es ?k)" "\<not> entity_conflicted vs"
  proof -
    have "env_payload_hash x \<in> set (entity_hashes vs)" using that(1) unfolding hashes by blast
    then show ?thesis using that(2) by (cases "entity_hashes vs") (auto simp: entity_conflicted_def)
  qed
qed

definition same_disposition :: "evidence_disposition \<Rightarrow> disposition \<Rightarrow> bool" where
  "same_disposition c d = (case d of
       DI_STALE \<Rightarrow> c = ED_STALE
     | DI_CONFLICTED \<Rightarrow> c = ED_CONFLICTED
     | DI_ACCEPTED \<Rightarrow> c \<in> {ED_ACCEPTED, ED_DUPLICATE}
     | DI_DUPLICATE \<Rightarrow> c \<in> {ED_ACCEPTED, ED_DUPLICATE}
     | _ \<Rightarrow> False)"

lemma deduplicate_distinct:
  assumes "receipts_distinct es"
  shows "\<exists>d. deduplicate_receipts es = Inr d \<and> dict_values d = es"
  using assms
proof (induction es rule: rev_induct)
  case Nil
  then show ?case by (simp add: deduplicate_receipts_def)
next
  case (snoc e es)
  then obtain d where d: "deduplicate_receipts es = Inr d" "dict_values d = es" by auto
  note table = deduplicate_Inr(1)[OF d(1)]
  have "map_of d (env_receipt_id e) = None"
  proof (rule ccontr)
    assume "map_of d (env_receipt_id e) \<noteq> None"
    then obtain x where "map_of d (env_receipt_id e) = Some x" by blast
    then have "x \<in> set es" "env_receipt_id x = env_receipt_id e" unfolding receipt_table_lookup[OF table] d(2) by blast+
    then have "env_receipt_id e \<in> env_receipt_id ` set es" by (metis imageI)
    then show False using snoc.prems by simp
  qed
  then show ?case using d receipt_table_update[OF table]
    by (auto simp: deduplicate_receipts_def dedup_append dedup_step_def)
qed

lemma canonicalize_distinct: "receipts_distinct es \<Longrightarrow> canonicalize es = Inr (canonical_spec es)"
  using deduplicate_distinct[of es] canonicalize_unique_spec[of es] by (auto simp: canonicalize_def)

lemma linked_disposition:
  assumes ok: "database_ok sha fromiso db" and env: "list_all2 (receipt_envelope sha fromiso) (linked (db_sources db)) es"
    and r: "r \<in> set (linked (db_sources db))" and e: "e \<in> set es" "receipt_envelope sha fromiso r e"
  shows "same_disposition (classify es e) (sr_disposition r)"
proof -
  let ?st = "db_sources db"
  obtain et i where f: "receipt_key r = (Some (entity_type_value et), Some i)" "env_identity e = key_identity et i"
    "sr_source_version r = Some (env_source_version e)" using envelope_fields[OF e(2)] by metis
  note agree = resolution_agrees[OF ok env e(1) f(2)]
  let ?vs = "entity_versions ?st (entity_type_value et) i" and ?ranked = "ranked_receipts ?st (entity_type_value et) i"
  obtain j where j: "r \<in> set (st_receipts ?st)" "sr_record_version r = Some j" using r by (auto simp: linked_member)
  obtain v where v: "(r, v) \<in> set ?ranked" using linked_ranked[OF ok j] f(1) by (metis option.inject prod.inject)
  have "settled ?st (entity_type_value et, i)" using ok unfolding database_ok_def by blast
  then have d: "sr_disposition r = classified_as ?ranked (entity_winning ?vs) (entity_conflicted ?vs) (r, v)"
    using v agree(1) by (auto simp: settled_def Let_def)
  have "env_source_version e \<le> winning_version es (key_identity et i)" using winning_version_ge[OF e(1)] f(2) by simp
  then have stale: "(case sr_source_version r of None \<Rightarrow> False | Some v \<Rightarrow> v < entity_winning ?vs) \<longleftrightarrow> env_source_version e \<noteq> winning_version es (key_identity et i)"
    using f(3) agree(2) by auto
  show ?thesis
    unfolding d classified_as_def fst_conv stale agree(3) by (auto simp: same_disposition_def classify_def Let_def f(2))
qed

lemma find_resolution_settled:
  assumes "database_ok sha fromiso db" "entity_versions (db_sources db) t i \<noteq> []"
  obtains x where "find_resolution (t, i) (db_sources db) = Some x" "er_winning_version x = entity_winning (entity_versions (db_sources db) t i)"
    "er_state x = (if entity_conflicted (entity_versions (db_sources db) t i) then ER_CONFLICTED else ER_ACCEPTED)"
    "er_selected_hash x = (if entity_conflicted (entity_versions (db_sources db) t i) then None
       else Some (hd (entity_hashes (entity_versions (db_sources db) t i))))"
proof -
  have "settled (db_sources db) (t, i)" using assms(1) unfolding database_ok_def by blast
  then show thesis using assms(2) that by (auto simp: settled_def Let_def)
qed


subsection \<open>The exceptions of conflicts\<close>

lemma exception_type [simp]: "rx_type (new_exception cx rule code t i ex ac support) = code"
  "rx_support (new_exception cx rule code t i ex ac support) = sort (remdups support)"
  "rx_entity_type (new_exception cx rule code t i ex ac support) = t" "rx_entity_id (new_exception cx rule code t i ex ac support) = i"
  by (simp_all add: new_exception_def)

definition conflict_finding :: "finding \<Rightarrow> bool" where
  "conflict_finding f = (rx_type (fnd_exception f) = EC_CONFLICTING_SOURCE_VERSION)"

lemma no_conflict_rules:
  "f \<in> set (source_completeness_exceptions cx results) \<Longrightarrow> \<not> conflict_finding f"
  "f \<in> set (payment_findings cx inp p) \<Longrightarrow> \<not> conflict_finding f"
  "f \<in> set (refund_findings cx inp r) \<Longrightarrow> \<not> conflict_finding f"
  "f \<in> set (refund_total_findings cx inp p) \<Longrightarrow> \<not> conflict_finding f"
  "f \<in> set (payment_fee_findings cx inp fee_of p) \<Longrightarrow> \<not> conflict_finding f"
  "f \<in> set (fee_findings cx inp e) \<Longrightarrow> \<not> conflict_finding f"
  "f \<in> set (order_findings cx states inp ord) \<Longrightarrow> \<not> conflict_finding f"
  "f \<in> set (duplicate_findings cx item) \<Longrightarrow> \<not> conflict_finding f"
  "f \<in> set (movement_findings cx inp out bm m) \<Longrightarrow> \<not> conflict_finding f"
  by (auto simp: conflict_finding_def finding_simps source_completeness_exceptions_def payment_findings_def refund_findings_def
      refund_total_findings_def payment_fee_findings_def fee_findings_def order_findings_def duplicate_findings_def movement_findings_def
      Let_def split: option.splits if_splits list.splits prod.splits)

lemma no_conflict_payout: "f \<in> set (payout_findings cx states inp movements out) \<Longrightarrow> \<not> conflict_finding f"
  unfolding payout_findings_def Let_def
  by (auto simp: finding_simps conflict_finding_def split: if_splits dest: no_conflict_rules(9)[unfolded conflict_finding_def])

lemma conflict_findings:
  assumes "f \<in> set (full_log cx states canon results fee_of movements)" "conflict_finding f"
  shows "f \<in> set (canonical_conflict_exceptions cx canon)"
  using assms
  by (auto simp: full_log_def order_log_def base_log_def orphan_rules_def refund_rules_def fee_rules_def settlement_rules_def
      dest: no_conflict_rules no_conflict_payout split: if_splits)

lemma reconcile_conflicts:
  assumes "reconcile rid detected canon results quarantine = Inr res" "x \<in> set (rr_exceptions res)" "is_conflict_exception x"
  obtains c where "c \<in> set (conflicts canon)" "rx_support x = sort (remdups (cc_receipt_ids c))"
    "(rx_entity_type x, rx_entity_id x) = snd (cc_identity c)"
proof -
  have "\<exists>cx states results' fee_of movements. rr_exceptions res = sort_key exception_sort_key (unique_exceptions (map fnd_exception
       (full_log cx states canon results' fee_of movements)))"
    by (rule reconcile_InrE[OF assms(1)], hypsubst, unfold recon_result.select_convs, intro exI, rule refl)
  then obtain cx states results' fee_of movements where res: "rr_exceptions res = sort_key exception_sort_key (unique_exceptions (map fnd_exception
       (full_log cx states canon results' fee_of movements)))" by blast
  have "x \<in> set (unique_exceptions (map fnd_exception (full_log cx states canon results' fee_of movements)))"
    using assms(2) unfolding res by (simp only: set_sort)
  then have "x \<in> set (map fnd_exception (full_log cx states canon results' fee_of movements))"
    unfolding unique_exceptions_def by (rule subsetD[OF index_by_values_subset])
  then obtain f where f: "f \<in> set (full_log cx states canon results' fee_of movements)" "x = fnd_exception f" by auto
  have "f \<in> set (canonical_conflict_exceptions cx canon)"
    using conflict_findings[OF f(1)] assms(3) f(2) by (simp add: conflict_finding_def is_conflict_exception_def)
  then obtain c where "c \<in> set (conflicts canon)" "rx_support x = sort (remdups (cc_receipt_ids c))"
    "rx_entity_type x = fst (snd (cc_identity c))" "rx_entity_id x = snd (snd (cc_identity c))"
    by (auto simp: canonical_conflict_exceptions_def f(2) finding_simps)
  then show thesis using that by (metis prod.collapse)
qed

subsection \<open>References of variants\<close>

definition reference_of :: "(string \<Rightarrow> string) \<Rightarrow> source_receipt \<Rightarrow> string \<Rightarrow> bool" where
  "reference_of sha r ref = (\<exists>s. ref = variant_reference sha (source_system_value s) (sr_entity_type r) (sr_source_id r)
     (sr_source_version r) (sr_payload_hash r))"

lemma fold_update_lookup:
  "distinct (map fst ps) \<Longrightarrow> map_of (fold (\<lambda>(i, ref). AList.update i ref) ps d) k
    = (case map_of ps k of Some v \<Rightarrow> Some v | None \<Rightarrow> map_of d k)"
proof (induction ps arbitrary: d)
  case (Cons p ps)
  obtain i ref where p: "p = (i, ref)" by (cases p)
  have "map_of ps i = None" using Cons.prems by (auto simp: p map_of_eq_None_iff)
  then show ?case using Cons by (auto simp: p update_conv' split: option.split)
qed simp

lemma conflict_rows_all:
  assumes ok: "database_ok sha fromiso db"
  shows "map fst (conflict_rows (db_sources db) ids) = filter (\<lambda>r. sr_id r \<in> set ids) (st_receipts (db_sources db))"
    and "x \<in> set (conflict_rows (db_sources db) ids) \<Longrightarrow> snd x \<in> set (st_batches (db_sources db))"
proof -
  let ?f = "\<lambda>r. case find_batch (sr_batch r) (db_sources db) of None \<Rightarrow> None
    | Some b \<Rightarrow> if sr_id r \<in> set ids \<and> ib_status b = IS_COMMITTED then Some (r, b) else None"
  have f: "\<exists>b \<in> set (st_batches (db_sources db)). find_batch (sr_batch r) (db_sources db) = Some b \<and> ib_status b = IS_COMMITTED"
    if r: "r \<in> set (st_receipts (db_sources db))" for r
  proof -
    obtain b where b: "find_batch (sr_batch r) (db_sources db) = Some b"
      using ok r unfolding database_ok_def tables_ok_def by blast
    then have "b \<in> set (st_batches (db_sources db))" by (auto simp: find_batch_def dest: find_member)
    moreover from this have "ib_status b = IS_COMMITTED" using ok by (auto simp: database_ok_def batch_whole_def)
    ultimately show ?thesis using b by blast
  qed
  have all: "map fst (List.map_filter ?f rs) = filter (\<lambda>r. sr_id r \<in> set ids) rs
      \<and> (\<forall>x \<in> set (List.map_filter ?f rs). snd x \<in> set (st_batches (db_sources db)))" if "set rs \<subseteq> set (st_receipts (db_sources db))" for rs
    using that
  proof (induction rs)
    case (Cons r rs)
    then obtain b where "b \<in> set (st_batches (db_sources db))" "find_batch (sr_batch r) (db_sources db) = Some b" "ib_status b = IS_COMMITTED"
      using f[of r] by auto
    with Cons show ?case unfolding List.map_filter_simps by simp
  qed (simp add: List.map_filter_simps)
  then show "map fst (conflict_rows (db_sources db) ids) = filter (\<lambda>r. sr_id r \<in> set ids) (st_receipts (db_sources db))"
    "x \<in> set (conflict_rows (db_sources db) ids) \<Longrightarrow> snd x \<in> set (st_batches (db_sources db))"
    unfolding conflict_rows_def by blast+
qed

lemma source_system_of_value [simp]:
  "enum_member source_system_name source_system_value source_system_members (JStr (source_system_value s)) = Inr s"
  by (cases s) (simp_all add: enum_member_def enum_lookup_def source_system_members_def)

lemma stabilize_total:
  assumes ok: "database_ok (ic_sha cfg) (ic_fromiso cfg) db" and ev: "evidence_ok cfg (db_sources db)"
    and ids: "\<forall>r \<in> set (st_receipts (db_sources db)). uuid_text (sr_id r)"
    and known: "\<forall>x \<in> set (rr_exceptions candidate). is_conflict_exception x \<longrightarrow> set (rx_support x) \<subseteq> sr_id ` set (st_receipts (db_sources db))"
  shows "\<exists>c. stabilize_conflict_evidence (ic_sha cfg) (db_sources db) candidate = Inr c
    \<and> list_all2 (\<lambda>x y. if is_conflict_exception x
        then (\<exists>refs. list_all2 (\<lambda>i ref. \<exists>r \<in> set (st_receipts (db_sources db)). sr_id r = i \<and> reference_of (ic_sha cfg) r ref) (rx_support x) refs
            \<and> y = x\<lparr>rx_support := sort (remdups refs)\<rparr>)
        else y = x) (rr_exceptions candidate) (rr_exceptions c)"
proof (cases "conflict_receipts candidate = []")
  case True
  have none: "is_conflict_exception x \<Longrightarrow> rx_support x = []" if "x \<in> set (rr_exceptions candidate)" for x
  proof -
    assume "is_conflict_exception x"
    then have "set (rx_support x) \<subseteq> set (conflict_receipts candidate)" using that by (auto simp: conflict_receipts_def)
    then show ?thesis using True by simp
  qed
  have "x\<lparr>rx_support := []\<rparr> = x" if "rx_support x = []" for x :: recon_exception using that by (cases x) simp
  then show ?thesis using True none
    by (intro exI[of _ candidate]) (auto simp: stabilize_conflict_evidence_def Let_def intro!: list.rel_refl_strong)
next
  case False
  let ?st = "db_sources db" and ?sha = "ic_sha cfg" and ?ids = "conflict_receipts candidate"
  let ?rows = "conflict_rows ?st ?ids"
  note rows = conflict_rows_all[OF ok, where ids = ?ids]
  have idset: "set ?ids \<subseteq> sr_id ` set (st_receipts ?st)" using known by (auto simp: conflict_receipts_def)
  then have uuids: "list_all uuid_text ?ids" using ids by (auto simp: list_all_iff)
  define pairs where "pairs = map (\<lambda>x. (sr_id (fst x), the (map_option (\<lambda>s. variant_reference ?sha (source_system_value s)
      (sr_entity_type (fst x)) (sr_source_id (fst x)) (sr_source_version (fst x)) (sr_payload_hash (fst x)))
      (enum_lookup source_system_value source_system_members (ib_source_system (snd x)))))) ?rows"
  have lookup: "\<exists>s. ib_source_system (snd x) = source_system_value s" if "x \<in> set ?rows" for x
    using rows(2)[OF that] ev by (auto simp: evidence_ok_def evidence_matches_def)
  have "enum_lookup source_system_value source_system_members (source_system_value s) = Some s" for s
    by (cases s) (simp_all add: enum_lookup_def source_system_members_def)
  then have pairs: "map_result (receipt_reference ?sha) ?rows = Inr pairs"
    unfolding pairs_def using lookup by (intro map_result_pure) (force simp: receipt_reference_def split: prod.splits)
  have keys: "map fst pairs = map sr_id (filter (\<lambda>r. sr_id r \<in> set ?ids) (st_receipts ?st))"
    unfolding pairs_def rows(1)[symmetric] by simp
  have refs: "\<exists>r \<in> set (st_receipts ?st). sr_id r = i \<and> reference_of ?sha r ref" if pair: "(i, ref) \<in> set pairs" for i ref
  proof -
    obtain x where x: "x \<in> set ?rows" "i = sr_id (fst x)" and
      ref: "ref = the (map_option (\<lambda>s. variant_reference ?sha (source_system_value s)
      (sr_entity_type (fst x)) (sr_source_id (fst x)) (sr_source_version (fst x)) (sr_payload_hash (fst x)))
      (enum_lookup source_system_value source_system_members (ib_source_system (snd x))))" using pair unfolding pairs_def by auto
    have "fst x \<in> set (map fst ?rows)" using x(1) by simp
    then have "fst x \<in> set (st_receipts ?st)" unfolding rows(1) by simp
    moreover have "reference_of ?sha (fst x) ref"
      using lookup[OF x(1)] \<open>\<And>s. enum_lookup source_system_value source_system_members (source_system_value s) = Some s\<close>
      by (auto simp: ref reference_of_def)
    ultimately show ?thesis using x(2) by blast
  qed
  have distinct: "distinct (map fst pairs)" unfolding keys
    using ok by (auto simp: database_ok_def tables_ok_def distinct_map_filter)
  let ?d = "fold (\<lambda>(i, ref). AList.update i ref) pairs []"
  have found: "\<exists>ref. map_of ?d i = Some ref \<and> (\<exists>r \<in> set (st_receipts ?st). sr_id r = i \<and> reference_of ?sha r ref)" if "i \<in> set ?ids" for i
  proof -
    have "i \<in> set (map fst pairs)" unfolding keys using that idset by auto
    then obtain ref where "map_of pairs i = Some ref" by (cases "map_of pairs i") (auto simp: map_of_eq_None_iff)
    moreover from this have "(i, ref) \<in> set pairs" by (rule map_of_SomeD)
    ultimately show ?thesis using refs fold_update_lookup[OF distinct, of "[]" i] by auto
  qed
  have one: "\<exists>y. replace_support ?d x = Inr y \<and> (if is_conflict_exception x
        then (\<exists>refs. list_all2 (\<lambda>i ref. \<exists>r \<in> set (st_receipts ?st). sr_id r = i \<and> reference_of ?sha r ref) (rx_support x) refs
            \<and> y = x\<lparr>rx_support := sort (remdups refs)\<rparr>)
        else y = x)" if x: "x \<in> set (rr_exceptions candidate)" for x
  proof (cases "is_conflict_exception x")
    case True
    then have sub: "set (rx_support x) \<subseteq> set ?ids" using x by (auto simp: conflict_receipts_def)
    let ?g = "\<lambda>i. case map_of ?d i of None \<Rightarrow> Inl (ConflictReceiptMissing i) | Some ref \<Rightarrow> Inr ref"
    have "map_result ?g (rx_support x) = Inr (map (\<lambda>i. the (map_of ?d i)) (rx_support x))"
      using found sub by (intro map_result_pure) fastforce
    moreover have "list_all2 (\<lambda>i ref. \<exists>r \<in> set (st_receipts ?st). sr_id r = i \<and> reference_of ?sha r ref) (rx_support x) (map (\<lambda>i. the (map_of ?d i)) (rx_support x))"
      unfolding list.rel_map using found sub by (intro list.rel_refl_strong) fastforce
    ultimately show ?thesis using True by (auto simp: replace_support_def)
  qed (simp add: replace_support_def)
  then have "\<forall>x \<in> set (rr_exceptions candidate). \<exists>y. replace_support ?d x = Inr y \<and> (if is_conflict_exception x
        then (\<exists>refs. list_all2 (\<lambda>i ref. \<exists>r \<in> set (st_receipts ?st). sr_id r = i \<and> reference_of ?sha r ref) (rx_support x) refs
            \<and> y = x\<lparr>rx_support := sort (remdups refs)\<rparr>)
        else y = x)" by blast
  from bchoice[OF this] obtain h where h: "\<forall>x \<in> set (rr_exceptions candidate). replace_support ?d x = Inr (h x) \<and> (if is_conflict_exception x
        then (\<exists>refs. list_all2 (\<lambda>i ref. \<exists>r \<in> set (st_receipts ?st). sr_id r = i \<and> reference_of ?sha r ref) (rx_support x) refs
            \<and> h x = x\<lparr>rx_support := sort (remdups refs)\<rparr>)
        else h x = x)" by blast
  have "map_result (replace_support ?d) (rr_exceptions candidate) = Inr (map h (rr_exceptions candidate))"
    using h by (intro map_result_pure) blast
  then have "stabilize_conflict_evidence ?sha ?st candidate = Inr (candidate\<lparr>rr_exceptions := map h (rr_exceptions candidate)\<rparr>)"
    using False uuids pairs by (simp add: stabilize_conflict_evidence_def Let_def require_def replace_conflict_evidence_def)
  moreover have "list_all2 (\<lambda>x y. if is_conflict_exception x
        then (\<exists>refs. list_all2 (\<lambda>i ref. \<exists>r \<in> set (st_receipts ?st). sr_id r = i \<and> reference_of ?sha r ref) (rx_support x) refs
            \<and> y = x\<lparr>rx_support := sort (remdups refs)\<rparr>)
        else y = x) (rr_exceptions candidate) (map h (rr_exceptions candidate))"
    unfolding list.rel_map using h by (intro list.rel_refl_strong) blast
  ultimately show ?thesis by (intro exI[of _ "candidate\<lparr>rr_exceptions := map h (rr_exceptions candidate)\<rparr>"]) simp
qed

subsection \<open>The builder on a reachable database\<close>

definition payouts_on_distinct_dates :: "ingest_config \<Rightarrow> source_tables \<Rightarrow> bool" where
  "payouts_on_distinct_dates cfg st = (\<exists>es qs res. rebuild_inputs (ic_sha cfg) (ic_fromiso cfg) st = Inr (es, qs)
     \<and> canonicalize es = Inr res \<and> distinct (map out_date (in_payouts (input_of res))))"

lemma rebuilt_canonical:
  assumes "database_ok sha fromiso db"
  obtains es qs where "rebuild_inputs sha fromiso (db_sources db) = Inr (es, qs)" "canonicalize es = Inr (canonical_spec es)"
    "list_all2 (receipt_envelope sha fromiso) (linked (db_sources db)) es" "receipts_distinct es"
    "canon_well_formed (canonical_spec es)"
proof -
  let ?st = "db_sources db"
  obtain es qs where inputs: "rebuild_inputs sha fromiso ?st = Inr (es, qs)"
    and env: "list_all2 (receipt_envelope sha fromiso) (linked ?st) es"
    using rebuild_inputs_total[OF assms] unfolding linked_def by blast
  have "map env_receipt_id es = map sr_id (linked ?st)"
    using env by (induction rule: list_all2_induct) (auto simp: receipt_envelope_def)
  moreover have "distinct (map sr_id (linked ?st))"
    using assms by (auto simp: linked_def database_ok_def tables_ok_def distinct_map inj_on_def)
  ultimately have distinct: "receipts_distinct es" by simp
  have well: "well_formed (env_record e)" if "e \<in> set es" for e
    using list_all2_memberR[OF env that] parsed_record_facts(3) by (auto simp: receipt_envelope_def carries_def)
  have "canon_well_formed (canonical_spec es)"
    unfolding canon_well_formed_def
  proof
    fix c
    assume "c \<in> set (canonical_records (canonical_spec es))"
    then obtain k where "k \<in> env_identity ` set es" "c = env_record (accepted_receipt es k)" by (auto simp: canonical_spec_def)
    then show "well_formed c" using well accepted_receipt_in[of k es] by (auto simp: set_winners)
  qed
  with that inputs env distinct canonicalize_distinct[OF distinct] show thesis by blast
qed

lemma conflict_receipt_ids:
  assumes "c \<in> set (conflicts (canonical_spec es))" "i \<in> set (cc_receipt_ids c)"
  shows "\<exists>e \<in> set es. env_receipt_id e = i \<and> classify es e = ED_CONFLICTED \<and> cc_identity c = env_identity e"
proof -
  obtain k where k: "contradicted es k" "c = conflict_of es k" using assms(1) by (auto simp: canonical_spec_def)
  obtain e where e: "e \<in> set (winners es k)" "i = env_receipt_id e" using assms(2) unfolding k(2) by (auto simp: conflict_of_def)
  then have "e \<in> set es" "env_identity e = k" by (auto simp: set_winners)
  moreover have "classify es e = ED_CONFLICTED" using classify_winner[OF e(1)] k(1) by simp
  ultimately show ?thesis using e(2) by (auto simp: k(2) conflict_of_def)
qed



lemma sample_days: "report_days (db_sources sample_database) = [730000]"
proof -
  have "b \<in> set (st_batches (db_sources sample_database)) \<Longrightarrow> ib_report_date b = 730000" for b
    using sample_batch_ids(2) by (metis image_eqI singletonD)
  then have "set (st_days (db_sources sample_database)) \<union> ib_report_date ` set (filter finalized (st_batches (db_sources sample_database))) = {730000}"
    unfolding sample_tables(3) by auto
  then show ?thesis by (simp add: report_days_def)
qed



lemma sample_payout_dates: "payouts_on_distinct_dates sample_ingestion (db_sources sample_database)"
proof -
  have "case rebuild_inputs sample_digest (\<lambda>_. Some (Aware 0)) (db_sources (fst (snd sample_delivered))) of
      Inl _ \<Rightarrow> False
    | Inr (es, qs) \<Rightarrow> (case canonicalize es of Inl _ \<Rightarrow> False
        | Inr res \<Rightarrow> distinct (map out_date (in_payouts (split_canonical_records (canonical_records res)))))" by code_simp
  then show ?thesis unfolding payouts_on_distinct_dates_def sample_database_def
    by (auto simp: sample_ingestion_def input_of_def split: sum.splits)
qed


end
