(* ===== verification/Recovery_Composition.thy ===== *)
theory Recovery_Composition
  imports Rebuild_Properties Rebuild_Refinement
begin

text \<open>
  The builder that \<open>threadline/recovery_adapters.py\<close> binds (\<open>build_candidate\<close>, read from the ingestion tables) as the
  builder of \<open>FullRebuildRecovery\<close>: what is proved of published results holds of the results it builds.
\<close>

definition durable_config ::
  "ingest_config \<Rightarrow> source_tables \<Rightarrow> result_texts \<Rightarrow> (rebuild_error \<Rightarrow> string) \<Rightarrow> recovery_config \<Rightarrow> recovery_config" where
  "durable_config cfg st texts describe base = base\<lparr>
     rc_build := (\<lambda>run as_of. case build_candidate cfg (rc_berlin base) st run as_of of
         Inl e \<Rightarrow> Inl (describe e) | Inr candidate \<Rightarrow> Inr (result_value texts candidate)),
     rc_sha := ic_sha cfg\<rparr>"

lemma durable_config_reconciling: "reconciling (ic_sha cfg) (durable_config cfg st texts describe base)"
  by (auto simp: reconciling_def durable_config_def split: sum.splits)

text \<open>A run of the worker with this builder keeps the invariant of the financial state.\<close>

lemma durable_worker_step:
  assumes "run_next (durable_config cfg st texts describe base) hook ck env run locked s (h :: nat) = (res, s', h')"
    and "financial_ok (ic_sha cfg) s"
  shows "financial_ok (ic_sha cfg) s'"
  using financial_step_ok[OF worked[OF durable_config_reconciling assms(1)] assms(2)] .

end
