(* ===== verification/Source_Files.thy ===== *)
theory Source_Files
  imports Delivery_Verification
begin

text \<open>
  \<open>threadline/source_files.py\<close>: the file protocol of source deliveries.  The gate reads and verifies a delivery; the
  publisher writes the data first and the manifest, its completion marker, last.  Paths are lists of components; the
  JSON parser and \<open>date.fromisoformat\<close> of the standard library and sha256 are parameters, as in the verification of
  deliveries.  The publisher is given twice: as a function of the call that fails, and as steps that interleave.
\<close>

subsection \<open>Manifests\<close>

datatype gate_state = GATE_WAITING | GATE_REJECTED | GATE_READY

record source_manifest =
  sm_filename :: string
  sm_source_system :: string
  sm_report_type :: string
  sm_report_date :: date
  sm_entity_type :: string
  sm_schema_version :: string
  sm_row_count :: nat
  sm_checksum :: string

record ready_source =
  rs_data_path :: path
  rs_manifest_path :: path
  rs_manifest :: source_manifest
  rs_records :: "payload list"
  rs_file_bytes :: string
  rs_manifest_bytes :: string

record gate_result =
  gr_state :: gate_state
  gr_reason :: string
  gr_ready :: "ready_source option"

definition SUPPORTED_SCHEMA_VERSIONS :: "string list" where
  "SUPPORTED_SCHEMA_VERSIONS = [''1'']"

definition LABEL_ENTITIES :: "(string \<times> string) list" where
  "LABEL_ENTITIES = [(''ORDERS'', ''ORDER''), (''PAYMENTS'', ''PAYMENT''), (''REFUNDS'', ''REFUND''), (''FEES'', ''FEE''),
     (''SETTLEMENT_LINES'', ''SETTLEMENT_LINE''), (''PAYOUTS'', ''PAYOUT'')]"

datatype source_error =
    DataNameInvalid
  | InboxMissing
  | ReportDateNotDate
  | DeliveryExists
  | NotFinite
  | ManifestRejected delivery_error
  | SourceSystemFault
  | SourceHookRaised string

text \<open>
  \<open>source_file_paths\<close>: the data file, its part, the manifest and its part, from the components of the path.
\<close>

definition source_file_paths :: "path \<Rightarrow> source_error + path \<times> path \<times> path \<times> path" where
  "source_file_paths p =
     bind_result (require (p \<noteq> [] \<and> data_file_name (last p)) DataNameInvalid) (\<lambda>_.
       Inr (p, part_path p, manifest_path p, part_path (manifest_path p)))"

text \<open>\<open>json.dumps(..., allow_nan=False)\<close> raises for a float that is not finite.\<close>

fun finite_floats :: "json \<Rightarrow> bool" where
  "finite_floats (JFloat s) = (s \<notin> {''NaN'', ''Infinity'', ''-Infinity''})"
| "finite_floats (JArr vs) = list_all finite_floats vs"
| "finite_floats (JObj kvs) = list_all (\<lambda>(k, v). finite_floats v) kvs"
| "finite_floats v = True"

definition json_bytes :: "json \<Rightarrow> source_error + string" where
  "json_bytes v = bind_result (require (finite_floats v) NotFinite) (\<lambda>_. Inr (utf8 (json_dumps v)))"

definition manifest_text_fields :: "string list" where
  "manifest_text_fields = [''filename'', ''source_system'', ''report_type'', ''report_date'', ''entity_type'',
     ''schema_version'', ''checksum_sha256'']"

definition manifest_text :: "(string \<times> json) list \<Rightarrow> string \<Rightarrow> delivery_error + string" where
  "manifest_text doc k = (case map_of doc k of
       Some (JStr s) \<Rightarrow> if strip s = [] then Inl (IntegrityError k) else Inr s
     | _ \<Rightarrow> Inl (IntegrityError k))"

definition manifest_rows :: "(string \<times> json) list \<Rightarrow> delivery_error + nat" where
  "manifest_rows doc = (case Option.bind (map_of doc ''row_count'') nonneg_int of
       None \<Rightarrow> Inl (IntegrityError ''row_count'') | Some n \<Rightarrow> Inr n)"

text \<open>Every failure is a \<open>ValueError\<close>; all text fields are checked before any value is compared.\<close>

definition parse_source_manifest ::
  "(string \<Rightarrow> raw_json option) \<Rightarrow> (string \<Rightarrow> date option) \<Rightarrow> string \<Rightarrow> string \<Rightarrow> delivery_error + source_manifest" where
  "parse_source_manifest loads date_iso content expected_filename =
     bind_result (strict_json loads content) (\<lambda>document. case document of
       JObj doc \<Rightarrow>
         bind_result (map_result (manifest_text doc) manifest_text_fields) (\<lambda>texts.
         let field = (\<lambda>k. the (map_of (zip manifest_text_fields texts) k))
         in bind_result (require (field ''filename'' = expected_filename) (IntegrityError ''filename'')) (\<lambda>_.
            bind_result (require (map_of LABEL_ENTITIES (field ''report_type'') = Some (field ''entity_type''))
              (IntegrityError ''entity_type'')) (\<lambda>_.
            bind_result (manifest_rows doc) (\<lambda>n.
            bind_result (require (is_sha256 (field ''checksum_sha256'')) (IntegrityError ''checksum_sha256'')) (\<lambda>_.
            bind_result (report_date_of date_iso (JStr (field ''report_date''))) (\<lambda>d.
              Inr \<lparr>sm_filename = field ''filename'', sm_source_system = field ''source_system'',
                   sm_report_type = field ''report_type'', sm_report_date = d, sm_entity_type = field ''entity_type'',
                   sm_schema_version = field ''schema_version'', sm_row_count = n,
                   sm_checksum = field ''checksum_sha256''\<rparr>))))))
     | _ \<Rightarrow> Inl (IntegrityError ''manifest''))"

subsection \<open>The gate\<close>

definition gate_outcome :: "gate_state \<Rightarrow> string \<Rightarrow> source_error + gate_result" where
  "gate_outcome state reason = Inr \<lparr>gr_state = state, gr_reason = reason, gr_ready = None\<rparr>"

text \<open>
  \<open>inspect_source_file\<close>.  Each look at the file system sees the view of its own moment: the two parts, the
  manifest as a file, its bytes, the data bytes, the two parts again.  A directory in the place of the data file
  cannot be read: that error propagates.
\<close>

definition check_source ::
  "(string \<Rightarrow> string) \<Rightarrow> (string \<Rightarrow> raw_json option) \<Rightarrow> source_manifest \<Rightarrow> string \<Rightarrow> string + payload list" where
  "check_source sha loads manifest file_bytes =
     bind_result (require (sha file_bytes = sm_checksum manifest) ''CHECKSUM_MISMATCH'') (\<lambda>_.
       case strict_json loads file_bytes of
         Inl _ \<Rightarrow> Inl ''INVALID_DATA_JSON''
       | Inr data \<Rightarrow> (case object_list data of
           None \<Rightarrow> Inl ''INVALID_DATA_STRUCTURE''
         | Some records \<Rightarrow>
             bind_result (require (length records = sm_row_count manifest) ''ROW_COUNT_MISMATCH'') (\<lambda>_. Inr records)))"

definition inspect_source_file ::
  "(string \<Rightarrow> string) \<Rightarrow> (string \<Rightarrow> raw_json option) \<Rightarrow> (string \<Rightarrow> date option) \<Rightarrow> string list \<Rightarrow> (nat \<Rightarrow> file_view) \<Rightarrow> path
     \<Rightarrow> source_error + gate_result" where
  "inspect_source_file sha loads date_iso supported views p =
     bind_result (source_file_paths p) (\<lambda>(data, data_part, manifest, manifest_part).
       if path_exists (views 0) data_part \<or> path_exists (views 1) manifest_part
       then gate_outcome GATE_WAITING ''TEMPORARY_FILE_PRESENT''
       else if \<not> is_file (views 2) manifest then gate_outcome GATE_WAITING ''MANIFEST_MISSING''
       else case views 3 manifest of
         None \<Rightarrow> gate_outcome GATE_WAITING ''MANIFEST_MISSING''
       | Some DirNode \<Rightarrow> Inl SourceSystemFault
       | Some (FileNode manifest_bytes) \<Rightarrow>
       (case parse_source_manifest loads date_iso manifest_bytes (last data) of
         Inl _ \<Rightarrow> gate_outcome GATE_REJECTED ''INVALID_MANIFEST''
       | Inr parsed \<Rightarrow>
       if sm_schema_version parsed \<notin> set supported then gate_outcome GATE_REJECTED ''UNSUPPORTED_SCHEMA_VERSION''
       else case views 4 data of
         None \<Rightarrow> gate_outcome GATE_WAITING ''DATA_FILE_MISSING''
       | Some DirNode \<Rightarrow> Inl SourceSystemFault
       | Some (FileNode file_bytes) \<Rightarrow>
       (case check_source sha loads parsed file_bytes of
         Inl reason \<Rightarrow> gate_outcome GATE_REJECTED reason
       | Inr records \<Rightarrow>
       if path_exists (views 5) data_part \<or> path_exists (views 6) manifest_part
       then gate_outcome GATE_WAITING ''TEMPORARY_FILE_PRESENT''
       else Inr \<lparr>gr_state = GATE_READY, gr_reason = ''VERIFIED'',
              gr_ready = Some \<lparr>rs_data_path = data, rs_manifest_path = manifest, rs_manifest = parsed,
                rs_records = records, rs_file_bytes = file_bytes, rs_manifest_bytes = manifest_bytes\<rparr>\<rparr>)))"

text \<open>\<open>ingest_ready_source\<close> over a caller's state: the callable runs exactly for a ready delivery; its error propagates.\<close>

datatype 'e ingest_ready_error = GateRaised source_error | IngestRaised 'e

definition ingest_ready_source ::
  "source_error + gate_result \<Rightarrow> (ready_source \<Rightarrow> 's \<Rightarrow> ('e + 'a) \<times> 's) \<Rightarrow> 's
     \<Rightarrow> ('e ingest_ready_error + gate_result) \<times> 's" where
  "ingest_ready_source inspected ingest s = (case inspected of
       Inl e \<Rightarrow> (Inl (GateRaised e), s)
     | Inr g \<Rightarrow> (case gr_ready g of
           Some ready \<Rightarrow> if gr_state g = GATE_READY
             then (case ingest ready s of (Inl e, s') \<Rightarrow> (Inl (IngestRaised e), s') | (Inr _, s') \<Rightarrow> (Inr g, s'))
             else (Inr g, s)
         | None \<Rightarrow> (Inr g, s)))"

subsection \<open>The publisher\<close>

datatype date_argument = PlainDate date | NotPlainDate

text \<open>The system call that fails, when one does; a failing write leaves the bytes written so far.\<close>

datatype source_fault =
    ClaimFault
  | DataWriteFault nat
  | DataRenameFault
  | DataDirectoryFault
  | ManifestOpenFault
  | ManifestWriteFault nat
  | ManifestRenameFault
  | ManifestDirectoryFault

definition manifest_document ::
  "(string \<Rightarrow> string) \<Rightarrow> path \<Rightarrow> string \<Rightarrow> string \<Rightarrow> date \<Rightarrow> string \<Rightarrow> string \<Rightarrow> nat \<Rightarrow> string \<Rightarrow> json" where
  "manifest_document sha p source_system report_type report_date entity_type schema_version row_count file_bytes = JObj
     [(''filename'', JStr (last p)),
      (''source_system'', JStr source_system),
      (''report_type'', JStr report_type),
      (''report_date'', JStr (isoformat report_date)),
      (''entity_type'', JStr entity_type),
      (''schema_version'', JStr schema_version),
      (''row_count'', JInt (int row_count)),
      (''checksum_sha256'', JStr (sha file_bytes))]"

text \<open>Everything before the first file is created: the two contents of a delivery, or an error.\<close>

definition prepare_source ::
  "(string \<Rightarrow> string) \<Rightarrow> (string \<Rightarrow> raw_json option) \<Rightarrow> (string \<Rightarrow> date option) \<Rightarrow> path \<Rightarrow> payload list
     \<Rightarrow> string \<Rightarrow> string \<Rightarrow> date_argument \<Rightarrow> string \<Rightarrow> string \<Rightarrow> file_view \<Rightarrow> source_error + string \<times> string" where
  "prepare_source sha loads date_iso p rows source_system report_type report_date entity_type schema_version view =
     bind_result (source_file_paths p) (\<lambda>(data, data_part, manifest, manifest_part).
     bind_result (require (view (butlast p) = Some DirNode) InboxMissing) (\<lambda>_.
     case report_date of NotPlainDate \<Rightarrow> Inl ReportDateNotDate
     | PlainDate day \<Rightarrow>
     bind_result (require (\<not> list_ex (path_exists view) [data, data_part, manifest, manifest_part]) DeliveryExists) (\<lambda>_.
     bind_result (json_bytes (JArr (map JObj rows))) (\<lambda>file_bytes.
     bind_result (json_bytes (manifest_document sha p source_system report_type day entity_type schema_version
         (length rows) file_bytes)) (\<lambda>manifest_bytes.
     bind_result (lift_error ManifestRejected (parse_source_manifest loads date_iso manifest_bytes (last p))) (\<lambda>_.
       Inr (file_bytes, manifest_bytes)))))))"

definition source_visit :: "'h failure_hook \<Rightarrow> string \<Rightarrow> 'h \<Rightarrow> (source_error + unit) \<times> 'h" where
  "source_visit hook point h = (case hook h point of
     (Inl e, h') \<Rightarrow> (Inl (SourceHookRaised e), h') | (Inr _, h') \<Rightarrow> (Inr (), h'))"

text \<open>
  The files of one delivery, data first and the manifest last.  Nothing is removed on a failure: the view that
  is returned is what the call leaves on disk.
\<close>

definition write_source ::
  "'h failure_hook \<Rightarrow> source_fault option \<Rightarrow> path \<Rightarrow> string \<Rightarrow> string \<Rightarrow> file_view \<Rightarrow> 'h
     \<Rightarrow> (source_error + path) \<times> file_view \<times> 'h" where
  "write_source hook fault p file_bytes manifest_bytes v h =
     (let data_part = part_path p; manifest = manifest_path p; manifest_part = part_path manifest;
          v1 = v(data_part \<mapsto> FileNode []);
          v2 = v(data_part \<mapsto> FileNode file_bytes);
          v3 = v(data_part := None, p \<mapsto> FileNode file_bytes);
          v4 = v3(manifest_part \<mapsto> FileNode manifest_bytes);
          v5 = v3(manifest_part := None, manifest \<mapsto> FileNode manifest_bytes)
      in if fault = Some ClaimFault then (Inl SourceSystemFault, v, h)
      else if list_ex (path_exists v1) [p, manifest, manifest_part] then (Inl DeliveryExists, v1, h)
      else case fault of Some (DataWriteFault n) \<Rightarrow> (Inl SourceSystemFault, v(data_part \<mapsto> FileNode (take n file_bytes)), h)
      | _ \<Rightarrow> (case source_visit hook ''after_data_fsync'' h of
          (Inl e, h1) \<Rightarrow> (Inl e, v2, h1)
        | (Inr _, h1) \<Rightarrow>
      if fault = Some DataRenameFault then (Inl SourceSystemFault, v2, h1)
      else if fault = Some DataDirectoryFault then (Inl SourceSystemFault, v3, h1)
      else (case source_visit hook ''after_data_rename'' h1 of
          (Inl e, h2) \<Rightarrow> (Inl e, v3, h2)
        | (Inr _, h2) \<Rightarrow>
      if fault = Some ManifestOpenFault then (Inl SourceSystemFault, v3, h2)
      else case fault of Some (ManifestWriteFault n) \<Rightarrow>
          (Inl SourceSystemFault, v3(manifest_part \<mapsto> FileNode (take n manifest_bytes)), h2)
      | _ \<Rightarrow> (case source_visit hook ''after_manifest_fsync'' h2 of
          (Inl e, h3) \<Rightarrow> (Inl e, v4, h3)
        | (Inr _, h3) \<Rightarrow>
      if fault = Some ManifestRenameFault then (Inl SourceSystemFault, v4, h3)
      else if fault = Some ManifestDirectoryFault then (Inl SourceSystemFault, v5, h3)
      else (case source_visit hook ''after_manifest_rename'' h3 of
          (Inl e, h4) \<Rightarrow> (Inl e, v5, h4)
        | (Inr _, h4) \<Rightarrow> (Inr manifest, v5, h4))))))"

definition publish_source_file ::
  "(string \<Rightarrow> string) \<Rightarrow> (string \<Rightarrow> raw_json option) \<Rightarrow> (string \<Rightarrow> date option) \<Rightarrow> 'h failure_hook \<Rightarrow> source_fault option
     \<Rightarrow> path \<Rightarrow> payload list \<Rightarrow> string \<Rightarrow> string \<Rightarrow> date_argument \<Rightarrow> string \<Rightarrow> string \<Rightarrow> file_view \<Rightarrow> 'h
     \<Rightarrow> (source_error + path) \<times> file_view \<times> 'h" where
  "publish_source_file sha loads date_iso hook fault p rows source_system report_type report_date entity_type schema_version v h =
     (case prepare_source sha loads date_iso p rows source_system report_type report_date entity_type schema_version v of
        Inl e \<Rightarrow> (Inl e, v, h)
      | Inr (file_bytes, manifest_bytes) \<Rightarrow> write_source hook fault p file_bytes manifest_bytes v h)"

subsection \<open>Producers step by step\<close>

text \<open>
  The same calls as steps, so that several producers of one filename and a consumer can interleave, and so that a
  producer can stop anywhere (a crash, a hook or a failing call: it takes no further step and removes nothing).
  A producer checks the four paths, claims the name by creating the data part exclusively, checks again, writes,
  renames, and does the same for the manifest.
\<close>

datatype producer_pc =
    P_CHECKING nat
  | P_CLAIMING
  | P_RECHECKING nat
  | P_WRITING nat
  | P_DATA_SYNCED
  | P_DATA_RENAMED
  | P_MANIFEST_WRITING nat
  | P_MANIFEST_SYNCED
  | P_DONE
  | P_RAISED

definition delivery_paths :: "path \<Rightarrow> path list" where
  "delivery_paths p = [p, part_path p, manifest_path p, part_path (manifest_path p)]"

definition recheck_paths :: "path \<Rightarrow> path list" where
  "recheck_paths p = [p, manifest_path p, part_path (manifest_path p)]"

inductive producer_step :: "path \<Rightarrow> string \<Rightarrow> string \<Rightarrow> producer_pc \<times> file_view \<Rightarrow> producer_pc \<times> file_view \<Rightarrow> bool"
  for p file_bytes manifest_bytes where
  check_absent: "k < 4 \<Longrightarrow> v (delivery_paths p ! k) = None \<Longrightarrow>
    producer_step p file_bytes manifest_bytes (P_CHECKING k, v) (if k = 3 then P_CLAIMING else P_CHECKING (Suc k), v)"
| check_found: "k < 4 \<Longrightarrow> v (delivery_paths p ! k) \<noteq> None \<Longrightarrow>
    producer_step p file_bytes manifest_bytes (P_CHECKING k, v) (P_RAISED, v)"
| claim: "v (part_path p) = None \<Longrightarrow>
    producer_step p file_bytes manifest_bytes (P_CLAIMING, v) (P_RECHECKING 0, v(part_path p \<mapsto> FileNode []))"
| claim_taken: "v (part_path p) \<noteq> None \<Longrightarrow> producer_step p file_bytes manifest_bytes (P_CLAIMING, v) (P_RAISED, v)"
| recheck_absent: "k < 3 \<Longrightarrow> v (recheck_paths p ! k) = None \<Longrightarrow>
    producer_step p file_bytes manifest_bytes (P_RECHECKING k, v) (if k = 2 then P_WRITING 0 else P_RECHECKING (Suc k), v)"
| recheck_found: "k < 3 \<Longrightarrow> v (recheck_paths p ! k) \<noteq> None \<Longrightarrow>
    producer_step p file_bytes manifest_bytes (P_RECHECKING k, v) (P_RAISED, v)"
| write_byte: "n < length file_bytes \<Longrightarrow>
    producer_step p file_bytes manifest_bytes (P_WRITING n, v)
      (P_WRITING (Suc n), v(part_path p \<mapsto> FileNode (take (Suc n) file_bytes)))"
| sync_data: "producer_step p file_bytes manifest_bytes (P_WRITING (length file_bytes), v) (P_DATA_SYNCED, v)"
| rename_data: "v (part_path p) = Some node \<Longrightarrow>
    producer_step p file_bytes manifest_bytes (P_DATA_SYNCED, v)
      (P_DATA_RENAMED, v(part_path p := None, p \<mapsto> node))"
| open_manifest: "v (part_path (manifest_path p)) = None \<Longrightarrow>
    producer_step p file_bytes manifest_bytes (P_DATA_RENAMED, v)
      (P_MANIFEST_WRITING 0, v(part_path (manifest_path p) \<mapsto> FileNode []))"
| manifest_taken: "v (part_path (manifest_path p)) \<noteq> None \<Longrightarrow>
    producer_step p file_bytes manifest_bytes (P_DATA_RENAMED, v) (P_RAISED, v)"
| write_manifest_byte: "n < length manifest_bytes \<Longrightarrow>
    producer_step p file_bytes manifest_bytes (P_MANIFEST_WRITING n, v)
      (P_MANIFEST_WRITING (Suc n), v(part_path (manifest_path p) \<mapsto> FileNode (take (Suc n) manifest_bytes)))"
| sync_manifest: "producer_step p file_bytes manifest_bytes (P_MANIFEST_WRITING (length manifest_bytes), v) (P_MANIFEST_SYNCED, v)"
| rename_manifest: "v (part_path (manifest_path p)) = Some node \<Longrightarrow>
    producer_step p file_bytes manifest_bytes (P_MANIFEST_SYNCED, v)
      (P_DONE, v(part_path (manifest_path p) := None, manifest_path p \<mapsto> node))"

inductive_cases producer_stepE: "producer_step p file_bytes manifest_bytes s s'"

text \<open>
  Producers of one filename, each with its two contents, over one file system whose other paths may change at
  any time.
\<close>

type_synonym inbox_state = "producer_pc list \<times> file_view"

inductive inbox_step :: "path \<Rightarrow> (string \<times> string) list \<Rightarrow> inbox_state \<Rightarrow> inbox_state \<Rightarrow> bool" for p contents where
  producer_moves: "i < length contents \<Longrightarrow> i < length pcs \<Longrightarrow>
    producer_step p (fst (contents ! i)) (snd (contents ! i)) (pcs ! i, v) (pc', v') \<Longrightarrow>
    inbox_step p contents (pcs, v) (pcs[i := pc'], v')"
| elsewhere: "(\<And>q. q \<in> set (delivery_paths p) \<Longrightarrow> v' q = v q) \<Longrightarrow> inbox_step p contents (pcs, v) (pcs, v')"

inductive_cases inbox_stepE: "inbox_step p contents s s'"

definition inbox_start :: "(string \<times> string) list \<Rightarrow> file_view \<Rightarrow> inbox_state" where
  "inbox_start contents v = (replicate (length contents) (P_CHECKING 0), v)"

end
