(* ===== verification/Source_Gate.thy ===== *)
theory Source_Gate
  imports Source_Files Fingerprint_Properties
begin

text \<open>
  Lemmas about the file protocol: what each producer of a filename holds (an invariant of the interleaved steps), the
  completion marker as an interface of the consumers, interpreted on the producers, and what both gates make of a
  delivery that was published.
\<close>

subsection \<open>The four paths of a delivery\<close>

lemma last_with_name [simp]: "last (with_name p n) = n"
  by (simp add: with_name_def)

lemma data_name_stem: "data_file_name n \<Longrightarrow> \<exists>stem. n = stem @ ''.json'' \<and> manifest_name n = stem @ ''.manifest.json''"
proof -
  assume "data_file_name n"
  then have "drop (length n - 5) n = ''.json''" by (simp add: data_file_name_def ends_with_def numeral_eq_Suc)
  then have "n = take (length n - 5) n @ ''.json''" using append_take_drop_id[of "length n - 5" n] by simp
  then show ?thesis by (intro exI[of _ "take (length n - 5) n"]) (simp add: manifest_name_def)
qed

lemma delivery_paths_distinct:
  assumes "data_file_name (last p)"
  shows "distinct (delivery_paths p)"
proof -
  obtain stem where n: "last p = stem @ ''.json''" "manifest_name (last p) = stem @ ''.manifest.json''"
    using data_name_stem[OF assms] by blast
  have "map (length \<circ> last) (delivery_paths p) = [length stem + 5, length stem + 10, length stem + 14, length stem + 19]"
    by (simp add: delivery_paths_def part_path_def manifest_path_def n(2)) (simp add: n(1))
  then have "distinct (map (length \<circ> last) (delivery_paths p))" by simp
  then show ?thesis unfolding distinct_map by blast
qed

subsection \<open>What a producer holds\<close>

definition holds_part :: "producer_pc \<Rightarrow> bool" where
  "holds_part pc = (case pc of P_RECHECKING _ \<Rightarrow> True | P_WRITING _ \<Rightarrow> True | P_DATA_SYNCED \<Rightarrow> True | _ \<Rightarrow> False)"

definition published_data :: "producer_pc \<Rightarrow> bool" where
  "published_data pc = (case pc of P_DATA_RENAMED \<Rightarrow> True | P_MANIFEST_WRITING _ \<Rightarrow> True | P_MANIFEST_SYNCED \<Rightarrow> True
     | P_DONE \<Rightarrow> True | _ \<Rightarrow> False)"

definition holds_manifest_part :: "producer_pc \<Rightarrow> bool" where
  "holds_manifest_part pc = (case pc of P_MANIFEST_WRITING _ \<Rightarrow> True | P_MANIFEST_SYNCED \<Rightarrow> True | _ \<Rightarrow> False)"

text \<open>A producer whose second look found no data file: the winner of the name.\<close>

definition cleared :: "producer_pc \<Rightarrow> bool" where
  "cleared pc = (published_data pc \<or> (case pc of P_RECHECKING k \<Rightarrow> 0 < k | P_WRITING _ \<Rightarrow> True | P_DATA_SYNCED \<Rightarrow> True | _ \<Rightarrow> False))"

fun producer_files :: "path \<Rightarrow> string \<times> string \<Rightarrow> file_view \<Rightarrow> producer_pc \<Rightarrow> bool" where
  "producer_files p c v (P_RECHECKING k) = (v (part_path p) = Some (FileNode []))"
| "producer_files p c v (P_WRITING n) = (n \<le> length (fst c) \<and> v (part_path p) = Some (FileNode (take n (fst c))))"
| "producer_files p c v P_DATA_SYNCED = (v (part_path p) = Some (FileNode (fst c)))"
| "producer_files p c v P_DATA_RENAMED = (v p = Some (FileNode (fst c)))"
| "producer_files p c v (P_MANIFEST_WRITING n) = (v p = Some (FileNode (fst c)) \<and> n \<le> length (snd c)
     \<and> v (part_path (manifest_path p)) = Some (FileNode (take n (snd c))))"
| "producer_files p c v P_MANIFEST_SYNCED = (v p = Some (FileNode (fst c))
     \<and> v (part_path (manifest_path p)) = Some (FileNode (snd c)))"
| "producer_files p c v P_DONE = (v p = Some (FileNode (fst c)) \<and> v (manifest_path p) = Some (FileNode (snd c)))"
| "producer_files p c v pc = True"

lemmas pc_defs = holds_part_def published_data_def holds_manifest_part_def cleared_def

definition inbox_ok :: "path \<Rightarrow> (string \<times> string) list \<Rightarrow> inbox_state \<Rightarrow> bool" where
  "inbox_ok p contents s = (case s of (pcs, v) \<Rightarrow>
     length pcs = length contents
     \<and> (\<forall>i < length pcs. producer_files p (contents ! i) v (pcs ! i))
     \<and> (\<forall>i j. i < length pcs \<longrightarrow> j < length pcs \<longrightarrow> holds_part (pcs ! i) \<longrightarrow> holds_part (pcs ! j) \<longrightarrow> i = j)
     \<and> (\<forall>i j. i < length pcs \<longrightarrow> j < length pcs \<longrightarrow> cleared (pcs ! i) \<longrightarrow> cleared (pcs ! j) \<longrightarrow> i = j)
     \<and> (v p \<noteq> None \<longrightarrow> (\<exists>i < length pcs. published_data (pcs ! i)))
     \<and> (v (manifest_path p) \<noteq> None \<longrightarrow> (\<exists>i < length pcs. pcs ! i = P_DONE))
     \<and> (v (part_path (manifest_path p)) \<noteq> None \<longrightarrow> (\<exists>i < length pcs. holds_manifest_part (pcs ! i))))"

lemma inbox_ok_start:
  assumes "\<And>q. q \<in> set (delivery_paths p) \<Longrightarrow> v q = None"
  shows "inbox_ok p contents (inbox_start contents v)"
  using assms by (auto simp: inbox_ok_def inbox_start_def pc_defs delivery_paths_def)

text \<open>What another producer holds only depends on the part of the data while it holds it, and otherwise on the other
  three files while it is cleared.\<close>

lemma producer_files_frame:
  assumes "producer_files p c v pc"
    and "holds_part pc \<Longrightarrow> v' (part_path p) = v (part_path p)"
    and "published_data pc \<Longrightarrow> v' p = v p"
    and "pc = P_DONE \<Longrightarrow> v' (manifest_path p) = v (manifest_path p)"
    and "holds_manifest_part pc \<Longrightarrow> v' (part_path (manifest_path p)) = v (part_path (manifest_path p))"
  shows "producer_files p c v' pc"
  using assms by (cases pc) (auto simp: pc_defs)

lemma inbox_step_ok:
  assumes step: "inbox_step p contents s s'" and ok: "inbox_ok p contents s" and name: "data_file_name (last p)"
  shows "inbox_ok p contents s'"
  using step
proof (cases rule: inbox_step.cases)
  case (elsewhere v' v pcs)
  have same: "v' p = v p" "v' (part_path p) = v (part_path p)" "v' (manifest_path p) = v (manifest_path p)"
    "v' (part_path (manifest_path p)) = v (part_path (manifest_path p))"
    using elsewhere(3) by (simp_all add: delivery_paths_def)
  have "producer_files p (contents ! i) v' (pcs ! i)" if "producer_files p (contents ! i) v (pcs ! i)" for i
    by (rule producer_files_frame[OF that]) (simp_all add: same)
  then show ?thesis using ok elsewhere(1,2) by (auto simp: inbox_ok_def same)
next
  case (producer_moves i pcs v pc' v')
  have d: "distinct (delivery_paths p)" by (rule delivery_paths_distinct[OF name])
  then have paths: "part_path p \<noteq> p" "manifest_path p \<noteq> p" "part_path (manifest_path p) \<noteq> p" "manifest_path p \<noteq> part_path p"
    "part_path (manifest_path p) \<noteq> part_path p" "part_path (manifest_path p) \<noteq> manifest_path p"
    "p \<noteq> part_path p" "p \<noteq> manifest_path p" "p \<noteq> part_path (manifest_path p)" "part_path p \<noteq> manifest_path p"
    "part_path p \<noteq> part_path (manifest_path p)" "manifest_path p \<noteq> part_path (manifest_path p)"
    unfolding delivery_paths_def by auto
  let ?c = "contents ! i"
  have i: "i < length pcs" by (rule producer_moves(4))
  have len: "length pcs = length contents"
    and files: "\<And>j. j < length pcs \<Longrightarrow> producer_files p (contents ! j) v (pcs ! j)"
    and parts: "\<And>j k. j < length pcs \<Longrightarrow> k < length pcs \<Longrightarrow> holds_part (pcs ! j) \<Longrightarrow> holds_part (pcs ! k) \<Longrightarrow> j = k"
    and winner: "\<And>j k. j < length pcs \<Longrightarrow> k < length pcs \<Longrightarrow> cleared (pcs ! j) \<Longrightarrow> cleared (pcs ! k) \<Longrightarrow> j = k"
    and data: "v p \<noteq> None \<Longrightarrow> \<exists>j < length pcs. published_data (pcs ! j)"
    and manifest: "v (manifest_path p) \<noteq> None \<Longrightarrow> \<exists>j < length pcs. pcs ! j = P_DONE"
    and mpart: "v (part_path (manifest_path p)) \<noteq> None \<Longrightarrow> \<exists>j < length pcs. holds_manifest_part (pcs ! j)"
    using ok producer_moves(1) by (auto simp: inbox_ok_def)
  note own = files[OF i]
  have rebuild: "inbox_ok p contents (pcs[i := pc'], v')"
    if own': "producer_files p ?c v' pc'"
      and others: "\<And>j. j < length pcs \<Longrightarrow> j \<noteq> i \<Longrightarrow> producer_files p (contents ! j) v' (pcs ! j)"
      and part': "holds_part pc' \<Longrightarrow> \<not> holds_part (pcs ! i) \<Longrightarrow> \<forall>j < length pcs. \<not> holds_part (pcs ! j)"
      and winner': "cleared pc' \<Longrightarrow> \<not> cleared (pcs ! i) \<Longrightarrow> \<forall>j < length pcs. \<not> cleared (pcs ! j)"
      and data': "v' p \<noteq> None \<Longrightarrow> published_data pc' \<or> (v p \<noteq> None \<and> \<not> published_data (pcs ! i))"
      and manifest': "v' (manifest_path p) \<noteq> None \<Longrightarrow> pc' = P_DONE \<or> (v (manifest_path p) \<noteq> None \<and> pcs ! i \<noteq> P_DONE)"
      and mpart': "v' (part_path (manifest_path p)) \<noteq> None \<Longrightarrow>
        holds_manifest_part pc' \<or> (v (part_path (manifest_path p)) \<noteq> None \<and> \<not> holds_manifest_part (pcs ! i))"
    unfolding inbox_ok_def prod.case
  proof (intro conjI)
    show "length (pcs[i := pc']) = length contents" using len by simp
    show "\<forall>j < length (pcs[i := pc']). producer_files p (contents ! j) v' (pcs[i := pc'] ! j)"
      using own' others i by (auto simp: nth_list_update)
    show "\<forall>j k. j < length (pcs[i := pc']) \<longrightarrow> k < length (pcs[i := pc']) \<longrightarrow> holds_part (pcs[i := pc'] ! j) \<longrightarrow>
        holds_part (pcs[i := pc'] ! k) \<longrightarrow> j = k"
    proof (intro allI impI)
      fix j k
      assume jk: "j < length (pcs[i := pc'])" "k < length (pcs[i := pc'])" "holds_part (pcs[i := pc'] ! j)" "holds_part (pcs[i := pc'] ! k)"
      show "j = k"
        by (cases "j = i"; cases "k = i"; cases "holds_part (pcs ! i)")
          (use jk part' parts[of j k] parts[of j i] parts[of i k] i in auto)
    qed
    show "\<forall>j k. j < length (pcs[i := pc']) \<longrightarrow> k < length (pcs[i := pc']) \<longrightarrow> cleared (pcs[i := pc'] ! j) \<longrightarrow>
        cleared (pcs[i := pc'] ! k) \<longrightarrow> j = k"
    proof (intro allI impI)
      fix j k
      assume jk: "j < length (pcs[i := pc'])" "k < length (pcs[i := pc'])" "cleared (pcs[i := pc'] ! j)" "cleared (pcs[i := pc'] ! k)"
      show "j = k"
        by (cases "j = i"; cases "k = i"; cases "cleared (pcs ! i)")
          (use jk winner' winner[of j k] winner[of j i] winner[of i k] i in auto)
    qed
    show "v' p \<noteq> None \<longrightarrow> (\<exists>j < length (pcs[i := pc']). published_data (pcs[i := pc'] ! j))"
    proof
      assume "v' p \<noteq> None"
      from data'[OF this] data show "\<exists>j < length (pcs[i := pc']). published_data (pcs[i := pc'] ! j)"
        using i by (auto simp: nth_list_update)
    qed
    show "v' (manifest_path p) \<noteq> None \<longrightarrow> (\<exists>j < length (pcs[i := pc']). pcs[i := pc'] ! j = P_DONE)"
    proof
      assume "v' (manifest_path p) \<noteq> None"
      from manifest'[OF this] manifest show "\<exists>j < length (pcs[i := pc']). pcs[i := pc'] ! j = P_DONE"
        using i by (auto simp: nth_list_update)
    qed
    show "v' (part_path (manifest_path p)) \<noteq> None \<longrightarrow> (\<exists>j < length (pcs[i := pc']). holds_manifest_part (pcs[i := pc'] ! j))"
    proof
      assume "v' (part_path (manifest_path p)) \<noteq> None"
      from mpart'[OF this] mpart show "\<exists>j < length (pcs[i := pc']). holds_manifest_part (pcs[i := pc'] ! j)"
        using i by (auto simp: nth_list_update)
    qed
  qed
  have frame: "producer_files p (contents ! j) v' (pcs ! j)"
    if "j < length pcs" "j \<noteq> i"
      and "v' (part_path p) = v (part_path p) \<or> holds_part (pcs ! i) \<or> (\<forall>k < length pcs. \<not> holds_part (pcs ! k))"
      and "(v' p = v p \<and> v' (manifest_path p) = v (manifest_path p)
        \<and> v' (part_path (manifest_path p)) = v (part_path (manifest_path p))) \<or> cleared (pcs ! i)" for j
  proof (rule producer_files_frame[OF files[OF \<open>j < length pcs\<close>]])
    show "v' (part_path p) = v (part_path p)" if "holds_part (pcs ! j)"
      using that \<open>j \<noteq> i\<close> \<open>j < length pcs\<close> parts[OF \<open>j < length pcs\<close> i that]
        \<open>v' (part_path p) = v (part_path p) \<or> holds_part (pcs ! i) \<or> (\<forall>k < length pcs. \<not> holds_part (pcs ! k))\<close> by blast
    have lost: "\<not> cleared (pcs ! i)" if "cleared (pcs ! j)"
      using winner[OF \<open>j < length pcs\<close> i that] \<open>j \<noteq> i\<close> by blast
    show "v' p = v p" if "published_data (pcs ! j)"
      using lost that \<open>(v' p = v p \<and> v' (manifest_path p) = v (manifest_path p)
        \<and> v' (part_path (manifest_path p)) = v (part_path (manifest_path p))) \<or> cleared (pcs ! i)\<close> by (auto simp: cleared_def)
    show "v' (manifest_path p) = v (manifest_path p)" if "pcs ! j = P_DONE"
      using lost that \<open>(v' p = v p \<and> v' (manifest_path p) = v (manifest_path p)
        \<and> v' (part_path (manifest_path p)) = v (part_path (manifest_path p))) \<or> cleared (pcs ! i)\<close> by (auto simp: pc_defs)
    show "v' (part_path (manifest_path p)) = v (part_path (manifest_path p))" if "holds_manifest_part (pcs ! j)"
      using lost that \<open>(v' p = v p \<and> v' (manifest_path p) = v (manifest_path p)
        \<and> v' (part_path (manifest_path p)) = v (part_path (manifest_path p))) \<or> cleared (pcs ! i)\<close>
      by (auto simp: pc_defs split: producer_pc.splits)
  qed
  have free: "\<forall>k < length pcs. \<not> holds_part (pcs ! k)" if "v (part_path p) = None"
  proof (intro allI impI)
    fix k
    assume "k < length pcs"
    from files[OF this] that show "\<not> holds_part (pcs ! k)" by (cases "pcs ! k") (auto simp: pc_defs)
  qed
  have pc: "producer_step p (fst ?c) (snd ?c) (pcs ! i, v) (pc', v')" by (rule producer_moves(5))
  have others: "producer_files p (contents ! j) v' (pcs ! j)" if "j < length pcs" "j \<noteq> i" for j
  proof (rule frame[OF that])
    show "v' (part_path p) = v (part_path p) \<or> holds_part (pcs ! i) \<or> (\<forall>k < length pcs. \<not> holds_part (pcs ! k))"
      using pc free by (cases rule: producer_step.cases) (simp_all add: paths holds_part_def)
    show "(v' p = v p \<and> v' (manifest_path p) = v (manifest_path p)
        \<and> v' (part_path (manifest_path p)) = v (part_path (manifest_path p))) \<or> cleared (pcs ! i)"
      using pc by (cases rule: producer_step.cases) (simp_all add: paths pc_defs)
  qed
  have "inbox_ok p contents (pcs[i := pc'], v')"
    using pc
  proof (cases rule: producer_step.cases)
    case (recheck_absent k)
    have alone: "\<not> cleared (pcs ! j)" if "k = 0" "j < length pcs" for j
    proof
      assume c: "cleared (pcs ! j)"
      have "v p = None" using recheck_absent that(1) by (simp add: recheck_paths_def)
      then have "\<not> published_data (pcs ! j)" using files[OF that(2)] by (cases "pcs ! j") (auto simp: pc_defs)
      then have "holds_part (pcs ! j)" "j \<noteq> i" using c that(1) recheck_absent by (auto simp: pc_defs split: producer_pc.splits)
      then show False using parts[OF that(2) i] recheck_absent by (simp add: pc_defs)
    qed
    have now: "cleared (pcs ! i) \<longleftrightarrow> 0 < k" using recheck_absent by (simp add: pc_defs)
    show ?thesis
    proof (rule rebuild[OF _ others])
      show "\<forall>j < length pcs. \<not> cleared (pcs ! j)" if "cleared pc'" "\<not> cleared (pcs ! i)"
        using alone now that by blast
    qed (use recheck_absent own in \<open>auto simp: pc_defs split: if_splits\<close>)
  next
    case (manifest_taken)
    then obtain j where "j < length pcs" "holds_manifest_part (pcs ! j)" using mpart by blast
    moreover from this have "j = i" using winner[OF _ i] manifest_taken by (auto simp: pc_defs split: producer_pc.splits)
    ultimately show ?thesis using manifest_taken by (simp add: pc_defs)
  next
    case (claim)
    show ?thesis
    proof (rule rebuild[OF _ others])
      show "\<forall>j < length pcs. \<not> holds_part (pcs ! j)" using free claim by blast
    qed (use claim in \<open>auto simp: pc_defs paths\<close>)
  qed (rule rebuild[OF _ others]; use own in \<open>auto simp: pc_defs paths split: if_splits\<close>)+
  then show ?thesis using producer_moves(2) by simp
qed


lemma inbox_steps_ok:
  assumes "(inbox_step p contents)\<^sup>*\<^sup>* s s'" "inbox_ok p contents s" "data_file_name (last p)"
  shows "inbox_ok p contents s'"
  using assms by (induction rule: rtranclp_induct) (auto intro: inbox_step_ok)

subsection \<open>A completion marker\<close>

text \<open>
  What a consumer relies on: once the marker of a delivery can be seen, its data and its marker are the contents of
  one publication and stay so.
\<close>

locale completion_marker =
  fixes step :: "'s \<Rightarrow> 's \<Rightarrow> bool"
    and good :: "'s \<Rightarrow> bool"
    and view_of :: "'s \<Rightarrow> file_view"
    and p :: path
    and published :: "'s \<Rightarrow> string \<times> string \<Rightarrow> bool"
  assumes stays_good: "step s s' \<Longrightarrow> good s \<Longrightarrow> good s'"
    and stays_published: "step s s' \<Longrightarrow> published s c \<Longrightarrow> published s' c"
    and published_files: "good s \<Longrightarrow> published s c \<Longrightarrow>
      view_of s p = Some (FileNode (fst c)) \<and> view_of s (manifest_path p) = Some (FileNode (snd c))"
    and marker: "good s \<Longrightarrow> view_of s (manifest_path p) \<noteq> None \<Longrightarrow> \<exists>c. published s c"
begin

lemma later:
  assumes "step\<^sup>*\<^sup>* s s'" "good s"
  shows "good s' \<and> (published s c \<longrightarrow> published s' c)"
  using assms by (induction rule: rtranclp_induct) (auto intro: stays_good stays_published)

definition observes :: "(nat \<Rightarrow> 's) \<Rightarrow> nat \<Rightarrow> bool" where
  "observes run n \<longleftrightarrow> good (run 0) \<and> (\<forall>k < n. step\<^sup>*\<^sup>* (run k) (run (Suc k)))"

lemma observed_good: "observes run n \<Longrightarrow> k \<le> n \<Longrightarrow> good (run k)"
proof (induction k)
  case (Suc k)
  then have "step\<^sup>*\<^sup>* (run k) (run (Suc k))" "good (run k)" by (simp_all add: observes_def)
  then show ?case using later by blast
qed (simp add: observes_def)

lemma observed_later:
  assumes "observes run n" "j \<le> n" "published (run k) c"
  shows "k \<le> j \<Longrightarrow> published (run j) c"
  using assms(2)
proof (induction j)
  case (Suc j)
  show ?case
  proof (cases "k = Suc j")
    case False
    with Suc have "published (run j) c" by simp
    moreover have "step\<^sup>*\<^sup>* (run j) (run (Suc j))" using assms(1) Suc.prems by (simp add: observes_def)
    ultimately show ?thesis using later[of "run j" "run (Suc j)" c] observed_good[OF assms(1), of j] Suc.prems(2) by simp
  qed (use assms(3) in simp)
qed (use assms(3) in simp)

text \<open>The data file read after the marker was seen, and the marker itself.\<close>

lemma seen_complete:
  assumes "observes run n" "view_of (run k) (manifest_path p) \<noteq> None" "k \<le> n"
  shows "\<exists>c. published (run k) c \<and> (\<forall>j. k \<le> j \<and> j \<le> n \<longrightarrow>
    view_of (run j) p = Some (FileNode (fst c)) \<and> view_of (run j) (manifest_path p) = Some (FileNode (snd c)))"
proof -
  obtain c where c: "published (run k) c" using marker[OF observed_good[OF assms(1,3)] assms(2)] by blast
  have "view_of (run j) p = Some (FileNode (fst c)) \<and> view_of (run j) (manifest_path p) = Some (FileNode (snd c))"
    if "k \<le> j" "j \<le> n" for j
    using published_files[OF observed_good[OF assms(1) that(2)] observed_later[OF assms(1) that(2) c that(1)]] .
  with c show ?thesis by blast
qed

lemma gate_ready:
  assumes "observes run 6" "inspect_source_file sha loads date_iso supported (view_of \<circ> run) p = Inr g" "gr_ready g = Some r"
  shows "published (run 2) (rs_file_bytes r, rs_manifest_bytes r)"
proof -
  have facts: "is_file (view_of (run 2)) (manifest_path p)" "view_of (run 3) (manifest_path p) = Some (FileNode (rs_manifest_bytes r))"
    "view_of (run 4) p = Some (FileNode (rs_file_bytes r))"
    using assms(2,3)
    by (auto simp: inspect_source_file_def source_file_paths_def gate_outcome_def result_simps
        split: if_splits option.splits file_node.splits sum.splits)
  have "view_of (run 2) (manifest_path p) \<noteq> None" using facts(1) by (auto simp: is_file_def split: option.splits)
  from seen_complete[OF assms(1) this] obtain c where c: "published (run 2) c"
    "\<forall>j. 2 \<le> j \<and> j \<le> 6 \<longrightarrow> view_of (run j) p = Some (FileNode (fst c)) \<and> view_of (run j) (manifest_path p) = Some (FileNode (snd c))"
    by auto
  then have "c = (rs_file_bytes r, rs_manifest_bytes r)" using facts(2,3) by (cases c) force
  with c(1) show ?thesis by simp
qed

lemma verified_published:
  assumes "observes run 4" "verify_delivery sha loads date_iso resolve (view_of \<circ> run) source_path inbox_root = Inr (Some d)"
    "resolve source_path = p"
  shows "published (run 1) (vd_data_bytes d, vd_manifest_bytes d)"
proof -
  note facts = verify_delivery_facts[OF assms(2)]
  obtain relative data_bytes manifest_bytes where c: "check_delivery sha loads date_iso (resolve source_path) relative data_bytes manifest_bytes = Inr d"
    "is_file (view_of (run 1)) (manifest_path p)"
    using assms(2,3) by (auto simp: verify_delivery_def Let_def result_simps simp del: list_ex_iff split: if_splits)
  have path: "vd_path d = p" using check_delivery_facts(1)[OF c(1)] assms(3) by simp
  have "view_of (run 1) (manifest_path p) \<noteq> None" using c(2) by (auto simp: is_file_def split: option.splits)
  from seen_complete[OF assms(1) this] obtain x where x: "published (run 1) x"
    "\<forall>j. 1 \<le> j \<and> j \<le> 4 \<longrightarrow> view_of (run j) p = Some (FileNode (fst x)) \<and> view_of (run j) (manifest_path p) = Some (FileNode (snd x))"
    by auto
  have "view_of (run 2) p = Some (FileNode (vd_data_bytes d))" "view_of (run 3) (manifest_path p) = Some (FileNode (vd_manifest_bytes d))"
    using facts(4,5) by (simp_all add: path)
  then have "x = (vd_data_bytes d, vd_manifest_bytes d)" using x(2) by (cases x) force
  with x(1) show ?thesis by simp
qed

end

definition delivery_published :: "(string \<times> string) list \<Rightarrow> inbox_state \<Rightarrow> string \<times> string \<Rightarrow> bool" where
  "delivery_published contents s c = (\<exists>i < length (fst s). i < length contents \<and> fst s ! i = P_DONE \<and> contents ! i = c)"

definition inbox_reached :: "path \<Rightarrow> (string \<times> string) list \<Rightarrow> inbox_state \<Rightarrow> bool" where
  "inbox_reached p contents s \<longleftrightarrow> data_file_name (last p) \<and> inbox_ok p contents s"

lemma done_stays: "\<not> producer_step p file_bytes manifest_bytes (P_DONE, v) s'"
  by (auto elim: producer_step.cases)

interpretation producers: completion_marker "inbox_step p contents" "inbox_reached p contents" snd p "delivery_published contents"
  for p contents
proof
  show "inbox_reached p contents s'" if "inbox_step p contents s s'" "inbox_reached p contents s" for s s'
    using that inbox_step_ok by (auto simp: inbox_reached_def)
  show "delivery_published contents s' c" if step: "inbox_step p contents s s'" and pub: "delivery_published contents s c" for s s' c
    using step
  proof (cases rule: inbox_step.cases)
    case (producer_moves i pcs v pc' v')
    obtain k where k: "k < length pcs" "k < length contents" "pcs ! k = P_DONE" "contents ! k = c"
      using pub producer_moves(1) by (auto simp: delivery_published_def)
    then have "k \<noteq> i" using producer_moves(5) done_stays by metis
    with k show ?thesis using producer_moves(2) by (auto simp: delivery_published_def)
  qed (use pub in \<open>simp add: delivery_published_def\<close>)
  show "snd s p = Some (FileNode (fst c)) \<and> snd s (manifest_path p) = Some (FileNode (snd c))"
    if "inbox_reached p contents s" "delivery_published contents s c" for s c
    using that by (force simp: inbox_reached_def inbox_ok_def delivery_published_def split: prod.splits)
  show "\<exists>c. delivery_published contents s c" if "inbox_reached p contents s" "snd s (manifest_path p) \<noteq> None" for s
  proof -
    obtain pcs v where s: "s = (pcs, v)" by (cases s)
    then have "length pcs = length contents" "v (manifest_path p) \<noteq> None" "v (manifest_path p) \<noteq> None \<longrightarrow> (\<exists>i < length pcs. pcs ! i = P_DONE)"
      using that unfolding inbox_reached_def inbox_ok_def s prod.case snd_conv by blast+
    then obtain i where "i < length pcs" "pcs ! i = P_DONE" "length pcs = length contents" by blast
    then have "delivery_published contents s (contents ! i)" unfolding delivery_published_def s by auto
    then show ?thesis by blast
  qed
qed

subsection \<open>The calls of one producer are its steps\<close>

lemma written_prefix:
  assumes "n \<le> length file_bytes"
  shows "(producer_step p file_bytes manifest_bytes)\<^sup>*\<^sup>* (P_WRITING 0, v(part_path p \<mapsto> FileNode []))
    (P_WRITING n, v(part_path p \<mapsto> FileNode (take n file_bytes)))"
  using assms
proof (induction n)
  case (Suc n)
  then have "producer_step p file_bytes manifest_bytes (P_WRITING n, v(part_path p \<mapsto> FileNode (take n file_bytes)))
      (P_WRITING (Suc n), v(part_path p \<mapsto> FileNode (take (Suc n) file_bytes)))"
    using write_byte[of n file_bytes p manifest_bytes "v(part_path p \<mapsto> FileNode (take n file_bytes))"] by simp
  then show ?case by (rule rtranclp.rtrancl_into_rtrancl[OF Suc.IH[OF Suc_leD[OF Suc.prems]]])
qed simp

lemma written_manifest_prefix:
  assumes "n \<le> length manifest_bytes"
  shows "(producer_step p file_bytes manifest_bytes)\<^sup>*\<^sup>*
      (P_MANIFEST_WRITING 0, v(part_path (manifest_path p) \<mapsto> FileNode []))
      (P_MANIFEST_WRITING n, v(part_path (manifest_path p) \<mapsto> FileNode (take n manifest_bytes)))"
  using assms
proof (induction n)
  case (Suc n)
  then have "producer_step p file_bytes manifest_bytes
      (P_MANIFEST_WRITING n, v(part_path (manifest_path p) \<mapsto> FileNode (take n manifest_bytes)))
      (P_MANIFEST_WRITING (Suc n), v(part_path (manifest_path p) \<mapsto> FileNode (take (Suc n) manifest_bytes)))"
    using write_manifest_byte[of n manifest_bytes p file_bytes "v(part_path (manifest_path p) \<mapsto> FileNode (take n manifest_bytes))"]
    by simp
  then show ?case by (rule rtranclp.rtrancl_into_rtrancl[OF Suc.IH[OF Suc_leD[OF Suc.prems]]])
qed simp

lemma take_min: "take n xs = take (min n (length xs)) xs"
  by (simp add: min_def)

definition reaches_view :: "path \<Rightarrow> string \<Rightarrow> string \<Rightarrow> file_view \<Rightarrow> producer_pc \<Rightarrow> file_view \<Rightarrow> bool" where
  "reaches_view p file_bytes manifest_bytes v pc v' =
     (producer_step p file_bytes manifest_bytes)\<^sup>*\<^sup>* (P_CHECKING 0, v) (pc, v')"

lemma reached_files:
  assumes free: "\<And>q. q \<in> set (delivery_paths p) \<Longrightarrow> v q = None" and name: "data_file_name (last p)"
  shows "reaches_view p file_bytes manifest_bytes v P_CLAIMING v"
    and "\<exists>pc. reaches_view p file_bytes manifest_bytes v pc (v(part_path p \<mapsto> FileNode []))"
    and "\<exists>pc. reaches_view p file_bytes manifest_bytes v pc (v(part_path p \<mapsto> FileNode (take n file_bytes)))"
    and "reaches_view p file_bytes manifest_bytes v P_DATA_SYNCED (v(part_path p \<mapsto> FileNode file_bytes))"
    and "reaches_view p file_bytes manifest_bytes v P_DATA_RENAMED (v(part_path p := None, p \<mapsto> FileNode file_bytes))"
    and "\<exists>pc. reaches_view p file_bytes manifest_bytes v pc
      (v(part_path p := None, p \<mapsto> FileNode file_bytes, part_path (manifest_path p) \<mapsto> FileNode (take n manifest_bytes)))"
    and "reaches_view p file_bytes manifest_bytes v P_MANIFEST_SYNCED
      (v(part_path p := None, p \<mapsto> FileNode file_bytes, part_path (manifest_path p) \<mapsto> FileNode manifest_bytes))"
    and "reaches_view p file_bytes manifest_bytes v P_DONE
      (v(part_path p := None, p \<mapsto> FileNode file_bytes, part_path (manifest_path p) := None, manifest_path p \<mapsto> FileNode manifest_bytes))"
proof -
  let ?step = "producer_step p file_bytes manifest_bytes"
  have paths: "p \<noteq> part_path p" "p \<noteq> part_path (manifest_path p)" "part_path p \<noteq> part_path (manifest_path p)"
    "manifest_path p \<noteq> part_path p" "manifest_path p \<noteq> part_path (manifest_path p)" "p \<noteq> manifest_path p"
    "part_path (manifest_path p) \<noteq> part_path p"
    using delivery_paths_distinct[OF name] by (auto simp: delivery_paths_def)
  have none: "v p = None" "v (part_path p) = None" "v (manifest_path p) = None" "v (part_path (manifest_path p)) = None"
    using free by (simp_all add: delivery_paths_def)
  have check: "?step (P_CHECKING k, v) (if k = 3 then P_CLAIMING else P_CHECKING (Suc k), v)" if "k < 4" for k
  proof (rule check_absent[OF that])
    have "delivery_paths p ! k \<in> set (delivery_paths p)" by (rule nth_mem) (use that in \<open>simp add: delivery_paths_def\<close>)
    then show "v (delivery_paths p ! k) = None" by (rule free)
  qed
  have "?step (P_CHECKING 0, v) (P_CHECKING 1, v)" "?step (P_CHECKING 1, v) (P_CHECKING 2, v)"
    "?step (P_CHECKING 2, v) (P_CHECKING 3, v)" "?step (P_CHECKING 3, v) (P_CLAIMING, v)"
    using check[of 0] check[of 1] check[of 2] check[of 3] by (simp_all add: numeral_eq_Suc)
  then show claiming: "reaches_view p file_bytes manifest_bytes v P_CLAIMING v"
    unfolding reaches_view_def by (meson converse_rtranclp_into_rtranclp rtranclp.rtrancl_refl)
  let ?v1 = "v(part_path p \<mapsto> FileNode [])"
  have "?step (P_CLAIMING, v) (P_RECHECKING 0, ?v1)" by (rule producer_step.claim) (rule none(2))
  with claiming have r0: "reaches_view p file_bytes manifest_bytes v (P_RECHECKING 0) ?v1"
    unfolding reaches_view_def by (rule rtranclp.rtrancl_into_rtrancl)
  then show "\<exists>pc. reaches_view p file_bytes manifest_bytes v pc ?v1" by blast
  have recheck: "?step (P_RECHECKING k, ?v1) (if k = 2 then P_WRITING 0 else P_RECHECKING (Suc k), ?v1)" if "k < 3" for k
  proof (rule recheck_absent[OF that])
    have "k = 0 \<or> k = 1 \<or> k = 2" using that by linarith
    then show "?v1 (recheck_paths p ! k) = None" by (auto simp: recheck_paths_def none paths)
  qed
  have "?step (P_RECHECKING 0, ?v1) (P_RECHECKING 1, ?v1)" "?step (P_RECHECKING 1, ?v1) (P_RECHECKING 2, ?v1)"
    "?step (P_RECHECKING 2, ?v1) (P_WRITING 0, ?v1)"
    using recheck[of 0] recheck[of 1] recheck[of 2] by (simp_all add: numeral_eq_Suc)
  then have writing: "reaches_view p file_bytes manifest_bytes v (P_WRITING 0) ?v1"
    using r0 unfolding reaches_view_def by (meson rtranclp.rtrancl_into_rtrancl)
  have prefix: "reaches_view p file_bytes manifest_bytes v (P_WRITING k) (v(part_path p \<mapsto> FileNode (take k file_bytes)))"
    if "k \<le> length file_bytes" for k
    using writing written_prefix[OF that, of p manifest_bytes v] unfolding reaches_view_def by (rule rtranclp_trans)
  from prefix[of "min n (length file_bytes)"]
  show "\<exists>pc. reaches_view p file_bytes manifest_bytes v pc (v(part_path p \<mapsto> FileNode (take n file_bytes)))"
    using take_min[of n file_bytes] by auto
  let ?v2 = "v(part_path p \<mapsto> FileNode file_bytes)"
  have "?step (P_WRITING (length file_bytes), ?v2) (P_DATA_SYNCED, ?v2)" by (rule sync_data)
  with prefix[of "length file_bytes"] show synced: "reaches_view p file_bytes manifest_bytes v P_DATA_SYNCED ?v2"
    unfolding reaches_view_def by (simp add: rtranclp.rtrancl_into_rtrancl)
  let ?v3 = "v(part_path p := None, p \<mapsto> FileNode file_bytes)"
  have "?step (P_DATA_SYNCED, ?v2) (P_DATA_RENAMED, ?v3)"
    using rename_data[of ?v2 p "FileNode file_bytes" file_bytes manifest_bytes] by simp
  with synced show renamed: "reaches_view p file_bytes manifest_bytes v P_DATA_RENAMED ?v3"
    unfolding reaches_view_def by (rule rtranclp.rtrancl_into_rtrancl)
  have "?step (P_DATA_RENAMED, ?v3) (P_MANIFEST_WRITING 0, ?v3(part_path (manifest_path p) \<mapsto> FileNode []))"
    by (rule open_manifest) (use none paths in simp)
  with renamed have m0: "reaches_view p file_bytes manifest_bytes v (P_MANIFEST_WRITING 0) (?v3(part_path (manifest_path p) \<mapsto> FileNode []))"
    unfolding reaches_view_def by (rule rtranclp.rtrancl_into_rtrancl)
  have mprefix: "reaches_view p file_bytes manifest_bytes v (P_MANIFEST_WRITING k)
      (?v3(part_path (manifest_path p) \<mapsto> FileNode (take k manifest_bytes)))" if "k \<le> length manifest_bytes" for k
    using m0 written_manifest_prefix[OF that, of p file_bytes ?v3] unfolding reaches_view_def by (rule rtranclp_trans)
  from mprefix[of "min n (length manifest_bytes)"]
  show "\<exists>pc. reaches_view p file_bytes manifest_bytes v pc (?v3(part_path (manifest_path p) \<mapsto> FileNode (take n manifest_bytes)))"
    using take_min[of n manifest_bytes] by auto
  let ?v4 = "?v3(part_path (manifest_path p) \<mapsto> FileNode manifest_bytes)"
  have "?step (P_MANIFEST_WRITING (length manifest_bytes), ?v4) (P_MANIFEST_SYNCED, ?v4)" by (rule sync_manifest)
  with mprefix[of "length manifest_bytes"] show msynced: "reaches_view p file_bytes manifest_bytes v P_MANIFEST_SYNCED ?v4"
    unfolding reaches_view_def by (simp add: rtranclp.rtrancl_into_rtrancl)
  have "?step (P_MANIFEST_SYNCED, ?v4) (P_DONE, ?v3(part_path (manifest_path p) := None, manifest_path p \<mapsto> FileNode manifest_bytes))"
    using rename_manifest[of ?v4 p "FileNode manifest_bytes" file_bytes manifest_bytes] by simp
  with msynced show "reaches_view p file_bytes manifest_bytes v P_DONE
      (?v3(part_path (manifest_path p) := None, manifest_path p \<mapsto> FileNode manifest_bytes))"
    unfolding reaches_view_def by (rule rtranclp.rtrancl_into_rtrancl)
qed

lemma write_source_reaches:
  assumes w: "write_source hook fault p file_bytes manifest_bytes v h = (res, v', h')"
    and free: "\<And>q. q \<in> set (delivery_paths p) \<Longrightarrow> v q = None" and name: "data_file_name (last p)"
  shows "\<exists>pc. reaches_view p file_bytes manifest_bytes v pc v' \<and> (\<forall>m. res = Inr m \<longrightarrow> m = manifest_path p \<and> pc = P_DONE
      \<and> v' = v(part_path p := None, p \<mapsto> FileNode file_bytes, part_path (manifest_path p) := None,
           manifest_path p \<mapsto> FileNode manifest_bytes))"
proof -
  note reach = reached_files[where p = p and v = v, OF free name, of file_bytes manifest_bytes]
  from w reach(1) show ?thesis unfolding write_source_def Let_def
    by (auto split: if_splits option.splits source_fault.splits prod.splits sum.splits intro: reach)
qed

text \<open>A single producer's steps are steps of the inbox.\<close>

lemma producer_in_inbox:
  assumes "(producer_step p file_bytes manifest_bytes)\<^sup>*\<^sup>* (pc, v) (pc', v')"
  shows "(inbox_step p [(file_bytes, manifest_bytes)])\<^sup>*\<^sup>* ([pc], v) ([pc'], v')"
  using assms
proof (induction "(pc', v')" arbitrary: pc' v' rule: rtranclp_induct)
  case (step y)
  obtain pc1 v1 where y: "y = (pc1, v1)" by (cases y)
  have "inbox_step p [(file_bytes, manifest_bytes)] ([pc1], v1) ([pc1][0 := pc'], v')"
    by (rule producer_moves) (use step(2) y in simp_all)
  with step(3)[OF y] show ?case by simp
qed simp

subsection \<open>What the gates make of a published delivery\<close>

lemma map_of_sort_key: "distinct (map fst kvs) \<Longrightarrow> map_of (sort_key fst kvs) = map_of kvs"
  by (subst map_of_inject_set) (simp_all add: distinct_map_sort_key)

text \<open>\<open>json.loads\<close> reads what \<open>json.dumps\<close> wrote: the same value, its objects in the order of the text.\<close>

definition reads_back :: "(string \<Rightarrow> raw_json option) \<Rightarrow> json \<Rightarrow> bool" where
  "reads_back loads j \<longleftrightarrow> strict_json loads (utf8 (json_dumps j)) = Inr (sort_keys j)"

definition sorted_row :: "payload \<Rightarrow> payload" where
  "sorted_row row = sort_key fst (map (\<lambda>(k, v). (k, sort_keys v)) row)"

lemma object_list_rows: "object_list (sort_keys (JArr (map JObj rows))) = Some (map sorted_row rows)"
proof -
  have "those (map (\<lambda>v. case v of JObj kvs \<Rightarrow> Some kvs | _ \<Rightarrow> None) (map JObj xs)) = Some xs" for xs :: "payload list"
    by (induction xs) simp_all
  from this[of "map sorted_row rows"] show ?thesis by (simp add: object_list_def sorted_row_def comp_def)
qed

definition manifest_fields ::
  "(string \<Rightarrow> string) \<Rightarrow> path \<Rightarrow> string \<Rightarrow> string \<Rightarrow> date \<Rightarrow> string \<Rightarrow> string \<Rightarrow> nat \<Rightarrow> string \<Rightarrow> (string \<times> json) list" where
  "manifest_fields sha p ss rt day et sv n file_bytes =
     sections_of (sort_keys (manifest_document sha p ss rt day et sv n file_bytes))"

lemma manifest_lookup:
  "map_of (manifest_fields sha p ss rt day et sv n file_bytes) ''filename'' = Some (JStr (last p))"
  "map_of (manifest_fields sha p ss rt day et sv n file_bytes) ''source_system'' = Some (JStr ss)"
  "map_of (manifest_fields sha p ss rt day et sv n file_bytes) ''report_type'' = Some (JStr rt)"
  "map_of (manifest_fields sha p ss rt day et sv n file_bytes) ''report_date'' = Some (JStr (isoformat day))"
  "map_of (manifest_fields sha p ss rt day et sv n file_bytes) ''entity_type'' = Some (JStr et)"
  "map_of (manifest_fields sha p ss rt day et sv n file_bytes) ''schema_version'' = Some (JStr sv)"
  "map_of (manifest_fields sha p ss rt day et sv n file_bytes) ''row_count'' = Some (JInt (int n))"
  "map_of (manifest_fields sha p ss rt day et sv n file_bytes) ''checksum_sha256'' = Some (JStr (sha file_bytes))"
  "set (map fst (manifest_fields sha p ss rt day et sv n file_bytes)) = set manifest_keys"
proof -
  let ?kvs = "[(''filename'', JStr (last p)), (''source_system'', JStr ss), (''report_type'', JStr rt),
     (''report_date'', JStr (isoformat day)), (''entity_type'', JStr et), (''schema_version'', JStr sv),
     (''row_count'', JInt (int n)), (''checksum_sha256'', JStr (sha file_bytes))]"
  have fields: "manifest_fields sha p ss rt day et sv n file_bytes = sort_key fst ?kvs"
    by (simp add: manifest_fields_def manifest_document_def sections_of_def)
  have look: "map_of (manifest_fields sha p ss rt day et sv n file_bytes) = map_of ?kvs"
    unfolding fields by (rule map_of_sort_key) simp
  show "map_of (manifest_fields sha p ss rt day et sv n file_bytes) ''filename'' = Some (JStr (last p))"
    "map_of (manifest_fields sha p ss rt day et sv n file_bytes) ''source_system'' = Some (JStr ss)"
    "map_of (manifest_fields sha p ss rt day et sv n file_bytes) ''report_type'' = Some (JStr rt)"
    "map_of (manifest_fields sha p ss rt day et sv n file_bytes) ''report_date'' = Some (JStr (isoformat day))"
    "map_of (manifest_fields sha p ss rt day et sv n file_bytes) ''entity_type'' = Some (JStr et)"
    "map_of (manifest_fields sha p ss rt day et sv n file_bytes) ''schema_version'' = Some (JStr sv)"
    "map_of (manifest_fields sha p ss rt day et sv n file_bytes) ''row_count'' = Some (JInt (int n))"
    "map_of (manifest_fields sha p ss rt day et sv n file_bytes) ''checksum_sha256'' = Some (JStr (sha file_bytes))"
    unfolding look by simp_all
  have "set (map fst (sort_key fst ?kvs)) = fst ` set ?kvs" by (simp only: set_map set_sort)
  also have "\<dots> = set manifest_keys" unfolding manifest_keys_def by auto
  finally show "set (map fst (manifest_fields sha p ss rt day et sv n file_bytes)) = set manifest_keys" unfolding fields .
qed

lemma manifest_document_fields:
  "sort_keys (manifest_document sha p ss rt day et sv n file_bytes) = JObj (manifest_fields sha p ss rt day et sv n file_bytes)"
  by (simp add: manifest_fields_def manifest_document_def sections_of_def)

text \<open>What the manifest of a prepared delivery parses to.\<close>

lemma parsed_manifest:
  assumes parse: "parse_source_manifest loads date_iso (utf8 (json_dumps (manifest_document sha p ss rt day et sv n file_bytes))) (last p) = Inr m"
    and law: "reads_back loads (manifest_document sha p ss rt day et sv n file_bytes)"
  shows "sm_schema_version m = sv" "sm_row_count m = n" "sm_checksum m = sha file_bytes"
    "sm_report_type m = rt" "sm_source_system m = ss" "map_of LABEL_ENTITIES rt = Some et"
    "report_date_of date_iso (JStr (isoformat day)) = Inr (sm_report_date m)" "is_sha256 (sha file_bytes)"
proof -
  let ?doc = "manifest_fields sha p ss rt day et sv n file_bytes"
  have texts: "map_result (manifest_text ?doc) manifest_text_fields = Inr texts \<Longrightarrow>
    texts = [last p, ss, rt, isoformat day, et, sv, sha file_bytes]" for texts
    by (auto simp: manifest_text_fields_def manifest_text_def manifest_lookup result_simps split: if_splits)
  have rows: "manifest_rows ?doc = Inr k \<Longrightarrow> k = n" for k
    by (simp add: manifest_rows_def manifest_lookup nonneg_int_def)
  obtain ts k where t: "map_result (manifest_text ?doc) manifest_text_fields = Inr ts" "manifest_rows ?doc = Inr k"
    "let field = (\<lambda>k. the (map_of (zip manifest_text_fields ts) k)) in
      map_of LABEL_ENTITIES (field ''report_type'') = Some (field ''entity_type'') \<and> is_sha256 (field ''checksum_sha256'')
      \<and> report_date_of date_iso (JStr (field ''report_date'')) = Inr (sm_report_date m)
      \<and> sm_schema_version m = field ''schema_version'' \<and> sm_row_count m = k \<and> sm_checksum m = field ''checksum_sha256''
      \<and> sm_report_type m = field ''report_type'' \<and> sm_source_system m = field ''source_system''"
    using parse law unfolding parse_source_manifest_def reads_back_def manifest_document_fields
    by (auto simp: result_simps Let_def)
  have zip: "zip manifest_text_fields ts = [(''filename'', last p), (''source_system'', ss), (''report_type'', rt),
      (''report_date'', isoformat day), (''entity_type'', et), (''schema_version'', sv), (''checksum_sha256'', sha file_bytes)]"
    unfolding texts[OF t(1)] by (simp add: manifest_text_fields_def)
  show "sm_schema_version m = sv" "sm_row_count m = n" "sm_checksum m = sha file_bytes"
    "sm_report_type m = rt" "sm_source_system m = ss" "map_of LABEL_ENTITIES rt = Some et"
    "report_date_of date_iso (JStr (isoformat day)) = Inr (sm_report_date m)" "is_sha256 (sha file_bytes)"
    using t(3) rows[OF t(2)] unfolding Let_def zip by simp_all
qed

lemma label_entity:
  assumes "map_of LABEL_ENTITIES (report_type_name rt) = Some et"
  shows "et = entity_type_value (REPORT_ENTITIES rt)"
  using assms by (cases rt) (auto simp: LABEL_ENTITIES_def)

lemma enum_member_name:
  "enum_member report_type_name report_type_value report_type_members (JStr (report_type_name rt)) = Inr rt"
  "enum_member entity_type_value entity_type_value entity_type_members (JStr (entity_type_value et)) = Inr et"
  "enum_member source_system_name source_system_value source_system_members (JStr (source_system_name ss)) = Inr ss"
  by (cases rt; cases et; cases ss; simp add: enum_member_def enum_lookup_def report_type_members_def entity_type_members_def
      source_system_members_def)+

text \<open>A prepared delivery whose files are in place.\<close>

lemma prepared_source:
  assumes prep: "prepare_source sha loads date_iso p rows ss rt (PlainDate day) et sv view = Inr (fb, mb)"
    and law: "reads_back loads (JArr (map JObj rows))" "reads_back loads (manifest_document sha p ss rt day et sv (length rows) fb)"
  shows "\<exists>m. parse_source_manifest loads date_iso mb (last p) = Inr m \<and> check_source sha loads m fb = Inr (map sorted_row rows)
      \<and> sm_schema_version m = sv \<and> sm_row_count m = length rows \<and> report_date_of date_iso (JStr (isoformat day)) = Inr (sm_report_date m)"
    and "p \<noteq> [] \<and> data_file_name (last p)" "q \<in> set (delivery_paths p) \<Longrightarrow> view q = None"
    and "strict_json loads fb = Inr (sort_keys (JArr (map JObj rows)))"
    and "strict_json loads mb = Inr (JObj (manifest_fields sha p ss rt day et sv (length rows) fb))"
    and "map_of LABEL_ENTITIES rt = Some et"
proof -
  have named: "p \<noteq> []" "data_file_name (last p)" and fb: "fb = utf8 (json_dumps (JArr (map JObj rows)))"
    and mb: "mb = utf8 (json_dumps (manifest_document sha p ss rt day et sv (length rows) fb))"
    and absent: "\<not> list_ex (path_exists view) (delivery_paths p)"
    and parsed: "\<exists>m. parse_source_manifest loads date_iso mb (last p) = Inr m"
    using prep by (auto simp: prepare_source_def source_file_paths_def json_bytes_def delivery_paths_def result_simps lift_error_def
        split: sum.splits)
  show "p \<noteq> [] \<and> data_file_name (last p)" using named by simp
  show "view q = None" if "q \<in> set (delivery_paths p)" using absent that by (auto simp: list_ex_iff path_exists_def)
  show data: "strict_json loads fb = Inr (sort_keys (JArr (map JObj rows)))" using law(1) unfolding fb reads_back_def .
  show "strict_json loads mb = Inr (JObj (manifest_fields sha p ss rt day et sv (length rows) fb))"
    using law(2) unfolding mb reads_back_def manifest_document_fields .
  obtain m where m: "parse_source_manifest loads date_iso mb (last p) = Inr m" using parsed by blast
  note facts = parsed_manifest[OF m[unfolded mb] law(2)]
  show "map_of LABEL_ENTITIES rt = Some et" by (rule facts(6))
  have "check_source sha loads m fb = Inr (map sorted_row rows)"
    using data facts(2,3) by (simp add: check_source_def require_def object_list_rows del: sort_keys.simps)
  with m facts(1,2,7) show "\<exists>m. parse_source_manifest loads date_iso mb (last p) = Inr m \<and> check_source sha loads m fb = Inr (map sorted_row rows)
      \<and> sm_schema_version m = sv \<and> sm_row_count m = length rows \<and> report_date_of date_iso (JStr (isoformat day)) = Inr (sm_report_date m)"
    by blast
qed

lemma prepared_gate:
  assumes prep: "prepare_source sha loads date_iso p rows ss rt (PlainDate day) et sv view = Inr (fb, mb)"
    and law: "reads_back loads (JArr (map JObj rows))" "reads_back loads (manifest_document sha p ss rt day et sv (length rows) fb)"
    and files: "v p = Some (FileNode fb)" "v (manifest_path p) = Some (FileNode mb)"
      "v (part_path p) = None" "v (part_path (manifest_path p)) = None"
  shows "if sv \<in> set supported
      then \<exists>r. inspect_source_file sha loads date_iso supported (\<lambda>_. v) p
          = Inr \<lparr>gr_state = GATE_READY, gr_reason = ''VERIFIED'', gr_ready = Some r\<rparr>
        \<and> rs_data_path r = p \<and> rs_manifest_path r = manifest_path p \<and> rs_records r = map sorted_row rows
        \<and> rs_file_bytes r = fb \<and> rs_manifest_bytes r = mb \<and> sm_row_count (rs_manifest r) = length rows
      else inspect_source_file sha loads date_iso supported (\<lambda>_. v) p = gate_outcome GATE_REJECTED ''UNSUPPORTED_SCHEMA_VERSION''"
proof -
  note facts = prepared_source[OF prep law]
  obtain m where m: "parse_source_manifest loads date_iso mb (last p) = Inr m" "check_source sha loads m fb = Inr (map sorted_row rows)"
    "sm_schema_version m = sv" "sm_row_count m = length rows" using facts(1) by blast
  show ?thesis using facts(2) m files
    by (simp add: inspect_source_file_def source_file_paths_def require_def path_exists_def is_file_def)
qed

text \<open>The durable ingestion accepts the same delivery when its labels are those of the report.\<close>

lemma prepared_verifies:
  assumes prep: "prepare_source sha loads date_iso p rows (source_system_name (REPORT_SOURCES rt)) (report_type_name rt)
      (PlainDate day) et ''1'' view = Inr (fb, mb)"
    and law: "reads_back loads (JArr (map JObj rows))"
      "reads_back loads (manifest_document sha p (source_system_name (REPORT_SOURCES rt)) (report_type_name rt) day et ''1'' (length rows) fb)"
    and files: "v p = Some (FileNode fb)" "v (manifest_path p) = Some (FileNode mb)"
      "v (part_path p) = None" "v (part_path (manifest_path p)) = None"
    and inbox: "resolve source_path = p" "resolve inbox_root = root" "take (length root) p = root" "p \<noteq> root"
  shows "\<exists>d. verify_delivery sha loads date_iso resolve (\<lambda>_. v) source_path inbox_root = Inr (Some d)
    \<and> vd_records d = map sorted_row rows \<and> vd_report_type d = rt \<and> vd_data_bytes d = fb \<and> vd_manifest_bytes d = mb \<and> vd_path d = p"
proof -
  note facts = prepared_source[OF prep law]
  obtain day' where day: "report_date_of date_iso (JStr (isoformat day)) = Inr day'" using facts(1) by blast
  have et: "et = entity_type_value (REPORT_ENTITIES rt)" by (rule label_entity[OF facts(6)])
  let ?f = "manifest_fields sha p (source_system_name (REPORT_SOURCES rt)) (report_type_name rt) day et ''1'' (length rows) fb"
  have "\<exists>d. check_delivery sha loads date_iso p relative fb mb = Inr d \<and> vd_records d = map sorted_row rows \<and> vd_report_type d = rt"
    for relative
    unfolding check_delivery_def facts(4,5) Let_def bind_result_simps sections_of_def json.case manifest_lookup option.sel
    by (simp add: require_def manifest_lookup object_list_rows nonneg_int_def enum_member_name et day del: sort_keys.simps)
  then obtain d where d: "check_delivery sha loads date_iso p (join_path (drop (length root) p)) fb mb = Inr d"
    "vd_records d = map sorted_row rows" "vd_report_type d = rt" by blast
  have "verify_delivery sha loads date_iso resolve (\<lambda>_. v) source_path inbox_root = Inr (Some d)"
    using facts(2) d(1) files inbox
    by (simp add: verify_delivery_def require_def temporary_paths_def path_exists_def is_file_def read_bytes_def)
  with d check_delivery_facts(1,3,4)[OF d(1)] show ?thesis by blast
qed

end
