(* ===== verification/Source_Properties.thy ===== *)
theory Source_Properties
  imports Source_Gate Ingestion_Sample
begin

text \<open>
  Properties of the file protocol: consumers only see whole deliveries, and what is published can be ingested.
\<close>

subsection \<open>Properties\<close>

text \<open>C11: However many producers of one filename interleave, and wherever each of them stops: a delivery that either gate
  lets through is the complete data and manifest of one producer that published both, and it is the only producer
  that ever will.  The looks of a gate may be spread over any part of the run.\<close>

theorem gates_see_whole_deliveries:
  assumes name: "data_file_name (last p)"
    and start: "\<forall>q \<in> set (delivery_paths p). v q = None"
    and reached: "(inbox_step p contents)\<^sup>*\<^sup>* (inbox_start contents v) (run 0)"
    and later: "\<forall>k < 6. (inbox_step p contents)\<^sup>*\<^sup>* (run k) (run (Suc k))"
  shows "(\<forall>g r. inspect_source_file sha loads date_iso supported (snd \<circ> run) p = Inr g \<and> gr_ready g = Some r \<longrightarrow>
      (\<exists>i < length contents. contents ! i = (rs_file_bytes r, rs_manifest_bytes r) \<and> fst (run 2) ! i = P_DONE
        \<and> (\<forall>s j. (inbox_step p contents)\<^sup>*\<^sup>* (run 2) s \<and> j < length contents \<and> fst s ! j = P_DONE \<longrightarrow> j = i)))
    \<and> (\<forall>d source_path. verify_delivery sha loads date_iso resolve (snd \<circ> run) source_path inbox_root = Inr (Some d)
        \<and> resolve source_path = p \<longrightarrow>
      (\<exists>i < length contents. contents ! i = (vd_data_bytes d, vd_manifest_bytes d) \<and> fst (run 1) ! i = P_DONE))"
proof -
  have r0: "inbox_reached p contents (run 0)"
    using producers.later[OF reached] inbox_ok_start[of p v contents] start name by (simp add: inbox_reached_def)
  have six: "producers.observes p contents run 6" using r0 later by (simp add: producers.observes_def)
  have four: "producers.observes p contents run 4" using r0 later by (simp add: producers.observes_def)
  have only: "j = i"
    if "(inbox_step p contents)\<^sup>*\<^sup>* (run 2) s" "j < length contents" "fst s ! j = P_DONE"
      and i: "i < length contents" "fst (run 2) ! i = P_DONE" for s i j
  proof -
    have ok: "inbox_ok p contents (run 2)" using producers.observed_good[OF six, of 2] by (simp add: inbox_reached_def)
    have "delivery_published contents (run 2) (contents ! i)"
      using i ok by (auto simp: delivery_published_def inbox_ok_def split: prod.splits)
    have ok': "inbox_ok p contents s" by (rule inbox_steps_ok[OF that(1) ok name])
    have stays: "fst s ! i = P_DONE"
      using that(1)
    proof (induction rule: rtranclp_induct)
      case (step y z)
      from step(2,3) show ?case
      proof (cases rule: inbox_step.cases)
        case (producer_moves k pcs w pc' w')
        then have "k \<noteq> i" using step(3) done_stays by (metis fst_conv)
        then show ?thesis using producer_moves step(3) by simp
      qed simp
    qed (rule i(2))
    show "j = i" using ok' stays that(2,3) i(1)
      by (auto simp: inbox_ok_def cleared_def published_data_def split: prod.splits)
  qed
  have first: "\<exists>i < length contents. contents ! i = (rs_file_bytes r, rs_manifest_bytes r) \<and> fst (run 2) ! i = P_DONE
      \<and> (\<forall>s j. (inbox_step p contents)\<^sup>*\<^sup>* (run 2) s \<and> j < length contents \<and> fst s ! j = P_DONE \<longrightarrow> j = i)"
    if "inspect_source_file sha loads date_iso supported (snd \<circ> run) p = Inr g" "gr_ready g = Some r" for g r
    using producers.gate_ready[OF six that] only unfolding delivery_published_def by metis
  have second: "\<exists>i < length contents. contents ! i = (vd_data_bytes d, vd_manifest_bytes d) \<and> fst (run 1) ! i = P_DONE"
    if "verify_delivery sha loads date_iso resolve (snd \<circ> run) source_path inbox_root = Inr (Some d)" "resolve source_path = p"
    for d source_path
    using producers.verified_published[OF four that] unfolding delivery_published_def by metis
  show ?thesis using first second by blast
qed



subsection \<open>A published delivery\<close>

definition inbox_rows :: "(string \<times> raw_json) list" where
  "inbox_rows = [(''checksum_sha256'', RawString (replicate 64 CHR ''0'')), (''entity_type'', RawString ''ORDER''),
     (''filename'', RawString ''orders.json''), (''report_date'', RawString (isoformat 730000)), (''report_type'', RawString ''ORDERS''),
     (''row_count'', RawInt 0), (''schema_version'', RawString ''1''), (''source_system'', RawString ''THREADLINE_SHOP'')]"

definition inbox_loads :: "string \<Rightarrow> raw_json option" where
  "inbox_loads s = Some (if s = ''[]'' then RawArray [] else RawObject inbox_rows)"

definition inbox_view :: file_view where
  "inbox_view q = (if q = [''inbox''] then Some DirNode else None)"

definition inbox_digest :: "string \<Rightarrow> string" where
  "inbox_digest s = replicate 64 CHR ''0''"

definition inbox_manifest :: string where
  "inbox_manifest = utf8 (json_dumps (manifest_document inbox_digest [''inbox'', ''orders.json''] ''THREADLINE_SHOP'' ''ORDERS'' 730000
     ''ORDER'' ''1'' 0 ''[]''))"

lemma inbox_prepared:
  "prepare_source inbox_digest inbox_loads (\<lambda>_. Some 730000) [''inbox'', ''orders.json''] [] ''THREADLINE_SHOP'' ''ORDERS''
     (PlainDate 730000) ''ORDER'' ''1'' inbox_view = Inr (''[]'', inbox_manifest)"
  by code_simp

lemma inbox_reads_back:
  "reads_back inbox_loads (JArr (map JObj []))"
  "reads_back inbox_loads (manifest_document inbox_digest [''inbox'', ''orders.json''] ''THREADLINE_SHOP'' ''ORDERS'' 730000
     ''ORDER'' ''1'' (length ([] :: payload list)) ''[]'')"
  unfolding reads_back_def by code_simp+

lemma inbox_written:
  "\<exists>v' h'. publish_source_file inbox_digest inbox_loads (\<lambda>_. Some 730000) calm_hook None [''inbox'', ''orders.json''] []
     ''THREADLINE_SHOP'' ''ORDERS'' (PlainDate 730000) ''ORDER'' ''1'' inbox_view 0 = (Inr [''inbox'', ''orders.manifest.json''], v', h')"
proof -
  have "fst (publish_source_file inbox_digest inbox_loads (\<lambda>_. Some 730000) calm_hook None [''inbox'', ''orders.json''] []
     ''THREADLINE_SHOP'' ''ORDERS'' (PlainDate 730000) ''ORDER'' ''1'' inbox_view 0) = Inr [''inbox'', ''orders.manifest.json'']"
    by code_simp
  then show ?thesis by (metis prod.collapse)
qed


theorem gates_see_whole_deliveries_witness:
  "\<exists>s g r. (inbox_step [''inbox'', ''orders.json''] [(''[]'', inbox_manifest)])\<^sup>*\<^sup>* (inbox_start [(''[]'', inbox_manifest)] inbox_view) s
    \<and> inspect_source_file inbox_digest inbox_loads (\<lambda>_. Some 730000) SUPPORTED_SCHEMA_VERSIONS (\<lambda>_. snd s) [''inbox'', ''orders.json''] = Inr g
    \<and> gr_ready g = Some r \<and> (''[]'', inbox_manifest) = (rs_file_bytes r, rs_manifest_bytes r) \<and> fst s ! 0 = P_DONE"
proof -
  let ?p = "[''inbox'', ''orders.json'']" and ?c = "[(''[]'', inbox_manifest)]"
  obtain v' h' where w: "publish_source_file inbox_digest inbox_loads (\<lambda>_. Some 730000) calm_hook None ?p []
     ''THREADLINE_SHOP'' ''ORDERS'' (PlainDate 730000) ''ORDER'' ''1'' inbox_view 0 = (Inr [''inbox'', ''orders.manifest.json''], v', h')"
    using inbox_written by blast
  then have written: "write_source calm_hook None ?p ''[]'' inbox_manifest inbox_view 0 = (Inr [''inbox'', ''orders.manifest.json''], v', h')"
    by (simp add: publish_source_file_def inbox_prepared)
  note facts = prepared_source[OF inbox_prepared inbox_reads_back]
  have name: "data_file_name (last ?p)" using facts(2) by simp
  have free: "\<forall>q \<in> set (delivery_paths ?p). inbox_view q = None" using facts(3) by blast
  obtain pc where pc: "reaches_view ?p ''[]'' inbox_manifest inbox_view pc v'"
    "v' = inbox_view(part_path ?p := None, ?p \<mapsto> FileNode ''[]'', part_path (manifest_path ?p) := None, manifest_path ?p \<mapsto> FileNode inbox_manifest)"
    using write_source_reaches[OF written facts(3) name] by blast
  have start: "inbox_start ?c inbox_view = ([P_CHECKING 0], inbox_view)" by (simp add: inbox_start_def)
  have reached: "(inbox_step ?p ?c)\<^sup>*\<^sup>* (inbox_start ?c inbox_view) ([pc], v')"
    unfolding start using pc(1) unfolding reaches_view_def by (rule producer_in_inbox)
  have "distinct (delivery_paths ?p)" by (rule delivery_paths_distinct[OF name])
  then have "v' ?p = Some (FileNode ''[]'')" "v' (manifest_path ?p) = Some (FileNode inbox_manifest)" "v' (part_path ?p) = None"
      "v' (part_path (manifest_path ?p)) = None" unfolding pc(2) delivery_paths_def by auto
  from prepared_gate[OF inbox_prepared inbox_reads_back this, of SUPPORTED_SCHEMA_VERSIONS] obtain g r where g:
    "inspect_source_file inbox_digest inbox_loads (\<lambda>_. Some 730000) SUPPORTED_SCHEMA_VERSIONS (\<lambda>_. v') ?p = Inr g" "gr_ready g = Some r"
    by (auto simp: SUPPORTED_SCHEMA_VERSIONS_def)
  have "\<forall>g r. inspect_source_file inbox_digest inbox_loads (\<lambda>_. Some 730000) SUPPORTED_SCHEMA_VERSIONS (snd \<circ> (\<lambda>_. ([pc], v'))) ?p = Inr g
      \<and> gr_ready g = Some r \<longrightarrow> (\<exists>i < length ?c. ?c ! i = (rs_file_bytes r, rs_manifest_bytes r) \<and> fst ([pc], v') ! i = P_DONE
        \<and> (\<forall>s j. (inbox_step ?p ?c)\<^sup>*\<^sup>* ([pc], v') s \<and> j < length ?c \<and> fst s ! j = P_DONE \<longrightarrow> j = i))"
    by (rule gates_see_whole_deliveries[where run = "\<lambda>_. ([pc], v')" and contents = ?c, OF name free reached, THEN conjunct1]) simp
  with g have "(''[]'', inbox_manifest) = (rs_file_bytes r, rs_manifest_bytes r) \<and> fst ([pc], v') ! 0 = P_DONE" by (auto simp: comp_def)
  with reached g show ?thesis by (metis snd_conv)
qed

end
