(* ===== verification/Archival.thy ===== *)
theory Archival
  imports Recovery_Composition
begin

text \<open>
  Archival of committed source files (archival.py): the operations on the file system with their faults, the
  installation of a verified object, the restoration of the source, and the whole attempt with its three transactions.
\<close>

subsection \<open>Operations on the file system\<close>

text \<open>
  An operation takes the file system and the state of the hook and returns a result or an error with both.  The
  file systems it has been through are kept, so that what a crash leaves behind can be stated.
\<close>

datatype archive_error =
    BatchUnknown
  | BatchNotCommitted
  | SourcePathChanged
  | SourcePathNeeded
  | ArchivePathDiffers
  | PathNotInside
  | ArchiveTypeUnknown string
  | ArchiveChecksumMalformed
  | EvidenceFileMissing path
  | ChecksumDiffers path
  | DirectoryExpected path
  | NoTemporaryName
  | ArchiveHookRaised string
  | ArchiveSystemFault string
  | ArchiveTableRaised table_error
  | ArchiveCommitFailed

record 'h archive_io =
  io_view :: file_view
  io_seen :: "file_view list"
  io_hook :: 'h

type_synonym ('h, 'a) archive_op = "'h archive_io \<Rightarrow> (archive_error + 'a) \<times> 'h archive_io"

text \<open>
  The environment of an attempt: the service's hook, the system calls that fail (also a hook, asked by the name of the
  call), the bytes a failing copy still writes, and the random parts \<open>mkstemp\<close> tries in turn.
\<close>

record 'h archive_env =
  ae_hook :: "'h failure_hook"
  ae_system :: "'h failure_hook"
  ae_copied :: nat
  ae_names :: "string list"

definition io_return :: "'a \<Rightarrow> ('h, 'a) archive_op" where
  "io_return x s = (Inr x, s)"

definition io_fail :: "archive_error \<Rightarrow> ('h, 'a) archive_op" where
  "io_fail e s = (Inl e, s)"

definition io_bind :: "('h, 'a) archive_op \<Rightarrow> ('a \<Rightarrow> ('h, 'b) archive_op) \<Rightarrow> ('h, 'b) archive_op" where
  "io_bind m f s = (case m s of (Inl e, s') \<Rightarrow> (Inl e, s') | (Inr x, s') \<Rightarrow> f x s')"

definition io_check :: "bool \<Rightarrow> archive_error \<Rightarrow> ('h, unit) archive_op" where
  "io_check b e = (if b then io_return () else io_fail e)"

definition look :: "(file_view \<Rightarrow> 'a) \<Rightarrow> ('h, 'a) archive_op" where
  "look f s = (Inr (f (io_view s)), s)"

definition change_view :: "(file_view \<Rightarrow> file_view) \<Rightarrow> ('h, unit) archive_op" where
  "change_view f s = (Inr (), s\<lparr>io_view := f (io_view s), io_seen := io_seen s @ [io_view s]\<rparr>)"

definition system_call :: "'h archive_env \<Rightarrow> string \<Rightarrow> ('h, unit) archive_op" where
  "system_call env name s = (case ae_system env (io_hook s) name of
     (Inl e, h) \<Rightarrow> (Inl (ArchiveSystemFault e), s\<lparr>io_hook := h\<rparr>)
   | (Inr _, h) \<Rightarrow> (Inr (), s\<lparr>io_hook := h\<rparr>))"

definition visit_hook :: "'h failure_hook \<Rightarrow> string \<Rightarrow> ('h, unit) archive_op" where
  "visit_hook hook point s = (case hook (io_hook s) point of
     (Inl e, h) \<Rightarrow> (Inl (ArchiveHookRaised e), s\<lparr>io_hook := h\<rparr>)
   | (Inr _, h) \<Rightarrow> (Inr (), s\<lparr>io_hook := h\<rparr>))"

definition file_content :: "file_view \<Rightarrow> path \<Rightarrow> string" where
  "file_content v p = (case v p of Some (FileNode content) \<Rightarrow> content | _ \<Rightarrow> [])"

definition sha256_file :: "(string \<Rightarrow> string) \<Rightarrow> 'h archive_env \<Rightarrow> path \<Rightarrow> ('h, string) archive_op" where
  "sha256_file sha env p =
     io_bind (look (\<lambda>v. is_file v p)) (\<lambda>regular.
     io_bind (io_check regular (EvidenceFileMissing p)) (\<lambda>_.
     io_bind (system_call env ''read'') (\<lambda>_. look (\<lambda>v. sha (file_content v p)))))"

definition verify_checksum :: "(string \<Rightarrow> string) \<Rightarrow> 'h archive_env \<Rightarrow> path \<Rightarrow> string \<Rightarrow> ('h, unit) archive_op" where
  "verify_checksum sha env p expected =
     io_bind (sha256_file sha env p) (\<lambda>actual. io_check (actual = expected) (ChecksumDiffers p))"

text \<open>Missing parents are created from the top, each with its directory entry synced; the root directory exists.\<close>

fun durable_mkdir :: "'h archive_env \<Rightarrow> path \<Rightarrow> ('h, unit) archive_op" where
  "durable_mkdir env p =
     io_bind (look (\<lambda>v. v p)) (\<lambda>node. case node of
       Some DirNode \<Rightarrow> io_return ()
     | Some (FileNode _) \<Rightarrow> io_fail (DirectoryExpected p)
     | None \<Rightarrow> if p = [] then io_fail (DirectoryExpected p)
         else io_bind (durable_mkdir env (butlast p)) (\<lambda>_.
           io_bind (system_call env ''mkdir'') (\<lambda>_.
           io_bind (look (\<lambda>v. v p)) (\<lambda>made. case made of
             Some DirNode \<Rightarrow> io_return ()
           | Some (FileNode _) \<Rightarrow> io_fail (ArchiveSystemFault ''mkdir'')
           | None \<Rightarrow> io_bind (change_view (\<lambda>v. v(p \<mapsto> DirNode))) (\<lambda>_.
               io_bind (system_call env ''fsync'') (\<lambda>_. system_call env ''fsync''))))))"

declare durable_mkdir.simps [simp del]

definition temporary_name :: "string \<Rightarrow> string \<Rightarrow> string" where
  "temporary_name checksum r = ''.'' @ checksum @ ''.'' @ r @ ''.tmp''"

text \<open>\<open>tempfile.mkstemp\<close>: the first free name, created exclusively.\<close>

definition make_temporary :: "'h archive_env \<Rightarrow> path \<Rightarrow> string \<Rightarrow> ('h, path) archive_op" where
  "make_temporary env directory checksum =
     io_bind (system_call env ''mkstemp'') (\<lambda>_.
     io_bind (look (\<lambda>v. List.find (\<lambda>q. v q = None) (map (\<lambda>r. directory @ [temporary_name checksum r]) (ae_names env)))) (\<lambda>free.
       case free of None \<Rightarrow> io_fail NoTemporaryName
       | Some q \<Rightarrow> io_bind (change_view (\<lambda>v. v(q \<mapsto> FileNode []))) (\<lambda>_. io_return q)))"

text \<open>
  \<open>shutil.copyfileobj\<close>: the target holds every prefix in turn; a copy that fails has written some bytes.
\<close>

definition copied_prefixes :: "path \<Rightarrow> string \<Rightarrow> file_view \<Rightarrow> file_view list" where
  "copied_prefixes q content v = map (\<lambda>n. v(q \<mapsto> FileNode (take n content))) [0..<Suc (length content)]"

definition copy_file :: "'h archive_env \<Rightarrow> path \<Rightarrow> path \<Rightarrow> ('h, unit) archive_op" where
  "copy_file env source target =
     io_bind (system_call env ''open'') (\<lambda>_.
     io_bind (look (\<lambda>v. is_file v source)) (\<lambda>regular.
     io_bind (io_check regular (ArchiveSystemFault ''open'')) (\<lambda>_.
     io_bind (look (\<lambda>v. file_content v source)) (\<lambda>content s.
       (case system_call env ''copy'' s of
          (Inl e, s') \<Rightarrow> (Inl e, s'\<lparr>io_view := (io_view s')(target \<mapsto> FileNode (take (ae_copied env) content)),
             io_seen := io_seen s' @ io_view s' # copied_prefixes target (take (ae_copied env) content) (io_view s')\<rparr>)
        | (Inr _, s') \<Rightarrow> (Inr (), s'\<lparr>io_view := (io_view s')(target \<mapsto> FileNode content),
             io_seen := io_seen s' @ io_view s' # copied_prefixes target content (io_view s')\<rparr>))))))"

definition replace_file :: "'h archive_env \<Rightarrow> path \<Rightarrow> path \<Rightarrow> ('h, unit) archive_op" where
  "replace_file env source target =
     io_bind (system_call env ''replace'') (\<lambda>_.
     io_bind (look (\<lambda>v. v source)) (\<lambda>node. case node of
       None \<Rightarrow> io_fail (ArchiveSystemFault ''replace'')
     | Some n \<Rightarrow> change_view (\<lambda>v. v(source := None, target \<mapsto> n))))"

text \<open>The cleanup of a \<open>finally\<close>: a failure to remove the file is only logged.\<close>

definition cleanup_temporary :: "'h archive_env \<Rightarrow> path \<Rightarrow> 'h archive_io \<Rightarrow> 'h archive_io" where
  "cleanup_temporary env q s = (case system_call env ''unlink'' s of
     (Inl _, s') \<Rightarrow> s' | (Inr _, s') \<Rightarrow> snd (change_view (\<lambda>v. v(q := None)) s'))"

definition io_finally :: "('h, 'a) archive_op \<Rightarrow> ('h archive_io \<Rightarrow> 'h archive_io) \<Rightarrow> ('h, 'a) archive_op" where
  "io_finally m last_of s = (case m s of (result, s') \<Rightarrow> (result, last_of s'))"

definition install_temporary ::
  "(string \<Rightarrow> string) \<Rightarrow> 'h archive_env \<Rightarrow> 'h failure_hook \<Rightarrow> path \<Rightarrow> path \<Rightarrow> string \<Rightarrow> path \<Rightarrow> ('h, bool) archive_op" where
  "install_temporary sha env hook source destination checksum temporary =
     io_bind (copy_file env source temporary) (\<lambda>_.
     io_bind (visit_hook hook ''after_copy'') (\<lambda>_.
     io_bind (system_call env ''fsync'') (\<lambda>_.
     io_bind (visit_hook hook ''after_temp_fsync'') (\<lambda>_.
     io_bind (verify_checksum sha env temporary checksum) (\<lambda>_.
     io_bind (visit_hook hook ''after_temp_checksum'') (\<lambda>_.
     io_bind (look (\<lambda>v. path_exists v destination)) (\<lambda>present.
     io_bind (if present then io_bind (verify_checksum sha env destination checksum) (\<lambda>_. io_return True)
         else io_bind (replace_file env temporary destination) (\<lambda>_. io_return False)) (\<lambda>reused.
     io_bind (system_call env ''fsync'') (\<lambda>_.
     io_bind (visit_hook hook ''after_rename'') (\<lambda>_.
     io_bind (verify_checksum sha env destination checksum) (\<lambda>_.
     io_bind (visit_hook hook ''after_final_checksum'') (\<lambda>_. io_return reused))))))))))))"

definition install_verified_object ::
  "(string \<Rightarrow> string) \<Rightarrow> 'h archive_env \<Rightarrow> 'h failure_hook \<Rightarrow> path \<Rightarrow> path \<Rightarrow> string \<Rightarrow> ('h, bool) archive_op" where
  "install_verified_object sha env hook source destination checksum =
     io_bind (look (\<lambda>v. path_exists v destination)) (\<lambda>present.
       if present then
         io_bind (verify_checksum sha env destination checksum) (\<lambda>_.
         io_bind (visit_hook hook ''after_final_checksum'') (\<lambda>_. io_return True))
       else
         io_bind (verify_checksum sha env source checksum) (\<lambda>_.
         io_bind (durable_mkdir env (butlast destination)) (\<lambda>_.
         io_bind (make_temporary env (butlast destination) checksum) (\<lambda>temporary.
           io_finally (install_temporary sha env hook source destination checksum temporary) (cleanup_temporary env temporary)))))"

definition no_failure :: "'h failure_hook" where
  "no_failure h point = (Inr (), h)"

definition restore_source :: "(string \<Rightarrow> string) \<Rightarrow> 'h archive_env \<Rightarrow> path \<Rightarrow> path \<Rightarrow> string \<Rightarrow> ('h, unit) archive_op" where
  "restore_source sha env source destination checksum =
     io_bind (look (\<lambda>v. path_exists v source \<or> \<not> path_exists v destination)) (\<lambda>nothing.
       if nothing then io_return ()
       else io_bind (verify_checksum sha env destination checksum) (\<lambda>_.
         io_bind (install_verified_object sha env no_failure destination source checksum) (\<lambda>_. io_return ())))"

text \<open>The file system work of an attempt, up to the update of the status.\<close>

definition remove_source :: "(string \<Rightarrow> string) \<Rightarrow> 'h archive_env \<Rightarrow> path \<Rightarrow> string \<Rightarrow> ('h, unit) archive_op" where
  "remove_source sha env source checksum =
     io_bind (look (\<lambda>v. path_exists v source)) (\<lambda>present.
       if \<not> present then io_return ()
       else io_bind (verify_checksum sha env source checksum) (\<lambda>_.
         io_bind (system_call env ''unlink'') (\<lambda>_.
         io_bind (change_view (\<lambda>v. v(source := None))) (\<lambda>_. system_call env ''fsync''))))"

definition move_to_archive :: "(string \<Rightarrow> string) \<Rightarrow> 'h archive_env \<Rightarrow> path \<Rightarrow> path \<Rightarrow> string \<Rightarrow> ('h, bool) archive_op" where
  "move_to_archive sha env source destination checksum =
     io_bind (install_verified_object sha env (ae_hook env) source destination checksum) (\<lambda>reused.
     io_bind (remove_source sha env source checksum) (\<lambda>_.
     io_bind (visit_hook (ae_hook env) ''after_source_remove'') (\<lambda>_.
     io_bind (visit_hook (ae_hook env) ''before_status_update'') (\<lambda>_. io_return reused))))"

subsection \<open>The attempt and its batch\<close>

text \<open>
  A relative path text as the components \<open>pathlib\<close> makes of it; the views have no symbolic links, so resolving a path
  without parent components changes nothing.
\<close>

fun split_slash :: "string \<Rightarrow> string list" where
  "split_slash [] = [[]]"
| "split_slash (c # cs) = (if c = CHR ''/'' then [] # split_slash cs
     else (case split_slash cs of [] \<Rightarrow> [[c]] | w # ws \<Rightarrow> (c # w) # ws))"

definition path_parts :: "string \<Rightarrow> path" where
  "path_parts s = filter (\<lambda>w. w \<noteq> [] \<and> w \<noteq> ''.'') (split_slash s)"

definition within_root :: "path \<Rightarrow> string \<Rightarrow> archive_error + path" where
  "within_root root relative =
     bind_result (require (take 1 relative \<noteq> ''/'' \<and> ''..'' \<notin> set (path_parts relative)) PathNotInside) (\<lambda>_.
     bind_result (require (path_parts relative \<noteq> []) PathNotInside) (\<lambda>_. Inr (root @ path_parts relative)))"

definition archive_relative_path :: "string \<Rightarrow> date \<Rightarrow> string \<Rightarrow> archive_error + path" where
  "archive_relative_path report_type day checksum =
     (case (case enum_lookup report_type_name report_type_members report_type of
              Some rt \<Rightarrow> Some rt | None \<Rightarrow> enum_lookup report_type_value report_type_members report_type) of
        None \<Rightarrow> Inl (ArchiveTypeUnknown report_type)
      | Some rt \<Rightarrow> bind_result (require (is_sha256 checksum) ArchiveChecksumMalformed) (\<lambda>_.
          Inr [report_type_name rt, isoformat day, take 2 checksum, checksum @ ''.json'']))"

record archive_roots =
  ar_inbox :: path
  ar_archive :: path

definition make_archive_service :: "path \<Rightarrow> path \<Rightarrow> archive_roots option" where
  "make_archive_service inbox archive =
     (if take (length archive) inbox = archive \<or> take (length inbox) archive = inbox then None
      else Some \<lparr>ar_inbox = inbox, ar_archive = archive\<rparr>)"

record archive_attempt =
  at_source :: string
  at_archive :: string
  at_checksum :: string

definition prepare_attempt ::
  "archive_roots \<Rightarrow> uuid \<Rightarrow> string option \<Rightarrow> instant \<Rightarrow> source_tables \<Rightarrow> archive_error + archive_attempt \<times> source_tables" where
  "prepare_attempt roots i requested now st = (case find_batch i st of
       None \<Rightarrow> Inl BatchUnknown
     | Some b \<Rightarrow>
         bind_result (require (ib_status b = IS_COMMITTED) BatchNotCommitted) (\<lambda>_.
         bind_result (case requested of
             None \<Rightarrow> Inr (ib_source_path b)
           | Some given \<Rightarrow> bind_result (within_root (ar_inbox roots) given) (\<lambda>_.
               bind_result (require (ib_source_path b \<in> {None, Some given}) SourcePathChanged) (\<lambda>_. Inr (Some given)))) (\<lambda>saved.
         case saved of None \<Rightarrow> Inl SourcePathNeeded
         | Some source \<Rightarrow>
         bind_result (within_root (ar_inbox roots) source) (\<lambda>_.
         bind_result (archive_relative_path (ib_report_type b) (ib_report_date b) (ib_file_checksum b)) (\<lambda>relative.
         bind_result (require (ib_archive_path b \<in> {None, Some (join_path relative)}) ArchivePathDiffers) (\<lambda>_.
         bind_result (lift_error ArchiveTableRaised (update_batch i (\<lambda>x. x\<lparr>ib_source_path := Some source,
             ib_archive_path := Some (join_path relative), ib_archive_attempts := ib_archive_attempts x + 1,
             ib_archive_last_attempt := Some now, ib_archive_error := None\<rparr>) st)) (\<lambda>st'.
           Inr (\<lparr>at_source = source, at_archive = join_path relative, at_checksum = ib_file_checksum b\<rparr>, st'))))))))"

text \<open>The two updates of the status; both only touch a committed batch.\<close>

definition mark_archived :: "uuid \<Rightarrow> instant \<Rightarrow> source_tables \<Rightarrow> table_error + source_tables" where
  "mark_archived i now st = update_batch i (\<lambda>b. if ib_status b = IS_COMMITTED then
     b\<lparr>ib_archive_status := AR_ARCHIVED, ib_archived_at := Some (case ib_archived_at b of None \<Rightarrow> now | Some t \<Rightarrow> t),
       ib_archive_error := None\<rparr> else b) st"

definition record_archive_failure :: "uuid \<Rightarrow> string \<Rightarrow> bool \<Rightarrow> source_tables \<Rightarrow> table_error + source_tables" where
  "record_archive_failure i message preserve st = update_batch i (\<lambda>b.
     if ib_status b = IS_COMMITTED \<and> (\<not> preserve \<or> ib_archive_status b \<noteq> AR_ARCHIVED)
     then b\<lparr>ib_archive_status := AR_FAILED, ib_archived_at := None, ib_archive_error := Some (take 4000 message)\<rparr> else b) st"

record archive_outcome =
  ao_batch :: uuid
  ao_path :: path
  ao_checksum :: string
  ao_reused :: bool

text \<open>
  What becomes of the three transactions of an attempt; \<open>describe\<close> is the text of an error with the note of a failed
  restoration.  The tables of the session lock are held throughout.
\<close>

record archive_fates =
  af_prepare :: commit_fate
  af_marker :: commit_fate
  af_failure :: commit_fate

definition handle_archive_failure ::
  "(string \<Rightarrow> string) \<Rightarrow> 'h archive_env \<Rightarrow> (archive_error \<Rightarrow> archive_error option \<Rightarrow> string) \<Rightarrow> commit_fate
     \<Rightarrow> uuid \<Rightarrow> path \<Rightarrow> path \<Rightarrow> string \<Rightarrow> bool \<Rightarrow> archive_error \<Rightarrow> source_tables \<Rightarrow> 'h archive_io
     \<Rightarrow> (archive_error + archive_outcome) \<times> source_tables \<times> 'h archive_io" where
  "handle_archive_failure sha env describe fate i source destination checksum preserve e st s =
     (case restore_source sha env source destination checksum s of (restored, s') \<Rightarrow>
        let message = describe e (case restored of Inl r \<Rightarrow> Some r | Inr _ \<Rightarrow> None)
        in (Inl e, (case record_archive_failure i message preserve st of
              Inl _ \<Rightarrow> st | Inr st' \<Rightarrow> (if fate = CommitRefused then st else st')), s'))"

definition archive_batch ::
  "(string \<Rightarrow> string) \<Rightarrow> 'h archive_env \<Rightarrow> (archive_error \<Rightarrow> archive_error option \<Rightarrow> string) \<Rightarrow> archive_fates \<Rightarrow> archive_roots
     \<Rightarrow> uuid \<Rightarrow> string option \<Rightarrow> instant \<Rightarrow> source_tables \<Rightarrow> 'h archive_io
     \<Rightarrow> (archive_error + archive_outcome) \<times> source_tables \<times> 'h archive_io" where
  "archive_batch sha env describe fates roots i requested now st s =
     (case prepare_attempt roots i requested now st of
        Inl e \<Rightarrow> (Inl e, st, s)
      | Inr (attempt, st1) \<Rightarrow>
     if af_prepare fates = CommitRefused then (Inl ArchiveCommitFailed, st, s)
     else if af_prepare fates = CommitAckLost then (Inl ArchiveCommitFailed, st1, s)
     else (case within_root (ar_inbox roots) (at_source attempt) of Inl e \<Rightarrow> (Inl e, st1, s) | Inr source \<Rightarrow>
     (case within_root (ar_archive roots) (at_archive attempt) of Inl e \<Rightarrow> (Inl e, st1, s) | Inr destination \<Rightarrow>
       let checksum = at_checksum attempt;
           failed = handle_archive_failure sha env describe (af_failure fates) i source destination checksum
       in (case move_to_archive sha env source destination checksum s of
         (Inl e, s1) \<Rightarrow> failed False e st1 s1
       | (Inr reused, s1) \<Rightarrow>
           (case mark_archived i now st1 of
              Inl e \<Rightarrow> failed True (ArchiveTableRaised e) st1 s1
            | Inr st2 \<Rightarrow> (case af_marker fates of
                CommitOk \<Rightarrow> (Inr \<lparr>ao_batch = i, ao_path = destination, ao_checksum = checksum, ao_reused = reused\<rparr>, st2, s1)
              | CommitRefused \<Rightarrow> failed True ArchiveCommitFailed st1 s1
              | CommitAckLost \<Rightarrow> failed True ArchiveCommitFailed st2 s1))))))"

end
