(* ===== verification/Archive_Triples.thy ===== *)
theory Archive_Triples
  imports Archival
begin

text \<open>
  Triples of the archive operations over every view they go through, and the contract of installing a verified
  object, met by the move into the archive and by the restoration of the source.
\<close>

subsection \<open>Triples of operations on the file system\<close>

text \<open>
  \<open>triple K P m Q E\<close>: from a view that satisfies \<open>P\<close> the operation ends in a view that satisfies \<open>Q\<close> of its result, or
  \<open>E\<close> if it fails, and every view on the way satisfies \<open>K\<close>: a crash finds one of them.
\<close>

definition triple ::
  "(file_view \<Rightarrow> bool) \<Rightarrow> (file_view \<Rightarrow> bool) \<Rightarrow> ('h, 'a) archive_op \<Rightarrow> ('a \<Rightarrow> file_view \<Rightarrow> bool) \<Rightarrow> (file_view \<Rightarrow> bool) \<Rightarrow> bool" where
  "triple K P m Q E \<longleftrightarrow> (\<forall>s. P (io_view s) \<and> (\<forall>v \<in> set (io_seen s). K v) \<longrightarrow>
     (\<forall>v \<in> set (io_seen (snd (m s))). K v)
     \<and> (case fst (m s) of Inr x \<Rightarrow> Q x (io_view (snd (m s))) | Inl _ \<Rightarrow> E (io_view (snd (m s)))))"

lemma tripleI:
  assumes "\<And>s. P (io_view s) \<Longrightarrow> \<forall>v \<in> set (io_seen s). K v \<Longrightarrow> (\<forall>v \<in> set (io_seen (snd (m s))). K v)
    \<and> (case fst (m s) of Inr x \<Rightarrow> Q x (io_view (snd (m s))) | Inl _ \<Rightarrow> E (io_view (snd (m s))))"
  shows "triple K P m Q E"
  unfolding triple_def using assms by blast

lemma tripleD:
  assumes "triple K P m Q E" and "P (io_view s)" and "\<forall>v \<in> set (io_seen s). K v" and "m s = (r, s')"
  shows "\<forall>v \<in> set (io_seen s'). K v" and "case r of Inr x \<Rightarrow> Q x (io_view s') | Inl _ \<Rightarrow> E (io_view s')"
proof -
  have "snd (m s) = s'" "fst (m s) = r" using assms(4) by simp_all
  then show "\<forall>v \<in> set (io_seen s'). K v" "case r of Inr x \<Rightarrow> Q x (io_view s') | Inl _ \<Rightarrow> E (io_view s')"
    using assms(1-3) unfolding triple_def by metis+
qed

lemma triple_conseq:
  assumes "triple K P' m Q' E'" and "\<And>v. P v \<Longrightarrow> P' v" and "\<And>x v. Q' x v \<Longrightarrow> Q x v" and "\<And>v. E' v \<Longrightarrow> E v"
  shows "triple K P m Q E"
proof (rule tripleI)
  fix s :: "'a archive_io"
  assume s: "P (io_view s)" "\<forall>v \<in> set (io_seen s). K v"
  obtain r s' where m: "m s = (r, s')" by (cases "m s")
  note f = tripleD[OF assms(1) assms(2)[OF s(1)] s(2) m]
  show "(\<forall>v \<in> set (io_seen (snd (m s))). K v)
    \<and> (case fst (m s) of Inr x \<Rightarrow> Q x (io_view (snd (m s))) | Inl _ \<Rightarrow> E (io_view (snd (m s))))"
    using f assms(3,4) by (cases r) (simp_all add: m)
qed

lemma triple_bind:
  assumes "triple K P m R E" and "\<And>x. triple K (R x) (f x) Q E"
  shows "triple K P (io_bind m f) Q E"
  unfolding triple_def
proof (intro allI impI)
  fix s :: "'a archive_io"
  assume s: "P (io_view s) \<and> (\<forall>v \<in> set (io_seen s). K v)"
  obtain r s' where m: "m s = (r, s')" by (cases "m s")
  have first: "(\<forall>v \<in> set (io_seen s'). K v) \<and> (case r of Inr x \<Rightarrow> R x (io_view s') | Inl _ \<Rightarrow> E (io_view s'))"
    using tripleD[OF assms(1) _ _ m] s by blast
  show "(\<forall>v \<in> set (io_seen (snd (io_bind m f s))). K v)
     \<and> (case fst (io_bind m f s) of Inr x \<Rightarrow> Q x (io_view (snd (io_bind m f s))) | Inl _ \<Rightarrow> E (io_view (snd (io_bind m f s))))"
  proof (cases r)
    case (Inl e)
    then show ?thesis using first by (simp add: io_bind_def m)
  next
    case (Inr x)
    obtain r2 s2 where f: "f x s' = (r2, s2)" by (cases "f x s'")
    have "R x (io_view s')" "\<forall>v \<in> set (io_seen s'). K v" using first Inr by simp_all
    from tripleD[OF assms(2)[of x] this f] show ?thesis using Inr by (simp add: io_bind_def m f cong: sum.case_cong)
  qed
qed

lemma io_bind_assoc: "io_bind (io_bind m f) g = io_bind m (\<lambda>x. io_bind (f x) g)"
  by (rule ext) (simp add: io_bind_def split: prod.split sum.split)

lemma triple_return: "(\<And>v. P v \<Longrightarrow> Q x v) \<Longrightarrow> triple K P (io_return x) Q E"
  by (simp add: triple_def io_return_def)

lemma triple_fail: "(\<And>v. P v \<Longrightarrow> E v) \<Longrightarrow> triple K P (io_fail e) Q E"
  by (simp add: triple_def io_fail_def)

lemma triple_check: "(\<And>v. P v \<Longrightarrow> \<not> b \<Longrightarrow> E v) \<Longrightarrow> triple K P (io_check b e) (\<lambda>_ v. b \<and> P v) E"
  by (simp add: triple_def io_check_def io_return_def io_fail_def)

lemma triple_look: "triple K P (look f) (\<lambda>x v. x = f v \<and> P v) E"
  by (simp add: triple_def look_def)

lemma triple_change: "(\<And>v. P v \<Longrightarrow> K v \<and> Q () (f v)) \<Longrightarrow> triple K P (change_view f) Q E"
  by (auto simp: triple_def change_view_def)

lemma triple_system: "(\<And>v. P v \<Longrightarrow> E v) \<Longrightarrow> triple K P (system_call env name) (\<lambda>_. P) E"
  by (auto simp: triple_def system_call_def split: prod.splits sum.splits)

lemma triple_hook: "(\<And>v. P v \<Longrightarrow> E v) \<Longrightarrow> triple K P (visit_hook hook point) (\<lambda>_. P) E"
  by (auto simp: triple_def visit_hook_def split: prod.splits sum.splits)

lemma triple_finally:
  assumes "triple K P m Q' E'" and "\<And>x. triple K (Q' x) (\<lambda>s. (Inr (), last_of s)) (\<lambda>_. Q x) (\<lambda>_. False)"
    and "triple K E' (\<lambda>s. (Inr (), last_of s)) (\<lambda>_. E) (\<lambda>_. False)"
  shows "triple K P (io_finally m last_of) Q E"
  unfolding triple_def
proof (intro allI impI)
  fix s :: "'a archive_io"
  assume s: "P (io_view s) \<and> (\<forall>v \<in> set (io_seen s). K v)"
  obtain r s' where m: "m s = (r, s')" by (cases "m s")
  have first: "(\<forall>v \<in> set (io_seen s'). K v) \<and> (case r of Inr x \<Rightarrow> Q' x (io_view s') | Inl _ \<Rightarrow> E' (io_view s'))"
    using tripleD[OF assms(1) _ _ m] s by blast
  show "(\<forall>v \<in> set (io_seen (snd (io_finally m last_of s))). K v)
     \<and> (case fst (io_finally m last_of s) of Inr x \<Rightarrow> Q x (io_view (snd (io_finally m last_of s)))
        | Inl _ \<Rightarrow> E (io_view (snd (io_finally m last_of s))))"
  proof (cases r)
    case (Inl e)
    have "E' (io_view s')" "\<forall>v \<in> set (io_seen s'). K v" using first Inl by simp_all
    from tripleD[OF assms(3) this refl] show ?thesis using Inl by (simp add: io_finally_def m)
  next
    case (Inr x)
    have "Q' x (io_view s')" "\<forall>v \<in> set (io_seen s'). K v" using first Inr by simp_all
    from tripleD[OF assms(2) this refl] show ?thesis using Inr by (simp add: io_finally_def m)
  qed
qed

lemma triple_if: "(b \<Longrightarrow> triple K P m Q E) \<Longrightarrow> (\<not> b \<Longrightarrow> triple K P m' Q E) \<Longrightarrow> triple K P (if b then m else m') Q E"
  by simp

lemma triple_pre: "triple K P' m Q E \<Longrightarrow> (\<And>v. P v \<Longrightarrow> P' v) \<Longrightarrow> triple K P m Q E"
  by (rule triple_conseq)

lemma triple_fact: "(b \<Longrightarrow> triple K P m Q E) \<Longrightarrow> triple K (\<lambda>v. b \<and> P v) m Q E"
  by (auto simp: triple_def)

subsection \<open>The operations that check and create\<close>

definition has_checksum :: "(string \<Rightarrow> string) \<Rightarrow> file_view \<Rightarrow> path \<Rightarrow> string \<Rightarrow> bool" where
  "has_checksum sha v p c \<longleftrightarrow> is_file v p \<and> sha (file_content v p) = c"

lemma has_checksum_cong: "v p = v' p \<Longrightarrow> has_checksum sha v p c = has_checksum sha v' p c"
  by (simp add: has_checksum_def is_file_def file_content_def)

lemma has_checksum_exists: "has_checksum sha v p c \<Longrightarrow> v p \<noteq> None"
  by (auto simp: has_checksum_def is_file_def split: option.splits)

lemma verify_triple:
  assumes "\<And>v. P v \<Longrightarrow> E v"
  shows "triple K P (verify_checksum sha env p c) (\<lambda>_ v. has_checksum sha v p c \<and> P v) E"
proof -
  let ?regular = "\<lambda>v. is_file v p \<and> P v"
  let ?read = "\<lambda>x v. x = sha (file_content v p) \<and> is_file v p \<and> P v"
  have look: "triple K P (io_bind (look (\<lambda>v. is_file v p)) (\<lambda>regular. io_check regular (EvidenceFileMissing p))) (\<lambda>_. ?regular) E"
  proof (intro triple_bind[OF triple_look])
    fix x
    show "triple K (\<lambda>v. x = is_file v p \<and> P v) (io_check x (EvidenceFileMissing p)) (\<lambda>_. ?regular) E"
      by (rule triple_conseq[OF triple_check[where P = "\<lambda>v. x = is_file v p \<and> P v"]]) (use assms in auto)
  qed
  have read: "triple K ?regular (io_bind (system_call env ''read'') (\<lambda>_. look (\<lambda>v. sha (file_content v p)))) ?read E"
    by (intro triple_bind[OF triple_system] triple_look) (use assms in auto)
  have whole: "triple K P (sha256_file sha env p) ?read E"
    using triple_bind[OF look read] by (simp add: sha256_file_def io_bind_assoc)
  have "triple K (?read x) (io_check (x = c) (ChecksumDiffers p)) (\<lambda>_ v. has_checksum sha v p c \<and> P v) E" for x
    by (rule triple_conseq[OF triple_check[where P = "?read x"]]) (use assms in \<open>auto simp: has_checksum_def\<close>)
  then show ?thesis unfolding verify_checksum_def by (rule triple_bind[OF whole])
qed

text \<open>Directories are only made where nothing was.\<close>

lemma mkdir_triple:
  assumes "\<And>v. P v \<Longrightarrow> K v \<and> E v" and "\<And>v q n. P v \<Longrightarrow> q = take n p \<Longrightarrow> v q = None \<Longrightarrow> P (v(q \<mapsto> DirNode))"
  shows "triple K P (durable_mkdir env p) (\<lambda>_. P) E"
  using assms(2)
proof (induction env p rule: durable_mkdir.induct)
  case (1 env p)
  have made: "triple K (\<lambda>v. made = v p \<and> P v) (case made of Some DirNode \<Rightarrow> io_return ()
      | Some (FileNode _) \<Rightarrow> io_fail (ArchiveSystemFault ''mkdir'')
      | None \<Rightarrow> io_bind (change_view (\<lambda>v. v(p \<mapsto> DirNode))) (\<lambda>_.
          io_bind (system_call env ''fsync'') (\<lambda>_. system_call env ''fsync''))) (\<lambda>_. P) E" for made
  proof (cases made)
    case None
    have "triple K (\<lambda>v. made = v p \<and> P v) (change_view (\<lambda>v. v(p \<mapsto> DirNode))) (\<lambda>_. P) E"
    proof (rule triple_change)
      fix v assume v: "made = v p \<and> P v"
      show "K v \<and> P (v(p \<mapsto> DirNode))" using v None assms(1) by (intro conjI "1.prems"[of v p "length p"]) auto
    qed
    then show ?thesis unfolding None option.case
      by (intro triple_bind[where R = "\<lambda>_. P"] triple_system) (use None assms(1) in auto)
  next
    case (Some n)
    then show ?thesis using assms(1) by (cases n) (auto intro!: triple_return triple_fail)
  qed
  have parent: "triple K P (durable_mkdir env (butlast p)) (\<lambda>_. P) E" if "p \<noteq> []"
  proof (rule "1.IH")
    fix v q n assume v: "P v" "q = take n (butlast p)" "v q = None"
    have "q = take (min n (length p - 1)) p" using v(2) by (simp add: butlast_conv_take)
    from "1.prems"[OF v(1) this v(3)] show "P (v(q \<mapsto> DirNode))" .
  qed (use that in simp_all)
  have "triple K (\<lambda>v. node = v p \<and> P v) (case node of
       Some DirNode \<Rightarrow> io_return () | Some (FileNode _) \<Rightarrow> io_fail (DirectoryExpected p)
     | None \<Rightarrow> if p = [] then io_fail (DirectoryExpected p)
         else io_bind (durable_mkdir env (butlast p)) (\<lambda>_.
           io_bind (system_call env ''mkdir'') (\<lambda>_.
           io_bind (look (\<lambda>v. v p)) (\<lambda>made. case made of
             Some DirNode \<Rightarrow> io_return ()
           | Some (FileNode _) \<Rightarrow> io_fail (ArchiveSystemFault ''mkdir'')
           | None \<Rightarrow> io_bind (change_view (\<lambda>v. v(p \<mapsto> DirNode))) (\<lambda>_.
               io_bind (system_call env ''fsync'') (\<lambda>_. system_call env ''fsync'')))))) (\<lambda>_. P) E" for node
  proof (cases node)
    case None
    show ?thesis unfolding None option.case
    proof (intro triple_if)
      assume "p \<noteq> []"
      then show "triple K (\<lambda>v. None = v p \<and> P v) (io_bind (durable_mkdir env (butlast p)) (\<lambda>_.
           io_bind (system_call env ''mkdir'') (\<lambda>_.
           io_bind (look (\<lambda>v. v p)) (\<lambda>made. case made of
             Some DirNode \<Rightarrow> io_return ()
           | Some (FileNode _) \<Rightarrow> io_fail (ArchiveSystemFault ''mkdir'')
           | None \<Rightarrow> io_bind (change_view (\<lambda>v. v(p \<mapsto> DirNode))) (\<lambda>_.
               io_bind (system_call env ''fsync'') (\<lambda>_. system_call env ''fsync'')))))) (\<lambda>_. P) E"
        by (intro triple_bind[OF triple_pre[OF parent]] triple_bind[OF triple_system] triple_bind[OF triple_look] made)
          (use assms(1) in auto)
    qed (use assms(1) in \<open>auto intro: triple_fail\<close>)
  next
    case (Some n)
    then show ?thesis using assms(1) by (cases n) (auto intro!: triple_return triple_fail)
  qed
  then show ?case by (subst durable_mkdir.simps) (rule triple_bind[OF triple_look])
qed

text \<open>Writing the temporary file: whatever is written there, what is promised of the rest stays.\<close>

definition unmoved :: "path \<Rightarrow> (file_view \<Rightarrow> bool) \<Rightarrow> bool" where
  "unmoved q P \<longleftrightarrow> (\<forall>v node. P v \<longrightarrow> P (v(q := node)))"

lemma unmovedD: "unmoved q P \<Longrightarrow> P v \<Longrightarrow> P (v(q := node))"
  by (simp add: unmoved_def)

lemma temporary_triple:
  assumes "\<And>v. P v \<Longrightarrow> K v \<and> E v"
    and "\<And>v r. P v \<Longrightarrow> v (d @ [temporary_name c r]) = None \<Longrightarrow> R (d @ [temporary_name c r]) (v(d @ [temporary_name c r] \<mapsto> FileNode []))"
  shows "triple K P (make_temporary env d c) R E"
proof -
  let ?free = "\<lambda>v. List.find (\<lambda>q. v q = None) (map (\<lambda>r. d @ [temporary_name c r]) (ae_names env))"
  have "triple K (\<lambda>v. free = ?free v \<and> P v) (case free of None \<Rightarrow> io_fail NoTemporaryName
       | Some q \<Rightarrow> io_bind (change_view (\<lambda>v. v(q \<mapsto> FileNode []))) (\<lambda>_. io_return q)) R E" for free
  proof (cases free)
    case (Some q)
    have "R q (v(q \<mapsto> FileNode []))" if "free = ?free v \<and> P v" for v
    proof -
      have "?free v = Some q" using that Some by simp
      then have "v q = None" "q \<in> set (map (\<lambda>r. d @ [temporary_name c r]) (ae_names env))"
        by (auto simp only: find_Some_iff set_conv_nth mem_Collect_eq)
      then show ?thesis using assms(2) that by auto
    qed
    then show ?thesis unfolding Some option.case
      by (intro triple_bind[OF triple_change[where Q = "\<lambda>_. R q"]] triple_return) (use assms(1) Some in auto)
  qed (use assms(1) in \<open>auto intro!: triple_fail\<close>)
  then show ?thesis unfolding make_temporary_def
    by (intro triple_bind[OF triple_system] triple_bind[OF triple_look]) (use assms(1) in auto)
qed

lemma copy_triple:
  assumes q: "unmoved q P" and P: "\<And>v. P v \<Longrightarrow> K v \<and> E v" and pq: "p \<noteq> q"
  shows "triple K P (copy_file env p q) (\<lambda>_. P) E"
proof -
  have written: "\<forall>v' \<in> set (v # copied_prefixes q content v). K v'" if "P v" for v content
    using that P unmovedD[OF q] by (auto simp: copied_prefixes_def)
  have "triple K (\<lambda>v. content = file_content v p \<and> P v) (\<lambda>s. case system_call env ''copy'' s of
          (Inl e, s') \<Rightarrow> (Inl e, s'\<lparr>io_view := (io_view s')(q \<mapsto> FileNode (take (ae_copied env) content)),
             io_seen := io_seen s' @ io_view s' # copied_prefixes q (take (ae_copied env) content) (io_view s')\<rparr>)
        | (Inr _, s') \<Rightarrow> (Inr (), s'\<lparr>io_view := (io_view s')(q \<mapsto> FileNode content),
             io_seen := io_seen s' @ io_view s' # copied_prefixes q content (io_view s')\<rparr>)) (\<lambda>_. P) E" for content
    using written P unmovedD[OF q] by (auto simp: triple_def system_call_def split: prod.splits sum.splits)
  note copied = this
  have opened: "triple K (\<lambda>v. b = is_file v p \<and> P v) (io_check b (ArchiveSystemFault ''open'')) (\<lambda>_. P) E" for b
    by (rule triple_conseq[OF triple_check[where P = "\<lambda>v. b = is_file v p \<and> P v"]]) (use P in auto)
  show ?thesis unfolding copy_file_def
    by (intro triple_bind[OF triple_system] triple_bind[OF triple_look] triple_bind[OF opened] copied) (use P in auto)
qed

lemma cleanup_triple:
  assumes "unmoved q P" and "\<And>v. P v \<Longrightarrow> K v"
  shows "triple K P (\<lambda>s. (Inr (), cleanup_temporary env q s)) (\<lambda>_. P) (\<lambda>_. False)"
  using assms unmovedD[OF assms(1)]
  by (auto simp: triple_def cleanup_temporary_def change_view_def system_call_def split: prod.splits sum.splits)

subsection \<open>Installing a verified object\<close>

text \<open>
  The contract of an installation from \<open>from\<close> to \<open>dest\<close>: \<open>before\<close> holds when it starts, \<open>ready\<close> once the object is
  known to be missing and its source is verified, \<open>writing q\<close> while the temporary file \<open>q\<close> is written, \<open>placed q\<close> when
  the object is in place, and \<open>after\<close> at the end.  Each must imply \<open>promise\<close>, what a failure leaves, and through it
  \<open>kept\<close>, what every view on the way satisfies.
\<close>

locale verified_install =
  fixes sha :: "string \<Rightarrow> string" and c :: string and source dest :: path
    and kept promise before after ready :: "file_view \<Rightarrow> bool" and writing placed :: "path \<Rightarrow> file_view \<Rightarrow> bool"
  assumes promise_kept: "promise v \<Longrightarrow> kept v"
    and before_promise: "before v \<Longrightarrow> promise v"
    and before_after: "before v \<Longrightarrow> has_checksum sha v dest c \<Longrightarrow> after v"
    and before_ready: "before v \<Longrightarrow> v dest = None \<Longrightarrow> has_checksum sha v source c \<Longrightarrow> ready v"
    and ready_promise: "ready v \<Longrightarrow> promise v"
    and ready_mkdir: "ready v \<Longrightarrow> q = take n (butlast dest) \<Longrightarrow> v q = None \<Longrightarrow> ready (v(q \<mapsto> DirNode))"
    and ready_writing: "ready v \<Longrightarrow> q = butlast dest @ [temporary_name c r] \<Longrightarrow> v q = None \<Longrightarrow> writing q (v(q \<mapsto> FileNode []))"
    and writing_promise: "writing q v \<Longrightarrow> promise v \<and> q \<noteq> source"
    and writing_unmoved: "unmoved q (writing q)"
    and writing_present: "writing q v \<Longrightarrow> v dest \<noteq> None \<Longrightarrow> placed q v"
    and writing_placed: "writing q v \<Longrightarrow> v dest = None \<Longrightarrow> has_checksum sha v q c \<Longrightarrow> placed q (v(q := None, dest := v q))"
    and placed_unmoved: "unmoved q (placed q)"
    and placed_promise: "placed q v \<Longrightarrow> promise v"
    and placed_after: "placed q v \<Longrightarrow> after v"
begin

lemma written:
  "triple kept (writing q) (install_temporary sha env hook source dest c q) (\<lambda>_. placed q) (\<lambda>v. writing q v \<or> placed q v)"
proof -
  let ?E = "\<lambda>v. writing q v \<or> placed q v"
  let ?place = "\<lambda>present. if present then io_bind (verify_checksum sha env dest c) (\<lambda>_. io_return True)
         else io_bind (replace_file env q dest) (\<lambda>_. io_return False)"
  let ?checked = "\<lambda>v. has_checksum sha v q c \<and> writing q v"
  have replaced: "triple kept (\<lambda>v. v dest = None \<and> ?checked v) (replace_file env q dest) (\<lambda>_. placed q) ?E"
  proof -
    let ?P = "\<lambda>v. v dest = None \<and> ?checked v"
    have "triple kept (\<lambda>v. node = v q \<and> ?P v) (case node of None \<Rightarrow> io_fail (ArchiveSystemFault ''replace'')
        | Some n \<Rightarrow> change_view (\<lambda>v. v(q := None, dest \<mapsto> n))) (\<lambda>_. placed q) ?E" for node
    proof (cases node)
      case None
      then show ?thesis by (auto intro: triple_fail)
    next
      case (Some n)
      have "kept v \<and> placed q (v(q := None, dest \<mapsto> n))" if "node = v q \<and> ?P v" for v
        using that Some writing_placed[of q v] writing_promise[of q v] promise_kept[of v] by simp
      then show ?thesis using Some by (auto intro!: triple_change)
    qed
    then show ?thesis unfolding replace_file_def
      by (intro triple_bind[OF triple_system] triple_bind[OF triple_look]) auto
  qed
  have place: "triple kept (\<lambda>v. present = path_exists v dest \<and> ?checked v) (?place present) (\<lambda>_. placed q) ?E" for present
  proof (cases present)
    case True
    have again: "triple kept (placed q) (io_bind (verify_checksum sha env dest c) (\<lambda>_. io_return True)) (\<lambda>_. placed q) ?E"
      by (rule triple_bind[OF verify_triple]) (auto intro: triple_return)
    show ?thesis
      by (simp only: True if_True) (rule triple_pre[OF again], auto simp: path_exists_def intro: writing_present)
  next
    case False
    have again: "triple kept (\<lambda>v. v dest = None \<and> ?checked v) (io_bind (replace_file env q dest) (\<lambda>_. io_return False)) (\<lambda>_. placed q) ?E"
      by (rule triple_bind[OF replaced]) (auto intro: triple_return)
    show ?thesis by (simp only: False if_False) (rule triple_pre[OF again], auto simp: path_exists_def)
  qed
  have last: "triple kept (\<lambda>v. has_checksum sha v dest c \<and> placed q v)
      (io_bind (visit_hook hook ''after_final_checksum'') (\<lambda>_. io_return reused)) (\<lambda>_. placed q) ?E" for reused
    by (rule triple_bind[OF triple_hook]) (auto intro: triple_return)
  have closing: "triple kept (placed q) (io_bind (system_call env ''fsync'') (\<lambda>_.
     io_bind (visit_hook hook ''after_rename'') (\<lambda>_. io_bind (verify_checksum sha env dest c) (\<lambda>_.
     io_bind (visit_hook hook ''after_final_checksum'') (\<lambda>_. io_return reused))))) (\<lambda>_. placed q) ?E" for reused
    by (intro triple_bind[OF triple_system] triple_bind[OF triple_hook] triple_bind[OF verify_triple] last) auto
  show ?thesis
  proof (cases "q = source")
    case True
    then have "\<not> writing q v" for v using writing_promise by blast
    then show ?thesis by (simp add: triple_def)
  next
    case False
    have copied: "triple kept (writing q) (copy_file env source q) (\<lambda>_. writing q) ?E"
      by (rule copy_triple) (use False writing_unmoved writing_promise promise_kept in auto)
    show ?thesis unfolding install_temporary_def
      by (intro triple_bind[OF copied] triple_bind[OF triple_hook[where P = "writing q"]]
          triple_bind[OF triple_system[where P = "writing q"]] triple_bind[OF verify_triple[where P = "writing q"]]
          triple_bind[OF triple_hook[where P = ?checked]] triple_bind[OF triple_look] triple_bind[OF place] closing) auto
  qed
qed

lemma installed:
  "triple kept before (install_verified_object sha env hook source dest c) (\<lambda>_. after) promise"
proof -
  have finished: "triple kept (writing q)
      (io_finally (install_temporary sha env hook source dest c q) (cleanup_temporary env q)) (\<lambda>_. after) promise" for q
  proof (rule triple_finally[OF written])
    show "triple kept (placed q) (\<lambda>s. (Inr (), cleanup_temporary env q s)) (\<lambda>_. after) (\<lambda>_. False)"
      by (rule triple_conseq[OF cleanup_triple[of q "placed q"]]) (use placed_unmoved placed_promise placed_after promise_kept in auto)
    have "unmoved q (\<lambda>v. writing q v \<or> placed q v)" using writing_unmoved[of q] placed_unmoved[of q] by (auto simp: unmoved_def)
    then show "triple kept (\<lambda>v. writing q v \<or> placed q v) (\<lambda>s. (Inr (), cleanup_temporary env q s)) (\<lambda>_. promise) (\<lambda>_. False)"
      by (rule triple_conseq[OF cleanup_triple]) (use writing_promise placed_promise promise_kept in auto)
  qed
  have found: "triple kept (\<lambda>v. v dest \<noteq> None \<and> before v) (io_bind (verify_checksum sha env dest c) (\<lambda>_.
         io_bind (visit_hook hook ''after_final_checksum'') (\<lambda>_. io_return True))) (\<lambda>_. after) promise"
    by (intro triple_bind[OF verify_triple] triple_bind[OF triple_hook] triple_return) (auto intro: before_promise before_after)
  have missing: "triple kept (\<lambda>v. v dest = None \<and> before v) (io_bind (verify_checksum sha env source c) (\<lambda>_.
         io_bind (durable_mkdir env (butlast dest)) (\<lambda>_.
         io_bind (make_temporary env (butlast dest) c) (\<lambda>temporary.
           io_finally (install_temporary sha env hook source dest c temporary) (cleanup_temporary env temporary))))) (\<lambda>_. after) promise"
  proof (intro triple_bind[OF verify_triple])
    have made: "triple kept ready (durable_mkdir env (butlast dest)) (\<lambda>_. ready) promise"
      by (rule mkdir_triple) (use ready_promise ready_mkdir promise_kept in auto)
    have named: "triple kept ready (make_temporary env (butlast dest) c) writing promise"
      by (rule temporary_triple) (use ready_promise ready_writing promise_kept in auto)
    have "triple kept ready (io_bind (durable_mkdir env (butlast dest)) (\<lambda>_.
         io_bind (make_temporary env (butlast dest) c) (\<lambda>temporary.
           io_finally (install_temporary sha env hook source dest c temporary) (cleanup_temporary env temporary)))) (\<lambda>_. after) promise"
      by (intro triple_bind[OF made] triple_bind[OF named] finished)
    then show "triple kept (\<lambda>v. has_checksum sha v source c \<and> v dest = None \<and> before v) (io_bind (durable_mkdir env (butlast dest)) (\<lambda>_.
         io_bind (make_temporary env (butlast dest) c) (\<lambda>temporary.
           io_finally (install_temporary sha env hook source dest c temporary) (cleanup_temporary env temporary)))) (\<lambda>_. after) promise"
      by (rule triple_pre) (auto intro: before_ready)
  qed (use before_promise in auto)
  show ?thesis unfolding install_verified_object_def
  proof (intro triple_bind[OF triple_look] triple_if)
    fix present
    assume present
    then show "triple kept (\<lambda>v. present = path_exists v dest \<and> before v) (io_bind (verify_checksum sha env dest c) (\<lambda>_.
         io_bind (visit_hook hook ''after_final_checksum'') (\<lambda>_. io_return True))) (\<lambda>_. after) promise"
      by (intro triple_pre[OF found]) (auto simp: path_exists_def)
  next
    fix present
    assume "\<not> present"
    then show "triple kept (\<lambda>v. present = path_exists v dest \<and> before v) (io_bind (verify_checksum sha env source c) (\<lambda>_.
         io_bind (durable_mkdir env (butlast dest)) (\<lambda>_.
         io_bind (make_temporary env (butlast dest) c) (\<lambda>temporary.
           io_finally (install_temporary sha env hook source dest c temporary) (cleanup_temporary env temporary))))) (\<lambda>_. after) promise"
      by (intro triple_pre[OF missing]) (auto simp: path_exists_def)
  qed
qed

end

subsection \<open>The promise of an attempt\<close>

text \<open>
  Against the view \<open>v0\<close> an attempt started from: nothing that existed is changed except the source file; the object at
  the destination is what it was or has the checksum; the source is what it was, or the destination has the checksum.
  What is new elsewhere is a directory or a temporary file, and the source is never left with other content, unless it
  is itself named like a temporary file.
\<close>

definition object_path :: "path \<Rightarrow> bool" where
  "object_path p \<longleftrightarrow> p \<noteq> [] \<and> (last p = [] \<or> hd (last p) \<noteq> CHR ''.'')"

definition temporary_path :: "string \<Rightarrow> path \<Rightarrow> bool" where
  "temporary_path c p \<longleftrightarrow> (\<exists>d r. p = d @ [temporary_name c r])"


definition archive_safe :: "(string \<Rightarrow> string) \<Rightarrow> string \<Rightarrow> path \<Rightarrow> path \<Rightarrow> file_view \<Rightarrow> file_view \<Rightarrow> bool" where
  "archive_safe sha c src dst v0 v \<longleftrightarrow>
     (\<forall>p. p \<noteq> src \<longrightarrow> v0 p \<noteq> None \<longrightarrow> v p = v0 p)
     \<and> (v dst = v0 dst \<or> has_checksum sha v dst c)
     \<and> (v src = v0 src \<or> has_checksum sha v dst c)
     \<and> (\<forall>p. v p = v0 p \<or> p = src \<or> p = dst \<or> v p = Some DirNode \<or> temporary_path c p)
     \<and> (object_path src \<longrightarrow> v src = v0 src \<or> v src = None \<or> has_checksum sha v src c)"

definition archived_safe :: "(string \<Rightarrow> string) \<Rightarrow> string \<Rightarrow> path \<Rightarrow> path \<Rightarrow> file_view \<Rightarrow> file_view \<Rightarrow> bool" where
  "archived_safe sha c src dst v0 v \<longleftrightarrow> src \<noteq> dst \<and> src \<noteq> [] \<and> archive_safe sha c src dst v0 v \<and> has_checksum sha v dst c"

lemma temporary_differs: "object_path p \<Longrightarrow> butlast p @ [temporary_name c r] \<noteq> p"
  unfolding object_path_def temporary_name_def by (cases p rule: rev_cases) auto

lemma has_checksum_upd [simp]: "q \<noteq> p \<Longrightarrow> has_checksum sha (v(q := n)) p c = has_checksum sha v p c"
  by (rule has_checksum_cong) simp

lemma temporary_not_object: "temporary_path c p \<Longrightarrow> \<not> object_path p"
  by (auto simp: temporary_path_def object_path_def temporary_name_def)

lemma temporary_pathI: "temporary_path c (d @ [temporary_name c r])"
  unfolding temporary_path_def by blast

lemma archived_safe_fresh:
  assumes "archived_safe sha c src dst v0 v" and "v q = None" and "n = Some DirNode \<and> q \<noteq> src \<or> temporary_path c q"
  shows "archived_safe sha c src dst v0 (v(q := n))"
proof -
  have "q \<noteq> dst" using assms(1,2) has_checksum_exists[of sha v dst c] by (auto simp: archived_safe_def)
  moreover have "q = src \<Longrightarrow> \<not> object_path src" using assms(3) temporary_not_object by blast
  ultimately show ?thesis using assms unfolding archived_safe_def archive_safe_def by auto
qed

text \<open>What holds while the object is on its way.\<close>

definition moving :: "(string \<Rightarrow> string) \<Rightarrow> string \<Rightarrow> path \<Rightarrow> path \<Rightarrow> file_view \<Rightarrow> file_view \<Rightarrow> bool" where
  "moving sha c src dst v0 v \<longleftrightarrow> src \<noteq> dst \<and> src \<noteq> [] \<and> object_path dst \<and> (\<forall>p. p \<noteq> src \<longrightarrow> v0 p \<noteq> None \<longrightarrow> v p = v0 p)
     \<and> v src = v0 src \<and> has_checksum sha v src c \<and> v0 dst = None \<and> v dst = None
     \<and> (\<forall>p. v p = v0 p \<or> p = src \<or> p = dst \<or> v p = Some DirNode \<or> temporary_path c p)"

lemma butlast_take_neq: "p \<noteq> [] \<Longrightarrow> take n (butlast p) \<noteq> p"
  by (cases p rule: rev_cases) (auto dest: arg_cong[of _ _ length])

interpretation archive_move: verified_install sha c src dst
    "archive_safe sha c src dst v0" "archive_safe sha c src dst v0" "\<lambda>v. src \<noteq> dst \<and> src \<noteq> [] \<and> object_path dst \<and> archive_safe sha c src dst v0 v"
    "archived_safe sha c src dst v0" "moving sha c src dst v0"
    "\<lambda>q v. moving sha c src dst v0 v \<and> v0 q = None \<and> q \<noteq> src \<and> q \<noteq> dst \<and> temporary_path c q"
    "\<lambda>q v. archived_safe sha c src dst v0 v \<and> v0 q = None \<and> q \<noteq> src \<and> q \<noteq> dst \<and> temporary_path c q"
  for sha c src dst v0
proof (unfold_locales, goal_cases)
  case (4 v)
  then show ?case by (auto simp: moving_def archive_safe_def dest: has_checksum_exists)
next
  case (6 v q n)
  moreover from this have "q \<noteq> dst" using butlast_take_neq[of dst n] by (auto simp: moving_def object_path_def)
  moreover have "q \<noteq> src" using 6 has_checksum_exists[of sha v src c] by (auto simp: moving_def)
  ultimately show ?case by (auto simp: moving_def)
next
  case (7 v q r)
  moreover from this have "q \<noteq> dst" using temporary_differs[of dst c r] by (auto simp: moving_def)
  moreover have "q \<noteq> src" using 7 has_checksum_exists[of sha v src c] by (auto simp: moving_def)
  ultimately show ?case by (auto simp: moving_def temporary_pathI)
next
  case (11 q v)
  then show ?case
    by (auto simp: moving_def archived_safe_def archive_safe_def has_checksum_def is_file_def file_content_def)
qed (auto simp: archived_safe_def moving_def archive_safe_def unmoved_def dest: has_checksum_exists)

interpretation archive_restore: verified_install sha c dst src
    "archive_safe sha c src dst v0" "archived_safe sha c src dst v0" "archived_safe sha c src dst v0" "archived_safe sha c src dst v0"
    "archived_safe sha c src dst v0"
    "\<lambda>q v. archived_safe sha c src dst v0 v \<and> q \<noteq> dst \<and> (q = src \<or> v0 q = None) \<and> temporary_path c q"
    "\<lambda>q v. archived_safe sha c src dst v0 v \<and> q \<noteq> dst \<and> (q = src \<or> v0 q = None) \<and> temporary_path c q"
  for sha c src dst v0
proof (unfold_locales, goal_cases)
  case (5 v q n)
  then have "q \<noteq> src" using butlast_take_neq[of src n] by (auto simp: archived_safe_def)
  then show ?case using archived_safe_fresh[OF 5(1,3)] by simp
next
  case (6 v q r)
  then have "temporary_path c q" by (simp add: temporary_pathI)
  then show ?case using archived_safe_fresh[of sha c src dst v0 v q] 6 has_checksum_exists[of sha v dst c]
    by (auto simp: archived_safe_def archive_safe_def)
next
  case (8 q)
  have "q = src \<Longrightarrow> \<not> object_path src" if "temporary_path c q" using that temporary_not_object by blast
  then show ?case by (auto simp: unmoved_def archived_safe_def archive_safe_def)
next
  case (10 q v)
  then show ?case
    by (auto simp: archived_safe_def archive_safe_def has_checksum_def is_file_def file_content_def)
qed (auto simp: archived_safe_def)

end
