(* ===== verification/Archive_Attempt.thy ===== *)
theory Archive_Attempt
  imports Archive_Triples
begin

text \<open>
  A whole archive attempt: the promise it keeps, what it does to the tables, and the invariant of database and files.
\<close>

subsection \<open>The file work of an attempt\<close>

lemma removed_triple:
  "triple (archive_safe sha c src dst v0) (archived_safe sha c src dst v0) (remove_source sha env src c)
     (\<lambda>_ v. archived_safe sha c src dst v0 v \<and> v src = None) (archive_safe sha c src dst v0)"
proof -
  let ?K = "archive_safe sha c src dst v0" and ?S = "archived_safe sha c src dst v0"
  let ?removal = "io_bind (verify_checksum sha env src c) (\<lambda>_. io_bind (system_call env ''unlink'') (\<lambda>_.
         io_bind (change_view (\<lambda>v. v(src := None))) (\<lambda>_. system_call env ''fsync'')))"
  have weaken: "?S v \<Longrightarrow> ?K v" for v by (simp add: archived_safe_def)
  have "triple ?K ?S (change_view (\<lambda>v. v(src := None))) (\<lambda>_ v. ?S v \<and> v src = None) ?K"
    by (rule triple_change) (auto simp: archived_safe_def archive_safe_def)
  note change = this
  have removal: "triple ?K ?S ?removal (\<lambda>_ v. ?S v \<and> v src = None) ?K"
    by (intro triple_bind[OF triple_conseq[OF verify_triple[where P = ?S], where P = ?S and Q = "\<lambda>_. ?S" and E = ?K]]
        triple_bind[OF triple_system[where P = ?S]] triple_bind[OF change] triple_system) (auto intro: weaken)
  show ?thesis unfolding remove_source_def
  proof (intro triple_bind[OF triple_look] triple_if)
    fix present assume "\<not> \<not> present"
    then show "triple ?K (\<lambda>v. present = path_exists v src \<and> ?S v) ?removal (\<lambda>_ v. ?S v \<and> v src = None) ?K"
      by (intro triple_pre[OF removal]) auto
  qed (auto intro: triple_return simp: path_exists_def)
qed

lemma moved_triple:
  "triple (archive_safe sha c src dst v0) (\<lambda>v. src \<noteq> dst \<and> src \<noteq> [] \<and> object_path dst \<and> archive_safe sha c src dst v0 v)
     (move_to_archive sha env src dst c)
     (\<lambda>_ v. archived_safe sha c src dst v0 v \<and> v src = None) (archive_safe sha c src dst v0)"
proof -
  let ?K = "archive_safe sha c src dst v0" and ?S = "archived_safe sha c src dst v0"
  show ?thesis unfolding move_to_archive_def
    by (intro triple_bind[OF archive_move.installed] triple_bind[OF removed_triple]
        triple_bind[OF triple_hook[where P = "\<lambda>v. ?S v \<and> v src = None"]] triple_return)
      (auto simp: archived_safe_def)
qed

lemma restored_triple:
  assumes "src \<noteq> dst \<and> src \<noteq> []" and P: "P = archive_safe sha c src dst v0 \<or> P = archived_safe sha c src dst v0"
  shows "triple (archive_safe sha c src dst v0) P (restore_source sha env src dst c) (\<lambda>_. P) P"
proof -
  let ?K = "archive_safe sha c src dst v0" and ?S = "archived_safe sha c src dst v0"
  have weaken: "?S v \<Longrightarrow> P v" and strengthen: "P v \<Longrightarrow> has_checksum sha v dst c \<Longrightarrow> ?S v" for v
    using P assms(1) by (auto simp: archived_safe_def)
  have verified: "triple ?K P (verify_checksum sha env dst c) (\<lambda>_. ?S) P"
    by (rule triple_conseq[OF verify_triple[where P = P]]) (use strengthen in auto)
  have installed: "triple ?K ?S (install_verified_object sha env no_failure dst src c) (\<lambda>_. ?S) P"
    by (rule triple_conseq[OF archive_restore.installed]) (use weaken in auto)
  have "triple ?K P (io_bind (verify_checksum sha env dst c) (\<lambda>_.
         io_bind (install_verified_object sha env no_failure dst src c) (\<lambda>_. io_return ()))) (\<lambda>_. P) P"
    by (intro triple_bind[OF verified] triple_bind[OF installed] triple_return weaken)
  then have copied: "triple ?K (\<lambda>v. b = g v \<and> P v) (io_bind (verify_checksum sha env dst c) (\<lambda>_.
         io_bind (install_verified_object sha env no_failure dst src c) (\<lambda>_. io_return ()))) (\<lambda>_. P) P" for b and g :: "file_view \<Rightarrow> bool"
    by (rule triple_pre) simp
  show ?thesis unfolding restore_source_def
    by (intro triple_bind[OF triple_look] triple_if copied) (auto intro: triple_return)
qed

subsection \<open>The paths of an attempt\<close>

lemma split_slash_ne [simp]: "split_slash s \<noteq> []"
  by (induction s) (auto split: list.split)

lemma split_slash_append: "split_slash (a @ CHR ''/'' # b) = split_slash a @ split_slash b"
proof (induction a)
  case (Cons x a)
  then show ?case by (cases "split_slash a") auto
qed simp

lemma split_slash_plain: "CHR ''/'' \<notin> set s \<Longrightarrow> split_slash s = [s]"
  by (induction s) auto

lemma path_parts_append: "path_parts (a @ CHR ''/'' # b) = path_parts a @ path_parts b"
  by (simp add: path_parts_def split_slash_append)

lemma path_parts_plain: "CHR ''/'' \<notin> set s \<Longrightarrow> s \<noteq> [] \<Longrightarrow> s \<noteq> ''.'' \<Longrightarrow> path_parts s = [s]"
  by (simp add: path_parts_def split_slash_plain)

lemma within_root_Inr:
  "within_root root s = Inr p \<longleftrightarrow> take 1 s \<noteq> ''/'' \<and> ''..'' \<notin> set (path_parts s) \<and> path_parts s \<noteq> [] \<and> p = root @ path_parts s"
  by (auto simp: within_root_def result_simps)

definition archive_object :: "archive_roots \<Rightarrow> ingestion_batch \<Rightarrow> path" where
  "archive_object roots b = (case archive_relative_path (ib_report_type b) (ib_report_date b) (ib_file_checksum b) of
     Inl _ \<Rightarrow> [] | Inr relative \<Rightarrow> ar_archive roots @ path_parts (join_path relative))"

definition attempted_batch :: "string \<Rightarrow> path \<Rightarrow> instant \<Rightarrow> ingestion_batch \<Rightarrow> ingestion_batch" where
  "attempted_batch source relative now b = b\<lparr>ib_source_path := Some source, ib_archive_path := Some (join_path relative),
     ib_archive_attempts := ib_archive_attempts b + 1, ib_archive_last_attempt := Some now, ib_archive_error := None\<rparr>"

lemma prepared_attempt:
  assumes "prepare_attempt roots i requested now st = Inr (a, st1)"
  obtains b relative src where "find_batch i st = Some b" "ib_status b = IS_COMMITTED"
    "archive_relative_path (ib_report_type b) (ib_report_date b) (ib_file_checksum b) = Inr relative"
    "within_root (ar_inbox roots) (at_source a) = Inr src" "at_archive a = join_path relative"
    "at_checksum a = ib_file_checksum b" "ib_source_path b \<in> {None, Some (at_source a)}"
    "ib_archive_path b \<in> {None, Some (join_path relative)}"
    "requested \<in> {None, Some (at_source a)}" "requested = None \<Longrightarrow> ib_source_path b = Some (at_source a)"
    "update_batch i (attempted_batch (at_source a) relative now) st = Inr st1"
proof -
  obtain b where b: "find_batch i st = Some b" using assms by (auto simp: prepare_attempt_def split: option.splits)
  have st: "ib_status b = IS_COMMITTED" using assms by (auto simp: prepare_attempt_def b result_simps)
  have "\<exists>source relative src. within_root (ar_inbox roots) source = Inr src
      \<and> archive_relative_path (ib_report_type b) (ib_report_date b) (ib_file_checksum b) = Inr relative
      \<and> ib_source_path b \<in> {None, Some source} \<and> requested \<in> {None, Some source} \<and> (requested = None \<longrightarrow> ib_source_path b = Some source)
      \<and> ib_archive_path b \<in> {None, Some (join_path relative)}
      \<and> update_batch i (attempted_batch source relative now) st = Inr st1
      \<and> a = \<lparr>at_source = source, at_archive = join_path relative, at_checksum = ib_file_checksum b\<rparr>"
    using assms unfolding prepare_attempt_def attempted_batch_def
    by (cases requested) (auto simp: b result_simps lift_error_Inr split: option.splits)
  with b st show thesis by (auto intro!: that)
qed

lemma archive_relative_last:
  assumes "archive_relative_path t day c = Inr relative"
  shows "\<exists>ps. path_parts (join_path relative) = ps @ [c @ ''.json'']" and "is_sha256 c"
proof -
  have r: "is_sha256 c" "\<exists>n d h. relative = [n, d, h, c @ ''.json'']"
    using assms by (auto simp: archive_relative_path_def result_simps split: option.splits)
  show "is_sha256 c" by (rule r)
  have "CHR ''/'' \<notin> set c" using r(1) by (auto simp: is_sha256_def list_all_iff is_hex_def is_digit_def)
  then have "path_parts (c @ ''.json'') = [c @ ''.json'']" by (intro path_parts_plain) (auto simp: append_eq_Cons_conv)
  then show "\<exists>ps. path_parts (join_path relative) = ps @ [c @ ''.json'']"
    using r(2) by (auto simp: path_parts_append)
qed

lemma archive_object_path:
  assumes "archive_relative_path (ib_report_type b) (ib_report_date b) (ib_file_checksum b) = Inr relative"
  shows "object_path (archive_object roots b)"
proof -
  obtain ps where ps: "path_parts (join_path relative) = ps @ [ib_file_checksum b @ ''.json'']"
    using archive_relative_last(1)[OF assms] by blast
  obtain x xs where c: "ib_file_checksum b = x # xs"
    using archive_relative_last(2)[OF assms] by (cases "ib_file_checksum b") (auto simp: is_sha256_def)
  then have "x \<noteq> CHR ''.''" using archive_relative_last(2)[OF assms] by (auto simp: is_sha256_def is_hex_def is_digit_def)
  moreover have "archive_object roots b = ar_archive roots @ ps @ [ib_file_checksum b @ ''.json'']"
    by (simp add: archive_object_def assms ps)
  ultimately show ?thesis by (simp add: object_path_def c)
qed

lemma service_roots:
  assumes "make_archive_service inbox archive = Some roots"
  shows "ar_inbox roots @ p \<noteq> ar_archive roots @ q"
proof
  assume eq: "ar_inbox roots @ p = ar_archive roots @ q"
  have r: "\<not> (take (length (ar_archive roots)) (ar_inbox roots) = ar_archive roots
      \<or> take (length (ar_inbox roots)) (ar_archive roots) = ar_inbox roots)"
    using assms by (auto simp: make_archive_service_def split: if_splits)
  show False
  proof (cases "length (ar_inbox roots) \<le> length (ar_archive roots)")
    case True
    have "take (length (ar_inbox roots)) (ar_archive roots @ q) = ar_inbox roots" by (simp flip: eq)
    with True r show False by simp
  next
    case False
    have "take (length (ar_archive roots)) (ar_inbox roots @ p) = ar_archive roots" by (simp add: eq)
    with False r show False by simp
  qed
qed

subsection \<open>A whole attempt\<close>

text \<open>
  Everything an attempt does, in one statement: the tables it leaves are those before, those with the attempt noted,
  those with the marker, or those with the failure noted after one of the last two.
\<close>

lemma attempt_cases:
  assumes service: "make_archive_service inbox archive = Some roots"
    and run: "archive_batch sha env describe fates roots i requested now st s = (r, st', s')"
    and seen: "io_seen s = []"
  shows "(s' = s \<and> (\<exists>e. r = Inl e) \<and> (st' = st \<or> (\<exists>a. prepare_attempt roots i requested now st = Inr (a, st'))))
    \<or> (\<exists>a st1 b src dst. prepare_attempt roots i requested now st = Inr (a, st1) \<and> find_batch i st = Some b
      \<and> within_root (ar_inbox roots) (at_source a) = Inr src \<and> dst = archive_object roots b
      \<and> (\<forall>v \<in> insert (io_view s') (set (io_seen s')). archive_safe sha (ib_file_checksum b) src dst (io_view s) v)
      \<and> (case r of
          Inr out \<Rightarrow> archived_safe sha (ib_file_checksum b) src dst (io_view s) (io_view s') \<and> io_view s' src = None
            \<and> mark_archived i now st1 = Inr st' \<and> ao_path out = dst \<and> ao_checksum out = ib_file_checksum b
        | Inl _ \<Rightarrow> (st' = st1 \<or> (\<exists>m. record_archive_failure i m False st1 = Inr st'))
            \<or> (\<exists>st2 m. has_checksum sha (io_view s') dst (ib_file_checksum b)
                \<and> st2 \<in> {st1} \<union> {x. mark_archived i now st1 = Inr x}
                \<and> (st' = st2 \<or> record_archive_failure i m True st2 = Inr st'))))"
proof (cases "prepare_attempt roots i requested now st")
  case (Inl e)
  then show ?thesis using run by (auto simp: archive_batch_def)
next
  case (Inr p)
  obtain a st1 where p: "prepare_attempt roots i requested now st = Inr (a, st1)" using Inr by (cases p) auto
  obtain b relative src where b: "find_batch i st = Some b"
    "archive_relative_path (ib_report_type b) (ib_report_date b) (ib_file_checksum b) = Inr relative"
    "within_root (ar_inbox roots) (at_source a) = Inr src" "at_archive a = join_path relative"
    "at_checksum a = ib_file_checksum b"
    by (rule prepared_attempt[OF p])
  define dst where "dst = archive_object roots b"
  define c where "c = ib_file_checksum b"
  show ?thesis
  proof (cases "af_prepare fates = CommitOk \<and> within_root (ar_archive roots) (at_archive a) = Inr dst")
    case False
    then show ?thesis using run b by (cases "af_prepare fates")
        (auto simp: archive_batch_def p dst_def archive_object_def within_root_Inr split: sum.splits)
  next
    case True
    have "src \<noteq> dst" using b(2,3) service_roots[OF service] by (auto simp: dst_def archive_object_def within_root_Inr)
    then have paths: "src \<noteq> dst \<and> src \<noteq> []" "object_path dst"
      using b(3) archive_object_path[OF b(2)] by (simp_all add: dst_def within_root_Inr)
    obtain m s1 where m: "move_to_archive sha env src dst c s = (m, s1)" by (cases "move_to_archive sha env src dst c s")
    have start: "archive_safe sha c src dst (io_view s) (io_view s)" by (simp add: archive_safe_def)
    have moved: "\<forall>v \<in> set (io_seen s1). archive_safe sha c src dst (io_view s) v"
      "case m of Inr x \<Rightarrow> archived_safe sha c src dst (io_view s) (io_view s1) \<and> io_view s1 src = None
        | Inl _ \<Rightarrow> archive_safe sha c src dst (io_view s) (io_view s1)"
      using tripleD[OF moved_triple _ _ m] start paths seen by auto
    have safe1: "archive_safe sha c src dst (io_view s) (io_view s1)" using moved(2) by (cases m) (auto simp: archived_safe_def)
    obtain x s2 where rs: "restore_source sha env src dst c s1 = (x, s2)" by (cases "restore_source sha env src dst c s1")
    have behind: "\<forall>v \<in> set (io_seen s2). archive_safe sha c src dst (io_view s) v"
      "archive_safe sha c src dst (io_view s) (io_view s2)"
      using tripleD[OF restored_triple[OF paths(1) disjI1[OF refl]] safe1 moved(1) rs] by (cases x; simp)+
    have kept: "has_checksum sha (io_view s2) dst c" if "\<exists>y. m = Inr y"
    proof -
      have "archived_safe sha c src dst (io_view s) (io_view s1)" using that moved(2) by auto
      from tripleD(2)[OF restored_triple[OF paths(1) disjI2[OF refl]] this moved(1) rs] show ?thesis
        by (cases x) (auto simp: archived_safe_def)
    qed
    have outcome: "(r, st', s') = (case m of Inl e \<Rightarrow> handle_archive_failure sha env describe (af_failure fates) i src dst c False e st1 s1
        | Inr reused \<Rightarrow> (case mark_archived i now st1 of
            Inl e \<Rightarrow> handle_archive_failure sha env describe (af_failure fates) i src dst c True (ArchiveTableRaised e) st1 s1
          | Inr st2 \<Rightarrow> (case af_marker fates of
                CommitOk \<Rightarrow> (Inr \<lparr>ao_batch = i, ao_path = dst, ao_checksum = c, ao_reused = reused\<rparr>, st2, s1)
              | CommitRefused \<Rightarrow> handle_archive_failure sha env describe (af_failure fates) i src dst c True ArchiveCommitFailed st1 s1
              | CommitAckLost \<Rightarrow> handle_archive_failure sha env describe (af_failure fates) i src dst c True ArchiveCommitFailed st2 s1)))"
      using run True by (simp add: archive_batch_def p b(3,5) c_def Let_def m[unfolded c_def] eq_commute[of "(r, st', s')"] cong: sum.case_cong commit_fate.case_cong)
    have failed: "\<exists>m. (st' = t \<or> record_archive_failure i m preserve t = Inr st') \<and> s' = s2 \<and> r = Inl e"
      if "(r, st', s') = handle_archive_failure sha env describe (af_failure fates) i src dst c preserve e t s1" for preserve e t
      using that by (auto simp: handle_archive_failure_def rs Let_def split: sum.splits if_splits)
    have "(\<forall>v \<in> insert (io_view s') (set (io_seen s')). archive_safe sha c src dst (io_view s) v)
      \<and> (case r of
          Inr out \<Rightarrow> archived_safe sha c src dst (io_view s) (io_view s') \<and> io_view s' src = None
            \<and> mark_archived i now st1 = Inr st' \<and> ao_path out = dst \<and> ao_checksum out = c
        | Inl _ \<Rightarrow> (st' = st1 \<or> (\<exists>m. record_archive_failure i m False st1 = Inr st'))
            \<or> (\<exists>st2 m. has_checksum sha (io_view s') dst c
                \<and> st2 \<in> {st1} \<union> {x. mark_archived i now st1 = Inr x}
                \<and> (st' = st2 \<or> record_archive_failure i m True st2 = Inr st')))"
    proof (cases m)
      case (Inl e)
      from failed[of False e st1] outcome Inl behind show ?thesis by auto
    next
      case (Inr reused)
      show ?thesis
      proof (cases "\<exists>st2. mark_archived i now st1 = Inr st2 \<and> af_marker fates = CommitOk")
        case True
        then show ?thesis using outcome Inr moved by (auto simp: archived_safe_def)
      next
        case False
        then obtain e t where t: "(r, st', s') = handle_archive_failure sha env describe (af_failure fates) i src dst c True e t s1"
          "t \<in> {st1} \<union> {x. mark_archived i now st1 = Inr x}"
          using outcome Inr by (cases "mark_archived i now st1"; cases "af_marker fates") auto
        from failed[OF t(1)] t(2) behind kept Inr show ?thesis by auto
      qed
    qed
    from this[unfolded c_def] p b(1,3) dst_def show ?thesis
      by - (rule disjI2, rule exI[of _ a], rule exI[of _ st1], rule exI[of _ b], rule exI[of _ src], rule exI[of _ dst], blast)
  qed
qed

subsection \<open>What an attempt does to the tables\<close>

text \<open>Only the archival columns of a batch are written; \<open>archival_core\<close> forgets them.\<close>

definition archival_core :: "ingestion_batch \<Rightarrow> ingestion_batch" where
  "archival_core b = b\<lparr>ib_archive_status := AR_PENDING, ib_archive_path := None, ib_archived_at := None, ib_source_path := None,
     ib_archive_attempts := 0, ib_archive_last_attempt := None, ib_archive_error := None\<rparr>"

definition archival_change :: "uuid \<Rightarrow> (ingestion_batch \<Rightarrow> ingestion_batch) \<Rightarrow> bool" where
  "archival_change i f \<longleftrightarrow> (\<forall>b. archival_core (f b) = archival_core b \<and> (ib_id b \<noteq> i \<longrightarrow> f b = b))"

lemma archival_change_fields:
  assumes "archival_change i f"
  shows "ib_id (f b) = ib_id b" "ib_delivery_key (f b) = ib_delivery_key b" "ib_status (f b) = ib_status b"
    "ib_file_checksum (f b) = ib_file_checksum b" "ib_manifest_checksum (f b) = ib_manifest_checksum b"
    "ib_declared_rows (f b) = ib_declared_rows b" "ib_observed_rows (f b) = ib_observed_rows b"
    "ib_report_type (f b) = ib_report_type b" "ib_report_date (f b) = ib_report_date b"
    "ib_id b \<noteq> i \<Longrightarrow> f b = b"
proof -
  have eq: "archival_core (f b) = archival_core b" and other: "ib_id b \<noteq> i \<Longrightarrow> f b = b"
    using assms by (simp_all add: archival_change_def)
  show "ib_id b \<noteq> i \<Longrightarrow> f b = b" by (rule other)
  show "ib_id (f b) = ib_id b" using arg_cong[OF eq, of ib_id] by (simp add: archival_core_def)
  show "ib_delivery_key (f b) = ib_delivery_key b" using arg_cong[OF eq, of ib_delivery_key] by (simp add: archival_core_def)
  show "ib_status (f b) = ib_status b" using arg_cong[OF eq, of ib_status] by (simp add: archival_core_def)
  show "ib_file_checksum (f b) = ib_file_checksum b" using arg_cong[OF eq, of ib_file_checksum] by (simp add: archival_core_def)
  show "ib_manifest_checksum (f b) = ib_manifest_checksum b" using arg_cong[OF eq, of ib_manifest_checksum] by (simp add: archival_core_def)
  show "ib_declared_rows (f b) = ib_declared_rows b" using arg_cong[OF eq, of ib_declared_rows] by (simp add: archival_core_def)
  show "ib_observed_rows (f b) = ib_observed_rows b" using arg_cong[OF eq, of ib_observed_rows] by (simp add: archival_core_def)
  show "ib_report_type (f b) = ib_report_type b" using arg_cong[OF eq, of ib_report_type] by (simp add: archival_core_def)
  show "ib_report_date (f b) = ib_report_date b" using arg_cong[OF eq, of ib_report_date] by (simp add: archival_core_def)
qed

lemma archival_change_comp: "archival_change i f \<Longrightarrow> archival_change i g \<Longrightarrow> archival_change i (g \<circ> f)"
  by (simp add: archival_change_def)

lemma archival_change_id: "archival_change i id"
  by (simp add: archival_change_def)

lemma update_is_change:
  assumes "update_batch i f st = Inr st'" and "\<And>b. archival_core (f b) = archival_core b"
  shows "archival_change i (\<lambda>b. if ib_id b = i then f b else b)"
    and "st' = st\<lparr>st_batches := map (\<lambda>b. if ib_id b = i then f b else b) (st_batches st)\<rparr>"
  using assms by (auto simp: archival_change_def update_batch_def result_simps)

lemma attempted_core: "archival_core (attempted_batch source relative now b) = archival_core b"
  by (simp add: archival_core_def attempted_batch_def)

definition marked_batch :: "instant \<Rightarrow> ingestion_batch \<Rightarrow> ingestion_batch" where
  "marked_batch now b = (if ib_status b = IS_COMMITTED then
     b\<lparr>ib_archive_status := AR_ARCHIVED, ib_archived_at := Some (case ib_archived_at b of None \<Rightarrow> now | Some t \<Rightarrow> t),
       ib_archive_error := None\<rparr> else b)"

definition failed_batch :: "string \<Rightarrow> bool \<Rightarrow> ingestion_batch \<Rightarrow> ingestion_batch" where
  "failed_batch message preserve b =
     (if ib_status b = IS_COMMITTED \<and> (\<not> preserve \<or> ib_archive_status b \<noteq> AR_ARCHIVED)
      then b\<lparr>ib_archive_status := AR_FAILED, ib_archived_at := None, ib_archive_error := Some (take 4000 message)\<rparr> else b)"

lemma mark_archived_marked: "mark_archived i now = update_batch i (marked_batch now)"
  by (rule ext) (simp add: mark_archived_def marked_batch_def[abs_def])

lemma record_failure_failed: "record_archive_failure i m preserve = update_batch i (failed_batch m preserve)"
  by (rule ext) (simp add: record_archive_failure_def failed_batch_def[abs_def])

lemma marked_core: "archival_core (marked_batch now b) = archival_core b"
  by (simp add: archival_core_def marked_batch_def)

lemma failed_core: "archival_core (failed_batch m preserve b) = archival_core b"
  by (simp add: archival_core_def failed_batch_def)

subsection \<open>Archived batches keep their object\<close>

definition object_present :: "(string \<Rightarrow> string) \<Rightarrow> archive_roots \<Rightarrow> file_view \<Rightarrow> ingestion_batch \<Rightarrow> bool" where
  "object_present sha roots v b \<longleftrightarrow> (\<exists>p. ib_archive_path b = Some p
     \<and> has_checksum sha v (ar_archive roots @ path_parts p) (ib_file_checksum b))"

definition archived_kept :: "(string \<Rightarrow> string) \<Rightarrow> archive_roots \<Rightarrow> source_tables \<Rightarrow> file_view \<Rightarrow> bool" where
  "archived_kept sha roots st v \<longleftrightarrow>
     (\<forall>b \<in> set (st_batches st). ib_archive_status b = AR_ARCHIVED \<longrightarrow> object_present sha roots v b)"

lemma object_kept:
  assumes service: "make_archive_service inbox archive = Some roots" and src: "within_root (ar_inbox roots) text = Inr src"
    and safe: "archive_safe sha c src dst v0 v" and has: "object_present sha roots v0 b"
  shows "object_present sha roots v b"
proof -
  obtain p where p: "ib_archive_path b = Some p" "has_checksum sha v0 (ar_archive roots @ path_parts p) (ib_file_checksum b)"
    using has by (auto simp: object_present_def)
  have "ar_archive roots @ path_parts p \<noteq> src" using src service_roots[OF service] by (metis within_root_Inr)
  then have "v (ar_archive roots @ path_parts p) = v0 (ar_archive roots @ path_parts p)"
    using safe has_checksum_exists[OF p(2)] by (simp add: archive_safe_def)
  from has_checksum_cong[where p = "ar_archive roots @ path_parts p" and v = v and v' = v0, OF this] p show ?thesis by (simp add: object_present_def)
qed

text \<open>What a chain of updates of one batch leaves: the others as they were, and that batch rewritten.\<close>

definition rewritten :: "uuid \<Rightarrow> ingestion_batch \<Rightarrow> ingestion_batch \<Rightarrow> source_tables \<Rightarrow> source_tables \<Rightarrow> bool" where
  "rewritten i b b' st st' \<longleftrightarrow> (\<exists>f. archival_change i f \<and> st' = st\<lparr>st_batches := map f (st_batches st)\<rparr> \<and> b' = f b)"

lemma rewritten_update:
  assumes "rewritten i b b' st st'" and "update_batch i g st' = Inr st''" and "\<And>b. archival_core (g b) = archival_core b"
    and "ib_id b = i"
  shows "rewritten i b (g b') st st''"
proof -
  obtain f where f: "archival_change i f" "st' = st\<lparr>st_batches := map f (st_batches st)\<rparr>" "b' = f b"
    using assms(1) by (auto simp: rewritten_def)
  note u = update_is_change[OF assms(2,3)]
  have "ib_id b' = i" using assms(4) f(1,3) archival_change_fields(1) by metis
  then show ?thesis unfolding rewritten_def
    by (intro exI[of _ "(\<lambda>b. if ib_id b = i then g b else b) \<circ> f"] conjI archival_change_comp[OF f(1) u(1)]) (simp_all add: u(2) f)
qed

lemma rewritten_start: "rewritten i b b st st"
  unfolding rewritten_def by (intro exI[of _ id] conjI archival_change_id) simp_all

lemma rewritten_kept:
  assumes "rewritten i b b' st st'" and b: "find_batch i st = Some b" and ids: "distinct (map ib_id (st_batches st))"
    and kept: "archived_kept sha roots st v"
    and new: "ib_archive_status b' = AR_ARCHIVED \<Longrightarrow> object_present sha roots v b'"
  shows "archived_kept sha roots st' v"
proof -
  obtain f where f: "archival_change i f" "st' = st\<lparr>st_batches := map f (st_batches st)\<rparr>" "b' = f b"
    using assms(1) by (auto simp: rewritten_def)
  have found: "b \<in> set (st_batches st)" "ib_id b = i" using find_member[OF b[unfolded find_batch_def]] by auto
  have fine: "object_present sha roots v (f x)" if x: "x \<in> set (st_batches st)" "ib_archive_status (f x) = AR_ARCHIVED" for x
  proof (cases "ib_id x = i")
    case True
    then have "x = b" using inj_onD[OF inj_on_of_distinct_map[OF ids] _ x(1) found(1)] found(2) by simp
    then show ?thesis using new x(2) f(3) by simp
  next
    case False
    then have "f x = x" using archival_change_fields(10)[OF f(1)] by blast
    then show ?thesis using kept x by (simp add: archived_kept_def)
  qed
  then show ?thesis by (auto simp: archived_kept_def f(2))
qed

lemma attempt_noted:
  assumes p: "prepare_attempt roots i requested now st = Inr (a, t)" and ids: "distinct (map ib_id (st_batches st))"
    and kept: "archived_kept sha roots st v"
  obtains b src relative where "find_batch i st = Some b" "ib_id b = i" "ib_status b = IS_COMMITTED"
    "archive_relative_path (ib_report_type b) (ib_report_date b) (ib_file_checksum b) = Inr relative"
    "within_root (ar_inbox roots) (at_source a) = Inr src"
    "rewritten i b (attempted_batch (at_source a) relative now b) st t" "archived_kept sha roots t v"
    "ib_archive_status b = AR_ARCHIVED \<Longrightarrow> object_present sha roots v (attempted_batch (at_source a) relative now b)"
proof -
  obtain b relative src where b: "find_batch i st = Some b" "ib_status b = IS_COMMITTED"
    "archive_relative_path (ib_report_type b) (ib_report_date b) (ib_file_checksum b) = Inr relative"
    "within_root (ar_inbox roots) (at_source a) = Inr src" "ib_archive_path b \<in> {None, Some (join_path relative)}"
    "update_batch i (attempted_batch (at_source a) relative now) st = Inr t"
    by (rule prepared_attempt[OF p])
  have i: "ib_id b = i" "b \<in> set (st_batches st)" using find_member[OF b(1)[unfolded find_batch_def]] by auto
  have re: "rewritten i b (attempted_batch (at_source a) relative now b) st t"
    by (rule rewritten_update[OF rewritten_start b(6) attempted_core i(1)])
  have old: "object_present sha roots v (attempted_batch (at_source a) relative now b)" if "ib_archive_status b = AR_ARCHIVED"
  proof -
    have "object_present sha roots v b" using that kept i(2) by (simp add: archived_kept_def)
    then show ?thesis using b(5) by (auto simp: object_present_def attempted_batch_def)
  qed
  have "archived_kept sha roots t v"
    by (rule rewritten_kept[OF re b(1) ids kept]) (use old in \<open>simp add: attempted_batch_def\<close>)
  then show thesis using that[OF b(1) i(1) b(2,3,4) re] old by blast
qed

lemma attempt_tables:
  assumes service: "make_archive_service inbox archive = Some roots"
    and run: "archive_batch sha env describe fates roots i requested now st s = (r, st', s')"
    and seen: "io_seen s = []" and ids: "distinct (map ib_id (st_batches st))" and kept: "archived_kept sha roots st (io_view s)"
  shows "(\<exists>f. archival_change i f \<and> st' = st\<lparr>st_batches := map f (st_batches st)\<rparr>) \<and> archived_kept sha roots st' (io_view s')"
  using attempt_cases[OF service run seen]
proof (elim disjE exE conjE, goal_cases)
  case (1 e)
  then show ?case using kept archival_change_id[of i] by (intro conjI exI[of _ id]) auto
next
  case (2 e a)
  from 2(3) show ?case
    by (rule attempt_noted[OF _ ids kept]) (use 2(1) in \<open>auto simp: rewritten_def\<close>)
next
  case (3 a st1 b src dst)
  have views: "archive_safe sha (ib_file_checksum b) src dst (io_view s) (io_view s')" using 3 by blast
  have kept': "archived_kept sha roots st (io_view s')"
    using kept object_kept[OF service 3(3) views] by (auto simp: archived_kept_def)
  obtain b2 src2 relative where n: "find_batch i st = Some b2" "ib_id b2 = i" "ib_status b2 = IS_COMMITTED"
    "archive_relative_path (ib_report_type b2) (ib_report_date b2) (ib_file_checksum b2) = Inr relative"
    "rewritten i b2 (attempted_batch (at_source a) relative now b2) st st1"
    "ib_archive_status b2 = AR_ARCHIVED \<Longrightarrow> object_present sha roots (io_view s') (attempted_batch (at_source a) relative now b2)"
    by (rule attempt_noted[OF 3(1) ids kept']) blast
  have b2: "b2 = b" using n(1) 3(2) by simp
  let ?b1 = "attempted_batch (at_source a) relative now b"
  note n = n[unfolded b2]
  have placed: "object_present sha roots (io_view s') x" if "has_checksum sha (io_view s') dst (ib_file_checksum b)"
      "ib_archive_path x = Some (join_path relative)" "ib_file_checksum x = ib_file_checksum b" for x
    using that n(4) 3(4) by (simp add: object_present_def archive_object_def)
  have b1: "ib_archive_path ?b1 = Some (join_path relative)" "ib_file_checksum ?b1 = ib_file_checksum b" "ib_status ?b1 = IS_COMMITTED"
    "ib_archive_status ?b1 = ib_archive_status b"
    using n(3) by (simp_all add: attempted_batch_def)
  have "\<exists>b'. rewritten i b b' st st' \<and> (ib_archive_status b' = AR_ARCHIVED \<longrightarrow> object_present sha roots (io_view s') b')"
  proof (cases r)
    case (Inr out)
    then have d: "has_checksum sha (io_view s') dst (ib_file_checksum b)" "update_batch i (marked_batch now) st1 = Inr st'"
      using 3(6) by (auto simp: archived_safe_def mark_archived_marked)
    have "ib_archive_path (marked_batch now ?b1) = Some (join_path relative)" "ib_file_checksum (marked_batch now ?b1) = ib_file_checksum b"
      using b1 by (simp_all add: marked_batch_def)
    with rewritten_update[OF n(5) d(2) marked_core n(2)] placed[OF d(1)] show ?thesis by blast
  next
    case (Inl e)
    then consider (early) "st' = st1" | (failed) m where "record_archive_failure i m False st1 = Inr st'"
      | (late) st2 m where "has_checksum sha (io_view s') dst (ib_file_checksum b)"
          "st2 = st1 \<or> mark_archived i now st1 = Inr st2" "st' = st2 \<or> record_archive_failure i m True st2 = Inr st'"
      using 3(6) by auto
    then show ?thesis
    proof cases
      case early
      then show ?thesis using n(5,6) b1(4) by auto
    next
      case failed
      have "ib_archive_status (failed_batch m False ?b1) = AR_FAILED" using b1 by (simp add: failed_batch_def)
      with rewritten_update[OF n(5) failed[unfolded record_failure_failed] failed_core n(2)] show ?thesis by auto
    next
      case late
      have "\<exists>x. rewritten i b x st st2 \<and> ib_archive_path x = Some (join_path relative) \<and> ib_file_checksum x = ib_file_checksum b"
        using late(2)
      proof
        assume "mark_archived i now st1 = Inr st2"
        from rewritten_update[OF n(5) this[unfolded mark_archived_marked] marked_core n(2)] show ?thesis
          using b1 by (auto simp: marked_batch_def)
      qed (use n(5) b1 in blast)
      then obtain x where x: "rewritten i b x st st2" "ib_archive_path x = Some (join_path relative)" "ib_file_checksum x = ib_file_checksum b"
        by blast
      from late(3) show ?thesis
      proof
        assume "record_archive_failure i m True st2 = Inr st'"
        from rewritten_update[OF x(1) this[unfolded record_failure_failed] failed_core n(2)] show ?thesis
          using placed[OF late(1), of "failed_batch m True x"] x(2,3) by (auto simp: failed_batch_def)
      qed (use x placed[OF late(1)] in blast)
    qed
  qed
  then obtain b' where b': "rewritten i b b' st st'" "ib_archive_status b' = AR_ARCHIVED \<Longrightarrow> object_present sha roots (io_view s') b'" by blast
  have "archived_kept sha roots st' (io_view s')" by (rule rewritten_kept[OF b'(1) 3(2) ids kept' b'(2)])
  then show ?case using b'(1) by (auto simp: rewritten_def)
qed

subsection \<open>The ingestion invariant survives an attempt\<close>

lemma archival_database_ok:
  assumes f: "archival_change i f" and ok: "database_ok sha fromiso db"
  shows "database_ok sha fromiso (db\<lparr>db_sources := (db_sources db)\<lparr>st_batches := map f (st_batches (db_sources db))\<rparr>\<rparr>)"
proof -
  let ?st = "db_sources db"
  let ?st' = "?st\<lparr>st_batches := map f (st_batches ?st)\<rparr>"
  note fields = archival_change_fields(1-7)[OF f]
  have ok_tables: "tables_ok sha fromiso ?st" using ok by (simp add: database_ok_def)
  have found: "find_batch j ?st' = map_option f (find_batch j ?st)" for j
    using find_same_key[of "st_batches ?st" "\<lambda>b. ib_id b = j" f] by (simp add: find_batch_def fields(1))
  have keep: "find_batch j ?st' \<noteq> None \<and> counted_batch ?st' j = counted_batch ?st j" if "find_batch j ?st \<noteq> None" for j
    using that by (auto simp: counted_batch_def found fields)
  have distinct: "distinct (map ib_id (st_batches ?st'))" "distinct (map ib_delivery_key (st_batches ?st'))"
    using ok_tables by (simp_all add: tables_ok_def comp_def fields)
  note changed = batches_changed[OF ok_tables _ _ _ distinct keep]
  have "tables_ok sha fromiso ?st'" by (rule changed(1)) simp_all
  moreover have "settled ?st' key" for key
  proof (rule settled_same)
    show "same_entity ?st ?st' key" by (rule changed(2)) simp_all
    show "settled ?st key" using ok unfolding database_ok_def by blast
  qed
  moreover have "batch_whole sha ?st' (f b)" if "batch_whole sha ?st b" for b
    using that by (simp add: batch_whole_def fields)
  ultimately show ?thesis using ok by (auto simp: database_ok_def triggers_known_def fields image_image)
qed

subsection \<open>The database and the files together\<close>

text \<open>
  The steps: an attempt, with every outcome of its three transactions and every hook and system fault; an attempt cut
  off by a crash after its first transaction, at any of its views; an ingestion or queue step; and any change of the
  files that leaves the archive alone.
\<close>

inductive archival_step ::
  "ingest_config \<Rightarrow> archive_roots \<Rightarrow> database \<times> file_view \<Rightarrow> database \<times> file_view \<Rightarrow> bool" for cfg roots where
  attempted: "archive_batch (ic_sha cfg) env describe fates roots i requested now (db_sources db)
      \<lparr>io_view = v, io_seen = [], io_hook = (h :: nat)\<rparr> = (r, st', s') \<Longrightarrow>
    archival_step cfg roots (db, v) (db\<lparr>db_sources := st'\<rparr>, io_view s')"
| crashed: "archive_batch (ic_sha cfg) env describe fates roots i requested now (db_sources db)
      \<lparr>io_view = v, io_seen = [], io_hook = (h :: nat)\<rparr> = (r, st', s') \<Longrightarrow>
    prepare_attempt roots i requested now (db_sources db) = Inr (a, t) \<Longrightarrow> v' \<in> set (io_seen s') \<Longrightarrow>
    archival_step cfg roots (db, v) (db\<lparr>db_sources := t\<rparr>, v')"
| ingested: "ingestion_step cfg db db' \<Longrightarrow> archival_step cfg roots (db, v) (db', v)"
| files_changed: "(\<And>p. take (length (ar_archive roots)) p = ar_archive roots \<Longrightarrow> v' p = v p) \<Longrightarrow>
    archival_step cfg roots (db, v) (db, v')"

definition archival_ok :: "ingest_config \<Rightarrow> archive_roots \<Rightarrow> database \<times> file_view \<Rightarrow> bool" where
  "archival_ok cfg roots x \<longleftrightarrow> database_ok (ic_sha cfg) (ic_fromiso cfg) (fst x)
     \<and> archived_kept (ic_sha cfg) roots (db_sources (fst x)) (snd x)"

lemma database_distinct: "database_ok sha fromiso db \<Longrightarrow> distinct (map ib_id (st_batches (db_sources db)))"
  by (simp add: database_ok_def tables_ok_def)

lemma rewritten_ok:
  assumes "\<exists>f. archival_change i f \<and> st' = (db_sources db)\<lparr>st_batches := map f (st_batches (db_sources db))\<rparr>"
    and "database_ok sha fromiso db"
  shows "database_ok sha fromiso (db\<lparr>db_sources := st'\<rparr>)"
  using assms archival_database_ok by metis

lemma delivery_batch_pending:
  "ib_archive_status ((delivery_batch sha ids as_of d)\<lparr>ib_status := IS_COMMITTED, ib_committed_at := Some now\<rparr>) = AR_PENDING"
  by (simp add: delivery_batch_def)

lemma archival_step_ok:
  assumes service: "make_archive_service inbox archive = Some roots"
    and step: "archival_step cfg roots x y" and ok: "archival_ok cfg roots x"
  shows "archival_ok cfg roots y"
  using step
proof cases
  case (attempted env describe fates i requested now db v h r st' s')
  have "archived_kept (ic_sha cfg) roots (db_sources db) v" "database_ok (ic_sha cfg) (ic_fromiso cfg) db"
    using ok attempted(1) by (simp_all add: archival_ok_def)
  with attempt_tables[OF service attempted(3)] rewritten_ok[of i st' db] show ?thesis
    by (simp add: archival_ok_def attempted(2) database_distinct)
next
  case (crashed env describe fates i requested now db v h r st' s' a t v')
  have prior: "archived_kept (ic_sha cfg) roots (db_sources db) v" "database_ok (ic_sha cfg) (ic_fromiso cfg) db"
    using ok crashed(1) by (simp_all add: archival_ok_def)
  have kept: "archived_kept (ic_sha cfg) roots (db_sources db) v'"
    using attempt_cases[OF service crashed(3) archive_io.select_convs(2)]
  proof (elim disjE exE conjE)
    fix a st1 b src dst
    assume "within_root (ar_inbox roots) (at_source a) = Inr src"
      "\<forall>w \<in> insert (io_view s') (set (io_seen s')). archive_safe (ic_sha cfg) (ib_file_checksum b) src dst
        (io_view \<lparr>io_view = v, io_seen = [], io_hook = h\<rparr>) w"
    then have "within_root (ar_inbox roots) (at_source a) = Inr src" "archive_safe (ic_sha cfg) (ib_file_checksum b) src dst v v'"
      using crashed(5) by simp_all
    then show ?thesis using prior(1) object_kept[OF service] unfolding archived_kept_def by blast
  qed (use crashed(5) in simp_all)
  obtain b b' where "rewritten i b b' (db_sources db) t" "archived_kept (ic_sha cfg) roots t v'"
    by (rule attempt_noted[OF crashed(4) database_distinct[OF prior(2)] kept]) blast
  then show ?thesis using rewritten_ok[of i t db] prior(2)
    by (auto simp: archival_ok_def crashed(2) rewritten_def)
next
  case (ingested db db' v)
  have prior: "archived_kept (ic_sha cfg) roots (db_sources db) v" "database_ok (ic_sha cfg) (ic_fromiso cfg) db"
    using ok ingested(1) by (simp_all add: archival_ok_def)
  have "\<forall>b \<in> set (st_batches (db_sources db')). b \<in> set (st_batches (db_sources db)) \<or> ib_archive_status b = AR_PENDING"
    using ingested(3)
  proof cases
    case (delivered hook ids now fate views source_path inbox_root as_of h out h')
    show ?thesis
    proof (cases "db' = db")
      case False
      obtain as_of' d where "delivery_committed cfg ids as_of' now d db db'"
        by (rule ingest_source_committed[OF delivered(1) False])
      from delivery_committed_facts(2)[OF this prior(2)] show ?thesis using delivery_batch_pending by auto
    qed simp
  qed simp
  then have "archived_kept (ic_sha cfg) roots (db_sources db') v" using prior(1) by (auto simp: archived_kept_def)
  then show ?thesis using ingestion_step_ok[OF ingested(3) prior(2)] by (simp add: archival_ok_def ingested(2))
next
  case (files_changed v' v db)
  have "v' (ar_archive roots @ q) = v (ar_archive roots @ q)" for q by (rule files_changed(3)) simp
  then have "object_present (ic_sha cfg) roots v' b = object_present (ic_sha cfg) roots v b" for b
    using has_checksum_cong[of v' _ v] by (simp add: object_present_def)
  then show ?thesis using ok by (simp add: archival_ok_def files_changed(1,2) archived_kept_def)
qed

end
