(* ===== verification/Archival_Properties.thy ===== *)
theory Archival_Properties
  imports Archive_Attempt Ingestion_Sample
begin

text \<open>
  The properties of archival: evidence is never lost, archived batches have their object, and a retry after any
  attempt succeeds; applied to a sample history.
\<close>

subsection \<open>An attempt without faults succeeds\<close>

definition faultless :: "'h archive_env \<Rightarrow> bool" where
  "faultless env \<longleftrightarrow> ae_system env = no_failure \<and> ae_hook env = no_failure"

abbreviation succeeds :: "(file_view \<Rightarrow> bool) \<Rightarrow> ('h, 'a) archive_op \<Rightarrow> ('a \<Rightarrow> file_view \<Rightarrow> bool) \<Rightarrow> bool" where
  "succeeds P m Q \<equiv> triple (\<lambda>_. True) P m Q (\<lambda>_. False)"

lemma triple_absurd: "(\<And>v. \<not> P v) \<Longrightarrow> triple K P m Q E"
  by (simp add: triple_def)

lemma system_ok: "faultless env \<Longrightarrow> succeeds P (system_call env name) (\<lambda>_. P)"
  by (simp add: triple_def system_call_def faultless_def no_failure_def)

lemma hook_ok: "faultless env \<Longrightarrow> succeeds P (visit_hook (ae_hook env) point) (\<lambda>_. P)"
  by (simp add: triple_def visit_hook_def faultless_def no_failure_def)

lemma verify_ok:
  assumes "faultless env" and "\<And>v. P v \<Longrightarrow> has_checksum sha v p c"
  shows "succeeds P (verify_checksum sha env p c) (\<lambda>_. P)"
  using assms by (auto simp: triple_def verify_checksum_def sha256_file_def io_bind_def look_def io_check_def io_return_def
      system_call_def faultless_def no_failure_def has_checksum_def io_fail_def)

definition prefixes_ok :: "path \<Rightarrow> file_view \<Rightarrow> bool" where
  "prefixes_ok p v \<longleftrightarrow> v [] = Some DirNode \<and> (\<forall>n \<le> length p. v (take n p) = None \<or> v (take n p) = Some DirNode)"

lemma mkdir_ok:
  assumes "faultless env" and "\<And>v q n. P v \<Longrightarrow> q = take n p \<Longrightarrow> v q = None \<Longrightarrow> P (v(q \<mapsto> DirNode))"
  shows "succeeds (\<lambda>v. prefixes_ok p v \<and> P v) (durable_mkdir env p) (\<lambda>_. P)"
proof -
  have "succeeds (\<lambda>v. prefixes_ok p v \<and> P v) (durable_mkdir env p) (\<lambda>_ v. v p = Some DirNode \<and> P v)"
    using assms
  proof (induction env p arbitrary: P rule: durable_mkdir.induct)
    case (1 env p)
    let ?P = "\<lambda>v. prefixes_ok p v \<and> P v"
    let ?Q = "\<lambda>v. v p = Some DirNode \<and> P v"
    have create: "succeeds (\<lambda>v. node = v p \<and> P v \<and> (v p = None \<or> v p = Some DirNode)) (case node of
         Some DirNode \<Rightarrow> io_return () | Some (FileNode _) \<Rightarrow> io_fail (ArchiveSystemFault ''mkdir'')
       | None \<Rightarrow> io_bind (change_view (\<lambda>v. v(p \<mapsto> DirNode))) (\<lambda>_.
               io_bind (system_call env ''fsync'') (\<lambda>_. system_call env ''fsync''))) (\<lambda>_. ?Q)" for node
    proof (cases node)
      case None
      have "succeeds (\<lambda>v. node = v p \<and> P v \<and> (v p = None \<or> v p = Some DirNode)) (change_view (\<lambda>v. v(p \<mapsto> DirNode))) (\<lambda>_. ?Q)"
      proof (rule triple_change)
        fix v assume v: "node = v p \<and> P v \<and> (v p = None \<or> v p = Some DirNode)"
        then have "P (v(p \<mapsto> DirNode))" using None by (intro "1.prems"(2)[of v p "length p"]) auto
        then show "True \<and> ?Q (v(p \<mapsto> DirNode))" by simp
      qed
      then show ?thesis unfolding None option.case
        by (intro triple_bind[where R = "\<lambda>_. ?Q"] system_ok "1.prems"(1))
    next
      case (Some n)
      then show ?thesis by (cases n) (auto simp: triple_def io_return_def io_fail_def dest!: sym[of "Some _"])
    qed
    have step: "succeeds (\<lambda>v. node = v p \<and> ?P v) (case node of
       Some DirNode \<Rightarrow> io_return () | Some (FileNode _) \<Rightarrow> io_fail (DirectoryExpected p)
     | None \<Rightarrow> if p = [] then io_fail (DirectoryExpected p)
         else io_bind (durable_mkdir env (butlast p)) (\<lambda>_.
           io_bind (system_call env ''mkdir'') (\<lambda>_.
           io_bind (look (\<lambda>v. v p)) (\<lambda>made. case made of
             Some DirNode \<Rightarrow> io_return ()
           | Some (FileNode _) \<Rightarrow> io_fail (ArchiveSystemFault ''mkdir'')
           | None \<Rightarrow> io_bind (change_view (\<lambda>v. v(p \<mapsto> DirNode))) (\<lambda>_.
               io_bind (system_call env ''fsync'') (\<lambda>_. system_call env ''fsync'')))))) (\<lambda>_. ?Q)" for node
    proof (cases "node = None \<and> p \<noteq> []")
      case True
      let ?R = "\<lambda>v. P v \<and> (v p = None \<or> v p = Some DirNode)"
      have parent: "succeeds (\<lambda>v. prefixes_ok (butlast p) v \<and> ?R v) (durable_mkdir env (butlast p)) (\<lambda>_ v. v (butlast p) = Some DirNode \<and> ?R v)"
      proof (rule "1.IH")
        fix v q n assume v: "P v \<and> (v p = None \<or> v p = Some DirNode)" "q = take n (butlast p)" "v q = None"
        have "q = take (min n (length p - 1)) p" using v(2) by (simp add: butlast_conv_take)
        with v have pq: "P (v(q \<mapsto> DirNode))" by (intro "1.prems"(2)[of v q "min n (length p - 1)"]) simp_all
        show "P (v(q \<mapsto> DirNode)) \<and> ((v(q \<mapsto> DirNode)) p = None \<or> (v(q \<mapsto> DirNode)) p = Some DirNode)"
          using pq v(1) by (cases "p = q") simp_all
      qed (use True "1.prems"(1) in auto)
      have pre: "succeeds (\<lambda>v. node = v p \<and> ?P v) (durable_mkdir env (butlast p)) (\<lambda>_. ?R)"
      proof (rule triple_conseq[OF parent])
        fix v assume "node = v p \<and> ?P v"
        then have v: "v [] = Some DirNode" "\<forall>n \<le> length p. v (take n p) = None \<or> v (take n p) = Some DirNode" "P v" "v p = None"
          using True by (auto simp: prefixes_ok_def)
        then have "v (take n (butlast p)) = None \<or> v (take n (butlast p)) = Some DirNode" for n
          by (simp add: butlast_conv_take)
        then show "prefixes_ok (butlast p) v \<and> ?R v" using v by (simp add: prefixes_ok_def)
      qed auto
      have "succeeds (\<lambda>v. node = v p \<and> ?P v) (io_bind (durable_mkdir env (butlast p)) (\<lambda>_.
           io_bind (system_call env ''mkdir'') (\<lambda>_.
           io_bind (look (\<lambda>v. v p)) (\<lambda>made. case made of
             Some DirNode \<Rightarrow> io_return ()
           | Some (FileNode _) \<Rightarrow> io_fail (ArchiveSystemFault ''mkdir'')
           | None \<Rightarrow> io_bind (change_view (\<lambda>v. v(p \<mapsto> DirNode))) (\<lambda>_.
               io_bind (system_call env ''fsync'') (\<lambda>_. system_call env ''fsync'')))))) (\<lambda>_. ?Q)"
        by (intro triple_bind[OF pre] triple_bind[OF system_ok[OF "1.prems"(1)]] triple_bind[OF triple_look] create)
      then show ?thesis using True by simp
    next
      case False
      have "v (take (length p) p) = None \<or> v (take (length p) p) = Some DirNode" if "prefixes_ok p v" for v
        using that unfolding prefixes_ok_def by blast
      then have "v p = None \<or> v p = Some DirNode" "v [] = Some DirNode" if "prefixes_ok p v" for v
        using that by (simp_all add: prefixes_ok_def)
      then have made: "node = Some DirNode" if "node = v p \<and> ?P v" for v using that False by (metis option.exhaust)
      show ?thesis
      proof (cases "node = Some DirNode")
        case True
        then show ?thesis by (auto intro: triple_return)
      next
        case False
        then show ?thesis using made by (blast intro: triple_absurd)
      qed
    qed
    show ?case by (subst durable_mkdir.simps) (rule triple_bind[OF triple_look step])
  qed
  then show ?thesis by (rule triple_conseq) auto
qed

subsection \<open>A faultless attempt archives\<close>

text \<open>
  What a retry needs: the object in place, or the source with nothing in the object's place; no other content in the
  source's place; directories on the way to the object; and a free temporary name.
\<close>

definition retryable :: "(string \<Rightarrow> string) \<Rightarrow> string \<Rightarrow> path \<Rightarrow> path \<Rightarrow> file_view \<Rightarrow> bool" where
  "retryable sha c src dst v \<longleftrightarrow> (has_checksum sha v dst c \<or> v dst = None \<and> has_checksum sha v src c)
     \<and> (v src = None \<or> has_checksum sha v src c) \<and> prefixes_ok (butlast dst) v"

definition free_name :: "'h archive_env \<Rightarrow> string \<Rightarrow> path \<Rightarrow> file_view \<Rightarrow> bool" where
  "free_name env c d v \<longleftrightarrow> (\<exists>r \<in> set (ae_names env). v (d @ [temporary_name c r]) = None)"

lemma temporary_ok:
  assumes "faultless env" and "\<And>v. P v \<Longrightarrow> free_name env c d v"
    and "\<And>v r. P v \<Longrightarrow> v (d @ [temporary_name c r]) = None \<Longrightarrow> R (d @ [temporary_name c r]) (v(d @ [temporary_name c r] \<mapsto> FileNode []))"
  shows "succeeds P (make_temporary env d c) R"
proof -
  let ?free = "\<lambda>v. List.find (\<lambda>q. v q = None) (map (\<lambda>r. d @ [temporary_name c r]) (ae_names env))"
  have found: "\<exists>q. ?free v = Some q \<and> R q (v(q \<mapsto> FileNode []))" if "P v" for v
  proof -
    obtain r where "r \<in> set (ae_names env)" "v (d @ [temporary_name c r]) = None" using assms(2)[OF \<open>P v\<close>] by (auto simp: free_name_def)
    then have "?free v \<noteq> None" by (auto simp: find_None_iff)
    then obtain q where q: "?free v = Some q" by blast
    then have "v q = None" "q \<in> set (map (\<lambda>r. d @ [temporary_name c r]) (ae_names env))"
      by (auto simp only: find_Some_iff set_conv_nth mem_Collect_eq)
    then show ?thesis using assms(3)[OF \<open>P v\<close>] q by auto
  qed
  have "succeeds (\<lambda>v. free = ?free v \<and> P v) (case free of None \<Rightarrow> io_fail NoTemporaryName
       | Some q \<Rightarrow> io_bind (change_view (\<lambda>v. v(q \<mapsto> FileNode []))) (\<lambda>_. io_return q)) R" for free
  proof (cases free)
    case None
    then show ?thesis using found by (force simp: triple_def)
  next
    case (Some q)
    have "R q (v(q \<mapsto> FileNode []))" if "free = ?free v \<and> P v" for v using found[of v] that Some by auto
    then show ?thesis unfolding Some option.case
      by (intro triple_bind[OF triple_change[where Q = "\<lambda>_. R q"]] triple_return) (use Some in auto)
  qed
  then show ?thesis unfolding make_temporary_def
    by (intro triple_bind[OF system_ok[OF assms(1)]] triple_bind[OF triple_look])
qed

lemma copy_ok:
  assumes "faultless env" and "p \<noteq> q" and "\<And>v. P v \<Longrightarrow> has_checksum sha v p c"
    and "\<And>v content. P v \<Longrightarrow> P (v(q \<mapsto> FileNode content))"
  shows "succeeds P (copy_file env p q) (\<lambda>_ v. has_checksum sha v q c \<and> P v)"
  using assms by (auto simp: triple_def copy_file_def io_bind_def look_def io_check_def io_return_def io_fail_def
      system_call_def faultless_def no_failure_def has_checksum_def is_file_def file_content_def split: option.splits)

definition placing :: "(string \<Rightarrow> string) \<Rightarrow> string \<Rightarrow> path \<Rightarrow> path \<Rightarrow> path \<Rightarrow> file_view \<Rightarrow> bool" where
  "placing sha c src dst q v \<longleftrightarrow> has_checksum sha v src c \<and> v dst = None \<and> q \<noteq> src \<and> q \<noteq> dst \<and> src \<noteq> dst"

definition both_present :: "(string \<Rightarrow> string) \<Rightarrow> string \<Rightarrow> path \<Rightarrow> path \<Rightarrow> path \<Rightarrow> file_view \<Rightarrow> bool" where
  "both_present sha c src dst q v \<longleftrightarrow> has_checksum sha v src c \<and> has_checksum sha v dst c \<and> q \<noteq> src \<and> q \<noteq> dst"

lemma install_temporary_ok:
  assumes env: "faultless env"
  shows "succeeds (placing sha c src dst q) (install_temporary sha env (ae_hook env) src dst c q) (\<lambda>_. both_present sha c src dst q)"
proof -
  let ?P = "placing sha c src dst q" and ?F = "both_present sha c src dst q"
  let ?C = "\<lambda>v. has_checksum sha v q c \<and> ?P v"
  show ?thesis
  proof (cases "q = src")
    case True
    then show ?thesis by (simp add: triple_def placing_def)
  next
    case False
    have copied: "succeeds ?P (copy_file env src q) (\<lambda>_. ?C)"
      by (rule copy_ok[OF env]) (use False in \<open>auto simp: placing_def\<close>)
    have replaced: "succeeds ?C (replace_file env q dst) (\<lambda>_. ?F)"
    proof -
      have "succeeds (\<lambda>v. node = v q \<and> ?C v) (case node of None \<Rightarrow> io_fail (ArchiveSystemFault ''replace'')
          | Some n \<Rightarrow> change_view (\<lambda>v. v(q := None, dst \<mapsto> n))) (\<lambda>_. ?F)" for node
      proof (cases node)
        case None
        then have "\<not> (node = v q \<and> ?C v)" for v using has_checksum_exists[of sha v q c] by auto
        then show ?thesis by (rule triple_absurd)
      next
        case (Some n)
        have "True \<and> ?F (v(q := None, dst \<mapsto> n))" if "node = v q \<and> ?C v" for v
          using that Some by (auto simp: placing_def both_present_def has_checksum_def is_file_def file_content_def)
        then show ?thesis unfolding Some option.case by (intro triple_change) (use Some in auto)
      qed
      then show ?thesis unfolding replace_file_def by (intro triple_bind[OF system_ok[OF env]] triple_bind[OF triple_look])
    qed
    have place: "succeeds (\<lambda>v. present = path_exists v dst \<and> ?C v) (if present then io_bind (verify_checksum sha env dst c) (\<lambda>_. io_return True)
         else io_bind (replace_file env q dst) (\<lambda>_. io_return False)) (\<lambda>_. ?F)" for present
    proof (cases present)
      case True
      then have "\<not> (present = path_exists v dst \<and> ?C v)" for v by (auto simp: path_exists_def placing_def)
      then show ?thesis by (rule triple_absurd)
    next
      case False
      have again: "succeeds ?C (io_bind (replace_file env q dst) (\<lambda>_. io_return False)) (\<lambda>_. ?F)"
        by (rule triple_bind[OF replaced]) (auto intro: triple_return)
      show ?thesis by (simp only: False if_False) (rule triple_pre[OF again], auto)
    qed
    have checked: "succeeds ?F (verify_checksum sha env dst c) (\<lambda>_. ?F)"
      by (rule verify_ok[OF env]) (simp add: both_present_def)
    have temporary: "succeeds ?C (verify_checksum sha env q c) (\<lambda>_. ?C)" by (rule verify_ok[OF env]) simp
    note s = system_ok[OF env] and h = hook_ok[OF env]
    show ?thesis unfolding install_temporary_def
      by (intro triple_bind[OF copied] triple_bind[OF h[where P = ?C]] triple_bind[OF s[where P = ?C]] triple_bind[OF temporary]
          triple_bind[OF triple_look] triple_bind[OF place] triple_bind[OF s[where P = ?F]] triple_bind[OF h[where P = ?F]]
          triple_bind[OF checked] triple_return)
  qed
qed

lemma install_ok:
  assumes env: "faultless env" and paths: "src \<noteq> dst" "object_path dst"
  shows "succeeds (\<lambda>v. retryable sha c src dst v \<and> (v dst = None \<longrightarrow> free_name env c (butlast dst) v))
    (install_verified_object sha env (ae_hook env) src dst c)
    (\<lambda>_ v. has_checksum sha v dst c \<and> (v src = None \<or> has_checksum sha v src c))"
proof -
  let ?P = "\<lambda>v. retryable sha c src dst v \<and> (v dst = None \<longrightarrow> free_name env c (butlast dst) v)"
  let ?Q = "\<lambda>v. has_checksum sha v dst c \<and> (v src = None \<or> has_checksum sha v src c)"
  let ?B = "\<lambda>v. has_checksum sha v src c \<and> v dst = None \<and> free_name env c (butlast dst) v"
  let ?place = "io_bind (durable_mkdir env (butlast dst)) (\<lambda>_. io_bind (make_temporary env (butlast dst) c) (\<lambda>temporary.
           io_finally (install_temporary sha env (ae_hook env) src dst c temporary) (cleanup_temporary env temporary)))"
  have made: "succeeds (\<lambda>v. prefixes_ok (butlast dst) v \<and> ?B v) (durable_mkdir env (butlast dst)) (\<lambda>_. ?B)"
  proof (rule mkdir_ok[OF env])
    fix v q n assume v: "?B v" "q = take n (butlast dst)" "v q = None"
    have "q \<noteq> dst" using v(2) butlast_take_neq paths(2) by (auto simp: object_path_def)
    moreover have "q \<noteq> src" using v(1,3) has_checksum_exists[of sha v src c] by auto
    moreover have "butlast dst @ [temporary_name c r] \<noteq> q" for r using v(2) by (auto dest: arg_cong[of _ _ length])
    ultimately show "?B (v(q \<mapsto> DirNode))" using v(1) by (auto simp: free_name_def)
  qed
  have named: "succeeds ?B (make_temporary env (butlast dst) c) (placing sha c src dst)"
  proof (rule temporary_ok[OF env])
    fix v r assume v: "?B v" "v (butlast dst @ [temporary_name c r]) = None"
    then have "butlast dst @ [temporary_name c r] \<noteq> src" using has_checksum_exists[of sha v src c] by auto
    then show "placing sha c src dst (butlast dst @ [temporary_name c r]) (v(butlast dst @ [temporary_name c r] \<mapsto> FileNode []))"
      using v temporary_differs[OF paths(2), of c r] paths(1) by (auto simp: placing_def)
  qed simp
  have finished: "succeeds (placing sha c src dst q)
      (io_finally (install_temporary sha env (ae_hook env) src dst c q) (cleanup_temporary env q)) (\<lambda>_. ?Q)" for q
  proof (rule triple_finally[OF install_temporary_ok[OF env]])
    have "unmoved q (both_present sha c src dst q)" by (simp add: unmoved_def both_present_def)
    then show "triple (\<lambda>_. True) (both_present sha c src dst q) (\<lambda>s. (Inr (), cleanup_temporary env q s)) (\<lambda>_. ?Q) (\<lambda>_. False)"
      by (rule triple_conseq[OF cleanup_triple]) (auto simp: both_present_def)
  qed (rule triple_absurd, simp)
  have placed: "succeeds (\<lambda>v. prefixes_ok (butlast dst) v \<and> ?B v) ?place (\<lambda>_. ?Q)"
    by (intro triple_bind[OF made] triple_bind[OF named] finished)
  have missing: "succeeds (\<lambda>v. prefixes_ok (butlast dst) v \<and> ?B v) (io_bind (verify_checksum sha env src c) (\<lambda>_. ?place)) (\<lambda>_. ?Q)"
    by (rule triple_bind[OF verify_ok[OF env] placed]) simp
  have found: "succeeds ?Q (io_bind (verify_checksum sha env dst c) (\<lambda>_.
         io_bind (visit_hook (ae_hook env) ''after_final_checksum'') (\<lambda>_. io_return True))) (\<lambda>_. ?Q)"
    by (intro triple_bind[OF verify_ok[OF env, where P = ?Q]] triple_bind[OF hook_ok[OF env, where P = ?Q]] triple_return) auto
  show ?thesis unfolding install_verified_object_def
  proof (intro triple_bind[OF triple_look] triple_if)
    fix present assume present
    then show "succeeds (\<lambda>v. present = path_exists v dst \<and> ?P v) (io_bind (verify_checksum sha env dst c) (\<lambda>_.
         io_bind (visit_hook (ae_hook env) ''after_final_checksum'') (\<lambda>_. io_return True))) (\<lambda>_. ?Q)"
      by (intro triple_pre[OF found]) (auto simp: path_exists_def retryable_def)
  next
    fix present assume "\<not> present"
    then show "succeeds (\<lambda>v. present = path_exists v dst \<and> ?P v) (io_bind (verify_checksum sha env src c) (\<lambda>_. ?place)) (\<lambda>_. ?Q)"
      by (intro triple_pre[OF missing]) (auto simp: path_exists_def retryable_def dest: has_checksum_exists)
  qed
qed

lemma move_ok:
  assumes env: "faultless env" and paths: "src \<noteq> dst" "object_path dst"
  shows "succeeds (\<lambda>v. retryable sha c src dst v \<and> (v dst = None \<longrightarrow> free_name env c (butlast dst) v))
    (move_to_archive sha env src dst c) (\<lambda>_ v. has_checksum sha v dst c \<and> v src = None)"
proof -
  let ?Q = "\<lambda>v. has_checksum sha v dst c \<and> (v src = None \<or> has_checksum sha v src c)"
  let ?Z = "\<lambda>v. has_checksum sha v dst c \<and> v src = None"
  let ?S = "\<lambda>v. has_checksum sha v dst c \<and> has_checksum sha v src c"
  have "succeeds ?S (change_view (\<lambda>v. v(src := None))) (\<lambda>_. ?Z)" by (rule triple_change) (use paths in simp)
  then have removal: "succeeds ?S (io_bind (verify_checksum sha env src c) (\<lambda>_. io_bind (system_call env ''unlink'') (\<lambda>_.
         io_bind (change_view (\<lambda>v. v(src := None))) (\<lambda>_. system_call env ''fsync'')))) (\<lambda>_. ?Z)"
    by (intro triple_bind[OF verify_ok[OF env, where P = ?S]] triple_bind[OF system_ok[OF env, where P = ?S]]
        triple_bind[where R = "\<lambda>_. ?Z"] system_ok[OF env]) auto
  have removed: "succeeds ?Q (remove_source sha env src c) (\<lambda>_. ?Z)" unfolding remove_source_def
  proof (intro triple_bind[OF triple_look] triple_if)
    fix present assume "\<not> \<not> present"
    then show "succeeds (\<lambda>v. present = path_exists v src \<and> ?Q v) (io_bind (verify_checksum sha env src c) (\<lambda>_.
         io_bind (system_call env ''unlink'') (\<lambda>_. io_bind (change_view (\<lambda>v. v(src := None))) (\<lambda>_. system_call env ''fsync'')))) (\<lambda>_. ?Z)"
      by (intro triple_pre[OF removal]) (auto simp: path_exists_def)
  qed (auto intro: triple_return simp: path_exists_def)
  show ?thesis unfolding move_to_archive_def
    by (intro triple_bind[OF install_ok[OF assms]] triple_bind[OF removed] triple_bind[OF hook_ok[OF env, where P = ?Z]] triple_return)
qed

subsection \<open>After any attempt a retry is possible\<close>

definition plain_path :: "path \<Rightarrow> bool" where
  "plain_path p \<longleftrightarrow> (\<forall>x \<in> set p. take 1 x \<noteq> ''.'')"

lemma retryable_kept:
  assumes before: "retryable sha c src dst v0" and safe: "archive_safe sha c src dst v0 v"
    and src: "object_path src" "src \<noteq> dst" "\<And>n. take n dst \<noteq> src" and dst: "dst \<noteq> []" "plain_path (butlast dst)"
  shows "retryable sha c src dst v"
proof -
  note b = before[unfolded retryable_def] and s = safe[unfolded archive_safe_def]
  have source: "v src = None \<or> has_checksum sha v src c"
    using b s src(1) has_checksum_cong[of v src v0 sha c] by auto
  have object: "has_checksum sha v dst c \<or> v dst = None \<and> has_checksum sha v src c"
  proof (cases "has_checksum sha v0 dst c")
    case True
    then have "v dst = v0 dst" using s src(2) has_checksum_exists[OF True] by auto
    then show ?thesis using True has_checksum_cong[of v dst v0 sha c] by auto
  next
    case False
    then have "v0 dst = None" "has_checksum sha v0 src c" using b by auto
    then show ?thesis using s has_checksum_cong[of v src v0 sha c] by auto
  qed
  have prefix: "v (take n (butlast dst)) = None \<or> v (take n (butlast dst)) = Some DirNode" if "n \<le> length (butlast dst)" for n
  proof -
    have was: "v0 (take n (butlast dst)) = None \<or> v0 (take n (butlast dst)) = Some DirNode"
      using b that by (auto simp: prefixes_ok_def)
    have "take n (butlast dst) \<noteq> dst" using butlast_take_neq[OF dst(1)] .
    moreover have "take n (butlast dst) \<noteq> src" using src(3)[of "min n (length dst - 1)"] by (simp add: butlast_conv_take)
    moreover have "\<not> temporary_path c (take n (butlast dst))"
    proof
      assume "temporary_path c (take n (butlast dst))"
      then obtain d r where "take n (butlast dst) = d @ [temporary_name c r]" by (auto simp: temporary_path_def)
      then have "temporary_name c r \<in> set (butlast dst)" using set_take_subset[of n "butlast dst"] by auto
      then show False using dst(2) by (auto simp: plain_path_def temporary_name_def)
    qed
    ultimately show ?thesis using s was by metis
  qed
  have "v [] = Some DirNode" using b s src(3)[of 0] by (auto simp: prefixes_ok_def)
  then show ?thesis using source object prefix by (simp add: retryable_def prefixes_ok_def)
qed

text \<open>The columns an attempt notes stay, whatever becomes of it.\<close>

definition noted :: "archive_attempt \<Rightarrow> ingestion_batch \<Rightarrow> bool" where
  "noted a b \<longleftrightarrow> ib_source_path b = Some (at_source a) \<and> ib_archive_path b = Some (at_archive a)"

lemma rewritten_find:
  assumes "rewritten i b b' st t" and "find_batch i st = Some b"
  shows "find_batch i t = Some b'" and "archival_core b' = archival_core b"
proof -
  obtain f where f: "archival_change i f" "t = st\<lparr>st_batches := map f (st_batches st)\<rparr>" "b' = f b"
    using assms(1) by (auto simp: rewritten_def)
  show "find_batch i t = Some b'"
    using assms(2) find_same_key[of "st_batches st" "\<lambda>b. ib_id b = i" f] archival_change_fields(1)[OF f(1)]
    by (simp add: find_batch_def f(2,3))
  show "archival_core b' = archival_core b" using f(1,3) by (simp add: archival_change_def)
qed

lemma attempt_noted_after:
  assumes service: "make_archive_service inbox archive = Some roots"
    and run: "archive_batch sha env describe fates roots i requested now st s = (r, st', s')" and seen: "io_seen s = []"
    and p: "prepare_attempt roots i requested now st = Inr (a, t1)" and changed: "st' \<noteq> st" and t: "t = t1 \<or> t = st'"
    and b: "find_batch i st = Some b"
  shows "\<exists>b'. find_batch i t = Some b' \<and> noted a b' \<and> archival_core b' = archival_core b"
proof -
  obtain relative where u: "at_archive a = join_path relative" "update_batch i (attempted_batch (at_source a) relative now) st = Inr t1"
    by (rule prepared_attempt[OF p]) blast
  have i: "ib_id b = i" using find_member[OF b[unfolded find_batch_def]] by auto
  let ?N = "\<lambda>t. \<exists>b'. rewritten i b b' st t \<and> noted a b'"
  have first: "?N t1"
    using rewritten_update[OF rewritten_start u(2) attempted_core i] u(1) by (auto simp: noted_def attempted_batch_def)
  have failed: "?N x" if y: "?N y" "record_archive_failure i m preserve y = Inr x" for x y m preserve
  proof -
    obtain b' where "rewritten i b b' st y" "noted a b'" using y(1) by blast
    from rewritten_update[OF this(1) y(2)[unfolded record_failure_failed] failed_core i] this(2) show ?thesis
      by (intro exI[of _ "failed_batch m preserve b'"]) (simp add: noted_def failed_batch_def)
  qed
  have marked: "?N x" if y: "?N y" "mark_archived i now y = Inr x" for x y
  proof -
    obtain b' where "rewritten i b b' st y" "noted a b'" using y(1) by blast
    from rewritten_update[OF this(1) y(2)[unfolded mark_archived_marked] marked_core i] this(2) show ?thesis
      by (intro exI[of _ "marked_batch now b'"]) (simp add: noted_def marked_batch_def)
  qed
  have "?N st'"
    using attempt_cases[OF service run seen]
  proof (elim disjE exE conjE, goal_cases)
    case (3 a' st1 b2 src dst)
    then have "st1 = t1" using p by simp
    show ?case
    proof (cases r)
      case (Inr out)
      then have "mark_archived i now t1 = Inr st'" using 3(6) \<open>st1 = t1\<close> by auto
      with first show ?thesis by (rule marked)
    next
      case (Inl e)
      then consider "st' = t1" | m where "record_archive_failure i m False t1 = Inr st'"
        | y m where "y = t1 \<or> mark_archived i now t1 = Inr y" "st' = y \<or> record_archive_failure i m True y = Inr st'"
        using 3(6) \<open>st1 = t1\<close> by auto
      then show ?thesis
      proof cases
        case (3 y m)
        have "?N y" using 3(1) first marked by blast
        then show ?thesis using 3(2) failed by blast
      qed (use first failed in blast)+
    qed
  qed (use changed p first in auto)
  then have "?N t" using t first by blast
  then show ?thesis using rewritten_find[OF _ b] by blast
qed

lemma prepared_marks:
  assumes "prepare_attempt roots i requested now st = Inr (a, t)"
  shows "\<exists>t'. mark_archived i later t = Inr t'"
proof -
  obtain relative where u: "update_batch i (attempted_batch (at_source a) relative now) st = Inr t"
    by (rule prepared_attempt[OF assms])
  have constraints: "batch_constraints (marked_batch later x)" if "batch_constraints x" "ib_archive_path x \<noteq> None" for x
    using that by (auto simp: batch_constraints_def marked_batch_def)
  have "batch_constraints x \<and> ib_archive_path x \<noteq> None" if x: "x \<in> set (st_batches t)" "ib_id x = i" for x
  proof -
    obtain y where y: "y \<in> set (st_batches st)" "x = (if ib_id y = i then attempted_batch (at_source a) relative now y else y)"
      using x(1) update_is_change(2)[OF u attempted_core] by auto
    have "ib_id y = i" using x(2) y(2) by (auto split: if_splits)
    then show ?thesis using u y by (auto simp: update_batch_def result_simps list_all_iff attempted_batch_def)
  qed
  then show ?thesis using constraints by (auto simp: mark_archived_marked update_batch_def result_simps list_all_iff require_def)
qed

lemma prepared_marked:
  assumes "prepare_attempt roots i requested now st = Inr (a, t)" and "mark_archived i later t = Inr t'"
  shows "\<exists>b'. find_batch i t' = Some b' \<and> ib_archive_status b' = AR_ARCHIVED"
proof -
  obtain b relative where u: "find_batch i st = Some b" "ib_status b = IS_COMMITTED"
    "update_batch i (attempted_batch (at_source a) relative now) st = Inr t"
    by (rule prepared_attempt[OF assms(1)])
  have i: "ib_id b = i" using find_member[OF u(1)[unfolded find_batch_def]] by auto
  have "rewritten i b (marked_batch later (attempted_batch (at_source a) relative now b)) st t'"
    using rewritten_update[OF rewritten_update[OF rewritten_start u(3) attempted_core i] assms(2)[unfolded mark_archived_marked] marked_core i] .
  from rewritten_find(1)[OF this u(1)] u(2) show ?thesis by (simp add: marked_batch_def attempted_batch_def)
qed

lemma faultless_attempt:
  assumes service: "make_archive_service inbox archive = Some roots" and env: "faultless env"
    and p: "prepare_attempt roots i requested now st = Inr (a, t)" and b: "find_batch i st = Some b"
    and src: "within_root (ar_inbox roots) (at_source a) = Inr src"
    and dst: "within_root (ar_archive roots) (at_archive a) = Inr dst"
    and view: "retryable sha (ib_file_checksum b) src dst v" "free_name env (ib_file_checksum b) (butlast dst) v"
  shows "\<exists>reused t' s'. archive_batch sha env describe \<lparr>af_prepare = CommitOk, af_marker = CommitOk, af_failure = fate\<rparr> roots i requested now st
      \<lparr>io_view = v, io_seen = [], io_hook = h\<rparr>
    = (Inr \<lparr>ao_batch = i, ao_path = dst, ao_checksum = ib_file_checksum b, ao_reused = reused\<rparr>, t', s')
    \<and> has_checksum sha (io_view s') dst (ib_file_checksum b) \<and> io_view s' src = None
    \<and> (\<exists>b'. find_batch i t' = Some b' \<and> ib_archive_status b' = AR_ARCHIVED)"
proof -
  let ?c = "ib_file_checksum b" and ?s = "\<lparr>io_view = v, io_seen = [], io_hook = h\<rparr>"
  obtain b2 relative where r: "find_batch i st = Some b2"
    "archive_relative_path (ib_report_type b2) (ib_report_date b2) (ib_file_checksum b2) = Inr relative"
    "at_archive a = join_path relative" "at_checksum a = ib_file_checksum b2"
    by (rule prepared_attempt[OF p])
  have b2: "b2 = b" using r(1) b by simp
  have dst': "dst = archive_object roots b" using dst r(2,3) by (simp add: archive_object_def within_root_Inr b2)
  have paths: "src \<noteq> dst" using src dst service_roots[OF service] by (auto simp: within_root_Inr)
  moreover have "object_path dst" using archive_object_path[OF r(2), of roots] by (simp add: dst' b2)
  ultimately have paths: "src \<noteq> dst" "object_path dst" by blast+
  obtain m s1 where m: "move_to_archive sha env src dst ?c ?s = (m, s1)" by (cases "move_to_archive sha env src dst ?c ?s")
  have "case m of Inr x \<Rightarrow> has_checksum sha (io_view s1) dst ?c \<and> io_view s1 src = None | Inl _ \<Rightarrow> False"
    using tripleD(2)[OF move_ok[OF env paths] _ _ m] view by simp
  then obtain reused where moved: "m = Inr reused" "has_checksum sha (io_view s1) dst ?c" "io_view s1 src = None"
    by (cases m) auto
  obtain t' where t': "mark_archived i now t = Inr t'" using prepared_marks[OF p] by blast
  have archived: "\<exists>b'. find_batch i t' = Some b' \<and> ib_archive_status b' = AR_ARCHIVED"
    by (rule prepared_marked[OF p t'])
  show ?thesis
    by (rule exI[of _ reused], rule exI[of _ t'], rule exI[of _ s1])
      (simp add: archive_batch_def p src dst r(4)[unfolded b2] Let_def m moved t' archived)
qed

subsection \<open>Evidence is never lost\<close>


subsection \<open>Archived batches have their object\<close>

text \<open>C14: C2:
  In every state reached from the empty database by deliveries, queue operations, archive attempts with any outcome of
  their transactions, hooks and system calls, attempts cut off by a crash, and changes of files outside the archive: a
  batch marked archived has a file at its recorded archive path with the checksum of the delivered file, and the
  invariant of the ingestion database holds.
\<close>

theorem archived_batches_have_objects:
  assumes "make_archive_service inbox archive = Some roots"
    and "(archival_step cfg roots)\<^sup>*\<^sup>* (empty_database, v0) (db, v)"
  shows "(\<forall>b \<in> set (st_batches (db_sources db)). ib_archive_status b = AR_ARCHIVED \<longrightarrow>
        (\<exists>p. ib_archive_path b = Some p \<and> is_file v (ar_archive roots @ path_parts p)
          \<and> ic_sha cfg (file_content v (ar_archive roots @ path_parts p)) = ib_file_checksum b))
    \<and> database_ok (ic_sha cfg) (ic_fromiso cfg) db"
proof -
  have "archival_ok cfg roots (db, v)"
    using assms(2)
  proof (induction rule: rtranclp_induct)
    case base
    show ?case using empty_database_ok
      by (simp add: archival_ok_def archived_kept_def empty_database_def empty_sources_def)
  qed (rule archival_step_ok[OF assms(1)])
  then show ?thesis by (auto simp: archival_ok_def archived_kept_def object_present_def has_checksum_def)
qed

subsection \<open>A retry succeeds\<close>


subsection \<open>A sample history\<close>

text \<open>An attempt that runs out of space while it copies, an attempt without faults, and the retry of the first.\<close>

definition sample_roots :: archive_roots where
  "sample_roots = \<lparr>ar_inbox = [''inbox''], ar_archive = [''archive'']\<rparr>"

definition sample_files :: file_view where
  "sample_files p = (if p = [] then Some DirNode else sample_views 0 p)"

definition sample_environment :: "nat archive_env" where
  "sample_environment = \<lparr>ae_hook = no_failure, ae_system = no_failure, ae_copied = 0, ae_names = [''r'']\<rparr>"

definition failing_environment :: "nat archive_env" where
  "failing_environment = sample_environment\<lparr>ae_copied := 0,
     ae_system := \<lambda>h call. if call = ''copy'' then (Inl ''no space'', h) else (Inr (), h)\<rparr>"

definition good_fates :: archive_fates where
  "good_fates = \<lparr>af_prepare = CommitOk, af_marker = CommitOk, af_failure = CommitOk\<rparr>"

definition sample_committed :: source_tables where
  "sample_committed = empty_sources\<lparr>st_batches := [\<lparr>ib_id = sample_uuid 1 0, ib_delivery_key = sample_digest [],
     ib_source_system = ''threadline_shop'', ib_report_type = ''ORDERS'', ib_report_date = 730000, ib_filename = ''orders.json'',
     ib_file_checksum = sample_digest [], ib_manifest_checksum = sample_digest [], ib_schema_version = ''1'',
     ib_declared_rows = 3, ib_observed_rows = 3, ib_status = IS_COMMITTED, ib_archive_status = AR_PENDING, ib_archive_path = None,
     ib_received_at = 4, ib_committed_at = Some 5, ib_archived_at = None, ib_error_message = None,
     ib_source_path = Some ''orders.json'', ib_archive_attempts = 0, ib_archive_last_attempt = None, ib_archive_error = None\<rparr>]\<rparr>"

definition first_attempt :: "(archive_error + archive_outcome) \<times> source_tables \<times> nat archive_io" where
  "first_attempt = archive_batch sample_digest failing_environment (\<lambda>_ _. ''error'') good_fates sample_roots (sample_uuid 1 0) None 6
     sample_committed \<lparr>io_view = sample_files, io_seen = [], io_hook = 0\<rparr>"

definition sample_object :: path where
  "sample_object = ''archive'' # path_parts (join_path [''ORDERS'', isoformat 730000, ''00'', sample_digest [] @ ''.json''])"

lemma sample_service: "make_archive_service [''inbox''] [''archive''] = Some sample_roots"
  by (simp add: make_archive_service_def sample_roots_def)

lemma sample_calm: "faultless sample_environment"
  by (simp add: faultless_def sample_environment_def)

lemma sample_object_facts: "object_path [''inbox'', ''orders.json''] \<and> list_all (\<lambda>x. take 1 x \<noteq> ''.'') (butlast sample_object)
    \<and> hd sample_object = ''archive'' \<and> 2 \<le> length sample_object"
  by code_simp

lemma sample_object_Cons: "\<exists>y ys. sample_object = ''archive'' # y # ys"
proof -
  have "Suc (Suc 0) \<le> length sample_object" "hd sample_object = ''archive''" using sample_object_facts by auto
  then obtain x y ys where "sample_object = x # y # ys" and "hd sample_object = ''archive''" by (auto simp: Suc_le_length_iff)
  then show ?thesis by (metis list.sel(1))
qed

lemma sample_files_none: "sample_files (''archive'' # p) = None"
  by (simp add: sample_files_def sample_views_def)

lemma sample_retryable:
  "retryable sample_digest (sample_digest []) [''inbox'', ''orders.json''] sample_object sample_files"
  "free_name sample_environment (sample_digest []) (butlast sample_object) sample_files"
proof -
  obtain y ys where o: "sample_object = ''archive'' # y # ys" using sample_object_Cons by blast
  have "sample_files (take n (butlast sample_object)) = None \<or> sample_files (take n (butlast sample_object)) = Some DirNode" for n
    using sample_files_none by (cases n) (auto simp: o sample_files_def)
  then show "retryable sample_digest (sample_digest []) [''inbox'', ''orders.json''] sample_object sample_files"
    using sample_files_none by (simp add: retryable_def prefixes_ok_def o has_checksum_def is_file_def sample_files_def sample_views_def sample_digest_def)
  show "free_name sample_environment (sample_digest []) (butlast sample_object) sample_files"
    using sample_files_none by (simp add: free_name_def sample_environment_def o)
qed

lemma sample_prepared:
  "case prepare_attempt sample_roots (sample_uuid 1 0) None 6 sample_committed of
     Inl _ \<Rightarrow> False
   | Inr (a, t) \<Rightarrow> within_root [''inbox''] (at_source a) = Inr [''inbox'', ''orders.json'']
       \<and> within_root [''archive''] (at_archive a) = Inr sample_object"
  by code_simp

lemma delivered_prepared:
  "case prepare_attempt sample_roots (sample_uuid 1 0) None 6 (db_sources sample_database) of
     Inl _ \<Rightarrow> False
   | Inr (a, t) \<Rightarrow> within_root [''inbox''] (at_source a) = Inr [''inbox'', ''orders.json'']
       \<and> within_root [''archive''] (at_archive a) = Inr sample_object \<and> at_checksum a = sample_digest []"
  by code_simp

lemma sample_found: "\<exists>b. find_batch (sample_uuid 1 0) sample_committed = Some b \<and> ib_file_checksum b = sample_digest []"
  by (simp add: find_batch_def sample_committed_def)

lemma first_attempt_failed: "case first_attempt of (r, st, s) \<Rightarrow> map ib_archive_status (st_batches st) = [AR_FAILED]"
  by code_simp

lemma first_attempt_cleaned:
  "case first_attempt of (r, st, s) \<Rightarrow> io_view s (butlast sample_object @ [temporary_name (sample_digest []) ''r'']) = None"
  by code_simp

lemma second_prepared:
  "case first_attempt of (r, st, s) \<Rightarrow>
     (case prepare_attempt sample_roots (sample_uuid 1 0) None 7 st of Inl _ \<Rightarrow> False | Inr _ \<Rightarrow> True)"
  by code_simp


theorem archived_batches_have_objects_witness:
  "\<exists>db v b. (archival_step sample_ingestion sample_roots)\<^sup>*\<^sup>* (empty_database, sample_files) (db, v)
     \<and> b \<in> set (st_batches (db_sources db)) \<and> ib_archive_status b = AR_ARCHIVED
     \<and> (\<exists>p. ib_archive_path b = Some p \<and> is_file v (''archive'' # path_parts p))"
proof -
  have sha: "ic_sha sample_ingestion = sample_digest" by (simp add: sample_ingestion_def)
  obtain a t where p: "prepare_attempt sample_roots (sample_uuid 1 0) None 6 (db_sources sample_database) = Inr (a, t)"
    "within_root (ar_inbox sample_roots) (at_source a) = Inr [''inbox'', ''orders.json'']"
    "within_root (ar_archive sample_roots) (at_archive a) = Inr sample_object" "at_checksum a = sample_digest []"
    using delivered_prepared by (auto simp: sample_roots_def split: sum.splits)
  obtain b0 where b0: "find_batch (sample_uuid 1 0) (db_sources sample_database) = Some b0" "ib_file_checksum b0 = sample_digest []"
    using prepared_attempt[OF p(1)] p(4) by metis
  obtain r st' s' where f: "archive_batch sample_digest sample_environment (\<lambda>_ _. ''error'') good_fates sample_roots (sample_uuid 1 0)
      None 6 (db_sources sample_database) \<lparr>io_view = sample_files, io_seen = [], io_hook = 0\<rparr> = (r, st', s')"
    "\<exists>b. find_batch (sample_uuid 1 0) st' = Some b \<and> ib_archive_status b = AR_ARCHIVED"
    using faultless_attempt[OF sample_service sample_calm p(1) b0(1) p(2,3), of sample_digest sample_files "\<lambda>_ _. ''error''" CommitOk 0]
      sample_retryable b0(2) by (auto simp: good_fates_def)
  let ?db = "sample_database\<lparr>db_sources := st'\<rparr>"
  have "archival_step sample_ingestion sample_roots (empty_database, sample_files) (sample_database, sample_files)"
    by (rule ingested, rule delivered, rule sample_outcome[unfolded sample_delivered_def])
  moreover have "archival_step sample_ingestion sample_roots (sample_database, sample_files) (?db, io_view s')"
    by (rule attempted) (unfold sha, rule f(1))
  ultimately have steps: "(archival_step sample_ingestion sample_roots)\<^sup>*\<^sup>* (empty_database, sample_files) (?db, io_view s')"
    by (meson rtranclp.simps)
  obtain b where b: "b \<in> set (st_batches (db_sources ?db))" "ib_archive_status b = AR_ARCHIVED"
    using f(2) by (auto simp: find_batch_def dest!: find_member)
  with conjunct1[OF archived_batches_have_objects[OF sample_service steps]] steps show ?thesis
    by (intro exI[of _ ?db] exI[of _ "io_view s'"] exI[of _ b]) (auto simp: sample_roots_def)
qed


end
