(* ===== verification/Ingestion_Ledger.thy ===== *)
theory Ingestion_Ledger
  imports Archival Source_Files Ingestion_Invariant
begin

text \<open>
  The ingestion ledger: deliveries and their keys (ingestion/hashing.py, ingestion/models.py), the statements of the
  repository (db/ingestion_repository.py), the recording of a delivery in one transaction (ingestion/service.py), and
  the registration of a gated file (file_ingestion.py).
\<close>

subsection \<open>Deliveries and their keys\<close>

record source_delivery =
  sd_source_system :: string
  sd_report_type :: report_type
  sd_report_date :: date
  sd_entity_type :: entity_type
  sd_filename :: string
  sd_schema_version :: string
  sd_declared_rows :: int
  sd_records :: "payload list"
  sd_file_bytes :: string
  sd_manifest_bytes :: string
  sd_expected_checksum :: "string option"

datatype ledger_error =
    DeliveryFieldInvalid string
  | LedgerFilenameEmpty
  | PayloadNotFinite
  | LedgerTable table_error
  | LedgerBatchMissing
  | LedgerStatusRefused
  | EvidenceConservation
  | LedgerCommitFailed
  | LedgerLabelUnknown string
  | LedgerGateRaised source_error
  | ReadyWithoutDelivery

definition make_source_delivery :: "source_delivery \<Rightarrow> ledger_error + source_delivery" where
  "make_source_delivery d =
     bind_result (require (sd_source_system d \<noteq> [] \<and> sd_source_system d = strip (sd_source_system d))
       (DeliveryFieldInvalid ''source_system'')) (\<lambda>_.
     bind_result (require (strip (sd_filename d) \<noteq> []) (DeliveryFieldInvalid ''original_filename'')) (\<lambda>_.
     bind_result (require (sd_schema_version d \<noteq> [] \<and> sd_schema_version d = strip (sd_schema_version d))
       (DeliveryFieldInvalid ''schema_version'')) (\<lambda>_.
     bind_result (require (0 \<le> sd_declared_rows d) (DeliveryFieldInvalid ''declared_row_count'')) (\<lambda>_. Inr d))))"

text \<open>The last component of a name with separators of either kind.\<close>

definition normalize_filename :: "string \<Rightarrow> ledger_error + string" where
  "normalize_filename name =
     (let r = last (split_slash (map (\<lambda>c. if c = CHR 0x5C then CHR ''/'' else c) name))
      in bind_result (require (r \<noteq> []) LedgerFilenameEmpty) (\<lambda>_. Inr r))"

definition payload_sha256 :: "(string \<Rightarrow> string) \<Rightarrow> payload \<Rightarrow> ledger_error + string" where
  "payload_sha256 sha p = bind_result (require (finite_floats (JObj p)) PayloadNotFinite) (\<lambda>_. Inr (document_fingerprint sha (JObj p)))"

definition calculate_delivery_key :: "(string \<Rightarrow> string) \<Rightarrow> source_delivery \<Rightarrow> string \<Rightarrow> string \<Rightarrow> ledger_error + string" where
  "calculate_delivery_key sha d file_checksum manifest_checksum =
     bind_result (normalize_filename (sd_filename d)) (\<lambda>name. Inr (document_fingerprint sha (JObj
       [(''source_system'', JStr (sd_source_system d)), (''report_type'', JStr (report_type_value (sd_report_type d))),
        (''report_date'', JStr (isoformat (sd_report_date d))), (''entity_type'', JStr (entity_type_value (sd_entity_type d))),
        (''original_filename'', JStr name), (''schema_version'', JStr (sd_schema_version d)),
        (''file_checksum'', JStr file_checksum), (''manifest_checksum'', JStr manifest_checksum)])))"

subsection \<open>The repository\<close>

text \<open>
  \<open>ON CONFLICT (delivery_key) DO NOTHING\<close>: the constraints of the row come first; a known key then leaves the table as
  it is, and only a new row can meet a known identity.
\<close>

definition create_batch :: "ingestion_batch \<Rightarrow> source_tables \<Rightarrow> table_error + bool \<times> source_tables" where
  "create_batch b st = bind_result (require (batch_constraints b) (TableConstraint ''ingestion_batch'')) (\<lambda>_.
     if ib_delivery_key b \<in> ib_delivery_key ` set (st_batches st) then Inr (False, st)
     else bind_result (insert_batch b st) (\<lambda>st'. Inr (True, st')))"

definition get_batch_by_delivery_key :: "string \<Rightarrow> source_tables \<Rightarrow> ledger_error + ingestion_batch" where
  "get_batch_by_delivery_key key st = (case find_delivery key st of None \<Rightarrow> Inl LedgerBatchMissing | Some b \<Rightarrow> Inr b)"

text \<open>\<open>ON CONFLICT (batch_id, row_number) DO NOTHING\<close>, row after row.\<close>

definition insert_prepared :: "source_receipt \<Rightarrow> source_tables \<Rightarrow> table_error + source_tables" where
  "insert_prepared r st = bind_result (require (receipt_constraints r) (TableConstraint ''source_receipt'')) (\<lambda>_.
     if (sr_batch r, sr_row_number r) \<in> (\<lambda>r. (sr_batch r, sr_row_number r)) ` set (st_receipts st) then Inr st
     else insert_receipt r st)"

definition insert_receipts :: "source_receipt list \<Rightarrow> source_tables \<Rightarrow> table_error + source_tables" where
  "insert_receipts rs st = fold_result insert_prepared rs st"

definition set_batch_status :: "uuid \<Rightarrow> ingestion_status \<Rightarrow> string option \<Rightarrow> source_tables \<Rightarrow> ledger_error + source_tables" where
  "set_batch_status i status message st =
     bind_result (require (status \<in> {IS_PROCESSING, IS_FAILED}) LedgerStatusRefused) (\<lambda>_.
     bind_result (lift_error LedgerTable (update_batch i (\<lambda>b. b\<lparr>ib_status := status, ib_error_message := message\<rparr>) st)) (\<lambda>st'.
     bind_result (require (length (filter (\<lambda>b. ib_id b = i) (st_batches st)) = 1) LedgerBatchMissing) (\<lambda>_. Inr st')))"

record receipt_totals =
  rt_total :: int
  rt_processable :: int
  rt_quarantined :: int

definition receipt_counts :: "uuid \<Rightarrow> source_tables \<Rightarrow> receipt_totals" where
  "receipt_counts i st = (let rows = filter (\<lambda>r. sr_batch r = i) (st_receipts st) in
     \<lparr>rt_total = int (length rows),
      rt_processable = int (length (filter (\<lambda>r. sr_disposition r = DI_PENDING) rows)),
      rt_quarantined = int (length (filter (\<lambda>r. sr_disposition r = DI_QUARANTINED) rows))\<rparr>)"

subsection \<open>Recording a delivery\<close>

definition issue_text :: "string \<Rightarrow> string \<Rightarrow> string \<Rightarrow> string" where
  "issue_text code expected actual = code @ '': manifest='' @ expected @ '', observed='' @ actual"

definition batch_issues :: "source_delivery \<Rightarrow> string \<Rightarrow> int \<Rightarrow> string list" where
  "batch_issues d file_checksum row_total =
     (if sd_declared_rows d \<noteq> row_total
      then [issue_text ''ROW_COUNT_MISMATCH'' (json_dumps (JInt (sd_declared_rows d))) (json_dumps (JInt row_total))] else [])
     @ (case sd_expected_checksum d of
          None \<Rightarrow> []
        | Some expected \<Rightarrow> if map to_lower expected \<noteq> file_checksum
            then [issue_text ''FILE_CHECKSUM_MISMATCH'' (map to_lower expected) file_checksum] else [])"

fun join_issues :: "string list \<Rightarrow> string" where
  "join_issues [] = []"
| "join_issues [x] = x"
| "join_issues (x # xs) = x @ ''; '' @ join_issues xs"

definition ledger_receipt_id :: "(string \<Rightarrow> uuid) \<Rightarrow> uuid \<Rightarrow> nat \<Rightarrow> string \<Rightarrow> uuid" where
  "ledger_receipt_id uuid5 batch n hash = uuid5 (''threadline:'' @ batch @ '':'' @ string_of_nat n @ '':'' @ hash)"

definition prepare_receipt ::
  "(string \<Rightarrow> string) \<Rightarrow> (string \<Rightarrow> pydatetime option) \<Rightarrow> (string \<Rightarrow> uuid) \<Rightarrow> instant \<Rightarrow> uuid \<Rightarrow> entity_type \<Rightarrow> bool \<Rightarrow> nat \<times> payload
     \<Rightarrow> ledger_error + source_receipt" where
  "prepare_receipt sha fromiso uuid5 now batch et failed x = (case x of (n, payload) \<Rightarrow>
     bind_result (payload_sha256 sha payload) (\<lambda>hash.
       let i = ledger_receipt_id uuid5 batch n hash in
       (case parse_source_record fromiso et (JObj payload) of
          Inl violation \<Rightarrow> (let rejected = quarantine_from_violation (Inl et) payload violation in
            Inr (receipt_row i batch n et (qr_source_id rejected) None hash payload DI_QUARANTINED
              (Some (qr_reason_code rejected)) now))
        | Inr r \<Rightarrow> Inr (receipt_row i batch n et (Some (record_id r)) (Some (record_source_version r)) hash payload
            (if failed then DI_QUARANTINED else DI_PENDING) (if failed then Some ''BATCH_VALIDATION_FAILED'' else None) now))))"

definition prepare_receipts ::
  "(string \<Rightarrow> string) \<Rightarrow> (string \<Rightarrow> pydatetime option) \<Rightarrow> (string \<Rightarrow> uuid) \<Rightarrow> instant \<Rightarrow> uuid \<Rightarrow> source_delivery \<Rightarrow> string list
     \<Rightarrow> ledger_error + source_receipt list" where
  "prepare_receipts sha fromiso uuid5 now batch d issues =
     map_result (prepare_receipt sha fromiso uuid5 now batch (sd_entity_type d) (issues \<noteq> [])) (numbered_rows (sd_records d))"

record ingestion_ledger_result =
  lr_batch :: uuid
  lr_delivery_key :: string
  lr_status :: ingestion_status
  lr_replay :: bool
  lr_counts :: receipt_totals
  lr_file_checksum :: string
  lr_manifest_checksum :: string

definition ledger_batch :: "(string \<Rightarrow> string) \<Rightarrow> uuid \<Rightarrow> instant \<Rightarrow> source_delivery \<Rightarrow> string \<Rightarrow> string \<Rightarrow> ingestion_batch" where
  "ledger_batch sha i now d key name =
     \<lparr>ib_id = i, ib_delivery_key = key, ib_source_system = sd_source_system d,
      ib_report_type = report_type_value (sd_report_type d), ib_report_date = sd_report_date d, ib_filename = name,
      ib_file_checksum = sha (sd_file_bytes d), ib_manifest_checksum = sha (sd_manifest_bytes d),
      ib_schema_version = sd_schema_version d, ib_declared_rows = sd_declared_rows d,
      ib_observed_rows = int (length (sd_records d)), ib_status = IS_RECEIVED, ib_archive_status = AR_PENDING,
      ib_archive_path = None, ib_received_at = now, ib_committed_at = None, ib_archived_at = None, ib_error_message = None,
      ib_source_path = None, ib_archive_attempts = 0, ib_archive_last_attempt = None, ib_archive_error = None\<rparr>"

text \<open>The work on a new batch: its receipts, its status, and the batch as stored.\<close>

definition fill_batch ::
  "(string \<Rightarrow> string) \<Rightarrow> (string \<Rightarrow> pydatetime option) \<Rightarrow> (string \<Rightarrow> uuid) \<Rightarrow> instant \<Rightarrow> source_delivery \<Rightarrow> string list
     \<Rightarrow> ingestion_batch \<Rightarrow> source_tables \<Rightarrow> ledger_error + ingestion_batch \<times> source_tables" where
  "fill_batch sha fromiso uuid5 now d issues stored st =
     bind_result (prepare_receipts sha fromiso uuid5 now (ib_id stored) d issues) (\<lambda>receipts.
     bind_result (lift_error LedgerTable (insert_receipts receipts st)) (\<lambda>st1.
     bind_result (set_batch_status (ib_id stored) (if issues \<noteq> [] then IS_FAILED else IS_PROCESSING)
       (if issues \<noteq> [] then Some (join_issues issues) else None) st1) (\<lambda>st2.
     bind_result (get_batch_by_delivery_key (ib_delivery_key stored) st2) (\<lambda>again. Inr (again, st2)))))"

definition stage_ledger ::
  "(string \<Rightarrow> string) \<Rightarrow> (string \<Rightarrow> pydatetime option) \<Rightarrow> (string \<Rightarrow> uuid) \<Rightarrow> uuid \<Rightarrow> instant \<Rightarrow> source_delivery \<Rightarrow> source_tables
     \<Rightarrow> ledger_error + string \<times> bool \<times> ingestion_batch \<times> source_tables" where
  "stage_ledger sha fromiso uuid5 proposed now d st =
     (let file_checksum = sha (sd_file_bytes d); manifest_checksum = sha (sd_manifest_bytes d);
          issues = batch_issues d file_checksum (int (length (sd_records d))) in
      bind_result (calculate_delivery_key sha d file_checksum manifest_checksum) (\<lambda>key.
      bind_result (normalize_filename (sd_filename d)) (\<lambda>name.
      bind_result (lift_error LedgerTable (create_batch (ledger_batch sha proposed now d key name) st)) (\<lambda>(inserted, st1).
      bind_result (get_batch_by_delivery_key key st1) (\<lambda>stored.
      bind_result (if inserted then fill_batch sha fromiso uuid5 now d issues stored st1 else Inr (stored, st1)) (\<lambda>(final, st2).
        Inr (key, inserted, final, st2)))))))"

text \<open>The counts of what is stored are checked against the batch before the result is made.\<close>

definition ledger_transaction ::
  "(string \<Rightarrow> string) \<Rightarrow> (string \<Rightarrow> pydatetime option) \<Rightarrow> (string \<Rightarrow> uuid) \<Rightarrow> uuid \<Rightarrow> instant \<Rightarrow> source_delivery \<Rightarrow> source_tables
     \<Rightarrow> ledger_error + ingestion_ledger_result \<times> source_tables" where
  "ledger_transaction sha fromiso uuid5 proposed now d st =
     bind_result (stage_ledger sha fromiso uuid5 proposed now d st) (\<lambda>(key, inserted, final, st2).
       let counts = receipt_counts (ib_id final) st2 in
       bind_result (require (rt_total counts = ib_observed_rows final) EvidenceConservation) (\<lambda>_.
         Inr (\<lparr>lr_batch = ib_id final, lr_delivery_key = key, lr_status = ib_status final, lr_replay = \<not> inserted,
               lr_counts = counts, lr_file_checksum = sha (sd_file_bytes d), lr_manifest_checksum = sha (sd_manifest_bytes d)\<rparr>, st2)))"

text \<open>The transaction works on a copy of the tables; \<open>fate\<close> is what becomes of its commit.\<close>

definition record_delivery ::
  "(string \<Rightarrow> string) \<Rightarrow> (string \<Rightarrow> pydatetime option) \<Rightarrow> (string \<Rightarrow> uuid) \<Rightarrow> uuid \<Rightarrow> instant \<Rightarrow> commit_fate \<Rightarrow> source_delivery
     \<Rightarrow> source_tables \<Rightarrow> (ledger_error + ingestion_ledger_result) \<times> source_tables" where
  "record_delivery sha fromiso uuid5 proposed now fate d st =
     (case ledger_transaction sha fromiso uuid5 proposed now d st of
        Inl e \<Rightarrow> (Inl e, st)
      | Inr (r, st') \<Rightarrow> (case fate of
          CommitOk \<Rightarrow> (Inr r, st') | CommitRefused \<Rightarrow> (Inl LedgerCommitFailed, st) | CommitAckLost \<Rightarrow> (Inl LedgerCommitFailed, st')))"

subsection \<open>Registering a gated file\<close>

definition register_verified_delivery ::
  "(source_delivery \<Rightarrow> source_tables \<Rightarrow> (ledger_error + ingestion_ledger_result) \<times> source_tables) \<Rightarrow> ready_source \<Rightarrow> source_tables
     \<Rightarrow> (ledger_error + ingestion_ledger_result) \<times> source_tables" where
  "register_verified_delivery record ready st = (let m = rs_manifest ready in
     (case enum_lookup report_type_name report_type_members (sm_report_type m) of
        None \<Rightarrow> (Inl (LedgerLabelUnknown (sm_report_type m)), st)
      | Some rt \<Rightarrow>
     (case enum_lookup entity_type_value entity_type_members (sm_entity_type m) of
        None \<Rightarrow> (Inl (LedgerLabelUnknown (sm_entity_type m)), st)
      | Some et \<Rightarrow>
     (case make_source_delivery \<lparr>sd_source_system = sm_source_system m, sd_report_type = rt, sd_report_date = sm_report_date m,
          sd_entity_type = et, sd_filename = last (rs_data_path ready), sd_schema_version = sm_schema_version m,
          sd_declared_rows = int (sm_row_count m), sd_records = rs_records ready, sd_file_bytes = rs_file_bytes ready,
          sd_manifest_bytes = rs_manifest_bytes ready, sd_expected_checksum = None\<rparr> of
        Inl e \<Rightarrow> (Inl e, st) | Inr d \<Rightarrow> record d st))))"

record file_ingestion_result =
  fi_state :: gate_state
  fi_reason :: string
  fi_ledger :: "ingestion_ledger_result option"

definition ingest_file ::
  "(source_delivery \<Rightarrow> source_tables \<Rightarrow> (ledger_error + ingestion_ledger_result) \<times> source_tables) \<Rightarrow> source_error + gate_result
     \<Rightarrow> source_tables \<Rightarrow> (ledger_error + file_ingestion_result) \<times> source_tables" where
  "ingest_file record gate st = (case gate of
       Inl e \<Rightarrow> (Inl (LedgerGateRaised e), st)
     | Inr g \<Rightarrow>
       if gr_state g \<noteq> GATE_READY then (Inr \<lparr>fi_state = gr_state g, fi_reason = gr_reason g, fi_ledger = None\<rparr>, st)
       else (case gr_ready g of
         None \<Rightarrow> (Inl ReadyWithoutDelivery, st)
       | Some ready \<Rightarrow> (case register_verified_delivery record ready st of
           (Inl e, st') \<Rightarrow> (Inl e, st')
         | (Inr r, st') \<Rightarrow> (Inr \<lparr>fi_state = GATE_READY, fi_reason = gr_reason g, fi_ledger = Some r\<rparr>, st'))))"

end
