(* ===== verification/Ledger_Facts.thy ===== *)
theory Ledger_Facts
  imports Ingestion_Ledger
begin

text \<open>
  The invariant of the ledger, what its transaction finds or adds, and the histories of recorded deliveries.
\<close>

subsection \<open>The invariant of the ledger\<close>

definition ledger_whole ::
  "(string \<Rightarrow> string) \<Rightarrow> (string \<Rightarrow> uuid) \<Rightarrow> source_tables \<Rightarrow> ingestion_batch \<Rightarrow> bool" where
  "ledger_whole sha uuid5 st b \<longleftrightarrow> 0 \<le> ib_observed_rows b
     \<and> map sr_row_number (filter (\<lambda>r. sr_batch r = ib_id b) (st_receipts st)) = [1..ib_observed_rows b]
     \<and> (\<forall>r \<in> set (st_receipts st). sr_batch r = ib_id b \<longrightarrow>
          sr_payload_hash r = document_fingerprint sha (JObj (sr_payload r))
          \<and> sr_id r = ledger_receipt_id uuid5 (ib_id b) (nat (sr_row_number r)) (sr_payload_hash r)
          \<and> (sr_disposition r = DI_PENDING \<and> sr_reason_code r = None \<and> ib_status b = IS_PROCESSING
             \<or> sr_disposition r = DI_QUARANTINED \<and> sr_reason_code r \<noteq> None))
     \<and> (ib_status b = IS_PROCESSING \<and> ib_declared_rows b = ib_observed_rows b \<and> ib_error_message b = None
        \<or> ib_status b = IS_FAILED \<and> ib_error_message b \<noteq> None)"

definition ledger_ok :: "(string \<Rightarrow> string) \<Rightarrow> (string \<Rightarrow> uuid) \<Rightarrow> source_tables \<Rightarrow> bool" where
  "ledger_ok sha uuid5 st \<longleftrightarrow> distinct (map ib_id (st_batches st)) \<and> distinct (map ib_delivery_key (st_batches st))
     \<and> distinct (map sr_id (st_receipts st))
     \<and> (\<forall>r \<in> set (st_receipts st). sr_batch r \<in> ib_id ` set (st_batches st))
     \<and> (\<forall>b \<in> set (st_batches st). ledger_whole sha uuid5 st b)"

subsection \<open>The receipts of a new batch\<close>

lemma insert_receipts_new:
  assumes "insert_receipts rs st = Inr st'"
    and "\<forall>r \<in> set rs. sr_batch r = i" and "distinct (map sr_row_number rs)"
    and "\<forall>r \<in> set (st_receipts st). sr_batch r = i \<longrightarrow> sr_row_number r \<notin> sr_row_number ` set rs"
  shows "st' = st\<lparr>st_receipts := st_receipts st @ rs\<rparr>"
    and "distinct (map sr_id (st_receipts st)) \<Longrightarrow> distinct (map sr_id (st_receipts st @ rs))"
    and "list_all receipt_constraints rs"
proof -
  have "st' = st\<lparr>st_receipts := st_receipts st @ rs\<rparr> \<and> list_all receipt_constraints rs
    \<and> (distinct (map sr_id (st_receipts st)) \<longrightarrow> distinct (map sr_id (st_receipts st @ rs)))"
    using assms
  proof (induction rs arbitrary: st)
    case Nil
    then show ?case by (simp add: insert_receipts_def)
  next
    case (Cons r rs)
    obtain s1 where one: "insert_prepared r st = Inr s1" and rest: "insert_receipts rs s1 = Inr st'"
      using Cons.prems(1) by (auto simp: insert_receipts_def result_simps)
    have "(sr_batch r, sr_row_number r) \<notin> (\<lambda>r. (sr_batch r, sr_row_number r)) ` set (st_receipts st)"
    proof
      assume "(sr_batch r, sr_row_number r) \<in> (\<lambda>r. (sr_batch r, sr_row_number r)) ` set (st_receipts st)"
      then obtain x where x: "x \<in> set (st_receipts st)" "sr_batch x = sr_batch r" "sr_row_number x = sr_row_number r"
        by (elim imageE) simp
      have "sr_batch x = i" using x(2) Cons.prems(2) by simp
      then have "sr_row_number x \<notin> sr_row_number ` set (r # rs)" using Cons.prems(4) x(1) by blast
      then show False using x(3) by simp
    qed
    then have ins: "insert_receipt r st = Inr s1" "receipt_constraints r"
      using one by (auto simp: insert_prepared_def result_simps)
    then have s1: "s1 = st\<lparr>st_receipts := st_receipts st @ [r]\<rparr>" "sr_id r \<notin> sr_id ` set (st_receipts st)"
      by (auto simp: insert_receipt_def result_simps)
    have fresh: "\<forall>x \<in> set (st_receipts s1). sr_batch x = i \<longrightarrow> sr_row_number x \<notin> sr_row_number ` set rs"
    proof (intro ballI impI)
      fix x assume x: "x \<in> set (st_receipts s1)" "sr_batch x = i"
      show "sr_row_number x \<notin> sr_row_number ` set rs"
      proof (cases "x = r")
        case False
        then have "x \<in> set (st_receipts st)" using x(1) s1(1) by simp
        then show ?thesis using Cons.prems(4) x(2) by simp
      qed (use Cons.prems(3) in simp)
    qed
    have "st' = s1\<lparr>st_receipts := st_receipts s1 @ rs\<rparr> \<and> list_all receipt_constraints rs
      \<and> (distinct (map sr_id (st_receipts s1)) \<longrightarrow> distinct (map sr_id (st_receipts s1 @ rs)))"
      using Cons.IH[OF rest _ _ fresh] Cons.prems(2,3) by simp
    then show ?case using s1 ins(2) by auto
  qed
  then show "st' = st\<lparr>st_receipts := st_receipts st @ rs\<rparr>" "list_all receipt_constraints rs"
    "distinct (map sr_id (st_receipts st)) \<Longrightarrow> distinct (map sr_id (st_receipts st @ rs))" by blast+
qed

lemma prepare_receipt_facts:
  assumes "prepare_receipt sha fromiso uuid5 now batch et failed (n, payload) = Inr r"
  shows "sr_batch r = batch" "sr_row_number r = int n" "sr_payload r = payload"
    "sr_payload_hash r = document_fingerprint sha (JObj payload)"
    "sr_id r = ledger_receipt_id uuid5 batch n (sr_payload_hash r)"
    "sr_disposition r = DI_PENDING \<longleftrightarrow> \<not> failed \<and> (\<exists>x. parse_source_record fromiso et (JObj payload) = Inr x)"
    "sr_disposition r = DI_PENDING \<and> sr_reason_code r = None \<or> sr_disposition r = DI_QUARANTINED \<and> sr_reason_code r \<noteq> None"
  using assms by (auto simp: prepare_receipt_def payload_sha256_def result_simps receipt_row_def Let_def split: sum.splits if_splits)

lemma prepared_rows:
  assumes "prepare_receipts sha fromiso uuid5 now batch d issues = Inr rs"
  shows "list_all2 (\<lambda>x r. prepare_receipt sha fromiso uuid5 now batch (sd_entity_type d) (issues \<noteq> []) x = Inr r)
      (numbered_rows (sd_records d)) rs"
    and "length rs = length (sd_records d)" and "map sr_row_number rs = [1..int (length (sd_records d))]"
    and "\<forall>r \<in> set rs. sr_batch r = batch"
proof -
  show all: "list_all2 (\<lambda>x r. prepare_receipt sha fromiso uuid5 now batch (sd_entity_type d) (issues \<noteq> []) x = Inr r)
      (numbered_rows (sd_records d)) rs"
    using assms by (simp add: prepare_receipts_def map_result_Inr_iff)
  show "length rs = length (sd_records d)" using list_all2_lengthD[OF all] by (simp add: numbered_rows_def del: upt_Suc)
  have "map sr_row_number rs = map (int \<circ> fst) (numbered_rows (sd_records d))"
    using all by (induction rule: list_all2_induct) (auto dest: prepare_receipt_facts(2))
  then show "map sr_row_number rs = [1..int (length (sd_records d))]" by (simp add: numbered_row_numbers)
  show "\<forall>r \<in> set rs. sr_batch r = batch"
    using all by (induction rule: list_all2_induct) (auto dest: prepare_receipt_facts(1))
qed

lemma prepared_row:
  assumes "prepare_receipts sha fromiso uuid5 now batch d issues = Inr rs" and "r \<in> set rs"
  shows "\<exists>n p. (n, p) \<in> set (numbered_rows (sd_records d))
    \<and> prepare_receipt sha fromiso uuid5 now batch (sd_entity_type d) (issues \<noteq> []) (n, p) = Inr r"
  using prepared_rows(1)[OF assms(1)] assms(2) by (induction rule: list_all2_induct) auto

subsection \<open>The transaction\<close>

lemma pending_or_quarantined:
  "\<forall>r \<in> set xs. sr_disposition r = DI_PENDING \<or> sr_disposition r = DI_QUARANTINED \<Longrightarrow>
    length (filter (\<lambda>r. sr_disposition r = DI_PENDING) xs) + length (filter (\<lambda>r. sr_disposition r = DI_QUARANTINED) xs) = length xs"
  by (induction xs) auto

lemma ledger_counts:
  assumes whole: "ledger_whole sha uuid5 st b"
  shows "rt_total (receipt_counts (ib_id b) st) = ib_observed_rows b"
    and "rt_processable (receipt_counts (ib_id b) st) + rt_quarantined (receipt_counts (ib_id b) st) = ib_observed_rows b"
    and "ib_status b = IS_FAILED \<Longrightarrow> rt_processable (receipt_counts (ib_id b) st) = 0"
proof -
  let ?rows = "filter (\<lambda>r. sr_batch r = ib_id b) (st_receipts st)"
  have numbers: "map sr_row_number ?rows = [1..ib_observed_rows b]" and n0: "0 \<le> ib_observed_rows b"
    and kinds: "\<forall>r \<in> set ?rows. sr_disposition r = DI_PENDING \<or> sr_disposition r = DI_QUARANTINED"
    using whole by (auto simp: ledger_whole_def)
  have n: "int (length ?rows) = ib_observed_rows b" using arg_cong[OF numbers, of length] n0 by simp
  show "rt_total (receipt_counts (ib_id b) st) = ib_observed_rows b" using n by (simp add: receipt_counts_def Let_def)
  show "rt_processable (receipt_counts (ib_id b) st) + rt_quarantined (receipt_counts (ib_id b) st) = ib_observed_rows b"
    using pending_or_quarantined[OF kinds] n by (simp add: receipt_counts_def Let_def flip: of_nat_add)
  show "rt_processable (receipt_counts (ib_id b) st) = 0" if "ib_status b = IS_FAILED"
    using whole that by (auto simp: receipt_counts_def Let_def ledger_whole_def filter_empty_conv)
qed

text \<open>A new batch: the rows before it stay, its receipts follow them, and it stands with the status its issues give.\<close>

definition ledger_added ::
  "(string \<Rightarrow> string) \<Rightarrow> (string \<Rightarrow> pydatetime option) \<Rightarrow> (string \<Rightarrow> uuid) \<Rightarrow> uuid \<Rightarrow> instant \<Rightarrow> source_delivery \<Rightarrow> string \<Rightarrow> string
     \<Rightarrow> source_tables \<Rightarrow> source_tables \<Rightarrow> ingestion_batch \<Rightarrow> source_receipt list \<Rightarrow> bool" where
  "ledger_added sha fromiso uuid5 proposed now d key name st st' b rs \<longleftrightarrow>
     (let issues = batch_issues d (sha (sd_file_bytes d)) (int (length (sd_records d))) in
      proposed \<notin> ib_id ` set (st_batches st) \<and> key \<notin> ib_delivery_key ` set (st_batches st)
      \<and> prepare_receipts sha fromiso uuid5 now proposed d issues = Inr rs
      \<and> b = (ledger_batch sha proposed now d key name)\<lparr>ib_status := (if issues \<noteq> [] then IS_FAILED else IS_PROCESSING),
          ib_error_message := (if issues \<noteq> [] then Some (join_issues issues) else None)\<rparr>
      \<and> st' = st\<lparr>st_batches := st_batches st @ [b], st_receipts := st_receipts st @ rs\<rparr>
      \<and> (distinct (map sr_id (st_receipts st)) \<longrightarrow> distinct (map sr_id (st_receipts st'))))"

lemma ledger_added_ok:
  assumes ok: "ledger_ok sha uuid5 st" and added: "ledger_added sha fromiso uuid5 proposed now d key name st st' b rs"
  shows "ledger_ok sha uuid5 st'"
proof -
  let ?issues = "batch_issues d (sha (sd_file_bytes d)) (int (length (sd_records d)))"
  note a = added[unfolded ledger_added_def Let_def]
  have rs: "prepare_receipts sha fromiso uuid5 now proposed d ?issues = Inr rs" using a by blast
  note rows = prepared_rows[OF rs]
  have b: "ib_id b = proposed" "ib_delivery_key b = key" "ib_observed_rows b = int (length (sd_records d))"
    "ib_declared_rows b = sd_declared_rows d" using a by (simp_all add: ledger_batch_def)
  have tables: "st_batches st' = st_batches st @ [b]" "st_receipts st' = st_receipts st @ rs" using a by simp_all
  have known: "sr_batch r \<noteq> proposed" if "r \<in> set (st_receipts st)" for r
    using ok a that by (auto simp: ledger_ok_def)
  have old: "ledger_whole sha uuid5 st' x" if x: "x \<in> set (st_batches st)" for x
  proof -
    have "ib_id x \<noteq> proposed" using a x by auto
    then have "filter (\<lambda>r. sr_batch r = ib_id x) rs = []" "\<forall>r \<in> set rs. sr_batch r \<noteq> ib_id x"
      using rows(4) by (auto simp: filter_empty_conv)
    then show ?thesis using ok x by (auto simp: ledger_ok_def ledger_whole_def tables)
  qed
  have new: "ledger_whole sha uuid5 st' b"
  proof -
    have "filter (\<lambda>r. sr_batch r = ib_id b) (st_receipts st) = []" using known by (auto simp: filter_empty_conv b(1))
    moreover have "filter (\<lambda>r. sr_batch r = ib_id b) rs = rs" using rows(4) by (auto simp: filter_id_conv b(1))
    ultimately have numbers: "map sr_row_number (filter (\<lambda>r. sr_batch r = ib_id b) (st_receipts st')) = [1..ib_observed_rows b]"
      using rows(3) by (simp add: tables b(3))
    have status: "ib_status b = (if ?issues \<noteq> [] then IS_FAILED else IS_PROCESSING)"
      "ib_error_message b = (if ?issues \<noteq> [] then Some (join_issues ?issues) else None)" using a by simp_all
    have "?issues = [] \<Longrightarrow> ib_declared_rows b = ib_observed_rows b" by (simp add: batch_issues_def b(3,4) split: if_splits)
    then have standing: "ib_status b = IS_PROCESSING \<and> ib_declared_rows b = ib_observed_rows b \<and> ib_error_message b = None
        \<or> ib_status b = IS_FAILED \<and> ib_error_message b \<noteq> None" using status by simp
    have fields: "sr_payload_hash r = document_fingerprint sha (JObj (sr_payload r))
          \<and> sr_id r = ledger_receipt_id uuid5 (ib_id b) (nat (sr_row_number r)) (sr_payload_hash r)
          \<and> (sr_disposition r = DI_PENDING \<and> sr_reason_code r = None \<and> ib_status b = IS_PROCESSING
             \<or> sr_disposition r = DI_QUARANTINED \<and> sr_reason_code r \<noteq> None)"
      if r: "r \<in> set (st_receipts st')" "sr_batch r = ib_id b" for r
    proof -
      have "r \<in> set rs" using r known by (auto simp: tables b(1))
      from prepared_row[OF rs this] obtain n p where
        "prepare_receipt sha fromiso uuid5 now proposed (sd_entity_type d) (?issues \<noteq> []) (n, p) = Inr r" by blast
      note f = prepare_receipt_facts[OF this]
      show ?thesis using f status(1) by (simp add: b(1)) blast
    qed
    show ?thesis unfolding ledger_whole_def using numbers standing fields b(3) by simp
  qed
  have "distinct (map ib_id (st_batches st'))" "distinct (map ib_delivery_key (st_batches st'))" "distinct (map sr_id (st_receipts st'))"
    using ok a b(1,2) by (simp_all add: ledger_ok_def tables)
  moreover have "\<forall>r \<in> set (st_receipts st'). sr_batch r \<in> ib_id ` set (st_batches st')"
    using ok rows(4) by (auto simp: ledger_ok_def tables b(1))
  ultimately show ?thesis using old new by (auto simp: ledger_ok_def tables(1))
qed

lemma find_delivery_append:
  "ib_delivery_key b \<notin> ib_delivery_key ` set (st_batches st) \<Longrightarrow> st_batches st' = st_batches st @ [b] \<Longrightarrow>
    find_delivery (ib_delivery_key b) st' = Some b"
proof -
  assume fresh: "ib_delivery_key b \<notin> ib_delivery_key ` set (st_batches st)" and st': "st_batches st' = st_batches st @ [b]"
  have "List.find (\<lambda>x. ib_delivery_key x = ib_delivery_key b) (st_batches st) = None"
    using fresh by (metis (mono_tags, lifting) find_None_iff imageI)
  then show ?thesis by (simp add: find_delivery_def st' find_append)
qed

lemma fill_batch_facts:
  assumes fill: "fill_batch sha fromiso uuid5 now d issues stored st = Inr (final, st')"
    and st: "st = st0\<lparr>st_batches := st_batches st0 @ [stored]\<rparr>"
    and fresh: "ib_id stored \<notin> ib_id ` set (st_batches st0)" "ib_delivery_key stored \<notin> ib_delivery_key ` set (st_batches st0)"
    and known: "\<forall>r \<in> set (st_receipts st0). sr_batch r \<in> ib_id ` set (st_batches st0)"
  shows "\<exists>rs. prepare_receipts sha fromiso uuid5 now (ib_id stored) d issues = Inr rs
    \<and> final = stored\<lparr>ib_status := (if issues \<noteq> [] then IS_FAILED else IS_PROCESSING),
        ib_error_message := (if issues \<noteq> [] then Some (join_issues issues) else None)\<rparr>
    \<and> st' = st0\<lparr>st_batches := st_batches st0 @ [final], st_receipts := st_receipts st0 @ rs\<rparr>
    \<and> (distinct (map sr_id (st_receipts st0)) \<longrightarrow> distinct (map sr_id (st_receipts st')))"
proof -
  let ?status = "if issues \<noteq> [] then IS_FAILED else IS_PROCESSING"
  let ?message = "if issues \<noteq> [] then Some (join_issues issues) else None"
  let ?f = "\<lambda>b. b\<lparr>ib_status := ?status, ib_error_message := ?message\<rparr>"
  obtain rs s1 s2 where parts: "prepare_receipts sha fromiso uuid5 now (ib_id stored) d issues = Inr rs"
    "insert_receipts rs st = Inr s1" "set_batch_status (ib_id stored) ?status ?message s1 = Inr s2"
    "get_batch_by_delivery_key (ib_delivery_key stored) s2 = Inr final" "st' = s2"
    using fill by (auto simp: fill_batch_def result_simps)
  note rows = prepared_rows[OF parts(1)]
  have "distinct (map sr_row_number rs)" unfolding rows(3) by simp
  moreover have "\<forall>r \<in> set (st_receipts st). sr_batch r = ib_id stored \<longrightarrow> sr_row_number r \<notin> sr_row_number ` set rs"
  proof (intro ballI impI)
    fix r assume "r \<in> set (st_receipts st)" "sr_batch r = ib_id stored"
    then have "ib_id stored \<in> ib_id ` set (st_batches st0)" using bspec[OF known, of r] by (simp add: st)
    then show "sr_row_number r \<notin> sr_row_number ` set rs" using fresh(1) by simp
  qed
  ultimately have s1: "s1 = st\<lparr>st_receipts := st_receipts st @ rs\<rparr>"
    "distinct (map sr_id (st_receipts st)) \<Longrightarrow> distinct (map sr_id (st_receipts st @ rs))"
    using insert_receipts_new[OF parts(2) rows(4)] by blast+
  have "map (\<lambda>b. if ib_id b = ib_id stored then ?f b else b) (st_batches st0) = st_batches st0"
  proof (rule map_idI)
    fix x assume "x \<in> set (st_batches st0)"
    then have "ib_id x \<noteq> ib_id stored" using fresh(1) by (metis imageI)
    then show "(if ib_id x = ib_id stored then ?f x else x) = x" by simp
  qed
  then have s2: "s2 = st0\<lparr>st_batches := st_batches st0 @ [?f stored], st_receipts := st_receipts st0 @ rs\<rparr>"
    using parts(3) by (auto simp: set_batch_status_def update_batch_def result_simps s1(1) st)
  have "find_delivery (ib_delivery_key (?f stored)) s2 = Some (?f stored)"
    by (rule find_delivery_append[where st = st0]) (use fresh(2) in \<open>simp_all add: s2\<close>)
  then have "final = ?f stored" using parts(4) by (simp add: get_batch_by_delivery_key_def)
  then show ?thesis using parts(1,5) s1(2) s2 by (intro exI[of _ rs]) (simp add: st)
qed

text \<open>What the transaction finds: a known delivery as it is stored, or the batch it has added.\<close>

lemma stage_ledger_cases:
  assumes ok: "ledger_ok sha uuid5 st" and run: "stage_ledger sha fromiso uuid5 proposed now d st = Inr (key, inserted, b, st')"
  obtains name where "calculate_delivery_key sha d (sha (sd_file_bytes d)) (sha (sd_manifest_bytes d)) = Inr key"
    "normalize_filename (sd_filename d) = Inr name" "batch_constraints (ledger_batch sha proposed now d key name)"
    "\<not> inserted \<and> find_delivery key st = Some b \<and> st' = st
      \<or> inserted \<and> find_delivery key st = None \<and> (\<exists>rs. ledger_added sha fromiso uuid5 proposed now d key name st st' b rs)"
proof -
  let ?issues = "batch_issues d (sha (sd_file_bytes d)) (int (length (sd_records d)))"
  obtain name st1 stored where parts:
    "calculate_delivery_key sha d (sha (sd_file_bytes d)) (sha (sd_manifest_bytes d)) = Inr key"
    "normalize_filename (sd_filename d) = Inr name"
    "create_batch (ledger_batch sha proposed now d key name) st = Inr (inserted, st1)"
    "get_batch_by_delivery_key key st1 = Inr stored"
    "(if inserted then fill_batch sha fromiso uuid5 now d ?issues stored st1 else Inr (stored, st1)) = Inr (b, st')"
    using run by (auto simp: stage_ledger_def Let_def result_simps)
  let ?b = "ledger_batch sha proposed now d key name"
  have keys: "ib_delivery_key ?b = key" "ib_id ?b = proposed" by (simp_all add: ledger_batch_def)
  have known: "find_delivery key st = None \<longleftrightarrow> key \<notin> ib_delivery_key ` set (st_batches st)"
    by (auto simp: find_delivery_def find_None_iff)
  have constraints: "batch_constraints ?b" using parts(3) by (auto simp: create_batch_def result_simps)
  show thesis
  proof (cases inserted)
    case False
    then have "st1 = st" "key \<in> ib_delivery_key ` set (st_batches st)"
      using parts(3) keys by (auto simp: create_batch_def result_simps split: if_splits)
    then have "find_delivery key st = Some b" "st' = st"
      using parts(4,5) known False by (auto simp: get_batch_by_delivery_key_def split: option.splits)
    then show thesis using that[OF parts(1,2) constraints] False by blast
  next
    case True
    then have new: "key \<notin> ib_delivery_key ` set (st_batches st)" "insert_batch ?b st = Inr st1"
      using parts(3) keys by (auto simp: create_batch_def result_simps split: if_splits)
    then have st1: "st1 = st\<lparr>st_batches := st_batches st @ [?b]\<rparr>" "proposed \<notin> ib_id ` set (st_batches st)"
      using keys by (auto simp: insert_batch_def result_simps)
    have "find_delivery (ib_delivery_key ?b) st1 = Some ?b"
      by (rule find_delivery_append[where st = st]) (use new(1) keys in \<open>simp_all add: st1\<close>)
    then have stored: "stored = ?b" using parts(4) keys by (simp add: get_batch_by_delivery_key_def)
    have fill: "fill_batch sha fromiso uuid5 now d ?issues ?b st1 = Inr (b, st')" using parts(5) True stored by simp
    have refs: "\<forall>r \<in> set (st_receipts st). sr_batch r \<in> ib_id ` set (st_batches st)" using ok by (simp add: ledger_ok_def)
    have fresh: "ib_id ?b \<notin> ib_id ` set (st_batches st)" "ib_delivery_key ?b \<notin> ib_delivery_key ` set (st_batches st)"
      using st1(2) new(1) keys by simp_all
    have added: "\<exists>rs. ledger_added sha fromiso uuid5 proposed now d key name st st' b rs"
      using fill_batch_facts[OF fill st1(1) fresh refs] st1(2) new(1) unfolding ledger_added_def Let_def keys(2) by blast
    show thesis by (rule that[OF parts(1,2) constraints]) (use added True known new(1) in blast)
  qed
qed

lemma stage_ledger_whole:
  assumes ok: "ledger_ok sha uuid5 st" and run: "stage_ledger sha fromiso uuid5 proposed now d st = Inr (key, inserted, b, st')"
  shows "ledger_ok sha uuid5 st'" and "b \<in> set (st_batches st')" and "ib_delivery_key b = key"
    and "ledger_whole sha uuid5 st' b"
proof -
  obtain name where c: "\<not> inserted \<and> find_delivery key st = Some b \<and> st' = st
      \<or> inserted \<and> find_delivery key st = None \<and> (\<exists>rs. ledger_added sha fromiso uuid5 proposed now d key name st st' b rs)"
    by (rule stage_ledger_cases[OF ok run])
  have "ledger_ok sha uuid5 st' \<and> b \<in> set (st_batches st') \<and> ib_delivery_key b = key"
    using c
  proof (elim disjE conjE exE)
    assume "find_delivery key st = Some b" "st' = st"
    then show ?thesis using ok by (auto simp: find_delivery_def dest: find_member)
  next
    fix rs assume added: "ledger_added sha fromiso uuid5 proposed now d key name st st' b rs"
    then have "b \<in> set (st_batches st')" "ib_delivery_key b = key" by (simp_all add: ledger_added_def Let_def ledger_batch_def)
    then show ?thesis using ledger_added_ok[OF ok added] by blast
  qed
  then show "ledger_ok sha uuid5 st'" "b \<in> set (st_batches st')" "ib_delivery_key b = key" "ledger_whole sha uuid5 st' b"
    by (auto simp: ledger_ok_def)
qed

lemma ledger_transaction_staged:
  assumes ok: "ledger_ok sha uuid5 st"
  shows "ledger_transaction sha fromiso uuid5 proposed now d st = bind_result (stage_ledger sha fromiso uuid5 proposed now d st)
      (\<lambda>(key, inserted, b, st'). Inr (\<lparr>lr_batch = ib_id b, lr_delivery_key = key, lr_status = ib_status b, lr_replay = \<not> inserted,
         lr_counts = receipt_counts (ib_id b) st', lr_file_checksum = sha (sd_file_bytes d),
         lr_manifest_checksum = sha (sd_manifest_bytes d)\<rparr>, st'))"
proof (cases "stage_ledger sha fromiso uuid5 proposed now d st")
  case (Inr x)
  obtain key inserted b st' where x: "x = (key, inserted, b, st')" by (cases x)
  have "rt_total (receipt_counts (ib_id b) st') = ib_observed_rows b"
    by (rule ledger_counts(1)[OF stage_ledger_whole(4)[OF ok Inr[unfolded x]]])
  then show ?thesis by (simp add: ledger_transaction_def Inr x require_def)
qed (simp add: ledger_transaction_def)

subsection \<open>Histories of the ledger\<close>

inductive ledger_step ::
  "(string \<Rightarrow> string) \<Rightarrow> (string \<Rightarrow> pydatetime option) \<Rightarrow> (string \<Rightarrow> uuid) \<Rightarrow> source_tables \<Rightarrow> source_tables \<Rightarrow> bool"
  for sha fromiso uuid5 where
  recorded: "record_delivery sha fromiso uuid5 proposed now fate d st = (out, st') \<Longrightarrow> ledger_step sha fromiso uuid5 st st'"

lemma record_delivery_cases:
  assumes "record_delivery sha fromiso uuid5 proposed now fate d st = (out, st')" and "ledger_ok sha uuid5 st"
  shows "st' = st \<or> (\<exists>key b. stage_ledger sha fromiso uuid5 proposed now d st = Inr (key, True, b, st'))"
proof (cases "stage_ledger sha fromiso uuid5 proposed now d st")
  case (Inr x)
  obtain key inserted b s where x: "x = (key, inserted, b, s)" by (cases x)
  have "st' = st \<or> st' = s"
    using assms(1) by (auto simp: record_delivery_def ledger_transaction_staged[OF assms(2)] Inr x split: commit_fate.splits)
  moreover have "s = st" if "\<not> inserted"
    using stage_ledger_cases[OF assms(2) Inr[unfolded x]] that by blast
  ultimately show ?thesis using Inr x by (cases inserted) auto
qed (use assms(1) in \<open>auto simp: record_delivery_def ledger_transaction_staged[OF assms(2)]\<close>)

lemma ledger_step_ok: "ledger_step sha fromiso uuid5 st st' \<Longrightarrow> ledger_ok sha uuid5 st \<Longrightarrow> ledger_ok sha uuid5 st'"
  by (elim ledger_step.cases) (metis record_delivery_cases stage_ledger_whole(1))

lemma ledger_steps_ok:
  "(ledger_step sha fromiso uuid5)\<^sup>*\<^sup>* st st' \<Longrightarrow> ledger_ok sha uuid5 st \<Longrightarrow> ledger_ok sha uuid5 st'"
  by (induction rule: rtranclp_induct) (auto intro: ledger_step_ok)

lemma empty_ledger_ok: "ledger_ok sha uuid5 empty_sources"
  by (simp add: ledger_ok_def empty_sources_def)

text \<open>A known delivery keeps its batch and its receipts.\<close>

lemma ledger_step_kept:
  assumes step: "ledger_step sha fromiso uuid5 st st'" and ok: "ledger_ok sha uuid5 st" and b: "find_delivery key st = Some b"
  shows "find_delivery key st' = Some b" and "receipt_counts (ib_id b) st' = receipt_counts (ib_id b) st"
proof -
  have "st' = st \<or> (\<exists>x rs. st' = st\<lparr>st_batches := st_batches st @ [x], st_receipts := st_receipts st @ rs\<rparr>
      \<and> (\<forall>r \<in> set rs. sr_batch r \<noteq> ib_id b))"
    using step
  proof cases
    case (recorded proposed now fate d out)
    show ?thesis
    proof (cases "st' = st")
      case False
      then obtain k x where s: "stage_ledger sha fromiso uuid5 proposed now d st = Inr (k, True, x, st')"
        using record_delivery_cases[OF recorded ok] by blast
      obtain name rs where a: "ledger_added sha fromiso uuid5 proposed now d k name st st' x rs"
        by (rule stage_ledger_cases[OF ok s]) blast
      note a' = a[unfolded ledger_added_def Let_def]
      have "ib_id b \<noteq> proposed" using a' find_member[OF b[unfolded find_delivery_def]] by auto
      moreover have "\<forall>r \<in> set rs. sr_batch r = proposed" using a' by (intro prepared_rows(4)) blast
      ultimately have "\<forall>r \<in> set rs. sr_batch r \<noteq> ib_id b" by simp
      then show ?thesis using a' by blast
    qed blast
  qed
  then show "find_delivery key st' = Some b" "receipt_counts (ib_id b) st' = receipt_counts (ib_id b) st"
    using b by (auto simp: find_delivery_def find_append receipt_counts_def Let_def filter_empty_conv)
qed

lemma ledger_steps_kept:
  assumes "(ledger_step sha fromiso uuid5)\<^sup>*\<^sup>* st st'" and "ledger_ok sha uuid5 st" and "find_delivery key st = Some b"
  shows "find_delivery key st' = Some b \<and> receipt_counts (ib_id b) st' = receipt_counts (ib_id b) st"
  using assms(1)
proof (induction rule: rtranclp_induct)
  case (step y z)
  note ok = ledger_steps_ok[OF step(1) assms(2)]
  show ?case using ledger_step_kept[OF step(2) ok] step(3) by auto
qed (use assms(3) in simp)

end
