(* ===== verification/Spec2Isabelle.thy ===== *)
theory Spec2Isabelle
  imports Reconcile_Properties Contract_Properties Publication_Properties Impact_Soundness Recovery_Behavior Entity_Locks Recovery_Runner Recovery_Runtime
    Ingestion_Properties Rebuild_Refinement Recovery_Composition Source_Properties Archival_Properties Ledger_Properties
begin

end
